(* ===== verification/Prelude.thy ===== *)
theory Prelude
  imports Main "HOL-Library.Word"
begin

text \<open>
  Shared vocabulary of the development: the outcome of a Rust call (a value, an error value or a
  panic), unsigned 64-bit arithmetic on natural numbers with every overflow written out, the
  three-way comparison of \<open>core::cmp::Ord\<close>, and the generic lemmas on lists and alignments that the
  component theories share.

  Machine integers of type \<open>u64\<close> and \<open>usize\<close> (64-bit targets) are natural numbers together with the
  bound \<open>U64_MAX\<close>.  Every addition, subtraction or multiplication whose result can leave the range is
  one of the checked, saturating or wrapping operations below, as in the source.
\<close>

named_theorems checked_simps \<open>unfolding of the checked machine operations\<close>
named_theorems eval_simps \<open>unfoldings with which concrete runs are evaluated\<close>
named_theorems result_simps \<open>evaluation of results and their sequencing\<close>

section \<open>Outcomes\<close>

text \<open>
  \<open>Ok\<close> and \<open>Err\<close> are the constructors of Rust's \<open>Result\<close>; \<open>Panic\<close> stands for every way in which a call
  does not return: \<open>panic!\<close>, \<open>unreachable!\<close>, a failing \<open>unwrap\<close>, an index out of range or an
  arithmetic overflow of a plain operator.
\<close>

datatype ('e, 'a) result = Ok 'a | Err 'e | Panic

text \<open>The question mark operator.\<close>

fun rbind :: "('e, 'a) result \<Rightarrow> ('a \<Rightarrow> ('e, 'b) result) \<Rightarrow> ('e, 'b) result" where
  "rbind (Ok x) f = f x"
| "rbind (Err e) f = Err e"
| "rbind Panic f = Panic"

text \<open>\<open>Option::ok_or\<close>.\<close>

fun ok_or :: "'a option \<Rightarrow> 'e \<Rightarrow> ('e, 'a) result" where
  "ok_or (Some x) e = Ok x"
| "ok_or None e = Err e"

fun is_ok :: "('e, 'a) result \<Rightarrow> bool" where
  "is_ok (Ok x) = True"
| "is_ok (Err e) = False"
| "is_ok Panic = False"

lemma rbind_eq_Ok_iff [result_simps]: "rbind m f = Ok y \<longleftrightarrow> (\<exists>x. m = Ok x \<and> f x = Ok y)"
  by (cases m) auto

lemma rbind_eq_Panic_iff [result_simps]:
  "rbind m f = Panic \<longleftrightarrow> m = Panic \<or> (\<exists>x. m = Ok x \<and> f x = Panic)"
  by (cases m) auto

lemma rbind_eq_Err_iff [result_simps]:
  "rbind m f = Err e \<longleftrightarrow> m = Err e \<or> (\<exists>x. m = Ok x \<and> f x = Err e)"
  by (cases m) auto

lemma ok_or_eq_Ok_iff [simp]: "ok_or m e = Ok x \<longleftrightarrow> m = Some x"
  by (cases m) auto

lemma ok_or_eq_Err_iff [simp]: "ok_or m e = Err e' \<longleftrightarrow> m = None \<and> e = e'"
  by (cases m) auto

lemma ok_or_not_Panic [simp]: "ok_or m e \<noteq> Panic"
  by (cases m) auto

text \<open>
  Sequencing of calls that update a state and return an outcome: the state that an early return or a
  panic leaves behind is the state at that point.  \<open>unwrap\<close> turns an error into a panic.
\<close>

fun and_then ::
  "'s \<times> ('e, 'a) result \<Rightarrow> ('a \<Rightarrow> 's \<Rightarrow> 's \<times> ('e, 'b) result) \<Rightarrow> 's \<times> ('e, 'b) result"
where
  "and_then (s, Ok x) f = f x s"
| "and_then (s, Err e) f = (s, Err e)"
| "and_then (s, Panic) f = (s, Panic)"

fun unwrap :: "'s \<times> ('e, 'a) result \<Rightarrow> 's \<times> ('f, 'a) result" where
  "unwrap (s, Ok x) = (s, Ok x)"
| "unwrap (s, Err e) = (s, Panic)"
| "unwrap (s, Panic) = (s, Panic)"

lemma and_then_eq_Ok [result_simps]:
  "and_then m f = (s', Ok y) \<longleftrightarrow> (\<exists>s x. m = (s, Ok x) \<and> f x s = (s', Ok y))"
  by (cases "(m, f)" rule: and_then.cases) auto

lemma unwrap_eq_Ok [result_simps]: "unwrap m = (s, Ok x) \<longleftrightarrow> m = (s, Ok x)"
  by (cases m rule: unwrap.cases) auto

lemma unwrap_not_Err [simp]: "snd (unwrap m) \<noteq> Err e"
  by (cases m rule: unwrap.cases) auto

section \<open>Unsigned 64-bit arithmetic\<close>

definition U64_MAX :: nat where
  "U64_MAX = 18446744073709551615"

definition checked_add :: "nat \<Rightarrow> nat \<Rightarrow> nat option" where
  "checked_add a b = (if a + b \<le> U64_MAX then Some (a + b) else None)"

definition checked_sub :: "nat \<Rightarrow> nat \<Rightarrow> nat option" where
  "checked_sub a b = (if b \<le> a then Some (a - b) else None)"

definition checked_mul :: "nat \<Rightarrow> nat \<Rightarrow> nat option" where
  "checked_mul a b = (if a * b \<le> U64_MAX then Some (a * b) else None)"

definition saturating_add :: "nat \<Rightarrow> nat \<Rightarrow> nat" where
  "saturating_add a b = min (a + b) U64_MAX"

definition saturating_mul :: "nat \<Rightarrow> nat \<Rightarrow> nat" where
  "saturating_mul a b = min (a * b) U64_MAX"

definition saturating_sub :: "nat \<Rightarrow> nat \<Rightarrow> nat" where
  "saturating_sub a b = a - b"

definition wrapping_add :: "nat \<Rightarrow> nat \<Rightarrow> nat" where
  "wrapping_add a b = (a + b) mod (U64_MAX + 1)"

lemma U64_MAX_pow: "U64_MAX + 1 = 2 ^ 64"
  by (simp add: U64_MAX_def)

lemma checked_add_Some [checked_simps]:
  "checked_add a b = Some c \<longleftrightarrow> a + b \<le> U64_MAX \<and> c = a + b"
  by (auto simp: checked_add_def)

lemma checked_add_None [checked_simps]: "checked_add a b = None \<longleftrightarrow> U64_MAX < a + b"
  by (auto simp: checked_add_def)

lemma checked_sub_Some [checked_simps]:
  "checked_sub a b = Some c \<longleftrightarrow> b \<le> a \<and> c = a - b"
  by (auto simp: checked_sub_def)

lemma checked_sub_None [checked_simps]: "checked_sub a b = None \<longleftrightarrow> a < b"
  by (auto simp: checked_sub_def)

lemma checked_mul_Some [checked_simps]:
  "checked_mul a b = Some c \<longleftrightarrow> a * b \<le> U64_MAX \<and> c = a * b"
  by (auto simp: checked_mul_def)

section \<open>Powers of two and alignment\<close>

text \<open>\<open>u64::is_power_of_two\<close>: exactly one bit is set.\<close>

fun is_power_of_two :: "nat \<Rightarrow> bool" where
  "is_power_of_two n =
     (if n = 0 then False else if n = 1 then True else even n \<and> is_power_of_two (n div 2))"

declare is_power_of_two.simps [simp del]

lemma is_power_of_two_iff: "is_power_of_two n \<longleftrightarrow> (\<exists>k. n = 2 ^ k)"
proof (induction n rule: is_power_of_two.induct)
  case (1 n)
  show ?case
  proof (cases "n \<le> 1")
    case True
    then show ?thesis
      by (auto simp: is_power_of_two.simps [of n] le_Suc_eq intro: exI [of _ 0])
  next
    case False
    show ?thesis
    proof (cases "even n")
      case True
      have "(\<exists>k. n = 2 ^ k) \<longleftrightarrow> (\<exists>k. n div 2 = 2 ^ k)"
      proof
        assume "\<exists>k. n = 2 ^ k"
        then obtain k where k: "n = 2 ^ k" ..
        with False have "k \<noteq> 0" by (cases k) auto
        then obtain j where "k = Suc j" by (cases k) auto
        with k show "\<exists>k. n div 2 = 2 ^ k" by auto
      next
        assume "\<exists>k. n div 2 = 2 ^ k"
        then obtain k where "n div 2 = 2 ^ k" ..
        with True have "n = 2 ^ Suc k" by (simp add: dvd_div_eq_mult)
        then show "\<exists>k. n = 2 ^ k" ..
      qed
      with 1 False True show ?thesis by (simp add: is_power_of_two.simps [of n])
    next
      case odd: False
      have "n \<noteq> 2 ^ k" for k
        using odd False by (cases k) auto
      with odd False show ?thesis by (simp add: is_power_of_two.simps [of n])
    qed
  qed
qed

lemma is_power_of_two_pos: "is_power_of_two n \<Longrightarrow> 0 < n"
  by (auto simp: is_power_of_two_iff)

lemma align_down_le: "(a div al) * al \<le> (a::nat)"
  by (simp add: div_mult2_eq)

lemma align_down_gt: "0 < al \<Longrightarrow> (a::nat) < (a div al) * al + al"
  by (metis add.commute mult.commute dividend_less_times_div mult_Suc_right)

lemma mult_between_unique:
  "(q::nat) * al \<le> a \<Longrightarrow> a < q * al + al \<Longrightarrow> a div al = q"
  by (metis add.commute div_nat_eqI mult.commute mult_Suc_right)

lemma align_up_props:
  assumes "0 < (a::nat)"
  shows "a dvd ((x + a - 1) div a) * a" "x \<le> ((x + a - 1) div a) * a" "((x + a - 1) div a) * a < x + a"
proof -
  have "x + a - 1 < ((x + a - 1) div a) * a + a" using align_down_gt [OF assms] .
  then show "x \<le> ((x + a - 1) div a) * a" by linarith
  show "((x + a - 1) div a) * a < x + a" using align_down_le [of "x + a - 1" a] assms by linarith
qed simp

lemma align_up_least:
  assumes "0 < (a::nat)" "a dvd y" "x \<le> y"
  shows "((x + a - 1) div a) * a \<le> y"
proof (rule ccontr)
  assume gt: "\<not> ?thesis"
  moreover have "a dvd ((x + a - 1) div a) * a - y" using assms(2) by (simp add: dvd_diff_nat)
  ultimately have "a \<le> ((x + a - 1) div a) * a - y" by (simp add: dvd_imp_le)
  then show False using align_up_props(3) [OF assms(1), of x] assms(3) gt by linarith
qed

section \<open>Lists and options\<close>

lemma find_SomeD: "find P xs = Some x \<Longrightarrow> x \<in> set xs \<and> P x"
  by (auto simp: find_Some_iff)

lemma option_eq_by_Some: "(\<And>x. m = Some x \<longleftrightarrow> n = Some x) \<Longrightarrow> m = n"
  by (metis not_None_eq)

section \<open>Three-way comparison\<close>

datatype ordering = Less | Equal | Greater

definition cmp :: "'a::linorder \<Rightarrow> 'a \<Rightarrow> ordering" where
  "cmp x y = (if x < y then Less else if x = y then Equal else Greater)"

lemma cmp_Less [simp]: "cmp x y = Less \<longleftrightarrow> x < y"
  and cmp_Equal [simp]: "cmp x y = Equal \<longleftrightarrow> x = y"
  and cmp_Greater [simp]: "cmp x y = Greater \<longleftrightarrow> y < x"
  by (auto simp: cmp_def)

lemma case_cmp [simp]:
  "(case cmp x y of Less \<Rightarrow> l | Equal \<Rightarrow> e | Greater \<Rightarrow> g) =
     (if x < y then l else if x = y then e else g)"
  by (simp add: cmp_def)

text \<open>Unfoldings with which concrete runs are evaluated.\<close>

lemmas prelude_eval [eval_simps] =
  U64_MAX_def checked_add_def checked_sub_def checked_mul_def saturating_add_def
  saturating_mul_def saturating_sub_def wrapping_add_def is_power_of_two.simps

end
