(* ===== verification/Addr_Range.thy ===== *)
theory Addr_Range
  imports Prelude
begin

unbundle bit_operations_syntax

text \<open>
  The value types of the PCIe address allocator, \<open>driver/interface/rdif-pcie/src/addr_alloc/mod.rs\<close>:
  the closed range \<open>RangeInclusive\<close> with its derived lexicographic order, the allocation policy, the
  error type and the validated \<open>Constraint\<close>; and the two alignment functions that
  \<open>allocation_engine/interval_tree.rs\<close> starts with.
\<close>

section \<open>RangeInclusive\<close>

datatype range_inclusive = RangeInclusive (rstart: nat) (rend: nat)

text \<open>\<open>#[derive(PartialOrd, Ord)]\<close> compares the fields in their order of declaration.\<close>

definition range_inclusive_le :: "range_inclusive \<Rightarrow> range_inclusive \<Rightarrow> bool" where
  "range_inclusive_le a b \<longleftrightarrow>
     rstart a < rstart b \<or> (rstart a = rstart b \<and> rend a \<le> rend b)"

definition range_inclusive_lt :: "range_inclusive \<Rightarrow> range_inclusive \<Rightarrow> bool" where
  "range_inclusive_lt a b \<longleftrightarrow>
     rstart a < rstart b \<or> (rstart a = rstart b \<and> rend a < rend b)"

instantiation range_inclusive :: linorder
begin

definition less_eq_range_inclusive :: "range_inclusive \<Rightarrow> range_inclusive \<Rightarrow> bool" where
  "less_eq_range_inclusive = range_inclusive_le"

definition less_range_inclusive :: "range_inclusive \<Rightarrow> range_inclusive \<Rightarrow> bool" where
  "less_range_inclusive = range_inclusive_lt"

instance
proof
  fix x y z :: range_inclusive
  show "(x < y) = (x \<le> y \<and> \<not> y \<le> x)"
    by (auto simp: less_range_inclusive_def range_inclusive_lt_def less_eq_range_inclusive_def range_inclusive_le_def)
  show "x \<le> x"
    by (simp add: less_eq_range_inclusive_def range_inclusive_le_def)
  show "x \<le> y \<Longrightarrow> y \<le> z \<Longrightarrow> x \<le> z"
    by (auto simp: less_eq_range_inclusive_def range_inclusive_le_def)
  show "x \<le> y \<Longrightarrow> y \<le> x \<Longrightarrow> x = y"
    by (cases x; cases y) (auto simp: less_eq_range_inclusive_def range_inclusive_le_def)
  show "x \<le> y \<or> y \<le> x"
    by (auto simp: less_eq_range_inclusive_def range_inclusive_le_def)
qed

end

datatype node_state = Free | Allocated

datatype alloc_policy = FirstMatch | LastMatch | ExactMatch nat

datatype alloc_error =
    Overflow
  | OutOfRange nat
  | AlreadyReleased nat
  | NeverAllocated nat
  | ResourceNotAvailable
  | InvalidRange nat nat
  | InvalidAlignment
  | Overlap range_inclusive range_inclusive
  | InvalidStateTransition range_inclusive node_state
  | UnalignedAddress
  | Underflow
  | InvalidSize nat

definition range_new :: "nat \<Rightarrow> nat \<Rightarrow> (alloc_error, range_inclusive) result" where
  "range_new s e =
     (if s > e \<or> (s = 0 \<and> e = U64_MAX) then Err (InvalidRange s e)
      else Ok (RangeInclusive s e))"

text \<open>
  The fields are private and every value is built by \<open>range_new\<close>, so \<open>self.end - self.start\<close>
  does not underflow; that adding 1 does not overflow is \<open>range_len_bound\<close>.
\<close>

definition range_len :: "range_inclusive \<Rightarrow> nat" where
  "range_len r = rend r - rstart r + 1"

definition overlaps :: "range_inclusive \<Rightarrow> range_inclusive \<Rightarrow> bool" where
  "overlaps a b \<longleftrightarrow> max (rstart a) (rstart b) \<le> min (rend a) (rend b)"

definition range_contains :: "range_inclusive \<Rightarrow> range_inclusive \<Rightarrow> bool" where
  "range_contains a b \<longleftrightarrow> rstart a \<le> rstart b \<and> rend a \<ge> rend b"

definition wf_range :: "range_inclusive \<Rightarrow> bool" where
  "wf_range r \<longleftrightarrow> rstart r \<le> rend r \<and> rend r \<le> U64_MAX \<and> \<not> (rstart r = 0 \<and> rend r = U64_MAX)"

abbreviation addrs :: "range_inclusive \<Rightarrow> nat set" where
  "addrs r \<equiv> {rstart r .. rend r}"

lemma range_new_Ok:
  "range_new s e = Ok r \<longleftrightarrow> s \<le> e \<and> \<not> (s = 0 \<and> e = U64_MAX) \<and> r = RangeInclusive s e"
  by (auto simp: range_new_def)

lemma range_new_not_Panic [simp]: "range_new s e \<noteq> Panic"
  by (simp add: range_new_def)

lemma range_new_wf: "range_new s e = Ok r \<Longrightarrow> e \<le> U64_MAX \<Longrightarrow> wf_range r"
  by (auto simp: range_new_Ok wf_range_def)

lemma range_new_of_wf: "wf_range (RangeInclusive s e) \<Longrightarrow> range_new s e = Ok (RangeInclusive s e)"
  by (auto simp: range_new_def wf_range_def)

lemma range_len_bound: "wf_range r \<Longrightarrow> range_len r \<le> U64_MAX"
  by (auto simp: range_len_def wf_range_def)

lemma range_len_card: "rstart r \<le> rend r \<Longrightarrow> range_len r = card (addrs r)"
  by (simp add: range_len_def)

lemma overlaps_iff:
  "wf_range a \<Longrightarrow> wf_range b \<Longrightarrow> overlaps a b \<longleftrightarrow> addrs a \<inter> addrs b \<noteq> {}"
  by (auto simp: overlaps_def wf_range_def max_def min_def split: if_splits)

lemma range_contains_iff:
  "wf_range b \<Longrightarrow> range_contains a b \<longleftrightarrow> addrs b \<subseteq> addrs a"
  by (auto simp: range_contains_def wf_range_def)

lemma not_overlaps_cases:
  "\<not> overlaps a b \<Longrightarrow> wf_range a \<Longrightarrow> wf_range b \<Longrightarrow> rend a < rstart b \<or> rend b < rstart a"
  by (auto simp: overlaps_def wf_range_def)

lemma less_not_overlaps:
  "\<not> overlaps a b \<Longrightarrow> a < b \<Longrightarrow> wf_range a \<Longrightarrow> wf_range b \<Longrightarrow> rend a < rstart b"
  by (auto simp: overlaps_def wf_range_def less_range_inclusive_def range_inclusive_lt_def)

section \<open>Constraint\<close>

record alloc_constraint =
  csize :: nat
  calign :: nat
  cpolicy :: alloc_policy

definition constraint_new :: "nat \<Rightarrow> nat \<Rightarrow> alloc_policy \<Rightarrow> (alloc_error, alloc_constraint) result" where
  "constraint_new sz al pol =
     (if sz = 0 then Err (InvalidSize sz)
      else if \<not> is_power_of_two al \<or> al = 0 then Err InvalidAlignment
      else if (case pol of ExactMatch start_address \<Rightarrow> start_address mod al \<noteq> 0 | _ \<Rightarrow> False)
      then Err UnalignedAddress
      else Ok \<lparr>csize = sz, calign = al, cpolicy = pol\<rparr>)"

definition wf_constraint :: "alloc_constraint \<Rightarrow> bool" where
  "wf_constraint c \<longleftrightarrow> 0 < csize c \<and> csize c \<le> U64_MAX \<and> is_power_of_two (calign c) \<and> calign c \<le> U64_MAX
     \<and> (\<forall>a. cpolicy c = ExactMatch a \<longrightarrow> a mod calign c = 0 \<and> a \<le> U64_MAX)"

lemma constraint_new_wf:
  assumes "constraint_new sz al pol = Ok c" "sz \<le> U64_MAX" "al \<le> U64_MAX"
    and "\<And>a. pol = ExactMatch a \<Longrightarrow> a \<le> U64_MAX"
  shows "wf_constraint c \<and> csize c = sz \<and> calign c = al \<and> cpolicy c = pol"
  using assms by (auto simp: constraint_new_def wf_constraint_def split: if_splits)

section \<open>Alignment of addresses\<close>

text \<open>The bitwise expression \<open>a & !b\<close> on \<open>u64\<close>.\<close>

definition and_not64 :: "nat \<Rightarrow> nat \<Rightarrow> nat" where
  "and_not64 a b = unat ((of_nat a :: 64 word) AND NOT (of_nat b))"

definition align_down :: "nat \<Rightarrow> nat \<Rightarrow> (alloc_error, nat) result" where
  "align_down address alignment =
     (if \<not> is_power_of_two alignment then Err InvalidAlignment
      else Ok (and_not64 address (alignment - 1)))"

definition align_up :: "nat \<Rightarrow> nat \<Rightarrow> (alloc_error, nat) result" where
  "align_up address alignment =
     (if alignment = 0 then Err InvalidAlignment
      else (case checked_add address (alignment - 1) of
              Some intermediary_address \<Rightarrow> align_down intermediary_address alignment
            | None \<Rightarrow> Err Overflow))"

lemma and_not64_mask:
  assumes "a \<le> U64_MAX" "k < 64"
  shows "and_not64 a (2 ^ k - 1) = a div 2 ^ k * 2 ^ k"
proof -
  let ?w = "of_nat a :: 64 word"
  have m: "(of_nat (2 ^ k - 1) :: 64 word) = mask k"
    by (simp add: mask_eq_exp_minus_1 of_nat_diff)
  have "?w AND NOT (mask k) = push_bit k (drop_bit k ?w)"
    by (rule bit_eqI) (auto simp: bit_simps)
  then have "and_not64 a (2 ^ k - 1) = unat (push_bit k (drop_bit k ?w))"
    unfolding and_not64_def m by simp
  also have "\<dots> = a div 2 ^ k * 2 ^ k"
  proof -
    have a: "take_bit 64 a = a"
      using assms(1) by (simp add: take_bit_nat_eq_self U64_MAX_def)
    have "unat (push_bit k (drop_bit k ?w)) = take_bit 64 (push_bit k (drop_bit k a))"
      by (simp add: unsigned_push_bit_eq unsigned_drop_bit_eq unsigned_of_nat a)
    also have "push_bit k (drop_bit k a) = a div 2 ^ k * 2 ^ k"
      by (simp add: push_bit_eq_mult drop_bit_eq_div)
    also have "take_bit 64 \<dots> = \<dots>"
      by (rule take_bit_nat_eq_self, rule le_less_trans [OF align_down_le])
         (use assms(1) in \<open>simp add: U64_MAX_def\<close>)
    finally show ?thesis .
  qed
  finally show ?thesis .
qed

lemma align_down_eq:
  assumes "is_power_of_two al" "al \<le> U64_MAX" "a \<le> U64_MAX"
  shows "align_down a al = Ok (a div al * al)"
proof -
  obtain k where k: "al = 2 ^ k" using assms(1) by (auto simp: is_power_of_two_iff)
  have "k < 64"
  proof (rule ccontr)
    assume "\<not> k < 64"
    then have "(2::nat) ^ 64 \<le> 2 ^ k" by (intro power_increasing) auto
    with assms(2) k show False by (simp add: U64_MAX_def)
  qed
  with assms k show ?thesis using and_not64_mask [of a k] by (simp add: align_down_def)
qed

lemma align_up_Ok:
  assumes "is_power_of_two al" "al \<le> U64_MAX" "a \<le> U64_MAX" "align_up a al = Ok r"
  shows "r mod al = 0 \<and> a \<le> r \<and> r < a + al \<and> r \<le> U64_MAX"
proof -
  have pos: "0 < al" using assms(1) by (rule is_power_of_two_pos)
  from assms(4) pos have le: "a + (al - 1) \<le> U64_MAX" and d: "align_down (a + (al - 1)) al = Ok r"
    by (auto simp: align_up_def checked_simps split: option.splits)
  from d assms(1,2) le have r: "r = (a + (al - 1)) div al * al"
    by (simp add: align_down_eq)
  have gt: "a + (al - 1) < r + al" unfolding r by (rule align_down_gt [OF pos])
  have le': "r \<le> a + (al - 1)" unfolding r by (rule align_down_le)
  have "r mod al = 0" unfolding r by simp
  moreover have "a \<le> r" "r < a + al" "r \<le> U64_MAX" using gt le' le pos by linarith+
  ultimately show ?thesis by simp
qed

lemma align_up_exists:
  assumes "is_power_of_two al" "al \<le> U64_MAX" "a \<le> m" "m mod al = 0" "m \<le> U64_MAX"
  shows "\<exists>r. align_up a al = Ok r \<and> r \<le> m"
proof -
  have pos: "0 < al" using assms(1) by (rule is_power_of_two_pos)
  obtain k where k: "al = 2 ^ k" using assms(1) by (auto simp: is_power_of_two_iff)
  have k64: "k \<le> 64"
  proof (rule ccontr)
    assume "\<not> k \<le> 64"
    then have "(2::nat) ^ 64 \<le> 2 ^ k" by (intro power_increasing) auto
    with assms(2) k show False by (simp add: U64_MAX_def)
  qed
  have "al dvd (U64_MAX + 1)" unfolding U64_MAX_pow k using k64 by (rule le_imp_power_dvd)
  then obtain c where c: "U64_MAX + 1 = c * al" by (metis dvdE mult.commute)
  obtain q where q: "m = q * al" using assms(4) by (metis mod_0_imp_dvd dvdE mult.commute)
  from assms(5) c q have "q * al < c * al" by linarith
  then have "q < c" using pos by simp
  then have "q * al + al \<le> c * al" by (metis Suc_leI add.commute mult_Suc mult_le_mono1)
  then have fit: "a + (al - 1) \<le> U64_MAX" using c q assms(3) pos by linarith
  then have "align_up a al = Ok ((a + (al - 1)) div al * al)"
    using pos assms(1,2) by (simp add: align_up_def checked_add_def align_down_eq)
  moreover have "(a + (al - 1)) div al * al \<le> m"
  proof -
    have "a + (al - 1) < q * al + al" using assms(3) q pos by linarith
    then have "(a + (al - 1)) div al < Suc q"
      by (metis add.commute div_less_iff_less_mult mult_Suc pos)
    then show ?thesis unfolding q by (intro mult_le_mono1) simp
  qed
  ultimately show ?thesis by auto
qed

text \<open>Unfoldings with which concrete runs are evaluated.\<close>

lemmas addr_range_eval [eval_simps] =
  less_eq_range_inclusive_def range_inclusive_le_def less_range_inclusive_def range_inclusive_lt_def range_new_def range_len_def overlaps_def
  range_contains_def wf_range_def constraint_new_def wf_constraint_def and_not64_def
  align_down_def align_up_def

end
