(* ===== verification/Interval_Tree.thy ===== *)
theory Interval_Tree
  imports Addr_Range
begin

text \<open>
  The allocation engine of the PCIe address allocator,
  \<open>driver/interface/rdif-pcie/src/addr_alloc/allocation_engine/interval_tree.rs\<close>: an AVL tree whose
  nodes are disjoint address ranges, each free or allocated.

  An \<open>Option<Box<InnerNode>>\<close> is a value of \<open>inner_node\<close>, with \<open>Nil\<close> for \<open>None\<close>; a method on
  \<open>InnerNode\<close> is a function on \<open>inner_node\<close> whose equation for \<open>Nil\<close> is what the callers do with
  \<open>None\<close>.  The operations of \<open>IntervalTree\<close> take the root and return the new root beside
  their result, so that what an early return leaves behind is part of the model.
\<close>

section \<open>Nodes\<close>

datatype inner_node =
    Nil
  | InnerNode (nkey: range_inclusive) (nstate: node_state)
      (nleft: inner_node) (nright: inner_node) (nheight: nat)
where
  "nleft Nil = Nil"
| "nright Nil = Nil"
| "nheight Nil = 0"

definition is_free :: "node_state \<Rightarrow> bool" where
  "is_free s \<longleftrightarrow> s = Free"

definition node_new :: "range_inclusive \<Rightarrow> node_state \<Rightarrow> inner_node" where
  "node_new k s = InnerNode k s Nil Nil 1"

text \<open>The free function \<open>height\<close> reads the cached height of an optional node.\<close>

definition height :: "inner_node \<Rightarrow> nat" where
  "height n = (case n of Nil \<Rightarrow> 0 | InnerNode k s l r h \<Rightarrow> h)"

fun search :: "inner_node \<Rightarrow> range_inclusive \<Rightarrow> inner_node option" where
  "search Nil key = None"
| "search (InnerNode k s l r h) key =
     (case cmp k key of
        Less \<Rightarrow> search r key
      | Equal \<Rightarrow> Some (InnerNode k s l r h)
      | Greater \<Rightarrow> search l key)"

fun search_superset :: "inner_node \<Rightarrow> range_inclusive \<Rightarrow> inner_node option" where
  "search_superset Nil key = None"
| "search_superset (InnerNode k s l r h) key =
     (if range_contains k key then Some (InnerNode k s l r h)
      else if rend key < rstart k then search_superset l key
      else search_superset r key)"

section \<open>Rebalancing\<close>

fun update_cached_height :: "inner_node \<Rightarrow> inner_node" where
  "update_cached_height Nil = Nil"
| "update_cached_height (InnerNode k s l r h) =
     InnerNode k s l r (max (height l) (height r) + 1)"

fun rotate_left :: "inner_node \<Rightarrow> inner_node option" where
  "rotate_left (InnerNode k s l (InnerNode k' s' l' r' h') h) =
     (let self = update_cached_height (InnerNode k s l l' h)
      in Some (update_cached_height (InnerNode k' s' self r' h')))"
| "rotate_left _ = None"

fun rotate_right :: "inner_node \<Rightarrow> inner_node option" where
  "rotate_right (InnerNode k s (InnerNode k' s' l' r' h') r h) =
     (let self = update_cached_height (InnerNode k s r' r h)
      in Some (update_cached_height (InnerNode k' s' l' self h')))"
| "rotate_right _ = None"

text \<open>Storing an \<open>Option<Box<InnerNode>>\<close> that a rotation returned in a child field.\<close>

definition node_of :: "inner_node option \<Rightarrow> inner_node" where
  "node_of m = (case m of None \<Rightarrow> Nil | Some n \<Rightarrow> n)"

fun rotate_left_successor :: "inner_node \<Rightarrow> inner_node option" where
  "rotate_left_successor (InnerNode k s (InnerNode k' s' l' r' h') r h) =
     (let left = InnerNode k' s' l' r' h' in
      if height l' < height r'
      then rotate_right (update_cached_height (InnerNode k s (node_of (rotate_left left)) r h))
      else rotate_right (InnerNode k s left r h))"
| "rotate_left_successor _ = None"

fun rotate_right_successor :: "inner_node \<Rightarrow> inner_node option" where
  "rotate_right_successor (InnerNode k s l (InnerNode k' s' l' r' h') h) =
     (let right = InnerNode k' s' l' r' h' in
      if height l' > height r'
      then rotate_left (update_cached_height (InnerNode k s l (node_of (rotate_right right)) h))
      else rotate_left (InnerNode k s l right h))"
| "rotate_right_successor _ = None"

text \<open>\<open>None\<close> is the panic of \<open>unwrap\<close> or \<open>unreachable!\<close>.\<close>

definition rotate :: "inner_node \<Rightarrow> inner_node option" where
  "rotate n =
     (let d = int (height (nleft n)) - int (height (nright n)) in
      if -1 \<le> d \<and> d \<le> 1 then Some n
      else if d = 2 then rotate_left_successor n
      else if d = -2 then rotate_right_successor n
      else None)"

fun get_new_root :: "inner_node \<Rightarrow> (inner_node \<times> inner_node) option" where
  "get_new_root Nil = None"
| "get_new_root (InnerNode k s l r h) =
     (if l = Nil then Some (InnerNode k s Nil Nil h, r)
      else (case get_new_root l of
              None \<Rightarrow> None
            | Some (min_node, l') \<Rightarrow>
                (case rotate (update_cached_height (InnerNode k s l' r h)) of
                   None \<Rightarrow> None
                 | Some n \<Rightarrow> Some (min_node, n))))"

definition combine_subtrees :: "inner_node \<Rightarrow> inner_node \<Rightarrow> inner_node option" where
  "combine_subtrees l r =
     (case get_new_root r of
        Some (InnerNode k s _ _ h, remaining) \<Rightarrow>
          rotate (update_cached_height (InnerNode k s l remaining h))
      | _ \<Rightarrow> None)"

text \<open>The result is again an optional node, so the outer option is only the panic.\<close>

fun delete_root :: "inner_node \<Rightarrow> inner_node option" where
  "delete_root (InnerNode k s l r h) =
     (if l = Nil \<and> r = Nil then Some Nil
      else if r = Nil then Some l
      else if l = Nil then Some r
      else combine_subtrees l r)"
| "delete_root Nil = None"

section \<open>Insertion, state change and deletion in a subtree\<close>

definition of_panic :: "'a option \<Rightarrow> ('e, 'a) result" where
  "of_panic m = (case m of None \<Rightarrow> Panic | Some x \<Rightarrow> Ok x)"

fun node_insert :: "inner_node \<Rightarrow> range_inclusive \<Rightarrow> node_state \<Rightarrow> (alloc_error, inner_node) result"
where
  "node_insert Nil key st = Ok (node_new key st)"
| "node_insert (InnerNode k s l r h) key st =
     (if h + 1 > 50 then Err Overflow
      else if overlaps k key then Err (Overlap key k)
      else (case cmp k key of
              Equal \<Rightarrow> Panic
            | Less \<Rightarrow>
                rbind (node_insert r key st) (\<lambda>r'.
                  of_panic (rotate (update_cached_height (InnerNode k s l r' h))))
            | Greater \<Rightarrow>
                rbind (node_insert l key st) (\<lambda>l'.
                  of_panic (rotate (update_cached_height (InnerNode k s l' r h))))))"

fun node_mark_as_allocated :: "inner_node \<Rightarrow> range_inclusive \<Rightarrow> inner_node \<times> (alloc_error, unit) result"
where
  "node_mark_as_allocated Nil key = (Nil, Err ResourceNotAvailable)"
| "node_mark_as_allocated (InnerNode k s l r h) key =
     (case cmp k key of
        Equal \<Rightarrow>
          if s \<noteq> Free then (InnerNode k s l r h, Err (InvalidStateTransition k s))
          else (InnerNode k Allocated l r h, Ok ())
      | Less \<Rightarrow>
          (let (r', res) = node_mark_as_allocated r key in (InnerNode k s l r' h, res))
      | Greater \<Rightarrow>
          (let (l', res) = node_mark_as_allocated l key in (InnerNode k s l' r h, res)))"

fun node_delete :: "inner_node \<Rightarrow> range_inclusive \<Rightarrow> inner_node option" where
  "node_delete Nil key = Some Nil"
| "node_delete (InnerNode k s l r h) key =
     (case cmp k key of
        Equal \<Rightarrow> delete_root (InnerNode k s l r h)
      | Less \<Rightarrow>
          if r = Nil then Some (InnerNode k s l r h)
          else Option.bind (node_delete r key) (\<lambda>r'.
                 rotate (update_cached_height (InnerNode k s l r' h)))
      | Greater \<Rightarrow>
          if l = Nil then Some (InnerNode k s l r h)
          else Option.bind (node_delete l key) (\<lambda>l'.
                 rotate (update_cached_height (InnerNode k s l' r h))))"

section \<open>Candidates for an allocation\<close>

definition check_constraint ::
  "inner_node \<Rightarrow> alloc_constraint \<Rightarrow> (alloc_error, range_inclusive) result"
where
  "check_constraint n c =
     (if \<not> is_free (nstate n) \<or> range_len (nkey n) < csize c then Err ResourceNotAvailable
      else
        rbind
          (case cpolicy c of
             FirstMatch \<Rightarrow> align_up (rstart (nkey n)) (calign c)
           | LastMatch \<Rightarrow>
               rbind (rbind (ok_or (checked_sub (rend (nkey n)) (csize c)) Underflow)
                        (\<lambda>addr. ok_or (checked_add addr 1) Overflow)) (\<lambda>candidate_address.
               rbind (align_down candidate_address (calign c)) (\<lambda>aligned_address.
                 if aligned_address < rstart (nkey n) then Err UnalignedAddress
                 else Ok aligned_address))
           | ExactMatch _ \<Rightarrow> Panic)
          (\<lambda>range_start.
            rbind (range_new range_start (rend (nkey n))) (\<lambda>key.
              if range_len key \<ge> csize c then Ok key else Err ResourceNotAvailable)))"

text \<open>
  \<open>check_constraint(c).map_or(res, |node| Ok((self, node)))\<close> keeps the previous result on any error;
  a panic goes through.
\<close>

fun candidate_or ::
  "inner_node \<Rightarrow> (alloc_error, range_inclusive) result \<Rightarrow>
   (alloc_error, inner_node \<times> range_inclusive) result \<Rightarrow>
   (alloc_error, inner_node \<times> range_inclusive) result"
where
  "candidate_or self (Ok r) res = Ok (self, r)"
| "candidate_or self (Err e) res = res"
| "candidate_or self Panic res = Panic"

fun first_match ::
  "inner_node \<Rightarrow> alloc_constraint \<Rightarrow> (alloc_error, inner_node \<times> range_inclusive) result"
where
  "first_match Nil c = Err ResourceNotAvailable"
| "first_match (InnerNode k s l r h) c =
     (let self = InnerNode k s l r h;
          res1 = first_match l c;
          res2 = (if res1 = Err ResourceNotAvailable
                  then candidate_or self (check_constraint self c) res1 else res1)
      in if res2 = Err ResourceNotAvailable then first_match r c else res2)"

fun last_match ::
  "inner_node \<Rightarrow> alloc_constraint \<Rightarrow> (alloc_error, inner_node \<times> range_inclusive) result"
where
  "last_match Nil c = Err ResourceNotAvailable"
| "last_match (InnerNode k s l r h) c =
     (let self = InnerNode k s l r h;
          res1 = last_match r c;
          res2 = (if res1 = Err ResourceNotAvailable
                  then candidate_or self (check_constraint self c) res1 else res1)
      in if res2 = Err ResourceNotAvailable then last_match l c else res2)"

definition find_candidate ::
  "inner_node \<Rightarrow> alloc_constraint \<Rightarrow> (alloc_error, inner_node \<times> range_inclusive) result"
where
  "find_candidate n c =
     (case cpolicy c of
        FirstMatch \<Rightarrow> first_match n c
      | LastMatch \<Rightarrow> last_match n c
      | ExactMatch start_address \<Rightarrow>
          rbind (ok_or (checked_add start_address 1) Overflow) (\<lambda>next_address.
          rbind (range_new start_address next_address) (\<lambda>probe.
          rbind (ok_or (search_superset n probe) ResourceNotAvailable) (\<lambda>node.
          rbind (ok_or (checked_sub (csize c) 1) Underflow) (\<lambda>len.
          rbind (ok_or (checked_add start_address len) Overflow) (\<lambda>end_address.
          rbind (range_new start_address end_address) (\<lambda>range.
            if \<not> range_contains (nkey node) range then Err ResourceNotAvailable
            else Ok (node, range))))))))"

section \<open>The interval tree\<close>

type_synonym interval_tree = inner_node

definition tree_new :: "range_inclusive \<Rightarrow> interval_tree" where
  "tree_new key = node_new key Free"

definition tree_search_superset :: "interval_tree \<Rightarrow> range_inclusive \<Rightarrow> inner_node option" where
  "tree_search_superset root key = search_superset root key"

text \<open>
  \<open>self.root.take()\<close> empties the root before \<open>node.insert(..)?\<close> runs: on an error the tree that was
  moved out is dropped and the root stays \<open>None\<close>.
\<close>

definition tree_insert ::
  "interval_tree \<Rightarrow> range_inclusive \<Rightarrow> node_state \<Rightarrow> interval_tree \<times> (alloc_error, unit) result"
where
  "tree_insert root key st =
     (if root = Nil then (node_new key st, Ok ())
      else (case node_insert root key st of
              Ok n \<Rightarrow> (n, Ok ())
            | Err e \<Rightarrow> (Nil, Err e)
            | Panic \<Rightarrow> (Nil, Panic)))"

definition tree_mark_as_allocated ::
  "interval_tree \<Rightarrow> range_inclusive \<Rightarrow> interval_tree \<times> (alloc_error, unit) result"
where
  "tree_mark_as_allocated root key =
     (if root = Nil then (root, Ok ()) else node_mark_as_allocated root key)"

definition tree_delete ::
  "interval_tree \<Rightarrow> range_inclusive \<Rightarrow> interval_tree \<times> (alloc_error, unit) result"
where
  "tree_delete root key =
     (if root = Nil then (root, Ok ())
      else if search root key = None then (root, Err ResourceNotAvailable)
      else (case node_delete root key of None \<Rightarrow> (Nil, Panic) | Some n \<Rightarrow> (n, Ok ())))"

text \<open>
  Sequencing of steps on the root: a step that does not return \<open>Ok\<close> ends the method and leaves the
  root as that step left it.
\<close>

definition then_do ::
  "interval_tree \<times> (alloc_error, 'a) result \<Rightarrow>
   (interval_tree \<Rightarrow> 'a \<Rightarrow> interval_tree \<times> (alloc_error, 'b) result) \<Rightarrow>
   interval_tree \<times> (alloc_error, 'b) result"
where
  "then_do m f =
     (case m of (t, Ok x) \<Rightarrow> f t x | (t, Err e) \<Rightarrow> (t, Err e) | (t, Panic) \<Rightarrow> (t, Panic))"

text \<open>A computation that only reads the root, as a step.\<close>

abbreviation (input) pure_step ::
  "interval_tree \<Rightarrow> (alloc_error, 'a) result \<Rightarrow> interval_tree \<times> (alloc_error, 'a) result"
where
  "pure_step t m \<equiv> (t, m)"

text \<open>
  The second half of \<open>allocate\<close>: the candidate node is replaced by a free node before the slot, the
  allocated slot and a free node after it.
\<close>

definition split_node ::
  "interval_tree \<Rightarrow> range_inclusive \<Rightarrow> range_inclusive \<Rightarrow>
   interval_tree \<times> (alloc_error, range_inclusive) result"
where
  "split_node root node_key result =
     then_do (tree_delete root node_key) (\<lambda>t1 _.
     then_do
       (if rstart result > rstart node_key
        then then_do (pure_step t1
               (rbind (ok_or (checked_sub (rstart result) 1) Overflow)
                  (\<lambda>e. range_new (rstart node_key) e)))
               (\<lambda>t key. tree_insert t key Free)
        else (t1, Ok ())) (\<lambda>t2 _.
     then_do (tree_insert t2 result Allocated) (\<lambda>t3 _.
     then_do
       (if rend result < rend node_key
        then then_do (pure_step t3
               (rbind (ok_or (checked_add (rend result) 1) Overflow)
                  (\<lambda>s. range_new s (rend node_key))))
               (\<lambda>t key. tree_insert t key Free)
        else (t3, Ok ())) (\<lambda>t4 _.
     (t4, Ok result)))))"

definition tree_allocate ::
  "interval_tree \<Rightarrow> alloc_constraint \<Rightarrow> interval_tree \<times> (alloc_error, range_inclusive) result"
where
  "tree_allocate root c =
     (if root = Nil then (root, Err ResourceNotAvailable)
      else
        then_do (pure_step root (find_candidate root c)) (\<lambda>_ (node, range).
        let node_key = nkey node in
        then_do (pure_step root
          (rbind (rbind (ok_or (checked_add (rstart range) (csize c)) Overflow)
                   (\<lambda>addr. ok_or (checked_sub addr 1) Underflow))
             (\<lambda>e. range_new (rstart range) e))) (\<lambda>_ result.
        if rstart node_key = rstart result \<and> range_len node_key = csize c
        then then_do (tree_mark_as_allocated root node_key) (\<lambda>t _. (t, Ok node_key))
        else split_node root node_key result)))"

text \<open>The neighbour of a freed range that a probe of two addresses finds, when it is free.\<close>

definition free_neighbour :: "interval_tree \<Rightarrow> range_inclusive \<Rightarrow> inner_node option" where
  "free_neighbour root probe =
     (case tree_search_superset root probe of
        None \<Rightarrow> None
      | Some node \<Rightarrow> if nstate node = Free then Some node else None)"

definition tree_free ::
  "interval_tree \<Rightarrow> range_inclusive \<Rightarrow> interval_tree \<times> (alloc_error, unit) result"
where
  "tree_free root key =
     then_do (tree_delete root key) (\<lambda>t1 _.
     then_do (pure_step t1
       (if rstart key > 0 then
          rbind (ok_or (checked_sub (rstart key) 2) Underflow) (\<lambda>a.
          rbind (ok_or (checked_sub (rstart key) 1) Underflow) (\<lambda>b.
          rbind (range_new a b) (\<lambda>probe.
            (case free_neighbour t1 probe of
               Some node \<Rightarrow> range_new (rstart (nkey node)) (rend key)
             | None \<Rightarrow> Ok key))))
        else Ok key)) (\<lambda>_ range.
     then_do (pure_step t1
       (if rend range < U64_MAX then
          rbind (ok_or (checked_add (rend range) 1) Overflow) (\<lambda>a.
          rbind (ok_or (checked_add (rend range) 2) Overflow) (\<lambda>b.
          rbind (range_new a b) (\<lambda>probe.
            (case free_neighbour t1 probe of
               Some node \<Rightarrow> range_new (rstart range) (rend (nkey node))
             | None \<Rightarrow> Ok range))))
        else Ok range)) (\<lambda>_ range'.
     then_do
       (if rstart range' < rstart key
        then then_do (pure_step t1
               (rbind (ok_or (checked_sub (rstart key) 1) Underflow)
                  (\<lambda>e. range_new (rstart range') e)))
               (\<lambda>t k. tree_delete t k)
        else (t1, Ok ())) (\<lambda>t2 _.
     then_do
       (if rend range' > rend key
        then then_do (pure_step t2
               (rbind (ok_or (checked_add (rend key) 1) Overflow)
                  (\<lambda>s. range_new s (rend range'))))
               (\<lambda>t k. tree_delete t k)
        else (t2, Ok ())) (\<lambda>t3 _.
     tree_insert t3 range' Free)))))"

text \<open>Unfoldings with which concrete runs are evaluated.\<close>

lemmas interval_tree_eval [eval_simps] =
  is_free_def node_new_def height_def node_of_def rotate_def combine_subtrees_def of_panic_def
  check_constraint_def find_candidate_def tree_new_def tree_search_superset_def tree_insert_def
  tree_mark_as_allocated_def tree_delete_def then_do_def split_node_def tree_allocate_def
  free_neighbour_def tree_free_def

end
