(* ===== verification/Interval_Tree_Balance.thy ===== *)
theory Interval_Tree_Balance
  imports Interval_Tree
begin

text \<open>
  The invariant of the interval tree and what the structural operations keep of it: cached heights
  are the real heights, siblings differ by at most one level (so that \<open>rotate\<close> never reaches its
  \<open>unreachable!\<close>), and the in-order sequence of ranges is strictly ordered and disjoint.
\<close>

section \<open>Invariant\<close>

fun entries :: "inner_node \<Rightarrow> (range_inclusive \<times> node_state) list" where
  "entries Nil = []"
| "entries (InnerNode k s l r h) = entries l @ (k, s) # entries r"

fun avl :: "inner_node \<Rightarrow> bool" where
  "avl Nil = True"
| "avl (InnerNode k s l r h) =
     (avl l \<and> avl r \<and> h = max (height l) (height r) + 1 \<and>
      height l \<le> height r + 1 \<and> height r \<le> height l + 1)"

definition entry_less :: "range_inclusive \<times> node_state \<Rightarrow> range_inclusive \<times> node_state \<Rightarrow> bool" where
  "entry_less a b \<longleftrightarrow> rend (fst a) < rstart (fst b)"

definition ordered :: "(range_inclusive \<times> node_state) list \<Rightarrow> bool" where
  "ordered xs \<longleftrightarrow> sorted_wrt entry_less xs \<and> (\<forall>x \<in> set xs. wf_range (fst x))"

definition tree_inv :: "interval_tree \<Rightarrow> bool" where
  "tree_inv t \<longleftrightarrow> avl t \<and> ordered (entries t)"

lemma height_simps [simp]:
  "height Nil = 0"
  "height (InnerNode k s l r h) = h"
  by (simp_all add: height_def)

lemma avl_height_0: "avl t \<Longrightarrow> height t = 0 \<longleftrightarrow> t = Nil"
  by (cases t) auto

lemma node_of_Some [simp]: "node_of (Some n) = n"
  by (simp add: node_of_def)

lemma of_panic_simps [simp]:
  "of_panic (Some x) = Ok x" "of_panic None = Panic"
  by (simp_all add: of_panic_def)

lemma of_panic_eq_Ok [simp]: "of_panic m = Ok x \<longleftrightarrow> m = Some x"
  by (cases m) auto

lemma of_panic_not_Err [simp]: "of_panic m \<noteq> Err e"
  by (cases m) auto

lemma of_panic_Panic [simp]: "of_panic m = Panic \<longleftrightarrow> m = None"
  by (cases m) auto

section \<open>Rotations\<close>

text \<open>What a rebalancing step of a node with subtrees \<open>l\<close> and \<open>r\<close> yields.\<close>

definition rebalanced ::
  "range_inclusive \<Rightarrow> node_state \<Rightarrow> inner_node \<Rightarrow> inner_node \<Rightarrow> inner_node \<Rightarrow> bool"
where
  "rebalanced k s l r t \<longleftrightarrow>
     t \<noteq> Nil \<and> avl t \<and> entries t = entries l @ (k, s) # entries r \<and>
     height t \<in> {max (height l) (height r), max (height l) (height r) + 1} \<and>
     (height l \<le> height r + 1 \<and> height r \<le> height l + 1 \<longrightarrow>
        height t = max (height l) (height r) + 1)"

lemma rotate_left_successor_rebalances:
  assumes "avl l" "avl r" "height l = height r + 2"
  shows "\<exists>t. rotate_left_successor (InnerNode k s l r h) = Some t \<and> rebalanced k s l r t"
proof -
  obtain k' s' l' r' h' where l: "l = InnerNode k' s' l' r' h'"
    using assms(3) by (cases l) auto
  show ?thesis
  proof (cases "height l' < height r'")
    case False
    with assms l show ?thesis by (auto simp: rebalanced_def Let_def max_def split: if_splits)
  next
    case True
    then obtain k2 s2 l2 r2 h2 where "r' = InnerNode k2 s2 l2 r2 h2"
      by (cases r') auto
    with assms l True show ?thesis
      by (auto simp: rebalanced_def Let_def max_def split: if_splits)
  qed
qed

lemma rotate_right_successor_rebalances:
  assumes "avl l" "avl r" "height r = height l + 2"
  shows "\<exists>t. rotate_right_successor (InnerNode k s l r h) = Some t \<and> rebalanced k s l r t"
proof -
  obtain k' s' l' r' h' where r: "r = InnerNode k' s' l' r' h'"
    using assms(3) by (cases r) auto
  show ?thesis
  proof (cases "height l' > height r'")
    case False
    with assms r show ?thesis by (auto simp: rebalanced_def Let_def max_def split: if_splits)
  next
    case True
    then obtain k2 s2 l2 r2 h2 where "l' = InnerNode k2 s2 l2 r2 h2"
      by (cases l') auto
    with assms r True show ?thesis
      by (auto simp: rebalanced_def Let_def max_def split: if_splits)
  qed
qed

lemma rotate_rebalances:
  assumes "avl l" "avl r" "height l \<le> height r + 2" "height r \<le> height l + 2"
  shows "\<exists>t. rotate (update_cached_height (InnerNode k s l r h)) = Some t \<and> rebalanced k s l r t"
proof -
  consider "height l = height r + 2" | "height r = height l + 2"
    | "height l \<le> height r + 1" "height r \<le> height l + 1"
    using assms(3,4) by linarith
  then show ?thesis
  proof cases
    case 1
    with rotate_left_successor_rebalances [OF assms(1,2) 1] show ?thesis
      by (simp add: rotate_def)
  next
    case 2
    with rotate_right_successor_rebalances [OF assms(1,2) 2] show ?thesis
      by (simp add: rotate_def)
  next
    case 3
    with assms(1,2) show ?thesis by (simp add: rotate_def rebalanced_def)
  qed
qed

section \<open>Ordered entry lists\<close>

lemma ordered_append:
  "ordered (xs @ ys) \<longleftrightarrow> ordered xs \<and> ordered ys \<and> (\<forall>x \<in> set xs. \<forall>y \<in> set ys. entry_less x y)"
  by (auto simp: ordered_def sorted_wrt_append)

lemma ordered_Cons:
  "ordered (x # xs) \<longleftrightarrow> wf_range (fst x) \<and> (\<forall>y \<in> set xs. entry_less x y) \<and> ordered xs"
  by (auto simp: ordered_def)

lemma ordered_Nil [simp]: "ordered []"
  by (simp add: ordered_def)

lemma entry_less_trans:
  "entry_less a b \<Longrightarrow> entry_less b c \<Longrightarrow> wf_range (fst b) \<Longrightarrow> entry_less a c"
  by (auto simp: entry_less_def wf_range_def)

lemma entry_less_key_less: "entry_less a b \<Longrightarrow> wf_range (fst a) \<Longrightarrow> fst a < fst b"
  by (auto simp: entry_less_def wf_range_def less_range_inclusive_def range_inclusive_lt_def)

lemma ordered_wf: "ordered xs \<Longrightarrow> x \<in> set xs \<Longrightarrow> wf_range (fst x)"
  by (simp add: ordered_def)

lemma ordered_keys_less:
  assumes "ordered (xs @ (k, s) # ys)"
  shows ordered_key_before: "x \<in> set xs \<Longrightarrow> fst x < k"
    and ordered_key_after: "y \<in> set ys \<Longrightarrow> k < fst y"
proof -
  assume "x \<in> set xs"
  with assms have "entry_less x (k, s)" "wf_range (fst x)"
    by (auto simp: ordered_append ordered_Cons intro: ordered_wf)
  then show "fst x < k" using entry_less_key_less by fastforce
next
  assume "y \<in> set ys"
  with assms have "entry_less (k, s) y" "wf_range k"
    by (auto simp: ordered_append ordered_Cons intro: ordered_wf)
  then show "k < fst y" using entry_less_key_less by fastforce
qed

lemma ordered_disjoint:
  assumes "ordered xs" "x \<in> set xs" "y \<in> set xs" "a \<in> addrs (fst x)" "a \<in> addrs (fst y)"
  shows "x = y"
  using assms
  by (induction xs) (fastforce simp: ordered_Cons entry_less_def)+

lemma ordered_filter: "ordered xs \<Longrightarrow> ordered (filter P xs)"
  by (auto simp: ordered_def sorted_wrt_filter)

section \<open>Insertion\<close>

definition inserted_at ::
  "(range_inclusive \<times> node_state) list \<Rightarrow> range_inclusive \<times> node_state \<Rightarrow>
   (range_inclusive \<times> node_state) list \<Rightarrow> bool"
where
  "inserted_at xs e ys \<longleftrightarrow> (\<exists>us vs. xs = us @ vs \<and> ys = us @ e # vs)"

lemma inserted_at_set: "inserted_at xs e ys \<Longrightarrow> set ys = insert e (set xs)"
  by (auto simp: inserted_at_def)

lemma inserted_at_left: "inserted_at xs e ys \<Longrightarrow> inserted_at (xs @ zs) e (ys @ zs)"
  by (auto simp: inserted_at_def) (metis append.assoc append_Cons)

lemma inserted_at_right: "inserted_at xs e ys \<Longrightarrow> inserted_at (zs @ xs) e (zs @ ys)"
  by (auto simp: inserted_at_def) (metis append.assoc)

lemma node_insert_Ok:
  assumes "tree_inv t" "wf_range key" "node_insert t key st = Ok t'"
  shows "tree_inv t' \<and> height t' \<in> {height t, height t + 1} \<and>
         inserted_at (entries t) (key, st) (entries t')"
  using assms
proof (induction t arbitrary: t')
  case Nil
  then show ?case
    by (auto simp: node_new_def tree_inv_def ordered_def inserted_at_def)
next
  case (InnerNode k s l r h)
  have inv: "tree_inv l" "tree_inv r"
    using InnerNode.prems(1) by (auto simp: tree_inv_def ordered_append ordered_Cons)
  have av: "avl l" "avl r" "height l \<le> height r + 1" "height r \<le> height l + 1"
    "h = max (height l) (height r) + 1" and ord: "ordered (entries l @ (k, s) # entries r)"
    using InnerNode.prems(1) by (auto simp: tree_inv_def)
  have wfk: "wf_range k" using ord by (simp add: ordered_append ordered_Cons)
  have nov: "\<not> overlaps k key" using InnerNode.prems(3) by (auto split: if_splits)
  consider (right) r' where "k < key" "node_insert r key st = Ok r'"
      "rotate (update_cached_height (InnerNode k s l r' h)) = Some t'"
    | (left) l' where "key < k" "node_insert l key st = Ok l'"
      "rotate (update_cached_height (InnerNode k s l' r h)) = Some t'"
    using InnerNode.prems(3)
    by (auto simp: result_simps simp del: update_cached_height.simps split: if_splits)
  then show ?case
  proof cases
    case right
    note IH = InnerNode.IH(2) [OF inv(2) assms(2) right(2)]
    then have r': "avl r'" "height r' \<in> {height r, height r + 1}" "ordered (entries r')"
      and ins: "inserted_at (entries r) (key, st) (entries r')" by (auto simp: tree_inv_def)
    have "height l \<le> height r' + 2" "height r' \<le> height l + 2" using r' av by auto
    from rotate_rebalances [OF av(1) r'(1) this, of k s h] right(3)
    have reb: "rebalanced k s l r' t'" by auto
    have "rend k < rstart key" using nov right(1) wfk assms(2) by (rule less_not_overlaps)
    then have "entry_less (k, s) (key, st)" by (simp add: entry_less_def)
    then have "ordered (entries t')"
      using ord reb r'(3) inserted_at_set [OF ins] wfk
      by (auto simp: rebalanced_def ordered_append ordered_Cons intro: entry_less_trans)
    moreover have "inserted_at (entries l @ (k, s) # entries r) (key, st) (entries t')"
      using inserted_at_right [OF ins, of "entries l @ [(k, s)]"] reb by (simp add: rebalanced_def)
    ultimately show ?thesis using reb av r'(2)
      by (auto simp: rebalanced_def tree_inv_def max_def split: if_splits)
  next
    case left
    note IH = InnerNode.IH(1) [OF inv(1) assms(2) left(2)]
    then have l': "avl l'" "height l' \<in> {height l, height l + 1}" "ordered (entries l')"
      and ins: "inserted_at (entries l) (key, st) (entries l')" by (auto simp: tree_inv_def)
    have "height l' \<le> height r + 2" "height r \<le> height l' + 2" using l' av by auto
    from rotate_rebalances [OF l'(1) av(2) this, of k s h] left(3)
    have reb: "rebalanced k s l' r t'" by auto
    have "rend key < rstart k"
      using nov left(1) wfk assms(2) by (intro less_not_overlaps) (auto simp: overlaps_def)
    then have "entry_less (key, st) (k, s)" by (simp add: entry_less_def)
    then have "ordered (entries t')"
      using ord reb l'(3) inserted_at_set [OF ins] wfk
      by (auto simp: rebalanced_def ordered_append ordered_Cons intro: entry_less_trans)
    moreover have "inserted_at (entries l @ (k, s) # entries r) (key, st) (entries t')"
      using inserted_at_left [OF ins] reb by (simp add: rebalanced_def)
    ultimately show ?thesis using reb av l'(2)
      by (auto simp: rebalanced_def tree_inv_def max_def split: if_splits)
  qed
qed

text \<open>An insertion of a range that meets no node succeeds below the height limit.\<close>

lemma node_insert_succeeds:
  assumes "tree_inv t" "wf_range key" "\<And>e. e \<in> set (entries t) \<Longrightarrow> \<not> overlaps (fst e) key"
    and "height t < 50"
  shows "\<exists>t'. node_insert t key st = Ok t'"
  using assms
proof (induction t)
  case Nil
  then show ?case by simp
next
  case (InnerNode k s l r h)
  have inv: "tree_inv l" "tree_inv r"
    using InnerNode.prems(1) by (auto simp: tree_inv_def ordered_append ordered_Cons)
  have av: "avl l" "avl r" "height l \<le> height r + 1" "height r \<le> height l + 1" "height l < 50" "height r < 50"
    using InnerNode.prems(1,4) by (auto simp: tree_inv_def)
  have nov: "\<not> overlaps k key" using InnerNode.prems(3) [of "(k, s)"] by simp
  have "k \<noteq> key" using nov InnerNode.prems(2) by (auto simp: overlaps_def wf_range_def)
  then consider "k < key" | "key < k" by fastforce
  then show ?case
  proof cases
    case 1
    obtain r' where r': "node_insert r key st = Ok r'"
      using InnerNode.IH(2) [OF inv(2) assms(2)] InnerNode.prems(3) av(6) by auto
    have "avl r'" "height r' \<in> {height r, height r + 1}"
      using node_insert_Ok [OF inv(2) assms(2) r'] by (auto simp: tree_inv_def)
    then show ?thesis
      using rotate_rebalances [of l r' k s h] av 1 r' nov InnerNode.prems(4)
      by (auto simp del: update_cached_height.simps)
  next
    case 2
    obtain l' where l': "node_insert l key st = Ok l'"
      using InnerNode.IH(1) [OF inv(1) assms(2)] InnerNode.prems(3) av(5) by auto
    have "avl l'" "height l' \<in> {height l, height l + 1}"
      using node_insert_Ok [OF inv(1) assms(2) l'] by (auto simp: tree_inv_def)
    then show ?thesis
      using rotate_rebalances [of l' r k s h] av 2 l' nov InnerNode.prems(4)
      by (auto simp del: update_cached_height.simps)
  qed
qed

section \<open>Deletion\<close>

lemma get_new_root_spec:
  assumes "avl t" "t \<noteq> Nil"
  shows "\<exists>k s h t'. get_new_root t = Some (InnerNode k s Nil Nil h, t') \<and> avl t' \<and>
           height t \<in> {height t', height t' + 1} \<and> entries t = (k, s) # entries t'"
  using assms
proof (induction t)
  case Nil
  then show ?case by simp
next
  case (InnerNode k s l r h)
  show ?case
  proof (cases "l = Nil")
    case True
    with InnerNode.prems show ?thesis by auto
  next
    case False
    have av: "avl l" "avl r" "height l \<le> height r + 1" "height r \<le> height l + 1"
      "h = max (height l) (height r) + 1" using InnerNode.prems by auto
    from InnerNode.IH(1) [OF av(1) False] obtain k0 s0 h0 l' where
      g: "get_new_root l = Some (InnerNode k0 s0 Nil Nil h0, l')" "avl l'"
         "height l \<in> {height l', height l' + 1}" "entries l = (k0, s0) # entries l'" by auto
    have "height l' \<le> height r + 2" "height r \<le> height l' + 2" using g(3) av by auto
    from rotate_rebalances [OF g(2) av(2) this, of k s h] obtain t' where
      t': "rotate (update_cached_height (InnerNode k s l' r h)) = Some t'" "rebalanced k s l' r t'"
      by auto
    show ?thesis using False g t' av
      by (auto simp: rebalanced_def max_def simp del: update_cached_height.simps split: if_splits)
  qed
qed

lemma delete_root_spec:
  assumes "avl (InnerNode k s l r h)"
  shows "\<exists>t'. delete_root (InnerNode k s l r h) = Some t' \<and> avl t' \<and>
           h \<in> {height t', height t' + 1} \<and> entries t' = entries l @ entries r"
proof (cases "l = Nil \<or> r = Nil")
  case True
  with assms show ?thesis by (auto simp: avl_height_0 le_Suc_eq)
next
  case False
  have av: "avl l" "avl r" "height l \<le> height r + 1" "height r \<le> height l + 1"
    "h = max (height l) (height r) + 1" using assms by auto
  from get_new_root_spec [OF av(2)] False obtain k0 s0 h0 r' where
    g: "get_new_root r = Some (InnerNode k0 s0 Nil Nil h0, r')" "avl r'"
       "height r \<in> {height r', height r' + 1}" "entries r = (k0, s0) # entries r'" by auto
  have "height l \<le> height r' + 2" "height r' \<le> height l + 2" using g(3) av by auto
  from rotate_rebalances [OF av(1) g(2) this, of k0 s0 h0] obtain t' where
    t': "rotate (update_cached_height (InnerNode k0 s0 l r' h0)) = Some t'" "rebalanced k0 s0 l r' t'"
    by auto
  show ?thesis using False g t' av
    by (auto simp: combine_subtrees_def rebalanced_def max_def
             simp del: update_cached_height.simps split: if_splits)
qed

lemma node_delete_spec:
  assumes "avl t" "ordered (entries t)"
  shows "\<exists>t'. node_delete t key = Some t' \<and> avl t' \<and> height t \<in> {height t', height t' + 1} \<and>
           entries t' = filter (\<lambda>e. fst e \<noteq> key) (entries t)"
  using assms
proof (induction t)
  case Nil
  then show ?case by simp
next
  case (InnerNode k s l r h)
  have av: "avl l" "avl r" "height l \<le> height r + 1" "height r \<le> height l + 1"
    "h = max (height l) (height r) + 1" and ord: "ordered (entries l @ (k, s) # entries r)"
    using InnerNode.prems by auto
  then have ordlr: "ordered (entries l)" "ordered (entries r)"
    by (auto simp: ordered_append ordered_Cons)
  have before: "fst e < k" if "e \<in> set (entries l)" for e using ordered_key_before [OF ord that] .
  have after: "k < fst e" if "e \<in> set (entries r)" for e using ordered_key_after [OF ord that] .
  have keep: "filter (\<lambda>e. fst e \<noteq> key) xs = xs" if "\<And>e. e \<in> set xs \<Longrightarrow> fst e \<noteq> key"
    for xs :: "(range_inclusive \<times> node_state) list" using that by (simp add: filter_id_conv)
  consider "key = k" | "k < key" | "key < k" by fastforce
  then show ?case
  proof cases
    case 1
    have "filter (\<lambda>e. fst e \<noteq> key) (entries l) = entries l"
      using before 1 by (intro keep) fastforce
    moreover have "filter (\<lambda>e. fst e \<noteq> key) (entries r) = entries r"
      using after 1 by (intro keep) fastforce
    ultimately show ?thesis using delete_root_spec [OF InnerNode.prems(1)] 1 by auto
  next
    case 2
    have kl: "filter (\<lambda>e. fst e \<noteq> key) (entries l) = entries l"
      using before 2 by (intro keep) fastforce
    show ?thesis
    proof (cases "r = Nil")
      case True
      with 2 av InnerNode.prems kl show ?thesis by auto
    next
      case False
      from InnerNode.IH(2) [OF av(2) ordlr(2)] obtain r' where
        r': "node_delete r key = Some r'" "avl r'" "height r \<in> {height r', height r' + 1}"
            "entries r' = filter (\<lambda>e. fst e \<noteq> key) (entries r)" by auto
      have "height l \<le> height r' + 2" "height r' \<le> height l + 2" using r'(3) av by auto
      from rotate_rebalances [OF av(1) r'(2) this, of k s h] show ?thesis
        using 2 False r' kl av
        by (auto simp: rebalanced_def max_def simp del: update_cached_height.simps split: if_splits)
    qed
  next
    case 3
    have kr: "filter (\<lambda>e. fst e \<noteq> key) (entries r) = entries r"
      using after 3 by (intro keep) fastforce
    show ?thesis
    proof (cases "l = Nil")
      case True
      with 3 av InnerNode.prems kr show ?thesis by auto
    next
      case False
      from InnerNode.IH(1) [OF av(1) ordlr(1)] obtain l' where
        l': "node_delete l key = Some l'" "avl l'" "height l \<in> {height l', height l' + 1}"
            "entries l' = filter (\<lambda>e. fst e \<noteq> key) (entries l)" by auto
      have "height l' \<le> height r + 2" "height r \<le> height l' + 2" using l'(3) av by auto
      from rotate_rebalances [OF l'(2) av(2) this, of k s h] show ?thesis
        using 3 False l' kr av
        by (auto simp: rebalanced_def max_def simp del: update_cached_height.simps split: if_splits)
    qed
  qed
qed

section \<open>Searching\<close>

lemma search_None_iff:
  assumes "ordered (entries t)"
  shows "search t key = None \<longleftrightarrow> key \<notin> fst ` set (entries t)"
  using assms
proof (induction t)
  case Nil
  then show ?case by simp
next
  case (InnerNode k s l r h)
  have ord: "ordered (entries l @ (k, s) # entries r)" using InnerNode.prems by simp
  then have ordlr: "ordered (entries l)" "ordered (entries r)"
    by (auto simp: ordered_append ordered_Cons)
  have "key < k" if "key \<in> fst ` set (entries l)"
    using ordered_key_before [OF ord] that by fastforce
  moreover have "k < key" if "key \<in> fst ` set (entries r)"
    using ordered_key_after [OF ord] that by fastforce
  ultimately show ?case using InnerNode.IH ordlr order.asym [of k key] by (cases "k = key") auto
qed

lemma search_superset_Some:
  assumes "search_superset t key = Some n"
  shows "n \<noteq> Nil \<and> range_contains (nkey n) key \<and> (nkey n, nstate n) \<in> set (entries t)"
  using assms by (induction t) (auto split: if_splits)

lemma search_superset_complete:
  assumes "ordered (entries t)" "e \<in> set (entries t)" "range_contains (fst e) key" "wf_range key"
  shows "\<exists>n. search_superset t key = Some n \<and> nkey n = fst e \<and> nstate n = snd e"
  using assms
proof (induction t)
  case Nil
  then show ?case by simp
next
  case (InnerNode k s l r h)
  have ord: "ordered (entries l @ (k, s) # entries r)" using InnerNode.prems by simp
  then have ordlr: "ordered (entries l)" "ordered (entries r)"
    by (auto simp: ordered_append ordered_Cons)
  have a: "rstart key \<in> addrs (fst e)" using InnerNode.prems(3,4)
    by (auto simp: range_contains_def wf_range_def)
  consider "e \<in> set (entries l)" | "e = (k, s)" | "e \<in> set (entries r)"
    using InnerNode.prems(2) by auto
  then show ?case
  proof cases
    case 1
    then have "entry_less e (k, s)" using ord by (auto simp: ordered_append)
    then have "rend key < rstart k" "\<not> range_contains k key" using InnerNode.prems(3,4)
      by (auto simp: entry_less_def range_contains_def wf_range_def)
    with InnerNode.IH(1) [OF ordlr(1) 1] InnerNode.prems(3,4) show ?thesis by auto
  next
    case 2
    with InnerNode.prems(3) show ?thesis by auto
  next
    case 3
    then have "entry_less (k, s) e" "wf_range k" using ord by (auto simp: ordered_append ordered_Cons)
    then have "\<not> rend key < rstart k" "\<not> range_contains k key" using InnerNode.prems(3,4)
      by (auto simp: entry_less_def range_contains_def wf_range_def)
    with InnerNode.IH(2) [OF ordlr(2) 3] InnerNode.prems(3,4) show ?thesis by auto
  qed
qed

section \<open>Marking a node\<close>

lemma node_mark_as_allocated_spec:
  assumes "tree_inv t" "(key, Free) \<in> set (entries t)"
  shows "\<exists>t'. node_mark_as_allocated t key = (t', Ok ()) \<and> avl t' \<and> height t' = height t \<and>
           entries t' = map (\<lambda>e. if fst e = key then (key, Allocated) else e) (entries t)"
  using assms
proof (induction t)
  case Nil
  then show ?case by simp
next
  case (InnerNode k s l r h)
  have ord: "ordered (entries l @ (k, s) # entries r)" and av: "avl (InnerNode k s l r h)"
    using InnerNode.prems(1) by (auto simp: tree_inv_def)
  then have inv: "tree_inv l" "tree_inv r"
    by (auto simp: tree_inv_def ordered_append ordered_Cons)
  have before: "fst e < k" if "e \<in> set (entries l)" for e using ordered_key_before [OF ord that] .
  have after: "k < fst e" if "e \<in> set (entries r)" for e using ordered_key_after [OF ord that] .
  let ?f = "\<lambda>e. if fst e = key then (key, Allocated) else e"
  have l: "map ?f (entries l) = entries l" if "\<not> key < k"
    using before that by (intro map_idI) auto
  have r: "map ?f (entries r) = entries r" if "\<not> k < key"
    using after that by (intro map_idI) auto
  consider "key = k" | "k < key" | "key < k" by fastforce
  then show ?case
  proof cases
    case 1
    then have "s = Free" using InnerNode.prems(2) before after by fastforce
    with 1 av l r show ?thesis by auto
  next
    case 2
    then have "(key, Free) \<in> set (entries r)" using InnerNode.prems(2) before by fastforce
    from InnerNode.IH(2) [OF inv(2) this] 2 av l show ?thesis by auto
  next
    case 3
    then have "(key, Free) \<in> set (entries l)" using InnerNode.prems(2) after by fastforce
    from InnerNode.IH(1) [OF inv(1) this] 3 av r show ?thesis by auto
  qed
qed

text \<open>Unfoldings with which concrete runs are evaluated.\<close>

lemmas interval_tree_balance_eval [eval_simps] =
  entry_less_def ordered_def tree_inv_def

end
