(* ===== verification/Interval_Tree_Alloc.thy ===== *)
theory Interval_Tree_Alloc
  imports Interval_Tree_Balance
begin

text \<open>
  Functional correctness of the interval tree.  The abstraction \<open>state_at t a\<close> is the state of the
  address \<open>a\<close> (free, allocated or not managed), and each operation of the tree is shown to be the
  corresponding update of that function; the remaining lemmas say when an operation succeeds.
\<close>

section \<open>The state of an address\<close>

definition state_at :: "interval_tree \<Rightarrow> nat \<Rightarrow> node_state option" where
  "state_at t a = map_option snd (find (\<lambda>e. a \<in> addrs (fst e)) (entries t))"

lemma state_at_Some:
  assumes "ordered (entries t)"
  shows "state_at t a = Some s \<longleftrightarrow> (\<exists>k. (k, s) \<in> set (entries t) \<and> a \<in> addrs k)"
proof
  assume "state_at t a = Some s"
  then show "\<exists>k. (k, s) \<in> set (entries t) \<and> a \<in> addrs k"
    by (auto simp: state_at_def dest!: find_SomeD)
next
  assume "\<exists>k. (k, s) \<in> set (entries t) \<and> a \<in> addrs k"
  then obtain k where k: "(k, s) \<in> set (entries t)" "a \<in> addrs k" by auto
  then obtain e where e: "find (\<lambda>e. a \<in> addrs (fst e)) (entries t) = Some e"
    by (cases "find (\<lambda>e. a \<in> addrs (fst e)) (entries t)") (auto simp: find_None_iff)
  then have "e \<in> set (entries t)" "a \<in> addrs (fst e)"
    by (auto dest: find_SomeD)
  with ordered_disjoint [OF assms, of e "(k, s)" a] k have "e = (k, s)" by simp
  with e show "state_at t a = Some s" by (simp add: state_at_def)
qed

definition fits_in :: "(range_inclusive \<times> node_state) list \<Rightarrow> range_inclusive \<Rightarrow> bool" where
  "fits_in xs r \<longleftrightarrow> (\<forall>e \<in> set xs. \<not> overlaps (fst e) r)"

section \<open>Steps on the root\<close>

lemma then_do_Ok:
  "then_do m f = (t', Ok y) \<longleftrightarrow> (\<exists>t x. m = (t, Ok x) \<and> f t x = (t', Ok y))"
  by (auto simp: then_do_def split: prod.splits result.splits)

lemma then_do_simps [simp]:
  "then_do (t, Ok x) f = f t x"
  "then_do (t, Err e) f = (t, Err e)"
  "then_do (t, Panic) f = (t, Panic)"
  by (simp_all add: then_do_def)

lemma tree_insert_Ok:
  assumes "tree_inv t" "wf_range key" "tree_insert t key st = (t', Ok ())"
  shows "tree_inv t' \<and> height t' \<le> height t + 1 \<and> set (entries t') = insert (key, st) (set (entries t))"
proof (cases "t = Nil")
  case True
  with assms show ?thesis by (auto simp: tree_insert_def node_new_def tree_inv_def ordered_def)
next
  case False
  with assms(3) have "node_insert t key st = Ok t'"
    by (auto simp: tree_insert_def split: result.splits)
  with node_insert_Ok [OF assms(1,2)] inserted_at_set show ?thesis by fastforce
qed

lemma tree_insert_succeeds:
  assumes "tree_inv t" "wf_range key" "fits_in (entries t) key" "height t < 50"
  shows "\<exists>t'. tree_insert t key st = (t', Ok ())"
  using node_insert_succeeds [OF assms(1,2) _ assms(4), of st] assms(3)
  by (auto simp: tree_insert_def fits_in_def)

lemma tree_delete_Ok:
  assumes "tree_inv t" "tree_delete t key = (t', Ok ())"
  shows "tree_inv t' \<and> height t' \<le> height t \<and>
         set (entries t') = {e \<in> set (entries t). fst e \<noteq> key}"
proof (cases "t = Nil")
  case True
  with assms show ?thesis by (auto simp: tree_delete_def)
next
  case False
  with assms(2) have "node_delete t key = Some t'"
    by (auto simp: tree_delete_def split: if_splits option.splits)
  with node_delete_spec [of t key] assms(1) show ?thesis
    by (auto simp: tree_inv_def intro: ordered_filter)
qed

lemma tree_delete_succeeds:
  assumes "tree_inv t" "(key, st) \<in> set (entries t)"
  shows "\<exists>t'. tree_delete t key = (t', Ok ())"
proof -
  have "search t key \<noteq> None" using assms search_None_iff [of t key]
    by (force simp: tree_inv_def)
  moreover obtain t' where "node_delete t key = Some t'"
    using node_delete_spec [of t key] assms(1) by (auto simp: tree_inv_def)
  moreover have "t \<noteq> Nil" using assms(2) by auto
  ultimately show ?thesis by (auto simp: tree_delete_def)
qed

lemma tree_mark_Ok:
  assumes "tree_inv t" "(key, Free) \<in> set (entries t)"
  shows "\<exists>t'. tree_mark_as_allocated t key = (t', Ok ()) \<and> tree_inv t' \<and> height t' = height t \<and>
           set (entries t') = {e \<in> set (entries t). fst e \<noteq> key} \<union> {(key, Allocated)}"
proof -
  let ?f = "\<lambda>e. if fst e = key then (key, Allocated) else e"
  obtain t' where t': "node_mark_as_allocated t key = (t', Ok ())" "avl t'" "height t' = height t"
    "entries t' = map ?f (entries t)" using node_mark_as_allocated_spec [OF assms] by auto
  have "ordered (entries t')" using assms(1) t'(4)
    by (auto simp: tree_inv_def ordered_def sorted_wrt_map entry_less_def
             elim!: sorted_wrt_mono_rel [rotated])
  moreover have "set (entries t') = {e \<in> set (entries t). fst e \<noteq> key} \<union> {(key, Allocated)}"
    using t'(4) assms(2) by force
  moreover have "t \<noteq> Nil" using assms(2) by auto
  ultimately show ?thesis using t' by (auto simp: tree_mark_as_allocated_def tree_inv_def)
qed

section \<open>Candidates\<close>

definition feasible :: "alloc_constraint \<Rightarrow> range_inclusive \<Rightarrow> nat \<Rightarrow> bool" where
  "feasible c k a \<longleftrightarrow> a mod calign c = 0 \<and> rstart k \<le> a \<and> a + csize c \<le> rend k + 1"

lemma check_constraint_not_Panic:
  assumes "cpolicy c \<in> {FirstMatch, LastMatch}"
  shows "check_constraint n c \<noteq> Panic"
  using assms
  by (auto simp: check_constraint_def result_simps align_up_def align_down_def split: if_splits option.splits)

lemma check_constraint_Ok:
  assumes "wf_constraint c" "cpolicy c \<in> {FirstMatch, LastMatch}" "wf_range (nkey n)"
    and "check_constraint n c = Ok r"
  shows "nstate n = Free \<and> rend r = rend (nkey n) \<and> feasible c (nkey n) (rstart r)"
proof -
  have al: "is_power_of_two (calign c)" "calign c \<le> U64_MAX" and sz: "0 < csize c"
    using assms(1) by (auto simp: wf_constraint_def)
  have k: "rstart (nkey n) \<le> rend (nkey n)" "rend (nkey n) \<le> U64_MAX"
    using assms(3) by (auto simp: wf_range_def)
  show ?thesis
  proof (cases "cpolicy c = FirstMatch")
    case True
    with assms(4) obtain a where a: "align_up (rstart (nkey n)) (calign c) = Ok a"
      and r: "r = RangeInclusive a (rend (nkey n))" "a \<le> rend (nkey n)" "csize c \<le> range_len r"
      and free: "nstate n = Free"
      by (auto simp: check_constraint_def is_free_def result_simps range_new_Ok split: if_splits)
    from align_up_Ok [OF al _ a] k have "a mod calign c = 0" "rstart (nkey n) \<le> a" by auto
    with r free show ?thesis by (auto simp: feasible_def range_len_def)
  next
    case False
    with assms(2) have last: "cpolicy c = LastMatch" by simp
    with assms(4) obtain a where
      le: "csize c \<le> rend (nkey n)" and a: "align_down (rend (nkey n) - csize c + 1) (calign c) = Ok a"
      and st: "rstart (nkey n) \<le> a"
      and r: "r = RangeInclusive a (rend (nkey n))" "csize c \<le> range_len r"
      and free: "nstate n = Free"
      by (auto simp: check_constraint_def is_free_def result_simps range_new_Ok checked_simps
               split: if_splits)
    have "a = (rend (nkey n) - csize c + 1) div calign c * calign c"
      using a align_down_eq [OF al, of "rend (nkey n) - csize c + 1"] k le sz by simp
    then have "a mod calign c = 0" "a \<le> rend (nkey n) - csize c + 1"
      using align_down_le by simp_all
    with r st le free show ?thesis by (auto simp: feasible_def)
  qed
qed

lemma check_constraint_complete:
  assumes "wf_constraint c" "cpolicy c = FirstMatch" "wf_range (nkey n)" "nstate n = Free"
    and "feasible c (nkey n) a"
  shows "\<exists>r. check_constraint n c = Ok r \<and> rstart r \<le> a"
proof -
  have al: "is_power_of_two (calign c)" "calign c \<le> U64_MAX" and sz: "0 < csize c"
    using assms(1) by (auto simp: wf_constraint_def)
  have k: "rstart (nkey n) \<le> rend (nkey n)" "rend (nkey n) \<le> U64_MAX"
    using assms(3) by (auto simp: wf_range_def)
  have f: "a mod calign c = 0" "rstart (nkey n) \<le> a" "a + csize c \<le> rend (nkey n) + 1"
    using assms(5) by (auto simp: feasible_def)
  obtain b where b: "align_up (rstart (nkey n)) (calign c) = Ok b" "b \<le> a"
    using align_up_exists [OF al f(2,1)] f(3) k sz by auto
  have "rstart (nkey n) \<le> b" using align_up_Ok [OF al _ b(1)] k by simp
  then have "range_new b (rend (nkey n)) = Ok (RangeInclusive b (rend (nkey n)))"
    using b f sz assms(3) by (auto simp: range_new_Ok wf_range_def)
  with b f sz assms(2,4) show ?thesis
    by (auto simp: check_constraint_def is_free_def range_len_def)
qed

text \<open>\<open>first_match\<close> is the first node in address order that passes the check.\<close>

lemma check_constraint_cong:
  "nkey n = nkey m \<Longrightarrow> nstate n = nstate m \<Longrightarrow> check_constraint n c = check_constraint m c"
  by (cases "cpolicy c") (simp_all add: check_constraint_def)

abbreviation entry_check :: "alloc_constraint \<Rightarrow> range_inclusive \<times> node_state \<Rightarrow> (alloc_error, range_inclusive) result"
where "entry_check c e \<equiv> check_constraint (node_new (fst e) (snd e)) c"

lemma first_match_spec:
  assumes "cpolicy c \<in> {FirstMatch, LastMatch}"
  shows "case first_match t c of
           Ok (n, r) \<Rightarrow> (\<exists>xs ys. entries t = xs @ (nkey n, nstate n) # ys \<and>
                          check_constraint n c = Ok r \<and> (\<forall>x \<in> set xs. \<not> is_ok (entry_check c x)))
         | Err e \<Rightarrow> e = ResourceNotAvailable \<and> (\<forall>x \<in> set (entries t). \<not> is_ok (entry_check c x))
         | Panic \<Rightarrow> False"
proof (induction t)
  case Nil
  then show ?case by simp
next
  case (InnerNode k s l r h)
  let ?self = "InnerNode k s l r h"
  have cc: "entry_check c (k, s) = check_constraint ?self c"
    by (rule check_constraint_cong) (simp_all add: node_new_def)
  show ?case
  proof (cases "first_match l c")
    case (Ok p)
    obtain n rg where p: "p = (n, rg)" by (cases p)
    from InnerNode.IH(1) Ok p obtain xs ys where "entries l = xs @ (nkey n, nstate n) # ys"
      "check_constraint n c = Ok rg" "\<forall>x \<in> set xs. \<not> is_ok (entry_check c x)" by auto
    then have "entries ?self = xs @ (nkey n, nstate n) # (ys @ (k, s) # entries r) \<and>
      check_constraint n c = Ok rg \<and> (\<forall>x \<in> set xs. \<not> is_ok (entry_check c x))" by simp
    with Ok p show ?thesis by auto
  next
    case (Err e)
    with InnerNode.IH(1) have e: "e = ResourceNotAvailable"
      and l: "\<forall>x \<in> set (entries l). \<not> is_ok (entry_check c x)" by auto
    show ?thesis
    proof (cases "check_constraint ?self c")
      case ok: (Ok rg)
      have "entries ?self = entries l @ (nkey ?self, nstate ?self) # entries r" by simp
      with ok Err e l show ?thesis by auto
    next
      case err: (Err e')
      with cc have "\<not> is_ok (entry_check c (k, s))" by simp
      with err Err e l InnerNode.IH(2) show ?thesis
        apply (auto split: result.splits prod.splits)
        subgoal for n rg xs ys by (rule exI [of _ "entries l @ (k, s) # xs"]) auto
        done
    next
      case Panic
      with check_constraint_not_Panic [OF assms] show ?thesis by simp
    qed
  next
    case Panic
    with InnerNode.IH(1) show ?thesis by simp
  qed
qed

lemma last_match_spec:
  assumes "cpolicy c \<in> {FirstMatch, LastMatch}"
  shows "case last_match t c of
           Ok (n, r) \<Rightarrow> (nkey n, nstate n) \<in> set (entries t) \<and> check_constraint n c = Ok r
         | Err e \<Rightarrow> e = ResourceNotAvailable
         | Panic \<Rightarrow> False"
proof (induction t)
  case Nil
  then show ?case by simp
next
  case (InnerNode k s l r h)
  then show ?case
    using check_constraint_not_Panic [OF assms, of "InnerNode k s l r h"]
    by (cases "last_match r c"; cases "check_constraint (InnerNode k s l r h) c")
       (auto split: result.splits prod.splits)
qed

lemma find_candidate_spec:
  assumes "wf_constraint c" "tree_inv t" "find_candidate t c = Ok (n, r)"
  shows "(nkey n, nstate n) \<in> set (entries t) \<and> feasible c (nkey n) (rstart r) \<and>
         (cpolicy c \<in> {FirstMatch, LastMatch} \<longrightarrow> nstate n = Free)"
proof (cases "cpolicy c \<in> {FirstMatch, LastMatch}")
  case True
  then have mem: "(nkey n, nstate n) \<in> set (entries t) \<and> check_constraint n c = Ok r"
    using first_match_spec [OF True, of t] last_match_spec [OF True, of t] assms(3)
    by (auto simp: find_candidate_def)
  then have "wf_range (nkey n)" using assms(2) ordered_wf [of "entries t" "(nkey n, nstate n)"]
    by (simp add: tree_inv_def)
  with check_constraint_Ok [OF assms(1) True this] mem show ?thesis by auto
next
  case False
  then obtain a where a: "cpolicy c = ExactMatch a" by (cases "cpolicy c") auto
  with assms(3) obtain p where "search_superset t p = Some n" "r = RangeInclusive a (a + (csize c - 1))"
    "range_contains (nkey n) r"
    by (auto simp: find_candidate_def result_simps range_new_Ok checked_simps split: if_splits)
  with search_superset_Some [of t p n] assms(1) a show ?thesis
    by (auto simp: feasible_def wf_constraint_def range_contains_def)
qed

section \<open>Splitting a node\<close>

definition before_slot :: "range_inclusive \<Rightarrow> range_inclusive \<Rightarrow> (range_inclusive \<times> node_state) set" where
  "before_slot nk res =
     (if rstart nk < rstart res then {(RangeInclusive (rstart nk) (rstart res - 1), Free)} else {})"

definition after_slot :: "range_inclusive \<Rightarrow> range_inclusive \<Rightarrow> (range_inclusive \<times> node_state) set" where
  "after_slot nk res =
     (if rend res < rend nk then {(RangeInclusive (rend res + 1) (rend nk), Free)} else {})"

lemma split_node_Ok:
  assumes "tree_inv t" "wf_range nk" "wf_range res" "rstart nk \<le> rstart res" "rend res \<le> rend nk"
    and "split_node t nk res = (t', Ok res')"
  shows "res' = res \<and> tree_inv t' \<and>
         set (entries t') = {e \<in> set (entries t). fst e \<noteq> nk} \<union> {(res, Allocated)} \<union>
            before_slot nk res \<union> after_slot nk res"
proof -
  from assms(6) obtain t1 t2 t3 where
    t1: "tree_delete t nk = (t1, Ok ())" and
    t2: "(if rstart res > rstart nk
          then then_do (t1, rbind (ok_or (checked_sub (rstart res) 1) Overflow) (\<lambda>e. range_new (rstart nk) e))
                 (\<lambda>t key. tree_insert t key Free)
          else (t1, Ok ())) = (t2, Ok ())" and
    t3: "tree_insert t2 res Allocated = (t3, Ok ())" and
    t4: "(if rend res < rend nk
          then then_do (t3, rbind (ok_or (checked_add (rend res) 1) Overflow) (\<lambda>s. range_new s (rend nk)))
                 (\<lambda>t key. tree_insert t key Free)
          else (t3, Ok ())) = (t', Ok ())" and res': "res' = res"
    unfolding split_node_def then_do_Ok by auto
  have nk: "rend nk \<le> U64_MAX" "\<not> (rstart nk = 0 \<and> rend nk = U64_MAX)" "rstart res \<le> rend res"
    using assms(2,3) by (auto simp: wf_range_def)
  note d = tree_delete_Ok [OF assms(1) t1]
  have i2: "tree_inv t2 \<and> set (entries t2) = set (entries t1) \<union> before_slot nk res"
  proof (cases "rstart nk < rstart res")
    case True
    let ?k = "RangeInclusive (rstart nk) (rstart res - 1)"
    have "wf_range ?k" using True nk assms(5) by (auto simp: wf_range_def)
    moreover have "tree_insert t1 ?k Free = (t2, Ok ())"
      using t2 True by (auto simp: then_do_Ok result_simps checked_simps range_new_Ok)
    ultimately show ?thesis using tree_insert_Ok [of t1 ?k Free t2] d True
      by (auto simp: before_slot_def)
  next
    case False
    with t2 d show ?thesis by (simp add: before_slot_def)
  qed
  then have i3: "tree_inv t3 \<and> set (entries t3) = insert (res, Allocated) (set (entries t2))"
    using tree_insert_Ok [OF _ assms(3) t3] by auto
  have "tree_inv t' \<and> set (entries t') = set (entries t3) \<union> after_slot nk res"
  proof (cases "rend res < rend nk")
    case True
    let ?k = "RangeInclusive (rend res + 1) (rend nk)"
    have "wf_range ?k" using True nk by (auto simp: wf_range_def)
    moreover have "tree_insert t3 ?k Free = (t', Ok ())"
      using t4 True by (auto simp: then_do_Ok result_simps checked_simps range_new_Ok)
    ultimately show ?thesis using tree_insert_Ok [of t3 ?k Free t'] i3 True
      by (auto simp: after_slot_def)
  next
    case False
    with t4 i3 show ?thesis by (simp add: after_slot_def)
  qed
  with d i2 i3 res' show ?thesis by auto
qed

lemma ex_entry_Un:
  "(\<exists>k. (k, s) \<in> A \<union> {(res, s')} \<union> B \<union> C \<and> P k) \<longleftrightarrow>
     (\<exists>k. (k, s) \<in> A \<and> P k) \<or> (s = s' \<and> P res) \<or> (\<exists>k. ((k, s) \<in> B \<or> (k, s) \<in> C) \<and> P k)"
  by auto

lemma around_slot:
  assumes "rstart res \<le> rend res" "rstart nk \<le> rstart res" "rend res \<le> rend nk"
  shows "(\<exists>k. ((k, s) \<in> before_slot nk res \<or> (k, s) \<in> after_slot nk res) \<and> a \<in> addrs k) \<longleftrightarrow>
         s = Free \<and> a \<in> addrs nk \<and> a \<notin> addrs res"
proof -
  have "(\<exists>k. (k, s) \<in> before_slot nk res \<and> a \<in> addrs k) \<longleftrightarrow>
        s = Free \<and> rstart nk \<le> a \<and> a < rstart res"
    by (auto simp: before_slot_def)
  moreover have "(\<exists>k. (k, s) \<in> after_slot nk res \<and> a \<in> addrs k) \<longleftrightarrow>
        s = Free \<and> rend res < a \<and> a \<le> rend nk"
    by (auto simp: after_slot_def)
  ultimately show ?thesis using assms by auto
qed

text \<open>The whole of a split, seen as an update of the address states.\<close>

lemma split_state_at:
  assumes "tree_inv t" "tree_inv t'" "(nk, ns) \<in> set (entries t)" "wf_range res"
    and "rstart nk \<le> rstart res" "rend res \<le> rend nk"
    and "set (entries t') = {e \<in> set (entries t). fst e \<noteq> nk} \<union> {(res, Allocated)} \<union>
            before_slot nk res \<union> after_slot nk res"
  shows "state_at t' a =
           (if a \<in> addrs res then Some Allocated
            else if a \<in> addrs nk then Some Free else state_at t a)"
proof (rule option_eq_by_Some)
  fix s
  have ord: "ordered (entries t)" "ordered (entries t')" using assms(1,2) by (auto simp: tree_inv_def)
  have res: "rstart res \<le> rend res" using assms(4) by (simp add: wf_range_def)
  have other: "a \<notin> addrs nk" if "(k, s) \<in> set (entries t)" "k \<noteq> nk" "a \<in> addrs k" for k
    using ordered_disjoint [OF ord(1) that(1) assms(3)] that(2,3) by auto
  have "state_at t' a = Some s \<longleftrightarrow> (\<exists>k. (k, s) \<in> set (entries t') \<and> a \<in> addrs k)"
    by (rule state_at_Some [OF ord(2)])
  also have "\<dots> \<longleftrightarrow> (\<exists>k. (k, s) \<in> set (entries t) \<and> k \<noteq> nk \<and> a \<in> addrs k) \<or> (s = Allocated \<and> a \<in> addrs res) \<or>
      (s = Free \<and> a \<in> addrs nk \<and> a \<notin> addrs res)"
    unfolding assms(7) ex_entry_Un around_slot [OF res assms(5,6), of s a] by simp
  also have "\<dots> \<longleftrightarrow> (if a \<in> addrs res then Some Allocated
      else if a \<in> addrs nk then Some Free else state_at t a) = Some s" (is "?L \<longleftrightarrow> ?R")
  proof (cases "a \<in> addrs nk")
    case True
    then have "\<not> (\<exists>k. (k, s) \<in> set (entries t) \<and> k \<noteq> nk \<and> a \<in> addrs k)" using other by blast
    with True show ?thesis by (cases "a \<in> addrs res") auto
  next
    case False
    then have "a \<notin> addrs res" using assms(5,6) by auto
    moreover have "(\<exists>k. (k, s) \<in> set (entries t) \<and> k \<noteq> nk \<and> a \<in> addrs k) \<longleftrightarrow> state_at t a = Some s"
      unfolding state_at_Some [OF ord(1)] using False by blast
    ultimately show ?thesis using False by argo
  qed
  finally show "state_at t' a = Some s \<longleftrightarrow> \<dots>" .
qed

section \<open>Allocation\<close>

definition slot :: "alloc_constraint \<Rightarrow> nat \<Rightarrow> range_inclusive" where
  "slot c a = RangeInclusive a (a + csize c - 1)"

lemma tree_allocate_Ok_cases:
  assumes "tree_inv t" "wf_constraint c" "tree_allocate t c = (t', Ok r)"
  obtains n rg where "find_candidate t c = Ok (n, rg)" "wf_range (slot c (rstart rg))"
    "rstart (nkey n) = rstart rg \<and> range_len (nkey n) = csize c \<and>
       tree_mark_as_allocated t (nkey n) = (t', Ok ()) \<and> r = nkey n
     \<or> split_node t (nkey n) (slot c (rstart rg)) = (t', Ok r)"
proof -
  from assms(3) obtain n rg res where
    c: "find_candidate t c = Ok (n, rg)" and
    res: "rbind (rbind (ok_or (checked_add (rstart rg) (csize c)) Overflow)
                   (\<lambda>addr. ok_or (checked_sub addr 1) Underflow))
             (\<lambda>e. range_new (rstart rg) e) = Ok res" and
    rest: "(if rstart (nkey n) = rstart res \<and> range_len (nkey n) = csize c
        then then_do (tree_mark_as_allocated t (nkey n)) (\<lambda>t _. (t, Ok (nkey n)))
        else split_node t (nkey n) res) = (t', Ok r)"
    unfolding tree_allocate_def Let_def then_do_Ok by (auto simp: then_do_Ok split: if_splits)
  from res have s: "res = slot c (rstart rg)" "rstart res = rstart rg" "wf_range res"
    by (auto simp: slot_def result_simps checked_simps range_new_Ok wf_range_def)
  with rest have "rstart (nkey n) = rstart rg \<and> range_len (nkey n) = csize c \<and>
       tree_mark_as_allocated t (nkey n) = (t', Ok ()) \<and> r = nkey n
     \<or> split_node t (nkey n) (slot c (rstart rg)) = (t', Ok r)"
    by (auto simp: then_do_Ok split: if_splits)
  with c s show ?thesis by (intro that) auto
qed

lemma tree_allocate_Ok:
  assumes "tree_inv t" "wf_constraint c" "cpolicy c \<in> {FirstMatch, LastMatch}"
    and "tree_allocate t c = (t', Ok r)"
  shows "tree_inv t' \<and> wf_range r \<and> range_len r = csize c \<and> rstart r mod calign c = 0 \<and>
         (\<forall>a \<in> addrs r. state_at t a = Some Free) \<and>
         state_at t' = (\<lambda>a. if a \<in> addrs r then Some Allocated else state_at t a)"
proof -
  from tree_allocate_Ok_cases [OF assms(1,2,4)] obtain n rg where
    c: "find_candidate t c = Ok (n, rg)" and wf: "wf_range (slot c (rstart rg))" and
    rest: "rstart (nkey n) = rstart rg \<and> range_len (nkey n) = csize c \<and>
       tree_mark_as_allocated t (nkey n) = (t', Ok ()) \<and> r = nkey n
     \<or> split_node t (nkey n) (slot c (rstart rg)) = (t', Ok r)" .
  from find_candidate_spec [OF assms(2,1) c] assms(3) have
    mem: "(nkey n, Free) \<in> set (entries t)" and f: "feasible c (nkey n) (rstart rg)" by auto
  have ord: "ordered (entries t)" using assms(1) by (simp add: tree_inv_def)
  have wfn: "wf_range (nkey n)" using ordered_wf [OF ord mem] by simp
  have free: "state_at t a = Some Free" if "a \<in> addrs (nkey n)" for a
    using mem that by (auto simp: state_at_Some [OF ord])
  let ?s = "slot c (rstart rg)"
  have sz: "0 < csize c" using assms(2) by (simp add: wf_constraint_def)
  have b: "rstart (nkey n) \<le> rstart ?s" "rend ?s \<le> rend (nkey n)" "rstart ?s mod calign c = 0"
    "range_len ?s = csize c"
    using f sz by (auto simp: feasible_def slot_def range_len_def)
  have spec: "tree_inv t' \<and> r = ?s \<and> set (entries t') = {e \<in> set (entries t). fst e \<noteq> nkey n} \<union>
      {(?s, Allocated)} \<union> before_slot (nkey n) ?s \<union> after_slot (nkey n) ?s"
    using rest
  proof
    assume m: "rstart (nkey n) = rstart rg \<and> range_len (nkey n) = csize c \<and>
       tree_mark_as_allocated t (nkey n) = (t', Ok ()) \<and> r = nkey n"
    then have "nkey n = ?s" using wfn sz
      by (cases "nkey n") (auto simp: slot_def range_len_def wf_range_def)
    with m tree_mark_Ok [OF assms(1) mem] show ?thesis
      by (auto simp: before_slot_def after_slot_def)
  next
    assume "split_node t (nkey n) (slot c (rstart rg)) = (t', Ok r)"
    with split_node_Ok [OF assms(1) wfn wf b(1,2)] show ?thesis by auto
  qed
  have "state_at t' a = (if a \<in> addrs ?s then Some Allocated else state_at t a)" for a
    using split_state_at [OF assms(1) _ mem wf b(1,2), of t' a] spec free [of a] by auto
  moreover have "state_at t a = Some Free" if "a \<in> addrs ?s" for a
    using free that b by auto
  ultimately show ?thesis using spec wf b by auto
qed

text \<open>Unfoldings with which concrete runs are evaluated.\<close>

text \<open>The granted range is a node of the new tree.\<close>

lemma tree_allocate_entry:
  assumes "tree_inv t" "wf_constraint c" "tree_allocate t c = (t', Ok r)" "cpolicy c \<in> {FirstMatch, LastMatch}"
  shows "(r, Allocated) \<in> set (entries t')"
proof -
  obtain n rg where n: "find_candidate t c = Ok (n, rg)" "wf_range (slot c (rstart rg))"
    "rstart (nkey n) = rstart rg \<and> range_len (nkey n) = csize c \<and>
       tree_mark_as_allocated t (nkey n) = (t', Ok ()) \<and> r = nkey n
     \<or> split_node t (nkey n) (slot c (rstart rg)) = (t', Ok r)"
    by (rule tree_allocate_Ok_cases [OF assms(1-3)])
  from find_candidate_spec [OF assms(2,1) n(1)] assms(4) have
    mem: "(nkey n, Free) \<in> set (entries t)" and f: "feasible c (nkey n) (rstart rg)" by auto
  have wfn: "wf_range (nkey n)" using ordered_wf [of "entries t", OF _ mem] assms(1) by (simp add: tree_inv_def)
  from n(3) show ?thesis
  proof
    assume "rstart (nkey n) = rstart rg \<and> range_len (nkey n) = csize c \<and>
       tree_mark_as_allocated t (nkey n) = (t', Ok ()) \<and> r = nkey n"
    then show ?thesis using tree_mark_Ok [OF assms(1) mem] by auto
  next
    assume s: "split_node t (nkey n) (slot c (rstart rg)) = (t', Ok r)"
    have "rstart (nkey n) \<le> rstart (slot c (rstart rg))" "rend (slot c (rstart rg)) \<le> rend (nkey n)"
      using f unfolding feasible_def slot_def by (simp_all, linarith)
    from split_node_Ok [OF assms(1) wfn n(2) this s] show ?thesis by auto
  qed
qed

lemmas interval_tree_alloc_eval [eval_simps] =
  state_at_def fits_in_def feasible_def slot_def

end
