(* ===== verification/Interval_Tree_Free.thy ===== *)
theory Interval_Tree_Free
  imports Interval_Tree_Alloc
begin

text \<open>
  The rest of the correctness of the interval tree: when \<open>allocate\<close> succeeds and where it puts the
  slot, what \<open>free\<close> does, that neither of them panics, and the two places where the code leaves the
  specification (an exact match inside an allocated node, a freed range that starts at address 1).
\<close>

section \<open>Allocation succeeds\<close>

lemma entry_not_overlaps:
  assumes "ordered xs" "(nk, ns) \<in> set xs" "e \<in> set xs" "fst e \<noteq> nk"
    and "wf_range r" "rstart nk \<le> rstart r" "rend r \<le> rend nk"
  shows "\<not> overlaps (fst e) r"
proof
  assume "overlaps (fst e) r"
  then obtain a where "a \<in> addrs (fst e)" "a \<in> addrs r"
    using overlaps_iff [OF ordered_wf [OF assms(1,3)] assms(5)] by blast
  with assms(6,7) ordered_disjoint [OF assms(1,3,2), of a] assms(4) show False by auto
qed

lemma split_node_succeeds:
  assumes "tree_inv t" "(nk, ns) \<in> set (entries t)" "wf_range res"
    and "rstart nk \<le> rstart res" "rend res \<le> rend nk" "height t \<le> 47"
  shows "\<exists>t'. split_node t nk res = (t', Ok res)"
proof -
  have ord: "ordered (entries t)" using assms(1) by (simp add: tree_inv_def)
  have wfn: "wf_range nk" using ordered_wf [OF ord assms(2)] by simp
  have nk: "rend nk \<le> U64_MAX" "\<not> (rstart nk = 0 \<and> rend nk = U64_MAX)" "rstart res \<le> rend res"
    using wfn assms(3) by (auto simp: wf_range_def)
  obtain t1 where t1: "tree_delete t nk = (t1, Ok ())" using tree_delete_succeeds [OF assms(1,2)] by auto
  note d = tree_delete_Ok [OF assms(1) t1]
  have fit1: "fits_in (entries t1) r"
    if "wf_range r" "rstart nk \<le> rstart r" "rend r \<le> rend nk" for r
    unfolding fits_in_def using d entry_not_overlaps [OF ord assms(2) _ _ that] by auto
  have "\<exists>t2. (if rstart res > rstart nk
          then then_do (t1, rbind (ok_or (checked_sub (rstart res) 1) Overflow) (\<lambda>e. range_new (rstart nk) e))
                 (\<lambda>t key. tree_insert t key Free)
          else (t1, Ok ())) = (t2, Ok ()) \<and> tree_inv t2 \<and> height t2 \<le> 48 \<and> fits_in (entries t2) res \<and>
          (\<forall>r. wf_range r \<longrightarrow> rend res < rstart r \<longrightarrow> rend r \<le> rend nk \<longrightarrow> fits_in (entries t2) r)"
  proof (cases "rstart res > rstart nk")
    case True
    let ?k = "RangeInclusive (rstart nk) (rstart res - 1)"
    have wfk: "wf_range ?k" using True nk assms(5) by (auto simp: wf_range_def)
    have rb: "rbind (ok_or (checked_sub (rstart res) 1) Overflow) (\<lambda>e. range_new (rstart nk) e) = Ok ?k"
      using True wfk by (simp add: checked_sub_def range_new_of_wf)
    have "fits_in (entries t1) ?k" using wfk nk assms(5) by (intro fit1) auto
    from tree_insert_succeeds [OF _ wfk this] d assms(6) obtain t2
      where t2: "tree_insert t1 ?k Free = (t2, Ok ())" by auto
    note i2 = tree_insert_Ok [OF _ wfk t2]
    have no: "\<not> overlaps ?k r" if "rstart res \<le> rstart r" for r
      using that True by (auto simp: overlaps_def)
    have "fits_in (entries t2) r" if "wf_range r" "rstart res \<le> rstart r" "rend r \<le> rend nk" for r
      using i2 d fit1 [of r] no [of r] that assms(4) by (auto simp: fits_in_def)
    with i2 d rb t2 True assms(3-6) nk show ?thesis by auto
  next
    case False
    with d fit1 assms(3-6) nk show ?thesis by auto
  qed
  then obtain t2 where t2: "(if rstart res > rstart nk
          then then_do (t1, rbind (ok_or (checked_sub (rstart res) 1) Overflow) (\<lambda>e. range_new (rstart nk) e))
                 (\<lambda>t key. tree_insert t key Free)
          else (t1, Ok ())) = (t2, Ok ())" and i2: "tree_inv t2" "height t2 \<le> 48" "fits_in (entries t2) res"
      "\<forall>r. wf_range r \<longrightarrow> rend res < rstart r \<longrightarrow> rend r \<le> rend nk \<longrightarrow> fits_in (entries t2) r" by auto
  obtain t3 where t3: "tree_insert t2 res Allocated = (t3, Ok ())"
    using tree_insert_succeeds [OF i2(1) assms(3) i2(3)] i2(2) by auto
  note i3 = tree_insert_Ok [OF i2(1) assms(3) t3]
  have "\<exists>t4. (if rend res < rend nk
          then then_do (t3, rbind (ok_or (checked_add (rend res) 1) Overflow) (\<lambda>s. range_new s (rend nk)))
                 (\<lambda>t key. tree_insert t key Free)
          else (t3, Ok ())) = (t4, Ok ())"
  proof (cases "rend res < rend nk")
    case True
    let ?k = "RangeInclusive (rend res + 1) (rend nk)"
    have wfk: "wf_range ?k" using True nk by (auto simp: wf_range_def)
    have rb: "rbind (ok_or (checked_add (rend res) 1) Overflow) (\<lambda>s. range_new s (rend nk)) = Ok ?k"
      using True nk wfk by (simp add: checked_add_def range_new_of_wf)
    have "\<not> overlaps res ?k" by (auto simp: overlaps_def)
    then have "fits_in (entries t3) ?k" using i2(4) i3 wfk by (auto simp: fits_in_def)
    from tree_insert_succeeds [OF _ wfk this, of Free] i3 i2(2) rb True show ?thesis by auto
  next
    case False
    then show ?thesis by auto
  qed
  then obtain t4 where t4: "(if rend res < rend nk
          then then_do (t3, rbind (ok_or (checked_add (rend res) 1) Overflow) (\<lambda>s. range_new s (rend nk)))
                 (\<lambda>t key. tree_insert t key Free)
          else (t3, Ok ())) = (t4, Ok ())" ..
  show ?thesis unfolding split_node_def t1 then_do_simps t2 t3 t4 by simp
qed

lemma allocate_from_candidate:
  assumes "tree_inv t" "wf_constraint c" "find_candidate t c = Ok (n, rg)"
    and "rstart rg + csize c \<le> U64_MAX" "height t \<le> 47"
    and "nstate n = Free \<or> nkey n \<noteq> slot c (rstart rg)"
  shows "\<exists>t'. tree_allocate t c = (t', Ok (slot c (rstart rg)))"
proof -
  from find_candidate_spec [OF assms(2,1,3)] have
    mem: "(nkey n, nstate n) \<in> set (entries t)" and f: "feasible c (nkey n) (rstart rg)" by auto
  have ord: "ordered (entries t)" using assms(1) by (simp add: tree_inv_def)
  have wfn: "wf_range (nkey n)" using ordered_wf [OF ord mem] by simp
  have sz: "0 < csize c" using assms(2) by (simp add: wf_constraint_def)
  let ?s = "slot c (rstart rg)"
  have b: "rstart (nkey n) \<le> rstart ?s" "rend ?s \<le> rend (nkey n)" "rstart ?s = rstart rg"
    using f sz by (auto simp: feasible_def slot_def)
  have wfs: "wf_range ?s" using wfn f sz assms(4) by (auto simp: feasible_def slot_def wf_range_def)
  have res: "rbind (rbind (ok_or (checked_add (rstart rg) (csize c)) Overflow)
                   (\<lambda>addr. ok_or (checked_sub addr 1) Underflow))
             (\<lambda>e. range_new (rstart rg) e) = Ok ?s"
    using assms(4) sz wfs by (simp add: checked_add_def checked_sub_def slot_def range_new_of_wf)
  have tn: "t \<noteq> Nil" using mem by auto
  show ?thesis
  proof (cases "rstart (nkey n) = rstart ?s \<and> range_len (nkey n) = csize c")
    case True
    then have key: "nkey n = ?s" using wfn sz b(3)
      by (cases "nkey n") (auto simp: slot_def range_len_def wf_range_def)
    with assms(6) mem have "(nkey n, Free) \<in> set (entries t)" by auto
    from tree_mark_Ok [OF assms(1) this] obtain t' where
      "tree_mark_as_allocated t (nkey n) = (t', Ok ())" by auto
    with True assms(3) res tn key show ?thesis by (auto simp: tree_allocate_def)
  next
    case False
    from split_node_succeeds [OF assms(1) mem wfs b(1,2) assms(5)] obtain t' where
      "split_node t (nkey n) ?s = (t', Ok ?s)" ..
    with False assms(3) res tn show ?thesis by (auto simp: tree_allocate_def)
  qed
qed

lemma first_match_lowest:
  assumes "tree_inv t" "wf_constraint c" "cpolicy c = FirstMatch"
    and "(k, Free) \<in> set (entries t)" "feasible c k a"
  shows "\<exists>n rg. find_candidate t c = Ok (n, rg) \<and> nstate n = Free \<and> rstart rg \<le> a"
proof -
  have ord: "ordered (entries t)" using assms(1) by (simp add: tree_inv_def)
  have wfk: "wf_range k" using ordered_wf [OF ord assms(4)] by simp
  obtain r where r: "entry_check c (k, Free) = Ok r" "rstart r \<le> a"
    using check_constraint_complete [OF assms(2,3), of "node_new k Free" a] wfk assms(5)
    by (auto simp: node_new_def)
  have fm: "find_candidate t c = first_match t c" using assms(3) by (simp add: find_candidate_def)
  have pol: "cpolicy c \<in> {FirstMatch, LastMatch}" using assms(3) by simp
  show ?thesis
  proof (cases "first_match t c")
    case (Ok p)
    obtain n rg where p: "p = (n, rg)" by (cases p)
    from first_match_spec [OF pol, of t] Ok p obtain xs ys where
      e: "entries t = xs @ (nkey n, nstate n) # ys" "check_constraint n c = Ok rg"
         "\<forall>x \<in> set xs. \<not> is_ok (entry_check c x)" by auto
    have wfn: "wf_range (nkey n)" using ordered_wf [OF ord, of "(nkey n, nstate n)"] e(1) by simp
    note ok = check_constraint_Ok [OF assms(2) pol wfn e(2)]
    have "(k, Free) \<notin> set xs" using e(3) r(1) by auto
    then consider "(k, Free) = (nkey n, nstate n)" | "(k, Free) \<in> set ys"
      using assms(4) unfolding e(1) by auto
    then have "rstart rg \<le> a"
    proof cases
      case 1
      then have "check_constraint n c = entry_check c (k, Free)"
        by (intro check_constraint_cong) (auto simp: node_new_def)
      with r e(2) show ?thesis by auto
    next
      case 2
      then have "entry_less (nkey n, nstate n) (k, Free)"
        using ord unfolding e(1) by (auto simp: ordered_append ordered_Cons)
      with ok assms(2,5) show ?thesis
        by (auto simp: entry_less_def feasible_def wf_constraint_def)
    qed
    with ok fm Ok p show ?thesis by auto
  next
    case (Err e)
    with first_match_spec [OF pol, of t] assms(4) r(1) show ?thesis by fastforce
  next
    case Panic
    with first_match_spec [OF pol, of t] show ?thesis by simp
  qed
qed

section \<open>No panic\<close>

lemma node_insert_not_Panic:
  assumes "tree_inv t" "wf_range key"
  shows "node_insert t key st \<noteq> Panic"
  using assms
proof (induction t)
  case Nil
  then show ?case by simp
next
  case (InnerNode k s l r h)
  have inv: "tree_inv l" "tree_inv r" and av: "avl l" "avl r" "height l \<le> height r + 1" "height r \<le> height l + 1"
    using InnerNode.prems(1) by (auto simp: tree_inv_def ordered_append ordered_Cons)
  have "rotate (update_cached_height (InnerNode k s l r' h)) \<noteq> None" if "node_insert r key st = Ok r'" for r'
    using node_insert_Ok [OF inv(2) assms(2) that] rotate_rebalances [of l r' k s h] av
    by (auto simp: tree_inv_def simp del: update_cached_height.simps)
  moreover have "rotate (update_cached_height (InnerNode k s l' r h)) \<noteq> None" if "node_insert l key st = Ok l'" for l'
    using node_insert_Ok [OF inv(1) assms(2) that] rotate_rebalances [of l' r k s h] av
    by (auto simp: tree_inv_def simp del: update_cached_height.simps)
  moreover have "overlaps key key" using assms(2) by (auto simp: overlaps_def wf_range_def)
  ultimately show ?case using InnerNode.IH inv assms(2)
    by (auto simp: result_simps simp del: update_cached_height.simps)
qed

lemma tree_insert_not_Panic:
  "tree_inv t \<Longrightarrow> wf_range key \<Longrightarrow> snd (tree_insert t key st) \<noteq> Panic"
  using node_insert_not_Panic [of t key st] by (auto simp: tree_insert_def split: result.splits)

lemma tree_delete_not_Panic: "tree_inv t \<Longrightarrow> snd (tree_delete t key) \<noteq> Panic"
  using node_delete_spec [of t key] by (auto simp: tree_delete_def tree_inv_def split: option.splits)

lemma node_mark_not_Panic: "snd (node_mark_as_allocated t key) \<noteq> Panic"
  by (induction t) (auto split: prod.splits)

lemma then_do_not_Panic:
  assumes "snd m \<noteq> Panic" "\<And>t x. m = (t, Ok x) \<Longrightarrow> snd (f t x) \<noteq> Panic"
  shows "snd (then_do m f) \<noteq> Panic"
  using assms by (cases m; cases "snd m") auto

lemma find_candidate_not_Panic: "find_candidate t c \<noteq> Panic"
  using first_match_spec [of c t] last_match_spec [of c t]
  by (auto simp: find_candidate_def result_simps split: alloc_policy.splits)

lemma insert_step_not_Panic:
  assumes "tree_inv t" "m \<noteq> Panic" "\<And>k. m = Ok k \<Longrightarrow> wf_range k"
  shows "snd (if b then then_do (t, m) (\<lambda>t key. tree_insert t key st) else (t, Ok ())) \<noteq> Panic"
  using assms by (cases m) (auto simp: tree_insert_not_Panic)

lemma insert_step_inv:
  assumes "tree_inv t" "\<And>k. m = Ok k \<Longrightarrow> wf_range k"
    and "(if b then then_do (t, m) (\<lambda>t key. tree_insert t key st) else (t, Ok ())) = (t', Ok ())"
  shows "tree_inv t'"
  using assms by (cases m) (auto dest: tree_insert_Ok split: if_splits)

lemma split_node_not_Panic:
  assumes "tree_inv t" "wf_range nk" "wf_range res" "rstart nk \<le> rstart res" "rend res \<le> rend nk"
  shows "snd (split_node t nk res) \<noteq> Panic"
proof -
  let ?b = "rbind (ok_or (checked_sub (rstart res) 1) Overflow) (\<lambda>e. range_new (rstart nk) e)"
  let ?a = "rbind (ok_or (checked_add (rend res) 1) Overflow) (\<lambda>s. range_new s (rend nk))"
  have b: "?b \<noteq> Panic" "\<And>k. ?b = Ok k \<Longrightarrow> wf_range k"
    using assms by (auto simp: result_simps checked_simps range_new_Ok wf_range_def)
  have a: "?a \<noteq> Panic" "\<And>k. ?a = Ok k \<Longrightarrow> wf_range k"
    using assms by (auto simp: result_simps checked_simps range_new_Ok wf_range_def)
  show ?thesis
    unfolding split_node_def
  proof (intro then_do_not_Panic)
    show "snd (tree_delete t nk) \<noteq> Panic" using assms(1) by (rule tree_delete_not_Panic)
    fix t1 x1 assume "tree_delete t nk = (t1, Ok x1)"
    then have t1: "tree_inv t1" using tree_delete_Ok [OF assms(1)] by simp
    show "snd (if rstart nk < rstart res then then_do (t1, ?b) (\<lambda>t key. tree_insert t key Free)
               else (t1, Ok ())) \<noteq> Panic" by (rule insert_step_not_Panic [OF t1 b])
    fix t2 x2 assume "(if rstart nk < rstart res then then_do (t1, ?b) (\<lambda>t key. tree_insert t key Free)
               else (t1, Ok ())) = (t2, Ok x2)"
    then have t2: "tree_inv t2" by (intro insert_step_inv [OF t1 b(2)]) simp_all
    show "snd (tree_insert t2 res Allocated) \<noteq> Panic" using t2 assms(3) by (rule tree_insert_not_Panic)
    fix t3 x3 assume "tree_insert t2 res Allocated = (t3, Ok x3)"
    then have t3: "tree_inv t3" using tree_insert_Ok [OF t2 assms(3)] by simp
    show "snd (if rend res < rend nk then then_do (t3, ?a) (\<lambda>t key. tree_insert t key Free)
               else (t3, Ok ())) \<noteq> Panic" by (rule insert_step_not_Panic [OF t3 a])
  qed simp
qed

lemma tree_allocate_no_Panic:
  assumes "tree_inv t" "wf_constraint c"
  shows "snd (tree_allocate t c) \<noteq> Panic"
proof (cases "t = Nil")
  case True
  then show ?thesis by (simp add: tree_allocate_def)
next
  case False
  have ord: "ordered (entries t)" using assms(1) by (simp add: tree_inv_def)
  have "snd (then_do (t, find_candidate t c) (\<lambda>_ (node, range).
        let node_key = nkey node in
        then_do (t, rbind (rbind (ok_or (checked_add (rstart range) (csize c)) Overflow)
                   (\<lambda>addr. ok_or (checked_sub addr 1) Underflow))
             (\<lambda>e. range_new (rstart range) e)) (\<lambda>_ result.
        if rstart node_key = rstart result \<and> range_len node_key = csize c
        then then_do (tree_mark_as_allocated t node_key) (\<lambda>t _. (t, Ok node_key))
        else split_node t node_key result))) \<noteq> Panic"
  proof (rule then_do_not_Panic)
    show "snd (t, find_candidate t c) \<noteq> Panic" by (simp add: find_candidate_not_Panic)
    fix t1 p assume p: "(t, find_candidate t c) = (t1, Ok p)"
    obtain n rg where nrg: "p = (n, rg)" by (cases p)
    from find_candidate_spec [OF assms(2,1)] p nrg have
      mem: "(nkey n, nstate n) \<in> set (entries t)" and f: "feasible c (nkey n) (rstart rg)" by auto
    have wfn: "wf_range (nkey n)" using ordered_wf [OF ord mem] by simp
    have split: "snd (split_node t (nkey n) r) \<noteq> Panic"
      if "rstart r = rstart rg" "rend r = rstart rg + csize c - 1" "wf_range r" for r
    proof -
      have "rstart (nkey n) \<le> rstart r" "rend r \<le> rend (nkey n)"
        using that f unfolding feasible_def by linarith+
      then show ?thesis by (rule split_node_not_Panic [OF assms(1) wfn that(3)])
    qed
    have "snd (then_do (tree_mark_as_allocated t k) (\<lambda>t _. (t, Ok k))) \<noteq> Panic" for k
      by (rule then_do_not_Panic) (simp_all add: tree_mark_as_allocated_def node_mark_not_Panic)
    with split show "snd (case p of (node, rg') \<Rightarrow>
        let node_key = nkey node in
        then_do (t, rbind (rbind (ok_or (checked_add (rstart rg') (csize c)) Overflow)
                   (\<lambda>addr. ok_or (checked_sub addr 1) Underflow))
             (\<lambda>e. range_new (rstart rg') e)) (\<lambda>_ result.
        if rstart node_key = rstart result \<and> range_len node_key = csize c
        then then_do (tree_mark_as_allocated t node_key) (\<lambda>t _. (t, Ok node_key))
        else split_node t node_key result)) \<noteq> Panic"
      unfolding nrg Let_def prod.case
      by (intro then_do_not_Panic)
         (auto simp: result_simps checked_simps range_new_Ok wf_range_def)
  qed
  with False show ?thesis by (simp add: tree_allocate_def)
qed

section \<open>Freeing\<close>

text \<open>The neighbours that a freed range is merged with.\<close>

definition left_merge :: "interval_tree \<Rightarrow> range_inclusive \<Rightarrow> range_inclusive set \<Rightarrow> nat \<Rightarrow> bool" where
  "left_merge t key ks lo \<longleftrightarrow>
     ks = {} \<and> lo = rstart key \<or>
     (\<exists>k. ks = {k} \<and> (k, Free) \<in> set (entries t) \<and> rend k + 1 = rstart key \<and> lo = rstart k)"

definition right_merge :: "interval_tree \<Rightarrow> range_inclusive \<Rightarrow> range_inclusive set \<Rightarrow> nat \<Rightarrow> bool" where
  "right_merge t key ks hi \<longleftrightarrow>
     ks = {} \<and> hi = rend key \<or>
     (\<exists>k. ks = {k} \<and> (k, Free) \<in> set (entries t) \<and> rstart k = rend key + 1 \<and> hi = rend k)"

lemma free_neighbour_Some:
  assumes "free_neighbour t p = Some n"
  shows "(nkey n, Free) \<in> set (entries t) \<and> range_contains (nkey n) p"
  using assms search_superset_Some [of t p n]
  by (auto simp: free_neighbour_def tree_search_superset_def split: option.splits if_splits)

lemma left_step:
  assumes "\<And>e. e \<in> set (entries t) \<Longrightarrow> \<not> overlaps (fst e) key" "wf_range key"
    and "(if rstart key > 0 then
          rbind (ok_or (checked_sub (rstart key) 2) Underflow) (\<lambda>a.
          rbind (ok_or (checked_sub (rstart key) 1) Underflow) (\<lambda>b.
          rbind (range_new a b) (\<lambda>probe.
            (case free_neighbour t probe of
               Some node \<Rightarrow> range_new (rstart (nkey node)) (rend key)
             | None \<Rightarrow> Ok key))))
        else Ok key) = Ok rng"
  shows "\<exists>ks lo. left_merge t key ks lo \<and> rng = RangeInclusive lo (rend key) \<and> lo \<le> rstart key \<and>
           \<not> (lo = 0 \<and> rend key = U64_MAX)"
proof (cases "rng = key")
  case True
  then show ?thesis using assms(2)
    by (intro exI [of _ "{}"] exI [of _ "rstart key"]) (simp add: left_merge_def wf_range_def)
next
  case False
  with assms(3) obtain node where n: "2 \<le> rstart key"
    "free_neighbour t (RangeInclusive (rstart key - 2) (rstart key - 1)) = Some node"
    "range_new (rstart (nkey node)) (rend key) = Ok rng"
    by (auto simp: result_simps checked_simps range_new_Ok split: if_splits option.splits)
  from free_neighbour_Some [OF n(2)] have m: "(nkey node, Free) \<in> set (entries t)"
    and c: "rstart (nkey node) \<le> rstart key - 2" "rstart key - 1 \<le> rend (nkey node)"
    by (auto simp: range_contains_def)
  have "\<not> overlaps (nkey node) key" using assms(1) [OF m] by simp
  then have "rend (nkey node) < rstart key" using c assms(2)
    by (auto simp: overlaps_def wf_range_def)
  with m c n show ?thesis
    by (intro exI [of _ "{nkey node}"] exI [of _ "rstart (nkey node)"])
       (auto simp: left_merge_def range_new_Ok)
qed

lemma right_step:
  assumes "\<And>e. e \<in> set (entries t) \<Longrightarrow> \<not> overlaps (fst e) key" "wf_range key" "rend rng = rend key"
    and "(if rend rng < U64_MAX then
          rbind (ok_or (checked_add (rend rng) 1) Overflow) (\<lambda>a.
          rbind (ok_or (checked_add (rend rng) 2) Overflow) (\<lambda>b.
          rbind (range_new a b) (\<lambda>probe.
            (case free_neighbour t probe of
               Some node \<Rightarrow> range_new (rstart rng) (rend (nkey node))
             | None \<Rightarrow> Ok rng))))
        else Ok rng) = Ok rng'"
  shows "\<exists>ks hi. right_merge t key ks hi \<and> rng' = RangeInclusive (rstart rng) hi \<and> rend key \<le> hi"
proof (cases "rng' = rng")
  case True
  then show ?thesis using assms(3)
    by (intro exI [of _ "{}"] exI [of _ "rend key"]) (cases rng, auto simp: right_merge_def)
next
  case False
  with assms(3,4) obtain node where n:
    "free_neighbour t (RangeInclusive (rend key + 1) (rend key + 2)) = Some node"
    "range_new (rstart rng) (rend (nkey node)) = Ok rng'"
    by (auto simp: result_simps checked_simps range_new_Ok split: if_splits option.splits)
  from free_neighbour_Some [OF n(1)] have m: "(nkey node, Free) \<in> set (entries t)"
    and c: "rstart (nkey node) \<le> rend key + 1" "rend key + 2 \<le> rend (nkey node)"
    by (auto simp: range_contains_def)
  have "\<not> overlaps (nkey node) key" using assms(1) [OF m] by simp
  then have "rend key < rstart (nkey node)" using c assms(2)
    by (auto simp: overlaps_def wf_range_def)
  with m c n show ?thesis
    by (intro exI [of _ "{nkey node}"] exI [of _ "rend (nkey node)"])
       (auto simp: right_merge_def range_new_Ok)
qed

lemma merge_state_at:
  assumes "tree_inv t" "tree_inv t'" "(key, st) \<in> set (entries t)"
    and "\<And>k. k \<in> D \<Longrightarrow> k = key \<or> (k, Free) \<in> set (entries t)" "key \<in> D"
    and "set (entries t') = {e \<in> set (entries t). fst e \<notin> D} \<union> {(m, Free)}"
    and "addrs m = (\<Union>k \<in> D. addrs k)"
  shows "state_at t' a = (if a \<in> addrs key then Some Free else state_at t a)"
proof -
  have ord: "ordered (entries t)" "ordered (entries t')" using assms(1,2) by (auto simp: tree_inv_def)
  show ?thesis
  proof (cases "a \<in> addrs m")
    case True
    then have "state_at t' a = Some Free" using assms(6) by (auto simp: state_at_Some [OF ord(2)])
    moreover obtain k where k: "k \<in> D" "a \<in> addrs k" using True unfolding assms(7) by blast
    then have "a \<in> addrs key \<or> state_at t a = Some Free"
      using assms(4) [OF k(1)] by (auto simp: state_at_Some [OF ord(1)])
    ultimately show ?thesis by auto
  next
    case False
    then have no: "a \<notin> addrs k" if "k \<in> D" for k using that assms(7) by auto
    have "state_at t' a = state_at t a"
    proof (rule option_eq_by_Some)
      fix s
      have "(\<exists>k. (k, s) \<in> set (entries t') \<and> a \<in> addrs k) \<longleftrightarrow> (\<exists>k. (k, s) \<in> set (entries t) \<and> a \<in> addrs k)"
        unfolding assms(6) using no False by auto
      then show "state_at t' a = Some s \<longleftrightarrow> state_at t a = Some s"
        by (simp only: state_at_Some [OF ord(1)] state_at_Some [OF ord(2)])
    qed
    with no [OF assms(5)] show ?thesis by argo
  qed
qed

text \<open>
  The deletions of the two neighbours and the insertion of the merged range, together with the
  deletion of the freed range itself.
\<close>

lemma merge_addrs:
  assumes "wf_range key" "left_merge t key ls lo" "right_merge t key rs hi" "ordered (entries t)"
  shows "addrs (RangeInclusive lo hi) = (\<Union>k \<in> insert key (ls \<union> rs). addrs k)"
proof -
  have l: "(\<Union>k \<in> ls. addrs k) = {lo..<rstart key}"
    using assms(2,4) by (auto simp: left_merge_def)
  have lo: "lo \<le> rstart key" using assms(2,4) ordered_wf [OF assms(4)]
    by (force simp: left_merge_def wf_range_def)
  have r: "(\<Union>k \<in> rs. addrs k) = {rend key<..hi}"
    using assms(3,4) by (auto simp: right_merge_def)
  have hi: "rend key \<le> hi" using assms(3,4) ordered_wf [OF assms(4)]
    by (force simp: right_merge_def wf_range_def)
  have "(\<Union>k \<in> insert key (ls \<union> rs). addrs k) = {lo..<rstart key} \<union> addrs key \<union> {rend key<..hi}"
    using l r by auto
  also have "\<dots> = {lo..hi}" using lo hi assms(1) by (auto simp: wf_range_def)
  finally show ?thesis by simp
qed

lemma left_delete_step:
  assumes "tree_inv t1" "left_merge t1 key ls lo" "tree_inv t"
    and "(if lo < rstart key
        then then_do (t, rbind (ok_or (checked_sub (rstart key) 1) Underflow) (\<lambda>e. range_new lo e))
               (\<lambda>t k. tree_delete t k)
        else (t, Ok ())) = (t', Ok ())"
  shows "tree_inv t' \<and> height t' \<le> height t \<and> set (entries t') = {e \<in> set (entries t). fst e \<notin> ls}"
proof (cases "ls = {}")
  case True
  with assms show ?thesis by (auto simp: left_merge_def)
next
  case False
  with assms(2) obtain k where k: "ls = {k}" "(k, Free) \<in> set (entries t1)" "rend k + 1 = rstart key" "lo = rstart k"
    by (auto simp: left_merge_def)
  have "wf_range k" using assms(1) k(2) ordered_wf by (fastforce simp: tree_inv_def)
  then have "lo < rstart key" using k by (auto simp: wf_range_def)
  moreover have "RangeInclusive lo (rstart key - 1) = k" using k by (cases k) auto
  ultimately have "tree_delete t k = (t', Ok ())"
    using assms(4) by (auto simp: then_do_Ok result_simps checked_simps range_new_Ok)
  from tree_delete_Ok [OF assms(3) this] k show ?thesis by auto
qed

lemma right_delete_step:
  assumes "tree_inv t1" "right_merge t1 key rs hi" "tree_inv t"
    and "(if hi > rend key
        then then_do (t, rbind (ok_or (checked_add (rend key) 1) Overflow) (\<lambda>s. range_new s hi))
               (\<lambda>t k. tree_delete t k)
        else (t, Ok ())) = (t', Ok ())"
  shows "tree_inv t' \<and> height t' \<le> height t \<and> set (entries t') = {e \<in> set (entries t). fst e \<notin> rs}"
proof (cases "rs = {}")
  case True
  with assms show ?thesis by (auto simp: right_merge_def)
next
  case False
  with assms(2) obtain k where k: "rs = {k}" "(k, Free) \<in> set (entries t1)" "rstart k = rend key + 1" "hi = rend k"
    by (auto simp: right_merge_def)
  have "wf_range k" using assms(1) k(2) ordered_wf by (fastforce simp: tree_inv_def)
  then have "rend key < hi" using k by (auto simp: wf_range_def)
  moreover have "RangeInclusive (rend key + 1) hi = k" using k by (cases k) auto
  ultimately have "tree_delete t k = (t', Ok ())"
    using assms(4) by (auto simp: then_do_Ok result_simps checked_simps range_new_Ok)
  from tree_delete_Ok [OF assms(3) this] k show ?thesis by auto
qed

lemma tree_free_spec:
  assumes "tree_inv t" "(key, st) \<in> set (entries t)" "tree_free t key = (t', Ok ())"
  shows "tree_inv t' \<and> state_at t' = (\<lambda>a. if a \<in> addrs key then Some Free else state_at t a)"
proof -
  from assms(3) obtain t1 rng rng' t2 t3 where
    t1: "tree_delete t key = (t1, Ok ())" and
    l: "(if rstart key > 0 then
          rbind (ok_or (checked_sub (rstart key) 2) Underflow) (\<lambda>a.
          rbind (ok_or (checked_sub (rstart key) 1) Underflow) (\<lambda>b.
          rbind (range_new a b) (\<lambda>probe.
            (case free_neighbour t1 probe of
               Some node \<Rightarrow> range_new (rstart (nkey node)) (rend key)
             | None \<Rightarrow> Ok key))))
        else Ok key) = Ok rng" and
    r: "(if rend rng < U64_MAX then
          rbind (ok_or (checked_add (rend rng) 1) Overflow) (\<lambda>a.
          rbind (ok_or (checked_add (rend rng) 2) Overflow) (\<lambda>b.
          rbind (range_new a b) (\<lambda>probe.
            (case free_neighbour t1 probe of
               Some node \<Rightarrow> range_new (rstart rng) (rend (nkey node))
             | None \<Rightarrow> Ok rng))))
        else Ok rng) = Ok rng'" and
    t2: "(if rstart rng' < rstart key
        then then_do (t1, rbind (ok_or (checked_sub (rstart key) 1) Underflow) (\<lambda>e. range_new (rstart rng') e))
               (\<lambda>t k. tree_delete t k)
        else (t1, Ok ())) = (t2, Ok ())" and
    t3: "(if rend rng' > rend key
        then then_do (t2, rbind (ok_or (checked_add (rend key) 1) Overflow) (\<lambda>s. range_new s (rend rng')))
               (\<lambda>t k. tree_delete t k)
        else (t2, Ok ())) = (t3, Ok ())" and
    t': "tree_insert t3 rng' Free = (t', Ok ())"
    unfolding tree_free_def then_do_Ok by auto
  have ord: "ordered (entries t)" using assms(1) by (simp add: tree_inv_def)
  have wfk: "wf_range key" using ordered_wf [OF ord assms(2)] by simp
  note d = tree_delete_Ok [OF assms(1) t1]
  have ord1: "ordered (entries t1)" using d by (simp add: tree_inv_def)
  have nov: "\<not> overlaps (fst e) key" if "e \<in> set (entries t1)" for e
    using d that by (intro entry_not_overlaps [OF ord assms(2) _ _ wfk]) auto
  obtain ls lo where L: "left_merge t1 key ls lo" "rng = RangeInclusive lo (rend key)" "lo \<le> rstart key"
    "\<not> (lo = 0 \<and> rend key = U64_MAX)"
    using left_step [OF nov wfk l] by auto
  obtain rs hi where R: "right_merge t1 key rs hi" "rng' = RangeInclusive lo hi" "rend key \<le> hi"
    using right_step [OF nov wfk _ r] L by auto
  have i2: "tree_inv t2 \<and> set (entries t2) = {e \<in> set (entries t1). fst e \<notin> ls}"
    using left_delete_step [OF _ L(1) _ t2 [unfolded R(2) range_inclusive.sel]] d by simp
  have i3: "tree_inv t3 \<and> set (entries t3) = {e \<in> set (entries t2). fst e \<notin> rs}"
    using right_delete_step [OF _ R(1) _ t3 [unfolded R(2) range_inclusive.sel]] d i2 by simp
  have hi: "hi \<le> U64_MAX" using R(1) wfk ordered_wf [OF ord1]
    by (force simp: right_merge_def wf_range_def)
  have nofull: "\<not> (lo = 0 \<and> hi = U64_MAX)"
    using r R(2) wfk L(2,4) hi
    by (auto simp: result_simps checked_simps range_new_Ok wf_range_def split: if_splits option.splits)
  have wfr: "wf_range rng'" using L R hi wfk nofull by (auto simp: wf_range_def)
  from tree_insert_Ok [OF _ wfr t'] i3 have i': "tree_inv t'"
    "set (entries t') = insert (rng', Free) (set (entries t3))" by auto
  have "state_at t' a = (if a \<in> addrs key then Some Free else state_at t a)" for a
  proof (rule merge_state_at [OF assms(1) i'(1) assms(2), of "insert key (ls \<union> rs)" rng'])
    show "k = key \<or> (k, Free) \<in> set (entries t)" if "k \<in> insert key (ls \<union> rs)" for k
      using that L(1) R(1) d by (auto simp: left_merge_def right_merge_def)
    show "set (entries t') = {e \<in> set (entries t). fst e \<notin> insert key (ls \<union> rs)} \<union> {(rng', Free)}"
      using i' i3 i2 d by auto
    show "addrs rng' = (\<Union>k \<in> insert key (ls \<union> rs). addrs k)"
      unfolding R(2) by (rule merge_addrs [OF wfk L(1) R(1) ord1])
  qed simp
  with i'(1) show ?thesis by auto
qed

section \<open>Reachable trees\<close>

text \<open>
  Every step keeps the tree balanced and ordered, whatever it returns: an insertion that fails leaves the empty tree.
\<close>

lemma then_do_inv:
  assumes "tree_inv (fst m)" "\<And>t x. m = (t, Ok x) \<Longrightarrow> tree_inv t \<Longrightarrow> tree_inv (fst (f t x))"
  shows "tree_inv (fst (then_do m f))"
  using assms by (cases m; cases "snd m") auto

lemma tree_inv_empty: "tree_inv Nil"
  by (simp add: tree_inv_def)

lemma tree_insert_inv: "tree_inv t \<Longrightarrow> wf_range key \<Longrightarrow> tree_inv (fst (tree_insert t key st))"
  using tree_insert_Ok [of t key st] tree_inv_empty
  by (cases "tree_insert t key st"; cases "snd (tree_insert t key st)") (auto simp: tree_insert_def split: if_splits result.splits)

lemma tree_delete_inv: "tree_inv t \<Longrightarrow> tree_inv (fst (tree_delete t key))"
  using tree_delete_Ok [of t key] tree_inv_empty
  by (cases "tree_delete t key"; cases "snd (tree_delete t key)") (auto simp: tree_delete_def split: if_splits option.splits)

lemma node_mark_keeps:
  "avl t \<Longrightarrow> avl (fst (node_mark_as_allocated t key)) \<and> height (fst (node_mark_as_allocated t key)) = height t \<and>
     map fst (entries (fst (node_mark_as_allocated t key))) = map fst (entries t)"
  by (induction t) (auto split: prod.splits ordering.splits)

lemma ordered_keys: "ordered xs \<longleftrightarrow> sorted_wrt (\<lambda>a b. rend a < rstart b) (map fst xs) \<and> list_all wf_range (map fst xs)"
proof -
  have "entry_less = (\<lambda>x y. rend (fst x) < rstart (fst y))" by (simp add: entry_less_def fun_eq_iff)
  then show ?thesis by (simp add: ordered_def sorted_wrt_map list_all_iff)
qed

lemma tree_mark_inv: "tree_inv t \<Longrightarrow> tree_inv (fst (tree_mark_as_allocated t key))"
  using node_mark_keeps [of t key] by (simp add: tree_mark_as_allocated_def tree_inv_def ordered_keys del: list.pred_map)

lemma insert_piece_inv:
  assumes "tree_inv t" "\<And>k. m = Ok k \<Longrightarrow> wf_range k"
  shows "tree_inv (fst (if b then then_do (t, m) (\<lambda>t key. tree_insert t key st) else (t, Ok ())))"
  using assms then_do_inv [of "(t, m)" "\<lambda>t key. tree_insert t key st"] tree_insert_inv by auto

lemma delete_piece_inv:
  assumes "tree_inv t"
  shows "tree_inv (fst (if b then then_do (t, m) (\<lambda>t key. tree_delete t key) else (t, Ok ())))"
  using assms then_do_inv [of "(t, m)" "\<lambda>t key. tree_delete t key"] tree_delete_inv by auto

lemma split_node_inv:
  assumes "tree_inv t" "wf_range nk" "wf_range res"
  shows "tree_inv (fst (split_node t nk res))"
proof -
  have b: "wf_range k" if "rbind (ok_or (checked_sub (rstart res) 1) Overflow) (\<lambda>e. range_new (rstart nk) e) = Ok k" for k
    using that assms(3) by (auto simp: result_simps checked_simps range_new_Ok wf_range_def)
  have a: "wf_range k" if "rbind (ok_or (checked_add (rend res) 1) Overflow) (\<lambda>s. range_new s (rend nk)) = Ok k" for k
    using that assms(2) by (auto simp: result_simps checked_simps range_new_Ok wf_range_def)
  show ?thesis
    unfolding split_node_def
    by (intro then_do_inv tree_delete_inv insert_piece_inv tree_insert_inv assms; (erule a b | simp)?)
qed

lemma tree_allocate_inv:
  assumes "tree_inv t" "wf_constraint c"
  shows "tree_inv (fst (tree_allocate t c))"
proof (cases "t = Nil")
  case False
  have "tree_inv (fst (then_do (t, find_candidate t c) (\<lambda>_ (node, range).
        let node_key = nkey node in
        then_do (t, rbind (rbind (ok_or (checked_add (rstart range) (csize c)) Overflow)
                   (\<lambda>addr. ok_or (checked_sub addr 1) Underflow))
             (\<lambda>e. range_new (rstart range) e)) (\<lambda>_ result.
        if rstart node_key = rstart result \<and> range_len node_key = csize c
        then then_do (tree_mark_as_allocated t node_key) (\<lambda>t _. (t, Ok node_key))
        else split_node t node_key result))))"
  proof (rule then_do_inv)
    fix t1 p assume c: "(t, find_candidate t c) = (t1, Ok p)"
    obtain n rg where p: "p = (n, rg)" by (cases p)
    have "(nkey n, nstate n) \<in> set (entries t)" using find_candidate_spec [OF assms(2,1)] c p by auto
    then have nk: "wf_range (nkey n)" using assms(1) ordered_wf [of "entries t"] by (force simp: tree_inv_def)
    have mark: "tree_inv (fst (then_do (tree_mark_as_allocated t k) (\<lambda>t _. (t, Ok k))))" for k
      by (rule then_do_inv) (simp_all add: tree_mark_inv assms)
    show "tree_inv (fst (case p of (node, rg') \<Rightarrow>
        let node_key = nkey node in
        then_do (t, rbind (rbind (ok_or (checked_add (rstart rg') (csize c)) Overflow)
                   (\<lambda>addr. ok_or (checked_sub addr 1) Underflow))
             (\<lambda>e. range_new (rstart rg') e)) (\<lambda>_ result.
        if rstart node_key = rstart result \<and> range_len node_key = csize c
        then then_do (tree_mark_as_allocated t node_key) (\<lambda>t _. (t, Ok node_key))
        else split_node t node_key result)))"
      unfolding p Let_def prod.case
    proof (rule then_do_inv)
      fix t2 r assume "(t, rbind (rbind (ok_or (checked_add (rstart rg) (csize c)) Overflow)
                   (\<lambda>addr. ok_or (checked_sub addr 1) Underflow)) (\<lambda>e. range_new (rstart rg) e)) = (t2, Ok r)"
      then have "wf_range r" by (auto simp: result_simps checked_simps range_new_Ok wf_range_def)
      then show "tree_inv (fst (if rstart (nkey n) = rstart r \<and> range_len (nkey n) = csize c
        then then_do (tree_mark_as_allocated t (nkey n)) (\<lambda>t _. (t, Ok (nkey n)))
        else split_node t (nkey n) r))" using mark split_node_inv [OF assms(1) nk] by simp
    qed (simp add: assms)
  qed (simp add: assms)
  with False show ?thesis by (simp add: tree_allocate_def)
qed (simp add: tree_allocate_def tree_inv_empty)

lemma tree_free_no_node:
  assumes "tree_inv t" "t \<noteq> Nil" "\<nexists>st. (key, st) \<in> set (entries t)"
  shows "tree_free t key = (t, Err ResourceNotAvailable)"
proof -
  have "search t key = None" using search_None_iff [of t key] assms(1,3) by (auto simp: tree_inv_def)
  then show ?thesis using assms(2) by (simp add: tree_free_def tree_delete_def)
qed

lemma tree_free_inv:
  assumes "tree_inv t" "wf_range key"
  shows "tree_inv (fst (tree_free t key))"
  unfolding tree_free_def
proof (intro then_do_inv tree_delete_inv delete_piece_inv)
  fix t1 t2 t3 t4 t5 :: interval_tree and rng rng' :: range_inclusive
  assume l: "(t1, if rstart key > 0 then
          rbind (ok_or (checked_sub (rstart key) 2) Underflow) (\<lambda>a.
          rbind (ok_or (checked_sub (rstart key) 1) Underflow) (\<lambda>b.
          rbind (range_new a b) (\<lambda>probe.
            (case free_neighbour t1 probe of
               Some node \<Rightarrow> range_new (rstart (nkey node)) (rend key)
             | None \<Rightarrow> Ok key))))
        else Ok key) = (t2, Ok rng)"
  assume r: "(t1, if rend rng < U64_MAX then
          rbind (ok_or (checked_add (rend rng) 1) Overflow) (\<lambda>a.
          rbind (ok_or (checked_add (rend rng) 2) Overflow) (\<lambda>b.
          rbind (range_new a b) (\<lambda>probe.
            (case free_neighbour t1 probe of
               Some node \<Rightarrow> range_new (rstart rng) (rend (nkey node))
             | None \<Rightarrow> Ok rng))))
        else Ok rng) = (t3, Ok rng')"
  assume t1: "tree_inv t1" and t5: "tree_inv t5"
  have nb: "wf_range (nkey n)" if "free_neighbour t1 p = Some n" for p n
    using free_neighbour_Some [OF that] t1 ordered_wf [of "entries t1"] by (force simp: tree_inv_def)
  from l have "wf_range rng" using assms(2)
    by (auto simp: result_simps intro: range_new_wf split: if_splits option.splits) (auto simp: range_new_Ok wf_range_def)
  moreover have "rend (nkey n) \<le> U64_MAX" if "free_neighbour t1 p = Some n" for p n
    using nb [OF that] by (simp add: wf_range_def)
  ultimately show "tree_inv (fst (tree_insert t5 rng' Free))"
    using r t5 by (auto simp: result_simps intro!: tree_insert_inv split: if_splits option.splits) (metis range_new_wf)
qed (simp_all add: assms)

lemma avl_height_logarithmic: "avl t \<Longrightarrow> 2 ^ (height t div 2) \<le> length (entries t) + 1"
proof (induction t)
  case (InnerNode k s l r h)
  then have IH: "2 ^ (height l div 2) \<le> length (entries l) + 1" "2 ^ (height r div 2) \<le> length (entries r) + 1"
    by auto
  let ?m = "min (height l) (height r)"
  have h: "h div 2 \<le> Suc (?m div 2)" using InnerNode.prems by auto
  have "2 ^ (?m div 2) \<le> length (entries l) + 1" "2 ^ (?m div 2) \<le> length (entries r) + 1"
    using IH by (auto intro: order_trans [rotated] power_increasing div_le_mono)
  moreover have "(2::nat) ^ (h div 2) \<le> 2 * 2 ^ (?m div 2)"
    using power_increasing [OF h, of "2::nat"] by simp
  ultimately show ?case by simp
qed simp

text \<open>The trees that requests can lead to, from the tree of one free range.\<close>

inductive tree_reachable :: "range_inclusive \<Rightarrow> interval_tree \<Rightarrow> bool" for sp where
  New: "tree_reachable sp (tree_new sp)"
| Allocate: "tree_reachable sp t \<Longrightarrow> wf_constraint c \<Longrightarrow> tree_reachable sp (fst (tree_allocate t c))"
| Free: "tree_reachable sp t \<Longrightarrow> wf_range key \<Longrightarrow> tree_reachable sp (fst (tree_free t key))"

lemma tree_reachable_inv:
  assumes "tree_reachable sp t" "wf_range sp"
  shows "tree_inv t"
  using assms
proof induction
  case New
  then show ?case by (simp add: tree_new_def node_new_def tree_inv_def ordered_def)
qed (simp_all add: tree_allocate_inv tree_free_inv)

end
