(* ===== verification/Interval_Tree_Total.thy ===== *)
theory Interval_Tree_Total
  imports Interval_Tree_Free
begin

text \<open>
  When \<open>free\<close> succeeds, and the exceptional behaviours of the tree: the range that \<open>free\<close> loses, the
  allocated node that an exact match splits, and the largest slot that \<open>LastMatch\<close> cannot place.
\<close>

section \<open>Freeing succeeds\<close>

definition within :: "interval_tree \<Rightarrow> range_inclusive \<Rightarrow> bool" where
  "within t sp \<longleftrightarrow> wf_range sp \<and> (\<forall>e \<in> set (entries t). addrs (fst e) \<subseteq> addrs sp)"

lemma withinD:
  assumes "within t sp" "tree_inv t" "e \<in> set (entries t)"
  shows "rstart sp \<le> rstart (fst e)" "rend (fst e) \<le> rend sp" "wf_range (fst e)"
proof -
  show wf: "wf_range (fst e)" using assms(2,3) ordered_wf [of "entries t" e] by (simp add: tree_inv_def)
  have "rstart (fst e) \<in> addrs (fst e)" "rend (fst e) \<in> addrs (fst e)"
    using wf by (auto simp: wf_range_def)
  with assms(1,3) show "rstart sp \<le> rstart (fst e)" "rend (fst e) \<le> rend sp"
    by (force simp: within_def)+
qed

lemma left_step_succeeds:
  assumes "tree_inv t" "within t sp" "wf_range key" "rstart key \<noteq> 1"
    and "rstart sp \<le> rstart key" "rend key \<le> rend sp"
    and nov: "\<And>e. e \<in> set (entries t) \<Longrightarrow> \<not> overlaps (fst e) key"
  shows "\<exists>rng. (if rstart key > 0 then
          rbind (ok_or (checked_sub (rstart key) 2) Underflow) (\<lambda>a.
          rbind (ok_or (checked_sub (rstart key) 1) Underflow) (\<lambda>b.
          rbind (range_new a b) (\<lambda>probe.
            (case free_neighbour t probe of
               Some node \<Rightarrow> range_new (rstart (nkey node)) (rend key)
             | None \<Rightarrow> Ok key))))
        else Ok key) = Ok rng"
proof (cases "rstart key = 0")
  case True
  then show ?thesis by simp
next
  case False
  let ?p = "RangeInclusive (rstart key - 2) (rstart key - 1)"
  have p: "range_new (rstart key - 2) (rstart key - 1) = Ok ?p"
    using False assms(3,4) by (auto simp: range_new_Ok wf_range_def)
  have "\<exists>rng. (case free_neighbour t ?p of
               Some node \<Rightarrow> range_new (rstart (nkey node)) (rend key)
             | None \<Rightarrow> Ok key) = Ok rng"
  proof (cases "free_neighbour t ?p")
    case None
    then show ?thesis by simp
  next
    case (Some n)
    from free_neighbour_Some [OF this] have m: "(nkey n, Free) \<in> set (entries t)"
      and c: "rstart (nkey n) \<le> rstart key - 2" by (auto simp: range_contains_def)
    from withinD [OF assms(2,1) m] have "rstart sp \<le> rstart (nkey n)" by simp
    with Some c assms(2,3,6) show ?thesis
      by (auto simp: range_new_Ok within_def wf_range_def)
  qed
  with False assms(4) p show ?thesis by (simp add: checked_sub_def)
qed

lemma right_step_succeeds:
  assumes "tree_inv t" "within t sp" "wf_range key" "rend key + 1 \<noteq> U64_MAX" "rend rng = rend key"
    and "rstart sp \<le> rstart rng" "rstart rng \<le> rstart key"
  shows "\<exists>rng'. (if rend rng < U64_MAX then
          rbind (ok_or (checked_add (rend rng) 1) Overflow) (\<lambda>a.
          rbind (ok_or (checked_add (rend rng) 2) Overflow) (\<lambda>b.
          rbind (range_new a b) (\<lambda>probe.
            (case free_neighbour t probe of
               Some node \<Rightarrow> range_new (rstart rng) (rend (nkey node))
             | None \<Rightarrow> Ok rng))))
        else Ok rng) = Ok rng'"
proof (cases "rend key < U64_MAX")
  case False
  then show ?thesis using assms(5) by simp
next
  case True
  let ?p = "RangeInclusive (rend key + 1) (rend key + 2)"
  have p: "range_new (rend key + 1) (rend key + 2) = Ok ?p" by (simp add: range_new_Ok)
  have "\<exists>rng'. (case free_neighbour t ?p of
               Some node \<Rightarrow> range_new (rstart rng) (rend (nkey node))
             | None \<Rightarrow> Ok rng) = Ok rng'"
  proof (cases "free_neighbour t ?p")
    case None
    then show ?thesis by simp
  next
    case (Some n)
    from free_neighbour_Some [OF this] have m: "(nkey n, Free) \<in> set (entries t)"
      and c: "rend key + 2 \<le> rend (nkey n)" by (auto simp: range_contains_def)
    from withinD [OF assms(2,1) m] have "rend (nkey n) \<le> rend sp" by simp
    with Some c assms(2,3,6,7) show ?thesis
      by (auto simp: range_new_Ok within_def wf_range_def)
  qed
  with True assms(4,5) p show ?thesis by (simp add: checked_add_def)
qed

lemma left_delete_succeeds:
  assumes "tree_inv t1" "left_merge t1 key ls lo" "tree_inv t"
    and "\<And>k. k \<in> ls \<Longrightarrow> (k, Free) \<in> set (entries t)"
  shows "\<exists>t'. (if lo < rstart key
        then then_do (t, rbind (ok_or (checked_sub (rstart key) 1) Underflow) (\<lambda>e. range_new lo e))
               (\<lambda>t k. tree_delete t k)
        else (t, Ok ())) = (t', Ok ())"
proof (cases "ls = {}")
  case True
  with assms show ?thesis by (auto simp: left_merge_def)
next
  case False
  with assms(2) obtain k where k: "ls = {k}" "(k, Free) \<in> set (entries t1)" "rend k + 1 = rstart key" "lo = rstart k"
    by (auto simp: left_merge_def)
  have wf: "wf_range k" using assms(1) k(2) ordered_wf by (fastforce simp: tree_inv_def)
  have "RangeInclusive lo (rstart key - 1) = k" using k by (cases k) auto
  with wf have "range_new lo (rstart key - 1) = Ok k" using range_new_of_wf by metis
  moreover obtain t' where "tree_delete t k = (t', Ok ())"
    using tree_delete_succeeds [OF assms(3), of k Free] assms(4) k(1) by auto
  ultimately show ?thesis using k wf by (auto simp: checked_sub_def wf_range_def)
qed

lemma right_delete_succeeds:
  assumes "tree_inv t1" "right_merge t1 key rs hi" "tree_inv t"
    and "\<And>k. k \<in> rs \<Longrightarrow> (k, Free) \<in> set (entries t)"
  shows "\<exists>t'. (if hi > rend key
        then then_do (t, rbind (ok_or (checked_add (rend key) 1) Overflow) (\<lambda>s. range_new s hi))
               (\<lambda>t k. tree_delete t k)
        else (t, Ok ())) = (t', Ok ())"
proof (cases "rs = {}")
  case True
  with assms show ?thesis by (auto simp: right_merge_def)
next
  case False
  with assms(2) obtain k where k: "rs = {k}" "(k, Free) \<in> set (entries t1)" "rstart k = rend key + 1" "hi = rend k"
    by (auto simp: right_merge_def)
  have wf: "wf_range k" using assms(1) k(2) ordered_wf by (fastforce simp: tree_inv_def)
  have "RangeInclusive (rend key + 1) hi = k" using k by (cases k) auto
  with wf have "range_new (rend key + 1) hi = Ok k" using range_new_of_wf by metis
  moreover obtain t' where "tree_delete t k = (t', Ok ())"
    using tree_delete_succeeds [OF assms(3), of k Free] assms(4) k(1) by auto
  ultimately show ?thesis using k wf by (auto simp: checked_add_def wf_range_def)
qed

lemma tree_free_succeeds:
  assumes "tree_inv t" "within t sp" "(key, st) \<in> set (entries t)" "height t < 50"
    and "rstart key \<noteq> 1" "rend key + 1 \<noteq> U64_MAX"
  shows "\<exists>t'. tree_free t key = (t', Ok ())"
proof -
  have ord: "ordered (entries t)" using assms(1) by (simp add: tree_inv_def)
  have key: "wf_range key" "rstart sp \<le> rstart key" "rend key \<le> rend sp"
    using withinD [OF assms(2,1,3)] by auto
  obtain t1 where t1: "tree_delete t key = (t1, Ok ())" using tree_delete_succeeds [OF assms(1,3)] by auto
  note d = tree_delete_Ok [OF assms(1) t1]
  have inv1: "tree_inv t1" and ord1: "ordered (entries t1)" and w1: "within t1 sp"
    using d assms(2) by (auto simp: tree_inv_def within_def)
  have nov: "\<not> overlaps (fst e) key" if "e \<in> set (entries t1)" for e
    using d that by (intro entry_not_overlaps [OF ord assms(3) _ _ key(1)]) auto
  from left_step_succeeds [OF inv1 w1 key(1) assms(5) key(2,3) nov] obtain rng where
    l: "(if rstart key > 0 then
          rbind (ok_or (checked_sub (rstart key) 2) Underflow) (\<lambda>a.
          rbind (ok_or (checked_sub (rstart key) 1) Underflow) (\<lambda>b.
          rbind (range_new a b) (\<lambda>probe.
            (case free_neighbour t1 probe of
               Some node \<Rightarrow> range_new (rstart (nkey node)) (rend key)
             | None \<Rightarrow> Ok key))))
        else Ok key) = Ok rng" by blast
  from left_step [OF nov key(1) l] obtain ls lo where
    L: "left_merge t1 key ls lo" "rng = RangeInclusive lo (rend key)" "lo \<le> rstart key" by auto
  have lo: "rstart sp \<le> lo" using L(1) key withinD(1) [OF w1 inv1] by (force simp: left_merge_def)
  from right_step_succeeds [OF inv1 w1 key(1) assms(6), of rng] L lo obtain rng' where
    r: "(if rend rng < U64_MAX then
          rbind (ok_or (checked_add (rend rng) 1) Overflow) (\<lambda>a.
          rbind (ok_or (checked_add (rend rng) 2) Overflow) (\<lambda>b.
          rbind (range_new a b) (\<lambda>probe.
            (case free_neighbour t1 probe of
               Some node \<Rightarrow> range_new (rstart rng) (rend (nkey node))
             | None \<Rightarrow> Ok rng))))
        else Ok rng) = Ok rng'" by auto
  obtain rs hi where R: "right_merge t1 key rs hi" "rng' = RangeInclusive lo hi" "rend key \<le> hi"
    using right_step [OF nov key(1) _ r] L by auto
  have hi: "hi \<le> rend sp" using R(1) key withinD(2) [OF w1 inv1] by (force simp: right_merge_def)
  have wfr: "wf_range rng'" using L R lo hi key w1 by (auto simp: within_def wf_range_def)
  have lsm: "k \<in> ls \<Longrightarrow> (k, Free) \<in> set (entries t1)" for k using L(1) by (auto simp: left_merge_def)
  have rsm: "k \<in> rs \<Longrightarrow> (k, Free) \<in> set (entries t1)" for k using R(1) by (auto simp: right_merge_def)
  have dis: "ls \<inter> rs = {}" using L(1,3) R(1) key(1)
    by (auto simp: left_merge_def right_merge_def wf_range_def)
  from left_delete_succeeds [OF inv1 L(1) inv1 lsm] obtain t2 where
    t2: "(if lo < rstart key
        then then_do (t1, rbind (ok_or (checked_sub (rstart key) 1) Underflow) (\<lambda>e. range_new lo e))
               (\<lambda>t k. tree_delete t k)
        else (t1, Ok ())) = (t2, Ok ())" by blast
  note i2 = left_delete_step [OF inv1 L(1) inv1 t2]
  have "(k, Free) \<in> set (entries t2)" if "k \<in> rs" for k using rsm [OF that] i2 dis that by auto
  from right_delete_succeeds [OF inv1 R(1) _ this] i2 obtain t3 where
    t3: "(if hi > rend key
        then then_do (t2, rbind (ok_or (checked_add (rend key) 1) Overflow) (\<lambda>s. range_new s hi))
               (\<lambda>t k. tree_delete t k)
        else (t2, Ok ())) = (t3, Ok ())" by blast
  note i3 = right_delete_step [OF inv1 R(1) conjunct1 [OF i2] t3]
  have fit: "fits_in (entries t3) rng'"
    unfolding fits_in_def
  proof (intro ballI notI)
    fix e assume e: "e \<in> set (entries t3)" and o: "overlaps (fst e) rng'"
    have et: "e \<in> set (entries t)" and no: "fst e \<notin> insert key (ls \<union> rs)" using e i3 i2 d by auto
    have wfe: "wf_range (fst e)" using ordered_wf [OF ord et] .
    obtain a where a: "a \<in> addrs (fst e)" "a \<in> addrs rng'"
      using overlaps_iff [OF wfe wfr] o by blast
    have "a \<in> (\<Union>k \<in> insert key (ls \<union> rs). addrs k)"
      using a(2) unfolding R(2) merge_addrs [OF key(1) L(1) R(1) ord1] .
    then obtain k where k: "k \<in> insert key (ls \<union> rs)" "a \<in> addrs k" by (rule UN_E)
    obtain s where "(k, s) \<in> set (entries t)" using k(1) assms(3) lsm [of k] rsm [of k] d by fastforce
    then have "e = (k, s)" using ordered_disjoint [OF ord et _ a(1)] k(2) by simp
    with k(1) no show False by simp
  qed
  have "height t3 < 50" using i3 i2 d assms(4) by simp
  from tree_insert_succeeds [OF conjunct1 [OF i3] wfr fit this] obtain t' where
    t': "tree_insert t3 rng' Free = (t', Ok ())" by blast
  have sel: "rstart rng' = lo" "rend rng' = hi" using R(2) by simp_all
  show ?thesis unfolding tree_free_def t1 then_do_simps l r sel t2 t3 t' by simp
qed

section \<open>What the code does beyond its specification\<close>

text \<open>
  The probe of the left neighbour needs two addresses before the freed range.  For a range that
  starts at address 1 the subtraction fails after the node has been deleted.
\<close>

lemma tree_free_Ok_entry:
  assumes "tree_inv t" "t \<noteq> Nil" "tree_free t key = (t', Ok ())"
  shows "\<exists>st. (key, st) \<in> set (entries t)"
proof -
  from assms(3) have "\<exists>t1. tree_delete t key = (t1, Ok ())" by (auto simp: tree_free_def then_do_Ok)
  with assms(2) have "search t key \<noteq> None" by (auto simp: tree_delete_def split: if_splits)
  with search_None_iff [of t key] assms(1) show ?thesis by (force simp: tree_inv_def)
qed

lemma tree_free_start_1:
  assumes "tree_inv t" "(key, st) \<in> set (entries t)" "rstart key = 1"
  shows "\<exists>t'. tree_free t key = (t', Err Underflow) \<and>
           state_at t' = (\<lambda>a. if a \<in> addrs key then None else state_at t a)"
proof -
  have ord: "ordered (entries t)" using assms(1) by (simp add: tree_inv_def)
  obtain t1 where t1: "tree_delete t key = (t1, Ok ())" using tree_delete_succeeds [OF assms(1,2)] by auto
  note d = tree_delete_Ok [OF assms(1) t1]
  then have ord1: "ordered (entries t1)" by (simp add: tree_inv_def)
  have "state_at t1 a = (if a \<in> addrs key then None else state_at t a)" for a
  proof (rule option_eq_by_Some)
    fix s
    have "(\<exists>k. (k, s) \<in> set (entries t1) \<and> a \<in> addrs k) \<longleftrightarrow>
          (\<exists>k. (k, s) \<in> set (entries t) \<and> k \<noteq> key \<and> a \<in> addrs k)" using d by auto
    also have "\<dots> \<longleftrightarrow> a \<notin> addrs key \<and> (\<exists>k. (k, s) \<in> set (entries t) \<and> a \<in> addrs k)"
      using ordered_disjoint [OF ord _ assms(2)] by fastforce
    finally show "state_at t1 a = Some s \<longleftrightarrow> (if a \<in> addrs key then None else state_at t a) = Some s"
      unfolding state_at_Some [OF ord1, symmetric] state_at_Some [OF ord, symmetric]
      by (cases "a \<in> addrs key") (simp_all only: if_True if_False simp_thms option.distinct)
  qed
  moreover have "tree_free t key = (t1, Err Underflow)"
    using t1 assms(3) by (simp add: tree_free_def checked_sub_def)
  ultimately show ?thesis by auto
qed

text \<open>
  \<open>find_candidate\<close> does not look at the state of the node for an exact match: a slot inside an
  allocated node is handed out again and the rest of that node becomes free.
\<close>

lemma exact_match_splits_allocated:
  assumes "tree_inv t" "wf_constraint c" "cpolicy c = ExactMatch a"
    and "(k, Allocated) \<in> set (entries t)" "rstart k \<le> a" "a + csize c \<le> rend k + 1" "a < rend k"
    and "k \<noteq> slot c a" "a + csize c \<le> U64_MAX" "height t \<le> 47"
  shows "\<exists>t'. tree_allocate t c = (t', Ok (slot c a)) \<and> tree_inv t' \<and>
           (\<forall>x \<in> addrs k - addrs (slot c a). state_at t' x = Some Free)"
proof -
  have ord: "ordered (entries t)" using assms(1) by (simp add: tree_inv_def)
  have sz: "0 < csize c" using assms(2) by (simp add: wf_constraint_def)
  have wfk: "wf_range k" using ordered_wf [OF ord assms(4)] by simp
  let ?p = "RangeInclusive a (a + 1)"
  have wfp: "wf_range ?p" and wfs: "wf_range (slot c a)" using wfk assms(5-7,9) sz
    by (auto simp: wf_range_def slot_def)
  have rp: "range_new a (Suc a) = Ok ?p" using range_new_of_wf [OF wfp] by simp
  have rs: "range_new a (a + (csize c - Suc 0)) = Ok (slot c a)"
    using range_new_of_wf [of a "a + (csize c - Suc 0)"] wfs sz by (simp add: slot_def)
  obtain n where n: "search_superset t ?p = Some n" "nkey n = k" "nstate n = Allocated"
    using search_superset_complete [OF ord assms(4), of ?p] wfp assms(5,7)
    by (auto simp: range_contains_def)
  have "find_candidate t c = Ok (n, slot c a)"
    using n assms(3,5,6,7,9) wfk sz rp rs
    by (auto simp: find_candidate_def checked_add_def checked_sub_def range_contains_def slot_def
             wf_range_def)
  from allocate_from_candidate [OF assms(1,2) this] assms(8-10) n obtain t' where
    t': "tree_allocate t c = (t', Ok (slot c a))" by (auto simp: slot_def)
  from tree_allocate_Ok_cases [OF assms(1,2) t'] obtain n' rg where
    c': "find_candidate t c = Ok (n', rg)" and
    "rstart (nkey n') = rstart rg \<and> range_len (nkey n') = csize c \<and>
       tree_mark_as_allocated t (nkey n') = (t', Ok ()) \<and> slot c a = nkey n'
     \<or> split_node t (nkey n') (slot c (rstart rg)) = (t', Ok (slot c a))" .
  with \<open>find_candidate t c = Ok (n, slot c a)\<close> n(2) assms(8)
  have sp: "split_node t k (slot c a) = (t', Ok (slot c a))" by (auto simp: slot_def)
  have b: "rstart k \<le> rstart (slot c a)" "rend (slot c a) \<le> rend k"
    using assms(5,6) sz by (auto simp: slot_def)
  note s = split_node_Ok [OF assms(1) wfk wfs b sp]
  have "state_at t' x = Some Free" if "x \<in> addrs k - addrs (slot c a)" for x
    using split_state_at [OF assms(1) _ assms(4) wfs b, of t' x] s that by auto
  with t' s show ?thesis by auto
qed

text \<open>Unfoldings with which concrete runs are evaluated.\<close>

lemmas interval_tree_total_eval [eval_simps] =
  within_def

end
