(* ===== verification/Addr_Alloc.thy ===== *)
theory Addr_Alloc
  imports Interval_Tree_Total
begin

text \<open>
  The clients of the interval tree in \<open>driver/interface/rdif-pcie/src\<close>: the address allocator
  (\<open>addr_alloc/address_allocator.rs\<close>), the BAR allocator of a PCIe controller (\<open>bar_alloc.rs\<close>) and the
  part of \<open>lib.rs\<close> that fills it.  The contract between an allocator of address ranges and its
  clients is the locale \<open>range_allocator\<close>.
\<close>

section \<open>AddressAllocator\<close>

record address_allocator =
  address_space :: range_inclusive
  tree :: interval_tree

definition address_allocator_new :: "nat \<Rightarrow> nat \<Rightarrow> (alloc_error, address_allocator) result" where
  "address_allocator_new base sz =
     rbind (rbind (ok_or (checked_sub sz 1) Underflow) (\<lambda>x. ok_or (checked_add base x) Overflow)) (\<lambda>e.
     rbind (range_new base e) (\<lambda>aux_range.
     Ok \<lparr>address_space = aux_range, tree = tree_new aux_range\<rparr>))"

definition address_allocate ::
  "address_allocator \<Rightarrow> nat \<Rightarrow> nat \<Rightarrow> alloc_policy \<Rightarrow>
   address_allocator \<times> (alloc_error, range_inclusive) result"
where
  "address_allocate a sz alignment pol =
     (case constraint_new sz alignment pol of
        Ok c \<Rightarrow> (let (t, res) = tree_allocate (tree a) c in (a\<lparr>tree := t\<rparr>, res))
      | Err e \<Rightarrow> (a, Err e)
      | Panic \<Rightarrow> (a, Panic))"

definition address_free ::
  "address_allocator \<Rightarrow> range_inclusive \<Rightarrow> address_allocator \<times> (alloc_error, unit) result"
where
  "address_free a key = (let (t, res) = tree_free (tree a) key in (a\<lparr>tree := t\<rparr>, res))"

definition address_base :: "address_allocator \<Rightarrow> nat" where
  "address_base a = rstart (address_space a)"

definition address_end :: "address_allocator \<Rightarrow> nat" where
  "address_end a = rend (address_space a)"

section \<open>SimpleBarAllocator\<close>

record simple_bar_allocator =
  mem32 :: "address_allocator option"
  mem64 :: "address_allocator option"
  mem32_pref :: "address_allocator option"
  mem64_pref :: "address_allocator option"

record pci_mem =
  pci_address :: nat
  pci_size :: nat

definition bar_default :: simple_bar_allocator where
  "bar_default = \<lparr>mem32 = None, mem64 = None, mem32_pref = None, mem64_pref = None\<rparr>"

definition set_mem32 ::
  "simple_bar_allocator \<Rightarrow> pci_mem \<Rightarrow> bool \<Rightarrow> simple_bar_allocator \<times> (alloc_error, unit) result"
where
  "set_mem32 b sp prefetchable =
     (case address_allocator_new (pci_address sp) (pci_size sp) of
        Ok a \<Rightarrow> (if prefetchable then b\<lparr>mem32_pref := Some a\<rparr> else b\<lparr>mem32 := Some a\<rparr>, Ok ())
      | Err e \<Rightarrow> (b, Err e)
      | Panic \<Rightarrow> (b, Panic))"

definition set_mem64 ::
  "simple_bar_allocator \<Rightarrow> pci_mem \<Rightarrow> bool \<Rightarrow> simple_bar_allocator \<times> (alloc_error, unit) result"
where
  "set_mem64 b sp prefetchable =
     (case address_allocator_new (pci_address sp) (pci_size sp) of
        Ok a \<Rightarrow> (if prefetchable then b\<lparr>mem64_pref := Some a\<rparr> else b\<lparr>mem64 := Some a\<rparr>, Ok ())
      | Err e \<Rightarrow> (b, Err e)
      | Panic \<Rightarrow> (b, Panic))"

text \<open>
  An allocation out of one window: the updated window and the granted range, if any.  Both
  \<open>alloc_memory\<close> methods first try the prefetchable window and fall back to the other one.
\<close>

definition window_alloc :: "address_allocator \<Rightarrow> nat \<Rightarrow> address_allocator \<times> range_inclusive option" where
  "window_alloc a sz =
     (case address_allocate a sz sz FirstMatch of
        (a', Ok r) \<Rightarrow> (a', Some r) | (a', _) \<Rightarrow> (a', None))"

definition pref_alloc ::
  "address_allocator option \<Rightarrow> nat \<Rightarrow> bool \<Rightarrow> address_allocator option \<times> range_inclusive option"
where
  "pref_alloc w sz prefetchable =
     (case w of
        Some a \<Rightarrow> if prefetchable then (let (a', r) = window_alloc a sz in (Some a', r)) else (w, None)
      | None \<Rightarrow> (w, None))"

definition plain_alloc ::
  "address_allocator option \<Rightarrow> nat \<Rightarrow> address_allocator option \<times> range_inclusive option"
where
  "plain_alloc w sz =
     (case w of None \<Rightarrow> (w, None) | Some a \<Rightarrow> (let (a', r) = window_alloc a sz in (Some a', r)))"

definition alloc_memory32 ::
  "simple_bar_allocator \<Rightarrow> nat \<Rightarrow> bool \<Rightarrow> simple_bar_allocator \<times> nat option"
where
  "alloc_memory32 b sz prefetchable =
     (let (p, r) = pref_alloc (mem32_pref b) sz prefetchable; b1 = b\<lparr>mem32_pref := p\<rparr> in
      case r of
        Some addr \<Rightarrow> (b1, Some (rstart addr mod 2 ^ 32))
      | None \<Rightarrow>
          (let (m, r') = plain_alloc (mem32 b1) sz; b2 = b1\<lparr>mem32 := m\<rparr> in
           (b2, map_option (\<lambda>addr. rstart addr mod 2 ^ 32) r')))"

definition alloc_memory64 ::
  "simple_bar_allocator \<Rightarrow> nat \<Rightarrow> bool \<Rightarrow> simple_bar_allocator \<times> nat option"
where
  "alloc_memory64 b sz prefetchable =
     (let (p, r) = pref_alloc (mem64_pref b) sz prefetchable; b1 = b\<lparr>mem64_pref := p\<rparr> in
      case r of
        Some addr \<Rightarrow> (b1, Some (rstart addr))
      | None \<Rightarrow>
          (let (m, r') = plain_alloc (mem64 b1) sz; b2 = b1\<lparr>mem64 := m\<rparr> in
           (b2, map_option rstart r')))"

text \<open>
  \<open>PcieController::set_mem32\<close> and \<open>set_mem64\<close> create the BAR allocator on first use and unwrap the result.
\<close>

definition controller_set_mem32 ::
  "simple_bar_allocator option \<Rightarrow> pci_mem \<Rightarrow> bool \<Rightarrow> (alloc_error, simple_bar_allocator option) result"
where
  "controller_set_mem32 al sp pref =
     (let b = (case al of None \<Rightarrow> bar_default | Some b \<Rightarrow> b) in
      case set_mem32 b sp pref of (b', Ok _) \<Rightarrow> Ok (Some b') | _ \<Rightarrow> Panic)"

definition controller_set_mem64 ::
  "simple_bar_allocator option \<Rightarrow> pci_mem \<Rightarrow> bool \<Rightarrow> (alloc_error, simple_bar_allocator option) result"
where
  "controller_set_mem64 al sp pref =
     (let b = (case al of None \<Rightarrow> bar_default | Some b \<Rightarrow> b) in
      case set_mem64 b sp pref of (b', Ok _) \<Rightarrow> Ok (Some b') | _ \<Rightarrow> Panic)"

section \<open>The contract of an address range allocator\<close>

text \<open>The ranges granted in a run of requests; a failed request grants nothing and the run goes on.\<close>

fun grants ::
  "('s \<Rightarrow> nat \<Rightarrow> 's \<times> range_inclusive option) \<Rightarrow> 's \<Rightarrow> nat list \<Rightarrow> range_inclusive list"
where
  "grants alloc s [] = []"
| "grants alloc s (sz # szs) =
     (let (s', r) = alloc s sz; rest = grants alloc s' szs in
      case r of None \<Rightarrow> rest | Some g \<Rightarrow> g # rest)"

locale range_allocator =
  fixes inv :: "'s \<Rightarrow> bool"
    and free_addrs :: "'s \<Rightarrow> nat set"
    and alloc :: "'s \<Rightarrow> nat \<Rightarrow> 's \<times> range_inclusive option"
  assumes alloc_keeps_inv: "inv s \<Longrightarrow> inv (fst (alloc s sz))"
    and alloc_from_free: "inv s \<Longrightarrow> alloc s sz = (s', Some r) \<Longrightarrow>
          addrs r \<subseteq> free_addrs s \<and> range_len r = sz \<and> rstart r mod sz = 0 \<and> rstart r \<le> rend r"
    and alloc_takes: "inv s \<Longrightarrow> alloc s sz = (s', Some r) \<Longrightarrow> free_addrs s' = free_addrs s - addrs r"
    and alloc_fails: "inv s \<Longrightarrow> alloc s sz = (s', None) \<Longrightarrow> free_addrs s' \<subseteq> free_addrs s"
begin

lemma grants_from_free:
  "inv s \<Longrightarrow> g \<in> set (grants alloc s szs) \<Longrightarrow> addrs g \<subseteq> free_addrs s"
proof (induction szs arbitrary: s)
  case Nil
  then show ?case by simp
next
  case (Cons sz szs)
  obtain s' r where a: "alloc s sz = (s', r)" by (cases "alloc s sz")
  have inv': "inv s'" using alloc_keeps_inv [OF Cons.prems(1), of sz] a by simp
  show ?case
  proof (cases r)
    case None
    with Cons.IH [OF inv'] Cons.prems(2) a alloc_fails [OF Cons.prems(1)] show ?thesis by auto
  next
    case (Some h)
    with a have ah: "alloc s sz = (s', Some h)" by simp
    note f = alloc_from_free [OF Cons.prems(1) ah] alloc_takes [OF Cons.prems(1) ah]
    from Cons.prems(2) a Some have "g = h \<or> g \<in> set (grants alloc s' szs)" by auto
    with f Cons.IH [OF inv'] show ?thesis by blast
  qed
qed

lemma grants_aligned:
  "inv s \<Longrightarrow> g \<in> set (grants alloc s szs) \<Longrightarrow> range_len g \<in> set szs \<and> rstart g mod range_len g = 0"
proof (induction szs arbitrary: s)
  case (Cons sz szs)
  obtain s' r where a: "alloc s sz = (s', r)" by (cases "alloc s sz")
  have inv': "inv s'" using alloc_keeps_inv [OF Cons.prems(1), of sz] a by simp
  show ?case
  proof (cases "g \<in> set (grants alloc s' szs)")
    case True
    with Cons.IH [OF inv'] show ?thesis by simp
  next
    case False
    with Cons.prems(2) a have "r = Some g" by (auto simp: Let_def split: option.splits)
    with alloc_from_free [OF Cons.prems(1), of sz s' g] a show ?thesis by simp
  qed
qed simp

lemma grants_disjoint:
  "inv s \<Longrightarrow> sorted_wrt (\<lambda>g h. addrs g \<inter> addrs h = {}) (grants alloc s szs)"
proof (induction szs arbitrary: s)
  case Nil
  then show ?case by simp
next
  case (Cons sz szs)
  obtain s' r where a: "alloc s sz = (s', r)" by (cases "alloc s sz")
  have inv': "inv s'" using alloc_keeps_inv [OF Cons.prems, of sz] a by simp
  show ?case
  proof (cases r)
    case None
    with Cons.IH [OF inv'] a show ?thesis by simp
  next
    case (Some h)
    with a have ah: "alloc s sz = (s', Some h)" by simp
    have "addrs h \<inter> addrs g = {}" if "g \<in> set (grants alloc s' szs)" for g
      using grants_from_free [OF inv' that] alloc_takes [OF Cons.prems ah] by blast
    with Cons.IH [OF inv'] a Some show ?thesis by simp
  qed
qed

end

section \<open>The address allocator meets the contract\<close>

lemma split_node_Err:
  assumes "tree_inv t" "(nk, ns) \<in> set (entries t)" "wf_range res"
    and "rstart nk \<le> rstart res" "rend res \<le> rend nk" "split_node t nk res = (t', Err e)"
  shows "t' = Nil"
proof -
  have wfn: "wf_range nk" using assms(1,2) ordered_wf by (fastforce simp: tree_inv_def)
  obtain t1 where t1: "tree_delete t nk = (t1, Ok ())" using tree_delete_succeeds [OF assms(1,2)] by auto
  have b: "rbind (ok_or (checked_sub (rstart res) 1) Overflow) (\<lambda>e. range_new (rstart nk) e) =
      Ok (RangeInclusive (rstart nk) (rstart res - 1))" if "rstart nk < rstart res"
    using that wfn assms(3,5) by (auto simp: checked_sub_def range_new_Ok wf_range_def)
  have a: "rbind (ok_or (checked_add (rend res) 1) Overflow) (\<lambda>s. range_new s (rend nk)) =
      Ok (RangeInclusive (rend res + 1) (rend nk))" if "rend res < rend nk"
    using that wfn by (auto simp: checked_add_def range_new_Ok wf_range_def)
  have ins: "v = Nil" if "tree_insert u k st = (v, Err x)" for u k st v x
    using that by (auto simp: tree_insert_def split: result.splits if_splits)
  show ?thesis
  proof (rule ccontr)
    assume "t' \<noteq> Nil"
    with assms(6) a b show False
      unfolding split_node_def t1 then_do_simps
      by (auto simp: then_do_def dest!: ins split: if_splits prod.splits result.splits)
  qed
qed

lemma tree_allocate_Err:
  assumes "tree_inv t" "wf_constraint c" "cpolicy c \<in> {FirstMatch, LastMatch}"
    and "tree_allocate t c = (t', Err e)"
  shows "t' = t \<or> t' = Nil"
proof (cases "find_candidate t c")
  case (Ok p)
  obtain n rg where p: "p = (n, rg)" by (cases p)
  from find_candidate_spec [OF assms(2,1), of n rg] Ok p assms(3) have
    mem: "(nkey n, Free) \<in> set (entries t)" and f: "feasible c (nkey n) (rstart rg)" by auto
  obtain t'' where mark: "tree_mark_as_allocated t (nkey n) = (t'', Ok ())"
    using tree_mark_Ok [OF assms(1) mem] by auto
  have sp: "u = Nil" if "split_node t (nkey n) r = (u, Err x)" "wf_range r" "rstart r = rstart rg"
      "rend r = rstart rg + csize c - 1" for u r x
  proof (rule split_node_Err [OF assms(1) mem that(2) _ _ that(1)])
    show "rstart (nkey n) \<le> rstart r" "rend r \<le> rend (nkey n)"
      using that f unfolding feasible_def by linarith+
  qed
  show ?thesis
  proof (cases "rbind (rbind (ok_or (checked_add (rstart rg) (csize c)) Overflow)
                   (\<lambda>addr. ok_or (checked_sub addr 1) Underflow)) (\<lambda>e. range_new (rstart rg) e)")
    case ok: (Ok r)
    then have "wf_range r" "rstart r = rstart rg" "rend r = rstart rg + csize c - 1"
      by (auto simp: result_simps checked_simps range_new_Ok wf_range_def)
    with sp [of r] ok assms(4) Ok p mark show ?thesis
      by (auto simp: tree_allocate_def Let_def split: if_splits)
  qed (use assms(4) Ok p in \<open>auto simp: tree_allocate_def split: if_splits\<close>)
qed (use assms(4) in \<open>auto simp: tree_allocate_def split: if_splits\<close>)

definition allocator_inv :: "address_allocator \<Rightarrow> bool" where
  "allocator_inv a \<longleftrightarrow> tree_inv (tree a) \<and> within (tree a) (address_space a)"

definition free_addrs :: "address_allocator \<Rightarrow> nat set" where
  "free_addrs a = {x. state_at (tree a) x = Some Free}"

definition managed_addrs :: "address_allocator \<Rightarrow> nat set" where
  "managed_addrs a = {x. state_at (tree a) x \<noteq> None}"

lemma state_at_Nil [simp]: "state_at Nil a = None"
  by (simp add: state_at_def)

lemma tree_inv_Nil [simp]: "tree_inv Nil"
  by (simp add: tree_inv_def)

lemma within_Nil [simp]: "within Nil sp \<longleftrightarrow> wf_range sp"
  by (simp add: within_def)

lemma within_iff_states:
  assumes "tree_inv t"
  shows "within t sp \<longleftrightarrow> wf_range sp \<and> (\<forall>a. state_at t a \<noteq> None \<longrightarrow> a \<in> addrs sp)"
proof -
  have ord: "ordered (entries t)" using assms by (simp add: tree_inv_def)
  have "state_at t a \<noteq> None \<longleftrightarrow> (\<exists>e \<in> set (entries t). a \<in> addrs (fst e))" for a
    using state_at_Some [OF ord, of a] by (metis fst_conv not_None_eq prod.collapse)
  then show ?thesis by (auto simp: within_def)
qed

lemma address_allocate_Ok:
  assumes "allocator_inv a" "sz \<le> U64_MAX" "al \<le> U64_MAX" "pol \<in> {FirstMatch, LastMatch}"
    and "address_allocate a sz al pol = (a', Ok r)"
  shows "allocator_inv a' \<and> address_space a' = address_space a \<and>
         wf_range r \<and> range_len r = sz \<and> rstart r mod al = 0 \<and> addrs r \<subseteq> free_addrs a \<and>
         state_at (tree a') = (\<lambda>x. if x \<in> addrs r then Some Allocated else state_at (tree a) x)"
proof -
  from assms(5) obtain c where c: "constraint_new sz al pol = Ok c"
    and t: "tree_allocate (tree a) c = (tree a', Ok r)" and sp: "address_space a' = address_space a"
    by (auto simp: address_allocate_def split: result.splits prod.splits)
  have wc: "wf_constraint c" "csize c = sz" "calign c = al" "cpolicy c = pol"
    using constraint_new_wf [OF c assms(2,3)] assms(4) by auto
  have inv: "tree_inv (tree a)" "within (tree a) (address_space a)"
    using assms(1) by (auto simp: allocator_inv_def)
  note ok = tree_allocate_Ok [OF inv(1) wc(1) _ t]
  have "within (tree a') (address_space a)"
    using ok wc assms(4) inv unfolding within_iff_states [OF inv(1)]
    by (subst within_iff_states) auto
  with ok wc assms(4) sp show ?thesis by (auto simp: allocator_inv_def free_addrs_def)
qed

lemma address_allocate_Err:
  assumes "allocator_inv a" "sz \<le> U64_MAX" "al \<le> U64_MAX" "pol \<in> {FirstMatch, LastMatch}"
    and "address_allocate a sz al pol = (a', Err e)"
  shows "allocator_inv a' \<and> address_space a' = address_space a \<and> (a' = a \<or> tree a' = Nil)"
proof (cases "constraint_new sz al pol")
  case (Ok c)
  have wc: "wf_constraint c" "cpolicy c = pol"
    using constraint_new_wf [OF Ok assms(2,3)] assms(4) by auto
  have inv: "tree_inv (tree a)" "within (tree a) (address_space a)"
    using assms(1) by (auto simp: allocator_inv_def)
  from assms(5) Ok have t: "tree_allocate (tree a) c = (tree a', Err e)"
    and sp: "address_space a' = address_space a" and a': "a' = a\<lparr>tree := tree a'\<rparr>"
    by (auto simp: address_allocate_def split: prod.splits)
  from tree_allocate_Err [OF inv(1) wc(1) _ t] wc(2) assms(4) have "tree a' = tree a \<or> tree a' = Nil"
    by auto
  with inv sp a' show ?thesis by (auto simp: allocator_inv_def within_def)
qed (use assms(1,5) in \<open>auto simp: address_allocate_def\<close>)

lemma address_allocate_not_Panic:
  assumes "allocator_inv a" "sz \<le> U64_MAX" "al \<le> U64_MAX" "pol \<in> {FirstMatch, LastMatch}"
  shows "snd (address_allocate a sz al pol) \<noteq> Panic"
proof (cases "constraint_new sz al pol")
  case (Ok c)
  have "wf_constraint c" using constraint_new_wf [OF Ok assms(2,3)] assms(4) by auto
  with tree_allocate_no_Panic [of "tree a" c] Ok assms(1) show ?thesis
    by (auto simp: address_allocate_def allocator_inv_def split: prod.splits)
qed (auto simp: address_allocate_def constraint_new_def split: if_splits)

text \<open>
  A BAR window requests natural alignment and the first match.  The size has type \<open>u32\<close> or \<open>u64\<close>.
\<close>

definition sized_window_alloc :: "address_allocator \<Rightarrow> nat \<Rightarrow> address_allocator \<times> range_inclusive option" where
  "sized_window_alloc a sz = (if sz \<le> U64_MAX then window_alloc a sz else (a, None))"

lemma window_alloc_Some:
  assumes "window_alloc a sz = (a', Some r)"
  shows "address_allocate a sz sz FirstMatch = (a', Ok r)"
  using assms by (auto simp: window_alloc_def split: prod.splits result.splits)

lemma window_alloc_None:
  assumes "allocator_inv a" "sz \<le> U64_MAX" "window_alloc a sz = (a', None)"
  shows "allocator_inv a' \<and> address_space a' = address_space a \<and> (a' = a \<or> tree a' = Nil)"
proof -
  obtain res where res: "address_allocate a sz sz FirstMatch = (a', res)"
    and no: "\<nexists>r. res = Ok r"
    using assms(3) by (auto simp: window_alloc_def split: prod.splits result.splits)
  have "res \<noteq> Panic" using address_allocate_not_Panic [OF assms(1,2,2), of FirstMatch] res by auto
  then obtain e where "res = Err e" using no by (cases res) auto
  with address_allocate_Err [OF assms(1,2,2), of FirstMatch a' e] res show ?thesis by simp
qed

interpretation bar_window: range_allocator allocator_inv free_addrs sized_window_alloc
proof
  fix a a' :: address_allocator and sz r
  assume inv: "allocator_inv a"
  show "allocator_inv (fst (sized_window_alloc a sz))"
  proof (cases "sz \<le> U64_MAX")
    case True
    obtain a1 r1 where w: "window_alloc a sz = (a1, r1)" by (cases "window_alloc a sz")
    show ?thesis
    proof (cases r1)
      case None
      with w window_alloc_None [OF inv True] True show ?thesis by (simp add: sized_window_alloc_def)
    next
      case (Some r')
      with w address_allocate_Ok [OF inv True True _ window_alloc_Some] True show ?thesis
        by (simp add: sized_window_alloc_def)
    qed
  qed (simp add: sized_window_alloc_def inv)
  show "addrs r \<subseteq> free_addrs a \<and> range_len r = sz \<and> rstart r mod sz = 0 \<and> rstart r \<le> rend r"
    and "free_addrs a' = free_addrs a - addrs r" if "sized_window_alloc a sz = (a', Some r)"
  proof -
    from that have sz: "sz \<le> U64_MAX" and w: "window_alloc a sz = (a', Some r)"
      by (auto simp: sized_window_alloc_def split: if_splits)
    note ok = address_allocate_Ok [OF inv sz sz _ window_alloc_Some [OF w]]
    then show "addrs r \<subseteq> free_addrs a \<and> range_len r = sz \<and> rstart r mod sz = 0 \<and> rstart r \<le> rend r"
      by (auto simp: wf_range_def)
    from ok show "free_addrs a' = free_addrs a - addrs r" by (auto simp: free_addrs_def)
  qed
  show "free_addrs a' \<subseteq> free_addrs a" if "sized_window_alloc a sz = (a', None)"
    using that window_alloc_None [OF inv, of sz a']
    by (auto simp: sized_window_alloc_def free_addrs_def split: if_splits)
qed

lemma free_addrs_in_space: "allocator_inv a \<Longrightarrow> free_addrs a \<subseteq> addrs (address_space a)"
  using within_iff_states [of "tree a" "address_space a"] by (auto simp: allocator_inv_def free_addrs_def)

text \<open>An allocated range is a node of the tree, so that it can be released.\<close>

lemma address_free_allocated:
  assumes "allocator_inv a" "sz \<le> U64_MAX" "al \<le> U64_MAX" "pol \<in> {FirstMatch, LastMatch}"
    and "address_allocate a sz al pol = (a1, Ok r)"
    and "height (tree a1) < 50" "rstart r \<noteq> 1" "rend r + 1 \<noteq> U64_MAX"
  shows "\<exists>a2. address_free a1 r = (a2, Ok ()) \<and> allocator_inv a2 \<and> state_at (tree a2) = state_at (tree a)"
proof -
  note ok = address_allocate_Ok [OF assms(1-5)]
  from assms(5) obtain c where c: "constraint_new sz al pol = Ok c" and t: "tree_allocate (tree a) c = (tree a1, Ok r)"
    by (auto simp: address_allocate_def split: result.splits prod.splits)
  have wc: "wf_constraint c" "cpolicy c = pol" using constraint_new_wf [OF c assms(2,3)] assms(4) by auto
  have inv: "tree_inv (tree a)" using assms(1) by (simp add: allocator_inv_def)
  have inv1: "tree_inv (tree a1)" "within (tree a1) (address_space a1)" using ok by (auto simp: allocator_inv_def)
  have node: "(r, Allocated) \<in> set (entries (tree a1))"
    by (rule tree_allocate_entry [OF inv wc(1) t]) (use wc(2) assms(4) in simp)
  obtain t2 where t2: "tree_free (tree a1) r = (t2, Ok ())"
    using tree_free_succeeds [OF inv1 node assms(6-8)] by blast
  note f = tree_free_spec [OF inv1(1) node t2]
  have st: "state_at t2 = state_at (tree a)"
  proof
    fix x
    show "state_at t2 x = state_at (tree a) x"
      using f ok by (cases "x \<in> addrs r") (auto simp: free_addrs_def)
  qed
  have "within (tree a) (address_space a1)" using assms(1) ok by (simp add: allocator_inv_def)
  then have "within t2 (address_space a1)"
    unfolding within_iff_states [OF inv] within_iff_states [OF conjunct1 [OF f]] st .
  then show ?thesis using t2 f st by (simp add: address_free_def allocator_inv_def)
qed

text \<open>Unfoldings with which concrete runs are evaluated.\<close>

lemmas addr_alloc_eval [eval_simps] =
  address_allocator_new_def address_allocate_def address_free_def address_base_def
  address_end_def bar_default_def set_mem32_def set_mem64_def window_alloc_def pref_alloc_def
  plain_alloc_def alloc_memory32_def alloc_memory64_def controller_set_mem32_def
  controller_set_mem64_def allocator_inv_def free_addrs_def managed_addrs_def
  sized_window_alloc_def

end
