(* ===== verification/Id_Alloc.thy ===== *)
theory Id_Alloc
  imports Addr_Range
begin

text \<open>
  The identifier allocator of \<open>driver/interface/rdif-pcie/src/addr_alloc/id_allocator.rs\<close>.  The
  \<open>BTreeSet\<close> of released identifiers is the strictly increasing list of its elements, so that
  \<open>iter().next()\<close> is the head of the list.  Identifiers have type \<open>u32\<close>.
\<close>

definition U32_MAX :: nat where
  "U32_MAX = 4294967295"

record id_allocator =
  range_base :: nat
  next_id :: "nat option"
  range_end :: nat
  freed_ids :: "nat list"

definition id_allocator_new :: "nat \<Rightarrow> nat \<Rightarrow> (alloc_error, id_allocator) result" where
  "id_allocator_new base e =
     (if e < base then Err (InvalidRange base e)
      else Ok \<lparr>range_base = base, next_id = Some base, range_end = e, freed_ids = []\<rparr>)"

definition id_in_range :: "id_allocator \<Rightarrow> nat \<Rightarrow> bool" where
  "id_in_range a i \<longleftrightarrow> range_base a \<le> i \<and> i \<le> range_end a"

definition allocate_id :: "id_allocator \<Rightarrow> id_allocator \<times> (alloc_error, nat) result" where
  "allocate_id a =
     (case freed_ids a of
        ret_value # rest \<Rightarrow> (a\<lparr>freed_ids := rest\<rparr>, Ok ret_value)
      | [] \<Rightarrow>
          (case next_id a of
             Some n \<Rightarrow>
               if n > range_end a then (a, Err ResourceNotAvailable)
               else (a\<lparr>next_id := (if n + 1 \<le> U32_MAX then Some (n + 1) else None)\<rparr>, Ok n)
           | None \<Rightarrow> (a, Err Overflow)))"

definition free_id :: "id_allocator \<Rightarrow> nat \<Rightarrow> id_allocator \<times> (alloc_error, nat) result" where
  "free_id a i =
     (if \<not> id_in_range a i then (a, Err (OutOfRange i))
      else if (case next_id a of Some n \<Rightarrow> n < i | None \<Rightarrow> False) then (a, Err (NeverAllocated i))
      else if i \<in> set (freed_ids a) then (a, Err (AlreadyReleased i))
      else (a\<lparr>freed_ids := insort i (freed_ids a)\<rparr>, Ok i))"

section \<open>The identifiers in use\<close>

definition handed_out :: "id_allocator \<Rightarrow> nat set" where
  "handed_out a =
     (case next_id a of Some n \<Rightarrow> {range_base a ..< n} | None \<Rightarrow> {range_base a .. U32_MAX})"

definition in_use :: "id_allocator \<Rightarrow> nat set" where
  "in_use a = handed_out a - set (freed_ids a)"

definition id_inv :: "id_allocator \<Rightarrow> bool" where
  "id_inv a \<longleftrightarrow>
     range_base a \<le> range_end a \<and> range_end a \<le> U32_MAX \<and>
     sorted (freed_ids a) \<and> distinct (freed_ids a) \<and> set (freed_ids a) \<subseteq> handed_out a \<and>
     (case next_id a of Some n \<Rightarrow> range_base a \<le> n \<and> n \<le> range_end a + 1 | None \<Rightarrow> range_end a = U32_MAX)"

lemma handed_out_freed_update [simp]: "handed_out (a\<lparr>freed_ids := xs\<rparr>) = handed_out a"
  by (cases "next_id a") (simp_all add: handed_out_def)

lemma id_allocator_new_inv:
  "id_allocator_new b e = Ok a \<Longrightarrow> e \<le> U32_MAX \<Longrightarrow> id_inv a \<and> in_use a = {}"
  by (auto simp: id_allocator_new_def id_inv_def in_use_def handed_out_def split: if_splits)

lemma handed_out_in_range: "id_inv a \<Longrightarrow> i \<in> handed_out a \<Longrightarrow> id_in_range a i"
  by (auto simp: id_inv_def handed_out_def id_in_range_def split: option.splits)

lemma allocate_id_Ok:
  assumes "id_inv a" "allocate_id a = (a', Ok i)"
  shows "id_inv a' \<and> i \<notin> in_use a \<and> id_in_range a i \<and> in_use a' = insert i (in_use a)"
proof (cases "freed_ids a")
  case (Cons j rest)
  with assms(2) have a': "a' = a\<lparr>freed_ids := rest\<rparr>" "i = j" by (auto simp: allocate_id_def)
  have j: "j \<in> handed_out a" using assms(1) Cons by (auto simp: id_inv_def)
  have "in_use a' = insert i (in_use a)"
    using a' Cons j assms(1) by (auto simp: in_use_def id_inv_def)
  moreover have "id_inv a'" using assms(1) Cons a' by (auto simp: id_inv_def split: option.splits)
  ultimately show ?thesis using a' Cons handed_out_in_range [OF assms(1) j]
    by (auto simp: in_use_def)
next
  case Nil
  with assms(2) obtain n where n: "next_id a = Some n" "n \<le> range_end a" "i = n"
    "a' = a\<lparr>next_id := (if n + 1 \<le> U32_MAX then Some (n + 1) else None)\<rparr>"
    by (auto simp: allocate_id_def split: option.splits if_splits)
  with Nil assms(1) show ?thesis
    by (auto simp: id_inv_def in_use_def handed_out_def id_in_range_def split: if_splits)
qed

lemma allocate_id_Err:
  assumes "id_inv a" "allocate_id a = (a', Err e)"
  shows "a' = a \<and> in_use a = {range_base a .. range_end a}"
  using assms
  by (auto simp: allocate_id_def id_inv_def in_use_def handed_out_def split: list.splits option.splits if_splits)

lemma free_id_in_use:
  assumes "id_inv a" "i \<in> in_use a"
  shows "\<exists>a'. free_id a i = (a', Ok i) \<and> id_inv a' \<and> in_use a' = in_use a - {i}"
proof -
  have i: "i \<in> handed_out a" "i \<notin> set (freed_ids a)" using assms(2) by (auto simp: in_use_def)
  note r = handed_out_in_range [OF assms(1) i(1)]
  have "\<not> (case next_id a of Some n \<Rightarrow> n < i | None \<Rightarrow> False)"
    using i(1) by (auto simp: handed_out_def split: option.splits)
  with i r have "free_id a i = (a\<lparr>freed_ids := insort i (freed_ids a)\<rparr>, Ok i)"
    by (simp add: free_id_def)
  moreover have "id_inv (a\<lparr>freed_ids := insort i (freed_ids a)\<rparr>)"
    using assms(1) i
    by (auto simp: id_inv_def set_insort_key sorted_insort distinct_insort split: option.splits)
  moreover have "in_use (a\<lparr>freed_ids := insort i (freed_ids a)\<rparr>) = in_use a - {i}"
    by (auto simp: in_use_def set_insort_key)
  ultimately show ?thesis by auto
qed

text \<open>
  The guard of \<open>free_id\<close> compares with \<open>next_id < id\<close>, so the identifier \<open>next_id\<close> itself, which was
  never handed out, is accepted; it is then handed out twice.
\<close>

lemma free_next_id:
  assumes "id_inv a" "next_id a = Some n" "n < range_end a" "freed_ids a = []"
  shows "\<exists>a1 a2 a3. free_id a n = (a1, Ok n) \<and> allocate_id a1 = (a2, Ok n) \<and> allocate_id a2 = (a3, Ok n)"
  using assms by (auto simp: free_id_def allocate_id_def id_in_range_def id_inv_def)

text \<open>Unfoldings with which concrete runs are evaluated.\<close>

lemmas id_alloc_eval [eval_simps] =
  U32_MAX_def id_allocator_new_def id_in_range_def allocate_id_def free_id_def handed_out_def
  in_use_def id_inv_def

end
