(* ===== verification/Alloc_Properties.thy ===== *)
theory Alloc_Properties
  imports Addr_Alloc Id_Alloc
begin

text \<open>
  The properties of the PCIe address-space allocator: the interval tree, the address allocator on top
  of it, the BAR windows and the identifier allocator, each with a concrete run in which its
  hypotheses hold.
\<close>

section \<open>Concrete inputs\<close>

text \<open>One allocated page followed by free space, as the allocator itself builds it.\<close>

definition sample_tree :: interval_tree where
  "sample_tree =
     InnerNode (RangeInclusive 4096 8191) Allocated Nil
       (InnerNode (RangeInclusive 8192 65535) Free Nil Nil 1) 2"

definition sample_constraint :: alloc_constraint where
  "sample_constraint = \<lparr>csize = 4096, calign = 4096, cpolicy = FirstMatch\<rparr>"

definition sample_window :: address_allocator where
  "sample_window = \<lparr>address_space = RangeInclusive 4096 65535, tree = sample_tree\<rparr>"

definition sample_ids :: id_allocator where
  "sample_ids = \<lparr>range_base = 5, next_id = Some 8, range_end = 9, freed_ids = [6]\<rparr>"

lemmas sample_defs = sample_tree_def sample_constraint_def sample_window_def sample_ids_def

lemma sample_tree_inv: "tree_inv sample_tree" "height sample_tree = 2"
  by (simp_all add: sample_tree_def eval_simps)

lemma sample_constraint_wf: "wf_constraint sample_constraint"
  by (simp add: sample_constraint_def eval_simps)

lemma sample_allocated:
  "tree_allocate sample_tree sample_constraint =
     (InnerNode (RangeInclusive 8192 12287) Allocated
        (InnerNode (RangeInclusive 4096 8191) Allocated Nil Nil 1)
        (InnerNode (RangeInclusive 12288 65535) Free Nil Nil 1) 2, Ok (RangeInclusive 8192 12287))"
  by (simp add: sample_defs eval_simps)

section \<open>The interval tree\<close>

text \<open>C1. A successful \<open>allocate\<close> with the first-match or last-match policy returns a range of the
  requested length and alignment that was entirely free, marks exactly that range allocated, leaves
  the state of every other address as it was, and keeps the tree balanced and ordered.\<close>

theorem allocate_refines:
  assumes "tree_inv t" "wf_constraint c" "cpolicy c \<in> {FirstMatch, LastMatch}"
    and "tree_allocate t c = (t', Ok r)"
  shows "tree_inv t' \<and> range_len r = csize c \<and> rstart r mod calign c = 0 \<and>
         (\<forall>a \<in> addrs r. state_at t a = Some Free) \<and>
         state_at t' = (\<lambda>a. if a \<in> addrs r then Some Allocated else state_at t a)"
  using tree_allocate_Ok [OF assms] by blast

theorem allocate_refines_witness:
  "tree_inv (fst (tree_allocate sample_tree sample_constraint)) \<and>
   state_at sample_tree 8192 = Some Free \<and>
   state_at (fst (tree_allocate sample_tree sample_constraint)) 8192 = Some Allocated"
  using allocate_refines [OF sample_tree_inv(1) sample_constraint_wf _ sample_allocated]
  by (simp add: sample_allocated) (simp add: sample_constraint_def)

text \<open>C2. First match finds the lowest place: whenever a free node can hold the request at an aligned address
  without reaching the end of the address space, \<open>allocate\<close> succeeds, and the range it returns is such an aligned slot
  of a free node, the lowest one of all free nodes.  (In a tree of at most 47 levels, so that no level reaches the limit
  of 50 at which an insertion fails.)\<close>

theorem allocate_first_fit:
  assumes "tree_inv t" "wf_constraint c" "cpolicy c = FirstMatch" "height t \<le> 47"
    and "(k, Free) \<in> set (entries t)" "feasible c k a" "a + csize c \<le> U64_MAX"
  shows "\<exists>t' b k'. tree_allocate t c = (t', Ok (slot c b)) \<and> (k', Free) \<in> set (entries t) \<and> feasible c k' b \<and>
     (\<forall>k'' a'. (k'', Free) \<in> set (entries t) \<longrightarrow> feasible c k'' a' \<longrightarrow> b \<le> a')"
proof -
  obtain n rg where c: "find_candidate t c = Ok (n, rg)" "nstate n = Free" "rstart rg \<le> a"
    using first_match_lowest [OF assms(1,2,3,5,6)] by blast
  have "rstart rg \<le> a'" if "(k'', Free) \<in> set (entries t)" "feasible c k'' a'" for k'' a'
    using first_match_lowest [OF assms(1,2,3) that] c(1) by auto
  moreover have "(nkey n, Free) \<in> set (entries t)" "feasible c (nkey n) (rstart rg)"
    using find_candidate_spec [OF assms(2,1) c(1)] assms(3) c(2) by auto
  moreover obtain t' where "tree_allocate t c = (t', Ok (slot c (rstart rg)))"
    using allocate_from_candidate [OF assms(1,2) c(1) _ assms(4)] assms(7) c(2,3) by fastforce
  ultimately show ?thesis by blast
qed

theorem allocate_first_fit_witness:
  "\<exists>t' b k'. tree_allocate sample_tree sample_constraint = (t', Ok (slot sample_constraint b)) \<and>
     (k', Free) \<in> set (entries sample_tree) \<and> feasible sample_constraint k' b \<and>
     (\<forall>k'' a'. (k'', Free) \<in> set (entries sample_tree) \<longrightarrow> feasible sample_constraint k'' a' \<longrightarrow> b \<le> a')"
proof (rule allocate_first_fit [OF sample_tree_inv(1) sample_constraint_wf])
  show "(RangeInclusive 8192 65535, Free) \<in> set (entries sample_tree)" by (simp add: sample_tree_def)
  show "feasible sample_constraint (RangeInclusive 8192 65535) 16384" by (simp add: sample_constraint_def feasible_def)
qed (simp_all add: sample_tree_inv sample_constraint_def U64_MAX_def)

text \<open>C3. No request makes \<open>allocate\<close> panic, whatever its policy: the unreachable branches of the candidate
  search, the rotations and the overflow checks are never hit on a well-formed tree.\<close>

theorem allocate_never_panics:
  assumes "tree_inv t" "wf_constraint c"
  shows "snd (tree_allocate t c) \<noteq> Panic"
  by (rule tree_allocate_no_Panic [OF assms])

theorem allocate_never_panics_witness: "snd (tree_allocate sample_tree sample_constraint) \<noteq> Panic"
  by (rule allocate_never_panics [OF sample_tree_inv(1) sample_constraint_wf])

text \<open>C4. A successful \<open>free\<close> on a tree that is not empty makes exactly the addresses of its argument free,
  whichever neighbours they are merged with, and keeps the tree balanced and ordered.\<close>

theorem free_refines:
  assumes "tree_inv t" "t \<noteq> Nil" "tree_free t key = (t', Ok ())"
  shows "tree_inv t' \<and> state_at t' = (\<lambda>a. if a \<in> addrs key then Some Free else state_at t a)"
  using tree_free_Ok_entry [OF assms] tree_free_spec [OF assms(1) _ assms(3)] by blast

lemma sample_freed:
  "tree_free sample_tree (RangeInclusive 4096 8191) =
     (InnerNode (RangeInclusive 4096 65535) Free Nil Nil 1, Ok ())"
  by (simp add: sample_defs eval_simps)

theorem free_refines_witness:
  "state_at sample_tree 5000 = Some Allocated \<and>
   state_at (fst (tree_free sample_tree (RangeInclusive 4096 8191))) 5000 = Some Free"
  using free_refines [OF sample_tree_inv(1) _ sample_freed] sample_freed
  by (simp add: sample_tree_def state_at_def)



text \<open>C6. What was allocated with the first-match or last-match policy can be released, and releasing it restores the
  state of every address, in a tree of fewer than 50 levels and unless the range starts at address 1 or ends one below the last
  address, where the arithmetic of \<open>free\<close> fails.\<close>

theorem allocate_free_roundtrip:
  assumes "allocator_inv a" "sz \<le> U64_MAX" "al \<le> U64_MAX" "pol \<in> {FirstMatch, LastMatch}"
    and "address_allocate a sz al pol = (a1, Ok r)"
    and "height (tree a1) < 50" "rstart r \<noteq> 1" "rend r + 1 \<noteq> U64_MAX"
  shows "\<exists>a2. address_free a1 r = (a2, Ok ()) \<and> allocator_inv a2 \<and> state_at (tree a2) = state_at (tree a)"
  by (rule address_free_allocated [OF assms])

lemma sample_window_inv: "allocator_inv sample_window"
  using sample_tree_inv(1)
  by (simp add: sample_window_def allocator_inv_def) (simp add: sample_tree_def eval_simps)

theorem allocate_free_roundtrip_witness:
  "\<exists>a1 a2. address_allocate sample_window 4096 4096 FirstMatch = (a1, Ok (RangeInclusive 8192 12287)) \<and>
     address_free a1 (RangeInclusive 8192 12287) = (a2, Ok ()) \<and> state_at (tree a2) = state_at (tree sample_window)"
proof -
  let ?t = "InnerNode (RangeInclusive 8192 12287) Allocated
        (InnerNode (RangeInclusive 4096 8191) Allocated Nil Nil 1)
        (InnerNode (RangeInclusive 12288 65535) Free Nil Nil 1) 2"
  have c: "constraint_new 4096 4096 FirstMatch = Ok sample_constraint"
    by (simp add: sample_constraint_def eval_simps)
  have "address_allocate sample_window 4096 4096 FirstMatch = (sample_window\<lparr>tree := ?t\<rparr>, Ok (RangeInclusive 8192 12287))"
    by (simp add: address_allocate_def c sample_allocated) (simp add: sample_window_def sample_allocated)
  from this allocate_free_roundtrip [OF sample_window_inv _ _ _ this] show ?thesis
    by (auto simp: U64_MAX_def)
qed

text \<open>C7. Whatever requests are made, the tree stays an ordered, balanced search tree of disjoint ranges: in every tree that allocations of any
  policy and releases of any range lead to, successful or not, the cached heights are right, the nodes do
  not overlap, and the height is logarithmic in the number of nodes.\<close>

theorem reachable_balanced:
  assumes "tree_reachable sp t" "wf_range sp"
  shows "avl t \<and> ordered (entries t) \<and> 2 ^ (height t div 2) \<le> length (entries t) + 1"
  using tree_reachable_inv [OF assms] avl_height_logarithmic [of t] by (simp add: tree_inv_def)

theorem reachable_balanced_witness:
  "let t = fst (tree_free (fst (tree_allocate (tree_new (RangeInclusive 4096 65535)) sample_constraint)) (RangeInclusive 0 9))
   in avl t \<and> 2 ^ (height t div 2) \<le> length (entries t) + 1"
proof -
  have "tree_reachable (RangeInclusive 4096 65535)
      (fst (tree_free (fst (tree_allocate (tree_new (RangeInclusive 4096 65535)) sample_constraint)) (RangeInclusive 0 9)))"
    by (intro tree_reachable.intros sample_constraint_wf) (simp add: wf_range_def U64_MAX_def)
  from reachable_balanced [OF this] show ?thesis by (simp add: wf_range_def U64_MAX_def Let_def)
qed

text \<open>A failed \<open>allocate\<close> leaves the tree as it was or empties it: an insertion that fails after the root
  was taken drops every node.\<close>

theorem allocate_error_state:
  assumes "tree_inv t" "wf_constraint c" "cpolicy c \<in> {FirstMatch, LastMatch}"
    and "tree_allocate t c = (t', Err e)"
  shows "t' = t \<or> t' = Nil"
  by (rule tree_allocate_Err [OF assms])

theorem allocate_error_state_witness:
  "fst (tree_allocate sample_tree (sample_constraint\<lparr>csize := 131072\<rparr>)) \<in> {sample_tree, Nil}"
proof -
  have "tree_allocate sample_tree (sample_constraint\<lparr>csize := 131072\<rparr>) = (sample_tree, Err ResourceNotAvailable)"
    by (simp add: sample_defs eval_simps)
  moreover from allocate_error_state [OF sample_tree_inv(1) _ _ this]
  have "sample_tree = sample_tree \<or> sample_tree = Nil" by (simp add: sample_constraint_def eval_simps)
  ultimately show ?thesis by simp
qed

text \<open>The exact-match policy does not look at the state of the node it finds: a request inside an
  allocated node is granted, and the rest of that node becomes free.\<close>

theorem exact_match_overrides_allocation:
  assumes "tree_inv t" "wf_constraint c" "cpolicy c = ExactMatch a"
    and "(k, Allocated) \<in> set (entries t)" "rstart k \<le> a" "a + csize c \<le> rend k + 1" "a < rend k"
    and "k \<noteq> slot c a" "a + csize c \<le> U64_MAX" "height t \<le> 47"
  shows "\<exists>t'. tree_allocate t c = (t', Ok (slot c a)) \<and> tree_inv t' \<and>
           (\<forall>x \<in> addrs k - addrs (slot c a). state_at t' x = Some Free)"
  by (rule exact_match_splits_allocated [OF assms])

theorem exact_match_overrides_allocation_witness:
  "\<exists>t'. tree_allocate sample_tree \<lparr>csize = 16, calign = 16, cpolicy = ExactMatch 4096\<rparr> =
          (t', Ok (RangeInclusive 4096 4111)) \<and> state_at sample_tree 4200 = Some Allocated \<and>
        state_at t' 4200 = Some Free"
proof -
  let ?c = "\<lparr>csize = 16, calign = 16, cpolicy = ExactMatch 4096\<rparr>"
  have "(RangeInclusive 4096 8191, Allocated) \<in> set (entries sample_tree)" "wf_constraint ?c"
    by (simp_all add: sample_defs eval_simps)
  from exact_match_overrides_allocation [OF sample_tree_inv(1) this(2) _ this(1)]
  have "\<exists>t'. tree_allocate sample_tree ?c = (t', Ok (slot ?c 4096)) \<and> tree_inv t' \<and>
      (\<forall>x \<in> {4096..8191} - addrs (slot ?c 4096). state_at t' x = Some Free)"
    by (simp add: sample_tree_inv slot_def U64_MAX_def)
  moreover have "state_at sample_tree 4200 = Some Allocated" by (simp add: sample_defs eval_simps)
  ultimately show ?thesis by (fastforce simp: slot_def)
qed

text \<open>\<open>free\<close> of a node that starts at address 1 removes the node and then reports an underflow, so its
  addresses are neither free nor allocated afterwards.\<close>

theorem free_loses_range_at_1:
  assumes "tree_inv t" "(key, st) \<in> set (entries t)" "rstart key = 1"
  shows "\<exists>t'. tree_free t key = (t', Err Underflow) \<and>
           state_at t' = (\<lambda>a. if a \<in> addrs key then None else state_at t a)"
  by (rule tree_free_start_1 [OF assms])

theorem free_loses_range_at_1_witness:
  "\<exists>t'. tree_free (InnerNode (RangeInclusive 1 7) Allocated Nil Nil 1) (RangeInclusive 1 7) = (t', Err Underflow) \<and>
        state_at t' 3 = None"
proof -
  have "tree_inv (InnerNode (RangeInclusive 1 7) Allocated Nil Nil 1)" by (simp add: eval_simps)
  from free_loses_range_at_1 [OF this, of "RangeInclusive 1 7" Allocated] show ?thesis by fastforce
qed

section \<open>BAR windows\<close>

text \<open>C8. The ranges assigned to the BARs of one window: in every run of requests, of whatever sizes and with any of
  them failing, the granted ranges are pairwise disjoint, each has one of the requested sizes, is aligned to its size, and lies in
  addresses of the window that were free at the start.\<close>

theorem bar_grants_disjoint:
  assumes "allocator_inv a"
  shows "sorted_wrt (\<lambda>g h. addrs g \<inter> addrs h = {}) (grants sized_window_alloc a szs) \<and>
     (\<forall>g \<in> set (grants sized_window_alloc a szs).
        range_len g \<in> set szs \<and> rstart g mod range_len g = 0 \<and>
        addrs g \<subseteq> free_addrs a \<and> addrs g \<subseteq> addrs (address_space a))"
  using bar_window.grants_disjoint [OF assms] bar_window.grants_aligned [OF assms] bar_window.grants_from_free [OF assms]
    free_addrs_in_space [OF assms] by blast

theorem bar_grants_disjoint_witness:
  "sorted_wrt (\<lambda>g h. addrs g \<inter> addrs h = {}) (grants sized_window_alloc sample_window [4096, 16384, 4096]) \<and>
   list_all (\<lambda>g. rstart g mod range_len g = 0 \<and> addrs g \<subseteq> {4096..65535})
     (grants sized_window_alloc sample_window [4096, 16384, 4096]) \<and>
   length (grants sized_window_alloc sample_window [4096, 16384, 4096]) = 3"
proof -
  have "length (grants sized_window_alloc sample_window [4096, 16384, 4096]) = 3"
    by (simp add: sample_window_def sample_tree_def eval_simps Let_def)
  with bar_grants_disjoint [OF sample_window_inv, of "[4096, 16384, 4096]"] show ?thesis
    by (simp add: sample_window_def list_all_iff)
qed

text \<open>An address returned by \<open>alloc_memory64\<close> for a non-prefetchable BAR is naturally aligned and the
  whole BAR lies in free space of the window.\<close>

theorem alloc_memory64_from_window:
  assumes "mem64 b = Some w" "allocator_inv w" "sz \<le> U64_MAX"
    and "alloc_memory64 b sz False = (b', Some addr)"
  shows "addr mod sz = 0 \<and> {addr ..< addr + sz} \<subseteq> free_addrs w \<and>
         (\<exists>w'. mem64 b' = Some w' \<and> allocator_inv w' \<and> free_addrs w' = free_addrs w - {addr ..< addr + sz})"
proof -
  from assms(1,4) obtain w' r where w: "window_alloc w sz = (w', Some r)" "addr = rstart r" "mem64 b' = Some w'"
    by (auto simp: alloc_memory64_def pref_alloc_def plain_alloc_def split: option.splits prod.splits)
  then have s: "sized_window_alloc w sz = (w', Some r)" using assms(3) by (simp add: sized_window_alloc_def)
  note f = bar_window.alloc_from_free [OF assms(2) s]
  then have "addrs r = {addr ..< addr + sz}" using w(2) by (auto simp: range_len_def)
  moreover have "allocator_inv w'" using bar_window.alloc_keeps_inv [OF assms(2), of sz] s by simp
  ultimately show ?thesis using f w bar_window.alloc_takes [OF assms(2) s] by metis
qed

theorem alloc_memory64_from_window_witness:
  "snd (alloc_memory64 (bar_default\<lparr>mem64 := Some sample_window\<rparr>) 16384 False) = Some 16384 \<and>
   {16384 ..< 32768} \<subseteq> free_addrs sample_window"
proof -
  let ?b = "bar_default\<lparr>mem64 := Some sample_window\<rparr>"
  have "snd (alloc_memory64 ?b 16384 False) = Some 16384"
    by (simp add: sample_window_def sample_tree_def eval_simps)
  then have "alloc_memory64 ?b 16384 False = (fst (alloc_memory64 ?b 16384 False), Some 16384)"
    by (metis prod.collapse)
  from alloc_memory64_from_window [OF _ sample_window_inv _ this]
  show ?thesis using \<open>snd (alloc_memory64 ?b 16384 False) = Some 16384\<close> by (simp add: U64_MAX_def)
qed

section \<open>Identifiers\<close>

text \<open>\<open>allocate_id\<close> returns an identifier of the range that is not in use and adds it, and only it, to the
  identifiers in use.\<close>

theorem allocate_id_fresh:
  assumes "id_inv a" "allocate_id a = (a', Ok i)"
  shows "id_inv a' \<and> i \<notin> in_use a \<and> id_in_range a i \<and> in_use a' = insert i (in_use a)"
  by (rule allocate_id_Ok [OF assms])

lemma sample_ids_inv: "id_inv sample_ids"
  by (simp add: sample_ids_def eval_simps)

theorem allocate_id_fresh_witness:
  "in_use (sample_ids\<lparr>freed_ids := []\<rparr>) = insert 6 (in_use sample_ids) \<and> 6 \<notin> in_use sample_ids"
  using allocate_id_fresh [OF sample_ids_inv, of "sample_ids\<lparr>freed_ids := []\<rparr>" 6]
  by (simp add: sample_ids_def allocate_id_def)

text \<open>\<open>allocate_id\<close> fails only when every identifier of the range is in use.\<close>

theorem allocate_id_exhausted:
  assumes "id_inv a" "allocate_id a = (a', Err e)"
  shows "a' = a \<and> in_use a = {range_base a .. range_end a}"
  by (rule allocate_id_Err [OF assms])

theorem allocate_id_exhausted_witness:
  "in_use \<lparr>range_base = 5, next_id = Some 7, range_end = 6, freed_ids = []\<rparr> = {5 .. 6}"
proof -
  let ?a = "\<lparr>range_base = 5, next_id = Some 7, range_end = 6, freed_ids = []\<rparr>"
  have "id_inv ?a" "allocate_id ?a = (?a, Err ResourceNotAvailable)" by (simp_all add: eval_simps)
  from allocate_id_exhausted [OF this] show ?thesis by simp
qed

text \<open>Releasing an identifier in use succeeds and makes exactly it available again.\<close>

theorem free_id_releases:
  assumes "id_inv a" "i \<in> in_use a"
  shows "\<exists>a'. free_id a i = (a', Ok i) \<and> id_inv a' \<and> in_use a' = in_use a - {i}"
  by (rule free_id_in_use [OF assms])

theorem free_id_releases_witness:
  "\<exists>a'. free_id sample_ids 7 = (a', Ok 7) \<and> id_inv a' \<and> in_use a' = in_use sample_ids - {7}"
  by (rule free_id_releases [OF sample_ids_inv]) (simp add: sample_ids_def in_use_def handed_out_def)

text \<open>The identifier \<open>next_id\<close>, which was never handed out, can be released; the next two allocations
  both return it.\<close>

theorem free_id_accepts_next_id:
  assumes "id_inv a" "next_id a = Some n" "n < range_end a" "freed_ids a = []"
  shows "\<exists>a1 a2 a3. free_id a n = (a1, Ok n) \<and> allocate_id a1 = (a2, Ok n) \<and> allocate_id a2 = (a3, Ok n)"
  by (rule free_next_id [OF assms])

theorem free_id_accepts_next_id_witness:
  "\<exists>a1 a2 a3. free_id (sample_ids\<lparr>freed_ids := []\<rparr>) 8 = (a1, Ok 8) \<and>
     allocate_id a1 = (a2, Ok 8) \<and> allocate_id a2 = (a3, Ok 8)"
  by (rule free_id_accepts_next_id) (simp_all add: sample_ids_def eval_simps)

end
