(* ===== verification/Page_Table.thy ===== *)
theory Page_Table
  imports Prelude
begin

unbundle bit_operations_syntax

text \<open>
  The generic multi-level page table of \<open>crates/page-table-generic/src\<close>: \<open>def.rs\<close> (addresses, errors
  and entry configurations), \<open>frame.rs\<close> (one table page), \<open>map.rs\<close> (recursive mapping and unmapping),
  \<open>table.rs\<close> (the public operations) and \<open>walk.rs\<close> (the iterator over entries).

  Physical memory holds the table pages: the state maps the physical address of a frame to the list
  of its entries.  A frame that is not allocated has no entries, and reading or writing it is a
  \<open>Panic\<close>, which stands for the undefined behaviour of the unsafe slice.  The traits \<open>TableMeta\<close>,
  \<open>PageTableEntry\<close> and \<open>FrameAllocator\<close> are the record \<open>table_meta\<close> that every operation takes.
  TLB flushes are recorded in the state, in the order in which they are issued.
\<close>

section \<open>def.rs and lib.rs\<close>

datatype paging_error =
    NoMemory
  | AlignmentError string
  | MappingConflict nat nat
  | AddressOverflow string
  | InvalidSize string
  | HierarchyError string
  | InvalidRange string
  | NotMapped

datatype mem_attributes = Normal | PerCpu | Device | Uncached

record pte_config =
  pc_paddr :: nat
  pc_valid :: bool
  pc_read :: bool
  pc_writable :: bool
  pc_executable :: bool
  pc_lower :: bool
  pc_dirty :: bool
  pc_global :: bool
  pc_is_dir :: bool
  pc_huge :: bool
  pc_mem_attr :: mem_attributes

definition pte_config_default :: pte_config where
  "pte_config_default =
     \<lparr>pc_paddr = 0, pc_valid = False, pc_read = False, pc_writable = False, pc_executable = False,
      pc_lower = False, pc_dirty = False, pc_global = False, pc_is_dir = False, pc_huge = False,
      pc_mem_attr = Normal\<rparr>"

record ('p, 'a) table_meta =
  PAGE_SIZE :: nat
  LEVEL_BITS :: "nat list"
  MAX_BLOCK_LEVEL :: nat
  pte_size :: nat
  pte_zero :: 'p
  from_config :: "pte_config \<Rightarrow> 'p"
  to_config :: "'p \<Rightarrow> bool \<Rightarrow> pte_config"
  pte_valid :: "'p \<Rightarrow> bool"
  alloc_frame :: "'a \<Rightarrow> 'a \<times> (unit, nat option) result"
  dealloc_frame :: "nat \<Rightarrow> 'a \<Rightarrow> 'a"

record ('p, 'a) pt_state =
  pt_frames :: "nat \<Rightarrow> 'p list option"
  pt_alloc :: 'a
  pt_flushed :: "nat list"

section \<open>frame.rs\<close>

fun trailing_zeros :: "nat \<Rightarrow> nat" where
  "trailing_zeros n = (if n = 0 then 64 else if odd n then 0 else Suc (trailing_zeros (n div 2)))"

declare trailing_zeros.simps [simp del]

definition LEN :: "('p, 'a) table_meta \<Rightarrow> nat" where
  "LEN M = PAGE_SIZE M div pte_size M"

definition PT_LEVEL :: "('p, 'a) table_meta \<Rightarrow> nat" where
  "PT_LEVEL M = length (LEVEL_BITS M)"

definition PT_INDEX_BITS :: "('p, 'a) table_meta \<Rightarrow> nat" where
  "PT_INDEX_BITS M = sum_list (LEVEL_BITS M)"

definition PT_VALID_BITS :: "('p, 'a) table_meta \<Rightarrow> nat" where
  "PT_VALID_BITS M = PT_INDEX_BITS M + trailing_zeros (PAGE_SIZE M)"

text \<open>
  The index bits below a level.  A left shift drops the bits that leave the word; the callers have
  checked that the level is at most \<open>PT_LEVEL\<close>, so the subtraction does not underflow.
\<close>

definition level_shift :: "('p, 'a) table_meta \<Rightarrow> nat \<Rightarrow> nat" where
  "level_shift M level = sum_list (drop (length (LEVEL_BITS M) - level + 1) (LEVEL_BITS M))"

definition level_size :: "('p, 'a) table_meta \<Rightarrow> nat \<Rightarrow> nat" where
  "level_size M level =
     (if level = 1 then PAGE_SIZE M
      else push_bit (level_shift M level) (PAGE_SIZE M) mod 2 ^ 64)"

definition virt_to_index :: "('p, 'a) table_meta \<Rightarrow> nat \<Rightarrow> nat \<Rightarrow> nat option" where
  "virt_to_index M vaddr level =
     (if level = 0 \<or> level > PT_LEVEL M then None
      else
        let page_shift = trailing_zeros (PAGE_SIZE M);
            shift = (if level = 1 then page_shift else page_shift + level_shift M level);
            level_index_bits = LEVEL_BITS M ! (length (LEVEL_BITS M) - level);
            mask = 2 ^ level_index_bits - 1
        in Some (drop_bit shift vaddr AND mask))"

definition reconstruct_vaddr :: "('p, 'a) table_meta \<Rightarrow> nat \<Rightarrow> nat \<Rightarrow> nat \<Rightarrow> (unit, nat) result" where
  "reconstruct_vaddr M index level base_vaddr =
     (let entry_size = level_size M level in
      if U64_MAX < index * entry_size \<or> U64_MAX < base_vaddr + index * entry_size then Panic
      else Ok (base_vaddr + index * entry_size))"

definition frame_read :: "('p, 'a) pt_state \<Rightarrow> nat \<Rightarrow> nat \<Rightarrow> 'p option" where
  "frame_read s frame i =
     (case pt_frames s frame of
        None \<Rightarrow> None
      | Some es \<Rightarrow> if i < length es then Some (es ! i) else None)"

definition frame_write :: "nat \<Rightarrow> nat \<Rightarrow> 'p \<Rightarrow> ('p, 'a) pt_state \<Rightarrow> ('p, 'a) pt_state" where
  "frame_write frame i pte s =
     (case pt_frames s frame of
        None \<Rightarrow> s
      | Some es \<Rightarrow> s\<lparr>pt_frames := (pt_frames s)(frame \<mapsto> es[i := pte])\<rparr>)"

definition frame_new ::
  "('p, 'a) table_meta \<Rightarrow> ('p, 'a) pt_state \<Rightarrow> ('p, 'a) pt_state \<times> (paging_error, nat) result"
where
  "frame_new M s =
     (case alloc_frame M (pt_alloc s) of
        (a, Ok (Some paddr)) \<Rightarrow>
          (s\<lparr>pt_alloc := a, pt_frames := (pt_frames s)(paddr \<mapsto> replicate (LEN M) (pte_zero M))\<rparr>, Ok paddr)
      | (a, Ok None) \<Rightarrow> (s\<lparr>pt_alloc := a\<rparr>, Err NoMemory)
      | (a, Err _) \<Rightarrow> (s\<lparr>pt_alloc := a\<rparr>, Panic)
      | (a, Panic) \<Rightarrow> (s\<lparr>pt_alloc := a\<rparr>, Panic))"

definition frame_dealloc ::
  "('p, 'a) table_meta \<Rightarrow> nat \<Rightarrow> ('p, 'a) pt_state \<Rightarrow> ('p, 'a) pt_state"
where
  "frame_dealloc M frame s =
     s\<lparr>pt_alloc := dealloc_frame M frame (pt_alloc s), pt_frames := (pt_frames s)(frame := None)\<rparr>"

definition tlb_flush :: "bool \<Rightarrow> nat \<Rightarrow> ('p, 'a) pt_state \<Rightarrow> ('p, 'a) pt_state" where
  "tlb_flush flush vaddr s = (if flush then s\<lparr>pt_flushed := pt_flushed s @ [vaddr]\<rparr> else s)"

text \<open>
  \<open>deallocate_recursive\<close> and \<open>deallocate_children\<close>: the children loop runs over the indices from the
  last to the first; the recursion ends at level 1, where no entry is a table pointer.
\<close>

function deallocate_recursive ::
    "('p, 'a) table_meta \<Rightarrow> nat \<Rightarrow> nat \<Rightarrow> ('p, 'a) pt_state \<Rightarrow> ('p, 'a) pt_state \<times> (paging_error, unit) result"
  and deallocate_children ::
    "('p, 'a) table_meta \<Rightarrow> nat \<Rightarrow> nat \<Rightarrow> nat \<Rightarrow> ('p, 'a) pt_state \<Rightarrow> ('p, 'a) pt_state \<times> (paging_error, unit) result"
where
  "deallocate_recursive M frame level s =
     (case deallocate_children M frame level (LEN M) s of
        (s1, Ok _) \<Rightarrow> (frame_dealloc M frame s1, Ok ())
      | (s1, Err e) \<Rightarrow> (s1, Err e)
      | (s1, Panic) \<Rightarrow> (s1, Panic))"
| "deallocate_children M frame level 0 s = (s, Ok ())"
| "deallocate_children M frame level (Suc i) s =
     (case frame_read s frame i of
        None \<Rightarrow> (s, Panic)
      | Some pte \<Rightarrow>
          let config = to_config M pte (level > 1) in
          if \<not> pc_valid config then deallocate_children M frame level i s
          else if pc_huge config \<or> level = 1 then deallocate_children M frame level i s
          else if level = 0 then (s, Panic)
          else
            (case deallocate_recursive M (pc_paddr config) (level - 1) s of
               (s1, Ok _) \<Rightarrow>
                 deallocate_children M frame level i
                   (frame_write frame i (from_config M pte_config_default) s1)
             | (s1, Err e) \<Rightarrow> (s1, Err e)
             | (s1, Panic) \<Rightarrow> (s1, Panic)))"
  by pat_completeness auto
termination
  by (relation "inv_image (less_than <*lex*> less_than)
       (\<lambda>x. case x of Inl (M, frame, level, s) \<Rightarrow> (level, Suc (LEN M))
                    | Inr (M, frame, level, i, s) \<Rightarrow> (level, i))") auto

fun translate_recursive_with_level ::
  "('p, 'a) table_meta \<Rightarrow> ('p, 'a) pt_state \<Rightarrow> nat \<Rightarrow> nat \<Rightarrow> nat \<Rightarrow> (paging_error, 'p \<times> nat) result"
where
  "translate_recursive_with_level M s frame vaddr 0 = Panic"
| "translate_recursive_with_level M s frame vaddr (Suc l) =
     (let level = Suc l in
      case virt_to_index M vaddr level of
        None \<Rightarrow> Panic
      | Some index \<Rightarrow>
          (case frame_read s frame index of
             None \<Rightarrow> Panic
           | Some pte \<Rightarrow>
               let config = to_config M pte (level > 1) in
               if \<not> pc_valid config then Err NotMapped
               else if pc_huge config \<or> level = 1 then Ok (pte, level)
               else translate_recursive_with_level M s (pc_paddr (to_config M pte (level > 1))) vaddr l))"

definition translate_recursive ::
  "('p, 'a) table_meta \<Rightarrow> ('p, 'a) pt_state \<Rightarrow> nat \<Rightarrow> nat \<Rightarrow> nat \<Rightarrow> (paging_error, 'p) result"
where
  "translate_recursive M s frame vaddr level =
     rbind (translate_recursive_with_level M s frame vaddr level) (\<lambda>(pte, _). Ok pte)"

definition dealloc_entry_recursive ::
  "('p, 'a) table_meta \<Rightarrow> nat \<Rightarrow> nat \<Rightarrow> nat \<Rightarrow> ('p, 'a) pt_state \<Rightarrow> ('p, 'a) pt_state \<times> (paging_error, bool) result"
where
  "dealloc_entry_recursive M frame index level s =
     (if index \<ge> LEN M \<or> level \<le> 1 then (s, Ok False)
      else case frame_read s frame index of
        None \<Rightarrow> (s, Panic)
      | Some entry \<Rightarrow>
          let config = to_config M entry (level > 1) in
          if pc_valid config \<and> \<not> pc_huge config then
            (case deallocate_recursive M (pc_paddr (to_config M entry (level > 1))) (level - 1) s of
               (s1, Ok _) \<Rightarrow> (frame_write frame index (from_config M pte_config_default) s1, Ok True)
             | (s1, Err e) \<Rightarrow> (s1, Err e)
             | (s1, Panic) \<Rightarrow> (s1, Panic))
          else (s, Ok False))"

section \<open>map.rs\<close>

record map_config =
  mc_vaddr :: nat
  mc_paddr :: nat
  mc_size :: nat
  mc_pte :: pte_config
  mc_allow_huge :: bool
  mc_flush :: bool

record map_recursive_config =
  start_vaddr :: nat
  start_paddr :: nat
  end_vaddr :: nat
  cfg_level :: nat
  allow_huge :: bool
  cfg_flush :: bool
  pte_template :: pte_config

record unmap_config =
  um_start_vaddr :: nat
  um_size :: nat
  um_flush :: bool

record unmap_recursive_config =
  u_start_vaddr :: nat
  u_end_vaddr :: nat
  u_level :: nat
  u_flush :: bool

text \<open>
  One round of the loop of \<open>map_range_recursive\<close> up to the decision what to do with the entry.  The
  loop variables \<open>vaddr\<close> and \<open>paddr\<close> are the start addresses of the configuration of the next round.
\<close>

definition use_huge :: "('p, 'a) table_meta \<Rightarrow> map_recursive_config \<Rightarrow> bool" where
  "use_huge M c \<longleftrightarrow>
     allow_huge c \<and> cfg_level c > 1 \<and> cfg_level c \<le> MAX_BLOCK_LEVEL M \<and>
     level_size M (cfg_level c) \<le> end_vaddr c - start_vaddr c \<and>
     start_vaddr c mod level_size M (cfg_level c) = 0 \<and>
     start_paddr c mod level_size M (cfg_level c) = 0"

definition leaf_pte :: "('p, 'a) table_meta \<Rightarrow> map_recursive_config \<Rightarrow> bool \<Rightarrow> 'p" where
  "leaf_pte M c huge =
     from_config M ((pte_template c)
       \<lparr>pc_paddr := start_paddr c, pc_valid := True, pc_huge := huge, pc_is_dir := huge\<rparr>)"

definition table_pte :: "('p, 'a) table_meta \<Rightarrow> map_recursive_config \<Rightarrow> nat \<Rightarrow> 'p" where
  "table_pte M c new_frame_paddr =
     from_config M ((pte_template c)
       \<lparr>pc_paddr := new_frame_paddr, pc_valid := True, pc_huge := False, pc_is_dir := True\<rparr>)"

text \<open>A leaf entry is written unless the slot is taken; the TLB entry is flushed when asked for.\<close>

definition write_leaf ::
  "('p, 'a) table_meta \<Rightarrow> map_recursive_config \<Rightarrow> nat \<Rightarrow> nat \<Rightarrow> bool \<Rightarrow> ('p, 'a) pt_state \<Rightarrow>
   ('p, 'a) pt_state \<times> (paging_error, unit) result"
where
  "write_leaf M c frame index huge s =
     (case frame_read s frame index of
        None \<Rightarrow> (s, Panic)
      | Some pte_ref \<Rightarrow>
          if pte_valid M pte_ref then (s, Err (MappingConflict (start_vaddr c) (start_paddr c)))
          else (tlb_flush (cfg_flush c) (start_vaddr c) (frame_write frame index (leaf_pte M c huge) s), Ok ()))"

text \<open>The child table of an entry: the one that is linked already, or a new empty one.\<close>

definition child_frame ::
  "('p, 'a) table_meta \<Rightarrow> map_recursive_config \<Rightarrow> nat \<Rightarrow> nat \<Rightarrow> ('p, 'a) pt_state \<Rightarrow>
   ('p, 'a) pt_state \<times> (paging_error, nat) result"
where
  "child_frame M c frame index s =
     (case frame_read s frame index of
        None \<Rightarrow> (s, Panic)
      | Some current_pte \<Rightarrow>
          let current_config = to_config M current_pte True in
          if pc_valid current_config then
            if pc_huge current_config
            then (s, Err (HierarchyError ''Cannot create page table under huge page''))
            else (s, Ok (pc_paddr current_config))
          else
            and_then (frame_new M s) (\<lambda>new_frame_paddr s.
              (frame_write frame index (table_pte M c new_frame_paddr) s, Ok new_frame_paddr)))"

definition current_entry_end :: "nat \<Rightarrow> nat \<Rightarrow> nat" where
  "current_entry_end vaddr lsize = saturating_mul (saturating_add (vaddr div lsize) 1) lsize"

text \<open>
  The whole loop with its recursive calls.  A round whose level size is zero is a \<open>Panic\<close> (the
  division of the source), and so is an address that a plain addition carries past the last one.
\<close>

function map_range_recursive ::
  "('p, 'a) table_meta \<Rightarrow> nat \<Rightarrow> map_recursive_config \<Rightarrow> ('p, 'a) pt_state \<Rightarrow>
   ('p, 'a) pt_state \<times> (paging_error, unit) result"
where
  "map_range_recursive M frame c s =
     (if \<not> start_vaddr c < end_vaddr c then (s, Ok ())
      else case virt_to_index M (start_vaddr c) (cfg_level c) of
        None \<Rightarrow> (s, Panic)
      | Some index \<Rightarrow>
          let lsize = level_size M (cfg_level c) in
          if lsize = 0 then (s, Panic)
          else if use_huge M c \<or> cfg_level c = 1 then
            (case write_leaf M c frame index (use_huge M c) s of
               (s1, Ok _) \<Rightarrow>
                 if U64_MAX < start_vaddr c + lsize \<or> U64_MAX < start_paddr c + lsize then (s1, Panic)
                 else map_range_recursive M frame
                   (c\<lparr>start_vaddr := start_vaddr c + lsize, start_paddr := start_paddr c + lsize\<rparr>) s1
             | (s1, Err e) \<Rightarrow> (s1, Err e)
             | (s1, Panic) \<Rightarrow> (s1, Panic))
          else
            (case child_frame M c frame index s of
               (s1, Ok child) \<Rightarrow>
                 let next_level_vaddr = min (current_entry_end (start_vaddr c) lsize) (end_vaddr c);
                     mapped_size = next_level_vaddr - start_vaddr c
                 in if \<not> start_vaddr c < next_level_vaddr then (s1, Panic)
                    else
                      (case map_range_recursive M child
                              (c\<lparr>end_vaddr := next_level_vaddr, cfg_level := cfg_level c - 1\<rparr>) s1 of
                         (s2, Ok _) \<Rightarrow>
                           if U64_MAX < start_paddr c + mapped_size then (s2, Panic)
                           else map_range_recursive M frame
                             (c\<lparr>start_vaddr := next_level_vaddr, start_paddr := start_paddr c + mapped_size\<rparr>) s2
                       | (s2, Err e) \<Rightarrow> (s2, Err e)
                       | (s2, Panic) \<Rightarrow> (s2, Panic))
             | (s1, Err e) \<Rightarrow> (s1, Err e)
             | (s1, Panic) \<Rightarrow> (s1, Panic)))"
  by pat_completeness auto
termination
proof (relation "inv_image (less_than <*lex*> less_than)
    (\<lambda>(M, frame, c, s). (cfg_level c, end_vaddr c - start_vaddr c))", goal_cases)
  case (3 M frame c s index)
  then have "cfg_level c \<noteq> 0" by (auto simp: virt_to_index_def split: if_splits)
  then show ?case by simp
qed auto

declare map_range_recursive.simps [simp del]

text \<open>
  A round that made no progress would repeat forever; the guard makes it a \<open>Panic\<close>, and it never
  happens for addresses of the machine.
\<close>

lemma map_progress:
  assumes "0 < lsize" "v < e" "e \<le> U64_MAX"
  shows "v < min (current_entry_end v lsize) e"
proof -
  have "v < (v div lsize + 1) * lsize" using align_down_gt [OF assms(1), of v] by simp
  moreover have "v div lsize + 1 \<le> U64_MAX"
    using assms(2,3) div_le_dividend [of v lsize] by linarith
  ultimately show ?thesis using assms
    by (auto simp: current_entry_end_def saturating_mul_def saturating_add_def)
qed

text \<open>\<open>is_frame_empty\<close> reads every entry as a leaf entry, at every level.\<close>

definition is_frame_empty ::
  "('p, 'a) table_meta \<Rightarrow> nat \<Rightarrow> ('p, 'a) pt_state \<Rightarrow> (paging_error, bool) result"
where
  "is_frame_empty M frame s =
     (case pt_frames s frame of
        None \<Rightarrow> Panic
      | Some es \<Rightarrow> Ok (list_all (\<lambda>pte. \<not> pc_valid (to_config M pte False)) es))"

function unmap_range_recursive ::
  "('p, 'a) table_meta \<Rightarrow> nat \<Rightarrow> unmap_recursive_config \<Rightarrow> bool \<Rightarrow> ('p, 'a) pt_state \<Rightarrow>
   ('p, 'a) pt_state \<times> (paging_error, bool) result"
where
  "unmap_range_recursive M frame c can_reclaim s =
     (if \<not> u_start_vaddr c < u_end_vaddr c
      then (s, if can_reclaim then is_frame_empty M frame s else Ok can_reclaim)
      else case virt_to_index M (u_start_vaddr c) (u_level c) of
        None \<Rightarrow> (s, Panic)
      | Some index \<Rightarrow>
          let lsize = level_size M (u_level c);
              remaining_size = u_end_vaddr c - u_start_vaddr c
          in
          (case frame_read s frame index of
             None \<Rightarrow> (s, Panic)
           | Some pte_ref \<Rightarrow>
               let config = to_config M pte_ref (u_level c > 1) in
               if lsize = 0 \<or> PAGE_SIZE M = 0 then (s, Panic)
               else if \<not> pc_valid config then
                 unmap_range_recursive M frame
                   (c\<lparr>u_start_vaddr := u_start_vaddr c + min lsize remaining_size\<rparr>) can_reclaim s
               else if u_level c = 1 \<or> pc_huge config then
                 (let s1 = tlb_flush (u_flush c) (u_start_vaddr c)
                             (frame_write frame index (from_config M pte_config_default) s);
                      step = (if pc_huge config then lsize else PAGE_SIZE M)
                  in if U64_MAX < u_start_vaddr c + step then (s1, Panic)
                     else unmap_range_recursive M frame
                       (c\<lparr>u_start_vaddr := u_start_vaddr c + step\<rparr>) can_reclaim s1)
               else
                 (let child_paddr = pc_paddr config;
                      entry_end = (u_start_vaddr c div lsize + 1) * lsize
                  in if U64_MAX < entry_end then (s, Panic)
                     else
                       (let next_level_vaddr = min entry_end (u_end_vaddr c) in
                        case unmap_range_recursive M child_paddr
                               (c\<lparr>u_end_vaddr := next_level_vaddr, u_level := u_level c - 1\<rparr>) True s of
                          (s1, Ok child_can_reclaim) \<Rightarrow>
                            unmap_range_recursive M frame (c\<lparr>u_start_vaddr := next_level_vaddr\<rparr>)
                              (can_reclaim \<and> child_can_reclaim)
                              (if child_can_reclaim
                               then frame_dealloc M child_paddr
                                      (frame_write frame index (from_config M pte_config_default) s1)
                               else s1)
                        | (s1, Err e) \<Rightarrow> (s1, Err e)
                        | (s1, Panic) \<Rightarrow> (s1, Panic)))))"
  by pat_completeness auto
termination
proof (relation "inv_image (less_than <*lex*> less_than)
    (\<lambda>(M, frame, c, b, s). (u_level c, u_end_vaddr c - u_start_vaddr c))", goal_cases)
  case (4 M frame c b s index lsize)
  then have "u_level c \<noteq> 0" by (auto simp: virt_to_index_def split: if_splits)
  then show ?case by simp
next
  case (5 M frame c b s index lsize)
  then have "0 < lsize" "u_start_vaddr c < u_end_vaddr c" by auto
  then have "u_start_vaddr c < min ((u_start_vaddr c div lsize + 1) * lsize) (u_end_vaddr c)"
    using align_down_gt [of lsize "u_start_vaddr c"] by simp
  with 5 show ?case by auto
qed auto

declare unmap_range_recursive.simps [simp del]

section \<open>table.rs\<close>

definition pt_new ::
  "('p, 'a) table_meta \<Rightarrow> ('p, 'a) pt_state \<Rightarrow> ('p, 'a) pt_state \<times> (paging_error, nat) result"
where
  "pt_new M s = frame_new M s"

definition validate_map_config :: "('p, 'a) table_meta \<Rightarrow> map_config \<Rightarrow> (paging_error, unit) result" where
  "validate_map_config M c =
     (if mc_size c = 0 then Err (InvalidSize ''Size cannot be zero'')
      else if mc_vaddr c mod PAGE_SIZE M \<noteq> 0
      then Err (AlignmentError ''Virtual address not page aligned'')
      else if mc_paddr c mod PAGE_SIZE M \<noteq> 0
      then Err (AlignmentError ''Physical address not page aligned'')
      else Ok ())"

definition pt_map ::
  "('p, 'a) table_meta \<Rightarrow> nat \<Rightarrow> map_config \<Rightarrow> ('p, 'a) pt_state \<Rightarrow> ('p, 'a) pt_state \<times> (paging_error, unit) result"
where
  "pt_map M root c s =
     and_then (s, validate_map_config M c) (\<lambda>_ s.
       if checked_add (mc_vaddr c) (mc_size c) = None \<or> checked_add (mc_paddr c) (mc_size c) = None
       then (s, Err (AddressOverflow ''Virtual or physical address overflow''))
       else
         map_range_recursive M root
           \<lparr>start_vaddr = mc_vaddr c, start_paddr = mc_paddr c, end_vaddr = mc_vaddr c + mc_size c,
            cfg_level = PT_LEVEL M, allow_huge = mc_allow_huge c, cfg_flush = mc_flush c,
            pte_template = mc_pte c\<rparr> s)"

definition validate_unmap_params ::
  "('p, 'a) table_meta \<Rightarrow> nat \<Rightarrow> nat \<Rightarrow> (paging_error, unit) result"
where
  "validate_unmap_params M start sz =
     (if sz = 0 then Err (InvalidSize ''Size cannot be zero in unmap'')
      else if start mod PAGE_SIZE M \<noteq> 0
      then Err (AlignmentError ''Start virtual address not page aligned in unmap'')
      else if sz mod PAGE_SIZE M \<noteq> 0 then Err (AlignmentError ''Size not page aligned in unmap'')
      else Ok ())"

definition pt_unmap_with_config ::
  "('p, 'a) table_meta \<Rightarrow> nat \<Rightarrow> unmap_config \<Rightarrow> ('p, 'a) pt_state \<Rightarrow> ('p, 'a) pt_state \<times> (paging_error, unit) result"
where
  "pt_unmap_with_config M root c s =
     and_then (s, validate_unmap_params M (um_start_vaddr c) (um_size c)) (\<lambda>_ s.
       case checked_add (um_start_vaddr c) (um_size c) of
         None \<Rightarrow> (s, Err (AddressOverflow ''Virtual address overflow in unmap_with_config''))
       | Some e \<Rightarrow>
           and_then (unmap_range_recursive M root
               \<lparr>u_start_vaddr = um_start_vaddr c, u_end_vaddr = e, u_level = PT_LEVEL M, u_flush = um_flush c\<rparr>
               True s) (\<lambda>_ s. (s, Ok ())))"

definition pt_unmap ::
  "('p, 'a) table_meta \<Rightarrow> nat \<Rightarrow> nat \<Rightarrow> nat \<Rightarrow> ('p, 'a) pt_state \<Rightarrow> ('p, 'a) pt_state \<times> (paging_error, unit) result"
where
  "pt_unmap M root start sz s =
     and_then (s, validate_unmap_params M start sz) (\<lambda>_ s.
       case checked_add start sz of
         None \<Rightarrow> (s, Err (AddressOverflow ''Virtual address overflow in unmap''))
       | Some e \<Rightarrow>
           and_then (unmap_range_recursive M root
               \<lparr>u_start_vaddr = start, u_end_vaddr = e, u_level = PT_LEVEL M, u_flush = True\<rparr>
               True s) (\<lambda>_ s. (s, Ok ())))"

definition pt_deallocate ::
  "('p, 'a) table_meta \<Rightarrow> nat \<Rightarrow> ('p, 'a) pt_state \<Rightarrow> ('p, 'a) pt_state \<times> (paging_error, unit) result"
where
  "pt_deallocate M root s = deallocate_recursive M root (PT_LEVEL M) s"

definition deallocate_range :: "nat \<Rightarrow> nat \<Rightarrow> (paging_error, unit) result" where
  "deallocate_range start e =
     (if start \<ge> e then Err (InvalidRange ''Start address must be less than end address'') else Ok ())"

definition translate ::
  "('p, 'a) table_meta \<Rightarrow> ('p, 'a) pt_state \<Rightarrow> nat \<Rightarrow> nat \<Rightarrow> (paging_error, nat \<times> 'p) result"
where
  "translate M s root vaddr =
     rbind (translate_recursive_with_level M s root vaddr (PT_LEVEL M)) (\<lambda>(pte, level).
       let config = to_config M pte (level > 1);
           offset_in_page = (if pc_huge config then vaddr mod level_size M level else vaddr mod PAGE_SIZE M)
       in if U64_MAX < pc_paddr config + offset_in_page then Panic
          else Ok (pc_paddr config + offset_in_page, pte))"

definition translate_phys ::
  "('p, 'a) table_meta \<Rightarrow> ('p, 'a) pt_state \<Rightarrow> nat \<Rightarrow> nat \<Rightarrow> (paging_error, nat) result"
where
  "translate_phys M s root vaddr = rbind (translate M s root vaddr) (\<lambda>(p, _). Ok p)"

definition is_mapped :: "('p, 'a) table_meta \<Rightarrow> ('p, 'a) pt_state \<Rightarrow> nat \<Rightarrow> nat \<Rightarrow> bool" where
  "is_mapped M s root vaddr = is_ok (translate M s root vaddr)"

section \<open>walk.rs\<close>

record 'p pte_info =
  pi_level :: nat
  pi_vaddr :: nat
  pi_is_final_mapping :: bool
  pi_pte :: 'p

record walk_state =
  ws_frame :: nat
  ws_level :: nat
  ws_index :: nat
  ws_base_vaddr :: nat

text \<open>
  The top of the stack is the head of the list.  When the stack of \<open>MAX_WALK_DEPTH\<close> elements is full,
  \<open>push\<close> fails and its result is dropped; the capacity check belongs to \<open>heapless\<close> and is the
  argument \<open>full\<close>.
\<close>

record page_table_walker =
  w_start_vaddr :: nat
  w_end_vaddr :: nat
  w_stack :: "walk_state list"
  w_finished :: bool

definition walker_push :: "(walk_state list \<Rightarrow> bool) \<Rightarrow> walk_state \<Rightarrow> page_table_walker \<Rightarrow> page_table_walker" where
  "walker_push full st w = (if full (w_stack w) then w else w\<lparr>w_stack := st # w_stack w\<rparr>)"

definition walker_new ::
  "('p, 'a) table_meta \<Rightarrow> (walk_state list \<Rightarrow> bool) \<Rightarrow> nat \<Rightarrow> nat \<Rightarrow> nat \<Rightarrow> page_table_walker"
where
  "walker_new M full root start e =
     (let w = \<lparr>w_start_vaddr = start, w_end_vaddr = e, w_stack = [], w_finished = False\<rparr> in
      if start < e
      then walker_push full \<lparr>ws_frame = root, ws_level = PT_LEVEL M, ws_index = 0, ws_base_vaddr = 0\<rparr> w
      else w\<lparr>w_finished := True\<rparr>)"

definition walk_fuel :: "('p, 'a) table_meta \<Rightarrow> page_table_walker \<Rightarrow> nat" where
  "walk_fuel M w = sum_list (map (\<lambda>st. Suc (LEN M - ws_index st)) (w_stack w))"

function find_next_entry ::
  "('p, 'a) table_meta \<Rightarrow> (walk_state list \<Rightarrow> bool) \<Rightarrow> ('p, 'a) pt_state \<Rightarrow> page_table_walker \<Rightarrow>
   page_table_walker \<times> (unit, 'p pte_info option) result"
where
  "find_next_entry M full s w =
     (if w_finished w then (w, Ok None)
      else case w_stack w of
        [] \<Rightarrow> (w\<lparr>w_finished := True\<rparr>, Ok None)
      | st # rest \<Rightarrow>
          if ws_index st \<ge> LEN M then find_next_entry M full s (w\<lparr>w_stack := rest\<rparr>)
          else
            (case frame_read s (ws_frame st) (ws_index st) of
               None \<Rightarrow> (w, Panic)
             | Some pte \<Rightarrow>
                 let w1 = w\<lparr>w_stack := st\<lparr>ws_index := ws_index st + 1\<rparr> # rest\<rparr> in
                 (case reconstruct_vaddr M (ws_index st) (ws_level st) (ws_base_vaddr st) of
                    Ok current_vaddr \<Rightarrow>
                      if current_vaddr < w_start_vaddr w then find_next_entry M full s w1
                      else if current_vaddr \<ge> w_end_vaddr w then (w1\<lparr>w_finished := True\<rparr>, Ok None)
                      else
                        let config = to_config M pte (ws_level st > 1);
                            info = \<lparr>pi_level = ws_level st, pi_vaddr = current_vaddr,
                                    pi_is_final_mapping =
                                      (pc_valid config \<and> (pc_huge config \<or> ws_level st = 1)),
                                    pi_pte = pte\<rparr>
                        in if pc_valid config \<and> \<not> pc_huge config \<and> ws_level st > 1
                           then (walker_push full
                                   \<lparr>ws_frame = pc_paddr config, ws_level = ws_level st - 1,
                                    ws_index = 0, ws_base_vaddr = current_vaddr\<rparr> w1, Ok (Some info))
                           else (w1, Ok (Some info))
                  | _ \<Rightarrow> (w1, Panic))))"
  by pat_completeness auto
termination
  by (relation "measure (\<lambda>(M, full, s, w). walk_fuel M w)") (auto simp: walk_fuel_def)

declare find_next_entry.simps [simp del]

end
