(* ===== verification/Page_Table_Tree.thy ===== *)
theory Page_Table_Tree
  imports Page_Table
begin

text \<open>
  The page table as a tree.  The tables reachable from a frame form a tree (\<open>table_wf\<close>: the frames of
  two entries never overlap and none of them is the frame itself), and a table depends on its own
  frames only.  What the proofs about the operations need of an entry format and of a frame allocator
  are the locales \<open>pte_laws\<close> and \<open>frame_allocator_laws\<close>.
\<close>

section \<open>The tree of table frames\<close>

text \<open>The table to which entry \<open>i\<close> of the frame points, when the frame is a table of level \<open>l + 1\<close>.\<close>

definition entry_child ::
  "('p, 'a) table_meta \<Rightarrow> (nat \<Rightarrow> 'p list option) \<Rightarrow> nat \<Rightarrow> nat \<Rightarrow> nat \<Rightarrow> nat option"
where
  "entry_child M fr l frame i =
     (case fr frame of
        None \<Rightarrow> None
      | Some es \<Rightarrow>
          if l = 0 then None
          else let c = to_config M (es ! i) True in
               if pc_valid c \<and> \<not> pc_huge c then Some (pc_paddr c) else None)"

fun table_frames ::
  "('p, 'a) table_meta \<Rightarrow> (nat \<Rightarrow> 'p list option) \<Rightarrow> nat \<Rightarrow> nat \<Rightarrow> nat set"
where
  "table_frames M fr 0 frame = {}"
| "table_frames M fr (Suc l) frame =
     insert frame (\<Union>i < LEN M. case entry_child M fr l frame i of
                                 None \<Rightarrow> {} | Some c \<Rightarrow> table_frames M fr l c)"

fun table_wf :: "('p, 'a) table_meta \<Rightarrow> (nat \<Rightarrow> 'p list option) \<Rightarrow> nat \<Rightarrow> nat \<Rightarrow> bool" where
  "table_wf M fr 0 frame = False"
| "table_wf M fr (Suc l) frame \<longleftrightarrow>
     (case fr frame of None \<Rightarrow> False | Some es \<Rightarrow> length es = LEN M) \<and>
     (\<forall>i < LEN M. case entry_child M fr l frame i of
                    None \<Rightarrow> True
                  | Some c \<Rightarrow> table_wf M fr l c \<and> frame \<notin> table_frames M fr l c) \<and>
     (\<forall>i < LEN M. \<forall>j < i. case (entry_child M fr l frame i, entry_child M fr l frame j) of
                    (Some c, Some d) \<Rightarrow> table_frames M fr l c \<inter> table_frames M fr l d = {}
                  | _ \<Rightarrow> True)"

lemma table_wf_frame:
  assumes "table_wf M fr (Suc l) f"
  obtains es where "fr f = Some es" "length es = LEN M"
  using assms by (auto split: option.splits)

lemma child_frames_subset:
  assumes "i < LEN M" "entry_child M fr l f i = Some c"
  shows "table_frames M fr l c \<subseteq> table_frames M fr (Suc l) f"
proof -
  have "table_frames M fr l c = (case entry_child M fr l f i of None \<Rightarrow> {} | Some c \<Rightarrow> table_frames M fr l c)"
    using assms(2) by simp
  also have "\<dots> \<subseteq> table_frames M fr (Suc l) f" unfolding table_frames.simps using assms(1) by blast
  finally show ?thesis .
qed

lemma in_table_frames_cases:
  assumes "g \<in> table_frames M fr (Suc l) f"
  obtains "g = f" | i c where "i < LEN M" "entry_child M fr l f i = Some c" "g \<in> table_frames M fr l c"
  using assms by (auto split: option.splits)

lemma table_wf_child:
  assumes "table_wf M fr (Suc l) f" "i < LEN M" "entry_child M fr l f i = Some c"
  shows "table_wf M fr l c" "f \<notin> table_frames M fr l c" "table_frames M fr l c \<subseteq> table_frames M fr (Suc l) f"
proof -
  have "case entry_child M fr l f i of None \<Rightarrow> True
        | Some c \<Rightarrow> table_wf M fr l c \<and> f \<notin> table_frames M fr l c"
    using assms(1,2) unfolding table_wf.simps by blast
  then show "table_wf M fr l c" "f \<notin> table_frames M fr l c" using assms(3) by simp_all
  show "table_frames M fr l c \<subseteq> table_frames M fr (Suc l) f" using assms(2,3) by (rule child_frames_subset)
qed

lemma table_wf_siblings:
  assumes "table_wf M fr (Suc l) f" "i < LEN M" "j < LEN M" "i \<noteq> j"
    and "entry_child M fr l f i = Some c" "entry_child M fr l f j = Some d"
  shows "table_frames M fr l c \<inter> table_frames M fr l d = {}"
proof -
  have *: "table_frames M fr l c \<inter> table_frames M fr l d = {}"
    if "i < LEN M" "j < i" "entry_child M fr l f i = Some c" "entry_child M fr l f j = Some d" for i j c d
  proof -
    have "case (entry_child M fr l f i, entry_child M fr l f j) of
        (Some c, Some d) \<Rightarrow> table_frames M fr l c \<inter> table_frames M fr l d = {} | _ \<Rightarrow> True"
      using assms(1) that(1,2) unfolding table_wf.simps by blast
    then show ?thesis using that(3,4) by simp
  qed
  show ?thesis using * [of i j c d] * [of j i d c] assms(2-) by (cases "j < i") auto
qed

lemma table_wfI:
  assumes "fr f = Some es" "length es = LEN M"
    and "\<And>i c. i < LEN M \<Longrightarrow> entry_child M fr l f i = Some c \<Longrightarrow> table_wf M fr l c \<and> f \<notin> table_frames M fr l c"
    and "\<And>i j c d. i < LEN M \<Longrightarrow> j < LEN M \<Longrightarrow> i \<noteq> j \<Longrightarrow> entry_child M fr l f i = Some c \<Longrightarrow>
           entry_child M fr l f j = Some d \<Longrightarrow> table_frames M fr l c \<inter> table_frames M fr l d = {}"
  shows "table_wf M fr (Suc l) f"
proof -
  have "case entry_child M fr l f i of None \<Rightarrow> True
        | Some c \<Rightarrow> table_wf M fr l c \<and> f \<notin> table_frames M fr l c" if "i < LEN M" for i
    using assms(3) [OF that] by (cases "entry_child M fr l f i") auto
  moreover have "case (entry_child M fr l f i, entry_child M fr l f j) of
        (Some c, Some d) \<Rightarrow> table_frames M fr l c \<inter> table_frames M fr l d = {} | _ \<Rightarrow> True"
    if "i < LEN M" "j < i" for i j
    using assms(4) [of i j] that by (cases "entry_child M fr l f i"; cases "entry_child M fr l f j") auto
  ultimately show ?thesis using assms(1,2) by simp
qed

lemma entry_child_cong: "fr' f = fr f \<Longrightarrow> entry_child M fr' l f i = entry_child M fr l f i"
  by (simp add: entry_child_def)

lemma in_table_frames: "0 < l \<Longrightarrow> f \<in> table_frames M fr l f"
  by (cases l) auto

text \<open>A table depends on its own frames only.\<close>

lemma table_frames_local:
  assumes "\<And>g. g \<in> table_frames M fr l f \<Longrightarrow> fr' g = fr g"
  shows "table_frames M fr' l f = table_frames M fr l f"
  using assms
proof (induction l arbitrary: f)
  case (Suc l)
  have c: "entry_child M fr' l f i = entry_child M fr l f i" for i
    by (rule entry_child_cong, rule Suc.prems) simp
  have ch: "table_frames M fr' l c = table_frames M fr l c"
    if "i < LEN M" "entry_child M fr l f i = Some c" for i c
    using child_frames_subset [OF that] by (intro Suc.IH Suc.prems) blast
  then have "(case entry_child M fr l f i of None \<Rightarrow> {} | Some c \<Rightarrow> table_frames M fr' l c) =
      (case entry_child M fr l f i of None \<Rightarrow> {} | Some c \<Rightarrow> table_frames M fr l c)" if "i < LEN M" for i
    using ch [OF that] by (cases "entry_child M fr l f i") simp_all
  then show ?case unfolding table_frames.simps c by (intro arg_cong [of _ _ "insert f"] SUP_cong) auto
qed simp

lemma table_wf_local:
  assumes "\<And>g. g \<in> table_frames M fr l f \<Longrightarrow> fr' g = fr g" "table_wf M fr l f"
  shows "table_wf M fr' l f"
  using assms
proof (induction l arbitrary: f)
  case (Suc l)
  have f: "fr' f = fr f" using Suc.prems(1) [of f] by simp
  have ch: "entry_child M fr' l f i = entry_child M fr l f i" for i
    using f by (rule entry_child_cong)
  have sub: "fr' g = fr g" if "i < LEN M" "entry_child M fr l f i = Some c" "g \<in> table_frames M fr l c" for i c g
    using Suc.prems(1) table_wf_child(3) [OF Suc.prems(2) that(1,2)] that(3) by blast
  have eq: "table_frames M fr' l c = table_frames M fr l c" if "i < LEN M" "entry_child M fr l f i = Some c" for i c
    using sub [OF that] by (rule table_frames_local)
  obtain es where es: "fr f = Some es" "length es = LEN M" using table_wf_frame [OF Suc.prems(2)] .
  show ?case
  proof (rule table_wfI)
    show "fr' f = Some es" "length es = LEN M" using es f by simp_all
    show "table_wf M fr' l c \<and> f \<notin> table_frames M fr' l c" if "i < LEN M" "entry_child M fr' l f i = Some c" for i c
      using Suc.IH [of c] sub [of i c] table_wf_child [OF Suc.prems(2), of i c] that eq [of i c] by (simp add: ch)
    show "table_frames M fr' l c \<inter> table_frames M fr' l d = {}"
      if "i < LEN M" "j < LEN M" "i \<noteq> j" "entry_child M fr' l f i = Some c" "entry_child M fr' l f j = Some d" for i j c d
      using table_wf_siblings [OF Suc.prems(2) that(1-3)] that(4,5) eq [of i c] eq [of j d] that(1,2) by (simp add: ch)
  qed
qed simp

section \<open>Address arithmetic\<close>

text \<open>The bytes that one frame of level \<open>l\<close> covers, and the entries it uses.\<close>

definition span :: "('p, 'a) table_meta \<Rightarrow> nat \<Rightarrow> nat" where
  "span M l = PAGE_SIZE M * 2 ^ sum_list (drop (PT_LEVEL M - l) (LEVEL_BITS M))"

definition width :: "('p, 'a) table_meta \<Rightarrow> nat \<Rightarrow> nat" where
  "width M l = 2 ^ (LEVEL_BITS M ! (PT_LEVEL M - Suc l))"

definition index_of :: "('p, 'a) table_meta \<Rightarrow> nat \<Rightarrow> nat \<Rightarrow> nat" where
  "index_of M l x = (x div span M l) mod width M l"

lemma trailing_zeros_pow2 [simp]: "trailing_zeros (2 ^ k) = k"
  by (induction k) (simp_all add: trailing_zeros.simps)

text \<open>Two addresses in the same span have the same entry, and the other way round.\<close>

lemma index_of_eq_iff:
  assumes "x div (span M l * width M l) = y div (span M l * width M l)"
  shows "index_of M l x = index_of M l y \<longleftrightarrow> x div span M l = y div span M l"
proof -
  have w: "z div span M l = z div (span M l * width M l) * width M l + index_of M l z" for z
    using div_mult_mod_eq [of "z div span M l" "width M l"]
    by (simp add: index_of_def div_mult2_eq)
  show ?thesis using w [of x] w [of y] assms by auto
qed

lemma same_span_iff:
  assumes "0 < (n::nat)" "n dvd v"
  shows "x div n = v div n \<longleftrightarrow> v \<le> x \<and> x < v + n"
proof -
  from assms(2) have v: "(v div n) * n = v" by simp
  show ?thesis
  proof
    assume "x div n = v div n"
    with v align_down_le [of x n] align_down_gt [OF assms(1), of x] show "v \<le> x \<and> x < v + n" by simp
  next
    assume "v \<le> x \<and> x < v + n"
    with v show "x div n = v div n" by (intro mult_between_unique) simp_all
  qed
qed

section \<open>What the proofs need of entries and frames\<close>

text \<open>
  The shape of a table: pages and entries are powers of two, a frame has room for every index, and the
  covered addresses fit a machine word.
\<close>

definition meta_wf :: "('p, 'a) table_meta \<Rightarrow> bool" where
  "meta_wf M \<longleftrightarrow>
     is_power_of_two (PAGE_SIZE M) \<and> 0 < PT_LEVEL M \<and>
     (\<forall>b \<in> set (LEVEL_BITS M). 2 ^ b \<le> LEN M) \<and> span M (PT_LEVEL M) \<le> U64_MAX"

text \<open>
  An entry format keeps validity, the huge flag of directory entries and every address that it can
  represent, however the entry is read; a zeroed entry is invalid and a leaf is never huge.
\<close>

locale pte_laws =
  fixes M :: "('p, 'a) table_meta"
    and addr_ok :: "nat \<Rightarrow> bool"
  assumes shape: "meta_wf M"
    and valid_from: "pc_valid (to_config M (from_config M c) d) \<longleftrightarrow> pc_valid c"
    and pte_valid_iff: "pte_valid M p \<longleftrightarrow> pc_valid (to_config M p d)"
    and paddr_from: "addr_ok (pc_paddr c) \<Longrightarrow> pc_paddr (to_config M (from_config M c) d) = pc_paddr c"
    and huge_from: "pc_huge (to_config M (from_config M c) True) \<longleftrightarrow> pc_huge c \<and> pc_is_dir c"
    and huge_leaf: "\<not> pc_huge (to_config M p False)"
    and zero_invalid: "\<not> pc_valid (to_config M (pte_zero M) d)"

text \<open>
  A frame allocator never panics and hands out frames that nobody owns; a frame stays owned until it is
  given back.
\<close>

locale frame_allocator_laws =
  fixes M :: "('p, 'a) table_meta"
    and addr_ok :: "nat \<Rightarrow> bool"
    and owned :: "'a \<Rightarrow> nat set"
    and alloc_inv :: "'a \<Rightarrow> bool"
  assumes alloc_fresh: "alloc_inv a \<Longrightarrow> alloc_frame M a = (a', Ok (Some f)) \<Longrightarrow>
        alloc_inv a' \<and> addr_ok f \<and> f \<notin> owned a \<and> insert f (owned a) \<subseteq> owned a'"
    and alloc_none: "alloc_inv a \<Longrightarrow> alloc_frame M a = (a', Ok None) \<Longrightarrow>
        alloc_inv a' \<and> owned a \<subseteq> owned a'"
    and alloc_returns: "alloc_inv a \<Longrightarrow> \<exists>a' r. alloc_frame M a = (a', Ok r)"
    and dealloc_keeps: "alloc_inv a \<Longrightarrow>
        alloc_inv (dealloc_frame M f a) \<and> owned a - {f} \<subseteq> owned (dealloc_frame M f a) \<and>
        owned (dealloc_frame M f a) \<subseteq> owned a"

locale page_table_laws = pte_laws M addr_ok + frame_allocator_laws M addr_ok owned alloc_inv
  for M :: "('p, 'a) table_meta" and addr_ok owned alloc_inv

context pte_laws
begin

lemma page_size_pow2: obtains k where "PAGE_SIZE M = 2 ^ k"
  using shape by (auto simp: meta_wf_def is_power_of_two_iff)

lemma page_pos [simp]: "0 < PAGE_SIZE M"
  using shape by (auto simp: meta_wf_def is_power_of_two_iff)

lemma span_pos [simp]: "0 < span M l"
  by (simp add: span_def)

lemma span_neq_0 [simp]: "span M l \<noteq> 0"
  using span_pos [of l] by linarith

lemma span_0 [simp]: "span M 0 = PAGE_SIZE M"
  by (simp add: span_def PT_LEVEL_def)

lemma span_Suc:
  assumes "Suc l \<le> PT_LEVEL M"
  shows "span M (Suc l) = span M l * width M l"
proof -
  have "drop (PT_LEVEL M - Suc l) (LEVEL_BITS M) =
      LEVEL_BITS M ! (PT_LEVEL M - Suc l) # drop (PT_LEVEL M - l) (LEVEL_BITS M)"
    using assms by (metis Cons_nth_drop_Suc PT_LEVEL_def Suc_diff_Suc Suc_le_lessD diff_less zero_less_Suc less_le_trans)
  then show ?thesis by (simp add: span_def width_def power_add)
qed

lemma span_mono:
  assumes "l \<le> k" "k \<le> PT_LEVEL M"
  shows "span M l dvd span M k"
  using assms by (induction k) (auto simp: le_Suc_eq span_Suc)

lemma page_dvd_span: "l \<le> PT_LEVEL M \<Longrightarrow> PAGE_SIZE M dvd span M l"
  using span_mono [of 0 l] by simp

lemma span_bound: "l \<le> PT_LEVEL M \<Longrightarrow> span M l \<le> U64_MAX"
  using span_mono [of l "PT_LEVEL M"] shape span_pos
  by (meson meta_wf_def dvd_imp_le le_refl le_trans)

lemma level_size_span:
  assumes "Suc l \<le> PT_LEVEL M"
  shows "level_size M (Suc l) = span M l"
proof (cases "l = 0")
  case False
  have "PT_LEVEL M - Suc l + 1 = PT_LEVEL M - l" using assms by simp
  then have "push_bit (level_shift M (Suc l)) (PAGE_SIZE M) = span M l"
    unfolding level_shift_def span_def push_bit_eq_mult PT_LEVEL_def by simp
  moreover have "span M l < 2 ^ 64" using span_bound [of l] assms by (simp add: U64_MAX_def)
  ultimately show ?thesis using False by (simp add: level_size_def)
qed (simp add: level_size_def)

lemma width_le: "Suc l \<le> PT_LEVEL M \<Longrightarrow> width M l \<le> LEN M"
  using shape unfolding meta_wf_def width_def PT_LEVEL_def by simp

lemma index_bound:
  assumes "Suc l \<le> PT_LEVEL M"
  shows "index_of M l x < LEN M"
proof -
  have "index_of M l x < width M l" by (simp add: index_of_def width_def)
  with width_le [OF assms] show ?thesis by linarith
qed

lemma virt_to_index_of:
  assumes "Suc l \<le> PT_LEVEL M"
  shows "virt_to_index M x (Suc l) = Some (index_of M l x)"
proof -
  obtain k where k: "PAGE_SIZE M = 2 ^ k" by (rule page_size_pow2)
  let ?sh = "if Suc l = 1 then k else k + level_shift M (Suc l)"
  have "PT_LEVEL M - Suc l + 1 = PT_LEVEL M - l" using assms by simp
  then have "(2::nat) ^ ?sh = span M l"
    by (cases "l = 0") (simp_all add: k span_def PT_LEVEL_def level_shift_def power_add)
  then have "drop_bit ?sh x AND (2 ^ b - 1) = (x div span M l) mod 2 ^ b" for b
    using take_bit_eq_mask [of b "x div span M l"] mask_eq_exp_minus_1 [of b, where 'a = nat]
    unfolding drop_bit_eq_div by (simp add: take_bit_eq_mod)
  then show ?thesis
    using assms k by (simp add: virt_to_index_def index_of_def width_def PT_LEVEL_def Let_def)
qed

text \<open>Translation by cases on the entry.\<close>

lemma translate_unfold:
  assumes "Suc l \<le> PT_LEVEL M" "pt_frames s f = Some es" "length es = LEN M"
  shows "translate_recursive_with_level M s f x (Suc l) =
     (let pte = es ! index_of M l x; c = to_config M pte (0 < l) in
      if \<not> pc_valid c then Err NotMapped
      else if pc_huge c \<or> l = 0 then Ok (pte, Suc l)
      else translate_recursive_with_level M s (pc_paddr c) x l)"
proof -
  have "frame_read s f (index_of M l x) = Some (es ! index_of M l x)"
    using index_bound [OF assms(1), of x] assms(2,3) by (simp add: frame_read_def)
  then show ?thesis
    unfolding translate_recursive_with_level.simps virt_to_index_of [OF assms(1)] Let_def by (cases l) auto
qed

lemma translate_child:
  assumes "Suc l \<le> PT_LEVEL M" "table_wf M (pt_frames s) (Suc l) f"
    and "entry_child M (pt_frames s) l f (index_of M l x) = Some c"
  shows "translate_recursive_with_level M s f x (Suc l) = translate_recursive_with_level M s c x l"
proof -
  obtain es where es: "pt_frames s f = Some es" "length es = LEN M" using table_wf_frame [OF assms(2)] .
  then show ?thesis using assms(3) unfolding translate_unfold [OF assms(1) es]
    by (auto simp: entry_child_def Let_def split: if_splits)
qed

lemma translate_no_child:
  assumes "Suc l \<le> PT_LEVEL M" "pt_frames s f = Some es" "length es = LEN M"
    and "pt_frames s' f = Some es'" "length es' = LEN M" "es' ! index_of M l x = es ! index_of M l x"
    and "entry_child M (pt_frames s) l f (index_of M l x) = None"
  shows "translate_recursive_with_level M s' f x (Suc l) = translate_recursive_with_level M s f x (Suc l)"
  using assms(6,7) assms(2) unfolding translate_unfold [OF assms(1-3)] translate_unfold [OF assms(1,4,5)]
  by (auto simp: entry_child_def Let_def split: if_splits)

lemma translate_local:
  assumes "l \<le> PT_LEVEL M" "table_wf M (pt_frames s) l f"
    and "\<And>g. g \<in> table_frames M (pt_frames s) l f \<Longrightarrow> pt_frames s' g = pt_frames s g"
  shows "translate_recursive_with_level M s' f x l = translate_recursive_with_level M s f x l"
  using assms
proof (induction l arbitrary: f)
  case (Suc l)
  obtain es where es: "pt_frames s f = Some es" "length es = LEN M" using table_wf_frame [OF Suc.prems(2)] .
  have f: "pt_frames s' f = pt_frames s f" using Suc.prems(3) [of f] by simp
  let ?i = "index_of M l x"
  have i: "?i < LEN M" using index_bound Suc.prems(1) by simp
  show ?case
  proof (cases "entry_child M (pt_frames s) l f ?i")
    case None
    then show ?thesis using es f by (intro translate_no_child [OF Suc.prems(1) es]) simp_all
  next
    case (Some c)
    have wf': "table_wf M (pt_frames s') (Suc l) f" using table_wf_local [OF Suc.prems(3,2)] .
    have ch: "entry_child M (pt_frames s') l f ?i = Some c" 
      using Some entry_child_cong [of "pt_frames s'" f "pt_frames s" M l ?i] f by simp
    have "translate_recursive_with_level M s' c x l = translate_recursive_with_level M s c x l"
    proof (rule Suc.IH)
      show "l \<le> PT_LEVEL M" using Suc.prems(1) by simp
      show "table_wf M (pt_frames s) l c" using table_wf_child [OF Suc.prems(2) i Some] by simp
      show "pt_frames s' g = pt_frames s g" if "g \<in> table_frames M (pt_frames s) l c" for g
        using table_wf_child(3) [OF Suc.prems(2) i Some] that by (intro Suc.prems(3)) blast
    qed
    then show ?thesis
      using translate_child [OF Suc.prems(1,2) Some] translate_child [OF Suc.prems(1) wf' ch] by simp
  qed
qed simp

end

lemma root_in_table_frames [simp]: "f \<in> table_frames M fr (Suc l) f"
  by simp

declare table_frames.simps(2) [simp del] table_wf.simps(2) [simp del]
  translate_recursive_with_level.simps(2) [simp del]

end
