(* ===== verification/Page_Table_Map.thy ===== *)
theory Page_Table_Map
  imports Page_Table_Tree
begin

text \<open>
  Correctness of \<open>map_range_recursive\<close>: mapping a range extends the tree of tables with fresh frames
  only, changes the translation of no address outside the range, and translates every address of the
  range to the requested physical address.
\<close>

section \<open>Growing a table\<close>

text \<open>A table that can be changed: a tree of frames that the allocator knows to be in use.\<close>

definition table_ready ::
  "('p, 'a) table_meta \<Rightarrow> ('a \<Rightarrow> nat set) \<Rightarrow> ('a \<Rightarrow> bool) \<Rightarrow> nat \<Rightarrow> nat \<Rightarrow> ('p, 'a) pt_state \<Rightarrow> bool"
where
  "table_ready M owned alloc_inv l f s \<longleftrightarrow>
     table_wf M (pt_frames s) l f \<and> alloc_inv (pt_alloc s) \<and>
     table_frames M (pt_frames s) l f \<subseteq> owned (pt_alloc s)"

text \<open>The second state has the same table grown by fresh frames; nothing outside the table changed.\<close>

definition extends ::
  "('p, 'a) table_meta \<Rightarrow> ('a \<Rightarrow> nat set) \<Rightarrow> ('a \<Rightarrow> bool) \<Rightarrow> nat \<Rightarrow> nat \<Rightarrow>
   ('p, 'a) pt_state \<Rightarrow> ('p, 'a) pt_state \<Rightarrow> bool"
where
  "extends M owned alloc_inv l f s s' \<longleftrightarrow>
     table_ready M owned alloc_inv l f s' \<and>
     owned (pt_alloc s) \<subseteq> owned (pt_alloc s') \<and>
     table_frames M (pt_frames s) l f \<subseteq> table_frames M (pt_frames s') l f \<and>
     table_frames M (pt_frames s') l f \<subseteq>
       table_frames M (pt_frames s) l f \<union> (owned (pt_alloc s') - owned (pt_alloc s)) \<and>
     (\<forall>g. g \<notin> table_frames M (pt_frames s') l f \<longrightarrow> pt_frames s' g = pt_frames s g)"

lemma extends_refl: "table_ready M owned ainv l f s \<Longrightarrow> extends M owned ainv l f s s"
  by (simp add: extends_def)

lemma extends_trans:
  assumes "extends M owned ainv l f s s1" "extends M owned ainv l f s1 s2"
  shows "extends M owned ainv l f s s2"
proof -
  have "pt_frames s2 g = pt_frames s g" if "g \<notin> table_frames M (pt_frames s2) l f" for g
  proof -
    have "g \<notin> table_frames M (pt_frames s1) l f" using assms(2) that unfolding extends_def by blast
    then show ?thesis using assms that unfolding extends_def by metis
  qed
  moreover have "table_frames M (pt_frames s2) l f \<subseteq>
      table_frames M (pt_frames s) l f \<union> (owned (pt_alloc s2) - owned (pt_alloc s))"
    using assms unfolding extends_def by blast
  ultimately show ?thesis using assms unfolding extends_def by blast
qed

lemma table_ready_frames_eq:
  assumes "pt_frames s' = pt_frames s" "pt_alloc s' = pt_alloc s"
  shows "table_ready M owned ainv l f s' = table_ready M owned ainv l f s"
    "extends M owned ainv l f t s' = extends M owned ainv l f t s"
    "extends M owned ainv l f s' t = extends M owned ainv l f s t"
  using assms by (simp_all add: table_ready_def extends_def)

lemma translate_frames_eq:
  "pt_frames s' = pt_frames s \<Longrightarrow>
   translate_recursive_with_level M s' f x l = translate_recursive_with_level M s f x l"
  by (induction M s f x l rule: translate_recursive_with_level.induct)
     (auto simp: translate_recursive_with_level.simps frame_read_def Let_def split: option.splits)

lemma tlb_flush_frames [simp]: "pt_frames (tlb_flush b v s) = pt_frames s" "pt_alloc (tlb_flush b v s) = pt_alloc s"
  by (simp_all add: tlb_flush_def)

lemma frame_write_frames:
  assumes "pt_frames s f = Some es"
  shows "pt_frames (frame_write f i p s) = (pt_frames s)(f \<mapsto> es[i := p])"
    "pt_alloc (frame_write f i p s) = pt_alloc s"
  using assms by (simp_all add: frame_write_def)

section \<open>One entry at a time\<close>

definition child_frames ::
  "('p, 'a) table_meta \<Rightarrow> (nat \<Rightarrow> 'p list option) \<Rightarrow> nat \<Rightarrow> nat \<Rightarrow> nat \<Rightarrow> nat set"
where
  "child_frames M fr l f i =
     (case entry_child M fr l f i of None \<Rightarrow> {} | Some c \<Rightarrow> table_frames M fr l c)"

definition other_frames ::
  "('p, 'a) table_meta \<Rightarrow> (nat \<Rightarrow> 'p list option) \<Rightarrow> nat \<Rightarrow> nat \<Rightarrow> nat \<Rightarrow> nat set"
where
  "other_frames M fr l f i = (\<Union>j \<in> {..<LEN M} - {i}. child_frames M fr l f j)"

lemma table_frames_split:
  assumes "i < LEN M"
  shows "table_frames M fr (Suc l) f = insert f (child_frames M fr l f i \<union> other_frames M fr l f i)"
proof -
  have "{..<LEN M} = insert i ({..<LEN M} - {i})" using assms by auto
  then show ?thesis unfolding table_frames.simps other_frames_def child_frames_def
    by (metis (no_types, lifting) UN_insert)
qed

lemma child_frames_Some: "entry_child M fr l f i = Some c \<Longrightarrow> child_frames M fr l f i = table_frames M fr l c"
  by (simp add: child_frames_def)

lemma child_frames_None: "entry_child M fr l f i = None \<Longrightarrow> child_frames M fr l f i = {}"
  by (simp add: child_frames_def)

lemma in_other_frames:
  assumes "j < LEN M" "j \<noteq> i" "entry_child M fr l f j = Some c"
  shows "table_frames M fr l c \<subseteq> other_frames M fr l f i"
  using assms child_frames_Some [OF assms(3)] by (fastforce simp: other_frames_def)

lemma root_not_other:
  assumes "table_wf M fr (Suc l) f"
  shows "f \<notin> other_frames M fr l f i"
proof
  assume "f \<in> other_frames M fr l f i"
  then obtain j where "j < LEN M" "f \<in> child_frames M fr l f j" by (auto simp: other_frames_def)
  then show False using table_wf_child(2) [OF assms, of j]
    by (auto simp: child_frames_def split: option.splits)
qed

lemma child_not_other:
  assumes "table_wf M fr (Suc l) f" "i < LEN M" "entry_child M fr l f i = Some c"
  shows "table_frames M fr l c \<inter> other_frames M fr l f i = {}"
proof -
  have "table_frames M fr l c \<inter> child_frames M fr l f j = {}" if "j < LEN M" "j \<noteq> i" for j
    using table_wf_siblings [OF assms(1,2) that(1) _ assms(3)] that(2)
    by (auto simp: child_frames_def split: option.splits)
  then show ?thesis by (auto simp: other_frames_def)
qed

context page_table_laws
begin

text \<open>
  Changing one entry of the top frame, together with the subtree below it: the subtrees of the other
  entries are untouched, so the table stays a tree and the translation of every address that uses
  another entry stays the same.
\<close>

lemma update_entry:
  assumes "Suc l \<le> PT_LEVEL M" "table_wf M (pt_frames s) (Suc l) f" "pt_frames s f = Some es" "i < LEN M"
    and s'f: "pt_frames s' f = Some (es[i := p])"
    and keep: "\<And>g. g \<in> other_frames M (pt_frames s) l f i \<Longrightarrow> pt_frames s' g = pt_frames s g"
    and new: "\<And>c. entry_child M (pt_frames s') l f i = Some c \<Longrightarrow> table_wf M (pt_frames s') l c"
    and dis: "child_frames M (pt_frames s') l f i \<inter> insert f (other_frames M (pt_frames s) l f i) = {}"
  shows "table_wf M (pt_frames s') (Suc l) f"
    and "table_frames M (pt_frames s') (Suc l) f =
         insert f (child_frames M (pt_frames s') l f i \<union> other_frames M (pt_frames s) l f i)"
    and "index_of M l x \<noteq> i \<Longrightarrow> translate_recursive_with_level M s' f x (Suc l) =
         translate_recursive_with_level M s f x (Suc l)"
proof -
  have len: "length es = LEN M" using table_wf_frame [OF assms(2)] assms(3) by auto
  have ch: "entry_child M (pt_frames s') l f j = entry_child M (pt_frames s) l f j" if "j \<noteq> i" for j
    using assms(3) s'f that by (simp add: entry_child_def)
  have sub: "pt_frames s' g = pt_frames s g"
    if "j < LEN M" "j \<noteq> i" "entry_child M (pt_frames s) l f j = Some c" "g \<in> table_frames M (pt_frames s) l c" for j c g
    using in_other_frames [OF that(1-3)] that(4) by (intro keep) blast
  have fr: "table_frames M (pt_frames s') l c = table_frames M (pt_frames s) l c"
    if "j < LEN M" "j \<noteq> i" "entry_child M (pt_frames s) l f j = Some c" for j c
    using sub [OF that] by (rule table_frames_local)
  have cf: "child_frames M (pt_frames s') l f j = child_frames M (pt_frames s) l f j"
    if "j < LEN M" "j \<noteq> i" for j
    using fr [OF that] ch [OF that(2)]
    by (cases "entry_child M (pt_frames s) l f j") (simp_all add: child_frames_def)
  have oth: "other_frames M (pt_frames s') l f i = other_frames M (pt_frames s) l f i"
    using cf unfolding other_frames_def by (intro SUP_cong) auto
  show eq: "table_frames M (pt_frames s') (Suc l) f =
      insert f (child_frames M (pt_frames s') l f i \<union> other_frames M (pt_frames s) l f i)"
    using table_frames_split [OF assms(4), of "pt_frames s'" l f] oth by simp
  show wf': "table_wf M (pt_frames s') (Suc l) f"
  proof (rule table_wfI [where es = "es[i := p]"])
    show "pt_frames s' f = Some (es[i := p])" "length (es[i := p]) = LEN M" using s'f len by simp_all
    fix j c assume j: "j < LEN M" "entry_child M (pt_frames s') l f j = Some c"
    show "table_wf M (pt_frames s') l c \<and> f \<notin> table_frames M (pt_frames s') l c"
    proof (cases "j = i")
      case True
      with j new dis child_frames_Some [OF j(2)] show ?thesis by auto
    next
      case False
      with j(2) ch have c: "entry_child M (pt_frames s) l f j = Some c" by simp
      with table_wf_local [of M "pt_frames s" l c "pt_frames s'"] sub [OF j(1) False c]
        table_wf_child [OF assms(2) j(1) c] fr [OF j(1) False c] show ?thesis by simp
    qed
    fix k d assume k: "k < LEN M" "j \<noteq> k" "entry_child M (pt_frames s') l f k = Some d"
    have oi: "table_frames M (pt_frames s') l e \<subseteq> other_frames M (pt_frames s) l f i"
      if "m < LEN M" "m \<noteq> i" "entry_child M (pt_frames s') l f m = Some e" for m e
      using in_other_frames [OF that] oth by simp
    have ci: "table_frames M (pt_frames s') l e \<inter> other_frames M (pt_frames s) l f i = {}"
      if "entry_child M (pt_frames s') l f i = Some e" for e
      using dis child_frames_Some [OF that] by auto
    consider "j = i" | "k = i" | "j \<noteq> i" "k \<noteq> i" by blast
    then show "table_frames M (pt_frames s') l c \<inter> table_frames M (pt_frames s') l d = {}"
    proof cases
      case 1
      with ci [of c] oi [of k d] j k show ?thesis by blast
    next
      case 2
      with ci [of d] oi [of j c] j k show ?thesis by blast
    next
      case 3
      with j k ch fr [of j c] fr [of k d] table_wf_siblings [OF assms(2) j(1) k(1,2)] show ?thesis by simp
    qed
  qed
  assume x: "index_of M l x \<noteq> i"
  show "translate_recursive_with_level M s' f x (Suc l) = translate_recursive_with_level M s f x (Suc l)"
  proof (cases "entry_child M (pt_frames s) l f (index_of M l x)")
    case None
    with x show ?thesis using translate_no_child [OF assms(1,3) len s'f, of x] len by simp
  next
    case (Some c)
    have "translate_recursive_with_level M s' c x l = translate_recursive_with_level M s c x l"
      using sub [OF index_bound [OF assms(1)] x Some]
        table_wf_child(1) [OF assms(2) index_bound [OF assms(1)] Some] assms(1)
      by (intro translate_local) auto
    with translate_child [OF assms(1,2) Some] translate_child [OF assms(1) wf', of x c] Some x ch
    show ?thesis by simp
  qed
qed

text \<open>Writing a leaf into a free entry.\<close>

lemma write_leaf_entry:
  assumes "Suc l \<le> PT_LEVEL M" "table_ready M owned alloc_inv (Suc l) f s"
    and "pt_frames s f = Some es" "i < LEN M" "\<not> pte_valid M (es ! i)"
    and "pc_valid (to_config M p (0 < l))" "pc_huge (to_config M p (0 < l)) \<or> l = 0"
    and "pt_frames s' = (pt_frames s)(f \<mapsto> es[i := p])" "pt_alloc s' = pt_alloc s"
  shows "extends M owned alloc_inv (Suc l) f s s'"
    and "translate_recursive_with_level M s' f x (Suc l) =
         (if index_of M l x = i then Ok (p, Suc l) else translate_recursive_with_level M s f x (Suc l))"
proof -
  have R: "table_wf M (pt_frames s) (Suc l) f" "table_frames M (pt_frames s) (Suc l) f \<subseteq> owned (pt_alloc s)"
    "alloc_inv (pt_alloc s)" using assms(2) by (auto simp: table_ready_def)
  have len: "length es = LEN M" using table_wf_frame [OF R(1)] assms(3) by auto
  have s'f: "pt_frames s' f = Some (es[i := p])" using assms(8) by simp
  have ci: "child_frames M (pt_frames s) l f i = {}"
    using assms(3,5) pte_valid_iff [of "es ! i" True] by (simp add: child_frames_def entry_child_def)
  have ci': "entry_child M (pt_frames s') l f i = None"
    using assms(4,7) s'f len by (cases "l = 0") (simp_all add: entry_child_def)
  have keep: "pt_frames s' g = pt_frames s g" if "g \<in> other_frames M (pt_frames s) l f i" for g
    using that root_not_other [OF R(1), of i] assms(8) by auto
  note u = update_entry [OF assms(1) R(1) assms(3,4) s'f keep]
  have wf': "table_wf M (pt_frames s') (Suc l) f"
    and eq: "table_frames M (pt_frames s') (Suc l) f = table_frames M (pt_frames s) (Suc l) f"
    using u(1,2) ci' child_frames_None [OF ci'] table_frames_split [OF assms(4), of "pt_frames s"] ci by simp_all
  have "pt_frames s' g = pt_frames s g" if "g \<notin> table_frames M (pt_frames s) (Suc l) f" for g
    using that root_in_table_frames [of f M "pt_frames s" l] assms(8) by auto
  then show "extends M owned alloc_inv (Suc l) f s s'"
    using wf' eq R(2,3) assms(9) by (simp add: extends_def table_ready_def)
  show "translate_recursive_with_level M s' f x (Suc l) =
      (if index_of M l x = i then Ok (p, Suc l) else translate_recursive_with_level M s f x (Suc l))"
  proof (cases "index_of M l x = i")
    case True
    then show ?thesis using assms(4,6,7) len
      by (subst translate_unfold [OF assms(1) s'f]) (auto simp: Let_def)
  next
    case False
    then show ?thesis using u(3) [of x] ci' child_frames_None [OF ci'] by simp
  qed
qed

text \<open>A new, empty table translates nothing, so linking it into a free entry changes no translation.\<close>

lemma empty_table:
  assumes "Suc l \<le> PT_LEVEL M" "pt_frames s f = Some (replicate (LEN M) (pte_zero M))"
  shows "table_frames M (pt_frames s) (Suc l) f = {f}" "table_wf M (pt_frames s) (Suc l) f"
    "translate_recursive_with_level M s f x (Suc l) = Err NotMapped"
proof -
  have no: "entry_child M (pt_frames s) l f i = None" if "i < LEN M" for i
    using that zero_invalid by (simp add: assms(2) entry_child_def Let_def)
  then show "table_frames M (pt_frames s) (Suc l) f = {f}" by (simp add: table_frames.simps(2))
  show "table_wf M (pt_frames s) (Suc l) f"
    using no assms(2) by (intro table_wfI [where es = "replicate (LEN M) (pte_zero M)"]) simp_all
  show "translate_recursive_with_level M s f x (Suc l) = Err NotMapped"
    using index_bound [OF assms(1), of x] zero_invalid
    by (subst translate_unfold [OF assms]) (simp_all add: Let_def)
qed

lemma link_table:
  assumes "Suc (Suc l) \<le> PT_LEVEL M" "table_ready M owned alloc_inv (Suc (Suc l)) f s"
    and "pt_frames s f = Some es" "i < LEN M" "\<not> pc_valid (to_config M (es ! i) True)"
    and "pc_valid (to_config M p True)" "\<not> pc_huge (to_config M p True)" "pc_paddr (to_config M p True) = n"
    and "alloc_frame M (pt_alloc s) = (pt_alloc s', Ok (Some n))"
    and "pt_frames s' = (pt_frames s)(n \<mapsto> replicate (LEN M) (pte_zero M), f \<mapsto> es[i := p])"
  shows "extends M owned alloc_inv (Suc (Suc l)) f s s'"
    and "entry_child M (pt_frames s') (Suc l) f i = Some n"
    and "translate_recursive_with_level M s' f x (Suc (Suc l)) =
         translate_recursive_with_level M s f x (Suc (Suc l))"
proof -
  let ?l = "Suc l"
  have R: "table_wf M (pt_frames s) (Suc ?l) f" "table_frames M (pt_frames s) (Suc ?l) f \<subseteq> owned (pt_alloc s)"
    "alloc_inv (pt_alloc s)" using assms(2) by (auto simp: table_ready_def)
  have al: "alloc_inv (pt_alloc s')" "n \<notin> owned (pt_alloc s)" "insert n (owned (pt_alloc s)) \<subseteq> owned (pt_alloc s')"
    using alloc_fresh [OF R(3) assms(9)] by auto
  have len: "length es = LEN M" using table_wf_frame [OF R(1)] assms(3) by auto
  have nT: "n \<notin> table_frames M (pt_frames s) (Suc ?l) f" using R(2) al(2) by blast
  then have fn: "f \<noteq> n" using root_in_table_frames by metis
  have s'f: "pt_frames s' f = Some (es[i := p])" using assms(10) by simp
  have l: "Suc l \<le> PT_LEVEL M" using assms(1) by simp
  have e: "table_frames M (pt_frames s') (Suc l) n = {n}" "table_wf M (pt_frames s') (Suc l) n"
    "translate_recursive_with_level M s' n x (Suc l) = Err NotMapped"
    using assms(10) fn by (intro empty_table [OF l]; simp)+
  have ci: "child_frames M (pt_frames s) ?l f i = {}"
    using assms(3,5) by (simp add: child_frames_def entry_child_def Let_def)
  have T: "table_frames M (pt_frames s) (Suc ?l) f = insert f (other_frames M (pt_frames s) ?l f i)"
    using table_frames_split [OF assms(4), of "pt_frames s"] ci by simp
  show ci': "entry_child M (pt_frames s') ?l f i = Some n"
    using s'f len assms(4,6,7,8) by (simp add: entry_child_def)
  have keep: "pt_frames s' g = pt_frames s g" if "g \<in> other_frames M (pt_frames s) ?l f i" for g
    using that root_not_other [OF R(1), of i] assms(10) nT T by auto
  note u = update_entry [OF assms(1) R(1) assms(3,4) s'f keep]
  have dis: "child_frames M (pt_frames s') ?l f i \<inter> insert f (other_frames M (pt_frames s) ?l f i) = {}"
    using child_frames_Some [OF ci'] e(1) nT T by simp
  have wf': "table_wf M (pt_frames s') (Suc ?l) f"
    and eq: "table_frames M (pt_frames s') (Suc ?l) f = insert n (table_frames M (pt_frames s) (Suc ?l) f)"
    using u(1,2) [OF _ _ dis] ci' e(2) child_frames_Some [OF ci'] by (simp_all add: e(1) T insert_commute)
  have "pt_frames s' g = pt_frames s g" if "g \<notin> insert n (table_frames M (pt_frames s) (Suc ?l) f)" for g
    using that assms(10) T by auto
  moreover have "insert n (table_frames M (pt_frames s) (Suc ?l) f) \<subseteq> owned (pt_alloc s')"
    "n \<in> owned (pt_alloc s') - owned (pt_alloc s)" "owned (pt_alloc s) \<subseteq> owned (pt_alloc s')"
    using R(2) al by blast+
  ultimately show "extends M owned alloc_inv (Suc ?l) f s s'"
    using wf' al(1) unfolding extends_def table_ready_def eq by (simp add: subset_insertI sup.coboundedI1)
  show "translate_recursive_with_level M s' f x (Suc ?l) = translate_recursive_with_level M s f x (Suc ?l)"
  proof (cases "index_of M ?l x = i")
    case True
    have "translate_recursive_with_level M s f x (Suc ?l) = Err NotMapped"
      using assms(5) True by (subst translate_unfold [OF assms(1,3) len]) (simp add: Let_def)
    moreover have "translate_recursive_with_level M s' f x (Suc ?l) = Err NotMapped"
      using translate_child [OF assms(1) wf', of x n] ci' True e(3) by simp
    ultimately show ?thesis by simp
  next
    case False
    then show ?thesis using u(3) [OF _ _ dis] ci' e(2) by simp
  qed
qed

text \<open>Growing the table below one entry grows the whole table.\<close>

lemma extend_child:
  assumes "Suc l \<le> PT_LEVEL M" "table_ready M owned alloc_inv (Suc l) f s" "i < LEN M"
    and "entry_child M (pt_frames s) l f i = Some c" "extends M owned alloc_inv l c s s'"
  shows "extends M owned alloc_inv (Suc l) f s s'"
    and "translate_recursive_with_level M s' f x (Suc l) =
         (if index_of M l x = i then translate_recursive_with_level M s' c x l
          else translate_recursive_with_level M s f x (Suc l))"
proof -
  have R: "table_wf M (pt_frames s) (Suc l) f" "table_frames M (pt_frames s) (Suc l) f \<subseteq> owned (pt_alloc s)"
    using assms(2) by (auto simp: table_ready_def)
  have X: "table_ready M owned alloc_inv l c s'" "owned (pt_alloc s) \<subseteq> owned (pt_alloc s')"
    "table_frames M (pt_frames s) l c \<subseteq> table_frames M (pt_frames s') l c"
    "table_frames M (pt_frames s') l c \<subseteq>
       table_frames M (pt_frames s) l c \<union> (owned (pt_alloc s') - owned (pt_alloc s))"
    "\<And>g. g \<notin> table_frames M (pt_frames s') l c \<Longrightarrow> pt_frames s' g = pt_frames s g"
    using assms(5) by (auto simp: extends_def)
  obtain es where es: "pt_frames s f = Some es" "length es = LEN M" using table_wf_frame [OF R(1)] .
  have T: "table_frames M (pt_frames s) (Suc l) f =
      insert f (table_frames M (pt_frames s) l c \<union> other_frames M (pt_frames s) l f i)"
    using table_frames_split [OF assms(3), of "pt_frames s"] child_frames_Some [OF assms(4)] by simp
  have out: "table_frames M (pt_frames s') l c \<inter> insert f (other_frames M (pt_frames s) l f i) = {}"
    using X(4) table_wf_child(2) [OF R(1) assms(3,4)] child_not_other [OF R(1) assms(3,4)] R(2) T by blast
  then have s'f: "pt_frames s' f = Some (es[i := es ! i])" using X(5) [of f] es(1) by simp
  have ci': "entry_child M (pt_frames s') l f i = Some c"
    using assms(4) s'f es(1) by (simp add: entry_child_def)
  have keep: "pt_frames s' g = pt_frames s g" if "g \<in> other_frames M (pt_frames s) l f i" for g
    using that out by (intro X(5)) blast
  have new: "table_wf M (pt_frames s') l d" if "entry_child M (pt_frames s') l f i = Some d" for d
    using that ci' X(1) by (simp add: table_ready_def)
  have dis: "child_frames M (pt_frames s') l f i \<inter> insert f (other_frames M (pt_frames s) l f i) = {}"
    using child_frames_Some [OF ci'] out by simp
  note u = update_entry [OF assms(1) R(1) es(1) assms(3) s'f keep new dis]
  have eq: "table_frames M (pt_frames s') (Suc l) f =
      insert f (table_frames M (pt_frames s') l c \<union> other_frames M (pt_frames s) l f i)"
    using u(2) child_frames_Some [OF ci'] by simp
  have "pt_frames s' g = pt_frames s g" if "g \<notin> table_frames M (pt_frames s') (Suc l) f" for g
    using that eq by (intro X(5)) simp
  moreover have "table_frames M (pt_frames s') (Suc l) f \<subseteq> owned (pt_alloc s')"
    using eq X(1,2) R(2) T unfolding table_ready_def by blast
  ultimately show "extends M owned alloc_inv (Suc l) f s s'"
    using u(1) eq T X(1-4) unfolding extends_def table_ready_def by blast
  show "translate_recursive_with_level M s' f x (Suc l) =
      (if index_of M l x = i then translate_recursive_with_level M s' c x l
       else translate_recursive_with_level M s f x (Suc l))"
    using u(3) translate_child [OF assms(1) u(1), of x c] ci' by auto
qed

end

end
