(* ===== verification/Page_Table_Range.thy ===== *)
theory Page_Table_Range
  imports Page_Table_Map
begin

text \<open>
  The loop and the recursion of \<open>map_range_recursive\<close>, put together from the steps of
  \<open>Page_Table_Map\<close>: what one call guarantees for its range (\<open>range_mapped\<close>) composes over the rounds of
  the loop and lifts from the table of an entry to the table that holds the entry.
\<close>

section \<open>What mapping a range guarantees\<close>

text \<open>An address translates to \<open>y\<close> through an entry that was made from the template.\<close>

definition translates_to ::
  "('p, 'a) table_meta \<Rightarrow> pte_config \<Rightarrow> ('p, 'a) pt_state \<Rightarrow> nat \<Rightarrow> nat \<Rightarrow> nat \<Rightarrow> nat \<Rightarrow> bool"
where
  "translates_to M tmpl s f L x y \<longleftrightarrow>
     (\<exists>q h lv. let pte = from_config M (tmpl\<lparr>pc_paddr := q, pc_valid := True, pc_huge := h, pc_is_dir := h\<rparr>);
                  c = to_config M pte (lv > 1) in
        translate_recursive_with_level M s f x L = Ok (pte, lv) \<and>
        pc_paddr c + (if pc_huge c then x mod level_size M lv else x mod PAGE_SIZE M) = y)"

text \<open>
  Why mapping can fail without huge pages: the allocator has just refused a frame, or an address of the range was mapped
  before.  A conflict names that address and the physical address it should have got.
\<close>

definition map_failure ::
  "('p, 'a) table_meta \<Rightarrow> nat \<Rightarrow> nat \<Rightarrow> nat \<Rightarrow> nat \<Rightarrow> nat \<Rightarrow> ('p, 'a) pt_state \<Rightarrow> ('p, 'a) pt_state \<Rightarrow> paging_error \<Rightarrow> bool"
where
  "map_failure M L f v p e s s' err \<longleftrightarrow>
     (case err of
        NoMemory \<Rightarrow> \<exists>a. alloc_frame M a = (pt_alloc s', Ok None)
      | MappingConflict x q \<Rightarrow>
          v \<le> x \<and> x < e \<and> q = p + (x - v) \<and> is_ok (translate_recursive_with_level M s f x L)
      | HierarchyError m \<Rightarrow> \<exists>x. v \<le> x \<and> x < e \<and> is_ok (translate_recursive_with_level M s f x L)
      | _ \<Rightarrow> False)"

lemma map_failure_mono:
  assumes "map_failure M K g n p' n' s1 s' err" "v \<le> n" "n' \<le> e" "p' = p + (n - v)"
    and "\<And>x. n \<le> x \<Longrightarrow> x < n' \<Longrightarrow> is_ok (translate_recursive_with_level M s1 g x K) \<Longrightarrow>
           is_ok (translate_recursive_with_level M s f x L)"
  shows "map_failure M L f v p e s s' err"
proof (cases err)
  case (MappingConflict x q)
  then show ?thesis using assms by (auto simp: map_failure_def)
next
  case (HierarchyError m)
  then obtain x where "n \<le> x" "x < n'" "is_ok (translate_recursive_with_level M s1 g x K)"
    using assms(1) by (auto simp: map_failure_def)
  then have "v \<le> x \<and> x < e \<and> is_ok (translate_recursive_with_level M s f x L)" using assms(2,3,5) by auto
  then show ?thesis using HierarchyError by (auto simp: map_failure_def)
qed (use assms(1) in \<open>simp_all add: map_failure_def\<close>)

text \<open>
  The reason that stands behind each error of \<open>map\<close>: the arguments, with nothing changed, the allocator, or an address of
  the range that was mapped before.
\<close>

definition map_error ::
  "('p, 'a) table_meta \<Rightarrow> nat \<Rightarrow> map_config \<Rightarrow> ('p, 'a) pt_state \<Rightarrow> ('p, 'a) pt_state \<Rightarrow> paging_error \<Rightarrow> bool"
where
  "map_error M root c s s' err \<longleftrightarrow>
     (case err of
        InvalidSize _ \<Rightarrow> s' = s \<and> mc_size c = 0
      | AlignmentError _ \<Rightarrow> s' = s \<and> \<not> (PAGE_SIZE M dvd mc_vaddr c \<and> PAGE_SIZE M dvd mc_paddr c)
      | AddressOverflow _ \<Rightarrow> s' = s \<and> \<not> (mc_vaddr c + mc_size c \<le> U64_MAX \<and> mc_paddr c + mc_size c \<le> U64_MAX)
      | NoMemory \<Rightarrow> \<exists>a. alloc_frame M a = (pt_alloc s', Ok None)
      | MappingConflict x q \<Rightarrow>
          mc_vaddr c \<le> x \<and> x < mc_vaddr c + mc_size c \<and> q = mc_paddr c + (x - mc_vaddr c) \<and>
          translate M s root x \<noteq> Err NotMapped
      | HierarchyError _ \<Rightarrow>
          \<exists>x. mc_vaddr c \<le> x \<and> x < mc_vaddr c + mc_size c \<and> translate M s root x \<noteq> Err NotMapped
      | _ \<Rightarrow> False)"

definition range_mapped ::
  "('p, 'a) table_meta \<Rightarrow> ('a \<Rightarrow> nat set) \<Rightarrow> ('a \<Rightarrow> bool) \<Rightarrow> pte_config \<Rightarrow> bool \<Rightarrow> nat \<Rightarrow> nat \<Rightarrow> nat \<Rightarrow> nat \<Rightarrow> nat \<Rightarrow>
   ('p, 'a) pt_state \<Rightarrow> ('p, 'a) pt_state \<Rightarrow> (paging_error, unit) result \<Rightarrow> bool"
where
  "range_mapped M owned alloc_inv tmpl huge L f v p e s s' r \<longleftrightarrow>
     r \<noteq> Panic \<and> extends M owned alloc_inv L f s s' \<and>
     (\<forall>x. x div span M L = v div span M L \<longrightarrow> \<not> (v \<le> x \<and> x < e) \<longrightarrow>
        translate_recursive_with_level M s' f x L = translate_recursive_with_level M s f x L) \<and>
     (r = Ok () \<longrightarrow> (\<forall>x. v \<le> x \<longrightarrow> x < e \<longrightarrow> translates_to M tmpl s' f L x (p + (x - v)))) \<and>
     (\<forall>err. r = Err err \<longrightarrow> \<not> huge \<longrightarrow> map_failure M L f v p e s s' err)"

lemma range_mappedI:
  assumes "r \<noteq> Panic" "extends M owned ainv L f s s'"
    and "\<And>x. x div span M L = v div span M L \<Longrightarrow> \<not> (v \<le> x \<and> x < e) \<Longrightarrow>
          translate_recursive_with_level M s' f x L = translate_recursive_with_level M s f x L"
    and "\<And>x. r = Ok () \<Longrightarrow> v \<le> x \<Longrightarrow> x < e \<Longrightarrow> translates_to M tmpl s' f L x (p + (x - v))"
    and "\<And>err. r = Err err \<Longrightarrow> \<not> huge \<Longrightarrow> map_failure M L f v p e s s' err"
  shows "range_mapped M owned ainv tmpl huge L f v p e s s' r"
  unfolding range_mapped_def using assms by simp

lemma range_mappedD:
  assumes "range_mapped M owned ainv tmpl huge L f v p e s s' r"
  shows "r \<noteq> Panic" "extends M owned ainv L f s s'"
    "x div span M L = v div span M L \<Longrightarrow> \<not> (v \<le> x \<and> x < e) \<Longrightarrow>
       translate_recursive_with_level M s' f x L = translate_recursive_with_level M s f x L"
    "r = Ok () \<Longrightarrow> v \<le> x \<Longrightarrow> x < e \<Longrightarrow> translates_to M tmpl s' f L x (p + (x - v))"
    "r = Err err \<Longrightarrow> \<not> huge \<Longrightarrow> map_failure M L f v p e s s' err"
  using assms unfolding range_mapped_def by simp_all

lemma translates_to_cong:
  "translate_recursive_with_level M s' f x L = translate_recursive_with_level M t g x K \<Longrightarrow>
   translates_to M tmpl s' f L x y = translates_to M tmpl t g K x y"
  by (simp add: translates_to_def)

lemma same_window:
  assumes "v \<le> x" "x < e" "(e - 1) div w = v div (w::nat)"
  shows "x div w = v div w"
proof -
  have "x \<le> e - 1" using assms(2) by simp
  then have "x div w \<le> (e - 1) div w" by (rule div_le_mono)
  then show ?thesis using div_le_mono [OF assms(1), of w] assms(3) by simp
qed

lemma range_mapped_empty:
  assumes "table_ready M owned ainv L f s" "\<not> v < e"
  shows "range_mapped M owned ainv tmpl huge L f v p e s s (Ok ())"
  using assms by (simp add: range_mapped_def extends_refl)

lemma range_mapped_error:
  assumes "range_mapped M owned ainv tmpl huge L f v p n s s' (Err err)" "n \<le> e"
  shows "range_mapped M owned ainv tmpl huge L f v p e s s' (Err err)"
proof (rule range_mappedI)
  note D = range_mappedD [OF assms(1)]
  show "Err err \<noteq> Panic" "extends M owned ainv L f s s'" using D by simp_all
  show "translate_recursive_with_level M s' f x L = translate_recursive_with_level M s f x L"
    if "x div span M L = v div span M L" "\<not> (v \<le> x \<and> x < e)" for x
    using that assms(2) by (intro D(3)) linarith+
  show "map_failure M L f v p e s s' err'" if "Err err = Err err'" "\<not> huge" for err'
    using map_failure_mono [OF D(5) [OF refl that(2)] order_refl assms(2)] that(1) by simp
qed simp

lemma range_mapped_append:
  assumes A: "range_mapped M owned ainv tmpl huge L f v p n s s1 (Ok ())"
    and B: "range_mapped M owned ainv tmpl huge L f n (p + (n - v)) e s1 s' r"
    and n: "v < n" "n < e" "(e - 1) div span M L = v div span M L"
  shows "range_mapped M owned ainv tmpl huge L f v p e s s' r"
proof -
  let ?t = "\<lambda>s x. translate_recursive_with_level M s f x L"
  have w: "n div span M L = v div span M L" using same_window [OF _ n(2,3)] n(1) by simp
  have win: "x div span M L = v div span M L" if "v \<le> x" "x < e" for x
    using that n(3) by (rule same_window)
  have A1: "?t s1 x = ?t s x" if "x div span M L = v div span M L" "\<not> (v \<le> x \<and> x < n)" for x
    using range_mappedD(3) [OF A] that by blast
  have B1: "?t s' x = ?t s1 x" if "x div span M L = v div span M L" "\<not> (n \<le> x \<and> x < e)" for x
    using range_mappedD(3) [OF B] that w by simp
  have "extends M owned ainv L f s s'" "r \<noteq> Panic"
    using range_mappedD(1) [OF B] extends_trans [OF range_mappedD(2) [OF A] range_mappedD(2) [OF B]] by blast+
  moreover have "?t s' x = ?t s x" if "x div span M L = v div span M L" "\<not> (v \<le> x \<and> x < e)" for x
  proof -
    have "\<not> (n \<le> x \<and> x < e)" "\<not> (v \<le> x \<and> x < n)" using that(2) n by linarith+
    with A1 B1 that(1) show ?thesis by simp
  qed
  moreover have "translates_to M tmpl s' f L x (p + (x - v))" if "r = Ok ()" "v \<le> x" "x < e" for x
  proof (cases "x < n")
    case True
    then have "translates_to M tmpl s1 f L x (p + (x - v))"
      using range_mappedD(4) [OF A refl] that by blast
    then show ?thesis using translates_to_cong [OF B1 [OF win]] that True by simp
  next
    case False
    then have "translates_to M tmpl s' f L x (p + (n - v) + (x - n))"
      using range_mappedD(4) [OF B] that by simp
    moreover have "p + (n - v) + (x - n) = p + (x - v)" using False n(1) by simp
    ultimately show ?thesis by simp
  qed
  moreover have "map_failure M L f v p e s s' err" if "r = Err err" "\<not> huge" for err
  proof (rule map_failure_mono [OF range_mappedD(5) [OF B that]])
    show "is_ok (?t s x)" if "n \<le> x" "x < e" "is_ok (?t s1 x)" for x
      using A1 [OF win] that n(1) by simp
  qed (use n(1) in simp_all)
  ultimately show ?thesis by (intro range_mappedI) blast+
qed

section \<open>A single entry\<close>

context page_table_laws
begin

lemma translates_to_leaf:
  assumes "Suc l \<le> PT_LEVEL M" "addr_ok p" "h \<longleftrightarrow> 0 < l" "span M l dvd v" "x div span M l = v div span M l"
    and "translate_recursive_with_level M s f x (Suc l) =
         Ok (from_config M (tmpl\<lparr>pc_paddr := p, pc_valid := True, pc_huge := h, pc_is_dir := h\<rparr>), Suc l)"
  shows "translates_to M tmpl s f (Suc l) x (p + (x - v))"
proof -
  let ?c = "tmpl\<lparr>pc_paddr := p, pc_valid := True, pc_huge := h, pc_is_dir := h\<rparr>"
  have "pc_paddr (to_config M (from_config M ?c) (Suc l > 1)) = p" using paddr_from [of ?c] assms(2) by simp
  moreover have "pc_huge (to_config M (from_config M ?c) (Suc l > 1)) \<longleftrightarrow> 0 < l"
    using huge_from [of ?c] huge_leaf [of "from_config M ?c"] assms(3) by (cases "l = 0") simp_all
  moreover have "x mod span M l = x - v"
    using assms(4,5) by (metis dvd_div_mult_self minus_div_mult_eq_mod)
  ultimately show ?thesis
    using assms(6) level_size_span [OF assms(1)] unfolding translates_to_def Let_def
    by (intro exI [of _ p] exI [of _ h] exI [of _ "Suc l"]) auto
qed

lemma write_leaf_mapped:
  assumes "Suc l \<le> PT_LEVEL M" "table_ready M owned alloc_inv (Suc l) f s"
    and "addr_ok (start_paddr c)" "h \<longleftrightarrow> 0 < l" "span M l dvd start_vaddr c" "0 < l \<Longrightarrow> huge"
    and "write_leaf M c f (index_of M l (start_vaddr c)) h s = (s', r)"
  shows "range_mapped M owned alloc_inv (pte_template c) huge (Suc l) f (start_vaddr c) (start_paddr c)
           (start_vaddr c + span M l) s s' r"
proof -
  let ?v = "start_vaddr c" and ?i = "index_of M l (start_vaddr c)"
  have i: "?i < LEN M" using index_bound [OF assms(1)] .
  have wf: "table_wf M (pt_frames s) (Suc l) f" using assms(2) by (simp add: table_ready_def)
  obtain es where es: "pt_frames s f = Some es" "length es = LEN M" using table_wf_frame [OF wf] .
  then have rd: "frame_read s f ?i = Some (es ! ?i)" using i by (simp add: frame_read_def)
  show ?thesis
  proof (cases "pte_valid M (es ! ?i)")
    case True
    then have r: "s' = s" "r = Err (MappingConflict ?v (start_paddr c))"
      using assms(7) rd by (auto simp: write_leaf_def)
    have "is_ok (translate_recursive_with_level M s f ?v (Suc l))" if "\<not> huge"
      using that assms(6) True pte_valid_iff [of "es ! ?i" "0 < l"]
      by (subst translate_unfold [OF assms(1) es]) (auto simp: Let_def)
    then show ?thesis using assms(2) r by (intro range_mappedI) (auto simp: extends_refl map_failure_def)
  next
    case False
    let ?p = "leaf_pte M c h"
    have r: "r = Ok ()" "s' = tlb_flush (cfg_flush c) ?v (frame_write f ?i ?p s)"
      using assms(7) rd False by (auto simp: write_leaf_def)
    have s': "pt_frames s' = (pt_frames s)(f \<mapsto> es[?i := ?p])" "pt_alloc s' = pt_alloc s"
      using r(2) frame_write_frames [OF es(1), of ?i ?p] by simp_all
    have p: "pc_valid (to_config M ?p (0 < l))" "pc_huge (to_config M ?p (0 < l)) \<or> l = 0"
      using assms(4) by (auto simp: leaf_pte_def valid_from huge_from)
    note W = write_leaf_entry [OF assms(1,2) es(1) i False p s']
    have ix: "x div span M l = ?v div span M l \<Longrightarrow> index_of M l x = ?i" for x
      by (simp add: index_of_def)
    have sp: "x div span M l = ?v div span M l \<longleftrightarrow> ?v \<le> x \<and> x < ?v + span M l" for x
      using same_span_iff [OF span_pos assms(5)] .
    have out: "translate_recursive_with_level M s' f x (Suc l) = translate_recursive_with_level M s f x (Suc l)"
      if "x div span M (Suc l) = ?v div span M (Suc l)" "\<not> (?v \<le> x \<and> x < ?v + span M l)" for x
    proof -
      have "index_of M l x \<noteq> ?i"
        using index_of_eq_iff [of x M l ?v] that sp span_Suc [OF assms(1)] by simp
      then show ?thesis using W(2) by simp
    qed
    have "translates_to M (pte_template c) s' f (Suc l) x (start_paddr c + (x - ?v))"
      if "?v \<le> x" "x < ?v + span M l" for x
    proof (rule translates_to_leaf [OF assms(1,3,4,5)])
      show x: "x div span M l = ?v div span M l" using sp that by blast
      show "translate_recursive_with_level M s' f x (Suc l) = Ok (from_config M ((pte_template c)
          \<lparr>pc_paddr := start_paddr c, pc_valid := True, pc_huge := h, pc_is_dir := h\<rparr>), Suc l)"
        using W(2) [of x] ix [OF x] by (simp add: leaf_pte_def)
    qed
    then show ?thesis using r(1) W(1) out by (intro range_mappedI) simp_all
  qed
qed

lemma frame_new_cases:
  assumes "alloc_inv (pt_alloc s)" "frame_new M s = (s1, r)"
  obtains n where "r = Ok n" "alloc_frame M (pt_alloc s) = (pt_alloc s1, Ok (Some n))"
      "pt_frames s1 = (pt_frames s)(n \<mapsto> replicate (LEN M) (pte_zero M))"
  | "r = Err NoMemory" "pt_frames s1 = pt_frames s" "alloc_inv (pt_alloc s1)"
      "owned (pt_alloc s) \<subseteq> owned (pt_alloc s1)" "alloc_frame M (pt_alloc s) = (pt_alloc s1, Ok None)"
proof -
  obtain a' r' where al: "alloc_frame M (pt_alloc s) = (a', Ok r')" using alloc_returns [OF assms(1)] by blast
  with assms(2) alloc_none [OF assms(1), of a'] that show ?thesis
    by (cases r') (auto simp: frame_new_def)
qed

lemma child_frame_spec:
  assumes "Suc (Suc l) \<le> PT_LEVEL M" "table_ready M owned alloc_inv (Suc (Suc l)) f s"
    and "child_frame M c f (index_of M (Suc l) v) s = (s1, r)"
  shows "r \<noteq> Panic" "extends M owned alloc_inv (Suc (Suc l)) f s s1"
    "translate_recursive_with_level M s1 f x (Suc (Suc l)) = translate_recursive_with_level M s f x (Suc (Suc l))"
    "r = Ok n \<Longrightarrow> entry_child M (pt_frames s1) (Suc l) f (index_of M (Suc l) v) = Some n"
    "r = Err err \<Longrightarrow> map_failure M (Suc (Suc l)) f v p (Suc v) s s1 err"
proof -
  let ?i = "index_of M (Suc l) v"
  have R: "table_wf M (pt_frames s) (Suc (Suc l)) f" "alloc_inv (pt_alloc s)"
    "table_frames M (pt_frames s) (Suc (Suc l)) f \<subseteq> owned (pt_alloc s)"
    using assms(2) by (auto simp: table_ready_def)
  have i: "?i < LEN M" using index_bound [OF assms(1)] .
  obtain es where es: "pt_frames s f = Some es" "length es = LEN M" using table_wf_frame [OF R(1)] .
  then have rd: "frame_read s f ?i = Some (es ! ?i)" using i by (simp add: frame_read_def)
  let ?c = "to_config M (es ! ?i) True"
  have goal: "r \<noteq> Panic \<and> extends M owned alloc_inv (Suc (Suc l)) f s s1 \<and>
    translate_recursive_with_level M s1 f x (Suc (Suc l)) = translate_recursive_with_level M s f x (Suc (Suc l)) \<and>
    (\<forall>n. r = Ok n \<longrightarrow> entry_child M (pt_frames s1) (Suc l) f ?i = Some n) \<and>
    (\<forall>err. r = Err err \<longrightarrow> map_failure M (Suc (Suc l)) f v p (Suc v) s s1 err)" for x
  proof (cases "pc_valid ?c")
    case True
    then have "s1 = s" "r = (if pc_huge ?c then Err (HierarchyError ''Cannot create page table under huge page'')
        else Ok (pc_paddr ?c))"
      using assms(3) rd by (auto simp: child_frame_def Let_def split: if_splits)
    moreover have "is_ok (translate_recursive_with_level M s f v (Suc (Suc l)))" if "pc_huge ?c"
      using that True by (subst translate_unfold [OF assms(1) es]) (simp add: Let_def)
    ultimately show ?thesis using True es(1) extends_refl [OF assms(2)]
      by (auto simp: entry_child_def Let_def map_failure_def intro!: exI [of _ v])
  next
    case False
    obtain s2 r2 where f2: "frame_new M s = (s2, r2)" by fastforce
    from R(2) f2 show ?thesis
    proof (cases rule: frame_new_cases)
      case (1 n)
      let ?p = "table_pte M c n"
      have fn: "f \<noteq> n"
        using alloc_fresh [OF R(2) 1(2)] R(3) root_in_table_frames by blast
      then have "pt_frames s2 f = Some es" using 1(3) es(1) by simp
      note w = frame_write_frames [OF this, of ?i ?p]
      have r: "r = Ok n" "s1 = frame_write f ?i ?p s2"
        using assms(3) rd False f2 1(1) by (auto simp: child_frame_def Let_def)
      have p: "pc_valid (to_config M ?p True)" "\<not> pc_huge (to_config M ?p True)" "pc_paddr (to_config M ?p True) = n"
        using alloc_fresh [OF R(2) 1(2)] by (simp_all add: table_pte_def valid_from huge_from paddr_from)
      have s1: "alloc_frame M (pt_alloc s) = (pt_alloc s1, Ok (Some n))"
        "pt_frames s1 = (pt_frames s)(n \<mapsto> replicate (LEN M) (pte_zero M), f \<mapsto> es[?i := ?p])"
        using w r(2) 1 by simp_all
      show ?thesis using link_table [OF assms(1,2) es(1) i False p s1] r(1) by simp
    next
      case 2
      then have r: "r = Err NoMemory" "s1 = s2"
        using assms(3) rd False f2 by (auto simp: child_frame_def Let_def)
      have "extends M owned alloc_inv (Suc (Suc l)) f s s2"
        using 2 R unfolding extends_def table_ready_def by auto
      then show ?thesis using r translate_frames_eq [OF 2(2)] 2(5) by (auto simp: map_failure_def)
    qed
  qed
  show "r \<noteq> Panic" "extends M owned alloc_inv (Suc (Suc l)) f s s1"
    "translate_recursive_with_level M s1 f x (Suc (Suc l)) = translate_recursive_with_level M s f x (Suc (Suc l))"
    "r = Ok n \<Longrightarrow> entry_child M (pt_frames s1) (Suc l) f ?i = Some n"
    "r = Err err \<Longrightarrow> map_failure M (Suc (Suc l)) f v p (Suc v) s s1 err"
    using goal by blast+
qed

section \<open>Below an entry\<close>

lemma child_range_mapped:
  assumes "Suc l \<le> PT_LEVEL M" "table_ready M owned alloc_inv (Suc l) f s" "extends M owned alloc_inv (Suc l) f s s1"
    and same: "\<And>x. translate_recursive_with_level M s1 f x (Suc l) = translate_recursive_with_level M s f x (Suc l)"
    and "entry_child M (pt_frames s1) l f (index_of M l v) = Some d"
    and "range_mapped M owned alloc_inv tmpl huge l d v p n s1 s2 r"
    and "v < n" "(n - 1) div span M l = v div span M l"
  shows "range_mapped M owned alloc_inv tmpl huge (Suc l) f v p n s s2 r"
proof -
  let ?i = "index_of M l v" and ?t = "\<lambda>s x. translate_recursive_with_level M s f x (Suc l)"
    and ?u = "\<lambda>s x. translate_recursive_with_level M s d x l"
  note D = range_mappedD [OF assms(6)]
  have R1: "table_ready M owned alloc_inv (Suc l) f s1" and wf1: "table_wf M (pt_frames s1) (Suc l) f"
    using assms(3) by (auto simp: extends_def table_ready_def)
  have i: "?i < LEN M" using index_bound [OF assms(1)] .
  note E = extend_child [OF assms(1) R1 i assms(5) D(2)]
  have ix: "index_of M l x = ?i \<longleftrightarrow> x div span M l = v div span M l"
    if "x div span M (Suc l) = v div span M (Suc l)" for x
    using index_of_eq_iff [of x M l v] that span_Suc [OF assms(1)] by simp
  have below: "?t s1 x = ?u s1 x" if "index_of M l x = ?i" for x
    using translate_child [OF assms(1) wf1, of x d] assms(5) that by simp
  have inn: "index_of M l x = ?i" if "v \<le> x" "x < n" for x
    using same_window [OF that assms(8)] by (simp add: index_of_def)
  show ?thesis
  proof (rule range_mappedI)
    show "r \<noteq> Panic" using D(1) .
    show "extends M owned alloc_inv (Suc l) f s s2" using extends_trans [OF assms(3) E(1)] .
    show "?t s2 x = ?t s x" if x: "x div span M (Suc l) = v div span M (Suc l)" "\<not> (v \<le> x \<and> x < n)" for x
    proof (cases "index_of M l x = ?i")
      case True
      then have "x div span M l = v div span M l" using ix [OF x(1)] by simp
      then have "?u s2 x = ?u s1 x" using D(3) x(2) by blast
      then show ?thesis using E(2) [of x] below [OF True] same [of x] True by simp
    next
      case False
      then show ?thesis using E(2) [of x] same [of x] by simp
    qed
    show "translates_to M tmpl s2 f (Suc l) x (p + (x - v))" if "r = Ok ()" "v \<le> x" "x < n" for x
    proof -
      have "?t s2 x = ?u s2 x" using E(2) [of x] inn [OF that(2,3)] by simp
      then show ?thesis using D(4) [OF that] translates_to_cong by metis
    qed
    show "map_failure M (Suc l) f v p n s s2 err" if "r = Err err" "\<not> huge" for err
    proof (rule map_failure_mono [OF D(5) [OF that]])
      show "is_ok (?t s x)" if "v \<le> x" "x < n" "is_ok (?u s1 x)" for x
        using below [OF inn [OF that(1,2)]] same [of x] that(3) by simp
    qed simp_all
  qed
qed

section \<open>The whole range\<close>

text \<open>The precondition of one call.\<close>

definition mappable :: "nat \<Rightarrow> nat \<Rightarrow> map_recursive_config \<Rightarrow> ('p, 'a) pt_state \<Rightarrow> bool" where
  "mappable L f c s \<longleftrightarrow>
     cfg_level c = L \<and> 0 < L \<and> L \<le> PT_LEVEL M \<and> table_ready M owned alloc_inv L f s \<and>
     PAGE_SIZE M dvd start_vaddr c \<and> PAGE_SIZE M dvd start_paddr c \<and> PAGE_SIZE M dvd end_vaddr c \<and>
     end_vaddr c \<le> U64_MAX \<and>
     (start_vaddr c < end_vaddr c \<longrightarrow>
        (end_vaddr c - 1) div span M L = start_vaddr c div span M L \<and>
        start_paddr c + (end_vaddr c - start_vaddr c) \<le> U64_MAX) \<and>
     (\<forall>q. start_paddr c \<le> q \<longrightarrow> q < start_paddr c + (end_vaddr c - start_vaddr c) \<longrightarrow> PAGE_SIZE M dvd q \<longrightarrow> addr_ok q)"

lemma mappable_rest:
  assumes "mappable L f c s" "extends M owned alloc_inv L f s s1"
    and "start_vaddr c < n" "n \<le> end_vaddr c" "PAGE_SIZE M dvd n"
  shows "mappable L f (c\<lparr>start_vaddr := n, start_paddr := start_paddr c + (n - start_vaddr c)\<rparr>) s1"
proof -
  have "n div span M L = start_vaddr c div span M L" if "n < end_vaddr c"
    using assms(1,3) that same_window [of "start_vaddr c" n "end_vaddr c" "span M L"]
    by (simp add: mappable_def)
  moreover have "PAGE_SIZE M dvd start_paddr c + (n - start_vaddr c)"
    using assms(1,5) by (simp add: mappable_def dvd_diff_nat)
  ultimately show ?thesis using assms by (auto simp: mappable_def extends_def)
qed

lemma mappable_child:
  assumes "mappable (Suc l) f c s" "extends M owned alloc_inv (Suc l) f s s1" "0 < l"
    and "entry_child M (pt_frames s1) l f (index_of M l (start_vaddr c)) = Some d"
    and "start_vaddr c < n" "n \<le> end_vaddr c" "PAGE_SIZE M dvd n" "(n - 1) div span M l = start_vaddr c div span M l"
  shows "mappable l d (c\<lparr>end_vaddr := n, cfg_level := cfg_level c - 1\<rparr>) s1"
proof -
  have R1: "table_wf M (pt_frames s1) (Suc l) f" "alloc_inv (pt_alloc s1)"
    "table_frames M (pt_frames s1) (Suc l) f \<subseteq> owned (pt_alloc s1)"
    using assms(2) by (auto simp: extends_def table_ready_def)
  have "index_of M l (start_vaddr c) < LEN M" using assms(1) by (intro index_bound) (simp add: mappable_def)
  note ch = table_wf_child [OF R1(1) this assms(4)]
  then have "table_ready M owned alloc_inv l d s1" using R1 by (auto simp: table_ready_def)
  then show ?thesis using assms by (auto simp: mappable_def)
qed

text \<open>The end of a round below an entry: the saturation never shows, since the range ends inside the word.\<close>

lemma next_level_vaddr:
  assumes "Suc l \<le> PT_LEVEL M" "v < e" "e \<le> U64_MAX" "PAGE_SIZE M dvd e"
  defines "n \<equiv> min (current_entry_end v (span M l)) e"
  shows "v < n" "n \<le> e" "PAGE_SIZE M dvd n" "(n - 1) div span M l = v div span M l"
proof -
  show vn: "v < n" using map_progress [OF span_pos assms(2,3)] by (simp add: n_def)
  show "n \<le> e" by (simp add: n_def)
  let ?stop = "(v div span M l + 1) * span M l"
  have "v div span M l + 1 \<le> U64_MAX"
    using assms(2,3) div_le_dividend [of v "span M l"] by linarith
  then have n: "n = min ?stop e"
    using assms(3) by (auto simp: n_def current_entry_end_def saturating_mul_def saturating_add_def)
  have "PAGE_SIZE M dvd ?stop" using page_dvd_span [of l] assms(1) by simp
  then show "PAGE_SIZE M dvd n" using n assms(4) by (simp add: min_def)
  have "v div span M l * span M l \<le> n - 1" using align_down_le [of v "span M l"] vn by linarith
  moreover have "n - 1 < v div span M l * span M l + span M l" using n vn by auto
  ultimately show "(n - 1) div span M l = v div span M l" by (rule mult_between_unique)
qed

text \<open>Either kind of leaf entry covers exactly the span of its level, which lies within the range.\<close>

lemma leaf_round:
  assumes "mappable (Suc l) f c s" "start_vaddr c < end_vaddr c" "use_huge M c \<or> cfg_level c = 1"
  shows "use_huge M c \<longleftrightarrow> 0 < l" "span M l dvd start_vaddr c" "start_vaddr c + span M l \<le> end_vaddr c"
    "addr_ok (start_paddr c)" "0 < l \<Longrightarrow> allow_huge c"
proof -
  have m: "cfg_level c = Suc l" "Suc l \<le> PT_LEVEL M" "PAGE_SIZE M dvd start_vaddr c" "PAGE_SIZE M dvd end_vaddr c"
    "PAGE_SIZE M dvd start_paddr c"
    using assms(1) by (auto simp: mappable_def)
  note ls = level_size_span [OF m(2)]
  show h: "use_huge M c \<longleftrightarrow> 0 < l" using assms(3) m(1) by (auto simp: use_huge_def)
  show "span M l dvd start_vaddr c"
    using h m(1,3) ls by (cases "l = 0") (auto simp: use_huge_def dvd_eq_mod_eq_0)
  have "PAGE_SIZE M \<le> end_vaddr c - start_vaddr c"
    using assms(2) m(3,4) by (intro dvd_imp_le dvd_diff_nat) simp_all
  then show "start_vaddr c + span M l \<le> end_vaddr c"
    using h m(1) ls assms(2) by (cases "l = 0") (auto simp: use_huge_def)
  show "addr_ok (start_paddr c)" using assms(1,2) by (simp add: mappable_def)
  show "allow_huge c" if "0 < l" using that h by (simp add: use_huge_def)
qed

lemma map_rest:
  assumes "mappable L f c s" "start_vaddr c < n" "n \<le> end_vaddr c" "PAGE_SIZE M dvd n"
    and A: "range_mapped M owned alloc_inv (pte_template c) (allow_huge c) L f (start_vaddr c) (start_paddr c) n s s1 (Ok ())"
    and res: "map_range_recursive M f
        (c\<lparr>start_vaddr := n, start_paddr := start_paddr c + (n - start_vaddr c)\<rparr>) s1 = (s', r)"
    and IH: "\<And>s' r. mappable L f (c\<lparr>start_vaddr := n, start_paddr := start_paddr c + (n - start_vaddr c)\<rparr>) s1 \<Longrightarrow>
        map_range_recursive M f (c\<lparr>start_vaddr := n, start_paddr := start_paddr c + (n - start_vaddr c)\<rparr>) s1 = (s', r) \<Longrightarrow>
        range_mapped M owned alloc_inv (pte_template c) (allow_huge c) L f n (start_paddr c + (n - start_vaddr c))
          (end_vaddr c) s1 s' r"
  shows "range_mapped M owned alloc_inv (pte_template c) (allow_huge c) L f (start_vaddr c) (start_paddr c)
           (end_vaddr c) s s' r"
proof (cases "n < end_vaddr c")
  case True
  have "mappable L f (c\<lparr>start_vaddr := n, start_paddr := start_paddr c + (n - start_vaddr c)\<rparr>) s1"
    using mappable_rest [OF assms(1) range_mappedD(2) [OF A] assms(2,3,4)] .
  note B = IH [OF this res]
  have "(end_vaddr c - 1) div span M L = start_vaddr c div span M L"
    using assms(1) True assms(2) by (simp add: mappable_def)
  from range_mapped_append [OF A B assms(2) True this] show ?thesis .
next
  case False
  then have "n = end_vaddr c" "s' = s1" "r = Ok ()"
    using assms(3) res by (auto simp: map_range_recursive.simps)
  with A show ?thesis by simp
qed

text \<open>One round of the loop, with the guards that hold inside the range already decided.\<close>

lemma map_leaf_round:
  assumes "Suc l \<le> PT_LEVEL M" "cfg_level c = Suc l" "start_vaddr c < end_vaddr c" "use_huge M c \<or> cfg_level c = 1"
    and "start_vaddr c + span M l \<le> U64_MAX" "start_paddr c + span M l \<le> U64_MAX"
  shows "map_range_recursive M f c s =
     (case write_leaf M c f (index_of M l (start_vaddr c)) (use_huge M c) s of
        (s1, Ok _) \<Rightarrow>
          map_range_recursive M f
            (c\<lparr>start_vaddr := start_vaddr c + span M l, start_paddr := start_paddr c + span M l\<rparr>) s1
      | (s1, Err e) \<Rightarrow> (s1, Err e)
      | (s1, Panic) \<Rightarrow> (s1, Panic))"
proof -
  have g: "\<not> U64_MAX < start_vaddr c + span M l" "\<not> U64_MAX < start_paddr c + span M l" "span M l \<noteq> 0"
    using assms(5,6) by simp_all
  show ?thesis
    unfolding map_range_recursive.simps [of M f c s] assms(2) virt_to_index_of [OF assms(1)]
      level_size_span [OF assms(1)] Let_def
    using assms(2,3,4) g by (simp del: span_0)
qed

lemma map_child_round:
  assumes "Suc l \<le> PT_LEVEL M" "cfg_level c = Suc l" "start_vaddr c < end_vaddr c" "\<not> (use_huge M c \<or> cfg_level c = 1)"
    and "end_vaddr c \<le> U64_MAX" "start_paddr c + (end_vaddr c - start_vaddr c) \<le> U64_MAX"
  defines "n \<equiv> min (current_entry_end (start_vaddr c) (span M l)) (end_vaddr c)"
  shows "map_range_recursive M f c s =
     (case child_frame M c f (index_of M l (start_vaddr c)) s of
        (s1, Ok child) \<Rightarrow>
          (case map_range_recursive M child (c\<lparr>end_vaddr := n, cfg_level := cfg_level c - 1\<rparr>) s1 of
             (s2, Ok _) \<Rightarrow>
               map_range_recursive M f
                 (c\<lparr>start_vaddr := n, start_paddr := start_paddr c + (n - start_vaddr c)\<rparr>) s2
           | (s2, Err e) \<Rightarrow> (s2, Err e)
           | (s2, Panic) \<Rightarrow> (s2, Panic))
      | (s1, Err e) \<Rightarrow> (s1, Err e)
      | (s1, Panic) \<Rightarrow> (s1, Panic))"
proof -
  have n: "start_vaddr c < n" "n \<le> end_vaddr c"
    using map_progress [OF span_pos assms(3,5), of l] by (auto simp: n_def)
  then have g: "\<not> U64_MAX < start_paddr c + (n - start_vaddr c)" "span M l \<noteq> 0"
    using assms(6) by simp_all
  show ?thesis
    unfolding map_range_recursive.simps [of M f c s] assms(2) virt_to_index_of [OF assms(1)]
      level_size_span [OF assms(1)] Let_def n_def [symmetric]
    using assms(2,3,4) n g by (simp del: span_0)
qed

lemma map_range_spec:
  assumes "mappable L f c s" "map_range_recursive M f c s = (s', r)"
  shows "range_mapped M owned alloc_inv (pte_template c) (allow_huge c) L f (start_vaddr c) (start_paddr c)
           (end_vaddr c) s s' r"
  using assms
proof (induction L arbitrary: f c s s' r)
  case 0
  then show ?case by (simp add: mappable_def)
next
  case (Suc l)
  note outer = Suc.IH
  from Suc.prems show ?case
  proof (induction "end_vaddr c - start_vaddr c" arbitrary: c s s' r rule: less_induct)
    case less
    let ?v = "start_vaddr c" and ?p = "start_paddr c" and ?e = "end_vaddr c"
    have m: "cfg_level c = Suc l" "Suc l \<le> PT_LEVEL M" "table_ready M owned alloc_inv (Suc l) f s"
      "PAGE_SIZE M dvd ?v" "PAGE_SIZE M dvd ?e" "?e \<le> U64_MAX"
      using less.prems(1) by (auto simp: mappable_def)
    show ?case
    proof (cases "?v < ?e")
      case False
      with less.prems(2) have "s' = s" "r = Ok ()" by (simp_all add: map_range_recursive.simps [of M f c s])
      with range_mapped_empty [OF m(3) False] show ?thesis by simp
    next
      case lt: True
      have pa: "?p + (?e - ?v) \<le> U64_MAX" using less.prems(1) lt by (simp add: mappable_def)
      have rest: "range_mapped M owned alloc_inv (pte_template c) (allow_huge c) (Suc l) f ?v ?p ?e s s' r"
        if "?v < n" "n \<le> ?e" "PAGE_SIZE M dvd n"
          "range_mapped M owned alloc_inv (pte_template c) (allow_huge c) (Suc l) f ?v ?p n s s1 (Ok ())"
          "map_range_recursive M f (c\<lparr>start_vaddr := n, start_paddr := ?p + (n - ?v)\<rparr>) s1 = (s', r)" for n s1
        using less.hyps [of "c\<lparr>start_vaddr := n, start_paddr := ?p + (n - ?v)\<rparr>"] that(1) lt
        by (intro map_rest [OF less.prems(1) that]) simp
      show ?thesis
      proof (cases "use_huge M c \<or> cfg_level c = 1")
        case leaf: True
        note lr = leaf_round [OF less.prems(1) lt leaf]
        let ?n = "?v + span M l"
        obtain s1 r1 where w: "write_leaf M c f (index_of M l ?v) (use_huge M c) s = (s1, r1)" by fastforce
        have W: "range_mapped M owned alloc_inv (pte_template c) (allow_huge c) (Suc l) f ?v ?p ?n s s1 r1"
          using write_leaf_mapped [OF m(2,3) lr(4,1,2) _ w] lr(5) by blast
        have n: "?v < ?n" "PAGE_SIZE M dvd ?n" "?n - ?v = span M l"
          using m(4) page_dvd_span [of l] m(2) by simp_all
        have "?n \<le> U64_MAX" "?p + span M l \<le> U64_MAX" using lr(3) m(6) pa by linarith+
        note unf = less.prems(2) [unfolded map_leaf_round [OF m(2,1) lt leaf this] w prod.case]
        show ?thesis
        proof (cases r1)
          case (Ok u)
          then have "map_range_recursive M f (c\<lparr>start_vaddr := ?n, start_paddr := ?p + (?n - ?v)\<rparr>) s1 = (s', r)"
            using unf n(3) by simp
          with rest [OF n(1) lr(3) n(2)] W Ok show ?thesis by simp
        next
          case (Err e)
          with unf have "s' = s1" "r = Err e" by simp_all
          with range_mapped_error [of M owned alloc_inv _ _ _ _ _ _ ?n] W Err lr(3) show ?thesis by blast
        qed (use W range_mappedD(1) in blast)
      next
        case child: False
        then obtain k where l: "l = Suc k" using m(1) by (cases l) auto
        let ?n = "min (current_entry_end ?v (span M l)) ?e"
        note n = next_level_vaddr [OF m(2) lt m(6,5)]
        obtain s1 r1 where cf: "child_frame M c f (index_of M l ?v) s = (s1, r1)" by fastforce
        note unf = less.prems(2) [unfolded map_child_round [OF m(2,1) lt child m(6) pa] cf prod.case]
        note C = child_frame_spec [OF m(2,3) [unfolded l] cf [unfolded l], folded l]
        show ?thesis
        proof (cases r1)
          case (Ok d)
          note ch = C(4) [OF Ok]
          let ?c = "c\<lparr>end_vaddr := ?n, cfg_level := cfg_level c - 1\<rparr>"
          obtain s2 r2 where s2: "map_range_recursive M d ?c s1 = (s2, r2)" by fastforce
          have "mappable l d ?c s1" using mappable_child [OF less.prems(1) C(2) _ ch n] l by simp
          from outer [OF this s2]
          have K: "range_mapped M owned alloc_inv (pte_template c) (allow_huge c) l d ?v ?p ?n s1 s2 r2" by simp
          note F = child_range_mapped [OF m(2,3) C(2,3) ch K n(1,4)]
          show ?thesis
          proof (cases r2)
            case (Ok u)
            have "map_range_recursive M f (c\<lparr>start_vaddr := ?n, start_paddr := ?p + (?n - ?v)\<rparr>) s2 = (s', r)"
              using unf \<open>r1 = Ok d\<close> s2 Ok by simp
            with rest [OF n(1,2,3)] F Ok show ?thesis by simp
          next
            case (Err e)
            with unf \<open>r1 = Ok d\<close> s2 have "s' = s2" "r = Err e" by simp_all
            with range_mapped_error [of M owned alloc_inv _ _ _ _ _ _ ?n] F Err n(2) show ?thesis by blast
          qed (use F range_mappedD(1) in blast)
        next
          case (Err e)
          with unf have r: "s' = s1" "r = Err e" by simp_all
          have "map_failure M (Suc l) f ?v ?p ?e s s1 e"
            using map_failure_mono [OF C(5) [OF Err, of ?p], of ?v ?e ?p s f "Suc l"] lt by simp
          then show ?thesis unfolding r using C(2,3) by (intro range_mappedI) auto
        qed (use C(1) in blast)
      qed
    qed
  qed
qed

section \<open>The public operations\<close>

text \<open>What a caller of \<open>map\<close> has to provide: the range does not wrap around the addresses of the table.\<close>

definition map_request :: "nat \<Rightarrow> map_config \<Rightarrow> ('p, 'a) pt_state \<Rightarrow> bool" where
  "map_request root c s \<longleftrightarrow>
     table_ready M owned alloc_inv (PT_LEVEL M) root s \<and> PAGE_SIZE M dvd mc_size c \<and>
     (mc_vaddr c + mc_size c - 1) div span M (PT_LEVEL M) = mc_vaddr c div span M (PT_LEVEL M) \<and>
     (\<forall>q. mc_paddr c \<le> q \<longrightarrow> q < mc_paddr c + mc_size c \<longrightarrow> PAGE_SIZE M dvd q \<longrightarrow> addr_ok q)"

lemma translate_cong:
  assumes "translate_recursive_with_level M s' f x (PT_LEVEL M) = translate_recursive_with_level M s f x (PT_LEVEL M)"
  shows "translate M s' f x = translate M s f x"
  using assms by (simp add: translate_def)

lemma translates_to_translate:
  assumes "translates_to M tmpl s f (PT_LEVEL M) x y" "y \<le> U64_MAX"
  shows "\<exists>q h. translate M s f x =
    Ok (y, from_config M (tmpl\<lparr>pc_paddr := q, pc_valid := True, pc_huge := h, pc_is_dir := h\<rparr>))"
  using assms by (fastforce simp: translates_to_def translate_def Let_def)

lemma is_ok_translate:
  assumes "is_ok (translate_recursive_with_level M s f x (PT_LEVEL M))"
  shows "translate M s f x \<noteq> Err NotMapped"
  using assms by (cases "translate_recursive_with_level M s f x (PT_LEVEL M)") (auto simp: translate_def Let_def split: if_splits)

lemma pt_map_run:
  assumes "pt_map M root c s = (s', r)"
  shows "(\<exists>e. r = Err e \<and> s' = s \<and> map_error M root c s s' e) \<or>
     mc_size c \<noteq> 0 \<and> PAGE_SIZE M dvd mc_vaddr c \<and> PAGE_SIZE M dvd mc_paddr c \<and>
     mc_vaddr c + mc_size c \<le> U64_MAX \<and> mc_paddr c + mc_size c \<le> U64_MAX \<and>
     map_range_recursive M root
       \<lparr>start_vaddr = mc_vaddr c, start_paddr = mc_paddr c, end_vaddr = mc_vaddr c + mc_size c,
        cfg_level = PT_LEVEL M, allow_huge = mc_allow_huge c, cfg_flush = mc_flush c,
        pte_template = mc_pte c\<rparr> s = (s', r)"
  using assms
  by (auto simp: pt_map_def validate_map_config_def checked_simps dvd_eq_mod_eq_0 map_error_def split: if_splits)

lemma pt_map_spec:
  assumes "map_request root c s" "pt_map M root c s = (s', r)"
  shows "r \<noteq> Panic" "table_ready M owned alloc_inv (PT_LEVEL M) root s'"
    "x div span M (PT_LEVEL M) = mc_vaddr c div span M (PT_LEVEL M) \<Longrightarrow>
       \<not> (mc_vaddr c \<le> x \<and> x < mc_vaddr c + mc_size c) \<Longrightarrow> translate M s' root x = translate M s root x"
    "r = Ok () \<Longrightarrow> mc_vaddr c \<le> x \<Longrightarrow> x < mc_vaddr c + mc_size c \<Longrightarrow>
       \<exists>q h. translate M s' root x = Ok (mc_paddr c + (x - mc_vaddr c),
         from_config M ((mc_pte c)\<lparr>pc_paddr := q, pc_valid := True, pc_huge := h, pc_is_dir := h\<rparr>))"
    "r = Err err \<Longrightarrow> \<not> mc_allow_huge c \<Longrightarrow>
       map_error M root c s s' err"
proof -
  let ?c = "\<lparr>start_vaddr = mc_vaddr c, start_paddr = mc_paddr c, end_vaddr = mc_vaddr c + mc_size c,
        cfg_level = PT_LEVEL M, allow_huge = mc_allow_huge c, cfg_flush = mc_flush c,
        pte_template = mc_pte c\<rparr>"
  have Q: "table_ready M owned alloc_inv (PT_LEVEL M) root s" using assms(1) by (simp add: map_request_def)
  have "r \<noteq> Panic \<and> table_ready M owned alloc_inv (PT_LEVEL M) root s' \<and>
    (\<forall>x. x div span M (PT_LEVEL M) = mc_vaddr c div span M (PT_LEVEL M) \<longrightarrow>
       \<not> (mc_vaddr c \<le> x \<and> x < mc_vaddr c + mc_size c) \<longrightarrow> translate M s' root x = translate M s root x) \<and>
    (r = Ok () \<longrightarrow> (\<forall>x. mc_vaddr c \<le> x \<longrightarrow> x < mc_vaddr c + mc_size c \<longrightarrow>
       (\<exists>q h. translate M s' root x = Ok (mc_paddr c + (x - mc_vaddr c),
         from_config M ((mc_pte c)\<lparr>pc_paddr := q, pc_valid := True, pc_huge := h, pc_is_dir := h\<rparr>))))) \<and>
    (\<forall>err. r = Err err \<longrightarrow> \<not> mc_allow_huge c \<longrightarrow>
       map_error M root c s s' err)"
    using pt_map_run [OF assms(2)]
  proof (elim disjE conjE exE)
    fix e assume "r = Err e" "s' = s" "map_error M root c s s' e"
    with Q show ?thesis by auto
  next
    assume a: "PAGE_SIZE M dvd mc_vaddr c" "PAGE_SIZE M dvd mc_paddr c" "mc_vaddr c + mc_size c \<le> U64_MAX"
      "mc_paddr c + mc_size c \<le> U64_MAX" and m: "map_range_recursive M root ?c s = (s', r)"
    have "mappable (PT_LEVEL M) root ?c s"
      using assms(1) a shape by (simp add: mappable_def map_request_def meta_wf_def)
    note D = range_mappedD [OF map_range_spec [OF this m], simplified]
    have "\<exists>q h. translate M s' root x = Ok (mc_paddr c + (x - mc_vaddr c),
        from_config M ((mc_pte c)\<lparr>pc_paddr := q, pc_valid := True, pc_huge := h, pc_is_dir := h\<rparr>))"
      if "r = Ok ()" "mc_vaddr c \<le> x" "x < mc_vaddr c + mc_size c" for x
      using D(4) [OF that] a(4) that by (intro translates_to_translate) auto
    moreover have "map_error M root c s s' err" if "r = Err err" "\<not> mc_allow_huge c" for err
      using D(5) [OF that] is_ok_translate by (cases err) (auto simp: map_failure_def map_error_def)
    ultimately show ?thesis using D(1,2,3) translate_cong unfolding extends_def by blast
  qed
  then show "r \<noteq> Panic" "table_ready M owned alloc_inv (PT_LEVEL M) root s'"
    "x div span M (PT_LEVEL M) = mc_vaddr c div span M (PT_LEVEL M) \<Longrightarrow>
       \<not> (mc_vaddr c \<le> x \<and> x < mc_vaddr c + mc_size c) \<Longrightarrow> translate M s' root x = translate M s root x"
    "r = Ok () \<Longrightarrow> mc_vaddr c \<le> x \<Longrightarrow> x < mc_vaddr c + mc_size c \<Longrightarrow>
       \<exists>q h. translate M s' root x = Ok (mc_paddr c + (x - mc_vaddr c),
         from_config M ((mc_pte c)\<lparr>pc_paddr := q, pc_valid := True, pc_huge := h, pc_is_dir := h\<rparr>))"
    "r = Err err \<Longrightarrow> \<not> mc_allow_huge c \<Longrightarrow>
       map_error M root c s s' err"
    by blast+
qed

lemma pt_new_spec:
  assumes "alloc_inv (pt_alloc s)" "pt_new M s = (s', Ok root)"
  shows "table_ready M owned alloc_inv (PT_LEVEL M) root s'" "translate M s' root x = Err NotMapped"
proof -
  obtain l where l: "PT_LEVEL M = Suc l" using shape by (cases "PT_LEVEL M") (auto simp: meta_wf_def)
  from assms(2) have f: "frame_new M s = (s', Ok root)" by (simp add: pt_new_def)
  from assms(1) f have a: "alloc_frame M (pt_alloc s) = (pt_alloc s', Ok (Some root))"
    and fr: "pt_frames s' root = Some (replicate (LEN M) (pte_zero M))"
    by (cases rule: frame_new_cases; simp)+
  have "Suc l \<le> PT_LEVEL M" using l by simp
  note e = empty_table [OF this fr]
  show "table_ready M owned alloc_inv (PT_LEVEL M) root s'"
    using alloc_fresh [OF assms(1) a] e unfolding l table_ready_def by simp
  show "translate M s' root x = Err NotMapped" using e(3) by (simp add: translate_def l)
qed

end

end
