(* ===== verification/Ranges_Ext.thy ===== *)
theory Ranges_Ext
  imports Prelude
begin

text \<open>
  The range set of \<open>crates/ranges-ext/src/lib.rs\<close>: a vector of kinded half-open ranges into which
  \<open>merge_add\<close> inserts a range, cutting away what it may overwrite and joining neighbours of one kind.

  The trait \<open>RangeOp\<close> is a record of functions that the operations take as an argument.  The trait
  \<open>VecOp\<close> is a list; what its two implementations differ in, when \<open>push\<close> and \<open>insert\<close> report that the
  vector is full, is the argument \<open>full\<close>: \<open>alloc::vec::Vec\<close> (\<open>vec.rs\<close>) is never full, and
  \<open>heapless::Vec<T, N>\<close> (\<open>less.rs\<close>) is full according to a package outside the repository.
\<close>

section \<open>The traits\<close>

record ('x, 't, 'k) range_op =
  ro_start :: "'x \<Rightarrow> 't"
  ro_end :: "'x \<Rightarrow> 't"
  ro_kind :: "'x \<Rightarrow> 'k"
  ro_overwritable :: "'x \<Rightarrow> 'x \<Rightarrow> bool"
  ro_mergeable :: "'x \<Rightarrow> 'x \<Rightarrow> bool"
  ro_clone_with_range :: "'x \<Rightarrow> 't \<Rightarrow> 't \<Rightarrow> 'x"

definition default_mergeable :: "('x \<Rightarrow> 'k) \<Rightarrow> 'x \<Rightarrow> 'x \<Rightarrow> bool" where
  "default_mergeable kind self other \<longleftrightarrow> kind self = kind other"

datatype 'x range_error = Capacity | Conflict (cnew: 'x) (cexisting: 'x)

definition vec_push :: "('x list \<Rightarrow> bool) \<Rightarrow> 'x list \<Rightarrow> 'x \<Rightarrow> 'x list option" where
  "vec_push full xs item = (if full xs then None else Some (xs @ [item]))"

definition vec_insert :: "('x list \<Rightarrow> bool) \<Rightarrow> 'x list \<Rightarrow> nat \<Rightarrow> 'x \<Rightarrow> 'x list option" where
  "vec_insert full xs i item = (if full xs then None else Some (take i xs @ item # drop i xs))"

definition vec_remove :: "'x list \<Rightarrow> nat \<Rightarrow> 'x list" where
  "vec_remove xs i = take i xs @ drop (Suc i) xs"

definition never_full :: "'x list \<Rightarrow> bool" where
  "never_full xs = False"

section \<open>Joining neighbours of one kind\<close>

definition joinable :: "('x, 't::linorder, 'k) range_op \<Rightarrow> 'x \<Rightarrow> 'x \<Rightarrow> bool" where
  "joinable D current nxt \<longleftrightarrow>
     ro_mergeable D current nxt \<and>
     ro_end D current \<ge> ro_start D nxt \<and> ro_end D nxt \<ge> ro_start D current"

text \<open>The two nested \<open>for\<close> loops visit the pairs in lexicographic order and stop at the first hit.\<close>

definition find_merge_pair :: "('x, 't::linorder, 'k) range_op \<Rightarrow> 'x list \<Rightarrow> (nat \<times> nat) option" where
  "find_merge_pair D xs =
     find (\<lambda>(i, j). joinable D (xs ! i) (xs ! j))
       (concat (map (\<lambda>i. map (Pair i) [i + 1 ..< length xs]) [0 ..< length xs]))"

definition join_range :: "('x, 't::linorder, 'k) range_op \<Rightarrow> 'x \<Rightarrow> 'x \<Rightarrow> 'x" where
  "join_range D current nxt =
     ro_clone_with_range D current
       (min (ro_start D current) (ro_start D nxt)) (max (ro_end D current) (ro_end D nxt))"

lemma find_merge_pair_Some:
  assumes "find_merge_pair D xs = Some (i, j)"
  shows "i < j \<and> j < length xs \<and> joinable D (xs ! i) (xs ! j)"
  using assms by (auto simp: find_merge_pair_def dest!: find_SomeD)

lemma find_merge_pair_None:
  assumes "find_merge_pair D xs = None" "i < j" "j < length xs"
  shows "\<not> joinable D (xs ! i) (xs ! j)"
proof -
  let ?ps = "concat (map (\<lambda>i. map (Pair i) [i + 1 ..< length xs]) [0 ..< length xs])"
  have "(i, j) \<in> set ?ps" using assms(2,3) by (auto intro!: bexI [of _ i])
  with assms(1) show ?thesis unfolding find_merge_pair_def find_None_iff by fast
qed

function merge_same_kind ::
  "('x, 't::linorder, 'k) range_op \<Rightarrow> ('x list \<Rightarrow> bool) \<Rightarrow> 'x list \<Rightarrow> 'x list"
where
  "merge_same_kind D full xs =
     (case find_merge_pair D xs of
        None \<Rightarrow> xs
      | Some (i, j) \<Rightarrow>
          (let merged = join_range D (xs ! i) (xs ! j);
               ys = vec_remove (vec_remove xs j) i
           in merge_same_kind D full
                (case vec_insert full ys i merged of None \<Rightarrow> ys | Some zs \<Rightarrow> zs)))"
  by pat_completeness auto
termination
  by (relation "measure (\<lambda>(D, full, xs). length xs)")
     (auto dest!: find_merge_pair_Some simp: vec_insert_def vec_remove_def split: option.splits if_splits)

declare merge_same_kind.simps [simp del]

section \<open>Adding a range\<close>

function merge_add_loop ::
  "('x, 't::linorder, 'k) range_op \<Rightarrow> ('x list \<Rightarrow> bool) \<Rightarrow> 'x \<Rightarrow> nat \<Rightarrow> 'x list \<Rightarrow>
   'x list \<times> ('x range_error, unit) result"
where
  "merge_add_loop D full item i xs =
     (if i < length xs then
        let existing = xs ! i in
        if ro_start D item < ro_end D existing \<and> ro_end D item > ro_start D existing then
          if \<not> (ro_overwritable D existing item \<or> ro_mergeable D existing item)
          then (xs, Err (Conflict item existing))
          else if ro_start D item \<le> ro_start D existing \<and> ro_end D item \<ge> ro_end D existing
          then merge_add_loop D full item i (vec_remove xs i)
          else if ro_start D item > ro_start D existing \<and> ro_end D item < ro_end D existing
          then
            (let left = ro_clone_with_range D existing (ro_start D existing) (ro_start D item);
                 right = ro_clone_with_range D existing (ro_end D item) (ro_end D existing);
                 ys = vec_remove xs i
             in case vec_insert full ys i left of
                  None \<Rightarrow> (ys, Err Capacity)
                | Some ys1 \<Rightarrow>
                    (case vec_insert full ys1 (i + 1) right of
                       None \<Rightarrow> (ys1, Err Capacity)
                     | Some ys2 \<Rightarrow> merge_add_loop D full item (i + 2) ys2))
          else if ro_start D item \<le> ro_start D existing
          then
            (let adjusted = ro_clone_with_range D existing (ro_end D item) (ro_end D existing);
                 ys = vec_remove xs i
             in case vec_insert full ys i adjusted of
                  None \<Rightarrow> (ys, Err Capacity)
                | Some ys1 \<Rightarrow> merge_add_loop D full item (i + 1) ys1)
          else
            (let adjusted = ro_clone_with_range D existing (ro_start D existing) (ro_start D item);
                 ys = vec_remove xs i
             in case vec_insert full ys i adjusted of
                  None \<Rightarrow> (ys, Err Capacity)
                | Some ys1 \<Rightarrow> merge_add_loop D full item (i + 1) ys1)
        else merge_add_loop D full item (i + 1) xs
      else (xs, Ok ()))"
  by pat_completeness auto
termination
  by (relation "measure (\<lambda>(D, full, item, i, xs). length xs - i)")
     (auto simp: vec_insert_def vec_remove_def split: if_splits)

declare merge_add_loop.simps [simp del]

definition merge_add ::
  "('x, 't::linorder, 'k) range_op \<Rightarrow> ('x list \<Rightarrow> bool) \<Rightarrow> 'x list \<Rightarrow> 'x \<Rightarrow>
   'x list \<times> ('x range_error, unit) result"
where
  "merge_add D full xs item =
     (case merge_add_loop D full item 0 xs of
        (ys, Ok _) \<Rightarrow>
          (case vec_push full ys item of
             None \<Rightarrow> (ys, Err Capacity)
           | Some zs \<Rightarrow> (merge_same_kind D full zs, Ok ()))
      | (ys, Err e) \<Rightarrow> (ys, Err e)
      | (ys, Panic) \<Rightarrow> (ys, Panic))"

section \<open>What a range set means\<close>

definition cover :: "('x, 't::linorder, 'k) range_op \<Rightarrow> 'x \<Rightarrow> 't set" where
  "cover D x = {ro_start D x ..< ro_end D x}"

lemma in_cover [simp]: "a \<in> cover D x \<longleftrightarrow> ro_start D x \<le> a \<and> a < ro_end D x"
  by (simp add: cover_def)

definition pairwise_disjoint :: "('x, 't::linorder, 'k) range_op \<Rightarrow> 'x list \<Rightarrow> bool" where
  "pairwise_disjoint D xs \<longleftrightarrow> sorted_wrt (\<lambda>x y. cover D x \<inter> cover D y = {}) xs"

definition kind_at :: "('x, 't::linorder, 'k) range_op \<Rightarrow> 'x list \<Rightarrow> 't \<Rightarrow> 'k option" where
  "kind_at D xs a = map_option (ro_kind D) (find (\<lambda>x. a \<in> cover D x) xs)"

definition wf_item :: "('x, 't::linorder, 'k) range_op \<Rightarrow> 'x \<Rightarrow> bool" where
  "wf_item D x \<longleftrightarrow> ro_start D x \<le> ro_end D x"

definition range_set_inv :: "('x, 't::linorder, 'k) range_op \<Rightarrow> 'x list \<Rightarrow> bool" where
  "range_set_inv D xs \<longleftrightarrow> pairwise_disjoint D xs \<and> (\<forall>x \<in> set xs. wf_item D x)"

text \<open>Ranges that are not empty and end below a bound.\<close>

definition proper :: "('x, 't::linorder, 'k) range_op \<Rightarrow> 't \<Rightarrow> 'x \<Rightarrow> bool" where
  "proper D B x \<longleftrightarrow> ro_start D x < ro_end D x \<and> ro_end D x \<le> B"

text \<open>The existing ranges that stop an insertion.\<close>

definition blocks :: "('x, 't::linorder, 'k) range_op \<Rightarrow> 'x \<Rightarrow> 'x \<Rightarrow> bool" where
  "blocks D item x \<longleftrightarrow> ro_start D item < ro_end D x \<and> ro_end D item > ro_start D x \<and>
     \<not> ro_overwritable D x item \<and> ro_kind D x \<noteq> ro_kind D item"

lemma pairwise_disjoint_append:
  "pairwise_disjoint D (xs @ ys) \<longleftrightarrow> pairwise_disjoint D xs \<and> pairwise_disjoint D ys \<and>
     (\<forall>x \<in> set xs. \<forall>y \<in> set ys. cover D x \<inter> cover D y = {})"
  by (auto simp: pairwise_disjoint_def sorted_wrt_append)

lemma pairwise_disjoint_Cons:
  "pairwise_disjoint D (x # xs) \<longleftrightarrow>
     (\<forall>y \<in> set xs. cover D x \<inter> cover D y = {}) \<and> pairwise_disjoint D xs"
  by (auto simp: pairwise_disjoint_def)

lemma pairwise_disjoint_unique:
  assumes "pairwise_disjoint D xs" "x \<in> set xs" "y \<in> set xs" "a \<in> cover D x" "a \<in> cover D y"
  shows "x = y"
  using assms by (induction xs) (fastforce simp: pairwise_disjoint_Cons)+

lemma kind_at_Some:
  assumes "pairwise_disjoint D xs"
  shows "kind_at D xs a = Some k \<longleftrightarrow> (\<exists>x \<in> set xs. a \<in> cover D x \<and> ro_kind D x = k)"
proof
  assume "kind_at D xs a = Some k"
  then show "\<exists>x \<in> set xs. a \<in> cover D x \<and> ro_kind D x = k"
    by (auto simp: kind_at_def dest!: find_SomeD)
next
  assume "\<exists>x \<in> set xs. a \<in> cover D x \<and> ro_kind D x = k"
  then obtain x where x: "x \<in> set xs" "a \<in> cover D x" "ro_kind D x = k" by auto
  then obtain y where y: "find (\<lambda>x. a \<in> cover D x) xs = Some y"
    by (cases "find (\<lambda>x. a \<in> cover D x) xs") (auto simp: find_None_iff)
  with find_SomeD [OF y] pairwise_disjoint_unique [OF assms, of y x a] x have "y = x" by simp
  with y x show "kind_at D xs a = Some k" by (simp add: kind_at_def)
qed

lemma list_split_at: "i < length xs \<Longrightarrow> xs = take i xs @ xs ! i # drop (Suc i) xs"
  by (simp add: id_take_nth_drop [symmetric])

section \<open>Correctness under the laws of RangeOp\<close>

text \<open>
  What \<open>merge_add\<close> relies on: a clone has the range it is given and the kind of the original, and two
  items are mergeable when their kinds are equal (the default method of the trait).
\<close>

locale range_op_laws =
  fixes D :: "('x, 't::linorder, 'k) range_op"
  assumes clone_start: "s \<le> e \<Longrightarrow> ro_start D (ro_clone_with_range D x s e) = s"
    and clone_end: "s \<le> e \<Longrightarrow> ro_end D (ro_clone_with_range D x s e) = e"
    and clone_kind: "ro_kind D (ro_clone_with_range D x s e) = ro_kind D x"
    and mergeable_kind: "ro_mergeable D x y \<longleftrightarrow> ro_kind D x = ro_kind D y"
begin

lemma remove_split:
  "vec_remove (us @ x # vs) (length us) = us @ vs"
  by (simp add: vec_remove_def)

lemma insert_split:
  "vec_insert full (us @ vs) (length us) x = Some zs \<Longrightarrow> zs = us @ x # vs"
  by (auto simp: vec_insert_def split: if_splits)

text \<open>The loop keeps the prefix it has passed clear of the new range.\<close>

definition cut_of :: "'x \<Rightarrow> 'x list \<Rightarrow> 'x list \<Rightarrow> bool" where
  "cut_of item xs ys \<longleftrightarrow>
     range_set_inv D ys \<and> (\<forall>y \<in> set ys. cover D y \<inter> cover D item = {}) \<and>
     (\<forall>B. (\<forall>x \<in> set xs. proper D B x) \<longrightarrow> (\<forall>y \<in> set ys. proper D B y)) \<and>
     (\<forall>a k. (\<exists>y \<in> set ys. a \<in> cover D y \<and> ro_kind D y = k) \<longleftrightarrow>
            a \<notin> cover D item \<and> (\<exists>x \<in> set xs. a \<in> cover D x \<and> ro_kind D x = k))"

text \<open>Replacing one element by pieces of it that avoid the new range.\<close>

definition pieces :: "'x \<Rightarrow> 'x \<Rightarrow> 'x list \<Rightarrow> bool" where
  "pieces item x ps \<longleftrightarrow>
     range_set_inv D ps \<and> (\<forall>p \<in> set ps. ro_kind D p = ro_kind D x \<and> (\<forall>B. proper D B x \<longrightarrow> proper D B p)) \<and>
     (\<Union>p \<in> set ps. cover D p) = cover D x - cover D item"

lemma pieces_inv:
  assumes "range_set_inv D (us @ x # vs)" "pieces item x ps"
  shows "range_set_inv D (us @ ps @ vs)"
proof -
  have sub: "cover D p \<subseteq> cover D x" if "p \<in> set ps" for p
    using assms(2) that unfolding pieces_def by blast
  have x: "cover D u \<inter> cover D x = {}" if "u \<in> set us" for u
    using assms(1) that by (auto simp: range_set_inv_def pairwise_disjoint_append)
  have x': "cover D x \<inter> cover D v = {}" if "v \<in> set vs" for v
    using assms(1) that by (auto simp: range_set_inv_def pairwise_disjoint_append pairwise_disjoint_Cons)
  have "cover D u \<inter> cover D p = {}" if "u \<in> set us" "p \<in> set ps" for u p
    using sub [OF that(2)] x [OF that(1)] by blast
  moreover have "cover D p \<inter> cover D v = {}" if "v \<in> set vs" "p \<in> set ps" for v p
    using sub [OF that(2)] x' [OF that(1)] by blast
  ultimately show ?thesis using assms
    unfolding range_set_inv_def pieces_def pairwise_disjoint_append pairwise_disjoint_Cons
    by (simp add: ball_Un)
qed

lemma pieces_cover:
  assumes "pieces item x ps" "a \<notin> cover D item"
  shows "(\<exists>y \<in> set (us @ ps @ vs). a \<in> cover D y \<and> ro_kind D y = k) \<longleftrightarrow>
         (\<exists>y \<in> set (us @ x # vs). a \<in> cover D y \<and> ro_kind D y = k)"
proof -
  have u: "(\<Union>p \<in> set ps. cover D p) = cover D x - cover D item"
    and kd: "\<And>p. p \<in> set ps \<Longrightarrow> ro_kind D p = ro_kind D x"
    using assms(1) by (auto simp: pieces_def)
  have "(\<exists>y \<in> set ps. a \<in> cover D y \<and> ro_kind D y = k) \<longleftrightarrow>
        (\<exists>y \<in> set ps. a \<in> cover D y) \<and> ro_kind D x = k"
    using kd by auto
  also have "\<dots> \<longleftrightarrow> a \<in> (\<Union>p \<in> set ps. cover D p) \<and> ro_kind D x = k" by (simp only: UN_iff)
  also have "\<dots> \<longleftrightarrow> a \<in> cover D x \<and> ro_kind D x = k" unfolding u using assms(2) by simp
  finally show ?thesis by (simp only: set_append list.set bex_Un bex_simps)
qed

lemma pieces_clear:
  assumes "pieces item x ps" "p \<in> set ps"
  shows "cover D p \<inter> cover D item = {}"
  using assms unfolding pieces_def by blast

lemma pieces_none:
  assumes "ro_start D item \<le> ro_start D x" "ro_end D x \<le> ro_end D item"
  shows "pieces item x []"
  using assms by (auto simp: proper_def pieces_def range_set_inv_def pairwise_disjoint_def)

lemma pieces_both:
  assumes "wf_item D item" "ro_start D x < ro_start D item" "ro_end D item < ro_end D x"
  shows "pieces item x [ro_clone_with_range D x (ro_start D x) (ro_start D item),
                        ro_clone_with_range D x (ro_end D item) (ro_end D x)]"
  using assms by (auto simp: proper_def pieces_def range_set_inv_def pairwise_disjoint_def wf_item_def
                            clone_start clone_end clone_kind cover_def)

lemma pieces_right:
  assumes "ro_start D item \<le> ro_start D x" "ro_start D x < ro_end D item" "ro_end D item < ro_end D x"
  shows "pieces item x [ro_clone_with_range D x (ro_end D item) (ro_end D x)]"
  using assms by (auto simp: proper_def pieces_def range_set_inv_def pairwise_disjoint_def wf_item_def
                            clone_start clone_end clone_kind cover_def)

lemma pieces_left:
  assumes "ro_start D x < ro_start D item" "ro_start D item < ro_end D x" "ro_end D x \<le> ro_end D item"
  shows "pieces item x [ro_clone_with_range D x (ro_start D x) (ro_start D item)]"
  using assms by (auto simp: proper_def pieces_def range_set_inv_def pairwise_disjoint_def wf_item_def
                            clone_start clone_end clone_kind cover_def)

lemma pieces_self:
  assumes "wf_item D x" "wf_item D item"
    and "\<not> (ro_start D item < ro_end D x \<and> ro_end D item > ro_start D x)"
  shows "pieces item x [x]"
  using assms by (auto simp: proper_def pieces_def range_set_inv_def pairwise_disjoint_def wf_item_def)

lemma cut_of_step:
  assumes "cut_of item (us @ ps @ vs) ys" "pieces item x ps"
  shows "cut_of item (us @ x # vs) ys"
proof -
  have "(\<exists>y \<in> set ys. a \<in> cover D y \<and> ro_kind D y = k) \<longleftrightarrow>
        a \<notin> cover D item \<and> (\<exists>z \<in> set (us @ x # vs). a \<in> cover D z \<and> ro_kind D z = k)" for a k
    using assms(1) pieces_cover [OF assms(2), of a us vs k] unfolding cut_of_def by blast
  moreover have "\<forall>z \<in> set (us @ ps @ vs). proper D B z"
    if "\<forall>z \<in> set (us @ x # vs). proper D B z" for B
    using that assms(2) unfolding pieces_def by auto
  ultimately show ?thesis using assms(1) unfolding cut_of_def by blast
qed

text \<open>A range is replaced by one piece at most, or by two when it reaches beyond the new range on both sides.\<close>

definition splits_to :: "'x \<Rightarrow> 'x \<Rightarrow> 'x list \<Rightarrow> bool" where
  "splits_to item x ps \<longleftrightarrow>
     length ps \<le> 1 \<or> length ps = 2 \<and> ro_start D x < ro_start D item \<and> ro_end D item < ro_end D x"

lemma order_flips: "(a::'t) < b \<Longrightarrow> \<not> b \<le> a" "(a::'t) \<le> b \<Longrightarrow> \<not> b < a"
  by auto

lemma insert_at:
  "vec_insert full (us @ vs) (length us) z = (if full (us @ vs) then None else Some (us @ z # vs))"
  "vec_insert full (us @ y # vs) (Suc (length us)) z =
     (if full (us @ y # vs) then None else Some (us @ y # z # vs))"
  by (simp_all add: vec_insert_def)

lemma loop_step:
  assumes "wf_item D x" "wf_item D item"
  shows "blocks D item x \<and>
           merge_add_loop D full item (length us) (us @ x # vs) = (us @ x # vs, Err (Conflict item x))
       \<or> \<not> blocks D item x \<and> (\<exists>zs. full zs \<and> length zs \<le> Suc (length us + length vs)) \<and>
           snd (merge_add_loop D full item (length us) (us @ x # vs)) = Err Capacity
       \<or> \<not> blocks D item x \<and>
           (\<exists>ps. pieces item x ps \<and> splits_to item x ps \<and>
              merge_add_loop D full item (length us) (us @ x # vs) =
              merge_add_loop D full item (length us + length ps) (us @ ps @ vs))"
    (is "_ \<or> _ \<and> ?F \<and> snd ?L = _ \<or> _")
proof (cases "ro_start D item < ro_end D x \<and> ro_end D item > ro_start D x")
  case False
  then have "?L = merge_add_loop D full item (length us + length [x]) (us @ [x] @ vs)"
    by (auto simp: merge_add_loop.simps [of D full item "length us"])
  moreover have "\<not> blocks D item x" using False by (auto simp: blocks_def)
  moreover have "splits_to item x [x]" by (simp add: splits_to_def)
  ultimately show ?thesis using pieces_self [OF assms False] by blast
next
  case True
  let ?l = "ro_clone_with_range D x (ro_start D x) (ro_start D item)"
  let ?r = "ro_clone_with_range D x (ro_end D item) (ro_end D x)"
  note unf = merge_add_loop.simps [of D full item "length us" "us @ x # vs"] remove_split insert_at order_flips
  have fits: ?F if "full (us @ vs) \<or> full (us @ y # vs)" for y
    using that by (elim disjE; fastforce)
  show ?thesis
  proof (cases "ro_overwritable D x item \<or> ro_mergeable D x item")
    case False
    with True show ?thesis by (simp add: unf blocks_def mergeable_kind)
  next
    case over: True
    then have nb: "\<not> blocks D item x" by (auto simp: blocks_def mergeable_kind)
    consider (all) "ro_start D item \<le> ro_start D x" "ro_end D item \<ge> ro_end D x"
      | (mid) "ro_start D item > ro_start D x" "ro_end D item < ro_end D x"
      | (left) "ro_start D item \<le> ro_start D x" "ro_end D item < ro_end D x"
      | (right) "ro_start D item > ro_start D x" "ro_end D item \<ge> ro_end D x"
      by fastforce
    then show ?thesis
    proof cases
      case all
      with True over have "?L = merge_add_loop D full item (length us + length []) (us @ [] @ vs)"
        by (simp add: unf)
      moreover have "splits_to item x []" by (simp add: splits_to_def)
      ultimately show ?thesis using nb pieces_none [OF all] by blast
    next
      case mid
      with True over have L: "?L = (if full (us @ vs) then (us @ vs, Err Capacity)
          else if full (us @ ?l # vs) then (us @ ?l # vs, Err Capacity)
          else merge_add_loop D full item (length us + length [?l, ?r]) (us @ [?l, ?r] @ vs))"
        by (simp add: unf)
      then consider "full (us @ vs) \<or> full (us @ ?l # vs)" "snd ?L = Err Capacity"
        | "?L = merge_add_loop D full item (length us + length [?l, ?r]) (us @ [?l, ?r] @ vs)"
        by (cases "full (us @ vs)"; cases "full (us @ ?l # vs)") simp_all
      moreover have "splits_to item x [?l, ?r]" using mid by (simp add: splits_to_def)
      ultimately show ?thesis using nb pieces_both [OF assms(2) mid] fits [of ?l] by cases blast+
    next
      case left
      with True over have "?L = (if full (us @ vs) then (us @ vs, Err Capacity)
          else merge_add_loop D full item (length us + length [?r]) (us @ [?r] @ vs))"
        by (simp add: unf)
      then consider "full (us @ vs) \<or> full (us @ ?l # vs)" "snd ?L = Err Capacity"
        | "?L = merge_add_loop D full item (length us + length [?r]) (us @ [?r] @ vs)"
        by (cases "full (us @ vs)") simp_all
      moreover have "splits_to item x [?r]" by (simp add: splits_to_def)
      ultimately show ?thesis using nb pieces_right [of item x] left True fits [of ?l] by cases blast+
    next
      case right
      with True over have "?L = (if full (us @ vs) then (us @ vs, Err Capacity)
          else merge_add_loop D full item (length us + length [?l]) (us @ [?l] @ vs))"
        by (simp add: unf)
      then consider "full (us @ vs) \<or> full (us @ ?l # vs)" "snd ?L = Err Capacity"
        | "?L = merge_add_loop D full item (length us + length [?l]) (us @ [?l] @ vs)"
        by (cases "full (us @ vs)") simp_all
      moreover have "splits_to item x [?l]" by (simp add: splits_to_def)
      ultimately show ?thesis using nb pieces_left [of x item] right True fits [of ?l] by cases blast+
    qed
  qed
qed

lemma loop_Ok:
  assumes "range_set_inv D (us @ vs)" "wf_item D item" "\<And>u. u \<in> set us \<Longrightarrow> cover D u \<inter> cover D item = {}"
    and "merge_add_loop D full item (length us) (us @ vs) = (ys, Ok ())"
  shows "cut_of item (us @ vs) ys"
  using assms
proof (induction vs arbitrary: us)
  case Nil
  then have "ys = us" by (simp add: merge_add_loop.simps [of D full item "length us" us])
  moreover have "a \<notin> cover D item" if "u \<in> set us" "a \<in> cover D u" for a u
    using Nil.prems(3) [OF that(1)] that(2) by blast
  ultimately show ?case using Nil.prems(1,3) unfolding cut_of_def append_Nil2 by blast
next
  case (Cons x vs)
  have wx: "wf_item D x" using Cons.prems(1) by (simp add: range_set_inv_def)
  from loop_step [OF wx Cons.prems(2), of full us vs] Cons.prems(4) obtain ps where
    ps: "pieces item x ps" "merge_add_loop D full item (length (us @ ps)) ((us @ ps) @ vs) = (ys, Ok ())"
    by auto
  have "cut_of item ((us @ ps) @ vs) ys"
  proof (rule Cons.IH [OF _ Cons.prems(2) _ ps(2)])
    show "range_set_inv D ((us @ ps) @ vs)" using pieces_inv [OF Cons.prems(1) ps(1)] by simp
    show "cover D u \<inter> cover D item = {}" if "u \<in> set (us @ ps)" for u
      using that Cons.prems(3) pieces_clear [OF ps(1)] by auto
  qed
  with cut_of_step [of item us ps vs ys x] ps(1) show ?case by simp
qed

lemma loop_conflict:
  assumes "\<And>x. x \<in> set vs \<Longrightarrow> wf_item D x" "wf_item D item"
    and "merge_add_loop D full item (length us) (us @ vs) = (ys, Err (Conflict n e))"
  shows "n = item \<and> e \<in> set vs \<and> blocks D item e"
  using assms
proof (induction vs arbitrary: us)
  case Nil
  then show ?case by (simp add: merge_add_loop.simps [of D full item "length us" us])
next
  case (Cons x vs)
  from loop_step [OF _ Cons.prems(2), of x full us vs] Cons.prems(1,3)
  consider "blocks D item x" "n = item" "e = x"
    | ps where "merge_add_loop D full item (length (us @ ps)) ((us @ ps) @ vs) = (ys, Err (Conflict n e))"
    by auto
  then show ?case
  proof cases
    case (2 ps)
    with Cons.IH [OF _ Cons.prems(2) 2] Cons.prems(1) show ?thesis by simp
  qed simp
qed

text \<open>
  Whether the loop ends or stops at a conflict, the kind of an address is kept when the address is not in
  the new range, or is in a range that blocks the new one.
\<close>

definition kept_of :: "'x \<Rightarrow> 'x list \<Rightarrow> 'x list \<Rightarrow> 'x list \<Rightarrow> bool" where
  "kept_of item us vs ys \<longleftrightarrow>
     range_set_inv D ys \<and> (\<forall>B. (\<forall>x \<in> set (us @ vs). proper D B x) \<longrightarrow> (\<forall>y \<in> set ys. proper D B y)) \<and>
     (\<forall>a. \<forall>x \<in> set (us @ vs). a \<in> cover D x \<longrightarrow> x \<in> set us \<or> blocks D item x \<or> a \<notin> cover D item \<longrightarrow>
        (\<exists>y \<in> set ys. a \<in> cover D y \<and> ro_kind D y = ro_kind D x))"

lemma kept_of_self: "range_set_inv D (us @ vs) \<Longrightarrow> kept_of item us vs (us @ vs)"
  unfolding kept_of_def by blast

lemma kept_of_step:
  assumes "kept_of item (us @ ps) vs ys" "pieces item x ps" "\<not> blocks D item x"
  shows "kept_of item us (x # vs) ys"
proof -
  have keep: "\<exists>y \<in> set ys. a \<in> cover D y \<and> ro_kind D y = ro_kind D z"
    if "z \<in> set (us @ x # vs)" "a \<in> cover D z" "z \<in> set us \<or> blocks D item z \<or> a \<notin> cover D item" for a z
  proof (cases "z \<in> set (us @ vs)")
    case True
    then show ?thesis using assms(1) that(2,3) unfolding kept_of_def by auto
  next
    case False
    then have "z = x" "a \<in> cover D x - cover D item" using that assms(3) by auto
    then obtain p where "p \<in> set ps" "a \<in> cover D p" "ro_kind D p = ro_kind D z"
      using assms(2) unfolding pieces_def by blast
    then show ?thesis using assms(1) unfolding kept_of_def by (metis Un_iff set_append)
  qed
  have "\<forall>z \<in> set ((us @ ps) @ vs). proper D B z" if "\<forall>z \<in> set (us @ x # vs). proper D B z" for B
    using that assms(2) unfolding pieces_def by auto
  then show ?thesis using assms(1) keep unfolding kept_of_def by blast
qed

lemma loop_keeps:
  assumes "range_set_inv D (us @ vs)" "wf_item D item"
    and "merge_add_loop D full item (length us) (us @ vs) = (ys, r)" "r = Ok () \<or> r = Err (Conflict n e)"
  shows "kept_of item us vs ys"
  using assms(1-3)
proof (induction vs arbitrary: us)
  case Nil
  then show ?case using kept_of_self [of us "[]" item] by (simp add: merge_add_loop.simps [of D full item "length us" us])
next
  case (Cons x vs)
  have wx: "wf_item D x" using Cons.prems(1) by (simp add: range_set_inv_def)
  have "r \<noteq> Err Capacity" using assms(4) by auto
  with loop_step [OF wx Cons.prems(2), of full us vs] Cons.prems(3)
  consider "ys = us @ x # vs"
    | ps where "\<not> blocks D item x" "pieces item x ps"
        "merge_add_loop D full item (length (us @ ps)) ((us @ ps) @ vs) = (ys, r)"
    by auto
  then show ?case
  proof cases
    case 1
    then show ?thesis using kept_of_self [OF Cons.prems(1)] by simp
  next
    case (2 ps)
    have "range_set_inv D ((us @ ps) @ vs)" using pieces_inv [OF Cons.prems(1) 2(2)] by simp
    from kept_of_step [OF Cons.IH [OF this Cons.prems(2) 2(3)] 2(2,1)] show ?thesis .
  qed
qed

text \<open>Ranges outside the new one are kept and ranges inside it are removed.\<close>

lemma loop_shrinks:
  assumes "\<And>x. x \<in> set vs \<Longrightarrow> \<not> blocks D item x \<and>
      (\<not> (ro_start D item < ro_end D x \<and> ro_end D item > ro_start D x) \<or>
       ro_start D item \<le> ro_start D x \<and> ro_end D x \<le> ro_end D item)"
  shows "\<exists>ys. merge_add_loop D full item (length us) (us @ vs) = (ys, Ok ()) \<and>
           length ys \<le> length us + length vs"
  using assms
proof (induction vs arbitrary: us)
  case Nil
  then show ?case by (simp add: merge_add_loop.simps [of D full item "length us" us])
next
  case (Cons x vs)
  have x: "\<not> blocks D item x" using Cons.prems by simp
  consider "\<not> (ro_start D item < ro_end D x \<and> ro_end D item > ro_start D x)"
    | "ro_start D item < ro_end D x" "ro_end D item > ro_start D x"
      "ro_start D item \<le> ro_start D x" "ro_end D x \<le> ro_end D item"
    using Cons.prems [of x] by auto
  then show ?case
  proof cases
    case 1
    then have "merge_add_loop D full item (length us) (us @ x # vs) =
        merge_add_loop D full item (length (us @ [x])) ((us @ [x]) @ vs)"
      by (auto simp: merge_add_loop.simps [of D full item "length us"])
    with Cons.IH [of "us @ [x]"] Cons.prems show ?thesis by simp
  next
    case 2
    then have "merge_add_loop D full item (length us) (us @ x # vs) =
        merge_add_loop D full item (length us) (us @ vs)"
      using x by (simp add: merge_add_loop.simps [of D full item "length us" "us @ x # vs"]
          blocks_def mergeable_kind remove_split disj_commute)
    with Cons.IH [of us] Cons.prems show ?thesis by (fastforce intro: le_SucI)
  qed
qed

text \<open>Only one of the disjoint ranges can reach beyond the new range on both sides.\<close>

lemma disjoint_no_overlap:
  assumes "cover D x \<inter> cover D y = {}" "ro_start D x < ro_start D item" "ro_end D item < ro_end D x"
    and "wf_item D item" "wf_item D y"
  shows "\<not> (ro_start D item < ro_end D y \<and> ro_end D item > ro_start D y) \<or>
         ro_start D item \<le> ro_start D y \<and> ro_end D y \<le> ro_end D item"
proof (rule ccontr)
  assume o: "\<not> ?thesis"
  have "max (ro_start D item) (ro_start D y) \<in> cover D x \<inter> cover D y"
    using assms(2-) o by (auto simp: max_def wf_item_def)
  with assms(1) show False by blast
qed

lemma loop_total:
  assumes "range_set_inv D (us @ vs)" "wf_item D item" "\<And>x. x \<in> set vs \<Longrightarrow> \<not> blocks D item x"
    and "\<And>zs. length zs \<le> length us + length vs \<Longrightarrow> \<not> full zs"
  shows "\<exists>ys. merge_add_loop D full item (length us) (us @ vs) = (ys, Ok ()) \<and>
           length ys \<le> Suc (length us + length vs)"
  using assms(1,3,4)
proof (induction vs arbitrary: us)
  case Nil
  then show ?case by (simp add: merge_add_loop.simps [of D full item "length us" us])
next
  case (Cons x vs)
  have wf: "wf_item D x" "\<And>v. v \<in> set vs \<Longrightarrow> wf_item D v"
    using Cons.prems(1) by (auto simp: range_set_inv_def)
  have dis: "cover D x \<inter> cover D v = {}" if "v \<in> set vs" for v
    using Cons.prems(1) that by (simp add: range_set_inv_def pairwise_disjoint_append pairwise_disjoint_Cons)
  have nf: "\<not> full zs" if "length zs \<le> Suc (length us + length vs)" for zs
    using Cons.prems(3) that by simp
  from loop_step [OF wf(1) assms(2), of full us vs] Cons.prems(2) [of x] nf obtain ps where
    ps: "pieces item x ps" "splits_to item x ps" and eq:
    "merge_add_loop D full item (length us) (us @ x # vs) =
     merge_add_loop D full item (length (us @ ps)) ((us @ ps) @ vs)" by auto
  show ?case
  proof (cases "length ps \<le> 1")
    case True
    have "\<exists>ys. merge_add_loop D full item (length (us @ ps)) ((us @ ps) @ vs) = (ys, Ok ()) \<and>
        length ys \<le> Suc (length (us @ ps) + length vs)"
    proof (rule Cons.IH)
      show "range_set_inv D ((us @ ps) @ vs)" using pieces_inv [OF Cons.prems(1) ps(1)] by simp
      show "\<not> blocks D item v" if "v \<in> set vs" for v using Cons.prems(2) that by simp
      show "\<not> full zs" if "length zs \<le> length (us @ ps) + length vs" for zs
        using nf that True by simp
    qed
    with True show ?thesis unfolding eq by fastforce
  next
    case False
    with ps(2) have two: "length ps = 2" "ro_start D x < ro_start D item" "ro_end D item < ro_end D x"
      by (auto simp: splits_to_def)
    have "\<exists>ys. merge_add_loop D full item (length (us @ ps)) ((us @ ps) @ vs) = (ys, Ok ()) \<and>
        length ys \<le> length (us @ ps) + length vs"
      using disjoint_no_overlap [OF dis two(2,3) assms(2) wf(2)] Cons.prems(2)
      by (intro loop_shrinks) simp
    with two(1) show ?thesis unfolding eq by fastforce
  qed
qed

section \<open>Joining keeps the meaning\<close>

lemma join_cover:
  assumes "wf_item D x" "wf_item D y" "joinable D x y"
  shows "cover D (join_range D x y) = cover D x \<union> cover D y" "wf_item D (join_range D x y)"
    "ro_kind D (join_range D x y) = ro_kind D x"
proof -
  have le: "min (ro_start D x) (ro_start D y) \<le> max (ro_end D x) (ro_end D y)"
    using assms(1) by (simp add: wf_item_def min.coboundedI1 max.coboundedI1)
  then have "cover D (join_range D x y) =
      {min (ro_start D x) (ro_start D y) ..< max (ro_end D x) (ro_end D y)}"
    by (simp add: join_range_def clone_start clone_end cover_def)
  also have "\<dots> = cover D x \<union> cover D y"
    using assms by (auto simp: joinable_def wf_item_def min_def max_def)
  finally show "cover D (join_range D x y) = cover D x \<union> cover D y" .
  show "wf_item D (join_range D x y)" using le
    by (simp add: join_range_def clone_start clone_end wf_item_def)
  show "ro_kind D (join_range D x y) = ro_kind D x" by (simp add: join_range_def clone_kind)
qed

lemma join_proper:
  assumes "proper D B x" "proper D B y"
  shows "proper D B (join_range D x y)"
proof -
  have "min (ro_start D x) (ro_start D y) < max (ro_end D x) (ro_end D y)"
    using assms by (simp add: proper_def min_less_iff_disj less_max_iff_disj)
  with assms show ?thesis by (simp add: join_range_def clone_start clone_end proper_def)
qed

lemma remove_two:
  assumes "i < j" "j < length xs"
  shows "\<exists>us vs ws. xs = us @ xs ! i # vs @ xs ! j # ws \<and> length us = i \<and>
           vec_remove (vec_remove xs j) i = us @ vs @ ws"
proof -
  have j: "xs = take j xs @ xs ! j # drop (Suc j) xs" using assms(2) by (rule list_split_at)
  have "take j xs = take i (take j xs) @ take j xs ! i # drop (Suc i) (take j xs)"
    using assms by (intro list_split_at) simp
  then have i: "take j xs = take i xs @ xs ! i # drop (Suc i) (take j xs)" using assms by simp
  have "xs = take i xs @ xs ! i # drop (Suc i) (take j xs) @ xs ! j # drop (Suc j) xs"
    using i j by (metis append.assoc append_Cons)
  moreover have "vec_remove (vec_remove xs j) i = take i xs @ drop (Suc i) (take j xs) @ drop (Suc j) xs"
    using assms by (simp add: vec_remove_def)
  ultimately show ?thesis using assms by (intro exI conjI) auto
qed

lemma join_step:
  assumes "range_set_inv D (us @ x # vs @ y # ws)" "joinable D x y"
  shows "range_set_inv D (us @ join_range D x y # vs @ ws)"
    and "(\<exists>z \<in> set (us @ join_range D x y # vs @ ws). a \<in> cover D z \<and> ro_kind D z = k) \<longleftrightarrow>
         (\<exists>z \<in> set (us @ x # vs @ y # ws). a \<in> cover D z \<and> ro_kind D z = k)"
proof -
  have wf: "wf_item D x" "wf_item D y" using assms(1) by (auto simp: range_set_inv_def)
  note j = join_cover [OF wf assms(2)]
  have k: "ro_kind D y = ro_kind D x" using assms(2) by (simp add: joinable_def mergeable_kind)
  have dis: "cover D x \<inter> cover D z = {}" "cover D y \<inter> cover D z = {}"
    if "z \<in> set us \<union> set vs \<union> set ws" for z
    using assms(1) that
    unfolding range_set_inv_def pairwise_disjoint_append pairwise_disjoint_Cons by (auto simp: Int_commute)
  have "cover D (join_range D x y) \<inter> cover D z = {}" if "z \<in> set us \<union> set vs \<union> set ws" for z
    using dis [OF that] unfolding j(1) by blast
  then show "range_set_inv D (us @ join_range D x y # vs @ ws)"
    using assms(1) j(2)
    unfolding range_set_inv_def pairwise_disjoint_append pairwise_disjoint_Cons by (auto simp: Int_commute)
  have "a \<in> cover D (join_range D x y) \<longleftrightarrow> a \<in> cover D x \<or> a \<in> cover D y" unfolding j(1) by blast
  then   show "(\<exists>z \<in> set (us @ join_range D x y # vs @ ws). a \<in> cover D z \<and> ro_kind D z = k) \<longleftrightarrow>
         (\<exists>z \<in> set (us @ x # vs @ y # ws). a \<in> cover D z \<and> ro_kind D z = k)"
    using k j(3) by (simp only: set_append list.set bex_Un bex_simps) blast
qed

lemma merge_same_kind_spec:
  assumes "range_set_inv D xs" "\<And>ys. length ys < length xs \<Longrightarrow> \<not> full ys"
  shows "range_set_inv D (merge_same_kind D full xs) \<and>
         find_merge_pair D (merge_same_kind D full xs) = None \<and>
         length (merge_same_kind D full xs) \<le> length xs \<and>
         (\<forall>B. (\<forall>x \<in> set xs. proper D B x) \<longrightarrow> (\<forall>y \<in> set (merge_same_kind D full xs). proper D B y)) \<and>
         (\<forall>a k. (\<exists>z \<in> set (merge_same_kind D full xs). a \<in> cover D z \<and> ro_kind D z = k) \<longleftrightarrow>
                (\<exists>z \<in> set xs. a \<in> cover D z \<and> ro_kind D z = k))"
  using assms
proof (induction xs rule: length_induct)
  case (1 xs)
  show ?case
  proof (cases "find_merge_pair D xs")
    case None
    then have "merge_same_kind D full xs = xs" by (simp add: merge_same_kind.simps [of D full xs])
    with None "1.prems" show ?thesis by simp
  next
    case (Some p)
    obtain i j where p: "p = (i, j)" by (cases p)
    with Some find_merge_pair_Some have ij: "i < j" "j < length xs" "joinable D (xs ! i) (xs ! j)" by auto
    from remove_two [OF ij(1,2)] obtain us vs ws where
      xs: "xs = us @ xs ! i # vs @ xs ! j # ws" and us: "length us = i"
      and rm: "vec_remove (vec_remove xs j) i = us @ vs @ ws" by blast
    let ?m = "join_range D (xs ! i) (xs ! j)"
    let ?zs = "us @ ?m # vs @ ws"
    have len: "length xs = Suc (length ?zs)" by (subst xs) simp
    have "\<not> full (us @ vs @ ws)" using len by (intro "1.prems"(2)) simp
    then have ins: "vec_insert full (us @ vs @ ws) i ?m = Some ?zs"
      using us by (simp add: vec_insert_def)
    then have eq: "merge_same_kind D full xs = merge_same_kind D full ?zs"
      using Some p rm by (simp add: merge_same_kind.simps [of D full xs])
    have step: "range_set_inv D ?zs"
      "\<And>a k. (\<exists>z \<in> set ?zs. a \<in> cover D z \<and> ro_kind D z = k) \<longleftrightarrow> (\<exists>z \<in> set xs. a \<in> cover D z \<and> ro_kind D z = k)"
      using join_step [of us "xs ! i" vs "xs ! j" ws] "1.prems"(1) ij(3) unfolding xs [symmetric] by blast+
    have "\<And>ys. length ys < length ?zs \<Longrightarrow> \<not> full ys" using "1.prems"(2) len by simp
    moreover have "length ?zs < length xs" using len by linarith
    ultimately have "range_set_inv D (merge_same_kind D full ?zs) \<and>
         find_merge_pair D (merge_same_kind D full ?zs) = None \<and>
         length (merge_same_kind D full ?zs) \<le> length ?zs \<and>
         (\<forall>B. (\<forall>x \<in> set ?zs. proper D B x) \<longrightarrow> (\<forall>y \<in> set (merge_same_kind D full ?zs). proper D B y)) \<and>
         (\<forall>a k. (\<exists>z \<in> set (merge_same_kind D full ?zs). a \<in> cover D z \<and> ro_kind D z = k) \<longleftrightarrow>
                (\<exists>z \<in> set ?zs. a \<in> cover D z \<and> ro_kind D z = k))"
      using "1.IH" step(1) by blast
    moreover have "\<forall>z \<in> set ?zs. proper D B z" if "\<forall>z \<in> set xs. proper D B z" for B
    proof -
      have "\<forall>z \<in> set (us @ xs ! i # vs @ xs ! j # ws). proper D B z" using that xs by metis
      then show ?thesis using join_proper [of B "xs ! i" "xs ! j"] by auto
    qed
    ultimately show ?thesis using \<open>length ?zs < length xs\<close> unfolding eq step(2)
      by (intro conjI) (blast, blast, linarith, blast, blast)
  qed
qed

theorem merge_add_correct:
  assumes "range_set_inv D xs" "wf_item D item"
    and room: "\<forall>ys zs. \<not> full ys \<longrightarrow> length zs \<le> length ys \<longrightarrow> \<not> full zs"
    and "merge_add D full xs item = (ys, Ok ())"
  shows "range_set_inv D ys \<and> find_merge_pair D ys = None \<and>
         (\<forall>B. (\<forall>x \<in> set xs. proper D B x) \<longrightarrow> proper D B item \<longrightarrow> (\<forall>y \<in> set ys. proper D B y)) \<and>
         kind_at D ys = (\<lambda>a. if a \<in> cover D item then Some (ro_kind D item) else kind_at D xs a)"
proof -
  from assms(4) obtain us where us: "merge_add_loop D full item 0 xs = (us, Ok ())"
    and nf: "\<not> full us" and ys: "ys = merge_same_kind D full (us @ [item])"
    by (auto simp: merge_add_def vec_push_def split: prod.splits result.splits if_splits)
  have cut: "cut_of item xs us" using loop_Ok [of "[]" xs item full us] assms(1,2) us by simp
  have inv: "range_set_inv D (us @ [item])"
    using cut assms(2) unfolding cut_of_def range_set_inv_def pairwise_disjoint_append
    by (simp add: pairwise_disjoint_def)
  note m = merge_same_kind_spec [OF inv, of full, folded ys]
  have "\<And>zs. length zs < length (us @ [item]) \<Longrightarrow> \<not> full zs" using room nf by simp
  note m = m [OF this]
  have "kind_at D ys a = (if a \<in> cover D item then Some (ro_kind D item) else kind_at D xs a)" for a
  proof (rule option_eq_by_Some)
    fix k
    have "kind_at D ys a = Some k \<longleftrightarrow> (\<exists>z \<in> set (us @ [item]). a \<in> cover D z \<and> ro_kind D z = k)"
      using m kind_at_Some [of D ys a k] by (simp add: range_set_inv_def)
    also have "\<dots> \<longleftrightarrow> (\<exists>z \<in> set us. a \<in> cover D z \<and> ro_kind D z = k) \<or> (a \<in> cover D item \<and> ro_kind D item = k)"
      by auto
    also have "\<dots> \<longleftrightarrow> (if a \<in> cover D item then Some (ro_kind D item) else kind_at D xs a) = Some k"
      using cut assms(1) unfolding cut_of_def by (auto simp: kind_at_Some range_set_inv_def simp del: in_cover)
    finally show "kind_at D ys a = Some k \<longleftrightarrow> \<dots>" .
  qed
  then have "kind_at D ys = (\<lambda>a. if a \<in> cover D item then Some (ro_kind D item) else kind_at D xs a)"
    by (rule ext)
  moreover have "\<forall>y \<in> set ys. proper D B y"
    if "\<forall>x \<in> set xs. proper D B x" "proper D B item" for B
  proof -
    have "\<forall>y \<in> set us. proper D B y" using cut that(1) unfolding cut_of_def by blast
    then have "\<forall>y \<in> set (us @ [item]). proper D B y" using that(2) by simp
    then show ?thesis using m by blast
  qed
  ultimately show ?thesis using m by blast
qed

theorem merge_add_conflict:
  assumes "range_set_inv D xs" "wf_item D item" "merge_add D full xs item = (ys, Err (Conflict n e))"
  shows "n = item \<and> e \<in> set xs \<and> blocks D item e"
proof -
  from assms(3) have "merge_add_loop D full item 0 xs = (ys, Err (Conflict n e))"
    by (auto simp: merge_add_def split: prod.splits result.splits option.splits)
  with loop_conflict [of xs item full "[]"] assms(1,2) show ?thesis by (simp add: range_set_inv_def)
qed

lemma merge_add_unblocked:
  assumes "range_set_inv D xs" "wf_item D item" "merge_add D full xs item = (ys, Ok ())" "x \<in> set xs"
    and "a \<in> cover D x" "a \<in> cover D item"
  shows "\<not> blocks D item x"
proof
  assume b: "blocks D item x"
  from assms(3) obtain us where us: "merge_add_loop D full item 0 xs = (us, Ok ())"
    by (auto simp: merge_add_def split: prod.splits result.splits option.splits)
  then have "kept_of item [] xs us" using loop_keeps [of "[]" xs item full us "Ok ()"] assms(1,2) by simp
  then obtain y where "y \<in> set us" "a \<in> cover D y"
    using assms(4,5) b unfolding kept_of_def append_Nil by blast
  moreover have "cut_of item xs us" using loop_Ok [of "[]" xs item full us] assms(1,2) us by simp
  ultimately show False using assms(6) unfolding cut_of_def by blast
qed

lemma merge_add_conflict_keeps:
  assumes "range_set_inv D xs" "wf_item D item" "merge_add D full xs item = (ys, Err (Conflict n e))"
  shows "kept_of item [] xs ys"
proof -
  from assms(3) have "merge_add_loop D full item 0 xs = (ys, Err (Conflict n e))"
    by (auto simp: merge_add_def split: prod.splits result.splits option.splits)
  with loop_keeps [of "[]" xs item full ys "Err (Conflict n e)" n e] assms(1,2) show ?thesis by simp
qed

theorem merge_add_succeeds:
  assumes "range_set_inv D xs" "wf_item D item" "\<And>x. x \<in> set xs \<Longrightarrow> \<not> blocks D item x"
    and "\<And>zs. length zs \<le> Suc (length xs) \<Longrightarrow> \<not> full zs"
  shows "\<exists>ys. merge_add D full xs item = (ys, Ok ()) \<and> length ys \<le> length xs + 2"
proof -
  obtain us where us: "merge_add_loop D full item 0 xs = (us, Ok ())" "length us \<le> Suc (length xs)"
    using loop_total [of "[]" xs item full] assms by auto
  have nf: "\<not> full us" using assms(4) us(2) by blast
  have "cut_of item xs us" using loop_Ok [of "[]" xs item full us] assms(1,2) us(1) by simp
  then have "range_set_inv D (us @ [item])"
    using assms(2) unfolding cut_of_def range_set_inv_def pairwise_disjoint_append
    by (simp add: pairwise_disjoint_def)
  moreover have "\<And>ys. length ys < length (us @ [item]) \<Longrightarrow> \<not> full ys" using assms(4) us(2) by simp
  ultimately have "length (merge_same_kind D full (us @ [item])) \<le> length (us @ [item])"
    using merge_same_kind_spec [of "us @ [item]" full] by blast
  with us nf show ?thesis by (simp add: merge_add_def vec_push_def)
qed

end

end
