(* ===== verification/Static_Cell.thy ===== *)
theory Static_Cell
  imports Prelude
begin

text \<open>
  The cell for late-initialised statics of \<open>crates/kernutil/src/staticcell.rs\<close>: a flag and a value.
  The value is meaningful only when the flag is set, so the uninitialised \<open>MaybeUninit\<close> is \<open>None\<close>.
  Each operation is one atomic step; \<open>init\<close> uses a compare-and-exchange, so of two calls in any order
  only the first writes.
\<close>

record 'a static_cell =
  cell_init :: bool
  cell_value :: "'a option"

definition cell_uninit :: "'a static_cell" where
  "cell_uninit = \<lparr>cell_init = False, cell_value = None\<rparr>"

definition cell_new :: "'a \<Rightarrow> 'a static_cell" where
  "cell_new val = \<lparr>cell_init = True, cell_value = Some val\<rparr>"

definition cell_do_init :: "'a static_cell \<Rightarrow> 'a \<Rightarrow> 'a static_cell \<times> (unit, unit) result" where
  "cell_do_init c val =
     (if cell_init c then (c, Panic)
      else (c\<lparr>cell_init := True, cell_value := Some val\<rparr>, Ok ()))"

definition cell_is_init :: "'a static_cell \<Rightarrow> bool" where
  "cell_is_init c = cell_init c"

definition cell_init_single_core :: "'a static_cell \<Rightarrow> 'a \<Rightarrow> 'a static_cell \<times> (unit, unit) result" where
  "cell_init_single_core c val =
     (if cell_init c then (c, Panic)
      else (let c1 = c\<lparr>cell_value := Some val\<rparr> in (c1\<lparr>cell_init := True\<rparr>, Ok ())))"

definition cell_deref :: "'a static_cell \<Rightarrow> (unit, 'a) result" where
  "cell_deref c =
     (if \<not> cell_init c then Panic
      else case cell_value c of Some v \<Rightarrow> Ok v | None \<Rightarrow> Panic)"

definition cell_update ::
  "'a static_cell \<Rightarrow> ('a \<Rightarrow> 'a \<times> ('e, 'r) result) \<Rightarrow> 'a static_cell \<times> ('e, 'r) result"
where
  "cell_update c f =
     (case cell_deref c of
        Ok v \<Rightarrow> (case f v of (v', r) \<Rightarrow> (c\<lparr>cell_value := Some v'\<rparr>, r))
      | _ \<Rightarrow> (c, Panic))"

section \<open>The write-once contract\<close>

text \<open>A set flag implies a value: the unsafe reads of \<open>deref\<close> and \<open>update\<close> never see the uninitialised one.\<close>

definition cell_inv :: "'a static_cell \<Rightarrow> bool" where
  "cell_inv c \<longleftrightarrow> (cell_init c \<longrightarrow> cell_value c \<noteq> None)"

lemma cell_inv_intros [intro, simp]:
  "cell_inv cell_uninit" "cell_inv (cell_new v)"
  by (simp_all add: cell_inv_def cell_uninit_def cell_new_def)

lemma cell_inv_preserved:
  "cell_inv c \<Longrightarrow> cell_inv (fst (cell_do_init c v))"
  "cell_inv c \<Longrightarrow> cell_inv (fst (cell_init_single_core c v))"
  "cell_inv c \<Longrightarrow> cell_inv (fst (cell_update c f))"
  by (auto simp: cell_inv_def cell_do_init_def cell_init_single_core_def cell_update_def Let_def
      split: result.splits prod.splits)

lemma cell_deref_new [simp]: "cell_deref (cell_new v) = Ok v"
  by (simp add: cell_deref_def cell_new_def)

lemma cell_deref_Ok: "cell_deref c = Ok v \<longleftrightarrow> cell_init c \<and> cell_value c = Some v"
  by (auto simp: cell_deref_def split: option.splits)

lemma cell_update_deref:
  assumes "cell_deref c = Ok v" "f v = (v', r)"
  shows "snd (cell_update c f) = r" "cell_deref (fst (cell_update c f)) = Ok v'"
proof -
  have "cell_update c f = (c\<lparr>cell_value := Some v'\<rparr>, r)" using assms by (simp add: cell_update_def)
  with assms(1) show "snd (cell_update c f) = r" "cell_deref (fst (cell_update c f)) = Ok v'"
    by (simp_all add: cell_deref_Ok)
qed

text \<open>The first initialisation is visible to every later read, and every further one panics without a write.\<close>

lemma cell_init_once:
  assumes "cell_do_init c v = (c', Ok ())"
  shows "cell_deref c' = Ok v" "cell_do_init c' w = (c', Panic)" "cell_init_single_core c' w = (c', Panic)"
  using assms by (auto simp: cell_do_init_def cell_init_single_core_def cell_deref_def split: if_splits)

end
