(* ===== verification/Memory_Map.thy ===== *)
theory Memory_Map
  imports Ranges_Ext Static_Cell
begin

text \<open>
  The boot memory of \<open>crates/someboot/src/mem\<close>: the descriptors of \<open>crates/kernutil/src/memory.rs\<close>, the
  memory map built from them with \<open>merge_add\<close>, the linear allocator \<open>ram.rs\<close> that serves the boot page
  tables and the per-CPU area, the boot-time filling of the map from the device tree
  (\<open>fdt/memory.rs\<close>), and the address translation of the kernel image.

  Code outside the repository appears as the fields of a record of parameters: rounding
  (\<open>num_align\<close>), the capacity check of \<open>heapless::Vec\<close>, the device-tree reader (\<open>fdt_raw\<close>) and the
  symbols the linker script defines.
\<close>

section \<open>Descriptors\<close>

datatype memory_type = Free | Ram | KImage | Reserved | Mmio | PerCpuData

record memory_descriptor =
  physical_start :: nat
  size_in_bytes :: nat
  memory_type :: memory_type

text \<open>The device tree as the reader presents it: regions and reservations are pairs of address and size.\<close>

record fdt_raw =
  fdt_memory :: "(nat \<times> nat) list list"
  fdt_reservations :: "(nat \<times> nat) list"
  fdt_reserved_memory :: "((nat \<times> nat option) list option) list"
  fdt_totalsize :: nat

record boot_env =
  na_align_up :: "nat \<Rightarrow> nat \<Rightarrow> nat"
  na_align_down :: "nat \<Rightarrow> nat \<Rightarrow> nat"
  heapless_full :: "memory_descriptor list \<Rightarrow> bool"
  page_size :: nat
  fdt_from_ptr :: "nat \<Rightarrow> fdt_raw option"

definition new_with_range :: "nat \<Rightarrow> nat \<Rightarrow> memory_type \<Rightarrow> (unit, memory_descriptor) result" where
  "new_with_range rstart rend ty =
     (if rend < rstart then Panic
      else Ok \<lparr>physical_start = rstart, size_in_bytes = rend - rstart, memory_type = ty\<rparr>)"

definition new_with_range_aligned ::
  "boot_env \<Rightarrow> nat \<Rightarrow> nat \<Rightarrow> memory_type \<Rightarrow> nat \<Rightarrow> (unit, memory_descriptor) result"
where
  "new_with_range_aligned E rstart rend ty align =
     (let start = na_align_down E rstart align; en = na_align_up E rend align
      in if en < start then Panic
         else Ok \<lparr>physical_start = start, size_in_bytes = en - start, memory_type = ty\<rparr>)"

definition new_aligned ::
  "boot_env \<Rightarrow> nat \<Rightarrow> nat \<Rightarrow> memory_type \<Rightarrow> nat \<Rightarrow> (unit, memory_descriptor) result"
where
  "new_aligned E start0 sz ty align =
     (if U64_MAX < start0 + sz then Panic
      else
        let start = na_align_down E start0 align; en = na_align_up E (start0 + sz) align
        in if en < start then Panic
           else Ok \<lparr>physical_start = start, size_in_bytes = en - start, memory_type = ty\<rparr>)"

definition md_overwritable :: "memory_descriptor \<Rightarrow> memory_descriptor \<Rightarrow> bool" where
  "md_overwritable self other \<longleftrightarrow> memory_type self = Free"

definition md_clone_with_range :: "memory_descriptor \<Rightarrow> nat \<Rightarrow> nat \<Rightarrow> memory_descriptor" where
  "md_clone_with_range self s e =
     \<lparr>physical_start = s, size_in_bytes = e - s, memory_type = memory_type self\<rparr>"

definition md_range_op :: "(memory_descriptor, nat, memory_type) range_op" where
  "md_range_op =
     \<lparr>ro_start = physical_start,
      ro_end = (\<lambda>d. physical_start d + size_in_bytes d),
      ro_kind = memory_type,
      ro_overwritable = md_overwritable,
      ro_mergeable = default_mergeable memory_type,
      ro_clone_with_range = md_clone_with_range\<rparr>"

lemma md_simps [simp]:
  "ro_start md_range_op = physical_start"
  "ro_end md_range_op d = physical_start d + size_in_bytes d"
  "ro_kind md_range_op = memory_type"
  "ro_overwritable md_range_op d e \<longleftrightarrow> memory_type d = Free"
  by (simp_all add: md_range_op_def md_overwritable_def)

interpretation md: range_op_laws md_range_op
  by unfold_locales
     (simp_all add: md_range_op_def md_clone_with_range_def default_mergeable_def)

section \<open>State of the boot memory\<close>

text \<open>The statics of \<open>mem/mod.rs\<close>, \<open>mem/ram.rs\<close>, \<open>mem/mmu.rs\<close>, \<open>fdt/mod.rs\<close> and \<open>console/mod.rs\<close>.\<close>

record boot_mem =
  MEMORY_MAP :: "memory_descriptor list static_cell"
  VM_LOAD_OFFSET :: int
  KIMAGE_START :: "nat option"
  KIMAGE_END :: nat
  RAM_START :: nat
  RAM_END :: nat
  RAM_CURRENT :: nat
  MMU_ENABLED :: bool
  FDT_ADDR :: nat
  DEBUG_BASE :: nat
  DEBUG_IS_MMIO :: bool
  PERCPU_START :: nat
  PERCPU_END :: nat

definition boot_mem_init :: boot_mem where
  "boot_mem_init =
     \<lparr>MEMORY_MAP = cell_new [], VM_LOAD_OFFSET = 0, KIMAGE_START = None, KIMAGE_END = 0,
      RAM_START = 0, RAM_END = 0, RAM_CURRENT = 0, MMU_ENABLED = False, FDT_ADDR = 0,
      DEBUG_BASE = 0, DEBUG_IS_MMIO = False, PERCPU_START = 0, PERCPU_END = 0\<rparr>"

definition KB :: nat where "KB = 1024"
definition MB :: nat where "MB = 1024 * KB"
definition KIMAGE_MAP_ALIGN :: nat where "KIMAGE_MAP_ALIGN = 2 * MB"

section \<open>The kernel image\<close>

text \<open>The casts between \<open>usize\<close> and \<open>isize\<close> reinterpret the 64 bits.\<close>

definition as_isize :: "nat \<Rightarrow> int" where
  "as_isize n = (if n < 2 ^ 63 then int n else int n - 2 ^ 64)"

definition as_usize :: "int \<Rightarrow> nat" where
  "as_usize i = nat (i mod 2 ^ 64)"

definition isize_checked :: "int \<Rightarrow> ('e, int) result" where
  "isize_checked i = (if - (2 ^ 63) \<le> i \<and> i < 2 ^ 63 then Ok i else Panic)"

definition setup_entry ::
  "boot_env \<Rightarrow> nat \<Rightarrow> nat \<Rightarrow> nat \<Rightarrow> boot_mem \<Rightarrow> boot_mem \<times> (unit, unit) result"
where
  "setup_entry E kernel_start kernel_end kernel_start_link s =
     (let s1 = s\<lparr>KIMAGE_START := Some kernel_start,
                 KIMAGE_END := na_align_up E kernel_end KIMAGE_MAP_ALIGN\<rparr>
      in case isize_checked (as_isize kernel_start - as_isize kernel_start_link) of
           Ok off \<Rightarrow> (s1\<lparr>VM_LOAD_OFFSET := off\<rparr>, Ok ())
         | Err e \<Rightarrow> (s1, Err e)
         | Panic \<Rightarrow> (s1, Panic))"

definition kimage_va :: "boot_mem \<Rightarrow> nat \<Rightarrow> (unit, nat) result" where
  "kimage_va s paddr =
     rbind (isize_checked (as_isize paddr - VM_LOAD_OFFSET s)) (\<lambda>i. Ok (as_usize i))"

definition kimage_va_to_pa :: "boot_mem \<Rightarrow> nat \<Rightarrow> (unit, nat) result" where
  "kimage_va_to_pa s vaddr =
     rbind (isize_checked (as_isize vaddr + VM_LOAD_OFFSET s)) (\<lambda>i. Ok (as_usize i))"

definition kimage_range :: "boot_mem \<Rightarrow> (unit, nat \<times> nat) result" where
  "kimage_range s =
     (case KIMAGE_START s of None \<Rightarrow> Panic | Some start \<Rightarrow> Ok (start, KIMAGE_END s))"

text \<open>
  The translations of one architecture (trait \<open>ArchTrait\<close>) are the arguments \<open>va\<close>, \<open>io\<close> and
  \<open>percpu_va\<close>; their x86-64 versions follow.
\<close>

definition phys_to_virt ::
  "(nat \<Rightarrow> (unit, nat) result) \<Rightarrow> (nat \<Rightarrow> (unit, nat) result) \<Rightarrow> boot_mem \<Rightarrow> nat \<Rightarrow> (unit, nat) result"
where
  "phys_to_virt va percpu_va s paddr =
     (if MMU_ENABLED s then
        rbind (kimage_range s) (\<lambda>(kstart, kend).
          if kstart \<le> paddr \<and> paddr < kend then kimage_va s paddr
          else if PERCPU_START s \<le> paddr \<and> paddr < PERCPU_END s then percpu_va paddr
          else va paddr)
      else Ok paddr)"

definition fixmap_io :: "(nat \<Rightarrow> (unit, nat) result) \<Rightarrow> boot_mem \<Rightarrow> nat \<Rightarrow> (unit, nat) result" where
  "fixmap_io io s paddr = (if MMU_ENABLED s then io paddr else Ok paddr)"

definition set_mmu_enabled :: "boot_mem \<Rightarrow> boot_mem" where
  "set_mmu_enabled s = s\<lparr>MMU_ENABLED := True\<rparr>"

section \<open>The memory map\<close>

text \<open>
  \<open>item.range()\<close> adds start and size with a plain operator, so a descriptor that reaches past the
  address space panics before the map is touched.  The descriptors already in the map stay below the
  bound (\<open>add_memory_descriptor_Ok\<close>), so their ranges never overflow.
\<close>

definition add_memory_descriptor ::
  "boot_env \<Rightarrow> memory_descriptor \<Rightarrow> boot_mem \<Rightarrow> boot_mem \<times> (memory_descriptor range_error, unit) result"
where
  "add_memory_descriptor E desc s =
     (if U64_MAX < physical_start desc + size_in_bytes desc then (s, Panic)
      else case cell_update (MEMORY_MAP s) (\<lambda>mem. merge_add md_range_op (heapless_full E) mem desc) of
             (c, r) \<Rightarrow> (s\<lparr>MEMORY_MAP := c\<rparr>, r))"

definition memory_map :: "boot_mem \<Rightarrow> (unit, memory_descriptor list) result" where
  "memory_map s = cell_deref (MEMORY_MAP s)"

text \<open>The state effect of \<open>print_memory_map\<close>, which sorts the map before it prints it.\<close>

definition print_memory_map :: "boot_mem \<Rightarrow> boot_mem \<times> (unit, unit) result" where
  "print_memory_map s =
     (case cell_update (MEMORY_MAP s) (\<lambda>mem. (sort_key physical_start mem, Ok ())) of
        (c, r) \<Rightarrow> (s\<lparr>MEMORY_MAP := c\<rparr>, r))"

section \<open>The linear allocator\<close>

definition ram_alloc :: "boot_env \<Rightarrow> nat \<Rightarrow> nat \<Rightarrow> boot_mem \<Rightarrow> boot_mem \<times> (unit, nat option) result" where
  "ram_alloc E lsize lalign s =
     (let start = na_align_up E (RAM_CURRENT s) lalign
      in if U64_MAX < start + lsize then (s, Panic)
         else if start + lsize > RAM_END s then (s, Ok None)
         else (s\<lparr>RAM_CURRENT := start + lsize\<rparr>, Ok (Some start)))"

definition used_range :: "boot_env \<Rightarrow> boot_mem \<Rightarrow> nat \<times> nat" where
  "used_range E s = (RAM_START s, na_align_up E (RAM_CURRENT s) (page_size E))"

definition flush_to_memory_map :: "boot_env \<Rightarrow> memory_type \<Rightarrow> boot_mem \<Rightarrow> boot_mem \<times> (unit, unit) result" where
  "flush_to_memory_map E kind s =
     (case used_range E s of (rstart, rend) \<Rightarrow>
        if \<not> rstart < rend then (s, Ok ())
        else
          and_then (s, new_with_range rstart rend kind) (\<lambda>desc s.
          and_then (unwrap (add_memory_descriptor E desc s)) (\<lambda>_ s.
          (s\<lparr>RAM_START := rend, RAM_CURRENT := rend\<rparr>, Ok ()))))"

definition alloc_and_flush_to_memory_map ::
  "boot_env \<Rightarrow> nat \<Rightarrow> nat \<Rightarrow> memory_type \<Rightarrow> boot_mem \<Rightarrow> boot_mem \<times> (unit, nat option) result"
where
  "alloc_and_flush_to_memory_map E lsize lalign kind s =
     and_then (ram_alloc E lsize lalign s) (\<lambda>addr s.
       case addr of
         None \<Rightarrow> (s, Ok None)
       | Some a \<Rightarrow> and_then (flush_to_memory_map E kind s) (\<lambda>_ s. (s, Ok (Some a))))"

definition ram_init :: "nat \<Rightarrow> nat \<Rightarrow> boot_mem \<Rightarrow> boot_mem" where
  "ram_init rstart rend s = s\<lparr>RAM_START := rstart, RAM_END := rend, RAM_CURRENT := max rstart 64\<rparr>"

text \<open>\<open>Layout::from_size_align(size, align).unwrap()\<close>.\<close>

definition layout_from_size_align :: "nat \<Rightarrow> nat \<Rightarrow> bool" where
  "layout_from_size_align lsize lalign \<longleftrightarrow> is_power_of_two lalign \<and> lsize + lalign \<le> 2 ^ 63"

text \<open>The frame allocator \<open>Ram\<close> of the boot page table.\<close>

definition ram_alloc_frame :: "boot_env \<Rightarrow> boot_mem \<Rightarrow> boot_mem \<times> (unit, nat option) result" where
  "ram_alloc_frame E s = ram_alloc E (page_size E) (page_size E) s"

definition ram_dealloc_frame :: "nat \<Rightarrow> boot_mem \<Rightarrow> boot_mem" where
  "ram_dealloc_frame frame s = s"

section \<open>Filling the map at boot\<close>

definition fdt_addr_phys :: "boot_mem \<Rightarrow> nat option" where
  "fdt_addr_phys s = (if FDT_ADDR s = 0 then None else Some (FDT_ADDR s))"

text \<open>Before the MMU is on, \<open>phys_to_virt\<close> is the identity, so the reader gets the physical address.\<close>

definition fdt_base :: "boot_env \<Rightarrow> boot_mem \<Rightarrow> fdt_raw option" where
  "fdt_base E s = Option.bind (fdt_addr_phys s) (fdt_from_ptr E)"

fun add_regions :: "boot_env \<Rightarrow> (nat \<times> nat) list \<Rightarrow> boot_mem \<Rightarrow> boot_mem \<times> (unit, unit) result" where
  "add_regions E [] s = (s, Ok ())"
| "add_regions E ((address, sz) # regions) s =
     (if sz = 0 then add_regions E regions s
      else
        and_then (unwrap (add_memory_descriptor E
            \<lparr>physical_start = address, size_in_bytes = sz, memory_type = Free\<rparr> s))
          (\<lambda>_. add_regions E regions))"

fun add_reservations ::
  "boot_env \<Rightarrow> nat \<Rightarrow> (nat \<times> nat) list \<Rightarrow> boot_mem \<Rightarrow> boot_mem \<times> (unit, unit) result"
where
  "add_reservations E PAGE_SIZE [] s = (s, Ok ())"
| "add_reservations E PAGE_SIZE ((address, sz) # rest) s =
     and_then (s, new_aligned E address sz Reserved PAGE_SIZE) (\<lambda>desc s.
     and_then (unwrap (add_memory_descriptor E desc s)) (\<lambda>_.
     add_reservations E PAGE_SIZE rest))"

fun add_reserved_memory ::
  "boot_env \<Rightarrow> ((nat \<times> nat option) list option) list \<Rightarrow> boot_mem \<Rightarrow> boot_mem \<times> (unit, unit) result"
where
  "add_reserved_memory E [] s = (s, Ok ())"
| "add_reserved_memory E (Some ((address, Some sz) # regs) # rest) s =
     (if sz > 0 then
        and_then (unwrap (add_memory_descriptor E
            \<lparr>physical_start = address, size_in_bytes = sz, memory_type = Reserved\<rparr> s))
          (\<lambda>_. add_reserved_memory E rest)
      else add_reserved_memory E rest s)"
| "add_reserved_memory E (reserved # rest) s = add_reserved_memory E rest s"

definition init_memory_map :: "boot_env \<Rightarrow> nat \<Rightarrow> boot_mem \<Rightarrow> boot_mem \<times> (unit, unit option) result" where
  "init_memory_map E PAGE_SIZE s =
     (case fdt_base E s of
        None \<Rightarrow> (s, Ok None)
      | Some fdt \<Rightarrow>
          and_then (add_regions E (concat (fdt_memory fdt)) s) (\<lambda>_ s.
          and_then (add_reservations E PAGE_SIZE (fdt_reservations fdt) s) (\<lambda>_ s.
          and_then (add_reserved_memory E (fdt_reserved_memory fdt) s) (\<lambda>_ s.
          (s, Ok (Some ()))))))"

definition debug_to_memory_desc :: "boot_env \<Rightarrow> boot_mem \<Rightarrow> (unit, memory_descriptor option) result" where
  "debug_to_memory_desc E s =
     (if DEBUG_BASE s = 0 \<or> \<not> DEBUG_IS_MMIO s then Ok None
      else rbind (new_aligned E (DEBUG_BASE s) 100 Mmio (page_size E)) (\<lambda>d. Ok (Some d)))"

definition memory_map_setup :: "boot_env \<Rightarrow> boot_mem \<Rightarrow> boot_mem \<times> (unit, unit) result" where
  "memory_map_setup E s =
     and_then
       (case used_range E s of (rstart, rend) \<Rightarrow>
          if rstart < rend then
            and_then (s, new_with_range rstart rend Reserved) (\<lambda>desc s.
              unwrap (add_memory_descriptor E desc s))
          else (s, Ok ())) (\<lambda>_ s.
     and_then (s, debug_to_memory_desc E s) (\<lambda>od s.
       case od of None \<Rightarrow> (s, Ok ()) | Some desc \<Rightarrow> unwrap (add_memory_descriptor E desc s)))"

definition AP_TRAMPOLINE_PADDR :: nat where "AP_TRAMPOLINE_PADDR = 32768"

text \<open>The x86-64 build; the other architectures reserve nothing.\<close>

definition reserve_arch_early_ranges :: "boot_env \<Rightarrow> boot_mem \<Rightarrow> boot_mem \<times> (unit, unit) result" where
  "reserve_arch_early_ranges E s =
     and_then (s, new_aligned E AP_TRAMPOLINE_PADDR (page_size E) Reserved (page_size E)) (\<lambda>desc s.
       case add_memory_descriptor E desc s of
         (s, Ok _) \<Rightarrow> (s, Ok ())
       | (s, Err (Conflict new existing)) \<Rightarrow>
           (s, if memory_type existing \<noteq> Free then Ok () else Panic)
       | (s, Err Capacity) \<Rightarrow> (s, Panic)
       | (s, Panic) \<Rightarrow> (s, Panic))"

definition large_free_range :: "memory_descriptor list \<Rightarrow> (nat \<times> nat) option" where
  "large_free_range mem =
     map_option (\<lambda>d. (physical_start d, physical_start d + size_in_bytes d))
       (find (\<lambda>d. memory_type d = Free \<and> size_in_bytes d > 8 * MB) mem)"

text \<open>The copy of the blob into the new buffer is not part of the state; its address is.\<close>

definition save_fdt :: "boot_env \<Rightarrow> boot_mem \<Rightarrow> boot_mem \<times> (unit, unit) result" where
  "save_fdt E s =
     (case fdt_base E s of
        None \<Rightarrow> (s, Ok ())
      | Some fdt \<Rightarrow>
          if \<not> layout_from_size_align (fdt_totalsize fdt) 8 then (s, Panic)
          else and_then (ram_alloc E (fdt_totalsize fdt) 8 s) (\<lambda>buff s.
            case buff of None \<Rightarrow> (s, Panic) | Some a \<Rightarrow> (s\<lparr>FDT_ADDR := a\<rparr>, Ok ())))"

section \<open>What the map says of an address\<close>

definition aligns_up :: "boot_env \<Rightarrow> bool" where
  "aligns_up E \<longleftrightarrow>
     (\<forall>x a. is_power_of_two a \<longrightarrow> x + (a - 1) \<le> U64_MAX \<longrightarrow> na_align_up E x a = ((x + a - 1) div a) * a)"

definition heapless_128 :: "boot_env \<Rightarrow> bool" where
  "heapless_128 E \<longleftrightarrow> (\<forall>xs. heapless_full E xs \<longleftrightarrow> 128 \<le> length xs)"

definition memory_kind :: "boot_mem \<Rightarrow> nat \<Rightarrow> memory_type option" where
  "memory_kind s a = (case memory_map s of Ok m \<Rightarrow> kind_at md_range_op m a | _ \<Rightarrow> None)"

definition map_entries :: "boot_mem \<Rightarrow> nat" where
  "map_entries s = (case memory_map s of Ok m \<Rightarrow> length m | _ \<Rightarrow> 0)"

text \<open>The descriptors are disjoint, not empty and inside the address space.\<close>

definition memory_map_ok :: "memory_descriptor list \<Rightarrow> bool" where
  "memory_map_ok m \<longleftrightarrow> range_set_inv md_range_op m \<and> (\<forall>d \<in> set m. proper md_range_op U64_MAX d)"

definition mm_inv :: "boot_mem \<Rightarrow> bool" where
  "mm_inv s \<longleftrightarrow> (case memory_map s of Ok m \<Rightarrow> memory_map_ok m | _ \<Rightarrow> False)"

lemma mm_inv_initial: "mm_inv boot_mem_init"
  by (simp add: mm_inv_def memory_map_def boot_mem_init_def memory_map_ok_def range_set_inv_def
      pairwise_disjoint_def)

lemma mm_invE:
  assumes "mm_inv s"
  obtains m where "memory_map s = Ok m" "memory_map_ok m"
  using assms by (auto simp: mm_inv_def split: result.splits)

lemma add_memory_descriptor_step:
  assumes "memory_map s = Ok m" "physical_start d + size_in_bytes d \<le> U64_MAX"
    and "merge_add md_range_op (heapless_full E) m d = (m', r)"
  shows "\<exists>s'. add_memory_descriptor E d s = (s', r) \<and> memory_map s' = Ok m' \<and>
           s' = s\<lparr>MEMORY_MAP := MEMORY_MAP s'\<rparr>"
  using assms cell_update_deref [of "MEMORY_MAP s" m "\<lambda>mem. merge_add md_range_op (heapless_full E) mem d" m' r]
  by (auto simp: add_memory_descriptor_def memory_map_def split: prod.splits)

lemma add_memory_descriptor_Ok:
  assumes "mm_inv s" "heapless_128 E" "0 < size_in_bytes d"
    and "add_memory_descriptor E d s = (s', Ok ())"
  shows "mm_inv s' \<and> s' = s\<lparr>MEMORY_MAP := MEMORY_MAP s'\<rparr> \<and>
         memory_kind s' = (\<lambda>a. if physical_start d \<le> a \<and> a < physical_start d + size_in_bytes d
                               then Some (memory_type d) else memory_kind s a)"
proof -
  obtain m where m: "memory_map s = Ok m" "memory_map_ok m" using mm_invE [OF assms(1)] .
  obtain m' r where mr: "merge_add md_range_op (heapless_full E) m d = (m', r)" by fastforce
  have fits: "physical_start d + size_in_bytes d \<le> U64_MAX"
    using assms(4) by (auto simp: add_memory_descriptor_def split: if_splits)
  from add_memory_descriptor_step [OF m(1) fits mr] assms(4)
  have s': "r = Ok ()" "memory_map s' = Ok m'" "s' = s\<lparr>MEMORY_MAP := MEMORY_MAP s'\<rparr>" by auto
  have room: "\<forall>ys zs. \<not> heapless_full E ys \<longrightarrow> length zs \<le> length ys \<longrightarrow> \<not> heapless_full E zs"
    using assms(2) by (auto simp: heapless_128_def)
  have "range_set_inv md_range_op m" "wf_item md_range_op d"
    using m(2) by (auto simp: memory_map_ok_def wf_item_def)
  note * = md.merge_add_correct [OF this room mr [unfolded s'(1)]]
  have "proper md_range_op U64_MAX d" using assms(3) fits by (simp add: proper_def)
  then have "memory_map_ok m'" using * m(2) unfolding memory_map_ok_def by blast
  then have "mm_inv s'" by (simp add: mm_inv_def s'(2))
  moreover have "memory_kind s' = (\<lambda>a. if physical_start d \<le> a \<and> a < physical_start d + size_in_bytes d
      then Some (memory_type d) else memory_kind s a)"
    using * by (simp add: memory_kind_def m(1) s'(2) fun_eq_iff)
  ultimately show ?thesis using s'(3) by blast
qed

lemma memory_kind_in_map:
  assumes "memory_map s = Ok m" "memory_map_ok m" "d \<in> set m"
    and "physical_start d \<le> a" "a < physical_start d + size_in_bytes d"
  shows "memory_kind s a = Some (memory_type d)"
  using assms kind_at_Some [of md_range_op m a "memory_type d"]
  by (auto simp: memory_kind_def memory_map_ok_def range_set_inv_def intro!: bexI [of _ d])

lemma add_memory_descriptor_succeeds:
  assumes "mm_inv s" "heapless_128 E" "map_entries s < 127"
    and "physical_start d + size_in_bytes d \<le> U64_MAX"
    and free: "\<And>a. physical_start d \<le> a \<Longrightarrow> a < physical_start d + size_in_bytes d \<Longrightarrow>
           memory_kind s a \<in> {None, Some Free, Some (memory_type d)}"
    and "0 < size_in_bytes d"
  shows "\<exists>s'. add_memory_descriptor E d s = (s', Ok ()) \<and> map_entries s' \<le> map_entries s + 2"
proof -
  obtain m where m: "memory_map s = Ok m" "memory_map_ok m" using mm_invE [OF assms(1)] .
  have "\<not> blocks md_range_op d e" if e: "e \<in> set m" for e
  proof
    assume b: "blocks md_range_op d e"
    let ?a = "max (physical_start d) (physical_start e)"
    have "proper md_range_op U64_MAX e" using m(2) e by (simp add: memory_map_ok_def)
    with b assms(6) have a: "physical_start d \<le> ?a" "?a < physical_start d + size_in_bytes d"
      "physical_start e \<le> ?a" "?a < physical_start e + size_in_bytes e"
      by (auto simp: blocks_def proper_def)
    from memory_kind_in_map [OF m e a(3,4)] free [OF a(1,2)] b show False
      by (auto simp: blocks_def)
  qed
  moreover have "\<not> heapless_full E zs" if "length zs \<le> Suc (length m)" for zs
    using assms(2,3) m(1) that by (simp add: heapless_128_def map_entries_def)
  ultimately obtain m' where m': "merge_add md_range_op (heapless_full E) m d = (m', Ok ())"
    "length m' \<le> length m + 2"
    using md.merge_add_succeeds [of m d "heapless_full E"] m(2)
    by (auto simp: memory_map_ok_def wf_item_def)
  with add_memory_descriptor_step [OF m(1) assms(4) m'(1)] m(1) show ?thesis
    by (auto simp: map_entries_def)
qed

text \<open>
  A descriptor never replaces memory of another kind than \<open>Free\<close> or its own, whether it is added or refused;
  when it is refused, some memory of its range has another kind and keeps it.
\<close>

lemma memory_kind_Some:
  assumes "memory_map s = Ok m" "memory_map_ok m"
  shows "memory_kind s a = Some k \<longleftrightarrow> (\<exists>d \<in> set m. a \<in> cover md_range_op d \<and> memory_type d = k)"
  using assms kind_at_Some [of md_range_op m a k] by (simp add: memory_kind_def memory_map_ok_def range_set_inv_def)

lemma overlap_blocks:
  "a \<in> cover md_range_op e \<Longrightarrow> a \<in> cover md_range_op d \<Longrightarrow>
   blocks md_range_op d e \<longleftrightarrow> memory_type e \<noteq> Free \<and> memory_type e \<noteq> memory_type d"
  by (auto simp: blocks_def)

lemma add_memory_descriptor_keeps:
  assumes "mm_inv s" "heapless_128 E" "0 < size_in_bytes d" "add_memory_descriptor E d s = (s', Ok ())"
    and "memory_kind s a = Some k" "k \<noteq> Free" "k \<noteq> memory_type d"
  shows "memory_kind s' a = Some k"
proof -
  obtain m where m: "memory_map s = Ok m" "memory_map_ok m" using mm_invE [OF assms(1)] .
  obtain m' r where mr: "merge_add md_range_op (heapless_full E) m d = (m', r)" by fastforce
  have fits: "physical_start d + size_in_bytes d \<le> U64_MAX"
    using assms(4) by (auto simp: add_memory_descriptor_def split: if_splits)
  from add_memory_descriptor_step [OF m(1) fits mr] assms(4) have r: "r = Ok ()" by auto
  have w: "range_set_inv md_range_op m" "wf_item md_range_op d"
    using m(2) by (auto simp: memory_map_ok_def wf_item_def)
  obtain e where e: "e \<in> set m" "a \<in> cover md_range_op e" "memory_type e = k"
    using assms(5) memory_kind_Some [OF m] by blast
  have "a \<notin> cover md_range_op d"
    using md.merge_add_unblocked [OF w mr [unfolded r] e(1,2)] overlap_blocks [OF e(2)] e(3) assms(6,7) by blast
  then show ?thesis using add_memory_descriptor_Ok [OF assms(1-4)] assms(5) by auto
qed

lemma add_memory_descriptor_conflict:
  assumes "mm_inv s" "0 < size_in_bytes d" "add_memory_descriptor E d s = (s', Err (Conflict n e))"
  shows "mm_inv s'" "s' = s\<lparr>MEMORY_MAP := MEMORY_MAP s'\<rparr>"
    "memory_kind s a = Some k \<Longrightarrow> k \<noteq> Free \<Longrightarrow> k \<noteq> memory_type d \<Longrightarrow> memory_kind s' a = Some k"
    "\<exists>a k. physical_start d \<le> a \<and> a < physical_start d + size_in_bytes d \<and> memory_kind s' a = Some k \<and>
       k \<noteq> Free \<and> k \<noteq> memory_type d"
proof -
  obtain m where m: "memory_map s = Ok m" "memory_map_ok m" using mm_invE [OF assms(1)] .
  obtain m' r where mr: "merge_add md_range_op (heapless_full E) m d = (m', r)" by fastforce
  have fits: "physical_start d + size_in_bytes d \<le> U64_MAX"
    using assms(3) by (auto simp: add_memory_descriptor_def split: if_splits)
  from add_memory_descriptor_step [OF m(1) fits mr] assms(3)
  have s': "r = Err (Conflict n e)" "memory_map s' = Ok m'" "s' = s\<lparr>MEMORY_MAP := MEMORY_MAP s'\<rparr>" by auto
  have w: "range_set_inv md_range_op m" "wf_item md_range_op d"
    using m(2) by (auto simp: memory_map_ok_def wf_item_def)
  note kept = md.merge_add_conflict_keeps [OF w mr [unfolded s'(1)], unfolded md.kept_of_def append_Nil]
  have ok: "memory_map_ok m'" using kept m(2) unfolding memory_map_ok_def by blast
  then show "mm_inv s'" by (simp add: mm_inv_def s'(2))
  show "s' = s\<lparr>MEMORY_MAP := MEMORY_MAP s'\<rparr>" by (rule s'(3))
  show keep: "memory_kind s' a = Some k"
    if k: "memory_kind s a = Some k" "k \<noteq> Free" "k \<noteq> memory_type d" for a k
  proof -
    obtain x where x: "x \<in> set m" "a \<in> cover md_range_op x" "memory_type x = k"
      using k(1) memory_kind_Some [OF m] by blast
    have "blocks md_range_op d x \<or> a \<notin> cover md_range_op d" using overlap_blocks [OF x(2)] x(3) k(2,3) by blast
    then have "\<exists>y \<in> set m'. a \<in> cover md_range_op y \<and> ro_kind md_range_op y = ro_kind md_range_op x"
      using kept x(1,2) by blast
    then show ?thesis using memory_kind_Some [OF s'(2) ok] x(3) by simp
  qed
  have b: "e \<in> set m" "blocks md_range_op d e" using md.merge_add_conflict [OF w mr [unfolded s'(1)]] by auto
  let ?a = "max (physical_start d) (physical_start e)"
  have "proper md_range_op U64_MAX e" using m(2) b(1) by (simp add: memory_map_ok_def)
  with b(2) assms(2) have a: "physical_start d \<le> ?a" "?a < physical_start d + size_in_bytes d"
    "physical_start e \<le> ?a" "?a < physical_start e + size_in_bytes e"
    by (auto simp: blocks_def proper_def)
  from memory_kind_in_map [OF m b(1) a(3,4)] keep [of ?a] a(1,2) b(2)
  show "\<exists>a k. physical_start d \<le> a \<and> a < physical_start d + size_in_bytes d \<and> memory_kind s' a = Some k \<and>
       k \<noteq> Free \<and> k \<noteq> memory_type d"
    by (intro exI [of _ ?a] exI [of _ "memory_type e"]) (auto simp: blocks_def)
qed

section \<open>The linear allocator hands out fresh memory\<close>

lemma ram_alloc_Some:
  assumes "aligns_up E" "is_power_of_two lalign" "RAM_CURRENT s + (lalign - 1) \<le> U64_MAX"
    and "ram_alloc E lsize lalign s = (s', Ok (Some a))"
  shows "lalign dvd a" "RAM_CURRENT s \<le> a" "a + lsize = RAM_CURRENT s'" "RAM_CURRENT s' \<le> RAM_END s"
    "s' = s\<lparr>RAM_CURRENT := a + lsize\<rparr>"
proof -
  have "na_align_up E (RAM_CURRENT s) lalign = ((RAM_CURRENT s + lalign - 1) div lalign) * lalign"
    using assms(1-3) unfolding aligns_up_def by blast
  moreover have a: "a = na_align_up E (RAM_CURRENT s) lalign" "s' = s\<lparr>RAM_CURRENT := a + lsize\<rparr>"
    "a + lsize \<le> RAM_END s"
    using assms(4) by (auto simp: ram_alloc_def Let_def split: if_splits)
  ultimately show "lalign dvd a" "RAM_CURRENT s \<le> a"
    using align_up_props [OF is_power_of_two_pos [OF assms(2)], of "RAM_CURRENT s"] by simp_all
  show "a + lsize = RAM_CURRENT s'" "RAM_CURRENT s' \<le> RAM_END s" "s' = s\<lparr>RAM_CURRENT := a + lsize\<rparr>"
    using a by simp_all
qed

lemma ram_alloc_None:
  assumes "ram_alloc E lsize lalign s = (s', Ok None)"
  shows "s' = s \<and> RAM_END s < na_align_up E (RAM_CURRENT s) lalign + lsize"
  using assms by (auto simp: ram_alloc_def Let_def split: if_splits)

text \<open>
  The allocator is backed by free memory: everything between its start and its end is free in the
  map, and its end is on a page boundary.
\<close>

definition ram_backed :: "boot_env \<Rightarrow> boot_mem \<Rightarrow> bool" where
  "ram_backed E s \<longleftrightarrow>
     mm_inv s \<and> is_power_of_two (page_size E) \<and> page_size E dvd RAM_END s \<and>
     RAM_END s + page_size E \<le> U64_MAX \<and>
     RAM_START s \<le> RAM_CURRENT s \<and> RAM_CURRENT s \<le> RAM_END s \<and>
     (\<forall>a. RAM_START s \<le> a \<longrightarrow> a < RAM_END s \<longrightarrow> memory_kind s a = Some Free)"

lemma ram_alloc_backed:
  assumes "ram_backed E s" "aligns_up E" "is_power_of_two lalign" "RAM_CURRENT s + (lalign - 1) \<le> U64_MAX"
    and "ram_alloc E lsize lalign s = (s', Ok r)"
  shows "ram_backed E s'"
proof (cases r)
  case None
  then show ?thesis using assms ram_alloc_None by blast
next
  case (Some a)
  note al = ram_alloc_Some [OF assms(2-4) assms(5) [unfolded Some]]
  have "memory_kind s' = memory_kind s" "mm_inv s' = mm_inv s"
    unfolding fun_eq_iff by (subst al(5), simp add: memory_kind_def mm_inv_def memory_map_def)+
  moreover have "RAM_START s' = RAM_START s" "RAM_END s' = RAM_END s" by (subst al(5), simp)+
  ultimately show ?thesis using assms(1) al(2-4) unfolding ram_backed_def by simp
qed

text \<open>Allocating and filling the map leave every other static alone.\<close>

definition same_boot :: "boot_mem \<Rightarrow> boot_mem \<Rightarrow> bool" where
  "same_boot s s' \<longleftrightarrow>
     VM_LOAD_OFFSET s' = VM_LOAD_OFFSET s \<and> KIMAGE_START s' = KIMAGE_START s \<and>
     KIMAGE_END s' = KIMAGE_END s \<and> RAM_END s' = RAM_END s \<and> MMU_ENABLED s' = MMU_ENABLED s \<and>
     FDT_ADDR s' = FDT_ADDR s \<and> DEBUG_BASE s' = DEBUG_BASE s \<and> DEBUG_IS_MMIO s' = DEBUG_IS_MMIO s \<and>
     PERCPU_START s' = PERCPU_START s \<and> PERCPU_END s' = PERCPU_END s"

lemma same_boot_trans: "same_boot s s' \<Longrightarrow> same_boot s' s'' \<Longrightarrow> same_boot s s''"
  by (simp add: same_boot_def)

lemma flush_to_memory_map_spec:
  assumes "ram_backed E s" "aligns_up E" "heapless_128 E" "map_entries s < 127"
  defines "e \<equiv> ((RAM_CURRENT s + page_size E - 1) div page_size E) * page_size E"
  shows "\<exists>s'. flush_to_memory_map E kind s = (s', Ok ()) \<and> ram_backed E s' \<and>
           RAM_START s' = e \<and> RAM_CURRENT s' = e \<and> RAM_END s' = RAM_END s \<and>
           same_boot s s' \<and> map_entries s' \<le> map_entries s + 2 \<and>
           memory_kind s' = (\<lambda>a. if RAM_START s \<le> a \<and> a < e then Some kind else memory_kind s a)"
proof -
  have B: "mm_inv s" "is_power_of_two (page_size E)" "page_size E dvd RAM_END s"
    "RAM_END s + page_size E \<le> U64_MAX" "RAM_START s \<le> RAM_CURRENT s" "RAM_CURRENT s \<le> RAM_END s"
    "\<And>a. RAM_START s \<le> a \<Longrightarrow> a < RAM_END s \<Longrightarrow> memory_kind s a = Some Free"
    using assms(1) by (auto simp: ram_backed_def)
  have pos: "0 < page_size E" using B(2) by (rule is_power_of_two_pos)
  have "RAM_CURRENT s + (page_size E - 1) \<le> U64_MAX" using B(4,6) by linarith
  then have ue: "used_range E s = (RAM_START s, e)"
    using assms(2) B(2) unfolding used_range_def aligns_up_def e_def by blast
  have e: "RAM_CURRENT s \<le> e" "e \<le> RAM_END s" unfolding e_def
    using align_up_props(2) [OF pos] align_up_least [OF pos B(3,6)] by blast+
  show ?thesis
  proof (cases "RAM_START s < e")
    case False
    then have "RAM_START s = e \<and> RAM_CURRENT s = e" using e(1) B(5) by linarith
    with ue False assms(1) show ?thesis by (auto simp: flush_to_memory_map_def fun_eq_iff same_boot_def)
  next
    case True
    let ?d = "\<lparr>physical_start = RAM_START s, size_in_bytes = e - RAM_START s, memory_type = kind\<rparr>"
    have "\<exists>s'. add_memory_descriptor E ?d s = (s', Ok ()) \<and> map_entries s' \<le> map_entries s + 2"
      using True e(2) B(4,7) by (intro add_memory_descriptor_succeeds [OF B(1) assms(3,4)]) auto
    then obtain s1 where s1: "add_memory_descriptor E ?d s = (s1, Ok ())"
      and len: "map_entries s1 \<le> map_entries s + 2" by blast
    from add_memory_descriptor_Ok [OF B(1) assms(3) _ s1] True
    have ok: "mm_inv s1" "s1 = s\<lparr>MEMORY_MAP := MEMORY_MAP s1\<rparr>"
      "memory_kind s1 = (\<lambda>a. if RAM_START s \<le> a \<and> a < e then Some kind else memory_kind s a)"
      by (auto simp: fun_eq_iff)
    let ?s' = "s1\<lparr>RAM_START := e, RAM_CURRENT := e\<rparr>"
    have "flush_to_memory_map E kind s = (?s', Ok ())"
      using True s1 by (simp add: flush_to_memory_map_def ue new_with_range_def)
    moreover have kind': "memory_kind ?s' = memory_kind s1" "mm_inv ?s'"
      using ok(1) by (simp_all add: memory_kind_def mm_inv_def memory_map_def fun_eq_iff)
    moreover have end': "RAM_END ?s' = RAM_END s" by (subst ok(2)) simp
    moreover have "ram_backed E ?s'"
      using kind' end' B e True unfolding ram_backed_def ok(3) by auto
    moreover have "same_boot s ?s'" unfolding same_boot_def by (subst ok(2), simp)+
    moreover have "map_entries ?s' \<le> map_entries s + 2"
      using len by (simp add: map_entries_def memory_map_def)
    ultimately show ?thesis using ok(3) by (intro exI [of _ ?s']) simp
  qed
qed

text \<open>Memory taken with \<open>alloc_and_flush_to_memory_map\<close> is reported with its kind from then on.\<close>

lemma alloc_and_flush_spec:
  assumes "ram_backed E s" "aligns_up E" "heapless_128 E" "map_entries s < 127"
    and "is_power_of_two lalign" "RAM_CURRENT s + (lalign - 1) \<le> U64_MAX"
    and "alloc_and_flush_to_memory_map E lsize lalign kind s = (s', Ok (Some a))"
  shows "ram_backed E s' \<and> lalign dvd a \<and> RAM_CURRENT s \<le> a \<and> a + lsize \<le> RAM_START s' \<and>
         (\<forall>x. a \<le> x \<longrightarrow> x < a + lsize \<longrightarrow> memory_kind s' x = Some kind)"
proof -
  from assms(7) obtain s1 where s1: "ram_alloc E lsize lalign s = (s1, Ok (Some a))"
    and fl: "flush_to_memory_map E kind s1 = (s', Ok ())"
    by (auto simp: alloc_and_flush_to_memory_map_def result_simps split: option.splits)
  note al = ram_alloc_Some [OF assms(2,5,6) s1]
  have b1: "ram_backed E s1" using ram_alloc_backed [OF assms(1,2,5,6) s1] .
  have "map_entries s1 = map_entries s" by (subst al(5), simp add: map_entries_def memory_map_def)
  then have "map_entries s1 < 127" using assms(4) by simp
  from flush_to_memory_map_spec [OF b1 assms(2,3) this, of kind] fl
  have f: "ram_backed E s'" "RAM_CURRENT s1 \<le> RAM_START s'"
    "memory_kind s' = (\<lambda>x. if RAM_START s1 \<le> x \<and> x < RAM_START s' then Some kind else memory_kind s1 x)"
    using align_up_props(2) [of "page_size E" "RAM_CURRENT s1"] b1 is_power_of_two_pos
    by (auto simp: ram_backed_def)
  have "RAM_START s1 \<le> a" using b1 assms(1) al(2) by (subst al(5)) (simp add: ram_backed_def)
  then show ?thesis using f al(1-3) by simp
qed

section \<open>Translation of kernel image addresses\<close>

lemma as_usize_as_isize: "n \<le> U64_MAX \<Longrightarrow> as_usize (as_isize n) = n"
  by (auto simp: as_usize_def as_isize_def U64_MAX_def)

lemma as_isize_as_usize: "- (2 ^ 63) \<le> i \<Longrightarrow> i < 2 ^ 63 \<Longrightarrow> as_isize (as_usize i) = i"
proof (cases "0 \<le> i")
  case False
  assume "- (2 ^ 63) \<le> i"
  with False have "i mod 2 ^ 64 = i + 2 ^ 64" by (intro int_mod_pos_eq [of _ _ "- 1"]) auto
  with \<open>- (2 ^ 63) \<le> i\<close> False show ?thesis by (auto simp: as_usize_def as_isize_def)
qed (auto simp: as_usize_def as_isize_def)

lemma kimage_roundtrip:
  assumes "p \<le> U64_MAX" "kimage_va s p = Ok v"
  shows "kimage_va_to_pa s v = Ok p"
proof -
  from assms(2) have r: "- (2 ^ 63) \<le> as_isize p - VM_LOAD_OFFSET s" "as_isize p - VM_LOAD_OFFSET s < 2 ^ 63"
    and v: "v = as_usize (as_isize p - VM_LOAD_OFFSET s)"
    by (auto simp: kimage_va_def result_simps isize_checked_def split: if_splits)
  have "- (2 ^ 63) \<le> as_isize p \<and> as_isize p < 2 ^ 63"
    using assms(1) by (auto simp: as_isize_def U64_MAX_def)
  then show ?thesis
    using as_isize_as_usize [OF r] as_usize_as_isize [OF assms(1)]
    by (simp add: kimage_va_to_pa_def isize_checked_def v)
qed

end
