(* ===== verification/X86_Paging.thy ===== *)
theory X86_Paging
  imports Page_Table_Range Memory_Map
begin

unbundle bit_operations_syntax

text \<open>
  The x86-64 entry format of \<open>crates/someboot/src/arch/x86_64/paging.rs\<close> over the boot frame allocator
  \<open>Ram\<close> of \<open>crates/someboot/src/mem/ram.rs\<close>: the tables that the kernel boots with.  Both satisfy the
  laws of the generic page table, so the mapping theorems hold for them.
\<close>

section \<open>Entries\<close>

definition PTE_PRESENT :: "64 word" where "PTE_PRESENT = push_bit 0 1"
definition PTE_WRITABLE :: "64 word" where "PTE_WRITABLE = push_bit 1 1"
definition PTE_USER :: "64 word" where "PTE_USER = push_bit 2 1"
definition PTE_WRITE_THROUGH :: "64 word" where "PTE_WRITE_THROUGH = push_bit 3 1"
definition PTE_CACHE_DISABLE :: "64 word" where "PTE_CACHE_DISABLE = push_bit 4 1"
definition PTE_ACCESSED :: "64 word" where "PTE_ACCESSED = push_bit 5 1"
definition PTE_DIRTY :: "64 word" where "PTE_DIRTY = push_bit 6 1"
definition PTE_HUGE :: "64 word" where "PTE_HUGE = push_bit 7 1"
definition PTE_GLOBAL :: "64 word" where "PTE_GLOBAL = push_bit 8 1"
definition PTE_NO_EXECUTE :: "64 word" where "PTE_NO_EXECUTE = push_bit 63 1"
definition PTE_ADDR_MASK :: "64 word" where "PTE_ADDR_MASK = 0x000ffffffffff000"

lemmas pte_bits = PTE_PRESENT_def PTE_WRITABLE_def PTE_USER_def PTE_WRITE_THROUGH_def PTE_CACHE_DISABLE_def
  PTE_ACCESSED_def PTE_DIRTY_def PTE_HUGE_def PTE_GLOBAL_def PTE_NO_EXECUTE_def

definition flag :: "bool \<Rightarrow> 64 word \<Rightarrow> 64 word" where
  "flag b w = (if b then w else 0)"

definition entry_from_config :: "pte_config \<Rightarrow> 64 word" where
  "entry_from_config c =
     (let bits = word_of_nat (pc_paddr c) AND PTE_ADDR_MASK;
          bits = bits OR flag (pc_valid c) PTE_PRESENT;
          bits = bits OR flag (pc_writable c) PTE_WRITABLE;
          bits = bits OR flag (pc_lower c) PTE_USER;
          bits = bits OR flag (pc_dirty c) PTE_DIRTY;
          bits = bits OR flag (pc_global c) PTE_GLOBAL;
          bits = bits OR flag (pc_is_dir c \<and> pc_huge c) PTE_HUGE;
          bits = bits OR flag (pc_mem_attr c \<in> {Device, Uncached}) (PTE_CACHE_DISABLE OR PTE_WRITE_THROUGH);
          is_leaf = (\<not> pc_is_dir c \<or> pc_huge c);
          bits = bits OR flag (is_leaf \<and> \<not> pc_executable c) PTE_NO_EXECUTE
      in bits OR flag (pc_valid c) PTE_ACCESSED)"

definition entry_to_config :: "64 word \<Rightarrow> bool \<Rightarrow> pte_config" where
  "entry_to_config w is_dir =
     \<lparr>pc_paddr = unat (w AND PTE_ADDR_MASK),
      pc_valid = (w AND PTE_PRESENT \<noteq> 0),
      pc_read = (w AND PTE_PRESENT \<noteq> 0),
      pc_writable = (w AND PTE_WRITABLE \<noteq> 0),
      pc_executable = (w AND PTE_NO_EXECUTE = 0),
      pc_lower = (w AND PTE_USER \<noteq> 0),
      pc_dirty = (w AND PTE_DIRTY \<noteq> 0),
      pc_global = (w AND PTE_GLOBAL \<noteq> 0),
      pc_is_dir = is_dir,
      pc_huge = (is_dir \<and> w AND PTE_HUGE \<noteq> 0),
      pc_mem_attr = (if w AND (PTE_CACHE_DISABLE OR PTE_WRITE_THROUGH) \<noteq> 0 then Device else Normal)\<rparr>"

definition entry_valid :: "64 word \<Rightarrow> bool" where
  "entry_valid w \<longleftrightarrow> w AND PTE_PRESENT \<noteq> 0"

definition x86_meta :: "boot_env \<Rightarrow> (64 word, boot_mem) table_meta" where
  "x86_meta E =
     \<lparr>PAGE_SIZE = 0x1000, LEVEL_BITS = [9, 9, 9, 9], MAX_BLOCK_LEVEL = 2, pte_size = 8, pte_zero = 0,
      from_config = entry_from_config, to_config = entry_to_config, pte_valid = entry_valid,
      alloc_frame = ram_alloc_frame E, dealloc_frame = ram_dealloc_frame\<rparr>"

section \<open>Bits\<close>

lemma flag_bit [simp]: "bit (flag b w) n \<longleftrightarrow> b \<and> bit w n"
  by (simp add: flag_def)

lemma and_flag_iff: "w AND push_bit n 1 \<noteq> 0 \<longleftrightarrow> bit w n"
  by (simp add: bit_iff_and_push_bit_not_eq_0)

lemma addr_mask_eq: "PTE_ADDR_MASK = push_bit 12 (mask 40)"
  by (simp add: PTE_ADDR_MASK_def mask_eq_exp_minus_1 push_bit_eq_mult)

lemma bit_addr_mask: "bit PTE_ADDR_MASK n \<longleftrightarrow> 12 \<le> n \<and> n < 52"
  by (auto simp: addr_mask_eq bit_push_bit_iff bit_mask_iff)

lemma bit_one_shift: "bit (push_bit m (1 :: 64 word)) n \<longleftrightarrow> n = m \<and> m < 64"
  by (auto simp: bit_exp_iff)

text \<open>The bits of an encoded entry.\<close>

lemma bit_from_config:
  "bit (entry_from_config c) n \<longleftrightarrow>
     12 \<le> n \<and> n < 52 \<and> bit (word_of_nat (pc_paddr c) :: 64 word) n \<or>
     pc_valid c \<and> (n = 0 \<or> n = 5) \<or> pc_writable c \<and> n = 1 \<or> pc_lower c \<and> n = 2 \<or>
     pc_dirty c \<and> n = 6 \<or> pc_global c \<and> n = 8 \<or> pc_is_dir c \<and> pc_huge c \<and> n = 7 \<or>
     pc_mem_attr c \<in> {Device, Uncached} \<and> (n = 3 \<or> n = 4) \<or>
     (\<not> pc_is_dir c \<or> pc_huge c) \<and> \<not> pc_executable c \<and> n = 63"
  unfolding entry_from_config_def Let_def bit_or_iff bit_and_iff flag_bit bit_addr_mask
  unfolding pte_bits bit_one_shift by auto

lemma to_config_bits:
  "pc_valid (entry_to_config w d) \<longleftrightarrow> bit w 0" "pc_writable (entry_to_config w d) \<longleftrightarrow> bit w 1"
  "pc_lower (entry_to_config w d) \<longleftrightarrow> bit w 2" "pc_dirty (entry_to_config w d) \<longleftrightarrow> bit w 6"
  "pc_huge (entry_to_config w d) \<longleftrightarrow> d \<and> bit w 7" "pc_global (entry_to_config w d) \<longleftrightarrow> bit w 8"
  "pc_read (entry_to_config w d) \<longleftrightarrow> bit w 0" "entry_valid w \<longleftrightarrow> bit w 0"
  unfolding entry_to_config_def entry_valid_def pte_bits pte_config.select_convs and_flag_iff by simp_all

lemma to_config_executable: "pc_executable (entry_to_config w d) \<longleftrightarrow> \<not> bit w 63"
  using and_flag_iff [of w 63] unfolding entry_to_config_def pte_bits pte_config.select_convs by blast

lemma to_config_attr:
  "pc_mem_attr (entry_to_config w d) = (if bit w 3 \<or> bit w 4 then Device else Normal)"
proof -
  have "w AND (PTE_CACHE_DISABLE OR PTE_WRITE_THROUGH) \<noteq> 0 \<longleftrightarrow> bit w 4 \<or> bit w 3"
    unfolding pte_bits bit.conj_disj_distrib or_eq_0_iff using and_flag_iff [of w 4] and_flag_iff [of w 3] by blast
  then show ?thesis by (auto simp: entry_to_config_def)
qed

text \<open>The addresses an entry can hold: page aligned and below 4 PiB.\<close>

definition x86_addr_ok :: "nat \<Rightarrow> bool" where
  "x86_addr_ok p \<longleftrightarrow> p mod 4096 = 0 \<and> p < 2 ^ 52"

lemma bit_aligned_addr:
  assumes "x86_addr_ok p" "bit (word_of_nat p :: 64 word) n"
  shows "12 \<le> n \<and> n < 52"
proof -
  have "bit p n" using assms(2) by (simp add: bit_of_nat_iff)
  moreover have "take_bit 52 p = p" using assms(1) by (simp add: x86_addr_ok_def take_bit_eq_mod)
  ultimately have "n < 52" by (metis bit_take_bit_iff)
  moreover have "take_bit 12 p = 0" using assms(1) by (simp add: x86_addr_ok_def take_bit_eq_mod)
  then have "\<not> bit p n" if "n < 12" using that by (metis bit_take_bit_iff bit_0_eq bot_apply bot_bool_def)
  ultimately show ?thesis using \<open>bit p n\<close> by fastforce
qed

lemma paddr_from_config:
  assumes "x86_addr_ok (pc_paddr c)"
  shows "pc_paddr (entry_to_config (entry_from_config c) d) = pc_paddr c"
proof -
  have "entry_from_config c AND PTE_ADDR_MASK = (word_of_nat (pc_paddr c) :: 64 word)"
  proof (rule bit_eqI)
    fix n
    show "bit (entry_from_config c AND PTE_ADDR_MASK) n \<longleftrightarrow> bit (word_of_nat (pc_paddr c) :: 64 word) n"
    proof (cases "12 \<le> n \<and> n < 52")
      case True
      then have "n \<noteq> 0" "n \<noteq> 1" "n \<noteq> 2" "n \<noteq> 3" "n \<noteq> 4" "n \<noteq> 5" "n \<noteq> 6" "n \<noteq> 7" "n \<noteq> 8" "n \<noteq> 63" by auto
      with True show ?thesis by (simp only: bit_and_iff bit_from_config bit_addr_mask simp_thms)
    next
      case False
      with bit_aligned_addr [OF assms, of n] show ?thesis by (simp only: bit_and_iff bit_addr_mask simp_thms) blast
    qed
  qed
  then have "pc_paddr (entry_to_config (entry_from_config c) d) = unat (word_of_nat (pc_paddr c) :: 64 word)"
    by (simp add: entry_to_config_def)
  also have "\<dots> = pc_paddr c"
    using assms by (simp add: x86_addr_ok_def unat_of_nat)
  finally show ?thesis .
qed

section \<open>The boot frame allocator\<close>

text \<open>The frames handed out so far end at or below the allocation pointer.\<close>

definition ram_owned :: "boot_mem \<Rightarrow> nat set" where
  "ram_owned s = {a. a + 4096 \<le> RAM_CURRENT s}"

definition ram_alloc_inv :: "boot_env \<Rightarrow> boot_mem \<Rightarrow> bool" where
  "ram_alloc_inv E s \<longleftrightarrow>
     aligns_up E \<and> page_size E = 4096 \<and> RAM_END s \<le> 2 ^ 52 \<and> RAM_CURRENT s \<le> 2 ^ 52"

lemma is_power_of_two_4096: "is_power_of_two 4096"
  by (simp add: eval_simps)

lemma ram_frame_fresh:
  assumes "ram_alloc_inv E s" "ram_alloc_frame E s = (s', Ok (Some f))"
  shows "ram_alloc_inv E s' \<and> x86_addr_ok f \<and> f \<notin> ram_owned s \<and> insert f (ram_owned s) \<subseteq> ram_owned s'"
proof -
  have E: "aligns_up E" "page_size E = 4096" "RAM_END s \<le> 2 ^ 52" "RAM_CURRENT s \<le> 2 ^ 52"
    using assms(1) by (auto simp: ram_alloc_inv_def)
  have "RAM_CURRENT s + (4096 - 1) \<le> U64_MAX" using E(4) by (simp add: U64_MAX_def)
  note a = ram_alloc_Some [OF E(1) is_power_of_two_4096 this, of 4096 s' f]
  have al: "4096 dvd f" "RAM_CURRENT s \<le> f" "f + 4096 = RAM_CURRENT s'" "RAM_CURRENT s' \<le> RAM_END s"
    "s' = s\<lparr>RAM_CURRENT := f + 4096\<rparr>"
    using a assms(2) E(2) by (simp_all add: ram_alloc_frame_def)
  have "RAM_END s' = RAM_END s" by (subst al(5)) simp
  moreover have "x86_addr_ok f" using al E(3) by (auto simp: x86_addr_ok_def)
  ultimately show ?thesis using al(1-4) E by (auto simp: ram_alloc_inv_def ram_owned_def)
qed

lemma ram_frame_returns:
  assumes "ram_alloc_inv E s"
  shows "\<exists>s' r. ram_alloc_frame E s = (s', Ok r)"
proof -
  have "na_align_up E (RAM_CURRENT s) 4096 = ((RAM_CURRENT s + 4096 - 1) div 4096) * 4096"
    using assms is_power_of_two_4096 unfolding ram_alloc_inv_def aligns_up_def by (simp add: U64_MAX_def)
  moreover have "((RAM_CURRENT s + 4096 - 1) div 4096) * 4096 < RAM_CURRENT s + 4096"
    by (rule align_up_props(3)) simp
  ultimately have "\<not> U64_MAX < na_align_up E (RAM_CURRENT s) 4096 + 4096"
    using assms by (simp add: ram_alloc_inv_def U64_MAX_def)
  moreover have "page_size E = 4096" using assms by (simp add: ram_alloc_inv_def)
  ultimately show ?thesis unfolding ram_alloc_frame_def ram_alloc_def Let_def
    by (cases "RAM_END s < na_align_up E (RAM_CURRENT s) 4096 + 4096") simp_all
qed

section \<open>The boot page table satisfies the laws\<close>

lemma x86_meta_wf: "meta_wf (x86_meta E)"
  by (simp add: meta_wf_def x86_meta_def PT_LEVEL_def LEN_def span_def is_power_of_two_4096 U64_MAX_def)

interpretation x86: page_table_laws "x86_meta E" x86_addr_ok ram_owned "ram_alloc_inv E" for E
proof
  show "meta_wf (x86_meta E)" by (rule x86_meta_wf)
  fix c d p
  show "pc_valid (to_config (x86_meta E) (from_config (x86_meta E) c) d) \<longleftrightarrow> pc_valid c"
    by (auto simp: x86_meta_def to_config_bits bit_from_config)
  show "pte_valid (x86_meta E) p \<longleftrightarrow> pc_valid (to_config (x86_meta E) p d)"
    by (simp add: x86_meta_def to_config_bits)
  show "x86_addr_ok (pc_paddr c) \<Longrightarrow>
      pc_paddr (to_config (x86_meta E) (from_config (x86_meta E) c) d) = pc_paddr c"
    by (simp add: x86_meta_def paddr_from_config)
  show "pc_huge (to_config (x86_meta E) (from_config (x86_meta E) c) True) \<longleftrightarrow> pc_huge c \<and> pc_is_dir c"
    by (auto simp: x86_meta_def to_config_bits bit_from_config)
  show "\<not> pc_huge (to_config (x86_meta E) p False)"
    by (simp add: x86_meta_def to_config_bits)
  show "\<not> pc_valid (to_config (x86_meta E) (pte_zero (x86_meta E)) d)"
    by (simp add: x86_meta_def to_config_bits)
next
  fix a a' f
  show "ram_alloc_inv E a \<Longrightarrow> alloc_frame (x86_meta E) a = (a', Ok (Some f)) \<Longrightarrow>
      ram_alloc_inv E a' \<and> x86_addr_ok f \<and> f \<notin> ram_owned a \<and> insert f (ram_owned a) \<subseteq> ram_owned a'"
    using ram_frame_fresh [of E a a' f] by (simp add: x86_meta_def)
  show "ram_alloc_inv E a \<Longrightarrow> alloc_frame (x86_meta E) a = (a', Ok None) \<Longrightarrow>
      ram_alloc_inv E a' \<and> ram_owned a \<subseteq> ram_owned a'"
    using ram_alloc_None [of E "page_size E" "page_size E" a a'] by (simp add: x86_meta_def ram_alloc_frame_def)
  show "ram_alloc_inv E a \<Longrightarrow> \<exists>a' r. alloc_frame (x86_meta E) a = (a', Ok r)"
    by (simp add: x86_meta_def ram_frame_returns)
  show "ram_alloc_inv E a \<Longrightarrow> ram_alloc_inv E (dealloc_frame (x86_meta E) f a) \<and>
      ram_owned a - {f} \<subseteq> ram_owned (dealloc_frame (x86_meta E) f a) \<and>
      ram_owned (dealloc_frame (x86_meta E) f a) \<subseteq> ram_owned a"
    by (auto simp: x86_meta_def ram_dealloc_frame_def)
qed

end
