(* ===== verification/Paging_Properties.thy ===== *)
theory Paging_Properties
  imports X86_Paging
begin

text \<open>
  The properties of the page table, for the x86-64 entries and the boot frame allocator, each with a
  concrete run in which its hypotheses hold.
\<close>

section \<open>Concrete inputs\<close>

text \<open>An instance of the parameters, and a boot state with one mebibyte left for tables.\<close>

definition sample_env :: boot_env where
  "sample_env =
     \<lparr>na_align_up = (\<lambda>x a. ((x + a - 1) div a) * a), na_align_down = (\<lambda>x a. (x div a) * a),
      heapless_full = (\<lambda>xs. 128 \<le> length xs), page_size = 4096, fdt_from_ptr = (\<lambda>p. None)\<rparr>"

definition sample_boot :: boot_mem where
  "sample_boot = boot_mem_init\<lparr>RAM_START := 1048576, RAM_END := 2097152, RAM_CURRENT := 1048576\<rparr>"

definition sample_memory :: "(64 word, boot_mem) pt_state" where
  "sample_memory = \<lparr>pt_frames = (\<lambda>_. None), pt_alloc = sample_boot, pt_flushed = []\<rparr>"

definition sample_map :: map_config where
  "sample_map =
     \<lparr>mc_vaddr = 8192, mc_paddr = 4194304, mc_size = 4096, mc_pte = pte_config_default\<lparr>pc_writable := True\<rparr>,
      mc_allow_huge = False, mc_flush = True\<rparr>"

lemma sample_env_ok: "aligns_up sample_env" "heapless_128 sample_env"
  by (simp_all add: sample_env_def aligns_up_def heapless_128_def)

lemma sample_alloc_inv: "ram_alloc_inv sample_env sample_boot"
  using sample_env_ok by (simp add: ram_alloc_inv_def sample_boot_def) (simp add: sample_env_def)

lemma sample_root:
  "pt_new (x86_meta sample_env) sample_memory =
     (\<lparr>pt_frames = [1048576 \<mapsto> replicate 512 0], pt_alloc = sample_boot\<lparr>RAM_CURRENT := 1052672\<rparr>, pt_flushed = []\<rparr>,
      Ok 1048576)"
  by (simp add: pt_new_def frame_new_def x86_meta_def ram_alloc_frame_def ram_alloc_def sample_env_def
      sample_boot_def sample_memory_def U64_MAX_def LEN_def Let_def)

definition sample_table :: "(64 word, boot_mem) pt_state" where
  "sample_table = fst (pt_new (x86_meta sample_env) sample_memory)"

lemma page_shift_4096: "trailing_zeros 4096 = 12"
  by (simp add: trailing_zeros.simps)

lemmas table_eval = map_range_recursive.simps virt_to_index_def PT_LEVEL_def page_shift_4096 level_shift_def
  level_size_def Let_def use_huge_def child_frame_def frame_read_def frame_new_def frame_write_def write_leaf_def
  leaf_pte_def table_pte_def current_entry_end_def saturating_add_def saturating_mul_def U64_MAX_def LEN_def
  ram_alloc_frame_def ram_alloc_def tlb_flush_def to_config_bits bit_from_config paddr_from_config x86_addr_ok_def

lemma sample_mapped:
  "pt_map (x86_meta sample_env) 1048576 sample_map sample_table =
     (fst (pt_map (x86_meta sample_env) 1048576 sample_map sample_table), Ok ())"
proof -
  have "snd (pt_map (x86_meta sample_env) 1048576 sample_map sample_table) = Ok ()"
    by (simp add: sample_table_def sample_root sample_map_def pt_map_def validate_map_config_def
        checked_add_def U64_MAX_def PT_LEVEL_def)
       (simp add: x86_meta_def sample_env_def table_eval sample_boot_def)
  then show ?thesis by (metis prod.collapse)
qed

lemma x86_levels: "PT_LEVEL (x86_meta E) = 4" "span (x86_meta E) 4 = 2 ^ 48" "PAGE_SIZE (x86_meta E) = 4096"
  by (simp_all add: x86_meta_def PT_LEVEL_def span_def)

lemma sample_new:
  "pt_new (x86_meta sample_env) sample_memory = (sample_table, Ok 1048576)"
  "ram_alloc_inv sample_env (pt_alloc sample_memory)"
  using sample_alloc_inv by (simp_all add: sample_table_def sample_root) (simp add: sample_memory_def)

lemma sample_table_ready: "table_ready (x86_meta sample_env) ram_owned (ram_alloc_inv sample_env) 4 1048576 sample_table"
  using x86.pt_new_spec(1) [OF sample_new(2,1)] unfolding x86_levels .

lemma x86_map_request:
  assumes "table_ready (x86_meta E) ram_owned (ram_alloc_inv E) 4 root s" "4096 dvd mc_size c"
    and "(mc_vaddr c + mc_size c - 1) div 2 ^ 48 = mc_vaddr c div 2 ^ 48" "mc_paddr c + mc_size c \<le> 2 ^ 52"
  shows "x86.map_request E root c s"
  using assms by (auto simp: x86.map_request_def x86_levels x86_addr_ok_def dvd_eq_mod_eq_0)

section \<open>Mapping\<close>

text \<open>C9. After a successful \<open>map\<close>, with huge pages or without, every address of the range translates to
  the physical address at the same offset, through an entry with the requested attributes, and every
  other address of the same 256 TiB half translates as before.\<close>

theorem map_translates:
  assumes "table_ready (x86_meta E) ram_owned (ram_alloc_inv E) 4 root s" "4096 dvd mc_size c"
    and "(mc_vaddr c + mc_size c - 1) div 2 ^ 48 = mc_vaddr c div 2 ^ 48" "mc_paddr c + mc_size c \<le> 2 ^ 52"
    and "pt_map (x86_meta E) root c s = (s', Ok ())"
  shows "(\<forall>x. mc_vaddr c \<le> x \<longrightarrow> x < mc_vaddr c + mc_size c \<longrightarrow>
            (\<exists>q h. translate (x86_meta E) s' root x = Ok (mc_paddr c + (x - mc_vaddr c),
               entry_from_config ((mc_pte c)\<lparr>pc_paddr := q, pc_valid := True, pc_huge := h, pc_is_dir := h\<rparr>)))) \<and>
         (\<forall>x. x div 2 ^ 48 = mc_vaddr c div 2 ^ 48 \<longrightarrow> \<not> (mc_vaddr c \<le> x \<and> x < mc_vaddr c + mc_size c) \<longrightarrow>
            translate (x86_meta E) s' root x = translate (x86_meta E) s root x)"
proof -
  note S = x86.pt_map_spec [OF x86_map_request [OF assms(1-4)] assms(5), unfolded x86_levels]
  have f: "from_config (x86_meta E) = entry_from_config" by (simp add: x86_meta_def)
  show ?thesis using S(3) S(4) [OF refl] unfolding f by blast
qed

theorem map_translates_witness:
  "\<exists>s'. pt_map (x86_meta sample_env) 1048576 sample_map sample_table = (s', Ok ()) \<and>
        translate_phys (x86_meta sample_env) s' 1048576 8200 = Ok 4194312 \<and>
        translate (x86_meta sample_env) s' 1048576 12288 = translate (x86_meta sample_env) sample_table 1048576 12288"
proof -
  let ?s = "fst (pt_map (x86_meta sample_env) 1048576 sample_map sample_table)"
  from map_translates [OF sample_table_ready _ _ _ sample_mapped]
  have T: "\<forall>x. 8192 \<le> x \<longrightarrow> x < 12288 \<longrightarrow>
        (\<exists>q h. translate (x86_meta sample_env) ?s 1048576 x = Ok (4194304 + (x - 8192),
           entry_from_config ((mc_pte sample_map)\<lparr>pc_paddr := q, pc_valid := True, pc_huge := h, pc_is_dir := h\<rparr>)))"
    and O: "\<forall>x. x div 2 ^ 48 = 0 \<longrightarrow> \<not> (8192 \<le> x \<and> x < 12288) \<longrightarrow>
        translate (x86_meta sample_env) ?s 1048576 x = translate (x86_meta sample_env) sample_table 1048576 x"
    by (simp_all add: sample_map_def)
  have "translate_phys (x86_meta sample_env) ?s 1048576 8200 = Ok 4194312"
    using T [rule_format, of 8200] by (auto simp: translate_phys_def)
  moreover have "translate (x86_meta sample_env) ?s 1048576 12288 = translate (x86_meta sample_env) sample_table 1048576 12288"
    by (rule O [rule_format]) simp_all
  ultimately show ?thesis using sample_mapped by blast
qed

text \<open>C10. \<open>map\<close> never panics, and whatever it returns it leaves a well-formed table: the frames still form
  a tree that the allocator owns, so further operations are safe after an error as well, and every address of
  the same 256 TiB half outside the requested range translates as before.\<close>

theorem map_keeps_table:
  assumes "table_ready (x86_meta E) ram_owned (ram_alloc_inv E) 4 root s" "4096 dvd mc_size c"
    and "(mc_vaddr c + mc_size c - 1) div 2 ^ 48 = mc_vaddr c div 2 ^ 48" "mc_paddr c + mc_size c \<le> 2 ^ 52"
    and "pt_map (x86_meta E) root c s = (s', r)"
  shows "r \<noteq> Panic \<and> table_ready (x86_meta E) ram_owned (ram_alloc_inv E) 4 root s' \<and>
     (\<forall>x. x div 2 ^ 48 = mc_vaddr c div 2 ^ 48 \<longrightarrow> \<not> (mc_vaddr c \<le> x \<and> x < mc_vaddr c + mc_size c) \<longrightarrow>
        translate (x86_meta E) s' root x = translate (x86_meta E) s root x)"
  using x86.pt_map_spec(1,2,3) [OF x86_map_request [OF assms(1-4)] assms(5)] unfolding x86_levels by blast

theorem map_keeps_table_witness:
  "table_ready (x86_meta sample_env) ram_owned (ram_alloc_inv sample_env) 4 1048576
     (fst (pt_map (x86_meta sample_env) 1048576 sample_map sample_table))"
  using map_keeps_table [OF sample_table_ready _ _ _ sample_mapped] by (simp add: sample_map_def)

text \<open>C11. The reason behind each error of a \<open>map\<close> request without huge pages.  The argument errors mean what they say
  and change nothing; \<open>NoMemory\<close> means that the allocator has no frame left; a conflict names an address of the range
  that was mapped before, and the physical address it should have got; a hierarchy error means that some address of the range was mapped
  before.  There is no other error.\<close>

theorem map_fails_only_if:
  assumes "table_ready (x86_meta E) ram_owned (ram_alloc_inv E) 4 root s" "4096 dvd mc_size c"
    and "(mc_vaddr c + mc_size c - 1) div 2 ^ 48 = mc_vaddr c div 2 ^ 48" "mc_paddr c + mc_size c \<le> 2 ^ 52"
    and "pt_map (x86_meta E) root c s = (s', Err err)" "\<not> mc_allow_huge c"
  shows "case err of
       InvalidSize _ \<Rightarrow> s' = s \<and> mc_size c = 0
     | AlignmentError _ \<Rightarrow> s' = s \<and> \<not> (4096 dvd mc_vaddr c \<and> 4096 dvd mc_paddr c)
     | AddressOverflow _ \<Rightarrow> s' = s \<and> \<not> (mc_vaddr c + mc_size c \<le> U64_MAX \<and> mc_paddr c + mc_size c \<le> U64_MAX)
     | NoMemory \<Rightarrow> ram_alloc_frame E (pt_alloc s') = (pt_alloc s', Ok None)
     | MappingConflict x q \<Rightarrow>
         mc_vaddr c \<le> x \<and> x < mc_vaddr c + mc_size c \<and> q = mc_paddr c + (x - mc_vaddr c) \<and>
         translate (x86_meta E) s root x \<noteq> Err NotMapped
     | HierarchyError _ \<Rightarrow>
         \<exists>x. mc_vaddr c \<le> x \<and> x < mc_vaddr c + mc_size c \<and> translate (x86_meta E) s root x \<noteq> Err NotMapped
     | _ \<Rightarrow> False"
proof -
  have "map_error (x86_meta E) root c s s' err"
    by (rule x86.pt_map_spec(5) [OF x86_map_request [OF assms(1-4)] assms(5) refl assms(6)])
  moreover have "ram_alloc_frame E a' = (a', Ok None)" if "alloc_frame (x86_meta E) a = (a', Ok None)" for a a'
    using that by (auto simp: x86_meta_def ram_alloc_frame_def ram_alloc_def Let_def split: if_splits)
  ultimately show ?thesis by (cases err) (auto simp: map_error_def x86_levels)
qed

theorem map_fails_only_if_witness:
  "\<exists>m. pt_map (x86_meta sample_env) 1048576 (sample_map\<lparr>mc_vaddr := 8193\<rparr>) sample_table = (sample_table, Err (AlignmentError m)) \<and>
       \<not> (4096 dvd (8193 :: nat) \<and> 4096 dvd mc_paddr sample_map)"
proof -
  let ?c = "sample_map\<lparr>mc_vaddr := 8193\<rparr>" and ?m = "''Virtual address not page aligned''"
  have p: "pt_map (x86_meta sample_env) 1048576 ?c sample_table = (sample_table, Err (AlignmentError ?m))"
    by (simp add: pt_map_def validate_map_config_def sample_map_def x86_meta_def)
  from map_fails_only_if [OF sample_table_ready _ _ _ p] show ?thesis
    using p by (auto simp: sample_map_def)
qed

text \<open>A new table is well formed and maps nothing.\<close>

theorem new_table_empty:
  assumes "ram_alloc_inv E (pt_alloc s)" "pt_new (x86_meta E) s = (s', Ok root)"
  shows "table_ready (x86_meta E) ram_owned (ram_alloc_inv E) 4 root s' \<and>
         translate (x86_meta E) s' root x = Err NotMapped"
  using x86.pt_new_spec [OF assms] unfolding x86_levels by blast

theorem new_table_empty_witness: "translate (x86_meta sample_env) sample_table 1048576 4660 = Err NotMapped"
  using new_table_empty [OF sample_new(2,1)] by blast

section \<open>Entries\<close>

text \<open>Decoding an encoded leaf entry gives back every attribute that the format stores: address,
  validity, permissions, dirty and global bits, the huge flag, and the memory type up to the merging
  of uncached into device memory.\<close>

theorem entry_roundtrip:
  assumes "x86_addr_ok (pc_paddr c)" "pc_is_dir c = pc_huge c" "d = pc_is_dir c"
  shows "entry_to_config (entry_from_config c) d =
         c\<lparr>pc_read := pc_valid c,
           pc_mem_attr := (if pc_mem_attr c \<in> {Device, Uncached} then Device else Normal)\<rparr>"
  by (rule pte_config.equality)
     (use assms in \<open>simp_all add: to_config_bits to_config_executable to_config_attr bit_from_config paddr_from_config\<close>,
      auto simp: entry_to_config_def)

theorem entry_roundtrip_witness:
  "pc_paddr (entry_to_config (entry_from_config (pte_config_default\<lparr>pc_paddr := 8192, pc_valid := True\<rparr>)) False) = 8192"
  by (subst entry_roundtrip) (simp_all add: pte_config_default_def x86_addr_ok_def)

end
