(* ===== verification/Btree_Map.thy ===== *)
theory Btree_Map
  imports Prelude
begin

text \<open>
  The \<open>BTreeMap\<close> of the standard library, as far as the kernel uses it: the association list of its
  entries in the order of the keys.  \<open>keys().next()\<close> is the key of the first entry.
\<close>

type_synonym ('k, 'v) btree_map = "('k \<times> 'v) list"

definition bt_insert :: "'k::linorder \<Rightarrow> 'v \<Rightarrow> ('k, 'v) btree_map \<Rightarrow> ('k, 'v) btree_map" where
  "bt_insert k v m = takeWhile (\<lambda>e. fst e < k) m @ (k, v) # dropWhile (\<lambda>e. fst e \<le> k) m"

definition bt_remove :: "'k \<Rightarrow> ('k, 'v) btree_map \<Rightarrow> ('k, 'v) btree_map" where
  "bt_remove k m = filter (\<lambda>e. fst e \<noteq> k) m"

definition bt_get :: "('k, 'v) btree_map \<Rightarrow> 'k \<Rightarrow> 'v option" where
  "bt_get m k = map_of m k"

definition bt_contains_key :: "('k, 'v) btree_map \<Rightarrow> 'k \<Rightarrow> bool" where
  "bt_contains_key m k \<longleftrightarrow> k \<in> fst ` set m"

definition bt_first :: "('k, 'v) btree_map \<Rightarrow> 'k option" where
  "bt_first m = (case m of [] \<Rightarrow> None | (k, _) # _ \<Rightarrow> Some k)"

definition bt_inv :: "('k::linorder, 'v) btree_map \<Rightarrow> bool" where
  "bt_inv m \<longleftrightarrow> sorted_wrt (<) (map fst m)"

lemma bt_inv_Nil [simp]: "bt_inv []"
  by (simp add: bt_inv_def)

lemma bt_inv_Cons [simp]:
  "bt_inv ((k, v) # m) \<longleftrightarrow> (\<forall>e \<in> set m. k < fst e) \<and> bt_inv m"
  by (auto simp: bt_inv_def)

lemma bt_inv_append:
  "bt_inv (m @ n) \<longleftrightarrow> bt_inv m \<and> bt_inv n \<and> (\<forall>d \<in> set m. \<forall>e \<in> set n. fst d < fst e)"
  by (auto simp: bt_inv_def sorted_wrt_append)

lemma bt_inv_distinct: "bt_inv m \<Longrightarrow> distinct (map fst m)"
  by (simp add: bt_inv_def strict_sorted_iff)

lemma bt_insert_Nil [simp]: "bt_insert k v [] = [(k, v)]"
  by (simp add: bt_insert_def)

lemma bt_insert_Cons:
  "bt_inv ((k', v') # m) \<Longrightarrow>
   bt_insert k v ((k', v') # m) =
     (if k < k' then (k, v) # (k', v') # m
      else if k = k' then (k, v) # m
      else (k', v') # bt_insert k v m)"
  by (cases m) (auto simp: bt_insert_def)

lemma bt_get_insert:
  "bt_inv m \<Longrightarrow> bt_get (bt_insert k v m) k' = (if k' = k then Some v else bt_get m k')"
proof (induction m)
  case (Cons e m)
  then show ?case by (cases e) (auto simp: bt_insert_Cons bt_get_def)
qed (simp add: bt_get_def)

lemma set_bt_insert_new:
  "bt_inv m \<Longrightarrow> k \<notin> fst ` set m \<Longrightarrow> set (bt_insert k v m) = insert (k, v) (set m)"
proof (induction m)
  case (Cons e m)
  then show ?case by (cases e) (auto simp: bt_insert_Cons)
qed simp

lemma bt_insert_keys: "bt_inv m \<Longrightarrow> fst ` set (bt_insert k v m) = insert k (fst ` set m)"
proof (induction m)
  case (Cons e m)
  then show ?case by (cases e) (auto simp: bt_insert_Cons)
qed simp

lemma bt_inv_insert [intro]: "bt_inv m \<Longrightarrow> bt_inv (bt_insert k v m)"
proof (induction m)
  case (Cons e m)
  moreover obtain k' v' where "e = (k', v')" by (cases e)
  moreover have "\<And>e. e \<in> set (bt_insert k v m) \<Longrightarrow> fst e = k \<or> fst e \<in> fst ` set m"
    using Cons.prems calculation bt_insert_keys [of m k v] by auto
  ultimately show ?case by (fastforce simp: bt_insert_Cons)
qed simp

lemma bt_inv_remove [intro]: "bt_inv m \<Longrightarrow> bt_inv (bt_remove k m)"
  by (induction m) (auto simp: bt_remove_def)

lemma bt_get_remove [simp]: "bt_get (bt_remove k m) k' = (if k' = k then None else bt_get m k')"
  by (induction m) (auto simp: bt_get_def bt_remove_def)

lemma set_bt_remove [simp]: "set (bt_remove k m) = {e \<in> set m. fst e \<noteq> k}"
  by (auto simp: bt_remove_def)

lemma bt_get_iff: "bt_inv m \<Longrightarrow> bt_get m k = Some v \<longleftrightarrow> (k, v) \<in> set m"
  by (simp add: bt_get_def bt_inv_distinct)

lemma bt_contains_iff: "bt_contains_key m k \<longleftrightarrow> bt_get m k \<noteq> None"
  by (simp add: bt_contains_key_def bt_get_def map_of_eq_None_iff)

lemma bt_first_min:
  "bt_inv m \<Longrightarrow> bt_first m = Some k \<Longrightarrow> k \<in> fst ` set m \<and> (\<forall>e \<in> set m. k \<le> fst e)"
  by (cases m) (fastforce simp: bt_first_def intro: order.strict_implies_order)+

lemma bt_first_None [simp]: "bt_first m = None \<longleftrightarrow> m = []"
  by (cases m) (auto simp: bt_first_def)

lemma bt_first_Nil [simp]: "bt_first [] = None"
  by (simp add: bt_first_def)

lemma bt_first_insert:
  "bt_inv m \<Longrightarrow>
   bt_first (bt_insert k v m) = Some (case bt_first m of None \<Rightarrow> k | Some k' \<Rightarrow> min k k')"
  by (cases m) (auto simp: bt_insert_Cons bt_first_def min_def not_less le_less)

lemma bt_first_remove_other:
  "bt_first m = Some k' \<Longrightarrow> k' \<noteq> k \<Longrightarrow> bt_first (bt_remove k m) = Some k'"
  by (cases m) (auto simp: bt_first_def bt_remove_def)

lemmas btree_map_eval [eval_simps] =
  bt_insert_def bt_remove_def bt_get_def bt_contains_key_def bt_first_def

end
