(* ===== verification/Spinlock.thy ===== *)
theory Spinlock
  imports Prelude
begin

text \<open>
  The interrupt-safe spinlock of \<open>crates/sparreal-kernel/src/os/sync/spinlock.rs\<close> and the guard of
  \<open>os/irq/guard.rs\<close>.

  The first part models the methods as they run on one CPU: a lock is a record, and the interrupt flag
  of the CPU is passed along.  The second part is a step relation in which any number of CPUs run
  \<open>IrqSpinlock::lock\<close>, use the data and drop the guard, one atomic access at a time.
\<close>

unbundle bit_operations_syntax

section \<open>NoIrqGuard\<close>

record no_irq_guard =
  ng_is_enabled :: bool

definition no_irq_guard_new :: "bool \<Rightarrow> bool \<times> no_irq_guard" where
  "no_irq_guard_new irq = (False, \<lparr>ng_is_enabled = irq\<rparr>)"

definition no_irq_guard_drop :: "no_irq_guard \<Rightarrow> bool \<Rightarrow> bool" where
  "no_irq_guard_drop g irq = (if ng_is_enabled g then True else irq)"

section \<open>IrqRawSpinlock\<close>

definition raw_new :: bool where
  "raw_new = False"

text \<open>\<open>compare_exchange(false, true)\<close>: the new value and whether the exchange took place.\<close>

definition raw_try_lock :: "bool \<Rightarrow> bool \<times> bool" where
  "raw_try_lock locked = (if locked then (locked, False) else (True, True))"

definition raw_unlock :: "bool \<Rightarrow> bool" where
  "raw_unlock locked = False"

definition next_spin_count :: "nat \<Rightarrow> nat" where
  "next_spin_count c = (c + 1) AND 4095"

section \<open>IrqSpinlock on one CPU\<close>

record 'a irq_spinlock =
  raw_locked :: bool
  lock_data :: 'a

definition spinlock_new :: "'a \<Rightarrow> 'a irq_spinlock" where
  "spinlock_new d = \<lparr>raw_locked = raw_new, lock_data = d\<rparr>"

definition try_lock ::
  "'a irq_spinlock \<times> bool \<Rightarrow> ('a irq_spinlock \<times> bool) \<times> no_irq_guard option"
where
  "try_lock s =
     (case s of (l, irq) \<Rightarrow>
      case no_irq_guard_new irq of (irq1, irq_guard) \<Rightarrow>
      case raw_try_lock (raw_locked l) of (b, ok) \<Rightarrow>
        if ok then ((l\<lparr>raw_locked := b\<rparr>, irq1), Some irq_guard)
        else ((l\<lparr>raw_locked := b\<rparr>, no_irq_guard_drop irq_guard irq1), None))"

text \<open>The loop of \<open>lock\<close>, with the number of rounds that are left; when they run out it panics.\<close>

fun lock_attempts ::
  "nat \<Rightarrow> 'a irq_spinlock \<times> bool \<Rightarrow> ('a irq_spinlock \<times> bool) \<times> (unit, no_irq_guard) result"
where
  "lock_attempts 0 s = (s, Panic)"
| "lock_attempts (Suc n) s =
     (case try_lock s of (s', Some guard) \<Rightarrow> (s', Ok guard) | (s', None) \<Rightarrow> lock_attempts n s')"

definition LOCK_ATTEMPTS :: nat where
  "LOCK_ATTEMPTS = 100"

definition spin_lock ::
  "'a irq_spinlock \<times> bool \<Rightarrow> ('a irq_spinlock \<times> bool) \<times> (unit, no_irq_guard) result"
where
  "spin_lock s = lock_attempts LOCK_ATTEMPTS s"

text \<open>Dropping \<open>IrqMutexGuard\<close> unlocks and then drops its field \<open>_irq_guard\<close>.\<close>

definition guard_drop :: "no_irq_guard \<Rightarrow> 'a irq_spinlock \<times> bool \<Rightarrow> 'a irq_spinlock \<times> bool" where
  "guard_drop g s =
     (case s of (l, irq) \<Rightarrow> (l\<lparr>raw_locked := raw_unlock (raw_locked l)\<rparr>, no_irq_guard_drop g irq))"

text \<open>The pattern \<open>let guard = l.lock(); f(&mut *guard)\<close> with the guard dropped at the end of the block.\<close>

definition with_lock ::
  "('a \<Rightarrow> 'a \<times> 'r) \<Rightarrow> 'a irq_spinlock \<times> bool \<Rightarrow> ('a irq_spinlock \<times> bool) \<times> (unit, 'r) result"
where
  "with_lock f s =
     (case spin_lock s of
        ((l, irq), Ok g) \<Rightarrow>
          (case f (lock_data l) of (d, r) \<Rightarrow> (guard_drop g (l\<lparr>lock_data := d\<rparr>, irq), Ok r))
      | (s', Err e) \<Rightarrow> (s', Err e)
      | (s', Panic) \<Rightarrow> (s', Panic))"

lemmas guard_defs = no_irq_guard_new_def no_irq_guard_drop_def raw_try_lock_def raw_unlock_def

lemma try_lock_free:
  "\<not> raw_locked l \<Longrightarrow> try_lock (l, irq) = ((l\<lparr>raw_locked := True\<rparr>, False), Some \<lparr>ng_is_enabled = irq\<rparr>)"
  by (simp add: try_lock_def guard_defs)

lemma try_lock_held: "raw_locked l \<Longrightarrow> try_lock (l, irq) = ((l, irq), None)"
  by (cases l) (auto simp: try_lock_def guard_defs)

lemma lock_attempts_held: "raw_locked l \<Longrightarrow> lock_attempts n (l, irq) = ((l, irq), Panic)"
  by (induction n) (simp_all add: try_lock_held)

lemma spin_lock_free:
  "\<not> raw_locked l \<Longrightarrow> spin_lock (l, irq) = ((l\<lparr>raw_locked := True\<rparr>, False), Ok \<lparr>ng_is_enabled = irq\<rparr>)"
  by (simp add: spin_lock_def LOCK_ATTEMPTS_def try_lock_free numeral_eq_Suc)

lemma spin_lock_held: "raw_locked l \<Longrightarrow> spin_lock (l, irq) = ((l, irq), Panic)"
  by (simp add: spin_lock_def lock_attempts_held)

text \<open>A free lock: the block runs with interrupts off, and lock and interrupt flag are as before.\<close>

lemma with_lock_free:
  assumes "\<not> raw_locked l" "f (lock_data l) = (d, r)"
  shows "with_lock f (l, irq) = ((l\<lparr>lock_data := d\<rparr>, irq), Ok r)"
  using assms by (cases l) (auto simp: with_lock_def spin_lock_free guard_drop_def guard_defs)

lemma with_lock_held: "raw_locked l \<Longrightarrow> with_lock f (l, irq) = ((l, irq), Panic)"
  by (simp add: with_lock_def spin_lock_held)

text \<open>
  A block that holds a lock of a larger state while it works on the rest of that state.  \<open>get\<close> and \<open>upd\<close>
  are selector and update of the lock; on one CPU nobody releases a held lock, so \<open>lock\<close> panics then, and
  a panic inside the block stops the kernel with the lock held.
\<close>

definition in_lock ::
  "('s \<Rightarrow> 'a irq_spinlock) \<Rightarrow> (('a irq_spinlock \<Rightarrow> 'a irq_spinlock) \<Rightarrow> 's \<Rightarrow> 's) \<Rightarrow>
   ('s \<Rightarrow> 's \<times> (unit, 'r) result) \<Rightarrow> 's \<Rightarrow> 's \<times> (unit, 'r) result"
where
  "in_lock get upd body s =
     (if raw_locked (get s) then (s, Panic)
      else and_then (body (upd (\<lambda>l. l\<lparr>raw_locked := True\<rparr>) s))
             (\<lambda>r s. (upd (\<lambda>l. l\<lparr>raw_locked := False\<rparr>) s, Ok r)))"

lemma in_lock_free [simp]:
  "\<not> raw_locked (get s) \<Longrightarrow>
   in_lock get upd body s = and_then (body (upd (\<lambda>l. l\<lparr>raw_locked := True\<rparr>) s))
     (\<lambda>r s. (upd (\<lambda>l. l\<lparr>raw_locked := False\<rparr>) s, Ok r))"
  by (simp add: in_lock_def)

lemma in_lock_held [simp]: "raw_locked (get s) \<Longrightarrow> in_lock get upd body s = (s, Panic)"
  by (simp add: in_lock_def)

section \<open>Several CPUs\<close>

text \<open>
  Where a CPU stands in \<open>lock\<close>, in the critical section and in dropping the guard.  The number is the
  count of rounds left in the loop of \<open>lock\<close>; \<open>RawSpin\<close> is the spinning of \<open>IrqRawSpinlock::lock\<close>.
  A critical section reads the data (\<open>Loaded\<close>) and stores a function of what it read.
\<close>

datatype 'a cpu_pc =
    Idle
  | Attempt nat
  | Guarded nat no_irq_guard
  | Failed nat no_irq_guard
  | Critical no_irq_guard
  | Loaded no_irq_guard 'a
  | Leaving no_irq_guard
  | RawSpin nat
  | RawCritical
  | RawLoaded 'a
  | LockPanic

record 'a spin_state =
  sp_lock :: "'a irq_spinlock"
  sp_pc :: "nat \<Rightarrow> 'a cpu_pc"
  sp_irq :: "nat \<Rightarrow> bool"

definition goto :: "nat \<Rightarrow> 'a cpu_pc \<Rightarrow> 'a spin_state \<Rightarrow> 'a spin_state" where
  "goto i pc s = s\<lparr>sp_pc := (sp_pc s)(i := pc)\<rparr>"

definition set_irq :: "nat \<Rightarrow> bool \<Rightarrow> 'a spin_state \<Rightarrow> 'a spin_state" where
  "set_irq i b s = s\<lparr>sp_irq := (sp_irq s)(i := b)\<rparr>"

definition set_locked :: "bool \<Rightarrow> 'a spin_state \<Rightarrow> 'a spin_state" where
  "set_locked b s = s\<lparr>sp_lock := (sp_lock s)\<lparr>raw_locked := b\<rparr>\<rparr>"

definition set_data :: "'a \<Rightarrow> 'a spin_state \<Rightarrow> 'a spin_state" where
  "set_data d s = s\<lparr>sp_lock := (sp_lock s)\<lparr>lock_data := d\<rparr>\<rparr>"

inductive spin_step :: "'a spin_state \<Rightarrow> 'a spin_state \<Rightarrow> bool" where
  irq_flag: "sp_pc s i = Idle \<Longrightarrow> spin_step s (set_irq i b s)"
| lock_call: "sp_pc s i = Idle \<Longrightarrow> spin_step s (goto i (Attempt LOCK_ATTEMPTS) s)"
| lock_timeout: "sp_pc s i = Attempt 0 \<Longrightarrow> spin_step s (goto i LockPanic s)"
| attempt: "sp_pc s i = Attempt (Suc n) \<Longrightarrow> no_irq_guard_new (sp_irq s i) = (irq, g) \<Longrightarrow>
    spin_step s (goto i (Guarded n g) (set_irq i irq s))"
| acquire: "sp_pc s i = Guarded n g \<Longrightarrow> raw_try_lock (raw_locked (sp_lock s)) = (b, True) \<Longrightarrow>
    spin_step s (goto i (Critical g) (set_locked b s))"
| busy: "sp_pc s i = Guarded n g \<Longrightarrow> raw_try_lock (raw_locked (sp_lock s)) = (b, False) \<Longrightarrow>
    spin_step s (goto i (Failed n g) (set_locked b s))"
| retry: "sp_pc s i = Failed n g \<Longrightarrow>
    spin_step s (goto i (Attempt n) (set_irq i (no_irq_guard_drop g (sp_irq s i)) s))"
| load: "sp_pc s i = Critical g \<Longrightarrow> spin_step s (goto i (Loaded g (lock_data (sp_lock s))) s)"
| store: "sp_pc s i = Loaded g v \<Longrightarrow> spin_step s (goto i (Critical g) (set_data (f v) s))"
| unlock: "sp_pc s i = Critical g \<Longrightarrow>
    spin_step s (goto i (Leaving g) (set_locked (raw_unlock (raw_locked (sp_lock s))) s))"
| leave: "sp_pc s i = Leaving g \<Longrightarrow>
    spin_step s (goto i Idle (set_irq i (no_irq_guard_drop g (sp_irq s i)) s))"
| raw_lock_call: "sp_pc s i = Idle \<Longrightarrow> spin_step s (goto i (RawSpin 0) s)"
| raw_acquire: "sp_pc s i = RawSpin c \<Longrightarrow> raw_try_lock (raw_locked (sp_lock s)) = (b, True) \<Longrightarrow>
    spin_step s (goto i RawCritical (set_locked b s))"
| raw_spin: "sp_pc s i = RawSpin c \<Longrightarrow> spin_step s (goto i (RawSpin (next_spin_count c)) s)"
| raw_load: "sp_pc s i = RawCritical \<Longrightarrow> spin_step s (goto i (RawLoaded (lock_data (sp_lock s))) s)"
| raw_store: "sp_pc s i = RawLoaded v \<Longrightarrow> spin_step s (goto i RawCritical (set_data (f v) s))"
| raw_release: "sp_pc s i = RawCritical \<Longrightarrow>
    spin_step s (goto i Idle (set_locked (raw_unlock (raw_locked (sp_lock s))) s))"

text \<open>All CPUs start outside, with the lock of \<open>IrqSpinlock::new\<close>.\<close>

inductive spin_reachable :: "'a spin_state \<Rightarrow> bool" where
  spin_init: "spin_reachable \<lparr>sp_lock = spinlock_new d, sp_pc = (\<lambda>_. Idle), sp_irq = irqs\<rparr>"
| spin_next: "spin_reachable s \<Longrightarrow> spin_step s s' \<Longrightarrow> spin_reachable s'"

section \<open>The lock invariant\<close>

fun holds :: "'a cpu_pc \<Rightarrow> bool" where
  "holds (Critical g) = True"
| "holds (Loaded g v) = True"
| "holds RawCritical = True"
| "holds (RawLoaded v) = True"
| "holds _ = False"

text \<open>Between creating a \<open>NoIrqGuard\<close> and dropping it.\<close>

fun guarded :: "'a cpu_pc \<Rightarrow> bool" where
  "guarded (Guarded n g) = True"
| "guarded (Failed n g) = True"
| "guarded (Critical g) = True"
| "guarded (Loaded g v) = True"
| "guarded (Leaving g) = True"
| "guarded _ = False"

fun loaded :: "'a cpu_pc \<Rightarrow> 'a option" where
  "loaded (Loaded g v) = Some v"
| "loaded (RawLoaded v) = Some v"
| "loaded _ = None"

fun spin_count_ok :: "'a cpu_pc \<Rightarrow> bool" where
  "spin_count_ok (RawSpin c) = (c < 4096)"
| "spin_count_ok _ = True"

definition spin_inv :: "'a spin_state \<Rightarrow> bool" where
  "spin_inv s \<longleftrightarrow>
     (raw_locked (sp_lock s) \<longleftrightarrow> (\<exists>i. holds (sp_pc s i))) \<and>
     (\<forall>i j. holds (sp_pc s i) \<and> holds (sp_pc s j) \<longrightarrow> i = j) \<and>
     (\<forall>i. guarded (sp_pc s i) \<longrightarrow> \<not> sp_irq s i) \<and>
     (\<forall>i v. loaded (sp_pc s i) = Some v \<longrightarrow> lock_data (sp_lock s) = v) \<and>
     (\<forall>i. spin_count_ok (sp_pc s i))"

lemma loaded_holds: "loaded pc = Some v \<Longrightarrow> holds pc"
  by (cases pc) auto

lemma next_spin_count_less: "next_spin_count c < 4096"
proof -
  have "next_spin_count c = take_bit 12 (c + 1)"
    by (simp add: next_spin_count_def take_bit_eq_mask mask_eq_exp_minus_1)
  then show ?thesis using take_bit_nat_less_exp [of 12 "c + 1"] by simp
qed

lemmas spin_updates = goto_def set_irq_def set_locked_def set_data_def

lemma spin_invI:
  assumes "raw_locked (sp_lock s) \<longleftrightarrow> (\<exists>i. holds (sp_pc s i))"
    and "\<And>i j. holds (sp_pc s i) \<Longrightarrow> holds (sp_pc s j) \<Longrightarrow> i = j"
    and "\<And>i. guarded (sp_pc s i) \<Longrightarrow> \<not> sp_irq s i"
    and "\<And>i v. loaded (sp_pc s i) = Some v \<Longrightarrow> lock_data (sp_lock s) = v"
    and "\<And>i. spin_count_ok (sp_pc s i)"
  shows "spin_inv s"
  using assms unfolding spin_inv_def by blast

text \<open>
  A step that leaves the lock alone and moves one CPU between places that agree on holding the lock.
\<close>

lemma spin_inv_local:
  assumes "spin_inv s" "holds pc = holds (sp_pc s i)" "guarded pc \<longrightarrow> \<not> b"
    "loaded pc = None \<or> loaded pc = Some (lock_data (sp_lock s))" "spin_count_ok pc"
  shows "spin_inv (goto i pc (set_irq i b s))"
proof (rule spin_invI)
  have holds: "\<And>j. holds (sp_pc (goto i pc (set_irq i b s)) j) = holds (sp_pc s j)"
    using assms(2) by (simp add: spin_updates)
  show "raw_locked (sp_lock (goto i pc (set_irq i b s))) \<longleftrightarrow>
      (\<exists>j. holds (sp_pc (goto i pc (set_irq i b s)) j))"
    unfolding holds using assms(1) by (simp add: spin_inv_def spin_updates)
  show "\<And>j k. holds (sp_pc (goto i pc (set_irq i b s)) j) \<Longrightarrow>
      holds (sp_pc (goto i pc (set_irq i b s)) k) \<Longrightarrow> j = k"
    unfolding holds using assms(1) by (simp add: spin_inv_def)
qed (use assms in \<open>auto simp: spin_updates spin_inv_def split: if_splits\<close>)

text \<open>The same for a step that does not touch the interrupt flag.\<close>

lemma spin_inv_goto:
  assumes "spin_inv s" "holds pc = holds (sp_pc s i)" "guarded pc \<longrightarrow> guarded (sp_pc s i)"
    "loaded pc = None \<or> loaded pc = Some (lock_data (sp_lock s))" "spin_count_ok pc"
  shows "spin_inv (goto i pc s)"
proof -
  have "spin_inv (goto i pc (set_irq i (sp_irq s i) s))"
    using assms by (intro spin_inv_local) (auto simp: spin_inv_def)
  then show ?thesis by (simp add: set_irq_def)
qed

text \<open>The CPU that finds the lock free becomes its only holder.\<close>

lemma spin_inv_acquire:
  assumes "spin_inv s" "\<not> raw_locked (sp_lock s)" "holds pc" "guarded pc \<longrightarrow> guarded (sp_pc s i)"
    "loaded pc = None" "spin_count_ok pc"
  shows "spin_inv (goto i pc (set_locked True s))"
proof -
  have none: "\<not> holds (sp_pc s j)" for j using assms(1,2) by (simp add: spin_inv_def)
  then have "loaded (sp_pc s j) = None" for j using loaded_holds [of "sp_pc s j"] by fastforce
  with none assms show ?thesis
    by (intro spin_invI) (auto simp: spin_updates spin_inv_def split: if_splits)
qed

text \<open>The holder gives the lock back.\<close>

lemma spin_inv_release:
  assumes "spin_inv s" "holds (sp_pc s i)" "\<not> holds pc" "guarded pc \<longrightarrow> guarded (sp_pc s i)"
    "loaded pc = None" "spin_count_ok pc"
  shows "spin_inv (goto i pc (set_locked False s))"
proof -
  have others: "\<not> holds (sp_pc s j)" if "j \<noteq> i" for j
    using assms(1,2) that unfolding spin_inv_def by blast
  then have "loaded (sp_pc s j) = None" if "j \<noteq> i" for j
    using loaded_holds [of "sp_pc s j"] that by fastforce
  with others assms show ?thesis
    by (intro spin_invI) (auto simp: spin_updates spin_inv_def split: if_splits)
qed

text \<open>The holder writes the data.\<close>

lemma spin_inv_store:
  assumes "spin_inv s" "holds (sp_pc s i)" "holds pc" "guarded pc \<longrightarrow> guarded (sp_pc s i)"
    "loaded pc = None" "spin_count_ok pc"
  shows "spin_inv (goto i pc (set_data d s))"
proof -
  have others: "\<not> holds (sp_pc s j)" if "j \<noteq> i" for j
    using assms(1,2) that unfolding spin_inv_def by blast
  then have "loaded (sp_pc s j) = None" if "j \<noteq> i" for j
    using loaded_holds [of "sp_pc s j"] that by fastforce
  with others assms show ?thesis
    by (intro spin_invI) (auto simp: spin_updates spin_inv_def split: if_splits)
qed

lemma spin_inv_step: "spin_step s s' \<Longrightarrow> spin_inv s \<Longrightarrow> spin_inv s'"
proof (induction rule: spin_step.induct)
  case (irq_flag s i b)
  then have "spin_inv (goto i (sp_pc s i) (set_irq i b s))"
    by (intro spin_inv_local) (auto simp: spin_inv_def)
  then show ?case by (simp add: goto_def set_irq_def)
next
  case (attempt s i n irq g)
  then show ?case by (intro spin_inv_local) (auto simp: no_irq_guard_new_def)
next
  case (acquire s i n g b)
  then show ?case by (auto intro!: spin_inv_acquire simp: raw_try_lock_def split: if_splits)
next
  case (busy s i n g b)
  then have "set_locked b s = s" by (cases s) (auto simp: set_locked_def raw_try_lock_def split: if_splits)
  with busy show ?case by (auto intro!: spin_inv_goto)
next
  case (retry s i n g)
  then show ?case by (intro spin_inv_local) auto
next
  case (unlock s i g)
  then show ?case by (auto intro!: spin_inv_release simp: raw_unlock_def)
next
  case (leave s i g)
  then show ?case by (intro spin_inv_local) auto
next
  case (raw_acquire s i c b)
  then show ?case by (auto intro!: spin_inv_acquire simp: raw_try_lock_def split: if_splits)
next
  case (raw_release s i)
  then show ?case by (auto intro!: spin_inv_release simp: raw_unlock_def)
next
  case (store s i g v f)
  then show ?case by (auto intro!: spin_inv_store)
next
  case (raw_store s i v f)
  then show ?case by (auto intro!: spin_inv_store)
qed (auto intro!: spin_inv_goto simp: next_spin_count_less)

lemma spin_inv_reachable: "spin_reachable s \<Longrightarrow> spin_inv s"
proof (induction rule: spin_reachable.induct)
  case (spin_init d irqs)
  then show ?case by (simp add: spin_inv_def spinlock_new_def raw_new_def)
next
  case (spin_next s s')
  then show ?case by (blast intro: spin_inv_step)
qed

end
