(* ===== verification/Timer.thy ===== *)
theory Timer
  imports Btree_Map Spinlock
begin

text \<open>
  The software timers of \<open>crates/sparreal-kernel/src/os/time/{mod,timer}.rs\<close> and the interrupt table of
  \<open>os/irq/mod.rs\<close>.

  A callback is a value of type \<open>'c\<close>; what a callback does to the kernel when it is called is the
  argument \<open>run\<close>.  The system tick hardware (\<open>hal::al::cpu::systick_*\<close>) is the record \<open>systick\<close>: every
  call of \<open>systick_ticks\<close> takes the next reading of \<open>st_clock\<close>, so time may pass between two calls.
\<close>

section \<open>The system tick\<close>

record systick =
  st_clock :: "nat \<Rightarrow> nat"
  st_reads :: nat
  st_frequency :: nat
  st_interval :: nat
  st_irq_on :: bool
  st_enabled :: bool
  st_acks :: nat

definition ticks :: "systick \<Rightarrow> nat \<times> systick" where
  "ticks hw = (st_clock hw (st_reads hw), hw\<lparr>st_reads := Suc (st_reads hw)\<rparr>)"

definition NANOS_PER_SEC :: nat where
  "NANOS_PER_SEC = 1000000000"

record duration =
  dur_secs :: nat
  dur_nanos :: nat

text \<open>The frequency is the divisor; the remainder keeps the nanoseconds below one second.\<close>

definition ticks_to_duration :: "nat \<Rightarrow> nat \<Rightarrow> (unit, duration) result" where
  "ticks_to_duration freq t =
     (if freq = 0 then Panic
      else Ok \<lparr>dur_secs = t div freq, dur_nanos = ((t mod freq) * NANOS_PER_SEC) div freq\<rparr>)"

definition duration_to_ticks :: "nat \<Rightarrow> duration \<Rightarrow> nat" where
  "duration_to_ticks freq dur =
     saturating_add (saturating_mul (dur_secs dur) freq)
       ((dur_nanos dur * freq) div NANOS_PER_SEC mod 2 ^ 64)"

definition since_boot :: "systick \<Rightarrow> systick \<times> (unit, duration) result" where
  "since_boot hw = (case ticks hw of (t, hw') \<Rightarrow> (hw', ticks_to_duration (st_frequency hw') t))"

section \<open>TimerManager\<close>

datatype timer_error = NotReady | Overflow

datatype timer_key = TimerKey (key_deadline: nat) (key_id: nat)

text \<open>The derived order: by deadline, then by identifier.\<close>

definition timer_key_le :: "timer_key \<Rightarrow> timer_key \<Rightarrow> bool" where
  "timer_key_le a b \<longleftrightarrow>
     key_deadline a < key_deadline b \<or> key_deadline a = key_deadline b \<and> key_id a \<le> key_id b"

definition timer_key_lt :: "timer_key \<Rightarrow> timer_key \<Rightarrow> bool" where
  "timer_key_lt a b \<longleftrightarrow>
     key_deadline a < key_deadline b \<or> key_deadline a = key_deadline b \<and> key_id a < key_id b"

instantiation timer_key :: linorder
begin

definition less_eq_timer_key :: "timer_key \<Rightarrow> timer_key \<Rightarrow> bool" where
  "less_eq_timer_key = timer_key_le"

definition less_timer_key :: "timer_key \<Rightarrow> timer_key \<Rightarrow> bool" where
  "less_timer_key = timer_key_lt"

instance
  by standard (auto simp: less_eq_timer_key_def timer_key_le_def less_timer_key_def timer_key_lt_def intro: timer_key.expand)

end

record 'c timer_manager =
  tm_next_id :: nat
  tm_timers :: "(timer_key, 'c) btree_map"
  tm_index :: "(nat, nat) btree_map"

record time_list_entry =
  tl_handle :: nat
  tl_deadline :: nat
  tl_remaining :: nat

definition timer_manager_new :: "'c timer_manager" where
  "timer_manager_new = \<lparr>tm_next_id = 1, tm_timers = [], tm_index = []\<rparr>"

text \<open>The search for a free identifier wraps around; it does not return when all of them are taken.\<close>

partial_function (option) next_timer_id :: "'c timer_manager \<Rightarrow> ('c timer_manager \<times> nat) option" where
  "next_timer_id m =
     (let i = tm_next_id m;
          m1 = m\<lparr>tm_next_id := wrapping_add i 1\<rparr>
      in if bt_contains_key (tm_index m1) i then next_timer_id m1 else Some (m1, i))"

definition min_delay :: "systick \<Rightarrow> nat" where
  "min_delay hw = max (st_frequency hw div 10000) 1"

definition arm_hardware_timer :: "'c timer_manager \<Rightarrow> systick \<Rightarrow> systick" where
  "arm_hardware_timer m hw =
     (case bt_first (tm_timers m) of
        Some key \<Rightarrow>
          (case ticks hw of (now, hw1) \<Rightarrow>
             hw1\<lparr>st_interval := max (saturating_sub (key_deadline key) now) (min_delay hw1),
                 st_irq_on := True\<rparr>)
      | None \<Rightarrow> hw\<lparr>st_interval := U64_MAX, st_irq_on := False\<rparr>)"

text \<open>A search for an identifier that never ends is the outcome \<open>Panic\<close>: nothing is returned.\<close>

definition schedule_at_internal ::
  "nat \<Rightarrow> 'c \<Rightarrow> 'c timer_manager \<times> systick \<Rightarrow> ('c timer_manager \<times> systick) \<times> (timer_error, nat) result"
where
  "schedule_at_internal deadline callback s =
     (case s of (m, hw) \<Rightarrow>
      case next_timer_id m of
        None \<Rightarrow> (s, Panic)
      | Some (m1, i) \<Rightarrow>
          let is_earliest =
                (case bt_first (tm_timers m1) of None \<Rightarrow> True | Some k \<Rightarrow> deadline < key_deadline k);
              m2 = m1\<lparr>tm_timers := bt_insert (TimerKey deadline i) callback (tm_timers m1),
                      tm_index := bt_insert i deadline (tm_index m1)\<rparr>
          in ((m2, if is_earliest then arm_hardware_timer m2 hw else hw), Ok i))"

definition schedule_after ::
  "nat \<Rightarrow> 'c \<Rightarrow> 'c timer_manager \<times> systick \<Rightarrow> ('c timer_manager \<times> systick) \<times> (timer_error, nat) result"
where
  "schedule_after delay callback s =
     (case s of (m, hw) \<Rightarrow>
      case ticks hw of (now, hw1) \<Rightarrow>
        (case checked_add now delay of
           None \<Rightarrow> ((m, hw1), Err Overflow)
         | Some deadline \<Rightarrow> schedule_at_internal deadline callback (m, hw1)))"

definition cancel :: "nat \<Rightarrow> 'c timer_manager \<times> systick \<Rightarrow> ('c timer_manager \<times> systick) \<times> bool" where
  "cancel handle s =
     (case s of (m, hw) \<Rightarrow>
      case bt_get (tm_index m) handle of
        None \<Rightarrow> (s, False)
      | Some deadline \<Rightarrow>
          let key = TimerKey deadline handle;
              was_first = (bt_first (tm_timers m) = Some key);
              m1 = m\<lparr>tm_index := bt_remove handle (tm_index m), tm_timers := bt_remove key (tm_timers m)\<rparr>
          in ((m1, if was_first then arm_hardware_timer m1 hw else hw), True))"

text \<open>The loop that collects the expired timers.\<close>

function collect_expired :: "nat \<Rightarrow> 'c timer_manager \<Rightarrow> 'c timer_manager \<times> 'c list" where
  "collect_expired now m =
     (case tm_timers m of
        [] \<Rightarrow> (m, [])
      | (key, cb) # rest \<Rightarrow>
          if key_deadline key > now then (m, [])
          else
            (case collect_expired now
                    (m\<lparr>tm_timers := bt_remove key (tm_timers m),
                       tm_index := bt_remove (key_id key) (tm_index m)\<rparr>) of
               (m', expired) \<Rightarrow> (m', cb # expired)))"
  by pat_completeness auto
termination
  by (relation "measure (\<lambda>(now, m). length (tm_timers m))")
     (auto simp: bt_remove_def le_imp_less_Suc)

declare collect_expired.simps [simp del]

definition handle_irq :: "'c timer_manager \<times> systick \<Rightarrow> ('c timer_manager \<times> systick) \<times> 'c list" where
  "handle_irq s =
     (case s of (m, hw) \<Rightarrow>
      case ticks hw of (now, hw1) \<Rightarrow>
      case collect_expired now m of (m1, expired) \<Rightarrow>
        ((m1, arm_hardware_timer m1 hw1), expired))"

definition snapshot :: "'c timer_manager \<times> systick \<Rightarrow> ('c timer_manager \<times> systick) \<times> time_list_entry list" where
  "snapshot s =
     (case s of (m, hw) \<Rightarrow>
      case ticks hw of (now, hw1) \<Rightarrow>
        ((m, hw1),
         map (\<lambda>(key, _). \<lparr>tl_handle = key_id key, tl_deadline = key_deadline key,
                          tl_remaining = saturating_sub (key_deadline key) now\<rparr>) (tm_timers m)))"

section \<open>The kernel state around the timers\<close>

datatype 'h irq_handler = SystimerIrqHandler | OtherHandler 'h

record ('c, 'h) kernel =
  TIMER_MANAGER :: "'c timer_manager option irq_spinlock"
  TIMER_READY :: bool
  IRQ_VEC :: "(nat, 'h irq_handler) btree_map irq_spinlock"
  irq_local_enabled :: bool
  irq_lines :: "nat \<Rightarrow> bool"
  the_systick :: systick

text \<open>
  \<open>with_manager_mut(f)\<close> and \<open>with_manager(f)\<close>: the lock is held while \<open>f\<close> works on the manager and the
  hardware, and released before they return.
\<close>

definition with_manager_mut ::
  "('c timer_manager \<times> systick \<Rightarrow> ('c timer_manager \<times> systick) \<times> 'r) \<Rightarrow> ('c, 'h) kernel \<Rightarrow>
   ('c, 'h) kernel \<times> (unit, 'r option) result"
where
  "with_manager_mut f s =
     (case with_lock (\<lambda>d. case d of
                None \<Rightarrow> (None, (the_systick s, None))
              | Some m \<Rightarrow> (case f (m, the_systick s) of ((m', hw), r) \<Rightarrow> (Some m', (hw, Some r))))
             (TIMER_MANAGER s, irq_local_enabled s) of
        ((l, irq), Ok (hw, r)) \<Rightarrow>
          (s\<lparr>TIMER_MANAGER := l, irq_local_enabled := irq, the_systick := hw\<rparr>, Ok r)
      | ((l, irq), Err e) \<Rightarrow> (s\<lparr>TIMER_MANAGER := l, irq_local_enabled := irq\<rparr>, Panic)
      | ((l, irq), Panic) \<Rightarrow> (s\<lparr>TIMER_MANAGER := l, irq_local_enabled := irq\<rparr>, Panic))"

definition register_handler ::
  "nat \<Rightarrow> 'h irq_handler \<Rightarrow> ('c, 'h) kernel \<Rightarrow> ('c, 'h) kernel \<times> (unit, unit) result"
where
  "register_handler irq handler s =
     (case with_lock (\<lambda>v. (bt_insert irq handler v, ())) (IRQ_VEC s, irq_local_enabled s) of
        ((l, flag), Ok _) \<Rightarrow>
          (s\<lparr>IRQ_VEC := l, irq_local_enabled := flag, irq_lines := (irq_lines s)(irq := True)\<rparr>, Ok ())
      | ((l, flag), Err e) \<Rightarrow> (s\<lparr>IRQ_VEC := l, irq_local_enabled := flag\<rparr>, Err e)
      | ((l, flag), Panic) \<Rightarrow> (s\<lparr>IRQ_VEC := l, irq_local_enabled := flag\<rparr>, Panic))"

text \<open>\<open>timer_irq\<close> is the number of the tick interrupt, \<open>systick_irq_id()\<close>.\<close>

definition timer_init ::
  "nat \<Rightarrow> ('c, 'h) kernel \<Rightarrow> ('c, 'h) kernel \<times> (unit, unit) result"
where
  "timer_init timer_irq s =
     (case with_lock (\<lambda>d. if d \<noteq> None then (d, True) else (Some timer_manager_new, False))
             (TIMER_MANAGER s, irq_local_enabled s) of
        ((l, irq), Ok done) \<Rightarrow>
          (let s1 = s\<lparr>TIMER_MANAGER := l, irq_local_enabled := irq\<rparr> in
           if done then (s1, Ok ())
           else register_handler timer_irq SystimerIrqHandler (s1\<lparr>TIMER_READY := True\<rparr>))
      | ((l, irq), Err e) \<Rightarrow> (s\<lparr>TIMER_MANAGER := l, irq_local_enabled := irq\<rparr>, Err e)
      | ((l, irq), Panic) \<Rightarrow> (s\<lparr>TIMER_MANAGER := l, irq_local_enabled := irq\<rparr>, Panic))"

definition time_init :: "nat \<Rightarrow> ('c, 'h) kernel \<Rightarrow> ('c, 'h) kernel \<times> (unit, unit) result" where
  "time_init timer_irq s =
     timer_init timer_irq
       (s\<lparr>the_systick := (the_systick s)\<lparr>st_irq_on := False, st_enabled := True\<rparr>\<rparr>)"

definition one_shot_after ::
  "duration \<Rightarrow> 'c \<Rightarrow> ('c, 'h) kernel \<Rightarrow> ('c, 'h) kernel \<times> (timer_error, nat) result"
where
  "one_shot_after delay callback s =
     (if \<not> TIMER_READY s then (s, Err NotReady)
      else
        (case with_manager_mut
                (schedule_after (duration_to_ticks (st_frequency (the_systick s)) delay) callback) s of
           (s', Ok (Some r)) \<Rightarrow> (s', r)
         | (s', Ok None) \<Rightarrow> (s', Err NotReady)
         | (s', _) \<Rightarrow> (s', Panic)))"

definition one_shot_at ::
  "duration \<Rightarrow> 'c \<Rightarrow> ('c, 'h) kernel \<Rightarrow> ('c, 'h) kernel \<times> (timer_error, nat) result"
where
  "one_shot_at deadline callback s =
     (if \<not> TIMER_READY s then (s, Err NotReady)
      else
        (case with_manager_mut
                (schedule_at_internal (duration_to_ticks (st_frequency (the_systick s)) deadline) callback) s of
           (s', Ok (Some r)) \<Rightarrow> (s', r)
         | (s', Ok None) \<Rightarrow> (s', Err NotReady)
         | (s', _) \<Rightarrow> (s', Panic)))"

definition cancel_timer :: "nat \<Rightarrow> ('c, 'h) kernel \<Rightarrow> ('c, 'h) kernel \<times> (unit, bool) result" where
  "cancel_timer handle s =
     and_then (with_manager_mut (cancel handle) s) (\<lambda>r s.
       (s, Ok (case r of None \<Rightarrow> False | Some b \<Rightarrow> b)))"

definition time_list :: "('c, 'h) kernel \<Rightarrow> ('c, 'h) kernel \<times> (unit, time_list_entry list) result" where
  "time_list s =
     and_then (with_manager_mut snapshot s) (\<lambda>r s.
       (s, Ok (case r of None \<Rightarrow> [] | Some l \<Rightarrow> l)))"

text \<open>\<open>run_callbacks\<close>: every callback runs in turn; a panic ends the handler.\<close>

fun run_callbacks ::
  "('c \<Rightarrow> ('c, 'h) kernel \<Rightarrow> ('c, 'h) kernel \<times> (unit, unit) result) \<Rightarrow> 'c list \<Rightarrow> ('c, 'h) kernel \<Rightarrow>
   ('c, 'h) kernel \<times> (unit, unit) result"
where
  "run_callbacks run [] s = (s, Ok ())"
| "run_callbacks run (cb # cbs) s = and_then (run cb s) (\<lambda>_. run_callbacks run cbs)"

definition systimer_irq_handler ::
  "('c \<Rightarrow> ('c, 'h) kernel \<Rightarrow> ('c, 'h) kernel \<times> (unit, unit) result) \<Rightarrow> ('c, 'h) kernel \<Rightarrow>
   ('c, 'h) kernel \<times> (unit, unit) result"
where
  "systimer_irq_handler run s =
     and_then (with_manager_mut handle_irq
         (s\<lparr>the_systick := (the_systick s)\<lparr>st_acks := Suc (st_acks (the_systick s))\<rparr>\<rparr>)) (\<lambda>callbacks s.
       run_callbacks run (case callbacks of None \<Rightarrow> [] | Some cbs \<Rightarrow> cbs) s)"

text \<open>\<open>irq::handle_irq\<close> keeps the lock of the table until the handler has returned.\<close>

definition irq_handle ::
  "('c \<Rightarrow> ('c, 'h) kernel \<Rightarrow> ('c, 'h) kernel \<times> (unit, unit) result) \<Rightarrow>
   ('h \<Rightarrow> ('c, 'h) kernel \<Rightarrow> ('c, 'h) kernel \<times> (unit, unit) result) \<Rightarrow> nat \<Rightarrow> ('c, 'h) kernel \<Rightarrow>
   ('c, 'h) kernel \<times> (unit, unit) result"
where
  "irq_handle run run_other irq s =
     (case spin_lock (IRQ_VEC s, irq_local_enabled s) of
        ((l, flag), Ok g) \<Rightarrow>
          and_then
            (let s1 = s\<lparr>IRQ_VEC := l, irq_local_enabled := flag\<rparr> in
             case bt_get (lock_data l) irq of
               None \<Rightarrow> (s1, Ok ())
             | Some SystimerIrqHandler \<Rightarrow> systimer_irq_handler run s1
             | Some (OtherHandler h) \<Rightarrow> run_other h s1) (\<lambda>_ s.
          case guard_drop g (IRQ_VEC s, irq_local_enabled s) of
            (l', flag') \<Rightarrow> (s\<lparr>IRQ_VEC := l', irq_local_enabled := flag'\<rparr>, Ok ()))
      | ((l, flag), Err e) \<Rightarrow> (s\<lparr>IRQ_VEC := l, irq_local_enabled := flag\<rparr>, Err e)
      | ((l, flag), Panic) \<Rightarrow> (s\<lparr>IRQ_VEC := l, irq_local_enabled := flag\<rparr>, Panic))"

end
