(* ===== verification/Timer_Laws.thy ===== *)
theory Timer_Laws
  imports Timer
begin

text \<open>
  The timer manager as a finite map from identifiers to deadlines and callbacks: its invariant, how
  every operation acts on the map, and when the tick hardware is armed.
\<close>

section \<open>The invariant and the abstract map\<close>

definition tm_inv :: "'c timer_manager \<Rightarrow> bool" where
  "tm_inv m \<longleftrightarrow>
     bt_inv (tm_timers m) \<and> bt_inv (tm_index m) \<and> tm_next_id m \<le> U64_MAX \<and>
     (\<forall>i \<in> fst ` set (tm_index m). i \<le> U64_MAX) \<and>
     (\<forall>d i. TimerKey d i \<in> fst ` set (tm_timers m) \<longleftrightarrow> (i, d) \<in> set (tm_index m))"

definition pending :: "'c timer_manager \<Rightarrow> nat \<Rightarrow> (nat \<times> 'c) option" where
  "pending m i =
     (case bt_get (tm_index m) i of
        None \<Rightarrow> None
      | Some d \<Rightarrow> map_option (Pair d) (bt_get (tm_timers m) (TimerKey d i)))"

lemma tm_invD:
  assumes "tm_inv m"
  shows "bt_inv (tm_timers m)" "bt_inv (tm_index m)" "tm_next_id m \<le> U64_MAX"
    and "\<And>i d. (i, d) \<in> set (tm_index m) \<Longrightarrow> i \<le> U64_MAX"
    and "\<And>d i. TimerKey d i \<in> fst ` set (tm_timers m) \<longleftrightarrow> (i, d) \<in> set (tm_index m)"
  using assms unfolding tm_inv_def by force+

lemma pending_iff:
  assumes "tm_inv m"
  shows "pending m i = Some (d, cb) \<longleftrightarrow> (TimerKey d i, cb) \<in> set (tm_timers m)"
proof -
  note m = tm_invD [OF assms]
  have "pending m i = Some (d, cb) \<longleftrightarrow> (i, d) \<in> set (tm_index m) \<and> (TimerKey d i, cb) \<in> set (tm_timers m)"
    unfolding pending_def using m(1,2) by (auto simp: bt_get_iff [symmetric] split: option.splits)
  moreover have "(i, d) \<in> set (tm_index m)" if "(TimerKey d i, cb) \<in> set (tm_timers m)"
    using m(5) [of d i] that by (force simp: image_iff)
  ultimately show ?thesis by blast
qed

lemma pending_None_iff:
  assumes "tm_inv m" shows "pending m i = None \<longleftrightarrow> \<not> bt_contains_key (tm_index m) i"
proof -
  have "bt_get (tm_timers m) (TimerKey d i) \<noteq> None" if "bt_get (tm_index m) i = Some d" for d
  proof -
    have "TimerKey d i \<in> fst ` set (tm_timers m)"
      using that tm_invD(2,5) [OF assms] by (simp add: bt_get_iff)
    then show ?thesis by (simp add: bt_get_def map_of_eq_None_iff)
  qed
  then show ?thesis by (auto simp: pending_def bt_contains_iff split: option.splits)
qed

lemma map_eq_by_pairs:
  assumes "\<And>x d c. f x = Some (d, c) \<longleftrightarrow> g x = Some (d, c)" shows "f = g"
  by (rule ext, rule option_eq_by_Some) (use assms in auto)

lemma tm_inv_new: "tm_inv timer_manager_new"
  by (simp add: tm_inv_def timer_manager_new_def U64_MAX_def)

lemma timer_manager_new_fields [simp]:
  "tm_index timer_manager_new = []" "tm_timers timer_manager_new = []"
  by (simp_all add: timer_manager_new_def)

lemma pending_new [simp]: "pending timer_manager_new = Map.empty"
  by (simp add: pending_def timer_manager_new_def bt_get_def fun_eq_iff)

section \<open>Identifiers\<close>

lemma next_timer_id_finds:
  assumes "\<not> bt_contains_key (tm_index m) ((tm_next_id m + k) mod 2 ^ 64)" "tm_next_id m < 2 ^ 64"
  shows "\<exists>i < 2 ^ 64. \<not> bt_contains_key (tm_index m) i \<and>
           next_timer_id m = Some (m\<lparr>tm_next_id := wrapping_add i 1\<rparr>, i)"
  using assms
proof (induction k arbitrary: m)
  case 0
  then show ?case by (intro exI [of _ "tm_next_id m"]) (simp add: next_timer_id.simps Let_def)
next
  case (Suc k)
  let ?m = "m\<lparr>tm_next_id := wrapping_add (tm_next_id m) 1\<rparr>"
  show ?case
  proof (cases "bt_contains_key (tm_index m) (tm_next_id m)")
    case False
    then show ?thesis using Suc.prems
      by (intro exI [of _ "tm_next_id m"]) (simp add: next_timer_id.simps Let_def)
  next
    case True
    have "(tm_next_id ?m + k) mod 2 ^ 64 = (tm_next_id m + Suc k) mod 2 ^ 64"
      by (simp add: wrapping_add_def U64_MAX_def mod_simps)
    moreover have "tm_next_id ?m < 2 ^ 64" by (simp add: wrapping_add_def U64_MAX_def)
    ultimately obtain i where i: "i < 2 ^ 64" "\<not> bt_contains_key (tm_index ?m) i"
        "next_timer_id ?m = Some (?m\<lparr>tm_next_id := wrapping_add i 1\<rparr>, i)"
      using Suc.IH [of ?m] Suc.prems by auto
    have "next_timer_id m = next_timer_id ?m"
      using True by (subst next_timer_id.simps) (simp add: Let_def)
    with i show ?thesis by (intro exI [of _ i]) simp
  qed
qed

lemma free_id_exists:
  assumes "length idx \<le> U64_MAX" shows "\<exists>i::nat. i < 2 ^ 64 \<and> \<not> bt_contains_key idx i"
proof (rule ccontr)
  assume "\<not> ?thesis"
  then have "{..< (2::nat) ^ 64} \<subseteq> fst ` set idx" by (auto simp: bt_contains_key_def)
  then have "card {..< (2::nat) ^ 64} \<le> card (fst ` set idx)" by (intro card_mono) auto
  also have "\<dots> \<le> length idx" using card_image_le [of "set idx" fst] card_length [of idx] by simp
  finally show False using assms by (simp add: U64_MAX_def)
qed

lemma next_timer_id_returns:
  assumes "tm_inv m" "length (tm_index m) \<le> U64_MAX"
  shows "\<exists>i \<le> U64_MAX. \<not> bt_contains_key (tm_index m) i \<and>
           next_timer_id m = Some (m\<lparr>tm_next_id := wrapping_add i 1\<rparr>, i)"
proof -
  obtain i where i: "i < 2 ^ 64" "\<not> bt_contains_key (tm_index m) i"
    using free_id_exists [OF assms(2)] by blast
  have n: "tm_next_id m < 2 ^ 64" using tm_invD(3) [OF assms(1)] by (simp add: U64_MAX_def)
  have "(tm_next_id m + (2 ^ 64 - tm_next_id m + i)) mod 2 ^ 64 = i"
    using n i(1) by (simp add: mod_simps)
  with i(2) n have "\<exists>j < 2 ^ 64. \<not> bt_contains_key (tm_index m) j \<and>
      next_timer_id m = Some (m\<lparr>tm_next_id := wrapping_add j 1\<rparr>, j)"
    by (intro next_timer_id_finds [of m "2 ^ 64 - tm_next_id m + i"]) simp_all
  then show ?thesis by (auto simp: U64_MAX_def)
qed

lemma next_timer_id_not_None:
  "tm_inv m \<Longrightarrow> length (tm_index m) \<le> U64_MAX \<Longrightarrow> next_timer_id m \<noteq> None"
  using next_timer_id_returns by fastforce

lemma next_timer_id_Some:
  assumes "next_timer_id m = Some y" "tm_next_id m \<le> U64_MAX"
  shows "snd y \<le> U64_MAX \<and> \<not> bt_contains_key (tm_index m) (snd y) \<and>
         fst y = m\<lparr>tm_next_id := wrapping_add (snd y) 1\<rparr>"
proof -
  have "tm_next_id m \<le> U64_MAX \<longrightarrow> snd y \<le> U64_MAX \<and> \<not> bt_contains_key (tm_index m) (snd y) \<and>
      fst y = m\<lparr>tm_next_id := wrapping_add (snd y) 1\<rparr>"
  proof (rule next_timer_id.raw_induct [OF _ assms(1)])
    fix rec and m :: "'a timer_manager" and y
    assume rec: "\<And>m y. rec m = Some y \<Longrightarrow> tm_next_id m \<le> U64_MAX \<longrightarrow> snd y \<le> U64_MAX \<and>
        \<not> bt_contains_key (tm_index m) (snd y) \<and> fst y = (m :: 'a timer_manager)\<lparr>tm_next_id := wrapping_add (snd y) 1\<rparr>"
    let ?m = "m\<lparr>tm_next_id := wrapping_add (tm_next_id m) 1\<rparr>"
    assume body: "(let i = tm_next_id m; m1 = m\<lparr>tm_next_id := wrapping_add i 1\<rparr>
        in if bt_contains_key (tm_index m1) i then rec m1 else Some (m1, i)) = Some y"
    show "tm_next_id m \<le> U64_MAX \<longrightarrow> snd y \<le> U64_MAX \<and> \<not> bt_contains_key (tm_index m) (snd y) \<and>
        fst y = m\<lparr>tm_next_id := wrapping_add (snd y) 1\<rparr>"
    proof (cases "bt_contains_key (tm_index m) (tm_next_id m)")
      case True
      then have "rec ?m = Some y" using body by (simp add: Let_def)
      moreover have "tm_next_id ?m \<le> U64_MAX" by (simp add: wrapping_add_def U64_MAX_def)
      ultimately show ?thesis using rec [of ?m y] by simp
    next
      case False
      then have "y = (?m, tm_next_id m)" using body by (simp add: Let_def)
      then show ?thesis using False by simp
    qed
  qed
  with assms(2) show ?thesis by blast
qed

section \<open>Operations on the map\<close>

text \<open>A search that returns finds a fresh identifier, and the timer is entered under it.\<close>

lemma schedule_at_internal_step:
  assumes inv: "tm_inv m" and search: "next_timer_id m \<noteq> None"
  shows "\<exists>m' hw' i. schedule_at_internal d cb (m, hw) = ((m', hw'), Ok i) \<and> tm_inv m' \<and>
           pending m i = None \<and> pending m' = (pending m)(i \<mapsto> (d, cb)) \<and>
           hw' = (if (case bt_first (tm_timers m) of None \<Rightarrow> True | Some k \<Rightarrow> d < key_deadline k)
                  then arm_hardware_timer m' hw else hw) \<and>
           bt_first (tm_timers m') =
             Some (case bt_first (tm_timers m) of None \<Rightarrow> TimerKey d i | Some k \<Rightarrow> min (TimerKey d i) k)"
proof -
  note m = tm_invD [OF inv]
  obtain i where i: "i \<le> U64_MAX" "\<not> bt_contains_key (tm_index m) i"
      "next_timer_id m = Some (m\<lparr>tm_next_id := wrapping_add i 1\<rparr>, i)"
    using search next_timer_id_Some [OF _ m(3)] by fastforce
  let ?m = "m\<lparr>tm_next_id := wrapping_add i 1, tm_timers := bt_insert (TimerKey d i) cb (tm_timers m),
             tm_index := bt_insert i d (tm_index m)\<rparr>"
  have idx: "i \<notin> fst ` set (tm_index m)" using i(2) by (simp add: bt_contains_key_def)
  then have new: "TimerKey e i \<notin> fst ` set (tm_timers m)" for e
    using m(5) [of e i] by force
  have timers: "set (tm_timers ?m) = insert (TimerKey d i, cb) (set (tm_timers m))"
    and index: "set (tm_index ?m) = insert (i, d) (set (tm_index m))"
    using m(1,2) idx new by (simp_all add: set_bt_insert_new)
  have inv': "tm_inv ?m" unfolding tm_inv_def timers index
    using m(1-4) i(1) m(5) by (auto simp: wrapping_add_def U64_MAX_def)
  have "pending ?m = (pending m)(i \<mapsto> (d, cb))"
  proof (rule map_eq_by_pairs)
    fix j e c
    have "(TimerKey e i, c) \<notin> set (tm_timers m)" using new by force
    then show "pending ?m j = Some (e, c) \<longleftrightarrow> ((pending m)(i \<mapsto> (d, cb))) j = Some (e, c)"
      using pending_iff [OF inv', of j e c] pending_iff [OF inv, of j e c] timers by auto
  qed
  moreover have "pending m i = None" using pending_None_iff [OF inv] i(2) by simp
  moreover have "schedule_at_internal d cb (m, hw) =
      ((?m, if (case bt_first (tm_timers m) of None \<Rightarrow> True | Some k \<Rightarrow> d < key_deadline k)
            then arm_hardware_timer ?m hw else hw), Ok i)"
    using i(3) by (simp add: schedule_at_internal_def Let_def)
  ultimately show ?thesis using inv' bt_first_insert [OF m(1)] by (intro exI conjI) auto
qed


lemma cancel_spec:
  assumes inv: "tm_inv m"
  shows "\<exists>m' hw'. cancel h (m, hw) = ((m', hw'), pending m h \<noteq> None) \<and> tm_inv m' \<and>
           pending m' = (pending m)(h := None) \<and>
           (hw' = arm_hardware_timer m' hw \<or> hw' = hw \<and> bt_first (tm_timers m') = bt_first (tm_timers m))"
proof (cases "bt_get (tm_index m) h")
  case None
  then have "pending m h = None" by (simp add: pending_def)
  then show ?thesis using None inv by (auto simp: cancel_def fun_upd_idem)
next
  case (Some d)
  note m = tm_invD [OF inv]
  let ?k = "TimerKey d h"
  let ?m = "m\<lparr>tm_index := bt_remove h (tm_index m), tm_timers := bt_remove ?k (tm_timers m)\<rparr>"
  have hd: "(h, e) \<in> set (tm_index m) \<longleftrightarrow> e = d" for e
    using Some m(2) by (auto simp: bt_get_iff [symmetric])
  have keys: "fst ` set (tm_timers ?m) = fst ` set (tm_timers m) - {?k}" by auto
  have inv': "tm_inv ?m" unfolding tm_inv_def keys
    using m(1-4) m(5) hd by (auto simp: tm_inv_def)
  have "pending ?m = (pending m)(h := None)"
  proof (rule map_eq_by_pairs)
    fix j e c
    have "(TimerKey e h, c) \<in> set (tm_timers m) \<Longrightarrow> e = d"
      using m(5) [of e h] hd [of e] by force
    then show "pending ?m j = Some (e, c) \<longleftrightarrow> ((pending m)(h := None)) j = Some (e, c)"
      using pending_iff [OF inv', of j e c] pending_iff [OF inv, of j e c] by auto
  qed
  moreover have "pending m h \<noteq> None" using pending_None_iff [OF inv] Some by (simp add: bt_contains_iff)
  moreover have "bt_first (tm_timers ?m) = bt_first (tm_timers m)" if "bt_first (tm_timers m) \<noteq> Some ?k"
    using that bt_first_remove_other [of "tm_timers m" _ ?k]
    by (cases "bt_first (tm_timers m)") (auto simp: bt_remove_def)
  ultimately show ?thesis using Some inv' by (auto simp: cancel_def Let_def)
qed

text \<open>The expired timers are the first entries of the ordered map.\<close>

lemma collect_expired_spec:
  assumes "tm_inv m" "collect_expired now m = (m', expired)"
  shows "tm_inv m' \<and>
         tm_timers m' = filter (\<lambda>e. now < key_deadline (fst e)) (tm_timers m) \<and>
         expired = map snd (filter (\<lambda>e. key_deadline (fst e) \<le> now) (tm_timers m))"
  using assms
proof (induction "length (tm_timers m)" arbitrary: m m' expired)
  case 0
  then show ?case by (simp add: collect_expired.simps)
next
  case (Suc n)
  note m = tm_invD [OF Suc.prems(1)]
  obtain key cb rest where T: "tm_timers m = (key, cb) # rest" using Suc.hyps(2) by (cases "tm_timers m") auto
  have later: "\<forall>e \<in> set rest. key < fst e" using m(1) by (simp add: T)
  let ?m = "m\<lparr>tm_timers := bt_remove key (tm_timers m), tm_index := bt_remove (key_id key) (tm_index m)\<rparr>"
  show ?case
  proof (cases "key_deadline key > now")
    case True
    then have "\<forall>e \<in> set rest. now < key_deadline (fst e)" using later by (auto simp: less_timer_key_def timer_key_lt_def)
    then show ?thesis using Suc.prems True T by (auto simp: collect_expired.simps filter_empty_conv)
  next
    case False
    have rest: "bt_remove key (tm_timers m) = rest"
      using later by (auto simp: T bt_remove_def filter_id_conv)
    obtain d i where key: "key = TimerKey d i" by (cases key)
    have id: "(i, e) \<in> set (tm_index m) \<longleftrightarrow> e = d" for e
      using m(5) [of d i] m(2) by (auto simp: T key bt_get_iff [symmetric])
    have "fst ` set (tm_timers ?m) = fst ` set (tm_timers m) - {key}" by auto
    then have inv': "tm_inv ?m" unfolding tm_inv_def
      using m(1-4) m(5) id by (auto simp: key)
    obtain m1 ex1 where c: "collect_expired now ?m = (m1, ex1)" by (cases "collect_expired now ?m")
    have "tm_inv m1 \<and> tm_timers m1 = filter (\<lambda>e. now < key_deadline (fst e)) (tm_timers ?m) \<and>
        ex1 = map snd (filter (\<lambda>e. key_deadline (fst e) \<le> now) (tm_timers ?m))"
      by (rule Suc.hyps(1) [OF _ inv' c]) (use Suc.hyps(2) T rest in simp)
    moreover have "collect_expired now m = (m1, cb # ex1)"
      using False c by (simp add: collect_expired.simps [of now m] T)
    ultimately show ?thesis using Suc.prems(2) False rest T by auto
  qed
qed

lemma handle_irq_spec:
  assumes inv: "tm_inv m" and that: "now = st_clock hw (st_reads hw)"
  shows "\<exists>m' hw' expired. handle_irq (m, hw) = ((m', hw'), expired) \<and> tm_inv m' \<and>
           pending m' = (\<lambda>i. case pending m i of
                              Some (d, cb) \<Rightarrow> if now < d then Some (d, cb) else None
                            | None \<Rightarrow> None) \<and>
           expired = map snd (filter (\<lambda>e. key_deadline (fst e) \<le> now) (tm_timers m)) \<and>
           hw' = arm_hardware_timer m' (hw\<lparr>st_reads := Suc (st_reads hw)\<rparr>)"
proof -
  obtain m' ex where c: "collect_expired now m = (m', ex)" by (cases "collect_expired now m")
  note spec = collect_expired_spec [OF inv c]
  have "pending m' = (\<lambda>i. case pending m i of
      Some (d, cb) \<Rightarrow> if now < d then Some (d, cb) else None | None \<Rightarrow> None)"
  proof (rule map_eq_by_pairs)
    fix j e c
    have "pending m' j = Some (e, c) \<longleftrightarrow> pending m j = Some (e, c) \<and> now < e"
      using spec pending_iff [OF inv, of j e c] pending_iff [of m' j e c] by auto
    then show "pending m' j = Some (e, c) \<longleftrightarrow>
        (case pending m j of Some (d, cb) \<Rightarrow> if now < d then Some (d, cb) else None | None \<Rightarrow> None) = Some (e, c)"
      by (auto split: option.splits if_splits)
  qed
  then show ?thesis using spec c that by (auto simp: handle_irq_def ticks_def)
qed

section \<open>The tick hardware\<close>

text \<open>
  With timers pending, the interrupt is on and the interval was computed from the earliest deadline and a
  reading of the clock; without timers the interrupt is off.
\<close>

definition armed :: "'c timer_manager \<Rightarrow> systick \<Rightarrow> bool" where
  "armed m hw \<longleftrightarrow>
     (case bt_first (tm_timers m) of
        None \<Rightarrow> \<not> st_irq_on hw
      | Some k \<Rightarrow> st_irq_on hw \<and>
          (\<exists>n < st_reads hw. st_interval hw = max (key_deadline k - st_clock hw n) (min_delay hw)))"

lemma armed_arm: "armed m (arm_hardware_timer m hw)"
  by (auto simp: armed_def arm_hardware_timer_def ticks_def min_delay_def saturating_sub_def
      split: option.splits)

lemma armed_cong:
  assumes "armed m hw" "map_option key_deadline (bt_first (tm_timers m')) = map_option key_deadline (bt_first (tm_timers m))"
  shows "armed m' hw"
  using assms by (auto simp: armed_def split: option.splits)

lemma armed_read: "armed m hw \<Longrightarrow> armed m (hw\<lparr>st_reads := Suc (st_reads hw)\<rparr>)"
  by (auto simp: armed_def min_delay_def less_Suc_eq split: option.splits)

lemma schedule_armed:
  assumes "tm_inv m" "next_timer_id m \<noteq> None" "armed m hw"
    "schedule_at_internal d cb (m, hw) = ((m', hw'), r)"
  shows "armed m' hw'"
proof (cases "case bt_first (tm_timers m) of None \<Rightarrow> True | Some k \<Rightarrow> d < key_deadline k")
  case True
  then have "hw' = arm_hardware_timer m' hw"
    using schedule_at_internal_step [OF assms(1,2), of d cb hw] assms(4) by auto
  then show ?thesis by (simp add: armed_arm)
next
  case False
  then obtain k where k: "bt_first (tm_timers m) = Some k" "key_deadline k \<le> d"
    by (auto split: option.splits)
  obtain i where "hw' = hw" "bt_first (tm_timers m') = Some (min (TimerKey d i) k)"
    using schedule_at_internal_step [OF assms(1,2), of d cb hw] assms(4) False k(1) by auto
  moreover have "key_deadline (min (TimerKey d i) k) = key_deadline k"
    using k(2) by (auto simp: min_def less_eq_timer_key_def timer_key_le_def)
  ultimately show ?thesis using armed_cong [OF assms(3), of m'] k(1) by simp
qed

text \<open>Whatever the outcome, the manager keeps its invariant and the hardware stays armed.\<close>

lemma schedule_keeps:
  assumes "tm_inv m" "armed m hw" "schedule_at_internal d cb (m, hw) = ((m', hw'), r)"
  shows "tm_inv m' \<and> armed m' hw'"
proof (cases "next_timer_id m")
  case None
  then show ?thesis using assms by (simp add: schedule_at_internal_def)
next
  case (Some y)
  then have "next_timer_id m \<noteq> None" by simp
  from schedule_at_internal_step [OF assms(1) this, of d cb hw] schedule_armed [OF assms(1) this assms(2,3)]
  show ?thesis using assms(3) by auto
qed

lemma cancel_armed:
  assumes "tm_inv m" "armed m hw" "cancel h (m, hw) = ((m', hw'), r)"
  shows "armed m' hw'"
  using cancel_spec [OF assms(1), of h hw] assms(2,3) armed_cong [of m hw m'] armed_arm [of m' hw] by auto

lemma handle_irq_armed:
  assumes "tm_inv m" "handle_irq (m, hw) = ((m', hw'), r)"
  shows "armed m' hw'"
  using handle_irq_spec [OF assms(1) refl, of hw] assms(2) armed_arm by auto

text \<open>
  The programmed interval, counted from the reading it was computed from, ends at the deadline or after
  the minimal delay, whichever is later.
\<close>

lemma armed_on_time:
  assumes "armed m hw" "bt_first (tm_timers m) = Some k"
  obtains n where "n < st_reads hw"
    "st_clock hw n + st_interval hw = max (key_deadline k) (st_clock hw n + min_delay hw)"
proof -
  obtain n where "n < st_reads hw" "st_interval hw = max (key_deadline k - st_clock hw n) (min_delay hw)"
    using assms by (auto simp: armed_def)
  then show thesis by (intro that [of n]) auto
qed

end
