(* ===== verification/Timer_Kernel.thy ===== *)
theory Timer_Kernel
  imports Timer_Laws
begin

text \<open>
  The timer interface of the kernel: what the calls do when the lock of the manager is free, and that
  every call leaves the lock free, the manager in its invariant and the tick hardware armed.
\<close>

definition timer_state :: "('c, 'h) kernel \<Rightarrow> ('c timer_manager \<times> systick) option" where
  "timer_state s = map_option (\<lambda>m. (m, the_systick s)) (lock_data (TIMER_MANAGER s))"

definition kernel_ok :: "('c, 'h) kernel \<Rightarrow> bool" where
  "kernel_ok s \<longleftrightarrow>
     \<not> raw_locked (TIMER_MANAGER s) \<and>
     (TIMER_READY s \<longleftrightarrow> timer_state s \<noteq> None) \<and>
     (\<forall>m hw. timer_state s = Some (m, hw) \<longrightarrow> tm_inv m \<and> armed m hw)"

definition set_timer_state :: "'c timer_manager \<times> systick \<Rightarrow> ('c, 'h) kernel \<Rightarrow> ('c, 'h) kernel" where
  "set_timer_state st s =
     s\<lparr>TIMER_MANAGER := (TIMER_MANAGER s)\<lparr>lock_data := Some (fst st)\<rparr>, the_systick := snd st\<rparr>"

lemma timer_state_set [simp]: "timer_state (set_timer_state st s) = Some st"
  by (simp add: timer_state_def set_timer_state_def)

lemma kernel_okD:
  assumes "kernel_ok s" "timer_state s = Some (m, hw)"
  shows "\<not> raw_locked (TIMER_MANAGER s)" "TIMER_READY s" "tm_inv m" "armed m hw"
  using assms by (auto simp: kernel_ok_def)

lemma kernel_ok_set:
  assumes "kernel_ok s" "timer_state s \<noteq> None" "tm_inv m" "armed m hw"
  shows "kernel_ok (set_timer_state (m, hw) s)"
  using assms by (auto simp: kernel_ok_def set_timer_state_def timer_state_def)

lemma with_manager_mut_Some:
  assumes "\<not> raw_locked (TIMER_MANAGER s)" "timer_state s = Some st" "f st = (st', r)"
  shows "with_manager_mut f s = (set_timer_state st' s, Ok (Some r))"
proof -
  obtain m where "lock_data (TIMER_MANAGER s) = Some m" "st = (m, the_systick s)"
    using assms(2) by (auto simp: timer_state_def)
  then show ?thesis using assms(1,3)
    by (cases st') (simp add: with_manager_mut_def with_lock_free set_timer_state_def)
qed

lemma with_manager_mut_None:
  assumes "\<not> raw_locked (TIMER_MANAGER s)" "timer_state s = None"
  shows "with_manager_mut f s = (s, Ok None)"
  using assms by (cases s, cases "TIMER_MANAGER s") (auto simp: with_manager_mut_def with_lock_free timer_state_def)

text \<open>A manager that is held by somebody else: the call panics after its attempts and changes nothing.\<close>

lemma with_manager_mut_held: "raw_locked (TIMER_MANAGER s) \<Longrightarrow> with_manager_mut f s = (s, Panic)"
  by (simp add: with_manager_mut_def with_lock_held)

lemma schedule_after_spec:
  assumes "tm_inv m" "length (tm_index m) \<le> U64_MAX" "armed m hw"
  defines "now \<equiv> st_clock hw (st_reads hw)"
  shows "if now + delay \<le> U64_MAX
         then \<exists>m' hw' i. schedule_after delay cb (m, hw) = ((m', hw'), Ok i) \<and> tm_inv m' \<and> armed m' hw' \<and>
                pending m i = None \<and> pending m' = (pending m)(i \<mapsto> (now + delay, cb))
         else schedule_after delay cb (m, hw) = ((m, hw\<lparr>st_reads := Suc (st_reads hw)\<rparr>), Err Overflow)"
proof (cases "now + delay \<le> U64_MAX")
  case True
  let ?hw = "hw\<lparr>st_reads := Suc (st_reads hw)\<rparr>"
  have "schedule_after delay cb (m, hw) = schedule_at_internal (now + delay) cb (m, ?hw)"
    using True by (simp add: schedule_after_def ticks_def now_def checked_add_def)
  then show ?thesis
    using True schedule_at_internal_step [OF assms(1) next_timer_id_not_None [OF assms(1,2)], of "now + delay" cb ?hw]
      schedule_armed [OF assms(1) next_timer_id_not_None [OF assms(1,2)] armed_read [OF assms(3)]]
    by simp blast
next
  case False
  then show ?thesis by (simp add: schedule_after_def ticks_def now_def checked_add_def)
qed

text \<open>The calls of the interface keep the kernel in order.\<close>

lemma one_shot_after_ok:
  fixes dur :: duration
  assumes ok: "kernel_ok s" and st: "timer_state s = Some (m, hw)" and room: "length (tm_index m) \<le> U64_MAX"
  defines "now \<equiv> st_clock hw (st_reads hw)" and "delay \<equiv> duration_to_ticks (st_frequency hw) dur"
  shows "if now + delay \<le> U64_MAX
         then \<exists>m' hw' i. one_shot_after dur cb s = (set_timer_state (m', hw') s, Ok i) \<and>
                kernel_ok (set_timer_state (m', hw') s) \<and>
                pending m i = None \<and> pending m' = (pending m)(i \<mapsto> (now + delay, cb))
         else \<exists>s'. one_shot_after dur cb s = (s', Err Overflow) \<and> kernel_ok s'"
proof -
  note k = kernel_okD [OF ok st]
  have hw: "hw = the_systick s" using st by (auto simp: timer_state_def)
  have call: "one_shot_after dur cb s = (set_timer_state st' s, r)"
    if "schedule_after delay cb (m, hw) = (st', r)" for st' r
    using k(2) with_manager_mut_Some [OF k(1) st, where f = "schedule_after delay cb", OF that]
    by (simp add: one_shot_after_def delay_def hw)
  note spec = schedule_after_spec [OF k(3) room k(4), of delay cb, folded now_def]
  show ?thesis
  proof (cases "now + delay \<le> U64_MAX")
    case True
    then show ?thesis using spec call kernel_ok_set [OF ok] st by simp blast
  next
    case False
    then have "schedule_after delay cb (m, hw) = ((m, hw\<lparr>st_reads := Suc (st_reads hw)\<rparr>), Err Overflow)"
      using spec by simp
    from call [OF this] show ?thesis using False kernel_ok_set [OF ok _ k(3) armed_read [OF k(4)]] st by simp
  qed
qed

lemma cancel_timer_ok:
  assumes ok: "kernel_ok s" and st: "timer_state s = Some (m, hw)"
  shows "\<exists>m' hw'. cancel_timer h s = (set_timer_state (m', hw') s, Ok (pending m h \<noteq> None)) \<and>
           kernel_ok (set_timer_state (m', hw') s) \<and> pending m' = (pending m)(h := None)"
proof -
  note k = kernel_okD [OF ok st]
  obtain m' hw' where c: "cancel h (m, hw) = ((m', hw'), pending m h \<noteq> None)" "tm_inv m'"
      "pending m' = (pending m)(h := None)"
    using cancel_spec [OF k(3), of h hw] by blast
  have "armed m' hw'" by (rule cancel_armed [OF k(3,4) c(1)])
  then show ?thesis using c with_manager_mut_Some [OF k(1) st, where f = "cancel h", OF c(1)] kernel_ok_set [OF ok _ c(2)] st
    by (auto simp: cancel_timer_def)
qed

text \<open>The interrupt handler: first the manager is updated, then the callbacks run with the lock free.\<close>

lemma systimer_irq_handler_spec:
  assumes ok: "kernel_ok s" and st: "timer_state s = Some (m, hw)"
  defines "now \<equiv> st_clock hw (st_reads hw)"
  shows "\<exists>m' hw' s'. systimer_irq_handler run s =
             run_callbacks run (map snd (filter (\<lambda>e. key_deadline (fst e) \<le> now) (tm_timers m))) s' \<and>
           kernel_ok s' \<and> timer_state s' = Some (m', hw') \<and> st_acks hw' = Suc (st_acks hw) \<and>
           irq_local_enabled s' = irq_local_enabled s \<and> IRQ_VEC s' = IRQ_VEC s \<and>
           pending m' = (\<lambda>i. case pending m i of
                              Some (d, cb) \<Rightarrow> if now < d then Some (d, cb) else None
                            | None \<Rightarrow> None)"
proof -
  note k = kernel_okD [OF ok st]
  have hw: "hw = the_systick s" using st by (auto simp: timer_state_def)
  let ?hw = "hw\<lparr>st_acks := Suc (st_acks hw)\<rparr>"
  let ?s = "s\<lparr>the_systick := ?hw\<rparr>"
  have st1: "timer_state ?s = Some (m, ?hw)" using st by (auto simp: timer_state_def)
  have "now = st_clock ?hw (st_reads ?hw)" by (simp add: now_def)
  from handle_irq_spec [OF k(3) this] obtain m' hw' where
    h: "handle_irq (m, ?hw) =
          ((m', hw'), map snd (filter (\<lambda>e. key_deadline (fst e) \<le> now) (tm_timers m)))"
      "tm_inv m'" "hw' = arm_hardware_timer m' (?hw\<lparr>st_reads := Suc (st_reads ?hw)\<rparr>)"
      "pending m' = (\<lambda>i. case pending m i of
          Some (d, cb) \<Rightarrow> if now < d then Some (d, cb) else None | None \<Rightarrow> None)"
    by blast
  let ?s' = "set_timer_state (m', hw') ?s"
  have "with_manager_mut handle_irq ?s = (?s', Ok (Some (map snd (filter (\<lambda>e. key_deadline (fst e) \<le> now) (tm_timers m)))))"
    by (rule with_manager_mut_Some [OF _ st1, where f = handle_irq, OF _ h(1)]) (simp add: k(1))
  then have run: "systimer_irq_handler run s =
      run_callbacks run (map snd (filter (\<lambda>e. key_deadline (fst e) \<le> now) (tm_timers m))) ?s'"
    by (simp add: systimer_irq_handler_def hw)
  have "armed m' hw'" unfolding h(3) by (rule armed_arm)
  then have "kernel_ok ?s'" using ok h(2) k(2)
    by (auto simp: kernel_ok_def set_timer_state_def timer_state_def)
  moreover have "st_acks hw' = Suc (st_acks hw)"
    unfolding h(3) by (simp add: arm_hardware_timer_def ticks_def split: option.split)
  ultimately show ?thesis using run h(4)
    by (intro exI [of _ m'] exI [of _ hw'] exI [of _ ?s'] conjI) (simp_all add: set_timer_state_def timer_state_def)
qed

lemma run_callbacks_keeps:
  assumes "\<And>cb s. P s \<Longrightarrow> P (fst (run cb s))" "P s"
  shows "P (fst (run_callbacks run cbs s))"
  using assms(2)
proof (induction cbs arbitrary: s)
  case (Cons cb cbs)
  obtain s1 r where r: "run cb s = (s1, r)" by (cases "run cb s")
  then have "P s1" using assms(1) [OF Cons.prems, of cb] by simp
  with Cons.IH [OF this] r show ?case by (cases r) auto
qed simp

lemma time_init_ok:
  assumes "\<not> raw_locked (TIMER_MANAGER s)" "\<not> raw_locked (IRQ_VEC s)"
    "lock_data (TIMER_MANAGER s) = None"
  shows "\<exists>s'. time_init irq s = (s', Ok ()) \<and> kernel_ok s' \<and>
           timer_state s' = Some (timer_manager_new, (the_systick s)\<lparr>st_irq_on := False, st_enabled := True\<rparr>) \<and>
           lock_data (IRQ_VEC s') = bt_insert irq SystimerIrqHandler (lock_data (IRQ_VEC s)) \<and>
           irq_lines s' irq"
proof -
  let ?hw = "(the_systick s)\<lparr>st_irq_on := False, st_enabled := True\<rparr>"
  have "armed timer_manager_new ?hw" by (simp add: armed_def timer_manager_new_def)
  then show ?thesis using assms tm_inv_new
    by (auto simp: time_init_def timer_init_def register_handler_def with_lock_free kernel_ok_def timer_state_def)
qed

section \<open>Runs of the timer interface\<close>

text \<open>A call that goes through \<open>with_manager_mut\<close> keeps the kernel in order when its body does.\<close>

lemma with_manager_mut_keeps:
  assumes ok: "kernel_ok s"
    and f: "\<And>m hw m' hw' r. tm_inv m \<Longrightarrow> armed m hw \<Longrightarrow> f (m, hw) = ((m', hw'), r) \<Longrightarrow> tm_inv m' \<and> armed m' hw'"
  shows "kernel_ok (fst (with_manager_mut f s))"
proof (cases "timer_state s")
  case None
  then show ?thesis using with_manager_mut_None [of s f] ok by (simp add: kernel_ok_def)
next
  case (Some st)
  obtain m hw where st: "st = (m, hw)" by (cases st)
  obtain m' hw' r where r: "f (m, hw) = ((m', hw'), r)" by (cases "f (m, hw)") (auto simp: prod_eq_iff)
  note k = kernel_okD [OF ok Some [unfolded st]]
  have "with_manager_mut f s = (set_timer_state (m', hw') s, Ok (Some r))"
    using with_manager_mut_Some [OF k(1) Some [unfolded st], of f] r by simp
  then show ?thesis using kernel_ok_set [OF ok] Some f [OF k(3,4) r] by simp
qed

lemma schedule_after_keeps:
  assumes "tm_inv m" "armed m hw" "schedule_after d cb (m, hw) = ((m', hw'), r)"
  shows "tm_inv m' \<and> armed m' hw'"
proof (cases "checked_add (st_clock hw (st_reads hw)) d")
  case None
  then show ?thesis using assms armed_read [OF assms(2)] by (simp add: schedule_after_def ticks_def)
next
  case (Some e)
  then show ?thesis using assms(3) schedule_keeps [OF assms(1) armed_read [OF assms(2)], of e cb]
    by (simp add: schedule_after_def ticks_def)
qed

lemma fst_timer_call:
  "fst (case m of (s', Ok (Some r)) \<Rightarrow> (s', r) | (s', Ok None) \<Rightarrow> (s', e) | (s', _) \<Rightarrow> (s', p)) = fst m"
  by (auto split: prod.splits result.splits option.splits)

lemma one_shot_after_keeps:
  assumes "kernel_ok s" shows "kernel_ok (fst (one_shot_after dur cb s))"
proof -
  have "kernel_ok (fst (with_manager_mut (schedule_after t cb) s))" for t
    using assms by (rule with_manager_mut_keeps) (rule schedule_after_keeps)
  then show ?thesis using assms unfolding one_shot_after_def by (cases "TIMER_READY s") (simp_all only: fst_timer_call if_True if_False simp_thms fst_conv)
qed

lemma one_shot_at_keeps:
  assumes "kernel_ok s" shows "kernel_ok (fst (one_shot_at dur cb s))"
proof -
  have "kernel_ok (fst (with_manager_mut (schedule_at_internal t cb) s))" for t
    using assms by (rule with_manager_mut_keeps) (rule schedule_keeps)
  then show ?thesis using assms unfolding one_shot_at_def by (cases "TIMER_READY s") (simp_all only: fst_timer_call if_True if_False simp_thms fst_conv)
qed

lemma fst_and_then_pure: "(\<And>x s. fst (f x s) = s) \<Longrightarrow> fst (and_then m f) = fst m"
  by (cases m; cases "snd m") auto

lemma cancel_keeps:
  assumes "tm_inv m" "armed m hw" "cancel h (m, hw) = ((m', hw'), r)"
  shows "tm_inv m' \<and> armed m' hw'"
  using cancel_spec [OF assms(1), of h hw] cancel_armed [OF assms] assms(3) by auto

lemma cancel_timer_keeps: "kernel_ok s \<Longrightarrow> kernel_ok (fst (cancel_timer h s))"
  unfolding cancel_timer_def
  by (subst fst_and_then_pure) (auto intro!: with_manager_mut_keeps dest: cancel_keeps)

lemma time_list_keeps: "kernel_ok s \<Longrightarrow> kernel_ok (fst (time_list s))"
  unfolding time_list_def
  by (subst fst_and_then_pure) (auto intro!: with_manager_mut_keeps armed_read simp: snapshot_def ticks_def)

lemma systimer_irq_handler_keeps:
  assumes "kernel_ok s" "\<And>cb s. kernel_ok s \<Longrightarrow> kernel_ok (fst (run cb s))"
  shows "kernel_ok (fst (systimer_irq_handler run s))"
proof (cases "timer_state s")
  case None
  let ?s = "s\<lparr>the_systick := (the_systick s)\<lparr>st_acks := Suc (st_acks (the_systick s))\<rparr>\<rparr>"
  have "kernel_ok ?s" "timer_state ?s = None" using assms(1) None by (auto simp: kernel_ok_def timer_state_def)
  then show ?thesis using with_manager_mut_None [of ?s handle_irq]
    by (simp add: systimer_irq_handler_def kernel_ok_def)
next
  case (Some st)
  obtain m hw where "timer_state s = Some (m, hw)" using Some by (cases st) auto
  from systimer_irq_handler_spec [OF assms(1) this, of run]
  show ?thesis using run_callbacks_keeps [of kernel_ok run, OF assms(2)] by auto
qed

text \<open>The kernels that booting and calls of the interface lead to; \<open>Tick\<close> is the timer interrupt.\<close>

inductive timer_reachable ::
  "('c \<Rightarrow> ('c, 'h) kernel \<Rightarrow> ('c, 'h) kernel \<times> (unit, unit) result) \<Rightarrow> nat \<Rightarrow> ('c, 'h) kernel \<Rightarrow> bool"
  for run :: "'c \<Rightarrow> ('c, 'h) kernel \<Rightarrow> ('c, 'h) kernel \<times> (unit, unit) result" and irq :: nat
where
  boot: "\<not> raw_locked (TIMER_MANAGER s) \<Longrightarrow> \<not> raw_locked (IRQ_VEC s) \<Longrightarrow>
    lock_data (TIMER_MANAGER s) = None \<Longrightarrow> timer_reachable run irq (fst (time_init irq s))"
| one_shot_after: "timer_reachable run irq s \<Longrightarrow> timer_reachable run irq (fst (one_shot_after dur cb s))"
| one_shot_at: "timer_reachable run irq s \<Longrightarrow> timer_reachable run irq (fst (one_shot_at dur cb s))"
| cancel: "timer_reachable run irq s \<Longrightarrow> timer_reachable run irq (fst (cancel_timer h s))"
| list: "timer_reachable run irq s \<Longrightarrow> timer_reachable run irq (fst (time_list s))"
| tick: "timer_reachable run irq s \<Longrightarrow> timer_reachable run irq (fst (systimer_irq_handler run s))"

lemma timer_reachable_ok:
  assumes "timer_reachable run irq s" "\<And>cb s. kernel_ok s \<Longrightarrow> kernel_ok (fst (run cb s))"
  shows "kernel_ok s"
  using assms(1)
proof (induction rule: timer_reachable.induct)
  case (boot s)
  then show ?case using time_init_ok [of s irq] by auto
next
  case (tick s)
  then show ?case using systimer_irq_handler_keeps assms(2) by blast
qed (simp_all add: one_shot_after_keeps one_shot_at_keeps cancel_timer_keeps time_list_keeps)

text \<open>Every pending timer is covered by the programmed interval.\<close>

lemma pending_covered:
  assumes "tm_inv m" "armed m hw" "pending m i = Some (d, cb)"
  shows "st_irq_on hw \<and>
    (\<exists>n < st_reads hw. st_clock hw n + st_interval hw \<le> max d (st_clock hw n + min_delay hw))"
proof -
  have "(TimerKey d i, cb) \<in> set (tm_timers m)" using assms(1,3) by (simp add: pending_iff)
  moreover from this obtain k where k: "bt_first (tm_timers m) = Some k"
    by (cases "bt_first (tm_timers m)") auto
  ultimately have "k \<le> TimerKey d i" using bt_first_min [OF tm_invD(1) [OF assms(1)] k] by force
  then have d: "key_deadline k \<le> d" by (auto simp: less_eq_timer_key_def timer_key_le_def)
  obtain n where "n < st_reads hw"
      "st_clock hw n + st_interval hw = max (key_deadline k) (st_clock hw n + min_delay hw)"
    using armed_on_time [OF assms(2) k] .
  moreover have "st_irq_on hw" using assms(2) k by (simp add: armed_def)
  ultimately show ?thesis using d by (intro conjI exI [of _ n]) auto
qed

text \<open>While an interrupt is handled the table is locked, so a handler cannot register another one.\<close>

lemma register_handler_locked: "raw_locked (IRQ_VEC s) \<Longrightarrow> register_handler irq h s = (s, Panic)"
  by (simp add: register_handler_def with_lock_held)

lemma irq_handle_other:
  assumes "\<not> raw_locked (IRQ_VEC s)" "bt_get (lock_data (IRQ_VEC s)) irq = Some (OtherHandler h)"
  defines "s1 \<equiv> s\<lparr>IRQ_VEC := (IRQ_VEC s)\<lparr>raw_locked := True\<rparr>, irq_local_enabled := False\<rparr>"
  shows "irq_handle run run_other irq s =
           and_then (run_other h s1) (\<lambda>_ s2.
             (s2\<lparr>IRQ_VEC := (IRQ_VEC s2)\<lparr>raw_locked := False\<rparr>,
                 irq_local_enabled := (if irq_local_enabled s then True else irq_local_enabled s2)\<rparr>, Ok ()))"
  using assms by (simp add: irq_handle_def spin_lock_free guard_drop_def guard_defs)

section \<open>Ticks and durations\<close>

lemma duration_roundtrip_bounds:
  assumes freq: "0 < freq" "freq \<le> NANOS_PER_SEC" and t: "t \<le> U64_MAX"
    and d: "ticks_to_duration freq t = Ok dur"
  shows "dur_nanos dur < NANOS_PER_SEC" "duration_to_ticks freq dur \<le> t"
    "t \<le> duration_to_ticks freq dur + 1"
proof -
  define r where "r = t mod freq"
  define n where "n = (r * NANOS_PER_SEC) div freq"
  have dur: "dur_secs dur = t div freq" "dur_nanos dur = n"
    using d freq(1) by (auto simp: ticks_to_duration_def r_def n_def)
  have G: "(0::nat) < NANOS_PER_SEC" by (simp add: NANOS_PER_SEC_def)
  have r: "r < freq" using freq(1) by (simp add: r_def)
  have n_le: "n * freq \<le> r * NANOS_PER_SEC" by (simp add: n_def)
  have n_ge: "r * NANOS_PER_SEC < n * freq + freq"
    using freq(1) dividend_less_div_times [of freq "r * NANOS_PER_SEC"] by (simp add: n_def algebra_simps)
  have "r * NANOS_PER_SEC < NANOS_PER_SEC * freq"
    using mult_strict_right_mono [OF r G] by (simp only: mult.commute [of NANOS_PER_SEC])
  with n_le have "n * freq < NANOS_PER_SEC * freq" by (rule le_less_trans)
  then show "dur_nanos dur < NANOS_PER_SEC" unfolding dur(2) by (rule mult_less_cancel2 [THEN iffD1, THEN conjunct2])
  define q where "q = (n * freq) div NANOS_PER_SEC"
  have q_le: "q \<le> r"
  proof -
    have "q \<le> (r * NANOS_PER_SEC) div NANOS_PER_SEC" unfolding q_def using n_le by (rule div_le_mono)
    then show ?thesis using G by simp
  qed
  have q_ge: "r \<le> q + 1"
  proof -
    have "n * freq < (q + 1) * NANOS_PER_SEC"
      using dividend_less_div_times [OF G, of "n * freq"] by (simp add: q_def algebra_simps)
    with n_ge freq(2) have "r * NANOS_PER_SEC < (q + 1) * NANOS_PER_SEC + NANOS_PER_SEC" by linarith
    then have "r * NANOS_PER_SEC < (q + 2) * NANOS_PER_SEC" by (simp add: algebra_simps)
    then have "r < q + 2" by (rule mult_less_cancel2 [THEN iffD1, THEN conjunct2])
    then show ?thesis by simp
  qed
  have split: "t div freq * freq + r = t" by (simp add: r_def)
  then have "t div freq * freq \<le> U64_MAX" using t by linarith
  moreover have "q < 2 ^ 64" using q_le split t by (simp add: U64_MAX_def)
  ultimately have "duration_to_ticks freq dur = saturating_add (t div freq * freq) q"
    by (simp add: duration_to_ticks_def dur q_def saturating_mul_def)
  moreover have "t div freq * freq + q \<le> U64_MAX" using split q_le t by linarith
  ultimately have eq: "duration_to_ticks freq dur = t div freq * freq + q"
    by (simp add: saturating_add_def)
  show "duration_to_ticks freq dur \<le> t" "t \<le> duration_to_ticks freq dur + 1"
    unfolding eq using split q_le q_ge by linarith+
qed

lemmas timer_eval [eval_simps] =
  ticks_def ticks_to_duration_def duration_to_ticks_def NANOS_PER_SEC_def min_delay_def
  arm_hardware_timer_def schedule_at_internal_def schedule_after_def cancel_def handle_irq_def
  collect_expired.simps next_timer_id.simps timer_manager_new_def less_timer_key_def timer_key_lt_def less_eq_timer_key_def timer_key_le_def
  with_manager_mut_def with_lock_free register_handler_def timer_init_def time_init_def
  one_shot_after_def cancel_timer_def systimer_irq_handler_def

end
