(* ===== verification/Executor.thy ===== *)
theory Executor
  imports Timer
begin

text \<open>
  The single-CPU executor of \<open>crates/sparreal-kernel/src/os/async/{executor,task}.rs\<close>.

  An \<open>Arc<TaskRef>\<close> is an address in \<open>ex_tasks\<close>; the registry and the priority queue hold addresses, so a
  task lives on in the queue after it has left the registry.  The futures are values of type \<open>'f\<close>; what
  polling one of them does to the executor, and whether it is ready, is the argument \<open>poll_future\<close>.  Locks
  are held where the source holds a guard, so that a second \<open>lock\<close> of the same lock is a panic.
\<close>

section \<open>task.rs\<close>

datatype task_status = Pending | Woken | Running | Completed

record task_metadata =
  md_id :: nat
  md_state :: task_status
  md_created_at :: nat
  md_last_wake_at :: nat
  md_last_run_at :: "nat option"
  md_run_count :: nat

datatype task_priority = TaskPriority (tp_is_woken: bool) (tp_timestamp: nat) (tp_task_id: nat)

text \<open>The derived order compares the fields in the order of their declaration.\<close>

definition task_priority_lt :: "task_priority \<Rightarrow> task_priority \<Rightarrow> bool" where
  "task_priority_lt a b \<longleftrightarrow>
     \<not> tp_is_woken a \<and> tp_is_woken b \<or>
     tp_is_woken a = tp_is_woken b \<and>
       (tp_timestamp a < tp_timestamp b \<or>
        tp_timestamp a = tp_timestamp b \<and> tp_task_id a < tp_task_id b)"

definition task_priority_le :: "task_priority \<Rightarrow> task_priority \<Rightarrow> bool" where
  "task_priority_le a b \<longleftrightarrow> task_priority_lt a b \<or> a = b"

instantiation task_priority :: linorder
begin

definition less_task_priority :: "task_priority \<Rightarrow> task_priority \<Rightarrow> bool" where
  "less_task_priority = task_priority_lt"

definition less_eq_task_priority :: "task_priority \<Rightarrow> task_priority \<Rightarrow> bool" where
  "less_eq_task_priority = task_priority_le"

instance
  by standard (auto simp: less_eq_task_priority_def task_priority_le_def less_task_priority_def task_priority_lt_def intro: task_priority.expand)

end

definition task_priority_new :: "task_metadata \<Rightarrow> task_priority" where
  "task_priority_new d = TaskPriority (md_state d = Woken) (md_last_wake_at d) (md_id d)"

record 'f task_ref =
  tr_metadata :: "task_metadata irq_spinlock"
  tr_future :: "'f irq_spinlock"

section \<open>State of the executor\<close>

record wrapper =
  pw_priority :: task_priority
  pw_task :: nat

record 'f executor =
  ex_counter :: nat
  ex_tasks :: "nat \<Rightarrow> 'f task_ref"
  ex_next_ref :: nat
  GLOBAL_WAKEUP_QUEUE :: "nat list irq_spinlock"
  ex_queue :: "wrapper list irq_spinlock"
  ex_registry :: "(nat, nat) btree_map irq_spinlock"
  ex_running :: "bool irq_spinlock"
  ex_timeout_ms :: nat
  ex_systick :: systick

definition set_task :: "nat \<Rightarrow> ('f task_ref \<Rightarrow> 'f task_ref) \<Rightarrow> 'f executor \<Rightarrow> 'f executor" where
  "set_task r f s = s\<lparr>ex_tasks := (ex_tasks s)(r := f (ex_tasks s r))\<rparr>"

abbreviation metadata_of :: "'f executor \<Rightarrow> nat \<Rightarrow> task_metadata" where
  "metadata_of s r \<equiv> lock_data (tr_metadata (ex_tasks s r))"

definition set_metadata :: "nat \<Rightarrow> task_metadata \<Rightarrow> 'f executor \<Rightarrow> 'f executor" where
  "set_metadata r d = set_task r (\<lambda>t. t\<lparr>tr_metadata := (tr_metadata t)\<lparr>lock_data := d\<rparr>\<rparr>)"

text \<open>The blocks in which one of the locks is held.\<close>

abbreviation in_metadata ::
  "nat \<Rightarrow> ('f executor \<Rightarrow> 'f executor \<times> (unit, 'r) result) \<Rightarrow> 'f executor \<Rightarrow> 'f executor \<times> (unit, 'r) result"
where
  "in_metadata r \<equiv> in_lock (\<lambda>s. tr_metadata (ex_tasks s r))
     (\<lambda>g. set_task r (\<lambda>t. t\<lparr>tr_metadata := g (tr_metadata t)\<rparr>))"

abbreviation in_future ::
  "nat \<Rightarrow> ('f executor \<Rightarrow> 'f executor \<times> (unit, 'r) result) \<Rightarrow> 'f executor \<Rightarrow> 'f executor \<times> (unit, 'r) result"
where
  "in_future r \<equiv> in_lock (\<lambda>s. tr_future (ex_tasks s r))
     (\<lambda>g. set_task r (\<lambda>t. t\<lparr>tr_future := g (tr_future t)\<rparr>))"

abbreviation in_registry ::
  "('f executor \<Rightarrow> 'f executor \<times> (unit, 'r) result) \<Rightarrow> 'f executor \<Rightarrow> 'f executor \<times> (unit, 'r) result"
where
  "in_registry \<equiv> in_lock ex_registry ex_registry_update"

abbreviation in_queue ::
  "('f executor \<Rightarrow> 'f executor \<times> (unit, 'r) result) \<Rightarrow> 'f executor \<Rightarrow> 'f executor \<times> (unit, 'r) result"
where
  "in_queue \<equiv> in_lock ex_queue ex_queue_update"

abbreviation in_wakeup_queue ::
  "('f executor \<Rightarrow> 'f executor \<times> (unit, 'r) result) \<Rightarrow> 'f executor \<Rightarrow> 'f executor \<times> (unit, 'r) result"
where
  "in_wakeup_queue \<equiv> in_lock GLOBAL_WAKEUP_QUEUE GLOBAL_WAKEUP_QUEUE_update"

text \<open>\<open>time::since_boot().as_millis() as u64\<close>.\<close>

definition now_ms :: "'f executor \<Rightarrow> 'f executor \<times> (unit, nat) result" where
  "now_ms s =
     (case since_boot (ex_systick s) of
        (hw, Ok dur) \<Rightarrow>
          (s\<lparr>ex_systick := hw\<rparr>, Ok ((dur_secs dur * 1000 + dur_nanos dur div 1000000) mod 2 ^ 64))
      | (hw, _) \<Rightarrow> (s\<lparr>ex_systick := hw\<rparr>, Panic))"

section \<open>Operations of a task\<close>

definition task_id_new :: "'f executor \<Rightarrow> 'f executor \<times> nat" where
  "task_id_new s = (s\<lparr>ex_counter := wrapping_add (ex_counter s) 1\<rparr>, ex_counter s)"

definition task_metadata_new :: "nat \<Rightarrow> 'f executor \<Rightarrow> 'f executor \<times> (unit, task_metadata) result" where
  "task_metadata_new i s =
     and_then (now_ms s) (\<lambda>now s.
       (s, Ok \<lparr>md_id = i, md_state = Woken, md_created_at = now, md_last_wake_at = now,
               md_last_run_at = None, md_run_count = 0\<rparr>))"

definition is_expired :: "nat \<Rightarrow> nat \<Rightarrow> 'f executor \<Rightarrow> 'f executor \<times> (unit, bool) result" where
  "is_expired r timeout_ms s =
     and_then (now_ms s) (\<lambda>now s.
       let d = metadata_of s r;
           since = (case md_last_run_at d of Some last_run \<Rightarrow> last_run | None \<Rightarrow> md_created_at d)
       in (s, if now < since then Panic else Ok (now - since > timeout_ms)))"

definition update_execution :: "nat \<Rightarrow> 'f executor \<Rightarrow> 'f executor \<times> (unit, unit) result" where
  "update_execution r s =
     and_then (now_ms s) (\<lambda>now s.
       let d = metadata_of s r in
       if md_run_count d \<ge> U64_MAX then (set_metadata r (d\<lparr>md_last_run_at := Some now\<rparr>) s, Panic)
       else (set_metadata r (d\<lparr>md_last_run_at := Some now, md_run_count := md_run_count d + 1,
                              md_state := Running\<rparr>) s, Ok ()))"

definition mark_woken :: "nat \<Rightarrow> 'f executor \<Rightarrow> 'f executor \<times> (unit, unit) result" where
  "mark_woken r s =
     and_then (now_ms s) (\<lambda>now s.
       (set_metadata r ((metadata_of s r)\<lparr>md_last_wake_at := now, md_state := Woken\<rparr>) s, Ok ()))"

definition task_id_of :: "nat \<Rightarrow> 'f executor \<Rightarrow> 'f executor \<times> (unit, nat) result" where
  "task_id_of r = in_metadata r (\<lambda>s. (s, Ok (md_id (metadata_of s r))))"

definition is_completed :: "nat \<Rightarrow> 'f executor \<Rightarrow> 'f executor \<times> (unit, bool) result" where
  "is_completed r = in_metadata r (\<lambda>s. (s, Ok (md_state (metadata_of s r) = Completed)))"

definition priority_of :: "nat \<Rightarrow> 'f executor \<Rightarrow> 'f executor \<times> (unit, task_priority) result" where
  "priority_of r = in_metadata r (\<lambda>s. (s, Ok (task_priority_new (metadata_of s r))))"

text \<open>
  \<open>TaskRef::poll\<close>: the metadata and the future are locked while the future is polled.  The result is
  whether the future is ready.
\<close>

definition task_poll ::
  "('f \<Rightarrow> nat \<Rightarrow> 'f executor \<Rightarrow> 'f executor \<times> (unit, 'f \<times> bool) result) \<Rightarrow> nat \<Rightarrow> nat \<Rightarrow> 'f executor \<Rightarrow>
   'f executor \<times> (unit, bool) result"
where
  "task_poll poll_future waker r =
     in_metadata r (\<lambda>s.
       if md_state (metadata_of s r) = Completed then (s, Ok True)
       else
         and_then (update_execution r s) (\<lambda>_.
         in_future r (\<lambda>s.
           and_then (poll_future (lock_data (tr_future (ex_tasks s r))) waker s) (\<lambda>(f, ready) s.
             let s1 = set_task r (\<lambda>t. t\<lparr>tr_future := (tr_future t)\<lparr>lock_data := f\<rparr>\<rparr>) s in
             (set_metadata r ((metadata_of s1 r)\<lparr>md_state := (if ready then Completed else Pending)\<rparr>) s1,
              Ok ready)))))"

text \<open>\<open>TaskHandle::wake\<close> marks the task and puts it in no queue.\<close>

definition handle_wake :: "nat option \<Rightarrow> 'f executor \<Rightarrow> 'f executor \<times> (unit, bool) result" where
  "handle_wake task_ref s =
     (case task_ref of
        None \<Rightarrow> (s, Ok False)
      | Some r \<Rightarrow> and_then (in_metadata r (mark_woken r) s) (\<lambda>_ s. (s, Ok True)))"

section \<open>executor.rs\<close>

definition enqueue_task_wakeup :: "nat \<Rightarrow> 'f executor \<Rightarrow> 'f executor \<times> (unit, unit) result" where
  "enqueue_task_wakeup i =
     in_wakeup_queue (\<lambda>s.
       (if i \<in> set (lock_data (GLOBAL_WAKEUP_QUEUE s)) then s
        else s\<lparr>GLOBAL_WAKEUP_QUEUE := (GLOBAL_WAKEUP_QUEUE s)
                 \<lparr>lock_data := lock_data (GLOBAL_WAKEUP_QUEUE s) @ [i]\<rparr>\<rparr>, Ok ()))"

text \<open>
  The order of \<open>PriorityTaskWrapper\<close> is the reversed order of the priorities, so the greatest element,
  which \<open>BinaryHeap::pop\<close> removes, has the least priority value.  Elements that compare equal belong to
  the same task identifier.
\<close>

definition wrapper_le :: "wrapper \<Rightarrow> wrapper \<Rightarrow> bool" where
  "wrapper_le self other \<longleftrightarrow> pw_priority other \<le> pw_priority self"

definition heap_pop :: "wrapper list \<Rightarrow> (wrapper \<times> wrapper list) option" where
  "heap_pop q =
     map_option (\<lambda>x. (x, remove1 x q)) (find (\<lambda>x. list_all (\<lambda>y. wrapper_le y x) q) q)"

definition push_wrapper :: "nat \<Rightarrow> 'f executor \<Rightarrow> 'f executor \<times> (unit, unit) result" where
  "push_wrapper r s =
     and_then (priority_of r s) (\<lambda>p.
       in_queue (\<lambda>s.
         (s\<lparr>ex_queue := (ex_queue s)\<lparr>lock_data := lock_data (ex_queue s) @ [\<lparr>pw_priority = p, pw_task = r\<rparr>]\<rparr>\<rparr>,
          Ok ())))"

definition add_task_to_queue :: "nat \<Rightarrow> 'f executor \<Rightarrow> 'f executor \<times> (unit, unit) result" where
  "add_task_to_queue i =
     in_registry (\<lambda>s.
       case bt_get (lock_data (ex_registry s)) i of
         None \<Rightarrow> (s, Ok ())
       | Some r \<Rightarrow> push_wrapper r s)"

text \<open>A new task: its identifier, and the reference its handle keeps.\<close>

definition task_ref_new :: "'f \<Rightarrow> task_metadata \<Rightarrow> 'f task_ref" where
  "task_ref_new f d = \<lparr>tr_metadata = spinlock_new d, tr_future = spinlock_new f\<rparr>"

definition spawn :: "'f \<Rightarrow> 'f executor \<Rightarrow> 'f executor \<times> (unit, nat \<times> nat) result" where
  "spawn fut s0 =
     (case task_id_new s0 of (s1, i) \<Rightarrow>
      and_then (task_metadata_new i s1) (\<lambda>d s2.
      let r = ex_next_ref s2;
          s3 = s2\<lparr>ex_tasks := (ex_tasks s2)(r := task_ref_new fut d), ex_next_ref := Suc r\<rparr>
      in and_then
           (in_registry (\<lambda>s. (s\<lparr>ex_registry := (ex_registry s)
                                 \<lparr>lock_data := bt_insert i r (lock_data (ex_registry s))\<rparr>\<rparr>, Ok ())) s3) (\<lambda>_ s4.
         and_then (add_task_to_queue i s4) (\<lambda>_ s5. (s5, Ok (i, r))))))"

definition wake_by_id :: "nat \<Rightarrow> 'f executor \<Rightarrow> 'f executor \<times> (unit, bool) result" where
  "wake_by_id i =
     in_registry (\<lambda>s.
       case bt_get (lock_data (ex_registry s)) i of
         None \<Rightarrow> (s, Ok False)
       | Some r \<Rightarrow>
           and_then (in_metadata r (mark_woken r) s) (\<lambda>_ s.
           and_then (add_task_to_queue i s) (\<lambda>_ s. (s, Ok True))))"

definition unregister :: "nat \<Rightarrow> 'f executor \<Rightarrow> 'f executor \<times> (unit, unit) result" where
  "unregister i =
     in_registry (\<lambda>s.
       (s\<lparr>ex_registry := (ex_registry s)\<lparr>lock_data := bt_remove i (lock_data (ex_registry s))\<rparr>\<rparr>, Ok ()))"

text \<open>The decision whether a task that was taken from the queue is polled.\<close>

definition should_execute :: "nat \<Rightarrow> 'f executor \<Rightarrow> 'f executor \<times> (unit, bool) result" where
  "should_execute r =
     in_metadata r (\<lambda>s.
       if md_state (metadata_of s r) = Woken then (s, Ok True)
       else and_then (is_expired r (ex_timeout_ms s) s) (\<lambda>expired s.
              if expired then and_then (mark_woken r s) (\<lambda>_ s. (s, Ok True)) else (s, Ok False)))"

definition queue_pop :: "'f executor \<Rightarrow> 'f executor \<times> (unit, wrapper option) result" where
  "queue_pop =
     in_queue (\<lambda>s.
       case heap_pop (lock_data (ex_queue s)) of
         None \<Rightarrow> (s, Ok None)
       | Some (w, q) \<Rightarrow> (s\<lparr>ex_queue := (ex_queue s)\<lparr>lock_data := q\<rparr>\<rparr>, Ok (Some w)))"

definition process_one_task ::
  "('f \<Rightarrow> nat \<Rightarrow> 'f executor \<Rightarrow> 'f executor \<times> (unit, 'f \<times> bool) result) \<Rightarrow> 'f executor \<Rightarrow>
   'f executor \<times> (unit, bool) result"
where
  "process_one_task poll_future s0 =
     and_then (queue_pop s0) (\<lambda>popped s1.
       case popped of
         None \<Rightarrow> (s1, Ok False)
       | Some w \<Rightarrow>
           let r = pw_task w in
           and_then (task_id_of r s1) (\<lambda>i s2.
           and_then (is_completed r s2) (\<lambda>finished s3.
           if finished then and_then (unregister i s3) (\<lambda>_ s. (s, Ok True))
           else
             and_then (should_execute r s3) (\<lambda>execute s4.
             if \<not> execute then (s4, Ok True)
             else
               and_then (task_poll poll_future i r s4) (\<lambda>ready s5.
               if ready then and_then (unregister i s5) (\<lambda>_ s. (s, Ok True))
               else (s5, Ok True))))))"

definition wakeup_pop :: "'f executor \<Rightarrow> 'f executor \<times> (unit, nat option) result" where
  "wakeup_pop =
     in_wakeup_queue (\<lambda>s.
       case lock_data (GLOBAL_WAKEUP_QUEUE s) of
         [] \<Rightarrow> (s, Ok None)
       | i # rest \<Rightarrow>
           (s\<lparr>GLOBAL_WAKEUP_QUEUE := (GLOBAL_WAKEUP_QUEUE s)\<lparr>lock_data := rest\<rparr>\<rparr>, Ok (Some i)))"

definition wake_queued :: "nat \<Rightarrow> 'f executor \<Rightarrow> 'f executor \<times> (unit, unit) result" where
  "wake_queued i =
     in_registry (\<lambda>s.
       case bt_get (lock_data (ex_registry s)) i of
         None \<Rightarrow> (s, Ok ())
       | Some r \<Rightarrow> and_then (in_metadata r (mark_woken r) s) (\<lambda>_. push_wrapper r))"

text \<open>
  The loop drains the wakeup queue; nothing in its body refills it.  The number of rounds is the length
  of the queue at the start, and \<open>process_wake_queue_drains\<close> shows that it is enough.
\<close>

fun drain_wakeups :: "nat \<Rightarrow> 'f executor \<Rightarrow> 'f executor \<times> (unit, unit) result" where
  "drain_wakeups 0 s = (s, Ok ())"
| "drain_wakeups (Suc n) s =
     and_then (wakeup_pop s) (\<lambda>popped s.
       case popped of
         None \<Rightarrow> (s, Ok ())
       | Some i \<Rightarrow> and_then (wake_queued i s) (\<lambda>_. drain_wakeups n))"

definition process_wake_queue :: "'f executor \<Rightarrow> 'f executor \<times> (unit, unit) result" where
  "process_wake_queue s = drain_wakeups (Suc (length (lock_data (GLOBAL_WAKEUP_QUEUE s)))) s"

definition MAX_TASKS_PER_TICK :: nat where
  "MAX_TASKS_PER_TICK = 10"

fun process_tasks ::
  "('f \<Rightarrow> nat \<Rightarrow> 'f executor \<Rightarrow> 'f executor \<times> (unit, 'f \<times> bool) result) \<Rightarrow> nat \<Rightarrow> 'f executor \<Rightarrow>
   'f executor \<times> (unit, unit) result"
where
  "process_tasks poll_future 0 s = (s, Ok ())"
| "process_tasks poll_future (Suc n) s =
     and_then (process_one_task poll_future s) (\<lambda>processed s.
       if processed then process_tasks poll_future n s else (s, Ok ()))"

definition tick ::
  "('f \<Rightarrow> nat \<Rightarrow> 'f executor \<Rightarrow> 'f executor \<times> (unit, 'f \<times> bool) result) \<Rightarrow> 'f executor \<Rightarrow>
   'f executor \<times> (unit, unit) result"
where
  "tick poll_future s =
     and_then (process_wake_queue s) (\<lambda>_. process_tasks poll_future MAX_TASKS_PER_TICK)"

definition has_pending_tasks :: "'f executor \<Rightarrow> 'f executor \<times> (unit, bool) result" where
  "has_pending_tasks s0 =
     and_then (in_wakeup_queue (\<lambda>s. (s, Ok (lock_data (GLOBAL_WAKEUP_QUEUE s) \<noteq> []))) s0) (\<lambda>wakeups s1.
     if wakeups then (s1, Ok True)
     else and_then (in_queue (\<lambda>s. (s, Ok (lock_data (ex_queue s) \<noteq> []))) s1) (\<lambda>queued s2.
     if queued then (s2, Ok True)
     else in_registry (\<lambda>s. (s, Ok (lock_data (ex_registry s) \<noteq> []))) s2))"

definition set_running :: "bool \<Rightarrow> 'f executor \<Rightarrow> 'f executor \<times> (unit, unit) result" where
  "set_running b =
     in_lock ex_running ex_running_update (\<lambda>s. (s\<lparr>ex_running := (ex_running s)\<lparr>lock_data := b\<rparr>\<rparr>, Ok ()))"

text \<open>The loop of \<open>run_until_completion\<close>; it need not end, and then the value is \<open>None\<close>.\<close>

partial_function (option) run_loop ::
  "('f \<Rightarrow> nat \<Rightarrow> 'f executor \<Rightarrow> 'f executor \<times> (unit, 'f \<times> bool) result) \<Rightarrow> 'f executor \<Rightarrow>
   ('f executor \<times> (unit, unit) result) option"
where
  "run_loop poll_future s =
     (case has_pending_tasks s of
        (s1, Ok pending) \<Rightarrow>
          if pending then
            (case tick poll_future s1 of
               (s2, Ok _) \<Rightarrow> run_loop poll_future s2
             | (s2, Err e) \<Rightarrow> Some (s2, Err e)
             | (s2, Panic) \<Rightarrow> Some (s2, Panic))
          else Some (s1, Ok ())
      | (s1, Err e) \<Rightarrow> Some (s1, Err e)
      | (s1, Panic) \<Rightarrow> Some (s1, Panic))"

definition run_until_completion ::
  "('f \<Rightarrow> nat \<Rightarrow> 'f executor \<Rightarrow> 'f executor \<times> (unit, 'f \<times> bool) result) \<Rightarrow> 'f executor \<Rightarrow>
   ('f executor \<times> (unit, unit) result) option"
where
  "run_until_completion poll_future s =
     (case set_running True s of
        (s1, Ok _) \<Rightarrow>
          map_option (\<lambda>m. and_then m (\<lambda>_. set_running False)) (run_loop poll_future s1)
      | (s1, r) \<Rightarrow> Some (s1, r))"

definition executor_with_timeout :: "systick \<Rightarrow> (nat \<Rightarrow> 'f task_ref) \<Rightarrow> duration \<Rightarrow> 'f executor" where
  "executor_with_timeout hw heap timeout =
     \<lparr>ex_counter = 1, ex_tasks = heap, ex_next_ref = 0, GLOBAL_WAKEUP_QUEUE = spinlock_new [],
      ex_queue = spinlock_new [], ex_registry = spinlock_new [], ex_running = spinlock_new False,
      ex_timeout_ms = (dur_secs timeout * 1000 + dur_nanos timeout div 1000000) mod 2 ^ 64,
      ex_systick = hw\<rparr>"

definition block_on ::
  "('f \<Rightarrow> nat \<Rightarrow> 'f executor \<Rightarrow> 'f executor \<times> (unit, 'f \<times> bool) result) \<Rightarrow> 'f \<Rightarrow> 'f executor \<Rightarrow>
   ('f executor \<times> (unit, unit) result) option"
where
  "block_on poll_future fut s =
     (case spawn fut s of
        (s1, Ok _) \<Rightarrow> run_until_completion poll_future s1
      | (s1, Err e) \<Rightarrow> Some (s1, Err e)
      | (s1, Panic) \<Rightarrow> Some (s1, Panic))"

end
