(* ===== verification/Executor_Laws.thy ===== *)
theory Executor_Laws
  imports Executor
begin

text \<open>
  The operations of the executor on a state in which no lock is held: each of them is then a plain
  update of the state that releases every lock it took.
\<close>

section \<open>The invariant\<close>

definition task_free :: "'f executor \<Rightarrow> nat \<Rightarrow> bool" where
  "task_free s r \<longleftrightarrow>
     r < ex_next_ref s \<and>
     \<not> raw_locked (tr_metadata (ex_tasks s r)) \<and> \<not> raw_locked (tr_future (ex_tasks s r))"

definition ex_inv :: "'f executor \<Rightarrow> bool" where
  "ex_inv s \<longleftrightarrow>
     \<not> raw_locked (GLOBAL_WAKEUP_QUEUE s) \<and> \<not> raw_locked (ex_queue s) \<and>
     \<not> raw_locked (ex_registry s) \<and> \<not> raw_locked (ex_running s) \<and>
     0 < st_frequency (ex_systick s) \<and>
     bt_inv (lock_data (ex_registry s)) \<and> distinct (lock_data (GLOBAL_WAKEUP_QUEUE s)) \<and>
     (\<forall>r < ex_next_ref s. task_free s r) \<and>
     (\<forall>(i, r) \<in> set (lock_data (ex_registry s)). r < ex_next_ref s \<and> md_id (metadata_of s r) = i) \<and>
     (\<forall>w \<in> set (lock_data (ex_queue s)). pw_task w < ex_next_ref s)"

lemma ex_invD:
  assumes "ex_inv s"
  shows "\<not> raw_locked (GLOBAL_WAKEUP_QUEUE s)" "\<not> raw_locked (ex_queue s)"
    "\<not> raw_locked (ex_registry s)" "\<not> raw_locked (ex_running s)" "0 < st_frequency (ex_systick s)"
    "bt_inv (lock_data (ex_registry s))" "distinct (lock_data (GLOBAL_WAKEUP_QUEUE s))"
    and "\<And>r. r < ex_next_ref s \<Longrightarrow> task_free s r"
    and "\<And>i r. (i, r) \<in> set (lock_data (ex_registry s)) \<Longrightarrow> r < ex_next_ref s"
    and "\<And>i r. (i, r) \<in> set (lock_data (ex_registry s)) \<Longrightarrow> md_id (metadata_of s r) = i"
    and "\<And>w. w \<in> set (lock_data (ex_queue s)) \<Longrightarrow> pw_task w < ex_next_ref s"
  using assms unfolding ex_inv_def by auto

text \<open>A reading of the clock, in milliseconds; the clock moves on and nothing else changes.\<close>

definition next_reading :: "'f executor \<Rightarrow> 'f executor" where
  "next_reading s = s\<lparr>ex_systick := (ex_systick s)\<lparr>st_reads := Suc (st_reads (ex_systick s))\<rparr>\<rparr>"

definition clock_ms :: "'f executor \<Rightarrow> nat" where
  "clock_ms s =
     (let f = st_frequency (ex_systick s); t = st_clock (ex_systick s) (st_reads (ex_systick s))
      in (t div f * 1000 + (t mod f) * NANOS_PER_SEC div f div 1000000) mod 2 ^ 64)"

lemma now_ms_Ok:
  "0 < st_frequency (ex_systick s) \<Longrightarrow> now_ms s = (next_reading s, Ok (clock_ms s))"
  by (simp add: now_ms_def since_boot_def ticks_def ticks_to_duration_def next_reading_def clock_ms_def Let_def)

lemma next_reading_fields [simp]:
  "ex_next_ref (next_reading s) = ex_next_ref s" "ex_counter (next_reading s) = ex_counter s"
  "GLOBAL_WAKEUP_QUEUE (next_reading s) = GLOBAL_WAKEUP_QUEUE s" "ex_queue (next_reading s) = ex_queue s"
  "ex_registry (next_reading s) = ex_registry s" "ex_running (next_reading s) = ex_running s"
  "ex_tasks (next_reading s) = ex_tasks s" "ex_timeout_ms (next_reading s) = ex_timeout_ms s"
  "st_frequency (ex_systick (next_reading s)) = st_frequency (ex_systick s)"
  by (simp_all add: next_reading_def)

lemma in_lock_restore:
  "\<not> raw_locked l \<Longrightarrow> l\<lparr>raw_locked := False\<rparr> = l"
  by (cases l) simp

lemma set_task_same [simp]: "ex_tasks (set_task r f s) r = f (ex_tasks s r)"
  by (simp add: set_task_def)

lemma set_task_other [simp]: "q \<noteq> r \<Longrightarrow> ex_tasks (set_task r f s) q = ex_tasks s q"
  by (simp add: set_task_def)

lemma set_task_fields [simp]:
  "ex_next_ref (set_task r f s) = ex_next_ref s" "ex_counter (set_task r f s) = ex_counter s"
  "GLOBAL_WAKEUP_QUEUE (set_task r f s) = GLOBAL_WAKEUP_QUEUE s" "ex_queue (set_task r f s) = ex_queue s"
  "ex_registry (set_task r f s) = ex_registry s" "ex_running (set_task r f s) = ex_running s"
  "ex_systick (set_task r f s) = ex_systick s" "ex_timeout_ms (set_task r f s) = ex_timeout_ms s"
  by (simp_all add: set_task_def)

lemma set_task_set_task [simp]: "set_task r f (set_task r g s) = set_task r (\<lambda>t. f (g t)) s"
  by (simp add: set_task_def)

lemma set_task_id: "f (ex_tasks s r) = ex_tasks s r \<Longrightarrow> set_task r f s = s"
  by (cases s) (simp add: set_task_def fun_upd_idem)

lemma set_task_cong: "f (ex_tasks s r) = g (ex_tasks s r) \<Longrightarrow> set_task r f s = set_task r g s"
  by (simp add: set_task_def)

text \<open>Reading one field of the metadata.\<close>

lemma read_metadata:
  assumes "task_free s r"
  shows "in_metadata r (\<lambda>s. (s, Ok (g (metadata_of s r)))) s = (s, Ok (g (metadata_of s r)))"
proof -
  have "set_task r (\<lambda>t. t\<lparr>tr_metadata := tr_metadata t\<lparr>raw_locked := False\<rparr>\<rparr>) s = s"
    using assms by (intro set_task_id) (simp add: task_free_def in_lock_restore)
  then show ?thesis using assms by (simp add: task_free_def)
qed

lemma task_reads [simp]:
  assumes "task_free s r"
  shows "task_id_of r s = (s, Ok (md_id (metadata_of s r)))"
    "is_completed r s = (s, Ok (md_state (metadata_of s r) = Completed))"
    "priority_of r s = (s, Ok (task_priority_new (metadata_of s r)))"
  unfolding task_id_of_def is_completed_def priority_of_def
  using read_metadata [OF assms, of md_id] read_metadata [OF assms, of task_priority_new]
    read_metadata [OF assms, of "\<lambda>d. md_state d = Completed"] by simp_all

definition woken_metadata :: "'f executor \<Rightarrow> nat \<Rightarrow> task_metadata" where
  "woken_metadata s r = (metadata_of s r)\<lparr>md_last_wake_at := clock_ms s, md_state := Woken\<rparr>"

lemma mark_woken_Ok:
  "0 < st_frequency (ex_systick s) \<Longrightarrow>
   mark_woken r s = (set_metadata r (woken_metadata s r) (next_reading s), Ok ())"
  by (simp add: mark_woken_def now_ms_Ok woken_metadata_def)

lemma set_task_unlock:
  assumes "\<not> raw_locked (tr_metadata (ex_tasks s r))"
  shows "set_task r (\<lambda>t. t\<lparr>tr_metadata := (tr_metadata t)\<lparr>raw_locked := False\<rparr>\<rparr>)
           (set_metadata r d (set_task r (\<lambda>t. t\<lparr>tr_metadata := (tr_metadata t)\<lparr>raw_locked := True\<rparr>\<rparr>) s)) =
         set_metadata r d s"
proof -
  obtain l f where "ex_tasks s r = \<lparr>tr_metadata = l, tr_future = f\<rparr>" by (cases "ex_tasks s r") auto
  moreover obtain d0 where "l = \<lparr>raw_locked = False, lock_data = d0\<rparr>"
    using assms calculation by (cases l) auto
  ultimately show ?thesis unfolding set_metadata_def set_task_set_task by (intro set_task_cong) simp
qed

lemma next_reading_set_task: "next_reading (set_task r f s) = set_task r f (next_reading s)"
  by (simp add: next_reading_def set_task_def)

lemma clock_ms_set_task [simp]: "clock_ms (set_task r f s) = clock_ms s"
  by (simp add: clock_ms_def)

lemma in_metadata_mark_woken:
  assumes "task_free s r" "0 < st_frequency (ex_systick s)"
  shows "in_metadata r (mark_woken r) s = (set_metadata r (woken_metadata s r) (next_reading s), Ok ())"
proof -
  have free: "\<not> raw_locked (tr_metadata (ex_tasks s r))" using assms(1) by (simp add: task_free_def)
  let ?s = "set_task r (\<lambda>t. t\<lparr>tr_metadata := (tr_metadata t)\<lparr>raw_locked := True\<rparr>\<rparr>) s"
  have "woken_metadata ?s r = woken_metadata s r" by (simp add: woken_metadata_def)
  then have "mark_woken r ?s = (set_metadata r (woken_metadata s r)
      (set_task r (\<lambda>t. t\<lparr>tr_metadata := (tr_metadata t)\<lparr>raw_locked := True\<rparr>\<rparr>) (next_reading s)), Ok ())"
    using mark_woken_Ok [of ?s r] assms(2) by (simp add: next_reading_set_task)
  then show ?thesis using free set_task_unlock [of "next_reading s" r] by simp
qed

section \<open>Waking tasks\<close>

text \<open>What a wakeup does to the state of a registered task: it is marked and gets an entry in the queue.\<close>

definition queue_entry :: "'f executor \<Rightarrow> nat \<Rightarrow> wrapper" where
  "queue_entry s r = \<lparr>pw_priority = task_priority_new (metadata_of s r), pw_task = r\<rparr>"

definition push_entry :: "nat \<Rightarrow> 'f executor \<Rightarrow> 'f executor" where
  "push_entry r s = s\<lparr>ex_queue := (ex_queue s)\<lparr>lock_data := lock_data (ex_queue s) @ [queue_entry s r]\<rparr>\<rparr>"

definition woken_task :: "nat \<Rightarrow> 'f executor \<Rightarrow> 'f executor" where
  "woken_task r s = push_entry r (set_metadata r (woken_metadata s r) (next_reading s))"

lemma push_wrapper_Ok:
  assumes "task_free s r" "\<not> raw_locked (ex_queue s)"
  shows "push_wrapper r s = (push_entry r s, Ok ())"
  using assms by (cases s, cases "ex_queue s") (simp add: push_wrapper_def push_entry_def queue_entry_def task_free_def)

text \<open>A block that holds the lock of the registry and does not change the registry.\<close>

lemma task_free_registry [simp]: "task_free (ex_registry_update g s) r = task_free s r"
  by (simp add: task_free_def)

lemma task_free_set_metadata [simp]:
  "task_free (set_metadata q d s) r = task_free s r" "task_free (next_reading s) r = task_free s r"
  by (cases "q = r"; simp add: task_free_def set_metadata_def)+

lemma set_metadata_fields [simp]:
  "ex_next_ref (set_metadata r d s) = ex_next_ref s" "ex_counter (set_metadata r d s) = ex_counter s"
  "GLOBAL_WAKEUP_QUEUE (set_metadata r d s) = GLOBAL_WAKEUP_QUEUE s" "ex_queue (set_metadata r d s) = ex_queue s"
  "ex_registry (set_metadata r d s) = ex_registry s" "ex_running (set_metadata r d s) = ex_running s"
  "ex_systick (set_metadata r d s) = ex_systick s" "ex_timeout_ms (set_metadata r d s) = ex_timeout_ms s"
  "metadata_of (set_metadata r d s) q = (if q = r then d else metadata_of s q)"
  "tr_future (ex_tasks (set_metadata r d s) q) = tr_future (ex_tasks s q)"
  "raw_locked (tr_metadata (ex_tasks (set_metadata r d s) q)) = raw_locked (tr_metadata (ex_tasks s q))"
  by (simp_all add: set_metadata_def) (cases "q = r"; simp)+

lemma wake_steps_registry:
  "woken_task r (ex_registry_update g s) = ex_registry_update g (woken_task r s)"
  by (simp add: woken_task_def push_entry_def queue_entry_def set_metadata_def set_task_def next_reading_def
      woken_metadata_def clock_ms_def)

lemma woken_task_fields [simp]:
  "ex_next_ref (woken_task r s) = ex_next_ref s" "ex_counter (woken_task r s) = ex_counter s"
  "GLOBAL_WAKEUP_QUEUE (woken_task r s) = GLOBAL_WAKEUP_QUEUE s"
  "ex_registry (woken_task r s) = ex_registry s" "ex_running (woken_task r s) = ex_running s"
  "st_frequency (ex_systick (woken_task r s)) = st_frequency (ex_systick s)"
  "raw_locked (ex_queue (woken_task r s)) = raw_locked (ex_queue s)"
  "task_free (woken_task r s) q = task_free s q"
  by (simp_all add: woken_task_def push_entry_def task_free_def)

lemma woken_task_queue:
  "lock_data (ex_queue (woken_task r s)) =
     lock_data (ex_queue s) @ [\<lparr>pw_priority = task_priority_new (woken_metadata s r), pw_task = r\<rparr>]"
  by (simp add: woken_task_def push_entry_def queue_entry_def)

lemma woken_task_metadata:
  "metadata_of (woken_task r s) q = (if q = r then woken_metadata s r else metadata_of s q)"
  by (simp add: woken_task_def push_entry_def)

lemma woken_priority [simp]:
  "tp_is_woken (task_priority_new (woken_metadata s r))" "md_state (woken_metadata s r) = Woken"
  "md_id (woken_metadata s r) = md_id (metadata_of s r)"
  by (simp_all add: task_priority_new_def woken_metadata_def)

lemma ex_inv_woken_task: "ex_inv s \<Longrightarrow> r < ex_next_ref s \<Longrightarrow> ex_inv (woken_task r s)"
  unfolding ex_inv_def by (auto simp: woken_task_queue woken_task_metadata)

lemma registry_restore [simp]:
  "\<not> raw_locked (ex_registry s) \<Longrightarrow>
   ex_registry_update (raw_locked_update (\<lambda>_. False)) (ex_registry_update (raw_locked_update (\<lambda>_. True)) s) = s"
  by (cases s, cases "ex_registry s") simp

lemma wake_queued_Ok:
  assumes "ex_inv s"
  shows "wake_queued i s =
     (case bt_get (lock_data (ex_registry s)) i of None \<Rightarrow> (s, Ok ()) | Some r \<Rightarrow> (woken_task r s, Ok ()))"
proof (cases "bt_get (lock_data (ex_registry s)) i")
  case None
  then show ?thesis using ex_invD(3) [OF assms]
    by (simp add: wake_queued_def)
next
  case (Some r)
  note e = ex_invD [OF assms]
  have "(i, r) \<in> set (lock_data (ex_registry s))" using Some e(6) by (simp add: bt_get_iff)
  then have free: "task_free s r" using e(8,9) by blast
  let ?s = "ex_registry_update (raw_locked_update (\<lambda>_. True)) s"
  have mark: "in_metadata r (mark_woken r) ?s = (set_metadata r (woken_metadata ?s r) (next_reading ?s), Ok ())"
    using free e(5) by (intro in_metadata_mark_woken) simp_all
  have push: "push_wrapper r (set_metadata r (woken_metadata ?s r) (next_reading ?s)) = (woken_task r ?s, Ok ())"
    unfolding woken_task_def using free e(2) by (intro push_wrapper_Ok) simp_all
  have "wake_queued i s = and_then (and_then (in_metadata r (mark_woken r) ?s) (\<lambda>_. push_wrapper r))
      (\<lambda>r s. (ex_registry_update (raw_locked_update (\<lambda>_. False)) s, Ok r))"
    using Some e(3) by (simp add: wake_queued_def)
  also have "\<dots> = (ex_registry_update (raw_locked_update (\<lambda>_. False)) (woken_task r ?s), Ok ())"
    unfolding mark using push by simp
  also have "\<dots> = (woken_task r s, Ok ())"
    unfolding wake_steps_registry by (subst registry_restore) (simp_all add: e(3))
  finally show ?thesis using Some by simp
qed

text \<open>Draining the wakeup queue wakes the registered tasks in the order of the queue.\<close>

definition wake_one :: "nat \<Rightarrow> 'f executor \<Rightarrow> 'f executor" where
  "wake_one i s =
     (case bt_get (lock_data (ex_registry s)) i of None \<Rightarrow> s | Some r \<Rightarrow> woken_task r s)"

lemma ex_inv_wake_one: "ex_inv s \<Longrightarrow> ex_inv (wake_one i s)"
  using ex_invD(6,9) [of s] by (auto simp: wake_one_def bt_get_iff intro!: ex_inv_woken_task split: option.split)

lemma wake_one_fields [simp]:
  "ex_registry (wake_one i s) = ex_registry s" "GLOBAL_WAKEUP_QUEUE (wake_one i s) = GLOBAL_WAKEUP_QUEUE s"
  "ex_next_ref (wake_one i s) = ex_next_ref s"
  by (simp_all add: wake_one_def split: option.split)

lemma ex_inv_set_wakeups:
  "ex_inv s \<Longrightarrow> distinct is \<Longrightarrow> ex_inv (s\<lparr>GLOBAL_WAKEUP_QUEUE := (GLOBAL_WAKEUP_QUEUE s)\<lparr>lock_data := is\<rparr>\<rparr>)"
  unfolding ex_inv_def task_free_def by simp

lemma drain_wakeups_Ok:
  assumes "ex_inv s" "length (lock_data (GLOBAL_WAKEUP_QUEUE s)) < n"
  shows "drain_wakeups n s =
     (fold wake_one (lock_data (GLOBAL_WAKEUP_QUEUE s))
        (s\<lparr>GLOBAL_WAKEUP_QUEUE := (GLOBAL_WAKEUP_QUEUE s)\<lparr>lock_data := []\<rparr>\<rparr>), Ok ())"
  using assms
proof (induction n arbitrary: s)
  case (Suc n)
  note e = ex_invD [OF Suc.prems(1)]
  obtain G where G: "GLOBAL_WAKEUP_QUEUE s = \<lparr>raw_locked = False, lock_data = G\<rparr>"
    using e(1) by (cases "GLOBAL_WAKEUP_QUEUE s") auto
  show ?case
  proof (cases G)
    case Nil
    then show ?thesis using G by (cases s) (simp add: wakeup_pop_def)
  next
    case (Cons i rest)
    let ?s = "s\<lparr>GLOBAL_WAKEUP_QUEUE := \<lparr>raw_locked = False, lock_data = rest\<rparr>\<rparr>"
    have inv: "ex_inv ?s" using ex_inv_set_wakeups [OF Suc.prems(1), of rest] e(7) G Cons by simp
    have pop: "wakeup_pop s = (?s, Ok (Some i))" using G Cons by (simp add: wakeup_pop_def)
    have wake: "wake_queued i ?s = (wake_one i ?s, Ok ())"
      using wake_queued_Ok [OF inv, of i] by (simp add: wake_one_def split: option.splits)
    have "drain_wakeups n (wake_one i ?s) = (fold wake_one rest
        ((wake_one i ?s)\<lparr>GLOBAL_WAKEUP_QUEUE := \<lparr>raw_locked = False, lock_data = []\<rparr>\<rparr>), Ok ())"
      using Suc.IH [OF ex_inv_wake_one [OF inv, of i]] Suc.prems(2) G Cons by simp
    moreover have "(wake_one i ?s)\<lparr>GLOBAL_WAKEUP_QUEUE := \<lparr>raw_locked = False, lock_data = []\<rparr>\<rparr> =
        wake_one i (s\<lparr>GLOBAL_WAKEUP_QUEUE := \<lparr>raw_locked = False, lock_data = []\<rparr>\<rparr>)"
      by (simp add: wake_one_def woken_task_def push_entry_def queue_entry_def set_metadata_def set_task_def
          next_reading_def woken_metadata_def clock_ms_def split: option.split)
    ultimately show ?thesis using pop wake G Cons by simp
  qed
qed simp

lemma process_wake_queue_Ok:
  "ex_inv s \<Longrightarrow> process_wake_queue s =
     (fold wake_one (lock_data (GLOBAL_WAKEUP_QUEUE s))
        (s\<lparr>GLOBAL_WAKEUP_QUEUE := (GLOBAL_WAKEUP_QUEUE s)\<lparr>lock_data := []\<rparr>\<rparr>), Ok ())"
  unfolding process_wake_queue_def by (rule drain_wakeups_Ok) simp_all

text \<open>A task that is marked and queued stays so while other tasks are woken.\<close>

definition ready_to_run :: "'f executor \<Rightarrow> nat \<Rightarrow> bool" where
  "ready_to_run s r \<longleftrightarrow>
     md_state (metadata_of s r) = Woken \<and>
     (\<exists>w \<in> set (lock_data (ex_queue s)). pw_task w = r \<and> tp_is_woken (pw_priority w))"

lemma ready_to_run_woken: "ready_to_run (woken_task r s) r"
  by (simp add: ready_to_run_def woken_task_queue woken_task_metadata)

lemma ready_to_run_wake_one: "ready_to_run s r \<Longrightarrow> ready_to_run (wake_one i s) r"
  by (auto simp: ready_to_run_def wake_one_def woken_task_queue woken_task_metadata split: option.split)

lemma fold_wake_one:
  fixes ids :: "nat list"
  assumes "ex_inv s"
  defines "s' \<equiv> fold wake_one ids s"
  shows "ex_inv s'" "ex_registry s' = ex_registry s" "GLOBAL_WAKEUP_QUEUE s' = GLOBAL_WAKEUP_QUEUE s"
    and "\<And>r. ready_to_run s r \<Longrightarrow> ready_to_run s' r"
    and "\<And>i r. i \<in> set ids \<Longrightarrow> bt_get (lock_data (ex_registry s)) i = Some r \<Longrightarrow> ready_to_run s' r"
proof -
  have "ex_inv (fold wake_one ids s) \<and> ex_registry (fold wake_one ids s) = ex_registry s \<and>
      GLOBAL_WAKEUP_QUEUE (fold wake_one ids s) = GLOBAL_WAKEUP_QUEUE s"
    using assms(1) by (induction ids arbitrary: s) (simp_all add: ex_inv_wake_one)
  then show "ex_inv s'" "ex_registry s' = ex_registry s" "GLOBAL_WAKEUP_QUEUE s' = GLOBAL_WAKEUP_QUEUE s"
    by (simp_all add: s'_def)
  have keep: "ready_to_run s r \<Longrightarrow> ready_to_run (fold wake_one ids s) r" for s :: "'a executor" and ids r
    by (induction ids arbitrary: s) (simp_all add: ready_to_run_wake_one)
  then show "\<And>r. ready_to_run s r \<Longrightarrow> ready_to_run s' r" by (simp add: s'_def)
  have "i \<in> set ids \<Longrightarrow> bt_get (lock_data (ex_registry s)) i = Some r \<Longrightarrow>
      ready_to_run (fold wake_one ids s) r" for i r and s :: "'a executor"
  proof (induction ids arbitrary: s)
    case (Cons j ids)
    show ?case
    proof (cases "i = j")
      case True
      then have "wake_one j s = woken_task r s" using Cons.prems(2) by (simp add: wake_one_def)
      then show ?thesis using keep [of "wake_one j s" r ids] ready_to_run_woken [of r s] by simp
    next
      case False
      then show ?thesis using Cons.IH [of "wake_one j s"] Cons.prems by simp
    qed
  qed simp
  then show "\<And>i r. i \<in> set ids \<Longrightarrow> bt_get (lock_data (ex_registry s)) i = Some r \<Longrightarrow> ready_to_run s' r"
    by (simp add: s'_def)
qed

end
