(* ===== verification/Executor_Run.thy ===== *)
theory Executor_Run
  imports Executor_Laws
begin

text \<open>
  Polling: one round of \<open>process_one_task\<close> on a woken task, and the loop of \<open>run_until_completion\<close> for a
  future that wakes itself until it is ready.
\<close>

section \<open>Polling one task\<close>

text \<open>
  A poll whose effect on the executor is \<open>h\<close>, a step that neither reads nor writes the tasks (such as
  putting an identifier in the wakeup queue), and whose result is the new future and its readiness.
\<close>

definition polls_as ::
  "('f \<Rightarrow> nat \<Rightarrow> 'f executor \<Rightarrow> 'f executor \<times> (unit, 'f \<times> bool) result) \<Rightarrow> 'f \<Rightarrow> nat \<Rightarrow>
   ('f executor \<Rightarrow> 'f executor) \<Rightarrow> 'f \<Rightarrow> bool \<Rightarrow> bool"
where
  "polls_as poll_future f i h f' ready \<longleftrightarrow>
     (\<forall>s. \<not> raw_locked (GLOBAL_WAKEUP_QUEUE s) \<longrightarrow> poll_future f i s = (h s, Ok (f', ready))) \<and>
     (\<forall>r g s. h (set_task r g s) = set_task r g (h s)) \<and> (\<forall>s. ex_tasks (h s) = ex_tasks s)"

definition polled_metadata :: "'f executor \<Rightarrow> nat \<Rightarrow> bool \<Rightarrow> task_metadata" where
  "polled_metadata s r ready =
     (metadata_of s r)\<lparr>md_last_run_at := Some (clock_ms s), md_run_count := md_run_count (metadata_of s r) + 1,
                        md_state := (if ready then Completed else Pending)\<rparr>"

definition polled :: "nat \<Rightarrow> 'f \<Rightarrow> bool \<Rightarrow> 'f executor \<Rightarrow> 'f executor" where
  "polled r f ready s =
     set_task r (\<lambda>t. t\<lparr>tr_metadata := (tr_metadata t)\<lparr>lock_data := polled_metadata s r ready\<rparr>,
                      tr_future := (tr_future t)\<lparr>lock_data := f\<rparr>\<rparr>) (next_reading s)"

lemma task_poll_Ok:
  assumes free: "task_free s r" and freq: "0 < st_frequency (ex_systick s)"
    and queue: "\<not> raw_locked (GLOBAL_WAKEUP_QUEUE s)"
    and state: "md_state (metadata_of s r) \<noteq> Completed" "md_run_count (metadata_of s r) < U64_MAX"
    and poll: "polls_as poll_future (lock_data (tr_future (ex_tasks s r))) i h f' ready"
  shows "task_poll poll_future i r s = (h (polled r f' ready s), Ok ready)"
proof -
  obtain d f where t: "ex_tasks s r =
      \<lparr>tr_metadata = \<lparr>raw_locked = False, lock_data = d\<rparr>, tr_future = \<lparr>raw_locked = False, lock_data = f\<rparr>\<rparr>"
    using free by (cases "ex_tasks s r", cases "tr_metadata (ex_tasks s r)", cases "tr_future (ex_tasks s r)")
      (auto simp: task_free_def)
  note p = poll [unfolded polls_as_def]
  have h: "h (set_task r g x) = set_task r g (h x)" "ex_tasks (h x) = ex_tasks x" for g x
    using p by auto
  have pf: "poll_future f i x = (h x, Ok (f', ready))" if "\<not> raw_locked (GLOBAL_WAKEUP_QUEUE x)" for x
    using p that t by simp
  let ?lock = "set_task r (\<lambda>t. t\<lparr>tr_metadata := (tr_metadata t)\<lparr>raw_locked := True\<rparr>\<rparr>) s"
  have upd: "update_execution r ?lock = (set_metadata r (d\<lparr>md_last_run_at := Some (clock_ms s),
      md_run_count := md_run_count d + 1, md_state := Running\<rparr>) (next_reading ?lock), Ok ())"
    using state(2) freq t by (simp add: update_execution_def now_ms_Ok Let_def)
  show ?thesis
    unfolding task_poll_def using t state(1) queue
    by (simp add: upd pf next_reading_set_task set_metadata_def h polled_def polled_metadata_def Let_def)
       (auto intro!: set_task_cong simp: h t)
qed

lemma polled_fields [simp]:
  "ex_next_ref (polled r f b s) = ex_next_ref s" "GLOBAL_WAKEUP_QUEUE (polled r f b s) = GLOBAL_WAKEUP_QUEUE s"
  "ex_queue (polled r f b s) = ex_queue s" "ex_registry (polled r f b s) = ex_registry s"
  "ex_running (polled r f b s) = ex_running s" "ex_counter (polled r f b s) = ex_counter s"
  "st_frequency (ex_systick (polled r f b s)) = st_frequency (ex_systick s)"
  "task_free (polled r f b s) q = task_free s q"
  "metadata_of (polled r f b s) q = (if q = r then polled_metadata s r b else metadata_of s q)"
  "lock_data (tr_future (ex_tasks (polled r f b s) q)) =
     (if q = r then f else lock_data (tr_future (ex_tasks s q)))"
  by (auto simp: polled_def task_free_def) (cases "q = r"; simp)+

lemma polled_metadata_fields [simp]:
  "md_id (polled_metadata s r b) = md_id (metadata_of s r)"
  "md_state (polled_metadata s r b) = (if b then Completed else Pending)"
  "md_run_count (polled_metadata s r b) = md_run_count (metadata_of s r) + 1"
  by (simp_all add: polled_metadata_def)

text \<open>The entry that is taken from the queue has the least priority value of all entries.\<close>

lemma heap_pop_Some:
  assumes "heap_pop q = Some (w, q')"
  shows "w \<in> set q" "q' = remove1 w q" "\<forall>x \<in> set q. pw_priority w \<le> pw_priority x"
  using assms by (auto simp: heap_pop_def wrapper_le_def list_all_iff dest!: find_SomeD)

lemma heap_pop_Nil [simp]: "heap_pop [] = None"
  by (simp add: heap_pop_def)

lemma heap_pop_nonempty:
  assumes "q \<noteq> []" shows "heap_pop q \<noteq> None"
proof -
  have "Min (pw_priority ` set q) \<in> pw_priority ` set q" using assms by (intro Min_in) auto
  then obtain x where "x \<in> set q" "pw_priority x = Min (pw_priority ` set q)" by auto
  then have "\<exists>x. x \<in> set q \<and> list_all (\<lambda>y. wrapper_le y x) q"
    by (auto simp: wrapper_le_def list_all_iff)
  then show ?thesis by (auto simp: heap_pop_def find_None_iff)
qed

definition popped :: "wrapper list \<Rightarrow> 'f executor \<Rightarrow> 'f executor" where
  "popped q s = s\<lparr>ex_queue := (ex_queue s)\<lparr>lock_data := q\<rparr>\<rparr>"

definition unregistered :: "nat \<Rightarrow> 'f executor \<Rightarrow> 'f executor" where
  "unregistered i s = s\<lparr>ex_registry := (ex_registry s)\<lparr>lock_data := bt_remove i (lock_data (ex_registry s))\<rparr>\<rparr>"

lemma queue_pop_Ok:
  assumes "\<not> raw_locked (ex_queue s)"
  shows "queue_pop s =
     (case heap_pop (lock_data (ex_queue s)) of
        None \<Rightarrow> (s, Ok None) | Some (w, q) \<Rightarrow> (popped q s, Ok (Some w)))"
  using assms by (cases s, cases "ex_queue s") (auto simp: queue_pop_def popped_def split: option.splits)

lemma unregister_Ok: "\<not> raw_locked (ex_registry s) \<Longrightarrow> unregister i s = (unregistered i s, Ok ())"
  by (cases s, cases "ex_registry s") (simp add: unregister_def unregistered_def)

lemma should_execute_woken:
  assumes "task_free s r" "md_state (metadata_of s r) = Woken"
  shows "should_execute r s = (s, Ok True)"
proof -
  have "set_task r (\<lambda>t. t\<lparr>tr_metadata := tr_metadata t\<lparr>raw_locked := False\<rparr>\<rparr>) s = s"
    using assms by (intro set_task_id) (simp add: task_free_def in_lock_restore)
  then show ?thesis using assms by (simp add: should_execute_def task_free_def)
qed

lemma popped_fields [simp]:
  "ex_next_ref (popped q s) = ex_next_ref s" "GLOBAL_WAKEUP_QUEUE (popped q s) = GLOBAL_WAKEUP_QUEUE s"
  "lock_data (ex_queue (popped q s)) = q" "raw_locked (ex_queue (popped q s)) = raw_locked (ex_queue s)"
  "ex_registry (popped q s) = ex_registry s" "ex_running (popped q s) = ex_running s"
  "ex_tasks (popped q s) = ex_tasks s" "ex_systick (popped q s) = ex_systick s"
  "task_free (popped q s) r = task_free s r"
  by (simp_all add: popped_def task_free_def)

text \<open>
  A woken task whose entry is taken from the queue is polled once; a ready task is completed and leaves
  the registry, a pending one stays registered and is in no queue unless the poll put it there.
\<close>

lemma process_one_task_polls:
  assumes inv: "ex_inv s" and pop: "heap_pop (lock_data (ex_queue s)) = Some (w, q)"
    and state: "md_state (metadata_of s (pw_task w)) = Woken"
      "md_run_count (metadata_of s (pw_task w)) < U64_MAX"
    and poll: "polls_as poll_future (lock_data (tr_future (ex_tasks s (pw_task w))))
                 (md_id (metadata_of s (pw_task w))) h f' ready"
    and free: "\<And>s. raw_locked (ex_registry (h s)) = raw_locked (ex_registry s)"
  shows "process_one_task poll_future s =
     (let s' = h (polled (pw_task w) f' ready (popped q s))
      in (if ready then unregistered (md_id (metadata_of s (pw_task w))) s' else s', Ok True))"
proof -
  note e = ex_invD [OF inv]
  have r: "task_free s (pw_task w)" using e(8,11) heap_pop_Some(1) [OF pop] by blast
  have "task_poll poll_future (md_id (metadata_of s (pw_task w))) (pw_task w) (popped q s) =
      (h (polled (pw_task w) f' ready (popped q s)), Ok ready)"
    using r e(1,5) state poll by (intro task_poll_Ok) simp_all
  then show ?thesis
    using r e(2,3) state(1) pop free
    by (simp add: process_one_task_def queue_pop_Ok Let_def should_execute_woken unregister_Ok)
qed

lemma process_one_task_empty:
  assumes "ex_inv s" "lock_data (ex_queue s) = []"
  shows "process_one_task poll_future s = (s, Ok False)"
  using ex_invD(2) [OF assms(1)] assms(2) by (simp add: process_one_task_def queue_pop_Ok)

section \<open>Running a task to its end\<close>

definition enqueued :: "nat \<Rightarrow> 'f executor \<Rightarrow> 'f executor" where
  "enqueued i s =
     (if i \<in> set (lock_data (GLOBAL_WAKEUP_QUEUE s)) then s
      else s\<lparr>GLOBAL_WAKEUP_QUEUE := (GLOBAL_WAKEUP_QUEUE s)
               \<lparr>lock_data := lock_data (GLOBAL_WAKEUP_QUEUE s) @ [i]\<rparr>\<rparr>)"

lemma enqueue_task_wakeup_Ok:
  "\<not> raw_locked (GLOBAL_WAKEUP_QUEUE s) \<Longrightarrow> enqueue_task_wakeup i s = (enqueued i s, Ok ())"
  by (cases s, cases "GLOBAL_WAKEUP_QUEUE s") (simp add: enqueue_task_wakeup_def enqueued_def)

text \<open>
  A future that is ready, or wakes itself and comes closer to being ready: \<open>left\<close> counts the polls that it
  still answers with \<open>Pending\<close>.
\<close>

definition self_waking ::
  "('f \<Rightarrow> nat \<Rightarrow> 'f executor \<Rightarrow> 'f executor \<times> (unit, 'f \<times> bool) result) \<Rightarrow> ('f \<Rightarrow> nat) \<Rightarrow> bool"
where
  "self_waking poll_future left \<longleftrightarrow>
     (\<forall>f i. if left f = 0 then \<exists>f'. \<forall>s. poll_future f i s = (s, Ok (f', True))
            else \<exists>f'. left f' < left f \<and>
                   (\<forall>s. poll_future f i s = and_then (enqueue_task_wakeup i s) (\<lambda>_ s. (s, Ok (f', False)))))"

lemma self_waking_ready:
  assumes "self_waking poll_future left" "left f = 0"
  obtains f' where "polls_as poll_future f i (\<lambda>s. s) f' True"
  using assms unfolding self_waking_def polls_as_def by (metis (full_types))

lemma self_waking_pending:
  assumes "self_waking poll_future left" "left f \<noteq> 0"
  obtains f' where "left f' < left f" "polls_as poll_future f i (enqueued i) f' False"
proof -
  obtain f' where f': "left f' < left f"
      "\<And>s. poll_future f i s = and_then (enqueue_task_wakeup i s) (\<lambda>_ s. (s, Ok (f', False)))"
    using assms unfolding self_waking_def by metis
  have "polls_as poll_future f i (enqueued i) f' False"
    unfolding polls_as_def
    by (auto simp: f'(2) enqueue_task_wakeup_Ok enqueued_def set_task_def)
  with f'(1) show thesis by (rule that)
qed

lemma ex_inv_polled: "ex_inv s \<Longrightarrow> ex_inv (polled r f b s)"
  unfolding ex_inv_def by auto

lemma ex_inv_popped: "ex_inv s \<Longrightarrow> set q \<subseteq> set (lock_data (ex_queue s)) \<Longrightarrow> ex_inv (popped q s)"
  unfolding ex_inv_def by auto

lemma ex_inv_enqueued: "ex_inv s \<Longrightarrow> ex_inv (enqueued i s)"
  unfolding ex_inv_def enqueued_def task_free_def by auto

lemma ex_inv_unregistered: "ex_inv s \<Longrightarrow> ex_inv (unregistered i s)"
  unfolding ex_inv_def unregistered_def task_free_def by auto

lemma enqueued_fields [simp]:
  "ex_registry (enqueued i s) = ex_registry s" "ex_queue (enqueued i s) = ex_queue s"
  "ex_tasks (enqueued i s) = ex_tasks s" "ex_running (enqueued i s) = ex_running s"
  "ex_next_ref (enqueued i s) = ex_next_ref s"
  by (simp_all add: enqueued_def)

definition polls_left :: "('f \<Rightarrow> nat) \<Rightarrow> 'f executor \<Rightarrow> nat \<Rightarrow> nat" where
  "polls_left left s r = left (lock_data (tr_future (ex_tasks s r)))"

text \<open>One registered task that is queued, or one whose wakeup is waiting in the wakeup queue.\<close>

definition only_task :: "('f \<Rightarrow> nat) \<Rightarrow> 'f executor \<Rightarrow> nat \<Rightarrow> nat \<Rightarrow> bool" where
  "only_task left s i r \<longleftrightarrow>
     ex_inv s \<and> lock_data (ex_registry s) = [(i, r)] \<and>
     md_run_count (metadata_of s r) + polls_left left s r < U64_MAX \<and>
     (md_state (metadata_of s r) = Woken \<and> lock_data (GLOBAL_WAKEUP_QUEUE s) = [] \<and>
        (\<exists>w. lock_data (ex_queue s) = [w] \<and> pw_task w = r) \<or>
      lock_data (GLOBAL_WAKEUP_QUEUE s) = [i] \<and> lock_data (ex_queue s) = [])"

definition finished :: "'f executor \<Rightarrow> bool" where
  "finished s \<longleftrightarrow>
     ex_inv s \<and> lock_data (ex_registry s) = [] \<and> lock_data (GLOBAL_WAKEUP_QUEUE s) = [] \<and>
     lock_data (ex_queue s) = []"

lemma only_task_woken:
  assumes "only_task left s i r"
  obtains s' w where "process_wake_queue s = (s', Ok ())" "ex_inv s'" "ex_registry s' = ex_registry s"
    "lock_data (GLOBAL_WAKEUP_QUEUE s') = []" "lock_data (ex_queue s') = [w]" "pw_task w = r"
    "md_state (metadata_of s' r) = Woken" "polls_left left s' r = polls_left left s r"
    "md_run_count (metadata_of s' r) = md_run_count (metadata_of s r)"
proof -
  note o = assms [unfolded only_task_def]
  then have inv: "ex_inv s" by blast
  let ?s = "s\<lparr>GLOBAL_WAKEUP_QUEUE := (GLOBAL_WAKEUP_QUEUE s)\<lparr>lock_data := []\<rparr>\<rparr>"
  note pw = process_wake_queue_Ok [OF inv]
  from o consider (queued) w where "md_state (metadata_of s r) = Woken" "lock_data (GLOBAL_WAKEUP_QUEUE s) = []"
      "lock_data (ex_queue s) = [w]" "pw_task w = r"
    | (waiting) "lock_data (GLOBAL_WAKEUP_QUEUE s) = [i]" "lock_data (ex_queue s) = []"
    by blast
  then show thesis
  proof cases
    case queued
    have "?s = s" using queued(2) by (cases s, cases "GLOBAL_WAKEUP_QUEUE s") simp
    then show thesis using pw queued inv by (intro that [of s w]) simp_all
  next
    case waiting
    have "bt_get (lock_data (ex_registry ?s)) i = Some r" using o by (simp add: bt_get_def)
    then have "process_wake_queue s = (woken_task r ?s, Ok ())"
      using pw waiting(1) by (simp add: wake_one_def)
    moreover have "r < ex_next_ref s" using ex_invD(9) [OF inv] o by auto
    then have "ex_inv (woken_task r ?s)"
      using ex_inv_set_wakeups [OF inv, of "[]"] by (intro ex_inv_woken_task) simp_all
    moreover have "polls_left left (woken_task r ?s) r = polls_left left s r"
      by (simp add: polls_left_def woken_task_def push_entry_def)
    ultimately show thesis using waiting(2)
      by (intro that [of "woken_task r ?s"
            "\<lparr>pw_priority = task_priority_new (woken_metadata ?s r), pw_task = r\<rparr>"])
         (simp_all add: woken_task_queue woken_task_metadata woken_metadata_def)
  qed
qed

lemma tick_only_task:
  assumes o: "only_task left s i r" and fut: "self_waking poll_future left"
  obtains s' where "tick poll_future s = (s', Ok ())" "finished s'"
  | s' where "tick poll_future s = (s', Ok ())" "only_task left s' i r"
      "polls_left left s' r < polls_left left s r"
proof -
  obtain s1 w where s1: "process_wake_queue s = (s1, Ok ())" "ex_inv s1" "ex_registry s1 = ex_registry s"
    "lock_data (GLOBAL_WAKEUP_QUEUE s1) = []" "lock_data (ex_queue s1) = [w]" "pw_task w = r"
    "md_state (metadata_of s1 r) = Woken" "polls_left left s1 r = polls_left left s r"
    "md_run_count (metadata_of s1 r) = md_run_count (metadata_of s r)"
    using o by (rule only_task_woken)
  have reg: "lock_data (ex_registry s) = [(i, r)]" and
    runs: "md_run_count (metadata_of s r) + polls_left left s r < U64_MAX"
    using o by (auto simp: only_task_def)
  have i: "md_id (metadata_of s1 r) = i" using ex_invD(10) [OF s1(2)] s1(3) reg by auto
  have pop: "heap_pop (lock_data (ex_queue s1)) = Some (w, [])" using s1(5) by (simp add: heap_pop_def wrapper_le_def)
  have inv1: "ex_inv (popped [] s1)" using s1(2) by (intro ex_inv_popped) simp_all
  let ?f = "lock_data (tr_future (ex_tasks s1 r))"
  have stop: "tick poll_future s = (s2, Ok ())"
    if "process_one_task poll_future s1 = (s2, Ok True)" "ex_inv s2" "lock_data (ex_queue s2) = []" for s2
    using s1(1) that process_one_task_empty [OF that(2,3), of poll_future]
    by (simp add: tick_def MAX_TASKS_PER_TICK_def numeral_eq_Suc)
  note one = process_one_task_polls [OF s1(2) pop, unfolded s1(6) i, OF s1(7)]
  show thesis
  proof (cases "left ?f = 0")
    case True
    obtain f' where p: "polls_as poll_future ?f i (\<lambda>s. s) f' True" using self_waking_ready [OF fut True] .
    let ?s = "unregistered i (polled r f' True (popped [] s1))"
    have "process_one_task poll_future s1 = (?s, Ok True)"
      using one [OF _ p] runs s1(9) by simp
    moreover have "ex_inv ?s" using inv1 by (intro ex_inv_unregistered ex_inv_polled)
    moreover have "finished ?s" using calculation(2) s1(3,4) reg
      by (simp add: finished_def unregistered_def bt_remove_def)
    ultimately show thesis using stop [of ?s] that(1) by (simp add: unregistered_def)
  next
    case False
    obtain f' where f': "left f' < left ?f" and p: "polls_as poll_future ?f i (enqueued i) f' False"
      using self_waking_pending [OF fut False] .
    let ?s = "enqueued i (polled r f' False (popped [] s1))"
    have "process_one_task poll_future s1 = (?s, Ok True)"
      using one [OF _ p] runs s1(9) by simp
    moreover have inv2: "ex_inv ?s" using inv1 by (intro ex_inv_enqueued ex_inv_polled)
    moreover have left: "polls_left left ?s r < polls_left left s r"
      using f' s1(8) by (simp add: polls_left_def)
    moreover have "only_task left ?s i r" using inv2 left s1(3,4,9) reg runs
      by (simp add: only_task_def enqueued_def)
    ultimately show thesis using stop [of ?s] that(2) by simp
  qed
qed

lemma has_pending_only_task:
  assumes "only_task left s i r" shows "has_pending_tasks s = (s, Ok True)"
proof -
  have "ex_inv s" "lock_data (ex_registry s) \<noteq> []" using assms by (auto simp: only_task_def)
  note e = ex_invD [OF this(1)]
  have "GLOBAL_WAKEUP_QUEUE_update (raw_locked_update (\<lambda>_. False)) (GLOBAL_WAKEUP_QUEUE_update (raw_locked_update (\<lambda>_. True)) s) = s"
    "ex_queue_update (raw_locked_update (\<lambda>_. False)) (ex_queue_update (raw_locked_update (\<lambda>_. True)) s) = s"
    using e(1,2) by (cases s, cases "GLOBAL_WAKEUP_QUEUE s", simp, cases s, cases "ex_queue s", simp)
  then show ?thesis using e(1-3) assms by (auto simp: has_pending_tasks_def only_task_def)
qed

lemma has_pending_finished:
  assumes "finished s" shows "has_pending_tasks s = (s, Ok False)"
proof -
  have "ex_inv s" using assms by (simp add: finished_def)
  note e = ex_invD [OF this]
  have "GLOBAL_WAKEUP_QUEUE_update (raw_locked_update (\<lambda>_. False)) (GLOBAL_WAKEUP_QUEUE_update (raw_locked_update (\<lambda>_. True)) s) = s"
    "ex_queue_update (raw_locked_update (\<lambda>_. False)) (ex_queue_update (raw_locked_update (\<lambda>_. True)) s) = s"
    using e(1,2) by (cases s, cases "GLOBAL_WAKEUP_QUEUE s", simp, cases s, cases "ex_queue s", simp)
  then show ?thesis using e(1-3) assms by (simp add: has_pending_tasks_def finished_def)
qed

lemma run_loop_only_task:
  assumes "only_task left s i r" "self_waking poll_future left"
  shows "\<exists>s'. run_loop poll_future s = Some (s', Ok ()) \<and> finished s'"
  using assms(1)
proof (induction "polls_left left s r" arbitrary: s rule: less_induct)
  case less
  note pend = has_pending_only_task [OF less.prems]
  from less.prems assms(2) show ?case
  proof (cases rule: tick_only_task)
    case (1 s')
    have "run_loop poll_future s' = Some (s', Ok ())"
      by (simp add: run_loop.simps [of poll_future s'] has_pending_finished [OF 1(2)])
    then show ?thesis using 1 pend by (simp add: run_loop.simps [of poll_future s])
  next
    case (2 s')
    then show ?thesis using less.hyps [of s'] pend by (simp add: run_loop.simps [of poll_future s])
  qed
qed

section \<open>Spawning\<close>

definition new_task :: "'f \<Rightarrow> 'f executor \<Rightarrow> 'f executor" where
  "new_task fut s =
     (let i = ex_counter s; r = ex_next_ref s;
          d = \<lparr>md_id = i, md_state = Woken, md_created_at = clock_ms s, md_last_wake_at = clock_ms s,
               md_last_run_at = None, md_run_count = 0\<rparr>
      in (next_reading s)\<lparr>ex_counter := wrapping_add i 1, ex_tasks := (ex_tasks s)(r := task_ref_new fut d),
            ex_next_ref := Suc r,
            ex_registry := (ex_registry s)\<lparr>lock_data := bt_insert i r (lock_data (ex_registry s))\<rparr>\<rparr>)"

lemma new_task_metadata:
  "metadata_of (new_task fut s) (ex_next_ref s) =
     \<lparr>md_id = ex_counter s, md_state = Woken, md_created_at = clock_ms s, md_last_wake_at = clock_ms s,
      md_last_run_at = None, md_run_count = 0\<rparr>"
  by (simp add: new_task_def Let_def task_ref_new_def spinlock_new_def)

lemma new_task_fields [simp]:
  "ex_next_ref (new_task fut s) = Suc (ex_next_ref s)" "ex_queue (new_task fut s) = ex_queue s"
  "GLOBAL_WAKEUP_QUEUE (new_task fut s) = GLOBAL_WAKEUP_QUEUE s" "ex_running (new_task fut s) = ex_running s"
  "raw_locked (ex_registry (new_task fut s)) = raw_locked (ex_registry s)"
  "lock_data (ex_registry (new_task fut s)) = bt_insert (ex_counter s) (ex_next_ref s) (lock_data (ex_registry s))"
  "st_frequency (ex_systick (new_task fut s)) = st_frequency (ex_systick s)"
  by (simp_all add: new_task_def Let_def)

lemma bt_insert_in: "bt_inv m \<Longrightarrow> e \<in> set (bt_insert k v m) \<Longrightarrow> e = (k, v) \<or> e \<in> set m"
  by (auto simp: bt_insert_def dest: set_takeWhileD set_dropWhileD)

lemma ex_inv_new_task:
  assumes "ex_inv s" shows "ex_inv (new_task fut s)"
proof -
  note e = ex_invD [OF assms]
  have free: "task_free (new_task fut s) q" if "q < Suc (ex_next_ref s)" for q
  proof (cases "q = ex_next_ref s")
    case True
    then show ?thesis by (simp add: task_free_def new_task_def Let_def task_ref_new_def spinlock_new_def raw_new_def)
  next
    case False
    then have "q < ex_next_ref s" using that by simp
    from e(8) [OF this] False show ?thesis by (simp add: task_free_def new_task_def Let_def)
  qed
  have reg: "r < Suc (ex_next_ref s) \<and> md_id (metadata_of (new_task fut s) r) = i"
    if "(i, r) \<in> set (bt_insert (ex_counter s) (ex_next_ref s) (lock_data (ex_registry s)))" for i r
  proof -
    from bt_insert_in [OF e(6) that] consider "i = ex_counter s" "r = ex_next_ref s"
      | "(i, r) \<in> set (lock_data (ex_registry s))" by auto
    then show ?thesis
    proof cases
      case 1 then show ?thesis by (simp only: new_task_metadata) simp
    next
      case 2 then show ?thesis using e(9,10) [OF 2] by (simp add: new_task_def Let_def)
    qed
  qed
  have queue: "pw_task w < Suc (ex_next_ref s)" if "w \<in> set (lock_data (ex_queue s))" for w
    using e(11) [OF that] by simp
  show ?thesis unfolding ex_inv_def
    using e(1-5,7) bt_inv_insert [OF e(6)] free reg queue by simp blast
qed

lemma add_task_to_queue_Ok:
  assumes "ex_inv s" "bt_get (lock_data (ex_registry s)) i = Some r"
  shows "add_task_to_queue i s = (push_entry r s, Ok ())"
proof -
  note e = ex_invD [OF assms(1)]
  have "(i, r) \<in> set (lock_data (ex_registry s))" using assms(2) e(6) by (simp add: bt_get_iff)
  then have free: "task_free s r" using e(8,9) by blast
  let ?s = "ex_registry_update (raw_locked_update (\<lambda>_. True)) s"
  have "push_wrapper r ?s = (push_entry r ?s, Ok ())" using free e(2) by (intro push_wrapper_Ok) simp_all
  moreover have "push_entry r ?s = ex_registry_update (raw_locked_update (\<lambda>_. True)) (push_entry r s)"
    by (simp add: push_entry_def queue_entry_def)
  moreover have "\<not> raw_locked (ex_registry (push_entry r s))" using e(3) by (simp add: push_entry_def)
  ultimately show ?thesis using assms(2) e(3) by (simp add: add_task_to_queue_def)
qed

lemma in_registry_update:
  assumes "\<not> raw_locked (ex_registry s)"
  shows "in_registry (\<lambda>s. (s\<lparr>ex_registry := (ex_registry s)\<lparr>lock_data := g (lock_data (ex_registry s))\<rparr>\<rparr>, Ok ())) s =
     (s\<lparr>ex_registry := (ex_registry s)\<lparr>lock_data := g (lock_data (ex_registry s))\<rparr>\<rparr>, Ok ())"
  using assms by (cases s, cases "ex_registry s") simp

lemma spawn_Ok:
  assumes "ex_inv s"
  shows "spawn fut s = (push_entry (ex_next_ref s) (new_task fut s), Ok (ex_counter s, ex_next_ref s))"
proof -
  note e = ex_invD [OF assms]
  have "bt_get (lock_data (ex_registry (new_task fut s))) (ex_counter s) = Some (ex_next_ref s)"
    using bt_get_insert [OF e(6)] by simp
  from add_task_to_queue_Ok [OF ex_inv_new_task [OF assms] this]
  have add: "add_task_to_queue (ex_counter s) (new_task fut s) = (push_entry (ex_next_ref s) (new_task fut s), Ok ())" .
  let ?d = "\<lparr>md_id = ex_counter s, md_state = Woken, md_created_at = clock_ms s, md_last_wake_at = clock_ms s,
             md_last_run_at = None, md_run_count = 0\<rparr>"
  let ?s1 = "s\<lparr>ex_counter := wrapping_add (ex_counter s) 1\<rparr>"
  let ?s3 = "(next_reading ?s1)\<lparr>ex_tasks := (ex_tasks s)(ex_next_ref s := task_ref_new fut ?d),
      ex_next_ref := Suc (ex_next_ref s)\<rparr>"
  have "clock_ms ?s1 = clock_ms s" by (simp add: clock_ms_def)
  then have d: "task_metadata_new (ex_counter s) ?s1 = (next_reading ?s1, Ok ?d)"
    using e(5) by (simp add: task_metadata_new_def now_ms_Ok)
  have "in_registry (\<lambda>s'. (s'\<lparr>ex_registry := (ex_registry s')
        \<lparr>lock_data := bt_insert (ex_counter s) (ex_next_ref s) (lock_data (ex_registry s'))\<rparr>\<rparr>, Ok ())) ?s3 =
      (?s3\<lparr>ex_registry := (ex_registry ?s3)
        \<lparr>lock_data := bt_insert (ex_counter s) (ex_next_ref s) (lock_data (ex_registry ?s3))\<rparr>\<rparr>, Ok ())"
    using e(3) by (intro in_registry_update) simp
  also have "\<dots> = (new_task fut s, Ok ())" by (simp add: new_task_def Let_def next_reading_def)
  finally show ?thesis using add d
    by (simp add: spawn_def task_id_new_def Let_def del: in_lock_free)
qed

lemma set_running_Ok:
  assumes "\<not> raw_locked (ex_running s)"
  shows "set_running b s = (s\<lparr>ex_running := (ex_running s)\<lparr>lock_data := b\<rparr>\<rparr>, Ok ())"
  using assms by (cases s, cases "ex_running s") (simp add: set_running_def)

lemma only_task_running:
  "only_task left s i r \<Longrightarrow> only_task left (s\<lparr>ex_running := (ex_running s)\<lparr>lock_data := b\<rparr>\<rparr>) i r"
  unfolding only_task_def ex_inv_def task_free_def polls_left_def by auto

lemma finished_running:
  "finished s \<Longrightarrow> finished (s\<lparr>ex_running := (ex_running s)\<lparr>lock_data := b\<rparr>\<rparr>)"
  unfolding finished_def ex_inv_def task_free_def by simp

lemma run_until_completion_returns:
  assumes "only_task left s i r" "self_waking poll_future left"
  shows "\<exists>s'. run_until_completion poll_future s = Some (s', Ok ()) \<and> finished s' \<and> \<not> lock_data (ex_running s')"
proof -
  have "\<not> raw_locked (ex_running s)" using assms(1) ex_invD(4) by (auto simp: only_task_def)
  then have "set_running True s = (s\<lparr>ex_running := (ex_running s)\<lparr>lock_data := True\<rparr>\<rparr>, Ok ())"
    by (rule set_running_Ok)
  moreover obtain s1 where s1: "run_loop poll_future (s\<lparr>ex_running := (ex_running s)\<lparr>lock_data := True\<rparr>\<rparr>) = Some (s1, Ok ())"
      "finished s1"
    using run_loop_only_task [OF only_task_running [OF assms(1)] assms(2)] by blast
  moreover have "set_running False s1 = (s1\<lparr>ex_running := (ex_running s1)\<lparr>lock_data := False\<rparr>\<rparr>, Ok ())"
    using s1(2) ex_invD(4) by (intro set_running_Ok) (auto simp: finished_def)
  ultimately show ?thesis using finished_running [OF s1(2), of False]
    by (simp add: run_until_completion_def)
qed

lemma spawn_only_task:
  assumes "finished s" "left fut < U64_MAX"
  shows "only_task left (push_entry (ex_next_ref s) (new_task fut s)) (ex_counter s) (ex_next_ref s)"
proof -
  have inv: "ex_inv (new_task fut s)" using assms(1) by (simp add: finished_def ex_inv_new_task)
  then have "ex_inv (push_entry (ex_next_ref s) (new_task fut s))"
    unfolding ex_inv_def by (simp add: push_entry_def queue_entry_def task_free_def)
  moreover have "polls_left left (push_entry (ex_next_ref s) (new_task fut s)) (ex_next_ref s) = left fut"
    by (simp add: polls_left_def push_entry_def new_task_def Let_def task_ref_new_def spinlock_new_def)
  ultimately show ?thesis using assms new_task_metadata [of fut s]
    by (simp add: only_task_def finished_def push_entry_def queue_entry_def)
qed

end
