(* ===== verification/Kernel_Properties.thy ===== *)
theory Kernel_Properties
  imports Timer_Kernel Executor_Run
begin

text \<open>
  The main properties of the kernel services: the interrupt-safe spinlock, the software timers, the
  interrupt table and the executor.
\<close>

section \<open>Spinlock\<close>

text \<open>
  C12: In every state that CPUs running \<open>IrqSpinlock::lock\<close> and \<open>IrqRawSpinlock::lock\<close> can reach, at most
  one of them is in the critical section, the lock word tells whether one is, a CPU that holds a guard has
  its interrupts off, and the value that the holder has read is still the value of the data (no other CPU
  wrote in between).
\<close>

theorem spinlock_mutual_exclusion:
  assumes "spin_reachable s" "holds (sp_pc s i)" "holds (sp_pc s j)"
  shows "i = j \<and> raw_locked (sp_lock s) \<and> (guarded (sp_pc s i) \<longrightarrow> \<not> sp_irq s i) \<and>
         (\<forall>v. loaded (sp_pc s i) = Some v \<longrightarrow> lock_data (sp_lock s) = v)"
  using spin_inv_reachable [OF assms(1)] assms(2,3) unfolding spin_inv_def by blast

definition sample_spin :: "nat spin_state" where
  "sample_spin =
     \<lparr>sp_lock = \<lparr>raw_locked = True, lock_data = 7\<rparr>,
      sp_pc = (\<lambda>_. Idle)(0 := Critical \<lparr>ng_is_enabled = True\<rparr>), sp_irq = (\<lambda>_. True)(0 := False)\<rparr>"

lemma sample_spin_reachable: "spin_reachable sample_spin"
proof -
  let ?g = "\<lparr>ng_is_enabled = True\<rparr>"
  let ?s0 = "\<lparr>sp_lock = spinlock_new (7::nat), sp_pc = (\<lambda>_. Idle), sp_irq = (\<lambda>_. True)\<rparr>"
  let ?s1 = "goto 0 (Attempt 100) ?s0"
  let ?s2 = "goto 0 (Guarded 99 ?g) (set_irq 0 False ?s1)"
  have "spin_reachable ?s0" by (rule spin_init)
  moreover have "spin_step ?s0 ?s1" using lock_call [of ?s0 0] by (simp add: LOCK_ATTEMPTS_def)
  moreover have "spin_step ?s1 ?s2"
    by (rule attempt) (simp_all add: goto_def no_irq_guard_new_def numeral_eq_Suc)
  moreover have "spin_step ?s2 (goto 0 (Critical ?g) (set_locked True ?s2))"
    by (rule acquire) (simp_all add: spin_updates spinlock_new_def raw_new_def raw_try_lock_def)
  moreover have "goto 0 (Critical ?g) (set_locked True ?s2) = sample_spin"
    by (auto simp: sample_spin_def spin_updates spinlock_new_def fun_eq_iff)
  ultimately show ?thesis by (metis spin_next)
qed

theorem spinlock_mutual_exclusion_witness:
  "spin_reachable sample_spin \<and> holds (sp_pc sample_spin 0) \<and> (0::nat) = 0 \<and> \<not> sp_irq sample_spin 0"
  using spinlock_mutual_exclusion [OF sample_spin_reachable, of 0 0] sample_spin_reachable
  by (simp add: sample_spin_def)

text \<open>
  A block under \<open>IrqSpinlock::lock\<close> on one CPU: with the lock free it runs once on the data, and lock
  word and interrupt flag are restored; with the lock held, \<open>lock\<close> panics after its attempts and changes
  nothing, so taking a lock twice never returns.
\<close>

theorem with_lock_outcome:
  "with_lock f (l, irq) =
     (if raw_locked l then ((l, irq), Panic)
      else ((l\<lparr>lock_data := fst (f (lock_data l))\<rparr>, irq), Ok (snd (f (lock_data l)))))"
  using with_lock_free [of l f "fst (f (lock_data l))" "snd (f (lock_data l))" irq] by (simp add: with_lock_held)

section \<open>Timers\<close>

definition sample_systick :: systick where
  "sample_systick =
     \<lparr>st_clock = (\<lambda>n. 1000 * n), st_reads = 0, st_frequency = 1000000, st_interval = 0, st_irq_on = False,
      st_enabled = False, st_acks = 0\<rparr>"

definition sample_kernel :: "(nat, nat) kernel" where
  "sample_kernel =
     \<lparr>TIMER_MANAGER = spinlock_new None, TIMER_READY = False, IRQ_VEC = spinlock_new [],
      irq_local_enabled = True, irq_lines = (\<lambda>_. False), the_systick = sample_systick\<rparr>"

definition sample_booted :: "(nat, nat) kernel" where
  "sample_booted = fst (time_init 30 sample_kernel)"

definition booted_systick :: systick where
  "booted_systick = sample_systick\<lparr>st_irq_on := False, st_enabled := True\<rparr>"

lemma sample_booted_ok:
  "kernel_ok sample_booted" "timer_state sample_booted = Some (timer_manager_new, booted_systick)"
  using time_init_ok [of sample_kernel 30]
  by (auto simp: sample_booted_def sample_kernel_def spinlock_new_def raw_new_def booted_systick_def)

text \<open>
  C13: \<open>one_shot_after\<close> on a running timer service enters exactly one new timer, under an identifier that no
  pending timer has and with the deadline \<open>now + delay\<close>, keeps all other timers, and leaves the service in
  order (manager invariant, lock free, hardware armed); when the deadline does not fit it fails with
  \<open>Overflow\<close>.
\<close>

theorem one_shot_after_schedules:
  assumes "kernel_ok s" "timer_state s = Some (m, hw)" "length (tm_index m) \<le> U64_MAX"
  shows "if st_clock hw (st_reads hw) + duration_to_ticks (st_frequency hw) dur \<le> U64_MAX
         then \<exists>m' hw' i. one_shot_after dur cb s = (set_timer_state (m', hw') s, Ok i) \<and>
                kernel_ok (set_timer_state (m', hw') s) \<and> pending m i = None \<and>
                pending m' =
                  (pending m)(i \<mapsto> (st_clock hw (st_reads hw) + duration_to_ticks (st_frequency hw) dur, cb))
         else \<exists>s'. one_shot_after dur cb s = (s', Err Overflow) \<and> kernel_ok s'"
  using one_shot_after_ok [OF assms] .

theorem one_shot_after_schedules_witness:
  "\<exists>m' hw' i. one_shot_after \<lparr>dur_secs = 2, dur_nanos = 5000\<rparr> (9::nat) sample_booted =
       (set_timer_state (m', hw') sample_booted, Ok i) \<and> pending m' = [i \<mapsto> (2000005, 9)]"
  using one_shot_after_schedules [OF sample_booted_ok, of "\<lparr>dur_secs = 2, dur_nanos = 5000\<rparr>" 9]
  by (simp add: booted_systick_def sample_systick_def duration_to_ticks_def
      NANOS_PER_SEC_def saturating_add_def saturating_mul_def U64_MAX_def) blast

text \<open>
  C14: The timer interrupt takes exactly the timers whose deadline has passed out of the manager, in the
  order of their deadlines, re-arms the hardware for the rest, releases the lock, and only then runs the
  callbacks, so a callback may schedule timers itself.
\<close>

theorem timer_interrupt_runs_expired:
  assumes "kernel_ok s" "timer_state s = Some (m, hw)"
  shows "\<exists>m' hw' s'. systimer_irq_handler run s =
             run_callbacks run (map snd (filter (\<lambda>e. key_deadline (fst e) \<le> st_clock hw (st_reads hw)) (tm_timers m))) s' \<and>
           sorted (map (key_deadline \<circ> fst) (tm_timers m)) \<and>
           kernel_ok s' \<and> timer_state s' = Some (m', hw') \<and> irq_local_enabled s' = irq_local_enabled s \<and>
           pending m' = (\<lambda>i. case pending m i of
                              Some (d, cb) \<Rightarrow> if st_clock hw (st_reads hw) < d then Some (d, cb) else None
                            | None \<Rightarrow> None)"
proof -
  have "bt_inv (tm_timers m)" using kernel_okD(3) [OF assms] by (rule tm_invD)
  then have "sorted (map (key_deadline \<circ> fst) (tm_timers m))"
    by (induction "tm_timers m" arbitrary: m)
       (auto simp: bt_inv_def sorted_wrt_map less_timer_key_def timer_key_lt_def intro: sorted_wrt_mono_rel [rotated])
  then show ?thesis using systimer_irq_handler_spec [OF assms, of run] by blast
qed

definition sample_armed :: "(nat, nat) kernel" where
  "sample_armed = set_timer_state
     (\<lparr>tm_next_id = 3, tm_timers = [(TimerKey 0 2, 8), (TimerKey 5000 1, 7)], tm_index = [(1, 5000), (2, 0)]\<rparr>,
      booted_systick\<lparr>st_reads := 1, st_interval := 100, st_irq_on := True\<rparr>) sample_booted"

lemma sample_armed_ok:
  "kernel_ok sample_armed"
  "timer_state sample_armed = Some
     (\<lparr>tm_next_id = 3, tm_timers = [(TimerKey 0 2, 8), (TimerKey 5000 1, 7)], tm_index = [(1, 5000), (2, 0)]\<rparr>,
      booted_systick\<lparr>st_reads := 1, st_interval := 100, st_irq_on := True\<rparr>)"
proof -
  show "kernel_ok sample_armed" unfolding sample_armed_def
    by (rule kernel_ok_set [OF sample_booted_ok(1)])
       (auto simp: sample_booted_ok tm_inv_def armed_def bt_first_def less_timer_key_def timer_key_lt_def U64_MAX_def
         booted_systick_def sample_systick_def min_delay_def)
qed (simp add: sample_armed_def)

theorem timer_interrupt_runs_expired_witness:
  "\<exists>s'. systimer_irq_handler (\<lambda>cb s. (s, Ok ())) sample_armed = run_callbacks (\<lambda>cb s. (s, Ok ())) [8] s' \<and> kernel_ok s'"
  using timer_interrupt_runs_expired [OF sample_armed_ok, of "\<lambda>cb s. (s, Ok ())"]
  by (simp add: booted_systick_def sample_systick_def) blast

text \<open>
  \<open>cancel\<close> returns whether the timer was pending, removes that timer and no other, and leaves the
  service in order.
\<close>

theorem cancel_removes_timer:
  assumes "kernel_ok s" "timer_state s = Some (m, hw)"
  shows "\<exists>m' hw'. cancel_timer h s = (set_timer_state (m', hw') s, Ok (pending m h \<noteq> None)) \<and>
           kernel_ok (set_timer_state (m', hw') s) \<and> pending m' = (pending m)(h := None)"
  using cancel_timer_ok [OF assms] .

theorem cancel_removes_timer_witness:
  "\<exists>m' hw'. cancel_timer 2 sample_armed = (set_timer_state (m', hw') sample_armed, Ok True) \<and>
     pending m' 2 = None"
proof -
  have "pending \<lparr>tm_next_id = 3, tm_timers = [(TimerKey 0 2, 8), (TimerKey 5000 1, 7::nat)],
      tm_index = [(1, 5000), (2, 0)]\<rparr> 2 \<noteq> None"
    by (simp add: pending_def bt_get_def)
  with cancel_removes_timer [OF sample_armed_ok, of 2] show ?thesis by fastforce
qed

text \<open>
  C15: In every state that booting and calls of the timer interface lead to, each pending timer is covered
  by the tick hardware: the interrupt is on, and the programmed interval, counted from a reading of the
  clock, ends no later than the deadline of that timer or the minimal delay of about 100 microseconds.
  The callbacks may do anything that leaves the service in order.
\<close>

theorem pending_timers_covered:
  assumes "timer_reachable run irq s" "\<And>cb s. kernel_ok s \<Longrightarrow> kernel_ok (fst (run cb s))"
    "timer_state s = Some (m, hw)" "pending m i = Some (d, cb)"
  shows "\<not> raw_locked (TIMER_MANAGER s) \<and> st_irq_on hw \<and>
    (\<exists>n < st_reads hw. st_clock hw n + st_interval hw \<le> max d (st_clock hw n + min_delay hw))"
proof -
  have "kernel_ok s" using assms(1,2) by (rule timer_reachable_ok)
  note k = kernel_okD [OF this assms(3)]
  show ?thesis using k(1) pending_covered [OF k(3,4) assms(4)] by blast
qed

text \<open>The callback of the sample schedules itself again.\<close>

definition rearm :: "nat \<Rightarrow> (nat, nat) kernel \<Rightarrow> (nat, nat) kernel \<times> (unit, unit) result" where
  "rearm cb s = (fst (one_shot_after \<lparr>dur_secs = 1, dur_nanos = 0\<rparr> cb s), Ok ())"

theorem pending_timers_covered_witness:
  "\<exists>s m hw i d. timer_reachable rearm 30 s \<and> timer_state s = Some (m, hw) \<and> pending m i = Some (d, 9) \<and>
     st_irq_on hw"
proof -
  let ?s = "fst (one_shot_after \<lparr>dur_secs = 2, dur_nanos = 0\<rparr> 9 sample_booted)"
  have "timer_reachable rearm 30 sample_booted"
    unfolding sample_booted_def
    by (rule boot) (simp_all add: sample_kernel_def spinlock_new_def raw_new_def)
  then have reach: "timer_reachable rearm 30 ?s" by (rule one_shot_after)
  obtain m hw i where s: "one_shot_after \<lparr>dur_secs = 2, dur_nanos = 0\<rparr> 9 sample_booted =
      (set_timer_state (m, hw) sample_booted, Ok i)" "pending m = [i \<mapsto> (2000000, 9)]"
    using one_shot_after_ok [OF sample_booted_ok, of "\<lparr>dur_secs = 2, dur_nanos = 0\<rparr>" 9]
    by (auto simp: booted_systick_def sample_systick_def duration_to_ticks_def NANOS_PER_SEC_def
        saturating_add_def saturating_mul_def U64_MAX_def)
  have "kernel_ok s \<Longrightarrow> kernel_ok (fst (rearm cb s))" for cb s
    by (simp add: rearm_def one_shot_after_keeps)
  from pending_timers_covered [OF reach this, of m hw i 2000000 9]
  show ?thesis using reach s by (intro exI [of _ ?s] exI [of _ m] exI [of _ hw] exI [of _ i] exI [of _ 2000000]) simp
qed

text \<open>
  Converting a tick count to a duration and back loses at most one tick, for every frequency up to one
  tick per nanosecond, and the nanoseconds stay below one second.
\<close>

theorem duration_roundtrip:
  assumes "0 < freq" "freq \<le> NANOS_PER_SEC" "t \<le> U64_MAX"
  shows "\<exists>dur. ticks_to_duration freq t = Ok dur \<and> dur_nanos dur < NANOS_PER_SEC \<and>
    duration_to_ticks freq dur \<le> t \<and> t \<le> duration_to_ticks freq dur + 1"
proof -
  obtain dur where "ticks_to_duration freq t = Ok dur" using assms(1) by (simp add: ticks_to_duration_def)
  then show ?thesis using duration_roundtrip_bounds [OF assms] by blast
qed

theorem duration_roundtrip_witness:
  "\<exists>dur. ticks_to_duration 62500000 1000000007 = Ok dur \<and> dur_nanos dur < 1000000000 \<and>
     duration_to_ticks 62500000 dur \<le> 1000000007 \<and> 1000000007 \<le> duration_to_ticks 62500000 dur + 1"
  using duration_roundtrip [of 62500000 1000000007] by (simp add: NANOS_PER_SEC_def U64_MAX_def)

text \<open>
  The interrupt table stays locked while a handler runs, so a handler that registers another handler
  panics.
\<close>

theorem handler_cannot_register:
  assumes "\<not> raw_locked (IRQ_VEC s)" "bt_get (lock_data (IRQ_VEC s)) irq = Some (OtherHandler h)"
    "run_other h = register_handler irq' h'"
  shows "snd (irq_handle run run_other irq s) = Panic"
  using irq_handle_other [OF assms(1,2), of run run_other] assms(3)
    register_handler_locked [of "s\<lparr>IRQ_VEC := (IRQ_VEC s)\<lparr>raw_locked := True\<rparr>, irq_local_enabled := False\<rparr>"]
  by simp

theorem handler_cannot_register_witness:
  "snd (irq_handle (\<lambda>cb s. (s, Ok ())) (\<lambda>h. register_handler 41 (OtherHandler h)) 40
     (sample_kernel\<lparr>IRQ_VEC := \<lparr>raw_locked = False, lock_data = [(40, OtherHandler 1)]\<rparr>\<rparr>)) = Panic"
  by (rule handler_cannot_register [where h = 1 and irq' = 41 and h' = "OtherHandler 1"])
     (simp_all add: bt_get_def)

section \<open>Executor\<close>

definition sample_executor :: "nat executor" where
  "sample_executor =
     executor_with_timeout booted_systick (\<lambda>_. task_ref_new 0
       \<lparr>md_id = 0, md_state = Completed, md_created_at = 0, md_last_wake_at = 0, md_last_run_at = None,
        md_run_count = 0\<rparr>) \<lparr>dur_secs = 1, dur_nanos = 0\<rparr>"

lemma sample_executor_finished: "finished sample_executor"
  by (simp add: finished_def ex_inv_def sample_executor_def executor_with_timeout_def spinlock_new_def
      raw_new_def booted_systick_def sample_systick_def)

text \<open>A future that answers \<open>Pending\<close> as often as its number says, and wakes itself each time.\<close>

definition countdown :: "nat \<Rightarrow> nat \<Rightarrow> nat executor \<Rightarrow> nat executor \<times> (unit, nat \<times> bool) result" where
  "countdown n i s =
     (if n = 0 then (s, Ok (0, True))
      else and_then (enqueue_task_wakeup i s) (\<lambda>_ s. (s, Ok (n - 1, False))))"

lemma countdown_self_waking: "self_waking countdown (\<lambda>n. n)"
  unfolding self_waking_def
proof (intro allI)
  fix n i :: nat
  show "if n = 0 then \<exists>f'. \<forall>s. countdown n i s = (s, Ok (f', True))
    else \<exists>f' < n. \<forall>s. countdown n i s = and_then (enqueue_task_wakeup i s) (\<lambda>_ s. (s, Ok (f', False)))"
    by (cases n) (auto simp: countdown_def)
qed

text \<open>
  C16: No wakeup is lost: when the wakeup queue is processed, it is emptied, and every registered task whose
  identifier was in it is marked as woken and has an entry in the priority queue; the registry and the
  entries that were there before stay, and all locks are free again.
\<close>

theorem wakeups_not_lost:
  assumes "ex_inv s"
  shows "\<exists>s'. process_wake_queue s = (s', Ok ()) \<and> ex_inv s' \<and> lock_data (GLOBAL_WAKEUP_QUEUE s') = [] \<and>
    lock_data (ex_registry s') = lock_data (ex_registry s) \<and>
    (\<forall>r. ready_to_run s r \<longrightarrow> ready_to_run s' r) \<and>
    (\<forall>i \<in> set (lock_data (GLOBAL_WAKEUP_QUEUE s)).
       \<forall>r. bt_get (lock_data (ex_registry s)) i = Some r \<longrightarrow> ready_to_run s' r)"
proof -
  let ?s = "s\<lparr>GLOBAL_WAKEUP_QUEUE := (GLOBAL_WAKEUP_QUEUE s)\<lparr>lock_data := []\<rparr>\<rparr>"
  have inv: "ex_inv ?s" by (rule ex_inv_set_wakeups [OF assms]) simp
  have same: "ready_to_run ?s r = ready_to_run s r" for r by (simp add: ready_to_run_def)
  show ?thesis
    unfolding process_wake_queue_Ok [OF assms]
    using fold_wake_one [OF inv, where ids = "lock_data (GLOBAL_WAKEUP_QUEUE s)"] same by auto
qed

definition sample_spawned :: "nat executor" where
  "sample_spawned = push_entry 0 (new_task 2 sample_executor)"

definition sample_waiting :: "nat executor" where
  "sample_waiting = enqueued 1 (popped [] (polled 0 1 False sample_spawned))"

lemma sample_spawned_inv: "ex_inv sample_spawned"
  using spawn_only_task [OF sample_executor_finished, of "\<lambda>n. n" 2]
  by (simp add: only_task_def sample_spawned_def sample_executor_def executor_with_timeout_def U64_MAX_def)

lemma sample_waiting_inv: "ex_inv sample_waiting"
  unfolding sample_waiting_def
  by (intro ex_inv_enqueued ex_inv_popped ex_inv_polled sample_spawned_inv) simp

theorem wakeups_not_lost_witness:
  "md_state (metadata_of sample_waiting 0) = Pending \<and>
   (\<exists>s'. process_wake_queue sample_waiting = (s', Ok ()) \<and> ready_to_run s' 0)"
proof -
  have "lock_data (GLOBAL_WAKEUP_QUEUE sample_waiting) = [1]"
    "bt_get (lock_data (ex_registry sample_waiting)) 1 = Some 0"
    "md_state (metadata_of sample_waiting 0) = Pending"
    by (simp_all add: sample_waiting_def sample_spawned_def enqueued_def push_entry_def sample_executor_def
        executor_with_timeout_def spinlock_new_def bt_get_def polled_metadata_def)
  then show ?thesis using wakeups_not_lost [OF sample_waiting_inv] by auto
qed

text \<open>
  One round of the executor on a woken task: it takes the entry with the least priority value (oldest
  wakeup first), polls that task exactly once, and a task that is ready is marked completed and leaves the
  registry while a pending one stays registered.
\<close>

theorem process_one_task_outcome:
  assumes "ex_inv s" "heap_pop (lock_data (ex_queue s)) = Some (w, q)"
    "md_state (metadata_of s (pw_task w)) = Woken" "md_run_count (metadata_of s (pw_task w)) < U64_MAX"
    "polls_as poll_future (lock_data (tr_future (ex_tasks s (pw_task w))))
       (md_id (metadata_of s (pw_task w))) (\<lambda>s. s) f' ready"
  shows "\<exists>s'. process_one_task poll_future s = (s', Ok True) \<and> ex_inv s' \<and>
    (\<forall>x \<in> set (lock_data (ex_queue s)). pw_priority w \<le> pw_priority x) \<and>
    lock_data (ex_queue s') = remove1 w (lock_data (ex_queue s)) \<and>
    md_run_count (metadata_of s' (pw_task w)) = md_run_count (metadata_of s (pw_task w)) + 1 \<and>
    md_state (metadata_of s' (pw_task w)) = (if ready then Completed else Pending) \<and>
    lock_data (ex_registry s') =
      (if ready then bt_remove (md_id (metadata_of s (pw_task w))) (lock_data (ex_registry s))
       else lock_data (ex_registry s))"
proof -
  let ?s = "polled (pw_task w) f' ready (popped q s)"
  have "set q \<subseteq> set (lock_data (ex_queue s))" using heap_pop_Some(2) [OF assms(2)] set_remove1_subset by fastforce
  then have inv: "ex_inv ?s" using assms(1) by (intro ex_inv_polled ex_inv_popped)
  have "process_one_task poll_future s =
      (if ready then unregistered (md_id (metadata_of s (pw_task w))) ?s else ?s, Ok True)"
    using process_one_task_polls [OF assms] by simp
  then show ?thesis using inv ex_inv_unregistered [OF inv] heap_pop_Some [OF assms(2)]
    by (auto simp: unregistered_def)
qed

theorem process_one_task_outcome_witness:
  "\<exists>s'. process_one_task countdown (sample_spawned\<lparr>ex_tasks := (ex_tasks sample_spawned)
      (0 := (ex_tasks sample_spawned 0)\<lparr>tr_future := spinlock_new 0\<rparr>)\<rparr>) = (s', Ok True) \<and>
    md_state (metadata_of s' 0) = Completed \<and> lock_data (ex_registry s') = []"
proof -
  let ?s = "sample_spawned\<lparr>ex_tasks := (ex_tasks sample_spawned)
      (0 := (ex_tasks sample_spawned 0)\<lparr>tr_future := spinlock_new 0\<rparr>)\<rparr>"
  let ?w = "queue_entry (new_task 2 sample_executor) 0"
  have inv: "ex_inv ?s" using sample_spawned_inv
    unfolding ex_inv_def task_free_def by (auto simp: spinlock_new_def raw_new_def)
  have q: "lock_data (ex_queue ?s) = [?w]"
    by (simp add: sample_spawned_def push_entry_def sample_executor_def executor_with_timeout_def spinlock_new_def)
  have pop: "heap_pop (lock_data (ex_queue ?s)) = Some (?w, [])" unfolding q by (simp add: heap_pop_def wrapper_le_def)
  have w: "pw_task ?w = 0" by (simp add: queue_entry_def)
  have md: "metadata_of ?s 0 = \<lparr>md_id = 1, md_state = Woken, md_created_at = 0, md_last_wake_at = 0,
      md_last_run_at = None, md_run_count = 0\<rparr>"
    by (simp add: sample_spawned_def push_entry_def new_task_def Let_def task_ref_new_def spinlock_new_def
        sample_executor_def executor_with_timeout_def clock_ms_def booted_systick_def sample_systick_def)
  have reg: "lock_data (ex_registry ?s) = [(1, 0)]"
    by (simp add: sample_spawned_def push_entry_def sample_executor_def executor_with_timeout_def spinlock_new_def)
  have "polls_as countdown (lock_data (tr_future (ex_tasks ?s 0))) 1 (\<lambda>s. s) 0 True"
    by (simp add: polls_as_def countdown_def spinlock_new_def)
  from process_one_task_outcome [OF inv pop, unfolded w md, simplified, OF _ this [simplified]]
  show ?thesis using reg by (simp add: U64_MAX_def bt_remove_def) blast
qed

text \<open>
  C17: \<open>block_on\<close> returns: for a future that wakes itself until it is ready, on an idle executor, the loop of
  \<open>run_until_completion\<close> ends, no task is left, and the executor is no longer marked as running.
\<close>

theorem block_on_returns:
  assumes "finished s" "self_waking poll_future left" "left fut < U64_MAX"
  shows "\<exists>s'. block_on poll_future fut s = Some (s', Ok ()) \<and> finished s' \<and> \<not> lock_data (ex_running s')"
proof -
  have "ex_inv s" using assms(1) by (simp add: finished_def)
  then show ?thesis
    using run_until_completion_returns [OF spawn_only_task [of s left fut, OF assms(1,3)] assms(2)]
    by (simp add: block_on_def spawn_Ok)
qed

theorem block_on_returns_witness:
  "\<exists>s'. block_on countdown 3 sample_executor = Some (s', Ok ()) \<and> finished s'"
  using block_on_returns [OF sample_executor_finished countdown_self_waking, of 3] by (auto simp: U64_MAX_def)

text \<open>
  \<open>wake_by_id\<close> of a registered task never returns: it holds the lock of the registry when
  \<open>add_task_to_queue\<close> takes the same lock, which panics.
\<close>

theorem wake_by_id_panics:
  assumes "ex_inv s" "bt_get (lock_data (ex_registry s)) i = Some r"
  shows "snd (wake_by_id i s) = Panic"
proof -
  note e = ex_invD [OF assms(1)]
  let ?s = "ex_registry_update (raw_locked_update (\<lambda>_. True)) s"
  have "(i, r) \<in> set (lock_data (ex_registry s))" using assms(2) e(6) by (simp add: bt_get_iff)
  then have "in_metadata r (mark_woken r) ?s = (set_metadata r (woken_metadata ?s r) (next_reading ?s), Ok ())"
    using e(5,8,9) by (intro in_metadata_mark_woken) simp_all
  then show ?thesis using assms(2) e(3) by (simp add: wake_by_id_def add_task_to_queue_def)
qed

theorem wake_by_id_panics_witness: "snd (wake_by_id 1 sample_spawned) = Panic"
  using wake_by_id_panics [OF sample_spawned_inv, of 1 0]
  by (simp add: sample_spawned_def push_entry_def sample_executor_def executor_with_timeout_def spinlock_new_def
      bt_get_def)

end
