(* ===== verification/Percpu.thy ===== *)
theory Percpu
  imports Memory_Map Addr_Range
begin

text \<open>
  The per-CPU areas of \<open>crates/someboot/src/smp/{mod,legacy,prealloc,cpu_iter}.rs\<close> and the boot sequence
  \<open>mem::early_init\<close>, which ends with allocating them.

  Linker symbols, the stack size, the processor lists that firmware reports (ACPI and device tree) and the
  address translations of the architecture are the record \<open>percpu_env\<close>.  What is written to the new
  memory is kept in \<open>percpu_mem\<close>: the metadata by its address, the copies of the linker template, and the
  range that was zeroed.
\<close>

section \<open>Processor identifiers\<close>

record cpu_sources =
  acpi_cpu_id_list :: "nat list option"
  fdt_cpu_id_list :: "nat list option"

datatype cpu_id_source = SUnknown | SAcpi | SFdt | SDefault | SDone

record cpu_id_iter =
  ci_source :: cpu_id_source
  ci_next_index :: nat
  ci_pending_first :: "nat option"
  ci_default_emitted :: bool

definition cpu_id_iter_new :: cpu_id_iter where
  "cpu_id_iter_new =
     \<lparr>ci_source = SUnknown, ci_next_index = 0, ci_pending_first = None, ci_default_emitted = False\<rparr>"

definition select_source :: "cpu_sources \<Rightarrow> cpu_id_iter \<Rightarrow> cpu_id_iter" where
  "select_source src it =
     (case acpi_cpu_id_list src of
        Some (first # _) \<Rightarrow> it\<lparr>ci_source := SAcpi, ci_pending_first := Some first, ci_next_index := 1\<rparr>
      | _ \<Rightarrow>
          (case fdt_cpu_id_list src of
             Some (first # _) \<Rightarrow> it\<lparr>ci_source := SFdt, ci_pending_first := Some first, ci_next_index := 1\<rparr>
           | _ \<Rightarrow> it\<lparr>ci_source := SDefault\<rparr>))"

text \<open>\<open>next_from_acpi\<close> and \<open>next_from_fdt\<close> differ only in the list they read.\<close>

definition next_from :: "nat list option \<Rightarrow> cpu_id_iter \<Rightarrow> cpu_id_iter \<times> nat option" where
  "next_from ids it =
     (case ci_pending_first it of
        Some i \<Rightarrow> (it\<lparr>ci_pending_first := None\<rparr>, Some i)
      | None \<Rightarrow>
          (case ids of
             None \<Rightarrow> (it, None)
           | Some xs \<Rightarrow>
               if ci_next_index it < length xs
               then (it\<lparr>ci_next_index := ci_next_index it + 1\<rparr>, Some (xs ! ci_next_index it))
               else (it, None)))"

fun source_rank :: "cpu_id_source \<Rightarrow> nat" where
  "source_rank SUnknown = 2"
| "source_rank SDone = 0"
| "source_rank _ = 1"

function cpu_id_next :: "cpu_sources \<Rightarrow> cpu_id_iter \<Rightarrow> cpu_id_iter \<times> nat option" where
  "cpu_id_next src it =
     (case ci_source it of
        SUnknown \<Rightarrow> cpu_id_next src (select_source src it)
      | SAcpi \<Rightarrow>
          (case next_from (acpi_cpu_id_list src) it of
             (it', Some i) \<Rightarrow> (it', Some i)
           | (it', None) \<Rightarrow> cpu_id_next src (it'\<lparr>ci_source := SDone\<rparr>))
      | SFdt \<Rightarrow>
          (case next_from (fdt_cpu_id_list src) it of
             (it', Some i) \<Rightarrow> (it', Some i)
           | (it', None) \<Rightarrow> cpu_id_next src (it'\<lparr>ci_source := SDone\<rparr>))
      | SDefault \<Rightarrow>
          if ci_default_emitted it then cpu_id_next src (it\<lparr>ci_source := SDone\<rparr>)
          else (it\<lparr>ci_default_emitted := True\<rparr>, Some 0)
      | SDone \<Rightarrow> (it, None))"
  by pat_completeness auto
termination
  by (relation "measure (\<lambda>(src, it). source_rank (ci_source it))")
     (auto simp: select_source_def split: option.split list.split)

declare cpu_id_next.simps [simp del]

text \<open>The list of all items of the iterator; \<open>iter_left\<close> bounds the items that are still to come.\<close>

definition iter_left :: "cpu_sources \<Rightarrow> cpu_id_iter \<Rightarrow> nat" where
  "iter_left src it =
     (let len = (\<lambda>l. case l of None \<Rightarrow> 0 | Some xs \<Rightarrow> length xs);
          pend = (case ci_pending_first it of None \<Rightarrow> 0 | Some _ \<Rightarrow> 1)
      in case ci_source it of
           SUnknown \<Rightarrow> 3 + len (acpi_cpu_id_list src) + len (fdt_cpu_id_list src)
         | SAcpi \<Rightarrow> pend + (len (acpi_cpu_id_list src) - ci_next_index it)
         | SFdt \<Rightarrow> pend + (len (fdt_cpu_id_list src) - ci_next_index it)
         | SDefault \<Rightarrow> (if ci_default_emitted it then 0 else 1)
         | SDone \<Rightarrow> 0)"

lemma next_from_left:
  assumes "next_from ids it = (it', Some i)"
  shows "ci_source it' = ci_source it"
    and "(case ci_pending_first it' of None \<Rightarrow> 0 | Some _ \<Rightarrow> 1) +
           ((case ids of None \<Rightarrow> 0 | Some xs \<Rightarrow> length xs) - ci_next_index it') <
         (case ci_pending_first it of None \<Rightarrow> 0 | Some _ \<Rightarrow> (1::nat)) +
           ((case ids of None \<Rightarrow> 0 | Some xs \<Rightarrow> length xs) - ci_next_index it)"
  using assms by (auto simp: next_from_def split: option.splits if_splits)

lemma cpu_id_next_left:
  "cpu_id_next src it = (it', Some i) \<Longrightarrow> iter_left src it' < iter_left src it"
proof (induction src it rule: cpu_id_next.induct)
  case (1 src it)
  show ?case
  proof (cases "ci_source it")
    case SUnknown
    let ?it = "select_source src it"
    have "iter_left src it' < iter_left src ?it"
      using 1 SUnknown by (simp add: cpu_id_next.simps [of src it])
    moreover have "iter_left src ?it \<le> iter_left src it"
      using SUnknown by (auto simp: iter_left_def select_source_def Let_def split: option.split list.split)
    ultimately show ?thesis by simp
  next
    case SAcpi
    then show ?thesis using 1 next_from_left [of "acpi_cpu_id_list src" it it' i]
      by (auto simp: cpu_id_next.simps [of src it] cpu_id_next.simps [of src "_\<lparr>ci_source := SDone\<rparr>"]
          iter_left_def Let_def split: prod.splits option.splits)
  next
    case SFdt
    then show ?thesis using 1 next_from_left [of "fdt_cpu_id_list src" it it' i]
      by (auto simp: cpu_id_next.simps [of src it] cpu_id_next.simps [of src "_\<lparr>ci_source := SDone\<rparr>"]
          iter_left_def Let_def split: prod.splits option.splits)
  next
    case SDefault
    then show ?thesis using 1
      by (auto simp: cpu_id_next.simps [of src it] cpu_id_next.simps [of src "_\<lparr>ci_source := SDone\<rparr>"]
          iter_left_def split: if_splits)
  next
    case SDone
    then show ?thesis using 1 by (simp add: cpu_id_next.simps [of src it])
  qed
qed

function collect_ids :: "cpu_sources \<Rightarrow> cpu_id_iter \<Rightarrow> nat list" where
  "collect_ids src it =
     (case cpu_id_next src it of (it', None) \<Rightarrow> [] | (it', Some i) \<Rightarrow> i # collect_ids src it')"
  by pat_completeness auto
termination
  by (relation "measure (\<lambda>(src, it). iter_left src it)") (auto dest!: cpu_id_next_left [OF sym])

declare collect_ids.simps [simp del]

definition cpu_id_list :: "cpu_sources \<Rightarrow> nat list" where
  "cpu_id_list src = collect_ids src cpu_id_iter_new"

text \<open>What the list is meant to be: the first firmware table that names a processor, else processor 0.\<close>

definition firmware_ids :: "cpu_sources \<Rightarrow> nat list" where
  "firmware_ids src =
     (case acpi_cpu_id_list src of
        Some (i # is) \<Rightarrow> i # is
      | _ \<Rightarrow> (case fdt_cpu_id_list src of Some (i # is) \<Rightarrow> i # is | _ \<Rightarrow> [0]))"

lemma collect_fixed:
  assumes "src_list = Some xs" "ci_pending_first it = None"
    and "ci_source it = SAcpi \<and> acpi_cpu_id_list src = src_list \<or> ci_source it = SFdt \<and> fdt_cpu_id_list src = src_list"
  shows "collect_ids src it = drop (ci_next_index it) xs"
  using assms(2,3)
proof (induction "length xs - ci_next_index it" arbitrary: it)
  case 0
  then show ?case
    using assms(1) by (auto simp: collect_ids.simps [of src it] cpu_id_next.simps [of src it] next_from_def
        cpu_id_next.simps [of src "it\<lparr>ci_source := SDone\<rparr>"])
next
  case (Suc n)
  let ?it = "it\<lparr>ci_next_index := ci_next_index it + 1\<rparr>"
  have i: "ci_next_index it < length xs" using Suc.hyps(2) by simp
  have "cpu_id_next src it = (?it, Some (xs ! ci_next_index it))"
    using Suc.prems assms(1) i by (auto simp: cpu_id_next.simps [of src it] next_from_def)
  then have "collect_ids src it = xs ! ci_next_index it # collect_ids src ?it"
    by (simp add: collect_ids.simps [of src it])
  also have "collect_ids src ?it = drop (ci_next_index ?it) xs"
    using Suc.hyps(2) Suc.prems by (intro Suc.hyps(1)) auto
  finally show ?case using i by (simp add: Cons_nth_drop_Suc)
qed

text \<open>The first item of a list was read when the source was chosen.\<close>

lemma collect_first:
  assumes "ci_pending_first it = Some i" "ci_next_index it = 1"
    and "ci_source it = SAcpi \<and> acpi_cpu_id_list src = Some (i # is) \<or>
         ci_source it = SFdt \<and> fdt_cpu_id_list src = Some (i # is)"
  shows "collect_ids src it = i # is"
proof -
  let ?it = "it\<lparr>ci_pending_first := None\<rparr>"
  have "cpu_id_next src it = (?it, Some i)"
    using assms by (auto simp: cpu_id_next.simps [of src it] next_from_def)
  then show ?thesis using collect_fixed [OF refl, of ?it src "i # is"] assms(2,3)
    by (simp add: collect_ids.simps [of src it])
qed

lemma collect_default:
  assumes "ci_source it = SDefault" "\<not> ci_default_emitted it"
  shows "collect_ids src it = [0]"
proof -
  let ?it = "it\<lparr>ci_default_emitted := True\<rparr>"
  have "cpu_id_next src it = (?it, Some 0)" using assms by (simp add: cpu_id_next.simps [of src it])
  moreover have "cpu_id_next src ?it = (?it\<lparr>ci_source := SDone\<rparr>, None)"
    using assms(1) by (simp add: cpu_id_next.simps [of src ?it] cpu_id_next.simps [of src "?it\<lparr>ci_source := SDone\<rparr>"])
  ultimately show ?thesis by (simp add: collect_ids.simps [of src it] collect_ids.simps [of src ?it])
qed

lemma collect_select:
  assumes "ci_source it = SUnknown"
  shows "collect_ids src it = collect_ids src (select_source src it)"
proof -
  have "cpu_id_next src it = cpu_id_next src (select_source src it)"
    using assms by (simp add: cpu_id_next.simps [of src it])
  then show ?thesis by (simp add: collect_ids.simps [of src it] collect_ids.simps [of src "select_source src it"])
qed

lemma cpu_id_list_firmware: "cpu_id_list src = firmware_ids src"
proof -
  let ?it = "select_source src cpu_id_iter_new"
  have "cpu_id_list src = collect_ids src ?it"
    unfolding cpu_id_list_def by (rule collect_select) (simp add: cpu_id_iter_new_def)
  also have "\<dots> = firmware_ids src"
    by (auto simp: select_source_def firmware_ids_def cpu_id_iter_new_def
        intro!: collect_first collect_default split: option.split list.split)
  finally show ?thesis .
qed

fun index_of_id :: "nat \<Rightarrow> nat \<Rightarrow> nat list \<Rightarrow> nat option" where
  "index_of_id idx hart_id [] = None"
| "index_of_id idx hart_id (i # is) = (if i = hart_id then Some idx else index_of_id (Suc idx) hart_id is)"

definition cpu_id_to_idx :: "cpu_sources \<Rightarrow> nat \<Rightarrow> nat option" where
  "cpu_id_to_idx src hart_id = index_of_id 0 hart_id (cpu_id_list src)"

definition cpu_idx_to_id :: "cpu_sources \<Rightarrow> nat \<Rightarrow> nat option" where
  "cpu_idx_to_id src idx = (let l = cpu_id_list src in if idx < length l then Some (l ! idx) else None)"

text \<open>\<open>cpu_idx()\<close> of the CPU whose hardware identifier is \<open>hart_id\<close>.\<close>

definition cpu_idx :: "cpu_sources \<Rightarrow> nat \<Rightarrow> (unit, nat) result" where
  "cpu_idx src hart_id =
     (case index_of_id 0 hart_id (cpu_id_list src) of None \<Rightarrow> Panic | Some idx \<Rightarrow> Ok idx)"

definition cpu_count :: "cpu_sources \<Rightarrow> nat" where
  "cpu_count src = length (cpu_id_list src)"

lemma index_of_id_Some:
  "index_of_id k h l = Some j \<longleftrightarrow> k \<le> j \<and> j < k + length l \<and> l ! (j - k) = h \<and> (\<forall>i < j - k. l ! i \<noteq> h)"
proof (induction l arbitrary: k)
  case (Cons x xs)
  show ?case
  proof (cases "x = h")
    case True
    have "k \<le> j \<and> (\<forall>i < j - k. (x # xs) ! i \<noteq> h) \<longrightarrow> j = k"
      using True by (metis diff_is_0_eq le_antisym nth_Cons_0 zero_less_iff_neq_zero)
    then show ?thesis using True by auto
  next
    case False
    have "(\<forall>i < j - k. (x # xs) ! i \<noteq> h) \<longleftrightarrow> (\<forall>i < j - Suc k. xs ! i \<noteq> h)" if "Suc k \<le> j"
    proof -
      have "j - k = Suc (j - Suc k)" using that by simp
      then show ?thesis using False by (auto simp: less_Suc_eq_0_disj)
    qed
    moreover have "(x # xs) ! (j - k) = xs ! (j - Suc k)" if "Suc k \<le> j"
      using that by (simp add: nth_Cons')
    moreover have "k \<le> j \<and> (x # xs) ! (j - k) = h \<longrightarrow> Suc k \<le> j"
      using False by (cases "j = k") auto
    ultimately show ?thesis using False Cons.IH [of "Suc k"] by auto
  qed
qed auto

lemma cpu_id_idx_inverse:
  assumes "cpu_id_to_idx src h = Some idx"
  shows "cpu_idx_to_id src idx = Some h" "idx < cpu_count src"
  using assms by (auto simp: cpu_id_to_idx_def cpu_idx_to_id_def cpu_count_def index_of_id_Some Let_def)

lemma cpu_idx_id_inverse:
  assumes "distinct (cpu_id_list src)" "cpu_idx_to_id src idx = Some h"
  shows "cpu_id_to_idx src h = Some idx"
  using assms by (auto simp: cpu_id_to_idx_def cpu_idx_to_id_def index_of_id_Some Let_def nth_eq_iff_index_eq
      split: if_splits)

section \<open>Sizes and offsets\<close>

text \<open>Plain additions and products panic when they overflow.\<close>

definition add_usize :: "nat \<Rightarrow> nat \<Rightarrow> (unit, nat) result" where
  "add_usize a b = (if a + b \<le> U64_MAX then Ok (a + b) else Panic)"

definition mul_usize :: "nat \<Rightarrow> nat \<Rightarrow> (unit, nat) result" where
  "mul_usize a b = (if a * b \<le> U64_MAX then Ok (a * b) else Panic)"

definition align_up_pow2 :: "nat \<Rightarrow> nat \<Rightarrow> (unit, nat) result" where
  "align_up_pow2 v align =
     (if \<not> is_power_of_two align then Panic
      else rbind (add_usize v align) (\<lambda>x. Ok (and_not64 (x - 1) (align - 1))))"

record percpu_env =
  pe_boot :: boot_env
  link_start :: nat
  link_end :: nat
  pe_stack_size :: nat
  pe_sources :: cpu_sources
  secondary_entry :: nat
  pe_va :: "nat \<Rightarrow> (unit, nat) result"
  pe_percpu_va :: "nat \<Rightarrow> (unit, nat) result"

record per_cpu_meta =
  stack_top :: nat
  meta_cpu_id :: nat
  meta_cpu_idx :: nat
  stack_top_virt :: nat
  entry_virt :: nat
  boot_table_paddr :: nat
  primary_table_paddr :: nat

text \<open>\<open>PerCpuMeta\<close> has seven fields of eight bytes and the alignment of \<open>usize\<close>.\<close>

definition META_SIZE :: nat where "META_SIZE = 56"

definition meta_align :: nat where "meta_align = max 8 64"

definition percpu_region_align :: "percpu_env \<Rightarrow> nat" where
  "percpu_region_align P = max (page_size (pe_boot P)) meta_align"

definition link_len :: "percpu_env \<Rightarrow> nat" where
  "link_len P = link_end P - link_start P"

text \<open>legacy.rs: one slot per CPU with template, metadata and stack.\<close>

definition meta_offset :: "percpu_env \<Rightarrow> (unit, nat) result" where
  "meta_offset P =
     rbind (align_up_pow2 (link_len P) meta_align) (\<lambda>off. if off mod meta_align \<noteq> 0 then Panic else Ok off)"

definition stack_offset :: "percpu_env \<Rightarrow> (unit, nat) result" where
  "stack_offset P =
     rbind (meta_offset P) (\<lambda>mo.
     rbind (add_usize mo META_SIZE) (\<lambda>x. align_up_pow2 x (page_size (pe_boot P))))"

definition percpu_data_size :: "percpu_env \<Rightarrow> (unit, nat) result" where
  "percpu_data_size P =
     rbind (stack_offset P) (\<lambda>so.
     rbind (add_usize so (pe_stack_size P)) (\<lambda>x. align_up_pow2 x (percpu_region_align P)))"

text \<open>prealloc.rs: three regions, each with one slot per CPU.\<close>

record layout_rec =
  meta_region_offset :: nat
  meta_stride :: nat
  stack_region_offset :: nat
  stack_stride :: nat
  data_region_offset :: nat
  data_stride :: nat
  total_size :: nat

definition aligned_slot_size :: "nat \<Rightarrow> nat \<Rightarrow> (unit, nat) result" where
  "aligned_slot_size sz align = align_up_pow2 (max sz 1) align"

definition layout_info :: "percpu_env \<Rightarrow> nat \<Rightarrow> (unit, layout_rec) result" where
  "layout_info P cpu_num =
     rbind (aligned_slot_size META_SIZE meta_align) (\<lambda>mst.
     rbind (mul_usize mst cpu_num) (\<lambda>mrs.
     rbind (aligned_slot_size (pe_stack_size P) (page_size (pe_boot P))) (\<lambda>sst.
     rbind (align_up_pow2 mrs (page_size (pe_boot P))) (\<lambda>sro.
     rbind (mul_usize sst cpu_num) (\<lambda>srs.
     rbind (aligned_slot_size (link_len P) (percpu_region_align P)) (\<lambda>dst.
     rbind (add_usize sro srs) (\<lambda>x.
     rbind (align_up_pow2 x (percpu_region_align P)) (\<lambda>dro.
     rbind (mul_usize dst cpu_num) (\<lambda>drs.
     rbind (add_usize dro drs) (\<lambda>y.
     rbind (align_up_pow2 y (percpu_region_align P)) (\<lambda>tot.
       Ok \<lparr>meta_region_offset = 0, meta_stride = mst, stack_region_offset = sro, stack_stride = sst,
           data_region_offset = dro, data_stride = dst, total_size = tot\<rparr>)))))))))))"

lemma align_up_pow2_Ok:
  assumes "align_up_pow2 v al = Ok r" "al \<le> U64_MAX"
  shows "al dvd r" "v \<le> r" "r < v + al" "is_power_of_two al"
proof -
  show p: "is_power_of_two al" using assms(1) by (auto simp: align_up_pow2_def split: if_splits)
  have pos: "0 < al" by (rule is_power_of_two_pos [OF p])
  have sum: "v + al \<le> U64_MAX" and r: "r = and_not64 (v + al - 1) (al - 1)"
    using assms(1) p by (auto simp: align_up_pow2_def add_usize_def result_simps split: if_splits)
  have "align_down (v + al - 1) al = Ok ((v + al - 1) div al * al)"
    using sum by (intro align_down_eq p assms(2)) simp
  then have "r = (v + al - 1) div al * al" using p r by (simp add: align_down_def)
  then show "al dvd r" "v \<le> r" "r < v + al" using align_up_props [OF pos, of v] by simp_all
qed

lemma add_usize_Ok [simp]: "add_usize a b = Ok c \<longleftrightarrow> c = a + b \<and> a + b \<le> U64_MAX"
  by (auto simp: add_usize_def)

lemma mul_usize_Ok [simp]: "mul_usize a b = Ok c \<longleftrightarrow> c = a * b \<and> a * b \<le> U64_MAX"
  by (auto simp: mul_usize_def)

definition percpu_env_ok :: "percpu_env \<Rightarrow> bool" where
  "percpu_env_ok P \<longleftrightarrow>
     is_power_of_two (page_size (pe_boot P)) \<and> 64 \<le> page_size (pe_boot P) \<and> page_size (pe_boot P) \<le> U64_MAX"

lemma region_align_le: "percpu_env_ok P \<Longrightarrow> percpu_region_align P \<le> U64_MAX"
  by (simp add: percpu_env_ok_def percpu_region_align_def meta_align_def U64_MAX_def)

text \<open>The parts of one slot follow each other and the metadata and the stack are aligned.\<close>

lemma legacy_slot:
  assumes "percpu_env_ok P" "percpu_data_size P = Ok sz"
  obtains mo so where "meta_offset P = Ok mo" "stack_offset P = Ok so"
    "link_len P \<le> mo" "meta_align dvd mo" "mo + META_SIZE \<le> so" "page_size (pe_boot P) dvd so"
    "so + pe_stack_size P \<le> sz" "percpu_region_align P dvd sz"
proof -
  obtain so where so: "stack_offset P = Ok so" "align_up_pow2 (so + pe_stack_size P) (percpu_region_align P) = Ok sz"
    using assms(2) by (auto simp: percpu_data_size_def result_simps)
  obtain mo where mo: "meta_offset P = Ok mo" "align_up_pow2 (mo + META_SIZE) (page_size (pe_boot P)) = Ok so"
    using so(1) by (auto simp: stack_offset_def result_simps)
  have al: "align_up_pow2 (link_len P) meta_align = Ok mo"
    using mo(1) by (auto simp: meta_offset_def result_simps split: if_splits)
  have a: "meta_align \<le> U64_MAX" by (simp add: meta_align_def U64_MAX_def)
  have "page_size (pe_boot P) \<le> U64_MAX" using assms(1) by (simp add: percpu_env_ok_def)
  with align_up_pow2_Ok [OF so(2) region_align_le [OF assms(1)]] align_up_pow2_Ok [OF mo(2)]
    align_up_pow2_Ok [OF al a]
  show thesis by (intro that [OF mo(1) so(1)]) simp_all
qed

text \<open>The regions follow each other, hold one slot per CPU, and every slot is aligned.\<close>

lemma layout_info_Ok:
  assumes "percpu_env_ok P" "layout_info P n = Ok L"
  shows "meta_region_offset L = 0" "META_SIZE \<le> meta_stride L" "meta_align dvd meta_stride L"
    "meta_stride L * n \<le> stack_region_offset L" "page_size (pe_boot P) dvd stack_region_offset L"
    "pe_stack_size P \<le> stack_stride L" "page_size (pe_boot P) dvd stack_stride L"
    "stack_region_offset L + stack_stride L * n \<le> data_region_offset L"
    "percpu_region_align P dvd data_region_offset L" "link_len P \<le> data_stride L"
    "percpu_region_align P dvd data_stride L" "data_region_offset L + data_stride L * n \<le> total_size L"
proof -
  have ps: "page_size (pe_boot P) \<le> U64_MAX" using assms(1) by (simp add: percpu_env_ok_def)
  have a: "meta_align \<le> U64_MAX" by (simp add: meta_align_def U64_MAX_def)
  note ra = region_align_le [OF assms(1)]
  from assms(2) obtain mst sro sst dst dro tot where
    L: "L = \<lparr>meta_region_offset = 0, meta_stride = mst, stack_region_offset = sro, stack_stride = sst,
           data_region_offset = dro, data_stride = dst, total_size = tot\<rparr>"
    and e: "aligned_slot_size META_SIZE meta_align = Ok mst"
      "aligned_slot_size (pe_stack_size P) (page_size (pe_boot P)) = Ok sst"
      "align_up_pow2 (mst * n) (page_size (pe_boot P)) = Ok sro"
      "aligned_slot_size (link_len P) (percpu_region_align P) = Ok dst"
      "align_up_pow2 (sro + sst * n) (percpu_region_align P) = Ok dro"
      "align_up_pow2 (dro + dst * n) (percpu_region_align P) = Ok tot"
    by (auto simp: layout_info_def result_simps)
  note m = align_up_pow2_Ok [OF e(1) [unfolded aligned_slot_size_def] a]
    and s = align_up_pow2_Ok [OF e(2) [unfolded aligned_slot_size_def] ps]
    and d = align_up_pow2_Ok [OF e(4) [unfolded aligned_slot_size_def] ra]
    and so = align_up_pow2_Ok [OF e(3) ps] and do = align_up_pow2_Ok [OF e(5) ra]
    and t = align_up_pow2_Ok [OF e(6) ra]
  show "meta_region_offset L = 0" "meta_align dvd meta_stride L" "page_size (pe_boot P) dvd stack_region_offset L"
    "page_size (pe_boot P) dvd stack_stride L" "percpu_region_align P dvd data_region_offset L"
    "percpu_region_align P dvd data_stride L"
    using m s d so do by (simp_all add: L)
  show "META_SIZE \<le> meta_stride L" "meta_stride L * n \<le> stack_region_offset L" "pe_stack_size P \<le> stack_stride L"
    "stack_region_offset L + stack_stride L * n \<le> data_region_offset L" "link_len P \<le> data_stride L"
    "data_region_offset L + data_stride L * n \<le> total_size L"
    using m(2) s(2) d(2) so(2) do(2) t(2) by (simp_all add: L)
qed

end
