(* ===== verification/Bytes.thy ===== *)
theory Bytes
  imports Prelude
begin

text \<open>
  Memory as a function from addresses to bytes, with the accesses that the unsafe code of the repository
  makes: words of 64 bits in little-endian order, filling, copying, and slices.
\<close>

type_synonym bytes = "nat \<Rightarrow> nat"

definition read_u64 :: "bytes \<Rightarrow> nat \<Rightarrow> nat" where
  "read_u64 m a = (\<Sum>k<8. m (a + k) * 256 ^ k)"

definition write_u64 :: "nat \<Rightarrow> nat \<Rightarrow> bytes \<Rightarrow> bytes" where
  "write_u64 a v m = (\<lambda>x. if a \<le> x \<and> x < a + 8 then v div 256 ^ (x - a) mod 256 else m x)"

definition write_bytes :: "nat \<Rightarrow> nat \<Rightarrow> nat \<Rightarrow> bytes \<Rightarrow> bytes" where
  "write_bytes a v n m = (\<lambda>x. if a \<le> x \<and> x < a + n then v else m x)"

definition copy_nonoverlapping :: "nat \<Rightarrow> nat \<Rightarrow> nat \<Rightarrow> bytes \<Rightarrow> bytes" where
  "copy_nonoverlapping src dst n m = (\<lambda>x. if dst \<le> x \<and> x < dst + n then m (src + (x - dst)) else m x)"

text \<open>A slice of memory as a list, and storing a list.\<close>

definition load :: "bytes \<Rightarrow> nat \<Rightarrow> nat \<Rightarrow> nat list" where
  "load m a n = map (\<lambda>i. m (a + i)) [0 ..< n]"

definition store :: "nat \<Rightarrow> nat list \<Rightarrow> bytes \<Rightarrow> bytes" where
  "store a xs m = (\<lambda>x. if a \<le> x \<and> x < a + length xs then xs ! (x - a) else m x)"

text \<open>Two ranges of memory, given by start and length, do not meet.\<close>

definition apart :: "nat \<Rightarrow> nat \<Rightarrow> nat \<Rightarrow> nat \<Rightarrow> bool" where
  "apart a n b m \<longleftrightarrow> a + n \<le> b \<or> b + m \<le> a"

lemma apart_sym: "apart a n b m \<longleftrightarrow> apart b m a n"
  by (auto simp: apart_def)

section \<open>Words\<close>

lemma base256: "(\<Sum>k<n. v div 256 ^ k mod 256 * 256 ^ k) = (v::nat) mod 256 ^ n"
proof (induction n)
  case (Suc n)
  have "v mod 256 ^ Suc n = v div 256 ^ n mod 256 * 256 ^ n + v mod 256 ^ n"
    using mod_mult2_eq [of v "256 ^ n" 256] by (simp add: mult.commute)
  then show ?case using Suc by simp
qed simp

lemma read_write_same: "v \<le> U64_MAX \<Longrightarrow> read_u64 (write_u64 a v m) a = v"
proof -
  assume v: "v \<le> U64_MAX"
  have "read_u64 (write_u64 a v m) a = (\<Sum>k<8. v div 256 ^ k mod 256 * 256 ^ k)"
    unfolding read_u64_def by (intro sum.cong) (simp_all add: write_u64_def)
  also have "\<dots> = v" using v unfolding base256 by (simp add: U64_MAX_def)
  finally show ?thesis .
qed

lemma read_u64_cong: "(\<And>x. a \<le> x \<Longrightarrow> x < a + 8 \<Longrightarrow> m x = m' x) \<Longrightarrow> read_u64 m a = read_u64 m' a"
  unfolding read_u64_def by (intro sum.cong) simp_all

lemma read_write_other: "a + 8 \<le> b \<or> b + 8 \<le> a \<Longrightarrow> read_u64 (write_u64 b v m) a = read_u64 m a"
  by (rule read_u64_cong) (auto simp: write_u64_def)

section \<open>Slices\<close>

lemma length_load [simp]: "length (load m a n) = n"
  by (simp add: load_def)

lemma nth_load [simp]: "i < n \<Longrightarrow> load m a n ! i = m (a + i)"
  by (simp add: load_def)

lemma load_cong: "(\<And>x. a \<le> x \<Longrightarrow> x < a + n \<Longrightarrow> m x = m' x) \<Longrightarrow> load m a n = load m' a n"
  by (simp add: load_def)

lemma load_store_same [simp]: "n = length xs \<Longrightarrow> load (store a xs m) a n = xs"
  by (auto simp: store_def intro: nth_equalityI)

lemma load_store_apart: "apart a n b (length xs) \<Longrightarrow> load (store b xs m) a n = load m a n"
  by (rule load_cong) (auto simp: store_def apart_def)

lemma store_load_same: "store a (load m a n) m = m"
  by (auto simp: store_def fun_eq_iff)

lemma copy_is_store: "copy_nonoverlapping src dst n m = store dst (load m src n) m"
  by (auto simp: copy_nonoverlapping_def store_def fun_eq_iff)

lemma load_write_bytes: "load (write_bytes a v n m) a n = replicate n v"
  by (auto simp: write_bytes_def intro: nth_equalityI)

lemma load_write_bytes_apart: "apart a n b k \<Longrightarrow> load (write_bytes b v k m) a n = load m a n"
  by (rule load_cong) (auto simp: write_bytes_def apart_def)

end
