(* ===== verification/Percpu_Alloc.thy ===== *)
theory Percpu_Alloc
  imports Percpu Bytes
begin

text \<open>
  Allocation and initialisation of the per-CPU areas: \<open>alloc_percpu\<close> of \<open>smp/legacy.rs\<close> (one slot per
  CPU) and of \<open>smp/prealloc.rs\<close> (three regions), the iterators over the metadata and \<open>init_percpu\<close> of
  \<open>smp/mod.rs\<close>, and \<open>mem::early_init\<close>, which ends with the allocation.

  Memory is a function from physical addresses to bytes.  A pointer made by \<open>phys_to_virt(p)\<close> is
  dereferenced at \<open>p\<close>: the pointer value itself matters only for the alignment assertions.
\<close>

section \<open>Metadata in memory\<close>

text \<open>\<open>PerCpuMeta\<close> is \<open>repr(C)\<close>: the fields follow each other in the order of their declaration.\<close>

definition read_meta :: "bytes \<Rightarrow> nat \<Rightarrow> per_cpu_meta" where
  "read_meta m a =
     \<lparr>stack_top = read_u64 m a, meta_cpu_id = read_u64 m (a + 8), meta_cpu_idx = read_u64 m (a + 16),
      stack_top_virt = read_u64 m (a + 24), entry_virt = read_u64 m (a + 32),
      boot_table_paddr = read_u64 m (a + 40), primary_table_paddr = read_u64 m (a + 48)\<rparr>"

definition write_meta :: "nat \<Rightarrow> per_cpu_meta \<Rightarrow> bytes \<Rightarrow> bytes" where
  "write_meta a d m =
     write_u64 (a + 48) (primary_table_paddr d) (write_u64 (a + 40) (boot_table_paddr d)
     (write_u64 (a + 32) (entry_virt d) (write_u64 (a + 24) (stack_top_virt d)
     (write_u64 (a + 16) (meta_cpu_idx d) (write_u64 (a + 8) (meta_cpu_id d)
     (write_u64 a (stack_top d) m))))))"

section \<open>State and the new region\<close>

record percpu_mem =
  pm_boot :: boot_mem
  pm_bytes :: bytes

definition on_boot :: "(boot_mem \<Rightarrow> boot_mem \<times> ('e, 'a) result) \<Rightarrow> percpu_mem \<Rightarrow> percpu_mem \<times> ('e, 'a) result" where
  "on_boot f s = (case f (pm_boot s) of (b, r) \<Rightarrow> (s\<lparr>pm_boot := b\<rparr>, r))"

abbreviation write_mem :: "(bytes \<Rightarrow> bytes) \<Rightarrow> percpu_mem \<Rightarrow> percpu_mem" where
  "write_mem f s \<equiv> pm_bytes_update f s"

definition pcpu_phys_to_virt :: "percpu_env \<Rightarrow> percpu_mem \<Rightarrow> nat \<Rightarrow> (unit, nat) result" where
  "pcpu_phys_to_virt P s p = phys_to_virt (pe_va P) (pe_percpu_va P) (pm_boot s) p"

definition alloc_percpu_region :: "percpu_env \<Rightarrow> nat \<Rightarrow> boot_mem \<Rightarrow> boot_mem \<times> (unit, nat) result" where
  "alloc_percpu_region P sz s =
     and_then (flush_to_memory_map (pe_boot P) Reserved s) (\<lambda>_ s.
       if \<not> layout_from_size_align sz (percpu_region_align P) then (s, Panic)
       else and_then (alloc_and_flush_to_memory_map (pe_boot P) sz (percpu_region_align P) PerCpuData s)
              (\<lambda>r s. case r of None \<Rightarrow> (s, Panic) | Some a \<Rightarrow> (s, Ok a)))"

definition set_percpu_range :: "nat \<Rightarrow> nat \<Rightarrow> boot_mem \<Rightarrow> boot_mem" where
  "set_percpu_range a b s = s\<lparr>PERCPU_START := a, PERCPU_END := b\<rparr>"

text \<open>The part the two layouts share: take the region, record it, and fill it with zeros.\<close>

definition claim_region :: "percpu_env \<Rightarrow> nat \<Rightarrow> percpu_mem \<Rightarrow> percpu_mem \<times> (unit, nat) result" where
  "claim_region P sz s =
     and_then (on_boot (alloc_percpu_region P sz) s) (\<lambda>base s.
     and_then (s, add_usize base sz) (\<lambda>fin s.
     and_then (s\<lparr>pm_boot := set_percpu_range base fin (pm_boot s)\<rparr>, Ok ()) (\<lambda>_ s.
     and_then (s, pcpu_phys_to_virt P s base) (\<lambda>_ s.
       (write_mem (write_bytes base 0 sz) s, Ok base)))))"

section \<open>One slot per CPU (legacy.rs)\<close>

definition legacy_cpu_base :: "percpu_env \<Rightarrow> percpu_mem \<Rightarrow> nat \<Rightarrow> (unit, nat) result" where
  "legacy_cpu_base P s idx =
     rbind (percpu_data_size P) (\<lambda>sz.
     rbind (mul_usize idx sz) (\<lambda>off. add_usize (PERCPU_START (pm_boot s)) off))"

definition legacy_cpu_meta_addr :: "percpu_env \<Rightarrow> percpu_mem \<Rightarrow> nat \<Rightarrow> (unit, nat option) result" where
  "legacy_cpu_meta_addr P s idx =
     rbind (legacy_cpu_base P s idx) (\<lambda>base.
       if PERCPU_END (pm_boot s) \<le> base then Ok None
       else rbind (meta_offset P) (\<lambda>mo. rbind (add_usize base mo) (\<lambda>a. Ok (Some a))))"

definition legacy_percpu_data_ptr :: "percpu_env \<Rightarrow> percpu_mem \<Rightarrow> nat \<Rightarrow> (unit, nat option) result" where
  "legacy_percpu_data_ptr P s idx =
     rbind (legacy_cpu_base P s idx) (\<lambda>base.
       if PERCPU_END (pm_boot s) \<le> base then Ok None
       else rbind (pcpu_phys_to_virt P s base) (\<lambda>v. Ok (Some v)))"

definition legacy_init_cpu ::
  "percpu_env \<Rightarrow> nat \<Rightarrow> nat \<Rightarrow> nat \<Rightarrow> nat \<Rightarrow> percpu_mem \<Rightarrow> percpu_mem \<times> (unit, unit) result"
where
  "legacy_init_cpu P percpu_size entry idx hard_id s =
     and_then (s, rbind (mul_usize idx percpu_size) (add_usize (PERCPU_START (pm_boot s)))) (\<lambda>start s.
     and_then (s, pcpu_phys_to_virt P s (link_start P)) (\<lambda>_ s.
     and_then (s, pcpu_phys_to_virt P s start) (\<lambda>_ s.
     and_then (write_mem (copy_nonoverlapping (link_start P) start (link_len P)) s, Ok ()) (\<lambda>_ s.
     and_then (s, rbind (meta_offset P) (add_usize start)) (\<lambda>meta_start s.
     and_then (s, pcpu_phys_to_virt P s meta_start) (\<lambda>meta_va s.
       if meta_start mod meta_align \<noteq> 0 \<or> meta_va mod meta_align \<noteq> 0 then (s, Panic)
       else
         and_then (s, rbind (stack_offset P) (\<lambda>so. rbind (add_usize start so) (\<lambda>x. add_usize x (pe_stack_size P))))
           (\<lambda>top s.
         and_then (s, pe_percpu_va P top) (\<lambda>top_virt s.
           (write_mem (write_meta meta_start
              \<lparr>stack_top = top, meta_cpu_id = hard_id, meta_cpu_idx = idx, stack_top_virt = top_virt,
               entry_virt = entry, boot_table_paddr = 0, primary_table_paddr = 0\<rparr>) s, Ok ())))))))))"

fun legacy_init_cpus ::
  "percpu_env \<Rightarrow> nat \<Rightarrow> nat \<Rightarrow> nat \<Rightarrow> nat list \<Rightarrow> percpu_mem \<Rightarrow> percpu_mem \<times> (unit, unit) result"
where
  "legacy_init_cpus P percpu_size entry idx [] s = (s, Ok ())"
| "legacy_init_cpus P percpu_size entry idx (hard_id # ids) s =
     and_then (legacy_init_cpu P percpu_size entry idx hard_id s) (\<lambda>_.
       legacy_init_cpus P percpu_size entry (Suc idx) ids)"

section \<open>The iterators over the metadata\<close>

text \<open>\<open>addr\<close> is \<open>cpu_meta_addr\<close> of the layout that the build selects.\<close>

definition cpu_meta ::
  "(percpu_env \<Rightarrow> percpu_mem \<Rightarrow> nat \<Rightarrow> (unit, nat option) result) \<Rightarrow>
   percpu_env \<Rightarrow> percpu_mem \<Rightarrow> nat \<Rightarrow> (unit, per_cpu_meta option) result"
where
  "cpu_meta addr P s idx =
     rbind (addr P s idx) (\<lambda>oa.
       case oa of
         None \<Rightarrow> Ok None
       | Some a \<Rightarrow>
           rbind (pcpu_phys_to_virt P s a) (\<lambda>va.
             if va mod meta_align \<noteq> 0 then Panic else Ok (Some (read_meta (pm_bytes s) a))))"

text \<open>All items from \<open>idx\<close> on; \<open>None\<close> if the iterator never ends.\<close>

partial_function (option) cpu_meta_list_from ::
  "(percpu_env \<Rightarrow> percpu_mem \<Rightarrow> nat \<Rightarrow> (unit, nat option) result) \<Rightarrow>
   percpu_env \<Rightarrow> percpu_mem \<Rightarrow> nat \<Rightarrow> per_cpu_meta list \<Rightarrow> (unit, per_cpu_meta list) result option"
where [code]:
  "cpu_meta_list_from addr P s idx acc =
     (case cpu_meta addr P s idx of
        Ok None \<Rightarrow> Some (Ok (rev acc))
      | Ok (Some d) \<Rightarrow>
          if U64_MAX < idx + 1 then Some Panic else cpu_meta_list_from addr P s (idx + 1) (d # acc)
      | Err e \<Rightarrow> Some (Err e)
      | Panic \<Rightarrow> Some Panic)"

definition cpu_meta_list ::
  "(percpu_env \<Rightarrow> percpu_mem \<Rightarrow> nat \<Rightarrow> (unit, nat option) result) \<Rightarrow>
   percpu_env \<Rightarrow> percpu_mem \<Rightarrow> (unit, per_cpu_meta list) result option"
where
  "cpu_meta_list addr P s = cpu_meta_list_from addr P s 0 []"

text \<open>The loop of \<open>init_percpu\<close> writes two fields of every item before it asks for the next one.\<close>

partial_function (option) set_tables_from ::
  "(percpu_env \<Rightarrow> percpu_mem \<Rightarrow> nat \<Rightarrow> (unit, nat option) result) \<Rightarrow> percpu_env \<Rightarrow> nat \<Rightarrow> nat \<Rightarrow>
   nat \<Rightarrow> percpu_mem \<Rightarrow> (percpu_mem \<times> (unit, unit) result) option"
where [code]:
  "set_tables_from addr P boot_table primary_table idx s =
     (case addr P s idx of
        Ok None \<Rightarrow> Some (s, Ok ())
      | Ok (Some a) \<Rightarrow>
          (case pcpu_phys_to_virt P s a of
             Ok va \<Rightarrow>
               if va mod meta_align \<noteq> 0 \<or> U64_MAX < idx + 1 then Some (s, Panic)
               else set_tables_from addr P boot_table primary_table (idx + 1)
                      (write_mem (write_u64 (a + 48) primary_table)
                      (write_mem (write_u64 (a + 40) boot_table) s))
           | Err e \<Rightarrow> Some (s, Err e)
           | Panic \<Rightarrow> Some (s, Panic))
      | Err e \<Rightarrow> Some (s, Err e)
      | Panic \<Rightarrow> Some (s, Panic))"

text \<open>Cleaning the cache has no effect on the state; its arguments can panic.\<close>

definition init_percpu ::
  "(percpu_env \<Rightarrow> percpu_mem \<Rightarrow> nat \<Rightarrow> (unit, nat option) result) \<Rightarrow> percpu_env \<Rightarrow> nat \<Rightarrow> nat \<Rightarrow>
   percpu_mem \<Rightarrow> (percpu_mem \<times> (unit, unit) result) option"
where
  "init_percpu addr P boot_table primary_table s =
     map_option (\<lambda>r. and_then r (\<lambda>_ s.
         and_then (s, pe_percpu_va P (PERCPU_START (pm_boot s))) (\<lambda>_ s.
           (s, if PERCPU_END (pm_boot s) < PERCPU_START (pm_boot s) then Panic else Ok ()))))
       (set_tables_from addr P boot_table primary_table 0 s)"

text \<open>The closing loop of \<open>alloc_percpu\<close> prints every item; only its outcome matters here.\<close>

definition print_metas ::
  "(percpu_env \<Rightarrow> percpu_mem \<Rightarrow> nat \<Rightarrow> (unit, nat option) result) \<Rightarrow> percpu_env \<Rightarrow>
   percpu_mem \<times> (unit, unit) result \<Rightarrow> (percpu_mem \<times> (unit, unit) result) option"
where
  "print_metas addr P r =
     (case r of
        (s, Ok _) \<Rightarrow> map_option (\<lambda>l. (s, rbind l (\<lambda>_. Ok ()))) (cpu_meta_list addr P s)
      | (s, Err e) \<Rightarrow> Some (s, Err e)
      | (s, Panic) \<Rightarrow> Some (s, Panic))"

definition legacy_alloc_percpu :: "percpu_env \<Rightarrow> percpu_mem \<Rightarrow> (percpu_mem \<times> (unit, unit) result) option" where
  "legacy_alloc_percpu P s =
     print_metas legacy_cpu_meta_addr P
       (and_then (s, percpu_data_size P) (\<lambda>percpu_size s.
        and_then (s, mul_usize percpu_size (cpu_count (pe_sources P))) (\<lambda>all_size s.
        and_then (claim_region P all_size s) (\<lambda>_ s.
        and_then (s, kimage_va (pm_boot s) (secondary_entry P)) (\<lambda>entry s.
          legacy_init_cpus P percpu_size entry 0 (cpu_id_list (pe_sources P)) s)))))"

section \<open>Three regions (prealloc.rs)\<close>

definition slot_start ::
  "(layout_rec \<Rightarrow> nat) \<Rightarrow> (layout_rec \<Rightarrow> nat) \<Rightarrow> percpu_env \<Rightarrow> percpu_mem \<Rightarrow> nat \<Rightarrow> (unit, nat option) result"
where
  "slot_start offset stride P s idx =
     (if cpu_count (pe_sources P) \<le> idx then Ok None
      else
        rbind (layout_info P (cpu_count (pe_sources P))) (\<lambda>L.
        rbind (add_usize (PERCPU_START (pm_boot s)) (offset L)) (\<lambda>b.
        rbind (mul_usize idx (stride L)) (\<lambda>off.
        rbind (add_usize b off) (\<lambda>a. Ok (Some a))))))"

definition cpu_meta_start :: "percpu_env \<Rightarrow> percpu_mem \<Rightarrow> nat \<Rightarrow> (unit, nat option) result" where
  "cpu_meta_start = slot_start meta_region_offset meta_stride"

definition cpu_stack_start :: "percpu_env \<Rightarrow> percpu_mem \<Rightarrow> nat \<Rightarrow> (unit, nat option) result" where
  "cpu_stack_start = slot_start stack_region_offset stack_stride"

definition cpu_data_start :: "percpu_env \<Rightarrow> percpu_mem \<Rightarrow> nat \<Rightarrow> (unit, nat option) result" where
  "cpu_data_start = slot_start data_region_offset data_stride"

definition prealloc_percpu_data_ptr :: "percpu_env \<Rightarrow> percpu_mem \<Rightarrow> nat \<Rightarrow> (unit, nat option) result" where
  "prealloc_percpu_data_ptr P s idx =
     rbind (cpu_data_start P s idx) (\<lambda>ob.
       case ob of None \<Rightarrow> Ok None
       | Some base \<Rightarrow> rbind (pcpu_phys_to_virt P s base) (\<lambda>v. Ok (Some v)))"

definition unwrap_opt :: "(unit, 'a option) result \<Rightarrow> (unit, 'a) result" where
  "unwrap_opt r = rbind r (\<lambda>ox. case ox of None \<Rightarrow> Panic | Some x \<Rightarrow> Ok x)"

definition prealloc_init_cpu ::
  "percpu_env \<Rightarrow> nat \<Rightarrow> nat \<Rightarrow> nat \<Rightarrow> percpu_mem \<Rightarrow> percpu_mem \<times> (unit, unit) result"
where
  "prealloc_init_cpu P entry idx hard_id s =
     and_then (s, unwrap_opt (cpu_data_start P s idx)) (\<lambda>data_start s.
     and_then (s, unwrap_opt (cpu_meta_start P s idx)) (\<lambda>meta_start s.
     and_then (s, unwrap_opt (cpu_stack_start P s idx)) (\<lambda>stack_start s.
       if meta_start mod meta_align \<noteq> 0 \<or> stack_start mod page_size (pe_boot P) \<noteq> 0 \<or>
          data_start mod percpu_region_align P \<noteq> 0 then (s, Panic)
       else
         and_then (s, pcpu_phys_to_virt P s (link_start P)) (\<lambda>_ s.
         and_then (s, pcpu_phys_to_virt P s data_start) (\<lambda>_ s.
         and_then (write_mem (copy_nonoverlapping (link_start P) data_start (link_len P)) s, Ok ()) (\<lambda>_ s.
         and_then (s, pcpu_phys_to_virt P s meta_start) (\<lambda>meta_va s.
           if meta_start mod meta_align \<noteq> 0 \<or> meta_va mod meta_align \<noteq> 0 then (s, Panic)
           else
             and_then (s, add_usize stack_start (pe_stack_size P)) (\<lambda>top s.
             and_then (s, pe_percpu_va P top) (\<lambda>top_virt s.
               (write_mem (write_meta meta_start
                  \<lparr>stack_top = top, meta_cpu_id = hard_id, meta_cpu_idx = idx, stack_top_virt = top_virt,
                   entry_virt = entry, boot_table_paddr = 0, primary_table_paddr = 0\<rparr>) s, Ok ()))))))))))"

fun prealloc_init_cpus ::
  "percpu_env \<Rightarrow> nat \<Rightarrow> nat \<Rightarrow> nat list \<Rightarrow> percpu_mem \<Rightarrow> percpu_mem \<times> (unit, unit) result"
where
  "prealloc_init_cpus P entry idx [] s = (s, Ok ())"
| "prealloc_init_cpus P entry idx (hard_id # ids) s =
     and_then (prealloc_init_cpu P entry idx hard_id s) (\<lambda>_. prealloc_init_cpus P entry (Suc idx) ids)"

definition layout_asserts :: "percpu_env \<Rightarrow> layout_rec \<Rightarrow> bool" where
  "layout_asserts P L \<longleftrightarrow>
     meta_region_offset L mod meta_align = 0 \<and> meta_stride L mod meta_align = 0 \<and>
     stack_region_offset L mod page_size (pe_boot P) = 0 \<and> stack_stride L mod page_size (pe_boot P) = 0 \<and>
     data_region_offset L mod percpu_region_align P = 0 \<and> data_stride L mod percpu_region_align P = 0"

text \<open>The arguments of the message about the layout are sums that can overflow.\<close>

definition layout_message :: "layout_rec \<Rightarrow> percpu_mem \<Rightarrow> (unit, unit) result" where
  "layout_message L s =
     rbind (add_usize (PERCPU_START (pm_boot s)) (meta_region_offset L)) (\<lambda>_.
     rbind (add_usize (PERCPU_START (pm_boot s)) (stack_region_offset L)) (\<lambda>_.
     rbind (add_usize (PERCPU_START (pm_boot s)) (data_region_offset L)) (\<lambda>_. Ok ())))"

definition prealloc_alloc_percpu :: "percpu_env \<Rightarrow> percpu_mem \<Rightarrow> (percpu_mem \<times> (unit, unit) result) option" where
  "prealloc_alloc_percpu P s =
     print_metas cpu_meta_start P
       (and_then (s, layout_info P (cpu_count (pe_sources P))) (\<lambda>L s.
          if \<not> layout_asserts P L then (s, Panic)
          else
            and_then (claim_region P (total_size L) s) (\<lambda>_ s.
            and_then (s, layout_message L s) (\<lambda>_ s.
            and_then (s, kimage_va (pm_boot s) (secondary_entry P)) (\<lambda>entry s.
              prealloc_init_cpus P entry 0 (cpu_id_list (pe_sources P)) s)))))"

section \<open>The boot sequence\<close>

text \<open>\<open>CONST_PAGE_SIZE\<close> is the constant of \<open>consts.rs\<close> (4 KiB or 16 KiB); \<open>arch_reserve\<close> is
  \<open>reserve_arch_early_ranges\<close> of the target.\<close>

definition add_kimage :: "boot_env \<Rightarrow> boot_mem \<Rightarrow> boot_mem \<times> (unit, unit) result" where
  "add_kimage E s =
     and_then (s, kimage_range s) (\<lambda>(kstart, kend) s.
       if kend < kstart then (s, Panic)
       else unwrap (add_memory_descriptor E
              \<lparr>physical_start = kstart, size_in_bytes = kend - kstart, memory_type = KImage\<rparr> s))"

definition sort_map :: "boot_mem \<Rightarrow> boot_mem \<times> (unit, unit) result" where
  "sort_map s =
     (case cell_update (MEMORY_MAP s) (\<lambda>mem. (sort_key physical_start mem, Ok ())) of
        (c, r) \<Rightarrow> (s\<lparr>MEMORY_MAP := c\<rparr>, r))"

definition early_boot ::
  "boot_env \<Rightarrow> nat \<Rightarrow> (boot_mem \<Rightarrow> boot_mem \<times> (unit, unit) result) \<Rightarrow> boot_mem \<Rightarrow> boot_mem \<times> (unit, unit) result"
where
  "early_boot E CONST_PAGE_SIZE arch_reserve s =
     and_then (init_memory_map E CONST_PAGE_SIZE s) (\<lambda>_ s.
     and_then (add_kimage E s) (\<lambda>_ s.
     and_then (arch_reserve s) (\<lambda>_ s.
     and_then (sort_map s) (\<lambda>_ s.
     and_then (print_memory_map s) (\<lambda>_ s.
     and_then (s, memory_map s) (\<lambda>mem s.
       case large_free_range mem of
         None \<Rightarrow> (s, Panic)
       | Some (a, b) \<Rightarrow> save_fdt E (ram_init a b s)))))))"

definition early_init ::
  "(percpu_env \<Rightarrow> percpu_mem \<Rightarrow> (percpu_mem \<times> (unit, unit) result) option) \<Rightarrow> percpu_env \<Rightarrow> nat \<Rightarrow>
   (boot_mem \<Rightarrow> boot_mem \<times> (unit, unit) result) \<Rightarrow> percpu_mem \<Rightarrow> (percpu_mem \<times> (unit, unit) result) option"
where
  "early_init alloc_percpu P CONST_PAGE_SIZE arch_reserve s =
     (case on_boot (early_boot (pe_boot P) CONST_PAGE_SIZE arch_reserve) s of
        (s, Ok _) \<Rightarrow> alloc_percpu P s
      | (s, Err e) \<Rightarrow> Some (s, Err e)
      | (s, Panic) \<Rightarrow> Some (s, Panic))"

end
