(* ===== verification/Percpu_Laws.thy ===== *)
theory Percpu_Laws
  imports Percpu_Alloc
begin

text \<open>
  Laws of the per-CPU areas.  The locale \<open>percpu_layout\<close> is what the iterators of \<open>smp/mod.rs\<close> need of
  the layout the build selects; both layouts are instances.  The rest of the theory shows that
  \<open>alloc_percpu\<close> returns and leaves every CPU with its own template copy, metadata and stack.
\<close>

section \<open>Reading back what was written\<close>

lemma read_meta_cong:
  assumes "\<And>x. a \<le> x \<Longrightarrow> x < a + META_SIZE \<Longrightarrow> m x = m' x"
  shows "read_meta m a = read_meta m' a"
proof -
  have "read_u64 m (a + k) = read_u64 m' (a + k)" if "k \<le> 48" for k
    using that assms by (intro read_u64_cong) (simp add: META_SIZE_def)
  from this [of 0] this [of 8] this [of 16] this [of 24] this [of 32] this [of 40] this [of 48]
  show ?thesis by (simp add: read_meta_def)
qed

text \<open>Every field fits in a machine word.\<close>

definition meta_fits :: "per_cpu_meta \<Rightarrow> bool" where
  "meta_fits d \<longleftrightarrow> stack_top d \<le> U64_MAX \<and> meta_cpu_id d \<le> U64_MAX \<and> meta_cpu_idx d \<le> U64_MAX \<and>
     stack_top_virt d \<le> U64_MAX \<and> entry_virt d \<le> U64_MAX \<and> boot_table_paddr d \<le> U64_MAX \<and>
     primary_table_paddr d \<le> U64_MAX"

lemma read_write_meta: "meta_fits d \<Longrightarrow> read_meta (write_meta a d m) a = d"
  by (simp add: read_meta_def write_meta_def read_write_same read_write_other meta_fits_def)

lemma write_meta_outside: "x < a \<or> a + META_SIZE \<le> x \<Longrightarrow> write_meta a d m x = m x"
  by (auto simp: write_meta_def write_u64_def META_SIZE_def)

lemma read_meta_apart:
  "a + META_SIZE \<le> b \<or> b + META_SIZE \<le> a \<Longrightarrow> read_meta (write_meta b d m) a = read_meta m a"
  by (rule read_meta_cong) (auto intro: write_meta_outside)

lemma read_meta_tables:
  assumes "t1 \<le> U64_MAX" "t2 \<le> U64_MAX"
  shows "read_meta (write_u64 (a + 48) t2 (write_u64 (a + 40) t1 m)) a =
         (read_meta m a)\<lparr>boot_table_paddr := t1, primary_table_paddr := t2\<rparr>"
  using assms by (simp add: read_meta_def read_write_same read_write_other)

lemma read_meta_tables_apart:
  assumes "a + META_SIZE \<le> b \<or> b + META_SIZE \<le> a"
  shows "read_meta (write_u64 (b + 48) t2 (write_u64 (b + 40) t1 m)) a = read_meta m a"
  using assms by (intro read_meta_cong) (auto simp: write_u64_def META_SIZE_def)

section \<open>What the iterators need of a layout\<close>

definition ptr_ok :: "percpu_env \<Rightarrow> percpu_mem \<Rightarrow> nat \<Rightarrow> bool" where
  "ptr_ok P s a \<longleftrightarrow> (case pcpu_phys_to_virt P s a of Ok v \<Rightarrow> v mod meta_align = 0 | _ \<Rightarrow> False)"

lemma ptr_okE: "ptr_ok P s a \<Longrightarrow> \<exists>v. pcpu_phys_to_virt P s a = Ok v \<and> v mod meta_align = 0"
  by (auto simp: ptr_ok_def split: result.splits)

abbreviation ncpu :: "percpu_env \<Rightarrow> nat" where
  "ncpu P \<equiv> cpu_count (pe_sources P)"

locale percpu_layout =
  fixes addr :: "percpu_env \<Rightarrow> percpu_mem \<Rightarrow> nat \<Rightarrow> (unit, nat option) result"
    and ready :: "percpu_env \<Rightarrow> boot_mem \<Rightarrow> bool"
    and slot :: "percpu_env \<Rightarrow> boot_mem \<Rightarrow> nat \<Rightarrow> nat"
  assumes addr_in: "ready P (pm_boot s) \<Longrightarrow> i < ncpu P \<Longrightarrow> addr P s i = Ok (Some (slot P (pm_boot s) i))"
    and addr_out: "ready P (pm_boot s) \<Longrightarrow> addr P s (ncpu P) = Ok None"
    and spaced: "ready P b \<Longrightarrow> i < j \<Longrightarrow> j < ncpu P \<Longrightarrow> slot P b i + META_SIZE \<le> slot P b j"
    and count: "ready P b \<Longrightarrow> ncpu P \<le> U64_MAX"
begin

abbreviation metas :: "percpu_env \<Rightarrow> percpu_mem \<Rightarrow> per_cpu_meta list" where
  "metas P s \<equiv> map (\<lambda>i. read_meta (pm_bytes s) (slot P (pm_boot s) i)) [0 ..< ncpu P]"

lemma cpu_meta_in:
  assumes "ready P (pm_boot s)" "i < ncpu P" "ptr_ok P s (slot P (pm_boot s) i)"
  shows "cpu_meta addr P s i = Ok (Some (read_meta (pm_bytes s) (slot P (pm_boot s) i)))"
  using ptr_okE [OF assms(3)] addr_in [OF assms(1,2)] by (auto simp: cpu_meta_def)

lemma cpu_meta_out: "ready P (pm_boot s) \<Longrightarrow> cpu_meta addr P s (ncpu P) = Ok None"
  by (simp add: cpu_meta_def addr_out)

lemma cpu_meta_list_from_spec:
  assumes "ready P (pm_boot s)" "\<And>i. i < ncpu P \<Longrightarrow> ptr_ok P s (slot P (pm_boot s) i)" "k \<le> ncpu P"
  shows "cpu_meta_list_from addr P s k acc = Some (Ok (rev acc @ drop k (metas P s)))"
  using assms(3)
proof (induction "ncpu P - k" arbitrary: k acc)
  case 0
  then have "k = ncpu P" by simp
  then show ?case using cpu_meta_out [OF assms(1)] by (subst cpu_meta_list_from.simps) simp
next
  case (Suc n)
  then have k: "k < ncpu P" by simp
  have "drop k (metas P s) = metas P s ! k # drop (Suc k) (metas P s)"
    using k by (intro Cons_nth_drop_Suc [symmetric]) simp
  then show ?case using Suc k cpu_meta_in [OF assms(1) k assms(2) [OF k]] count [OF assms(1)]
    by (subst cpu_meta_list_from.simps) simp
qed

lemma cpu_meta_list_spec:
  assumes "ready P (pm_boot s)" "\<And>i. i < ncpu P \<Longrightarrow> ptr_ok P s (slot P (pm_boot s) i)"
  shows "cpu_meta_list addr P s = Some (Ok (metas P s))"
  unfolding cpu_meta_list_def by (subst cpu_meta_list_from_spec [OF assms]) simp_all

text \<open>\<open>init_percpu\<close> ends, and changes the two table fields of every CPU and nothing else.\<close>

lemma set_tables_from_spec:
  assumes "ready P (pm_boot s)" "\<And>i. i < ncpu P \<Longrightarrow> ptr_ok P s (slot P (pm_boot s) i)" "k \<le> ncpu P"
    and "t1 \<le> U64_MAX" "t2 \<le> U64_MAX"
  shows "\<exists>s'. set_tables_from addr P t1 t2 k s = Some (s', Ok ()) \<and> pm_boot s' = pm_boot s \<and>
           (\<forall>i < ncpu P. read_meta (pm_bytes s') (slot P (pm_boot s) i) =
              (if k \<le> i then (read_meta (pm_bytes s) (slot P (pm_boot s) i))
                               \<lparr>boot_table_paddr := t1, primary_table_paddr := t2\<rparr>
               else read_meta (pm_bytes s) (slot P (pm_boot s) i)))"
  using assms(1-3)
proof (induction "ncpu P - k" arbitrary: k s)
  case 0
  then have "k = ncpu P" by simp
  then show ?case using addr_out [OF 0(2)] by (subst set_tables_from.simps) simp
next
  case (Suc n)
  then have k: "k < ncpu P" by simp
  let ?a = "slot P (pm_boot s)"
  let ?m = "write_u64 (?a k + 48) t2 (write_u64 (?a k + 40) t1 (pm_bytes s))"
  define s1 where "s1 = s\<lparr>pm_bytes := ?m\<rparr>"
  have s1: "pm_boot s1 = pm_boot s" "pm_bytes s1 = ?m" by (simp_all add: s1_def)
  have s: "write_mem (write_u64 (?a k + 48) t2) (write_mem (write_u64 (?a k + 40) t1) s) = s1"
    by (simp add: s1_def)
  have ptr: "ptr_ok P s1 a = ptr_ok P s a" for a by (simp add: ptr_ok_def pcpu_phys_to_virt_def s1)
  have step: "set_tables_from addr P t1 t2 k s = set_tables_from addr P t1 t2 (k + 1) s1"
    using ptr_okE [OF Suc.prems(2) [OF k]] addr_in [OF Suc.prems(1) k] count [OF Suc.prems(1)] k
    by (subst set_tables_from.simps) (clarsimp simp only: s result.case option.case, simp)
  have "n = ncpu P - (k + 1)" "ready P (pm_boot s1)" "k + 1 \<le> ncpu P"
    "\<And>i. i < ncpu P \<Longrightarrow> ptr_ok P s1 (slot P (pm_boot s1) i)"
    using Suc.hyps(2) Suc.prems k unfolding ptr s1 by simp_all
  from Suc.hyps(1) [OF this(1,2,4,3), unfolded s1] obtain s' where
    s': "set_tables_from addr P t1 t2 (k + 1) s1 = Some (s', Ok ())" "pm_boot s' = pm_boot s"
    and m: "\<And>i. i < ncpu P \<Longrightarrow> read_meta (pm_bytes s') (?a i) =
       (if k + 1 \<le> i then (read_meta ?m (?a i))\<lparr>boot_table_paddr := t1, primary_table_paddr := t2\<rparr>
        else read_meta ?m (?a i))" by blast
  have other: "read_meta ?m (?a i) = read_meta (pm_bytes s) (?a i)" if "i < ncpu P" "i \<noteq> k" for i
    using spaced [OF Suc.prems(1), of i k] spaced [OF Suc.prems(1), of k i] that k
    by (intro read_meta_tables_apart) (auto simp: neq_iff)
  have "read_meta (pm_bytes s') (?a i) =
      (if k \<le> i then (read_meta (pm_bytes s) (?a i))\<lparr>boot_table_paddr := t1, primary_table_paddr := t2\<rparr>
       else read_meta (pm_bytes s) (?a i))" if "i < ncpu P" for i
    using m [OF that] other [OF that] read_meta_tables [OF assms(4,5), of "?a k" "pm_bytes s"]
    by (cases "i = k") simp_all
  then show ?case using step s' by auto
qed

lemma init_percpu_spec:
  assumes "ready P (pm_boot s)" "\<And>i. i < ncpu P \<Longrightarrow> ptr_ok P s (slot P (pm_boot s) i)"
    and "t1 \<le> U64_MAX" "t2 \<le> U64_MAX"
    and "pe_percpu_va P (PERCPU_START (pm_boot s)) = Ok v" "PERCPU_START (pm_boot s) \<le> PERCPU_END (pm_boot s)"
  shows "\<exists>s'. init_percpu addr P t1 t2 s = Some (s', Ok ()) \<and> pm_boot s' = pm_boot s \<and>
           metas P s' = map (\<lambda>d. d\<lparr>boot_table_paddr := t1, primary_table_paddr := t2\<rparr>) (metas P s)"
proof -
  obtain s' where s': "set_tables_from addr P t1 t2 0 s = Some (s', Ok ())" "pm_boot s' = pm_boot s"
    "\<forall>i < ncpu P. read_meta (pm_bytes s') (slot P (pm_boot s) i) =
        (read_meta (pm_bytes s) (slot P (pm_boot s) i))\<lparr>boot_table_paddr := t1, primary_table_paddr := t2\<rparr>"
    using set_tables_from_spec [OF assms(1,2) _ assms(3,4), of 0] by auto
  then show ?thesis using assms(5,6) by (intro exI [of _ s']) (simp add: init_percpu_def)
qed

end

end
