(* ===== verification/Percpu_Init.thy ===== *)
theory Percpu_Init
  imports Percpu_Laws
begin

text \<open>
  Both layouts are instances of \<open>percpu_layout\<close>, and both versions of \<open>alloc_percpu\<close> return with the
  template, the metadata and the stack of every CPU in place.
\<close>

section \<open>The two layouts\<close>

fun okv :: "('e, nat) result \<Rightarrow> nat" where
  "okv (Ok x) = x"
| "okv _ = 0"

definition legacy_base :: "percpu_env \<Rightarrow> boot_mem \<Rightarrow> nat \<Rightarrow> nat" where
  "legacy_base P b i = PERCPU_START b + i * okv (percpu_data_size P)"

definition legacy_meta_slot :: "percpu_env \<Rightarrow> boot_mem \<Rightarrow> nat \<Rightarrow> nat" where
  "legacy_meta_slot P b i = legacy_base P b i + okv (meta_offset P)"

definition legacy_ready :: "percpu_env \<Rightarrow> boot_mem \<Rightarrow> bool" where
  "legacy_ready P b \<longleftrightarrow>
     percpu_env_ok P \<and> (\<exists>sz. percpu_data_size P = Ok sz \<and> PERCPU_END b = PERCPU_START b + sz * ncpu P) \<and>
     PERCPU_END b \<le> U64_MAX \<and> page_size (pe_boot P) dvd PERCPU_START b"

lemma legacy_readyE:
  assumes "legacy_ready P b"
  obtains sz mo so where "percpu_data_size P = Ok sz" "meta_offset P = Ok mo" "stack_offset P = Ok so"
    "PERCPU_END b = PERCPU_START b + sz * ncpu P" "PERCPU_END b \<le> U64_MAX"
    "link_len P \<le> mo" "meta_align dvd mo" "mo + META_SIZE \<le> so" "so + pe_stack_size P \<le> sz"
    "percpu_region_align P dvd sz"
proof -
  obtain sz where sz: "percpu_data_size P = Ok sz" "PERCPU_END b = PERCPU_START b + sz * ncpu P"
    and ok: "percpu_env_ok P" "PERCPU_END b \<le> U64_MAX"
    using assms by (auto simp: legacy_ready_def)
  obtain mo so where "meta_offset P = Ok mo" "stack_offset P = Ok so"
    "link_len P \<le> mo" "meta_align dvd mo" "mo + META_SIZE \<le> so" "page_size (pe_boot P) dvd so"
    "so + pe_stack_size P \<le> sz" "percpu_region_align P dvd sz"
    using legacy_slot [OF ok(1) sz(1)] .
  then show thesis using that sz ok(2) by blast
qed

text \<open>Slot \<open>i\<close> of equal slots ends where slot \<open>i + 1\<close> starts.\<close>

lemma slot_below: "i < j \<Longrightarrow> a + i * sz + sz \<le> a + j * (sz::nat)"
  using mult_le_mono1 [of "Suc i" j sz] by simp

lemma slot_in_region: "i < n \<Longrightarrow> a + i * sz + sz \<le> a + sz * (n::nat)"
  using slot_below [of i n a sz] by (simp add: mult.commute)

lemma legacy_base_in:
  assumes "legacy_ready P b" "i < ncpu P"
  shows "legacy_base P b i + okv (percpu_data_size P) \<le> PERCPU_END b"
  using legacy_readyE [OF assms(1)] slot_in_region [OF assms(2)] by (metis legacy_base_def okv.simps(1))

lemma legacy_cpu_base_Ok:
  assumes "legacy_ready P (pm_boot s)" "i \<le> ncpu P"
  shows "legacy_cpu_base P s i = Ok (legacy_base P (pm_boot s) i)"
proof -
  obtain sz where sz: "percpu_data_size P = Ok sz" "PERCPU_END (pm_boot s) = PERCPU_START (pm_boot s) + sz * ncpu P"
    "PERCPU_END (pm_boot s) \<le> U64_MAX" by (rule legacy_readyE [OF assms(1)])
  have "i * sz \<le> sz * ncpu P" using assms(2) by (simp add: mult.commute)
  then have "PERCPU_START (pm_boot s) + i * sz \<le> U64_MAX" using sz(2,3) by linarith
  then show ?thesis using sz(1) by (simp add: legacy_cpu_base_def legacy_base_def mul_usize_def add_usize_def)
qed

lemma count_bound:
  assumes "a + sz * n \<le> U64_MAX" "0 < (sz::nat)"
  shows "n \<le> U64_MAX"
proof -
  have "1 * n \<le> sz * n" using assms(2) by (intro mult_le_mono1) simp
  then show ?thesis using assms(1) by linarith
qed

interpretation legacy: percpu_layout legacy_cpu_meta_addr legacy_ready legacy_meta_slot
proof
  fix P :: percpu_env and s :: percpu_mem and i :: nat
  assume r: "legacy_ready P (pm_boot s)" and i: "i < ncpu P"
  obtain sz mo so where sz: "percpu_data_size P = Ok sz" "meta_offset P = Ok mo" "PERCPU_END (pm_boot s) \<le> U64_MAX"
    "mo + META_SIZE \<le> so" "so + pe_stack_size P \<le> sz" by (rule legacy_readyE [OF r])
  have b: "legacy_base P (pm_boot s) i + sz \<le> PERCPU_END (pm_boot s)" using legacy_base_in [OF r i] sz(1) by simp
  have "0 < META_SIZE" by (simp add: META_SIZE_def)
  with b sz have "\<not> PERCPU_END (pm_boot s) \<le> legacy_base P (pm_boot s) i" "legacy_base P (pm_boot s) i + mo \<le> U64_MAX"
    by linarith+
  then show "legacy_cpu_meta_addr P s i = Ok (Some (legacy_meta_slot P (pm_boot s) i))"
    using r i sz(2) by (simp add: legacy_cpu_meta_addr_def legacy_cpu_base_Ok legacy_meta_slot_def add_usize_def)
next
  fix P :: percpu_env and s :: percpu_mem
  assume r: "legacy_ready P (pm_boot s)"
  obtain sz where "percpu_data_size P = Ok sz" "PERCPU_END (pm_boot s) = PERCPU_START (pm_boot s) + sz * ncpu P"
    by (rule legacy_readyE [OF r])
  then have "PERCPU_END (pm_boot s) = legacy_base P (pm_boot s) (ncpu P)" by (simp add: legacy_base_def mult.commute)
  then show "legacy_cpu_meta_addr P s (ncpu P) = Ok None"
    using r by (simp add: legacy_cpu_meta_addr_def legacy_cpu_base_Ok)
next
  fix P :: percpu_env and b :: boot_mem and i j :: nat
  assume r: "legacy_ready P b" and ij: "i < j" "j < ncpu P"
  obtain sz mo so where sz: "percpu_data_size P = Ok sz" "meta_offset P = Ok mo"
    "mo + META_SIZE \<le> so" "so + pe_stack_size P \<le> sz" by (rule legacy_readyE [OF r])
  then show "legacy_meta_slot P b i + META_SIZE \<le> legacy_meta_slot P b j"
    using slot_below [OF ij(1), of "PERCPU_START b" sz] by (simp add: legacy_meta_slot_def legacy_base_def)
next
  fix P :: percpu_env and b :: boot_mem
  assume r: "legacy_ready P b"
  obtain sz mo so where sz: "PERCPU_END b = PERCPU_START b + sz * ncpu P" "PERCPU_END b \<le> U64_MAX"
    "mo + META_SIZE \<le> so" "so + pe_stack_size P \<le> sz" by (rule legacy_readyE [OF r])
  then have "0 < sz" by (simp add: META_SIZE_def)
  then show "ncpu P \<le> U64_MAX" using count_bound sz(1,2) by metis
qed

definition region_slot ::
  "(layout_rec \<Rightarrow> nat) \<Rightarrow> (layout_rec \<Rightarrow> nat) \<Rightarrow> percpu_env \<Rightarrow> boot_mem \<Rightarrow> nat \<Rightarrow> nat"
where
  "region_slot offset stride P b i =
     (case layout_info P (ncpu P) of Ok L \<Rightarrow> PERCPU_START b + offset L + i * stride L | _ \<Rightarrow> 0)"

definition prealloc_ready :: "percpu_env \<Rightarrow> boot_mem \<Rightarrow> bool" where
  "prealloc_ready P b \<longleftrightarrow>
     percpu_env_ok P \<and> (\<exists>L. layout_info P (ncpu P) = Ok L \<and> PERCPU_END b = PERCPU_START b + total_size L) \<and>
     PERCPU_END b \<le> U64_MAX \<and> page_size (pe_boot P) dvd PERCPU_START b"

lemma slot_start_Ok:
  assumes "layout_info P (ncpu P) = Ok L" "PERCPU_START (pm_boot s) + total_size L \<le> U64_MAX" "i < ncpu P"
    and "off L + str L * ncpu P \<le> total_size L"
  shows "slot_start off str P s i = Ok (Some (region_slot off str P (pm_boot s) i))"
proof -
  have "i * str L \<le> str L * ncpu P" using assms(3) by (simp add: mult.commute)
  then have "PERCPU_START (pm_boot s) + off L + i * str L \<le> U64_MAX" using assms(2,4) by linarith
  then show ?thesis using assms(1,3)
    by (simp add: slot_start_def region_slot_def add_usize_def mul_usize_def)
qed

interpretation prealloc: percpu_layout cpu_meta_start prealloc_ready "region_slot meta_region_offset meta_stride"
proof
  fix P :: percpu_env and s :: percpu_mem and i :: nat
  assume r: "prealloc_ready P (pm_boot s)" and i: "i < ncpu P"
  then obtain L where L: "layout_info P (ncpu P) = Ok L" "PERCPU_END (pm_boot s) = PERCPU_START (pm_boot s) + total_size L"
    "PERCPU_END (pm_boot s) \<le> U64_MAX" "percpu_env_ok P" by (auto simp: prealloc_ready_def)
  note li = layout_info_Ok [OF L(4,1)]
  have "meta_region_offset L + meta_stride L * ncpu P \<le> total_size L" using li(1,4,8,12) by linarith
  then show "cpu_meta_start P s i = Ok (Some (region_slot meta_region_offset meta_stride P (pm_boot s) i))"
    using L i by (simp add: cpu_meta_start_def slot_start_Ok)
next
  fix P :: percpu_env and s :: percpu_mem
  show "cpu_meta_start P s (ncpu P) = Ok None" by (simp add: cpu_meta_start_def slot_start_def)
next
  fix P :: percpu_env and b :: boot_mem and i j :: nat
  assume r: "prealloc_ready P b" and ij: "i < j" "j < ncpu P"
  then obtain L where L: "layout_info P (ncpu P) = Ok L" "percpu_env_ok P" by (auto simp: prealloc_ready_def)
  show "region_slot meta_region_offset meta_stride P b i + META_SIZE \<le> region_slot meta_region_offset meta_stride P b j"
    using layout_info_Ok(2) [OF L(2,1)] slot_below [OF ij(1), of "PERCPU_START b + meta_region_offset L" "meta_stride L"] L(1)
    by (simp add: region_slot_def)
next
  fix P :: percpu_env and b :: boot_mem
  assume r: "prealloc_ready P b"
  then obtain L where L: "layout_info P (ncpu P) = Ok L" "PERCPU_END b = PERCPU_START b + total_size L"
    "PERCPU_END b \<le> U64_MAX" "percpu_env_ok P" by (auto simp: prealloc_ready_def)
  note li = layout_info_Ok [OF L(4,1)]
  have "0 + meta_stride L * ncpu P \<le> U64_MAX" using li(4,8,12) L(2,3) by linarith
  moreover have "0 < meta_stride L" using li(2) by (simp add: META_SIZE_def)
  ultimately show "ncpu P \<le> U64_MAX" by (rule count_bound)
qed

section \<open>Installing the areas one after the other\<close>

definition slots_apart :: "nat \<Rightarrow> nat \<Rightarrow> (nat \<Rightarrow> nat) \<Rightarrow> (nat \<Rightarrow> nat) \<Rightarrow> nat \<Rightarrow> bool" where
  "slots_apart src len ds ms n \<longleftrightarrow>
     (\<forall>i < n. apart src len (ds i) len \<and> apart src len (ms i) META_SIZE \<and>
        (\<forall>j < n. apart (ds i) len (ms j) META_SIZE \<and>
           (i \<noteq> j \<longrightarrow> apart (ds i) len (ds j) len \<and> apart (ms i) META_SIZE (ms j) META_SIZE)))"

fun installs ::
  "nat \<Rightarrow> nat \<Rightarrow> (nat \<Rightarrow> nat) \<Rightarrow> (nat \<Rightarrow> nat) \<Rightarrow> (nat \<Rightarrow> nat \<Rightarrow> per_cpu_meta) \<Rightarrow> nat \<Rightarrow> nat list \<Rightarrow> bytes \<Rightarrow> bytes"
where
  "installs src len ds ms mk i [] m = m"
| "installs src len ds ms mk i (h # hs) m =
     installs src len ds ms mk (Suc i) hs (write_meta (ms i) (mk i h) (copy_nonoverlapping src (ds i) len m))"

lemma installs_frame:
  assumes "\<And>j. i \<le> j \<Longrightarrow> j < i + length ids \<Longrightarrow> \<not> (ds j \<le> x \<and> x < ds j + len) \<and> \<not> (ms j \<le> x \<and> x < ms j + META_SIZE)"
  shows "installs src len ds ms mk i ids m x = m x"
  using assms
proof (induction ids arbitrary: i m)
  case (Cons h hs)
  have "installs src len ds ms mk (Suc i) hs (write_meta (ms i) (mk i h) (copy_nonoverlapping src (ds i) len m)) x =
        write_meta (ms i) (mk i h) (copy_nonoverlapping src (ds i) len m) x"
    using Cons.prems by (intro Cons.IH) simp
  moreover have "\<not> (ds i \<le> x \<and> x < ds i + len)" "x < ms i \<or> ms i + META_SIZE \<le> x"
    using Cons.prems [of i] by auto
  ultimately show ?case by (simp add: write_meta_outside) (auto simp: copy_nonoverlapping_def)
qed simp

lemma installs_spec:
  assumes "slots_apart src len ds ms (i + length ids)" "\<And>j. j < length ids \<Longrightarrow> meta_fits (mk (i + j) (ids ! j))"
    and "j < length ids"
  shows "read_meta (installs src len ds ms mk i ids m) (ms (i + j)) = mk (i + j) (ids ! j) \<and>
         (\<forall>k < len. installs src len ds ms mk i ids m (ds (i + j) + k) = m (src + k))"
  using assms
proof (induction ids arbitrary: i j m)
  case (Cons h hs)
  let ?c = "copy_nonoverlapping src (ds i) len m"
  let ?m = "write_meta (ms i) (mk i h) ?c"
  let ?r = "installs src len ds ms mk (Suc i) hs ?m"
  have ap: "slots_apart src len ds ms (Suc i + length hs)" using Cons.prems by simp
  have at_i: "apart src len (ds i) len" "apart src len (ms i) META_SIZE" "apart (ds i) len (ms i) META_SIZE"
    using ap by (simp_all add: slots_apart_def)
  have at_j: "apart (ds j) len (ms i) META_SIZE" "apart (ms i) META_SIZE (ms j) META_SIZE"
    "apart (ds i) len (ds j) len" "apart (ds i) len (ms j) META_SIZE" if "Suc i \<le> j" "j < Suc i + length hs" for j
    using ap that by (simp_all add: slots_apart_def)
  have src: "?m (src + k) = m (src + k)" if "k < len" for k
  proof -
    have "?m (src + k) = ?c (src + k)"
      using at_i(2) that by (intro write_meta_outside) (auto simp: apart_def)
    also have "\<dots> = m (src + k)"
      using at_i(1) that by (auto simp: apart_def copy_nonoverlapping_def)
    finally show ?thesis .
  qed
  show ?case
  proof (cases j)
    case 0
    have "read_meta ?r (ms i) = read_meta ?m (ms i)"
    proof (intro read_meta_cong installs_frame)
      fix x l
      assume "ms i \<le> x" "x < ms i + META_SIZE" "Suc i \<le> l" "l < Suc i + length hs"
      then show "\<not> (ds l \<le> x \<and> x < ds l + len) \<and> \<not> (ms l \<le> x \<and> x < ms l + META_SIZE)"
        using at_j(1,2) [of l] by (auto simp: apart_def)
    qed
    moreover have "?r (ds i + k) = m (src + k)" if k: "k < len" for k
    proof -
      have "?r (ds i + k) = ?m (ds i + k)"
      proof (rule installs_frame)
        fix l
        assume "Suc i \<le> l" "l < Suc i + length hs"
        then show "\<not> (ds l \<le> ds i + k \<and> ds i + k < ds l + len) \<and> \<not> (ms l \<le> ds i + k \<and> ds i + k < ms l + META_SIZE)"
          using at_j(3,4) [of l] k by (auto simp: apart_def)
      qed
      also have "\<dots> = ?c (ds i + k)"
        using at_i(3) k by (intro write_meta_outside) (auto simp: apart_def)
      finally show ?thesis using k by (simp add: copy_nonoverlapping_def)
    qed
    ultimately show ?thesis using 0 Cons.prems(2) [of 0] by (simp add: read_write_meta)
  next
    case (Suc j')
    have "meta_fits (mk (Suc i + l) (hs ! l))" if "l < length hs" for l
      using Cons.prems(2) [of "Suc l"] that by simp
    then show ?thesis using Suc Cons.IH [OF ap, of j' ?m] Cons.prems(3) src by simp
  qed
qed simp

lemma ptr_ok_off: "\<not> MMU_ENABLED (pm_boot s) \<Longrightarrow> meta_align dvd a \<Longrightarrow> ptr_ok P s a"
  by (simp add: ptr_ok_def pcpu_phys_to_virt_def phys_to_virt_def)

text \<open>With any layout, the iterator then finds the metadata that was installed.\<close>

context percpu_layout
begin

text \<open>Setting the page tables of every CPU changes two fields of what the iterator gives.\<close>

lemma init_percpu_metas:
  assumes "ready P (pm_boot s)" "\<And>i. i < ncpu P \<Longrightarrow> ptr_ok P s (slot P (pm_boot s) i)"
    and "t1 \<le> U64_MAX" "t2 \<le> U64_MAX" "is_ok (pe_percpu_va P (PERCPU_START (pm_boot s)))"
    and "PERCPU_START (pm_boot s) \<le> PERCPU_END (pm_boot s)"
  shows "\<exists>s' ds. cpu_meta_list addr P s = Some (Ok ds) \<and> length ds = ncpu P \<and>
           init_percpu addr P t1 t2 s = Some (s', Ok ()) \<and>
           cpu_meta_list addr P s' = Some (Ok (map (\<lambda>d. d\<lparr>boot_table_paddr := t1, primary_table_paddr := t2\<rparr>) ds))"
proof -
  let ?ds = "map (\<lambda>i. read_meta (pm_bytes s) (slot P (pm_boot s) i)) [0 ..< ncpu P]"
  obtain v where v: "pe_percpu_va P (PERCPU_START (pm_boot s)) = Ok v" using assms(5) by (auto elim: is_ok.elims)
  from init_percpu_spec [OF assms(1,2,3,4) v assms(6)] obtain s' where
    s': "init_percpu addr P t1 t2 s = Some (s', Ok ())" "pm_boot s' = pm_boot s"
    "map (\<lambda>i. read_meta (pm_bytes s') (slot P (pm_boot s') i)) [0 ..< ncpu P] =
     map (\<lambda>d. d\<lparr>boot_table_paddr := t1, primary_table_paddr := t2\<rparr>) ?ds" by blast
  have "ptr_ok P s' a = ptr_ok P s a" for a using s'(2) by (simp add: ptr_ok_def pcpu_phys_to_virt_def)
  then have "cpu_meta_list addr P s' =
      Some (Ok (map (\<lambda>i. read_meta (pm_bytes s') (slot P (pm_boot s') i)) [0 ..< ncpu P]))"
    using assms(1,2) s'(2) by (intro cpu_meta_list_spec) simp_all
  moreover have "cpu_meta_list addr P s = Some (Ok ?ds)"
    using assms(1,2) by (intro cpu_meta_list_spec) simp_all
  ultimately show ?thesis using s'(1,3) by (intro exI [of _ s'] exI [of _ ?ds]) (simp del: map_map)
qed

lemma installed:
  assumes "ready P (pm_boot s)" "\<not> MMU_ENABLED (pm_boot s)" "\<And>i. meta_align dvd slot P (pm_boot s) i"
    and "slots_apart src len ds (slot P (pm_boot s)) (ncpu P)"
    and "\<And>j. j < ncpu P \<Longrightarrow> meta_fits (mk j (cpu_id_list (pe_sources P) ! j))"
  defines "s' \<equiv> s\<lparr>pm_bytes := installs src len ds (slot P (pm_boot s)) mk 0 (cpu_id_list (pe_sources P)) (pm_bytes s)\<rparr>"
  shows "cpu_meta_list addr P s' = Some (Ok (map (\<lambda>i. mk i (cpu_id_list (pe_sources P) ! i)) [0 ..< ncpu P]))"
    and "i < ncpu P \<Longrightarrow> k < len \<Longrightarrow> pm_bytes s' (ds i + k) = pm_bytes s (src + k)"
proof -
  let ?ids = "cpu_id_list (pe_sources P)"
  have "read_meta (pm_bytes s') (slot P (pm_boot s) j) = mk j (?ids ! j) \<and>
      (\<forall>k < len. pm_bytes s' (ds j + k) = pm_bytes s (src + k))" if "j < ncpu P" for j
    using installs_spec [of src len ds "slot P (pm_boot s)" 0 ?ids mk j "pm_bytes s"] assms(4,5) that
    by (simp add: cpu_count_def s'_def)
  moreover have "cpu_meta_list addr P s' = Some (Ok (metas P s'))"
    using assms(1-3) by (intro cpu_meta_list_spec ptr_ok_off) (simp_all add: s'_def)
  ultimately show "cpu_meta_list addr P s' = Some (Ok (map (\<lambda>i. mk i (?ids ! i)) [0 ..< ncpu P]))"
    "i < ncpu P \<Longrightarrow> k < len \<Longrightarrow> pm_bytes s' (ds i + k) = pm_bytes s (src + k)"
    by (simp_all add: s'_def)
qed

end

section \<open>The region comes out of free memory\<close>

definition percpu_boot_ok :: "percpu_env \<Rightarrow> boot_mem \<Rightarrow> bool" where
  "percpu_boot_ok P b \<longleftrightarrow>
     percpu_env_ok P \<and> ram_backed (pe_boot P) b \<and> aligns_up (pe_boot P) \<and> heapless_128 (pe_boot P) \<and>
     map_entries b < 125 \<and> \<not> MMU_ENABLED b"

text \<open>The first page boundary at or above the allocator's position.\<close>

definition region_base :: "percpu_env \<Rightarrow> boot_mem \<Rightarrow> nat" where
  "region_base P b =
     ((RAM_CURRENT b + page_size (pe_boot P) - 1) div page_size (pe_boot P)) * page_size (pe_boot P)"

lemma region_align_page: "percpu_env_ok P \<Longrightarrow> percpu_region_align P = page_size (pe_boot P)"
  by (simp add: percpu_env_ok_def percpu_region_align_def meta_align_def)

lemma align_up_dvd: "0 < (a::nat) \<Longrightarrow> a dvd x \<Longrightarrow> (x + a - 1) div a * a = x"
  using align_up_props(2) [of a x] align_up_least [of a x x] by simp

lemma alloc_percpu_region_spec:
  assumes "percpu_boot_ok P b" "region_base P b + sz \<le> RAM_END b"
    and "layout_from_size_align sz (page_size (pe_boot P))"
  shows "\<exists>b'. alloc_percpu_region P sz b = (b', Ok (region_base P b)) \<and> same_boot b b' \<and>
           ram_backed (pe_boot P) b' \<and> region_base P b + sz \<le> RAM_START b' \<and>
           (\<forall>x. region_base P b \<le> x \<longrightarrow> x < region_base P b + sz \<longrightarrow> memory_kind b' x = Some PerCpuData)"
proof -
  let ?E = "pe_boot P" and ?e = "region_base P b"
  have ok: "percpu_env_ok P" "ram_backed ?E b" "aligns_up ?E" "heapless_128 ?E" "map_entries b < 127"
    using assms(1) by (auto simp: percpu_boot_ok_def)
  have pw: "is_power_of_two (page_size ?E)" using ok(1) by (simp add: percpu_env_ok_def)
  have pos: "0 < page_size ?E" by (rule is_power_of_two_pos [OF pw])
  obtain b1 where f1: "flush_to_memory_map ?E Reserved b = (b1, Ok ())" "ram_backed ?E b1" "RAM_CURRENT b1 = ?e"
    "RAM_END b1 = RAM_END b" "same_boot b b1" "map_entries b1 \<le> map_entries b + 2"
    using flush_to_memory_map_spec [OF ok(2-5), of Reserved] unfolding region_base_def [symmetric] by blast
  have top: "RAM_END b1 + page_size ?E \<le> U64_MAX" using f1(2) by (simp add: ram_backed_def)
  have dv: "page_size ?E dvd ?e" unfolding region_base_def by (rule align_up_props(1) [OF pos])
  have fits: "RAM_CURRENT b1 + (page_size ?E - 1) \<le> U64_MAX" using top assms(2) f1(3,4) by linarith
  have al: "na_align_up ?E (RAM_CURRENT b1) (page_size ?E) = ?e"
    using ok(3) pw fits align_up_dvd [OF pos dv] f1(3) unfolding aligns_up_def by metis
  let ?b2 = "b1\<lparr>RAM_CURRENT := ?e + sz\<rparr>"
  have r2: "ram_alloc ?E sz (page_size ?E) b1 = (?b2, Ok (Some ?e))"
    using assms(2) top f1(4) al by (simp add: ram_alloc_def Let_def)
  have m2: "map_entries ?b2 < 127"
    using f1(6) assms(1) by (simp add: percpu_boot_ok_def map_entries_def memory_map_def)
  obtain b3 where f3: "flush_to_memory_map ?E PerCpuData ?b2 = (b3, Ok ())" "same_boot ?b2 b3"
    using flush_to_memory_map_spec [OF ram_alloc_backed [OF f1(2) ok(3) pw fits r2] ok(3,4) m2, of PerCpuData] by blast
  have af: "alloc_and_flush_to_memory_map ?E sz (page_size ?E) PerCpuData b1 = (b3, Ok (Some ?e))"
    using r2 f3(1) by (simp add: alloc_and_flush_to_memory_map_def)
  have "map_entries b1 < 127" using f1(6) assms(1) by (simp add: percpu_boot_ok_def)
  note spec = alloc_and_flush_spec [OF f1(2) ok(3,4) this pw fits af]
  have "same_boot b b3" using same_boot_trans [OF f1(5)] f3(2) by (simp add: same_boot_def)
  moreover have "alloc_percpu_region P sz b = (b3, Ok ?e)"
    using f1(1) af assms(3) by (simp add: alloc_percpu_region_def region_align_page [OF ok(1)])
  ultimately show ?thesis using spec by blast
qed

lemma phys_to_virt_off: "\<not> MMU_ENABLED (pm_boot s) \<Longrightarrow> pcpu_phys_to_virt P s a = Ok a"
  by (simp add: pcpu_phys_to_virt_def phys_to_virt_def)

lemma claim_region_spec:
  assumes "percpu_boot_ok P (pm_boot s)" "region_base P (pm_boot s) + sz \<le> RAM_END (pm_boot s)"
    and "layout_from_size_align sz (page_size (pe_boot P))"
  shows "\<exists>b'. claim_region P sz s =
             (\<lparr>pm_boot = b', pm_bytes = write_bytes (region_base P (pm_boot s)) 0 sz (pm_bytes s)\<rparr>,
              Ok (region_base P (pm_boot s))) \<and>
           PERCPU_START b' = region_base P (pm_boot s) \<and> PERCPU_END b' = region_base P (pm_boot s) + sz \<and>
           VM_LOAD_OFFSET b' = VM_LOAD_OFFSET (pm_boot s) \<and> \<not> MMU_ENABLED b' \<and>
           ram_backed (pe_boot P) b' \<and> PERCPU_END b' \<le> RAM_START b' \<and> PERCPU_END b' \<le> U64_MAX \<and>
           (\<forall>x. PERCPU_START b' \<le> x \<longrightarrow> x < PERCPU_END b' \<longrightarrow> memory_kind b' x = Some PerCpuData)"
proof -
  let ?e = "region_base P (pm_boot s)"
  obtain b1 where b1: "alloc_percpu_region P sz (pm_boot s) = (b1, Ok ?e)" "same_boot (pm_boot s) b1"
    "ram_backed (pe_boot P) b1" "?e + sz \<le> RAM_START b1"
    "\<forall>x. ?e \<le> x \<longrightarrow> x < ?e + sz \<longrightarrow> memory_kind b1 x = Some PerCpuData"
    using alloc_percpu_region_spec [OF assms] by blast
  let ?b = "set_percpu_range ?e (?e + sz) b1"
  have fits: "?e + sz \<le> U64_MAX"
    using assms(1,2) by (simp add: percpu_boot_ok_def ram_backed_def)
  have off: "\<not> MMU_ENABLED b1" using b1(2) assms(1) by (simp add: same_boot_def percpu_boot_ok_def)
  have "claim_region P sz s = (\<lparr>pm_boot = ?b, pm_bytes = write_bytes ?e 0 sz (pm_bytes s)\<rparr>, Ok ?e)"
    using b1(1) fits off
    by (simp add: claim_region_def on_boot_def add_usize_def phys_to_virt_off set_percpu_range_def)
  moreover have "memory_kind ?b = memory_kind b1" "ram_backed (pe_boot P) ?b"
    using b1(3) by (simp_all add: set_percpu_range_def memory_kind_def memory_map_def fun_eq_iff ram_backed_def mm_inv_def)
  ultimately show ?thesis using b1(2,4,5) off fits
    by (intro exI [of _ ?b]) (simp add: set_percpu_range_def same_boot_def)
qed

section \<open>alloc\_percpu with one slot per CPU\<close>

lemma power_of_two_dvd:
  assumes "is_power_of_two a" "is_power_of_two b" "a \<le> b"
  shows "a dvd b"
  using assms by (auto simp: is_power_of_two_iff intro!: le_imp_power_dvd)

lemma meta_align_dvd_page: "percpu_env_ok P \<Longrightarrow> meta_align dvd page_size (pe_boot P)"
  by (rule power_of_two_dvd) (auto simp: percpu_env_ok_def meta_align_def is_power_of_two_iff intro: exI [of _ 6])

definition legacy_stack_top :: "percpu_env \<Rightarrow> boot_mem \<Rightarrow> nat \<Rightarrow> nat" where
  "legacy_stack_top P b i = legacy_base P b i + okv (stack_offset P) + pe_stack_size P"

definition fresh_meta :: "percpu_env \<Rightarrow> nat \<Rightarrow> nat \<Rightarrow> nat \<Rightarrow> nat \<Rightarrow> per_cpu_meta" where
  "fresh_meta P entry tp i h =
     \<lparr>stack_top = tp, meta_cpu_id = h, meta_cpu_idx = i, stack_top_virt = okv (pe_percpu_va P tp),
      entry_virt = entry, boot_table_paddr = 0, primary_table_paddr = 0\<rparr>"

lemma legacy_aligned:
  assumes "legacy_ready P b"
  shows "meta_align dvd legacy_meta_slot P b i" "page_size (pe_boot P) dvd legacy_base P b i"
proof -
  obtain sz mo where m: "percpu_data_size P = Ok sz" "meta_offset P = Ok mo" "meta_align dvd mo"
    "percpu_region_align P dvd sz" by (rule legacy_readyE [OF assms])
  have ok: "percpu_env_ok P" "page_size (pe_boot P) dvd PERCPU_START b"
    using assms by (auto simp: legacy_ready_def)
  show p: "page_size (pe_boot P) dvd legacy_base P b i"
    using ok m(1,4) by (simp add: legacy_base_def region_align_page dvd_add)
  show "meta_align dvd legacy_meta_slot P b i"
    using dvd_trans [OF meta_align_dvd_page [OF ok(1)] p] m(2,3) by (simp add: legacy_meta_slot_def dvd_add)
qed

lemma legacy_top_in:
  assumes "legacy_ready P b" "i < ncpu P"
  shows "legacy_stack_top P b i \<le> PERCPU_END b"
proof -
  obtain sz so where "percpu_data_size P = Ok sz" "stack_offset P = Ok so" "so + pe_stack_size P \<le> sz"
    by (rule legacy_readyE [OF assms(1)])
  then show ?thesis using legacy_base_in [OF assms] by (simp add: legacy_stack_top_def)
qed

lemma legacy_init_cpu_Ok:
  assumes "legacy_ready P (pm_boot s)" "\<not> MMU_ENABLED (pm_boot s)" "i < ncpu P" "percpu_data_size P = Ok sz"
    and "is_ok (pe_percpu_va P (legacy_stack_top P (pm_boot s) i))"
  shows "legacy_init_cpu P sz entry i h s =
    (s\<lparr>pm_bytes := write_meta (legacy_meta_slot P (pm_boot s) i)
         (fresh_meta P entry (legacy_stack_top P (pm_boot s) i) i h)
         (copy_nonoverlapping (link_start P) (legacy_base P (pm_boot s) i) (link_len P) (pm_bytes s))\<rparr>, Ok ())"
proof -
  obtain mo so where m: "meta_offset P = Ok mo" "stack_offset P = Ok so" "mo + META_SIZE \<le> so"
    "PERCPU_END (pm_boot s) \<le> U64_MAX" by (rule legacy_readyE [OF assms(1)])
  let ?b = "legacy_base P (pm_boot s) i" and ?t = "legacy_stack_top P (pm_boot s) i"
  obtain v where v: "pe_percpu_va P ?t = Ok v" using assms(5) by (auto elim: is_ok.elims)
  have t: "?t = ?b + so + pe_stack_size P" using m(2) by (simp add: legacy_stack_top_def)
  have le: "?b + so + pe_stack_size P \<le> U64_MAX" using legacy_top_in [OF assms(1,3)] m(4) t by simp
  have b: "rbind (mul_usize i sz) (add_usize (PERCPU_START (pm_boot s))) = Ok ?b"
    using legacy_cpu_base_Ok [OF assms(1), of i] assms(3,4) by (simp add: legacy_cpu_base_def)
  have mt: "legacy_meta_slot P (pm_boot s) i = ?b + mo" using m(1) by (simp add: legacy_meta_slot_def)
  moreover have "(?b + mo) mod meta_align = 0" using legacy_aligned(1) [OF assms(1), of i] mt by simp
  ultimately show ?thesis
    using b le m(1-3) v t assms(2)
    by (simp add: legacy_init_cpu_def phys_to_virt_off add_usize_def fresh_meta_def)
qed

lemma legacy_init_cpus_Ok:
  assumes "legacy_ready P (pm_boot s)" "\<not> MMU_ENABLED (pm_boot s)" "percpu_data_size P = Ok sz"
    and "i + length ids \<le> ncpu P" "\<And>j. j < ncpu P \<Longrightarrow> is_ok (pe_percpu_va P (legacy_stack_top P (pm_boot s) j))"
  shows "legacy_init_cpus P sz entry i ids s =
    (s\<lparr>pm_bytes := installs (link_start P) (link_len P) (legacy_base P (pm_boot s)) (legacy_meta_slot P (pm_boot s))
         (\<lambda>j. fresh_meta P entry (legacy_stack_top P (pm_boot s) j) j) i ids (pm_bytes s)\<rparr>, Ok ())"
  using assms(1,2,4,5)
proof (induction ids arbitrary: i s)
  case (Cons h hs)
  have i: "i < ncpu P" using Cons.prems(3) by simp
  show ?case
    using legacy_init_cpu_Ok [OF Cons.prems(1,2) i assms(3) Cons.prems(4) [OF i]] Cons.prems Cons.IH
    by simp
qed simp

lemma legacy_slots_apart:
  assumes "legacy_ready P b" "apart (link_start P) (link_len P) (PERCPU_START b) (PERCPU_END b - PERCPU_START b)"
  shows "slots_apart (link_start P) (link_len P) (legacy_base P b) (legacy_meta_slot P b) (ncpu P)"
proof -
  obtain sz mo so where m: "percpu_data_size P = Ok sz" "meta_offset P = Ok mo" "link_len P \<le> mo"
    "mo + META_SIZE \<le> so" "so + pe_stack_size P \<le> sz" by (rule legacy_readyE [OF assms(1)])
  have in_r: "PERCPU_START b \<le> legacy_base P b i" "legacy_base P b i + sz \<le> PERCPU_END b" if "i < ncpu P" for i
    using legacy_base_in [OF assms(1) that] m(1) by (simp_all add: legacy_base_def)
  have ord: "legacy_base P b i + sz \<le> legacy_base P b j" if "i < j" for i j
    using slot_below [OF that, of "PERCPU_START b" sz] m(1) by (simp add: legacy_base_def)
  have ms: "legacy_meta_slot P b i = legacy_base P b i + mo" for i using m(2) by (simp add: legacy_meta_slot_def)
  have "apart (link_start P) (link_len P) (legacy_base P b i) (link_len P) \<and>
        apart (link_start P) (link_len P) (legacy_meta_slot P b i) META_SIZE" if "i < ncpu P" for i
    using assms(2) in_r [OF that] m(3-5) by (auto simp: apart_def ms)
  moreover have "apart (legacy_base P b i) (link_len P) (legacy_meta_slot P b j) META_SIZE" for i j
    using ord [of i j] ord [of j i] m(3-5) by (cases i j rule: linorder_cases) (auto simp: apart_def ms)
  moreover have "apart (legacy_base P b i) (link_len P) (legacy_base P b j) (link_len P) \<and>
      apart (legacy_meta_slot P b i) META_SIZE (legacy_meta_slot P b j) META_SIZE" if "i \<noteq> j" for i j
    using ord [of i j] ord [of j i] m(3-5) that by (cases i j rule: linorder_cases) (auto simp: apart_def ms)
  ultimately show ?thesis by (simp add: slots_apart_def)
qed

text \<open>
  What the boot code provides: free memory for the region, away from the linker template, and address
  translations that are defined on the region and on the entry point of the secondary CPUs.
\<close>

definition percpu_fits :: "percpu_env \<Rightarrow> nat \<Rightarrow> boot_mem \<Rightarrow> bool" where
  "percpu_fits P tsz b \<longleftrightarrow>
     percpu_boot_ok P b \<and> layout_from_size_align tsz (page_size (pe_boot P)) \<and>
     region_base P b + tsz \<le> RAM_END b \<and>
     apart (link_start P) (link_len P) (region_base P b) tsz \<and>
     (\<forall>a \<in> {region_base P b .. region_base P b + tsz}.
        is_ok (pe_percpu_va P a) \<and> okv (pe_percpu_va P a) \<le> U64_MAX) \<and>
     (\<forall>h \<in> set (cpu_id_list (pe_sources P)). h \<le> U64_MAX) \<and>
     is_ok (kimage_va b (secondary_entry P))"

lemma kimage_va_fits: "kimage_va b a = Ok v \<Longrightarrow> v \<le> U64_MAX"
  by (auto simp: kimage_va_def result_simps as_usize_def U64_MAX_def nat_le_iff)

lemma fresh_meta_fits:
  assumes "percpu_fits P tsz b" "region_base P b \<le> tp" "tp \<le> region_base P b + tsz"
    and "kimage_va b (secondary_entry P) = Ok entry" "i \<le> U64_MAX" "h \<in> set (cpu_id_list (pe_sources P))"
  shows "meta_fits (fresh_meta P entry tp i h)"
proof -
  have "RAM_END b \<le> U64_MAX" using assms(1) by (auto simp: percpu_fits_def percpu_boot_ok_def ram_backed_def)
  then have "tp \<le> U64_MAX" using assms(1,3) by (auto simp: percpu_fits_def)
  moreover have "okv (pe_percpu_va P tp) \<le> U64_MAX" "h \<le> U64_MAX" using assms by (auto simp: percpu_fits_def)
  ultimately show ?thesis using kimage_va_fits [OF assms(4)] assms(5)
    by (simp add: meta_fits_def fresh_meta_def U64_MAX_def)
qed

text \<open>The region as \<open>claim_region\<close> leaves it, with some contents.\<close>

definition region_claimed :: "percpu_env \<Rightarrow> nat \<Rightarrow> percpu_mem \<Rightarrow> percpu_mem \<Rightarrow> bool" where
  "region_claimed P tsz s s' \<longleftrightarrow>
     PERCPU_START (pm_boot s') = region_base P (pm_boot s) \<and>
     PERCPU_END (pm_boot s') = region_base P (pm_boot s) + tsz \<and>
     PERCPU_END (pm_boot s') \<le> RAM_START (pm_boot s') \<and> ram_backed (pe_boot P) (pm_boot s') \<and>
     (\<forall>x. PERCPU_START (pm_boot s') \<le> x \<longrightarrow> x < PERCPU_END (pm_boot s') \<longrightarrow>
        memory_kind (pm_boot s') x = Some PerCpuData)"

lemma percpu_fits_claim:
  assumes "percpu_fits P tsz (pm_boot s)" "kimage_va (pm_boot s) (secondary_entry P) = Ok entry"
  obtains s1 where "claim_region P tsz s = (s1, Ok (region_base P (pm_boot s)))" "region_claimed P tsz s s1"
    "\<not> MMU_ENABLED (pm_boot s1)" "kimage_va (pm_boot s1) (secondary_entry P) = Ok entry"
    "PERCPU_END (pm_boot s1) \<le> U64_MAX" "page_size (pe_boot P) dvd PERCPU_START (pm_boot s1)" "percpu_env_ok P"
    "\<And>k. k < link_len P \<Longrightarrow> pm_bytes s1 (link_start P + k) = pm_bytes s (link_start P + k)"
    "apart (link_start P) (link_len P) (PERCPU_START (pm_boot s1)) (PERCPU_END (pm_boot s1) - PERCPU_START (pm_boot s1))"
proof -
  let ?e = "region_base P (pm_boot s)"
  have f: "percpu_boot_ok P (pm_boot s)" "?e + tsz \<le> RAM_END (pm_boot s)"
    "layout_from_size_align tsz (page_size (pe_boot P))" "apart (link_start P) (link_len P) ?e tsz"
    using assms(1) by (auto simp: percpu_fits_def)
  obtain b where b: "claim_region P tsz s = (\<lparr>pm_boot = b, pm_bytes = write_bytes ?e 0 tsz (pm_bytes s)\<rparr>, Ok ?e)"
    "PERCPU_START b = ?e" "PERCPU_END b = ?e + tsz" "VM_LOAD_OFFSET b = VM_LOAD_OFFSET (pm_boot s)"
    "\<not> MMU_ENABLED b" "ram_backed (pe_boot P) b" "PERCPU_END b \<le> RAM_START b" "PERCPU_END b \<le> U64_MAX"
    "\<forall>x. PERCPU_START b \<le> x \<longrightarrow> x < PERCPU_END b \<longrightarrow> memory_kind b x = Some PerCpuData"
    using claim_region_spec [OF f(1-3)] by blast
  let ?s = "\<lparr>pm_boot = b, pm_bytes = write_bytes ?e 0 tsz (pm_bytes s)\<rparr>"
  have ok: "percpu_env_ok P" using f(1) by (simp add: percpu_boot_ok_def)
  then have "0 < page_size (pe_boot P)" by (auto simp: percpu_env_ok_def)
  then have dv: "page_size (pe_boot P) dvd ?e" unfolding region_base_def by (rule align_up_props(1))
  have "kimage_va b (secondary_entry P) = Ok entry" using assms(2) b(4) by (simp add: kimage_va_def)
  moreover have "write_bytes ?e 0 tsz (pm_bytes s) (link_start P + k) = pm_bytes s (link_start P + k)"
    if "k < link_len P" for k using f(4) that by (auto simp: apart_def write_bytes_def)
  moreover have "region_claimed P tsz s ?s" using b(2,3,6,7,9) by (simp add: region_claimed_def)
  ultimately show thesis using b f(4) ok dv by (intro that [of ?s]) simp_all
qed

lemma legacy_alloc_percpu_spec:
  assumes "percpu_data_size P = Ok sz" "percpu_fits P (sz * ncpu P) (pm_boot s)"
    and "kimage_va (pm_boot s) (secondary_entry P) = Ok entry"
  shows "\<exists>s'. legacy_alloc_percpu P s = Some (s', Ok ()) \<and> region_claimed P (sz * ncpu P) s s' \<and>
           legacy_ready P (pm_boot s') \<and> \<not> MMU_ENABLED (pm_boot s') \<and>
           cpu_meta_list legacy_cpu_meta_addr P s' =
             Some (Ok (map (\<lambda>i. fresh_meta P entry (legacy_stack_top P (pm_boot s') i) i (cpu_id_list (pe_sources P) ! i))
                         [0 ..< ncpu P])) \<and>
           (\<forall>i < ncpu P. \<forall>k < link_len P.
              pm_bytes s' (legacy_base P (pm_boot s') i + k) = pm_bytes s (link_start P + k))"
proof -
  let ?ids = "cpu_id_list (pe_sources P)"
  obtain s1 where c: "claim_region P (sz * ncpu P) s = (s1, Ok (region_base P (pm_boot s)))"
    "region_claimed P (sz * ncpu P) s s1" "\<not> MMU_ENABLED (pm_boot s1)"
    "kimage_va (pm_boot s1) (secondary_entry P) = Ok entry"
    "PERCPU_END (pm_boot s1) \<le> U64_MAX" "page_size (pe_boot P) dvd PERCPU_START (pm_boot s1)" "percpu_env_ok P"
    "\<And>k. k < link_len P \<Longrightarrow> pm_bytes s1 (link_start P + k) = pm_bytes s (link_start P + k)"
    "apart (link_start P) (link_len P) (PERCPU_START (pm_boot s1)) (PERCPU_END (pm_boot s1) - PERCPU_START (pm_boot s1))"
    by (rule percpu_fits_claim [OF assms(2,3)]) blast
  have r: "legacy_ready P (pm_boot s1)"
    using c(2,5-7) assms(1) by (auto simp: legacy_ready_def region_claimed_def)
  define b where "b = pm_boot s1"
  let ?mk = "\<lambda>j. fresh_meta P entry (legacy_stack_top P b j) j"
  let ?m = "installs (link_start P) (link_len P) (legacy_base P b) (legacy_meta_slot P b) ?mk 0 ?ids (pm_bytes s1)"
  let ?s = "s1\<lparr>pm_bytes := ?m\<rparr>"
  have tp: "region_base P (pm_boot s) \<le> legacy_stack_top P b j"
    "legacy_stack_top P b j \<le> region_base P (pm_boot s) + sz * ncpu P" if "j < ncpu P" for j
    using legacy_top_in [OF r that] c(2) by (simp_all add: region_claimed_def legacy_stack_top_def legacy_base_def b_def)
  have va: "is_ok (pe_percpu_va P (legacy_stack_top P b j))" if "j < ncpu P" for j
    using tp [OF that] assms(2) by (auto simp: percpu_fits_def)
  have loop: "legacy_init_cpus P sz entry 0 ?ids s1 = (?s, Ok ())"
    using legacy_init_cpus_Ok [OF r c(3) assms(1), of 0 ?ids entry] va by (simp add: cpu_count_def b_def)
  have fits: "meta_fits (?mk j (?ids ! j))" if "j < ncpu P" for j
    using fresh_meta_fits [OF assms(2) tp assms(3)] that legacy.count [OF r] by (simp add: cpu_count_def)
  note inst = legacy.installed [of P s1 "link_start P" "link_len P" "legacy_base P b" ?mk, folded b_def,
      OF r [folded b_def] c(3) [folded b_def] legacy_aligned(1) [OF r [folded b_def]]
         legacy_slots_apart [OF r c(9), folded b_def] fits]
  have "sz * ncpu P \<le> U64_MAX" using c(2,5) by (simp add: region_claimed_def)
  then have "legacy_alloc_percpu P s = Some (?s, Ok ())"
    using c(1,4) loop inst(1) assms(1)
    by (simp add: legacy_alloc_percpu_def print_metas_def mul_usize_def)
  then show ?thesis
    using r c(2,3,8) inst by (intro exI [of _ ?s]) (simp add: region_claimed_def b_def)
qed

text \<open>The data pointer, and how template, metadata and stack share a slot.\<close>

lemma legacy_slot_areas:
  assumes "legacy_ready P (pm_boot s)" "\<not> MMU_ENABLED (pm_boot s)"
  shows "i < ncpu P \<Longrightarrow> legacy_percpu_data_ptr P s i = Ok (Some (legacy_base P (pm_boot s) i))"
    "legacy_base P (pm_boot s) i + link_len P + META_SIZE + pe_stack_size P \<le> legacy_stack_top P (pm_boot s) i"
    "i < j \<Longrightarrow> legacy_stack_top P (pm_boot s) i + pe_stack_size P \<le> legacy_stack_top P (pm_boot s) j"
proof -
  obtain sz mo so where m: "percpu_data_size P = Ok sz" "stack_offset P = Ok so" "link_len P \<le> mo"
    "mo + META_SIZE \<le> so" "so + pe_stack_size P \<le> sz" by (rule legacy_readyE [OF assms(1)])
  have "0 < META_SIZE" by (simp add: META_SIZE_def)
  then show "i < ncpu P \<Longrightarrow> legacy_percpu_data_ptr P s i = Ok (Some (legacy_base P (pm_boot s) i))"
    using legacy_base_in [OF assms(1), of i] m assms
    by (simp add: legacy_percpu_data_ptr_def legacy_cpu_base_Ok phys_to_virt_off)
  show "legacy_base P (pm_boot s) i + link_len P + META_SIZE + pe_stack_size P \<le> legacy_stack_top P (pm_boot s) i"
    using m by (simp add: legacy_stack_top_def)
  show "i < j \<Longrightarrow> legacy_stack_top P (pm_boot s) i + pe_stack_size P \<le> legacy_stack_top P (pm_boot s) j"
    using slot_below [of i j "PERCPU_START (pm_boot s)" sz] m by (simp add: legacy_stack_top_def legacy_base_def)
qed

section \<open>alloc\_percpu with three regions\<close>

abbreviation pre_meta :: "percpu_env \<Rightarrow> boot_mem \<Rightarrow> nat \<Rightarrow> nat" where
  "pre_meta \<equiv> region_slot meta_region_offset meta_stride"

abbreviation pre_data :: "percpu_env \<Rightarrow> boot_mem \<Rightarrow> nat \<Rightarrow> nat" where
  "pre_data \<equiv> region_slot data_region_offset data_stride"

abbreviation pre_stack :: "percpu_env \<Rightarrow> boot_mem \<Rightarrow> nat \<Rightarrow> nat" where
  "pre_stack \<equiv> region_slot stack_region_offset stack_stride"

lemma prealloc_readyE:
  assumes "prealloc_ready P b"
  obtains L where "layout_info P (ncpu P) = Ok L" "PERCPU_END b = PERCPU_START b + total_size L"
    "PERCPU_END b \<le> U64_MAX" "page_size (pe_boot P) dvd PERCPU_START b" "percpu_env_ok P"
  using assms by (auto simp: prealloc_ready_def)

lemma prealloc_aligned:
  assumes "prealloc_ready P b"
  shows "meta_align dvd pre_meta P b i" "page_size (pe_boot P) dvd pre_stack P b i"
    "percpu_region_align P dvd pre_data P b i"
proof -
  obtain L where L: "layout_info P (ncpu P) = Ok L" "page_size (pe_boot P) dvd PERCPU_START b" "percpu_env_ok P"
    by (rule prealloc_readyE [OF assms])
  note li = layout_info_Ok [OF L(3,1)]
  show "meta_align dvd pre_meta P b i"
    using L(1) li(1,3) dvd_trans [OF meta_align_dvd_page [OF L(3)] L(2)] by (simp add: region_slot_def dvd_add)
  show "page_size (pe_boot P) dvd pre_stack P b i"
    using L(1,2) li(5,7) by (simp add: region_slot_def dvd_add)
  show "percpu_region_align P dvd pre_data P b i"
    using L li(9,11) by (simp add: region_slot_def dvd_add region_align_page)
qed

lemma prealloc_starts:
  assumes "prealloc_ready P (pm_boot s)" "i < ncpu P"
  shows "cpu_meta_start P s i = Ok (Some (pre_meta P (pm_boot s) i))"
    "cpu_stack_start P s i = Ok (Some (pre_stack P (pm_boot s) i))"
    "cpu_data_start P s i = Ok (Some (pre_data P (pm_boot s) i))"
proof -
  obtain L where L: "layout_info P (ncpu P) = Ok L" "PERCPU_END (pm_boot s) = PERCPU_START (pm_boot s) + total_size L"
    "PERCPU_END (pm_boot s) \<le> U64_MAX" "percpu_env_ok P" by (rule prealloc_readyE [OF assms(1)])
  note li = layout_info_Ok [OF L(4,1)]
  have "PERCPU_START (pm_boot s) + total_size L \<le> U64_MAX" using L(2,3) by simp
  note ok = slot_start_Ok [OF L(1) this assms(2)]
  show "cpu_meta_start P s i = Ok (Some (pre_meta P (pm_boot s) i))" by (rule prealloc.addr_in [OF assms])
  show "cpu_stack_start P s i = Ok (Some (pre_stack P (pm_boot s) i))" unfolding cpu_stack_start_def
    using li(8,12) by (intro ok) linarith
  show "cpu_data_start P s i = Ok (Some (pre_data P (pm_boot s) i))" unfolding cpu_data_start_def
    using li(12) by (intro ok) linarith
qed

text \<open>The regions do not meet, and neither do the slots of one region.\<close>

lemma prealloc_order:
  assumes "prealloc_ready P b"
  shows "i < ncpu P \<Longrightarrow> j < ncpu P \<Longrightarrow> pre_meta P b i + META_SIZE \<le> pre_stack P b j"
    "i < ncpu P \<Longrightarrow> j < ncpu P \<Longrightarrow> pre_stack P b i + pe_stack_size P \<le> pre_data P b j"
    "i < ncpu P \<Longrightarrow> pre_data P b i + link_len P \<le> PERCPU_END b"
    "i < j \<Longrightarrow> pre_stack P b i + pe_stack_size P \<le> pre_stack P b j"
    "i < j \<Longrightarrow> pre_data P b i + link_len P \<le> pre_data P b j"
    "PERCPU_START b \<le> pre_meta P b i"
proof -
  obtain L where L: "layout_info P (ncpu P) = Ok L" "PERCPU_END b = PERCPU_START b + total_size L" "percpu_env_ok P"
    by (rule prealloc_readyE [OF assms])
  note li = layout_info_Ok [OF L(3,1)]
  let ?a = "PERCPU_START b"
  have st: "?a + o' + i * w + w \<le> ?a + o' + w * ncpu P" if "i < ncpu P" for i o' w
    using slot_in_region [OF that, of "?a + o'" w] .
  show "i < ncpu P \<Longrightarrow> j < ncpu P \<Longrightarrow> pre_meta P b i + META_SIZE \<le> pre_stack P b j"
    using st [of i 0 "meta_stride L"] li(1,2,4) L(1) by (simp add: region_slot_def)
  show "i < ncpu P \<Longrightarrow> j < ncpu P \<Longrightarrow> pre_stack P b i + pe_stack_size P \<le> pre_data P b j"
    using st [of i "stack_region_offset L" "stack_stride L"] li(6,8) L(1) by (simp add: region_slot_def)
  show "i < ncpu P \<Longrightarrow> pre_data P b i + link_len P \<le> PERCPU_END b"
    using st [of i "data_region_offset L" "data_stride L"] li(10,12) L(1,2) by (simp add: region_slot_def)
  show "i < j \<Longrightarrow> pre_stack P b i + pe_stack_size P \<le> pre_stack P b j"
    using slot_below [of i j "?a + stack_region_offset L" "stack_stride L"] li(6) L(1) by (simp add: region_slot_def)
  show "i < j \<Longrightarrow> pre_data P b i + link_len P \<le> pre_data P b j"
    using slot_below [of i j "?a + data_region_offset L" "data_stride L"] li(10) L(1) by (simp add: region_slot_def)
  show "PERCPU_START b \<le> pre_meta P b i" using L(1) by (simp add: region_slot_def)
qed

lemma prealloc_slots_apart:
  assumes "prealloc_ready P b" "apart (link_start P) (link_len P) (PERCPU_START b) (PERCPU_END b - PERCPU_START b)"
  shows "slots_apart (link_start P) (link_len P) (pre_data P b) (pre_meta P b) (ncpu P)"
proof -
  note ord = prealloc_order [OF assms(1)]
  have md: "pre_meta P b i + META_SIZE \<le> pre_data P b j" if "i < ncpu P" "j < ncpu P" for i j
    using ord(1) [OF that(1,1)] ord(2) [OF that] by linarith
  have "apart (link_start P) (link_len P) (pre_data P b i) (link_len P) \<and>
        apart (link_start P) (link_len P) (pre_meta P b i) META_SIZE" if "i < ncpu P" for i
    using assms(2) ord(3) [OF that] ord(6) [of i] md [OF that that] by (auto simp: apart_def)
  moreover have "apart (pre_data P b i) (link_len P) (pre_meta P b j) META_SIZE" if "i < ncpu P" "j < ncpu P" for i j
    using md [OF that(2,1)] by (simp add: apart_def)
  moreover have "apart (pre_data P b i) (link_len P) (pre_data P b j) (link_len P) \<and>
      apart (pre_meta P b i) META_SIZE (pre_meta P b j) META_SIZE" if "i < ncpu P" "j < ncpu P" "i \<noteq> j" for i j
    using ord(5) [of i j] ord(5) [of j i] prealloc.spaced [OF assms(1), of i j] prealloc.spaced [OF assms(1), of j i] that
    by (cases i j rule: linorder_cases) (auto simp: apart_def)
  ultimately show ?thesis by (simp add: slots_apart_def)
qed

definition prealloc_stack_top :: "percpu_env \<Rightarrow> boot_mem \<Rightarrow> nat \<Rightarrow> nat" where
  "prealloc_stack_top P b i = pre_stack P b i + pe_stack_size P"

lemma prealloc_top_in:
  assumes "prealloc_ready P b" "i < ncpu P"
  shows "prealloc_stack_top P b i \<le> PERCPU_END b" "PERCPU_START b \<le> prealloc_stack_top P b i"
  using prealloc_order(1,2) [OF assms(1,2,2)] prealloc_order(3,6) [OF assms(1), of i] assms(2)
  by (simp_all add: prealloc_stack_top_def)

lemma prealloc_init_cpu_Ok:
  assumes "prealloc_ready P (pm_boot s)" "\<not> MMU_ENABLED (pm_boot s)" "i < ncpu P"
    and "is_ok (pe_percpu_va P (prealloc_stack_top P (pm_boot s) i))"
  shows "prealloc_init_cpu P entry i h s =
    (s\<lparr>pm_bytes := write_meta (pre_meta P (pm_boot s) i)
         (fresh_meta P entry (prealloc_stack_top P (pm_boot s) i) i h)
         (copy_nonoverlapping (link_start P) (pre_data P (pm_boot s) i) (link_len P) (pm_bytes s))\<rparr>, Ok ())"
proof -
  obtain v where v: "pe_percpu_va P (prealloc_stack_top P (pm_boot s) i) = Ok v" using assms(4) by (auto elim: is_ok.elims)
  obtain L where "PERCPU_END (pm_boot s) \<le> U64_MAX" by (rule prealloc_readyE [OF assms(1)])
  with prealloc_top_in(1) [OF assms(1,3)]
  have "pre_stack P (pm_boot s) i + pe_stack_size P \<le> U64_MAX" by (simp add: prealloc_stack_top_def)
  then show ?thesis
    using prealloc_starts [OF assms(1,3)] prealloc_aligned [OF assms(1), of i] assms(2) v
    by (simp add: prealloc_init_cpu_def unwrap_opt_def phys_to_virt_off fresh_meta_def add_usize_def prealloc_stack_top_def)
qed

lemma prealloc_init_cpus_Ok:
  assumes "prealloc_ready P (pm_boot s)" "\<not> MMU_ENABLED (pm_boot s)"
    and "i + length ids \<le> ncpu P" "\<And>j. j < ncpu P \<Longrightarrow> is_ok (pe_percpu_va P (prealloc_stack_top P (pm_boot s) j))"
  shows "prealloc_init_cpus P entry i ids s =
    (s\<lparr>pm_bytes := installs (link_start P) (link_len P) (pre_data P (pm_boot s)) (pre_meta P (pm_boot s))
         (\<lambda>j. fresh_meta P entry (prealloc_stack_top P (pm_boot s) j) j) i ids (pm_bytes s)\<rparr>, Ok ())"
  using assms
proof (induction ids arbitrary: i s)
  case (Cons h hs)
  have i: "i < ncpu P" using Cons.prems(3) by simp
  show ?case
    using prealloc_init_cpu_Ok [OF Cons.prems(1,2) i Cons.prems(4) [OF i]] Cons.prems Cons.IH by simp
qed simp

lemma layout_asserts_hold: "percpu_env_ok P \<Longrightarrow> layout_info P n = Ok L \<Longrightarrow> layout_asserts P L"
  using layout_info_Ok [of P n L] by (simp add: layout_asserts_def)

lemma prealloc_alloc_percpu_spec:
  assumes "layout_info P (ncpu P) = Ok L" "percpu_fits P (total_size L) (pm_boot s)"
    and "kimage_va (pm_boot s) (secondary_entry P) = Ok entry"
  shows "\<exists>s'. prealloc_alloc_percpu P s = Some (s', Ok ()) \<and> region_claimed P (total_size L) s s' \<and>
           prealloc_ready P (pm_boot s') \<and> \<not> MMU_ENABLED (pm_boot s') \<and>
           cpu_meta_list cpu_meta_start P s' =
             Some (Ok (map (\<lambda>i. fresh_meta P entry (prealloc_stack_top P (pm_boot s') i) i (cpu_id_list (pe_sources P) ! i))
                         [0 ..< ncpu P])) \<and>
           (\<forall>i < ncpu P. \<forall>k < link_len P.
              pm_bytes s' (pre_data P (pm_boot s') i + k) = pm_bytes s (link_start P + k))"
proof -
  let ?ids = "cpu_id_list (pe_sources P)"
  obtain s1 where c: "claim_region P (total_size L) s = (s1, Ok (region_base P (pm_boot s)))"
    "region_claimed P (total_size L) s s1" "\<not> MMU_ENABLED (pm_boot s1)"
    "kimage_va (pm_boot s1) (secondary_entry P) = Ok entry"
    "PERCPU_END (pm_boot s1) \<le> U64_MAX" "page_size (pe_boot P) dvd PERCPU_START (pm_boot s1)" "percpu_env_ok P"
    "\<And>k. k < link_len P \<Longrightarrow> pm_bytes s1 (link_start P + k) = pm_bytes s (link_start P + k)"
    "apart (link_start P) (link_len P) (PERCPU_START (pm_boot s1)) (PERCPU_END (pm_boot s1) - PERCPU_START (pm_boot s1))"
    by (rule percpu_fits_claim [OF assms(2,3)]) blast
  have r: "prealloc_ready P (pm_boot s1)"
    using c(2,5-7) assms(1) by (auto simp: prealloc_ready_def region_claimed_def)
  define b where "b = pm_boot s1"
  let ?mk = "\<lambda>j. fresh_meta P entry (prealloc_stack_top P b j) j"
  let ?s = "s1\<lparr>pm_bytes := installs (link_start P) (link_len P) (pre_data P b) (pre_meta P b) ?mk 0 ?ids (pm_bytes s1)\<rparr>"
  have tp: "region_base P (pm_boot s) \<le> prealloc_stack_top P b j"
    "prealloc_stack_top P b j \<le> region_base P (pm_boot s) + total_size L" if "j < ncpu P" for j
    using prealloc_top_in [OF r that] c(2) by (simp_all add: region_claimed_def b_def)
  have va: "is_ok (pe_percpu_va P (prealloc_stack_top P b j))" if "j < ncpu P" for j
    using tp [OF that] assms(2) by (auto simp: percpu_fits_def)
  have loop: "prealloc_init_cpus P entry 0 ?ids s1 = (?s, Ok ())"
    using prealloc_init_cpus_Ok [OF r c(3), of 0 ?ids entry] va by (simp add: cpu_count_def b_def)
  have fits: "meta_fits (?mk j (?ids ! j))" if "j < ncpu P" for j
    using fresh_meta_fits [OF assms(2) tp assms(3)] that prealloc.count [OF r] by (simp add: cpu_count_def)
  note inst = prealloc.installed [of P s1 "link_start P" "link_len P" "pre_data P b" ?mk, folded b_def,
      OF r [folded b_def] c(3) [folded b_def] prealloc_aligned(1) [OF r [folded b_def]]
         prealloc_slots_apart [OF r c(9), folded b_def] fits]
  note li = layout_info_Ok [OF c(7) assms(1)]
  have "PERCPU_START b + data_region_offset L \<le> U64_MAX" "PERCPU_START b + stack_region_offset L \<le> U64_MAX"
    using c(2,5) li(8,12) unfolding region_claimed_def b_def by linarith+
  then have "layout_message L s1 = Ok ()"
    by (simp add: layout_message_def add_usize_def li(1) b_def)
  then have "prealloc_alloc_percpu P s = Some (?s, Ok ())"
    using c(1,4) loop inst(1) assms(1) layout_asserts_hold [OF c(7) assms(1)]
    by (simp add: prealloc_alloc_percpu_def print_metas_def)
  then show ?thesis
    using r c(2,3,8) inst by (intro exI [of _ ?s]) (simp add: region_claimed_def b_def)
qed

end
