(* ===== verification/Boot_Sequence.thy ===== *)
theory Boot_Sequence
  imports Percpu_Init
begin

text \<open>
  The boot sequence up to the per-CPU areas: the memory map filled from the device tree keeps its
  invariant, the kernel image is marked in it, and the linear allocator is handed a free range, which
  is what the later allocations rely on (\<open>ram_backed\<close>).
\<close>

definition map_only :: "boot_mem \<Rightarrow> boot_mem \<Rightarrow> bool" where
  "map_only s s' \<longleftrightarrow> s' = s\<lparr>MEMORY_MAP := MEMORY_MAP s'\<rparr>"

lemma map_only_refl [simp]: "map_only s s"
  by (simp add: map_only_def)

lemma map_only_trans: "map_only s s' \<Longrightarrow> map_only s' s'' \<Longrightarrow> map_only s s''"
  unfolding map_only_def by (metis boot_mem.surjective boot_mem.update_convs(1))

lemma map_only_fields:
  assumes "map_only s s'"
  shows "KIMAGE_START s' = KIMAGE_START s" "KIMAGE_END s' = KIMAGE_END s" "MMU_ENABLED s' = MMU_ENABLED s"
    "FDT_ADDR s' = FDT_ADDR s" "fdt_base E s' = fdt_base E s"
  using assms unfolding map_only_def fdt_base_def fdt_addr_phys_def
  by (metis boot_mem.select_convs boot_mem.surjective boot_mem.update_convs(1))+

section \<open>Filling the map\<close>

lemma add_step:
  assumes "mm_inv s" "heapless_128 E" "0 < size_in_bytes d" "add_memory_descriptor E d s = (s', Ok ())"
  shows "mm_inv s' \<and> map_only s s'"
  using add_memory_descriptor_Ok [OF assms] by (simp add: map_only_def)

lemma add_regions_inv:
  assumes "heapless_128 E" "mm_inv s" "add_regions E rs s = (s', Ok ())"
  shows "mm_inv s' \<and> map_only s s'"
  using assms(2,3)
proof (induction rs arbitrary: s)
  case (Cons r rs)
  obtain address sz where r: "r = (address, sz)" by fastforce
  show ?case
  proof (cases "sz = 0")
    case False
    let ?d = "\<lparr>physical_start = address, size_in_bytes = sz, memory_type = memory_type.Free\<rparr>"
    obtain s1 where s1: "add_memory_descriptor E ?d s = (s1, Ok ())" "add_regions E rs s1 = (s', Ok ())"
      using Cons.prems(2) False r by (auto simp: and_then_eq_Ok unwrap_eq_Ok)
    have "mm_inv s1 \<and> map_only s s1" using add_step [OF Cons.prems(1) assms(1) _ s1(1)] False by simp
    then show ?thesis using Cons.IH [OF _ s1(2)] map_only_trans by blast
  qed (use Cons r in simp)
qed simp

text \<open>No entry of the reservation block is empty once it is rounded to pages.\<close>

definition reservations_ok :: "boot_env \<Rightarrow> nat \<Rightarrow> (nat \<times> nat) list \<Rightarrow> bool" where
  "reservations_ok E C rs \<longleftrightarrow>
     (\<forall>(a, sz) \<in> set rs. case new_aligned E a sz Reserved C of Ok d \<Rightarrow> 0 < size_in_bytes d | _ \<Rightarrow> True)"

lemma add_reservations_inv:
  assumes "heapless_128 E" "mm_inv s" "add_reservations E C rs s = (s', Ok ())" "reservations_ok E C rs"
  shows "mm_inv s' \<and> map_only s s'"
  using assms(2-4)
proof (induction rs arbitrary: s)
  case (Cons r rs)
  obtain address sz where r: "r = (address, sz)" by fastforce
  obtain d s1 where s1: "new_aligned E address sz Reserved C = Ok d"
    "add_memory_descriptor E d s = (s1, Ok ())" "add_reservations E C rs s1 = (s', Ok ())"
    using Cons.prems(2) r by (auto simp: and_then_eq_Ok unwrap_eq_Ok)
  have "0 < size_in_bytes d" using Cons.prems(3) s1(1) r by (simp add: reservations_ok_def)
  then have "mm_inv s1 \<and> map_only s s1" using add_step [OF Cons.prems(1) assms(1) _ s1(2)] by simp
  moreover have "reservations_ok E C rs" using Cons.prems(3) by (simp add: reservations_ok_def)
  ultimately show ?case using Cons.IH [OF _ s1(3)] map_only_trans by blast
qed simp

lemma add_reserved_memory_inv:
  assumes "heapless_128 E" "mm_inv s" "add_reserved_memory E rs s = (s', Ok ())"
  shows "mm_inv s' \<and> map_only s s'"
  using assms(2,3)
proof (induction rs arbitrary: s)
  case (Cons r rs)
  show ?case
  proof (cases "\<exists>address sz regs. r = Some ((address, Some sz) # regs) \<and> 0 < sz")
    case True
    then obtain address sz regs where r: "r = Some ((address, Some sz) # regs)" "0 < sz" by blast
    let ?d = "\<lparr>physical_start = address, size_in_bytes = sz, memory_type = Reserved\<rparr>"
    obtain s1 where s1: "add_memory_descriptor E ?d s = (s1, Ok ())" "add_reserved_memory E rs s1 = (s', Ok ())"
      using Cons.prems(2) r by (auto simp: and_then_eq_Ok unwrap_eq_Ok)
    have "mm_inv s1 \<and> map_only s s1" using add_step [OF Cons.prems(1) assms(1) _ s1(1)] r(2) by simp
    then show ?thesis using Cons.IH [OF _ s1(2)] map_only_trans by blast
  next
    case False
    then have "add_reserved_memory E (r # rs) s = add_reserved_memory E rs s"
      by (cases "(E, r # rs, s)" rule: add_reserved_memory.cases) auto
    then show ?thesis using Cons by simp
  qed
qed simp

lemma init_memory_map_inv:
  assumes "heapless_128 E" "mm_inv s" "init_memory_map E C s = (s', Ok r)"
    and "\<And>fdt. fdt_base E s = Some fdt \<Longrightarrow> reservations_ok E C (fdt_reservations fdt)"
  shows "mm_inv s' \<and> map_only s s'"
proof (cases "fdt_base E s")
  case None
  then show ?thesis using assms by (simp add: init_memory_map_def)
next
  case (Some fdt)
  then obtain s1 s2 where s: "add_regions E (concat (fdt_memory fdt)) s = (s1, Ok ())"
    "add_reservations E C (fdt_reservations fdt) s1 = (s2, Ok ())"
    "add_reserved_memory E (fdt_reserved_memory fdt) s2 = (s', Ok ())"
    using assms(3) by (auto simp: init_memory_map_def and_then_eq_Ok)
  have 1: "mm_inv s1 \<and> map_only s s1" by (rule add_regions_inv [OF assms(1,2) s(1)])
  then have 2: "mm_inv s2 \<and> map_only s1 s2" using add_reservations_inv [OF assms(1) _ s(2) assms(4) [OF Some]] by blast
  then have "mm_inv s' \<and> map_only s2 s'" using add_reserved_memory_inv [OF assms(1) _ s(3)] by blast
  then show ?thesis using 1 2 map_only_trans by blast
qed

section \<open>Sorting changes the order only\<close>

lemma pairwise_disjoint_sort:
  assumes "memory_map_ok m"
  shows "memory_map_ok (sort_key physical_start m)"
proof -
  have pr: "\<forall>d \<in> set (sort_key physical_start m). proper md_range_op U64_MAX d"
    using assms by (simp add: memory_map_ok_def)
  have dist: "distinct m"
    using assms unfolding memory_map_ok_def range_set_inv_def
  proof (induction m)
    case (Cons d m)
    have "d \<notin> set m"
    proof
      assume "d \<in> set m"
      then have "cover md_range_op d \<inter> cover md_range_op d = {}"
        using Cons.prems unfolding pairwise_disjoint_Cons by blast
      moreover have "physical_start d \<in> cover md_range_op d" using Cons.prems by (simp add: proper_def)
      ultimately show False by blast
    qed
    then show ?case using Cons by (simp add: pairwise_disjoint_Cons)
  qed simp
  have "cover md_range_op d \<inter> cover md_range_op e = {}" if "d \<in> set m" "e \<in> set m" "d \<noteq> e" for d e
    using that assms pairwise_disjoint_unique [of md_range_op m d e] unfolding memory_map_ok_def range_set_inv_def
    by blast
  then have "pairwise_disjoint md_range_op (sort_key physical_start m)"
    using dist unfolding pairwise_disjoint_def sorted_wrt_iff_nth_less
    by (metis distinct_sort length_sort nth_eq_iff_index_eq nth_mem order_less_trans set_sort less_irrefl)
  then show ?thesis using pr assms by (simp add: memory_map_ok_def range_set_inv_def)
qed

lemma kind_at_sort:
  assumes "memory_map_ok m"
  shows "kind_at md_range_op (sort_key physical_start m) = kind_at md_range_op m"
proof (rule ext, rule option_eq_by_Some)
  fix a k
  have "pairwise_disjoint md_range_op (sort_key physical_start m)" "pairwise_disjoint md_range_op m"
    using pairwise_disjoint_sort [OF assms] assms by (auto simp: memory_map_ok_def range_set_inv_def)
  then show "kind_at md_range_op (sort_key physical_start m) a = Some k \<longleftrightarrow> kind_at md_range_op m a = Some k"
    by (simp add: kind_at_Some)
qed

lemma sort_map_inv:
  assumes "mm_inv s" "sort_map s = (s', r)"
  shows "r = Ok () \<and> mm_inv s' \<and> map_only s s' \<and> memory_kind s' = memory_kind s"
proof -
  obtain m where m: "memory_map s = Ok m" "memory_map_ok m" using mm_invE [OF assms(1)] .
  obtain c where c: "cell_update (MEMORY_MAP s) (\<lambda>mem. (sort_key physical_start mem, (Ok () :: (unit, unit) result))) = (c, Ok ())"
    "cell_deref c = Ok (sort_key physical_start m)"
    using cell_update_deref [of "MEMORY_MAP s" m "\<lambda>mem. (sort_key physical_start mem, (Ok () :: (unit, unit) result))"] m(1)
    by (simp add: memory_map_def) (metis prod.collapse)
  then have "r = Ok ()" "s' = s\<lparr>MEMORY_MAP := c\<rparr>" using assms(2) by (simp_all add: sort_map_def)
  then show ?thesis
    using m c(2) pairwise_disjoint_sort [OF m(2)] kind_at_sort [OF m(2)]
    by (simp add: map_only_def mm_inv_def memory_kind_def memory_map_def fun_eq_iff)
qed

lemma print_memory_map_sorts: "print_memory_map = sort_map"
  by (rule ext) (simp add: print_memory_map_def sort_map_def)

section \<open>The allocator starts on free memory\<close>

lemma add_kimage_inv:
  assumes "heapless_128 E" "mm_inv s" "add_kimage E s = (s', Ok ())"
    and "KIMAGE_START s = Some k" "k < KIMAGE_END s"
  shows "mm_inv s' \<and> map_only s s' \<and> (\<forall>a. k \<le> a \<longrightarrow> a < KIMAGE_END s \<longrightarrow> memory_kind s' a = Some KImage)"
proof -
  let ?d = "\<lparr>physical_start = k, size_in_bytes = KIMAGE_END s - k, memory_type = KImage\<rparr>"
  have "add_memory_descriptor E ?d s = (s', Ok ())"
    using assms(3-5) by (auto simp: add_kimage_def kimage_range_def unwrap_eq_Ok)
  from add_memory_descriptor_Ok [OF assms(2,1) _ this] assms(5) show ?thesis by (auto simp: map_only_def)
qed

definition boot_ram_ok :: "boot_mem \<Rightarrow> bool" where
  "boot_ram_ok s \<longleftrightarrow>
     mm_inv s \<and> RAM_START s \<le> RAM_CURRENT s \<and> RAM_CURRENT s \<le> RAM_END s \<and>
     (\<forall>a. RAM_START s \<le> a \<longrightarrow> a < RAM_END s \<longrightarrow> memory_kind s a = Some memory_type.Free)"

lemma large_free_range_ram:
  assumes "memory_map s = Ok m" "mm_inv s" "large_free_range m = Some (a, b)"
  shows "boot_ram_ok (ram_init a b s)" "memory_kind (ram_init a b s) = memory_kind s"
    "RAM_CURRENT (ram_init a b s) + 7 \<le> U64_MAX"
proof -
  obtain d where d: "d \<in> set m" "memory_type d = memory_type.Free" "8 * MB < size_in_bytes d"
    "a = physical_start d" "b = physical_start d + size_in_bytes d"
    using assms(3) by (auto simp: large_free_range_def dest!: find_SomeD)
  have ok: "memory_map_ok m" using assms(1,2) by (simp add: mm_inv_def)
  have b: "b \<le> U64_MAX" using ok d(1,5) by (simp add: memory_map_ok_def proper_def)
  show k: "memory_kind (ram_init a b s) = memory_kind s"
    by (simp add: fun_eq_iff memory_kind_def memory_map_def ram_init_def)
  have "mm_inv (ram_init a b s)" using assms(2) by (simp add: mm_inv_def memory_map_def ram_init_def)
  moreover have "max a 64 + 7 \<le> b" "max a 64 \<le> b" using d(3-5) by (simp_all add: MB_def KB_def)
  moreover have "memory_kind s x = Some memory_type.Free" if "a \<le> x" "x < b" for x
    using memory_kind_in_map [OF assms(1) ok d(1)] that d(2,4,5) by simp
  ultimately show "boot_ram_ok (ram_init a b s)" "RAM_CURRENT (ram_init a b s) + 7 \<le> U64_MAX"
    using k b unfolding boot_ram_ok_def ram_init_def by simp_all
qed

lemma save_fdt_ram:
  assumes "boot_ram_ok s" "aligns_up E" "RAM_CURRENT s + 7 \<le> U64_MAX" "save_fdt E s = (s', Ok ())"
  shows "boot_ram_ok s' \<and> memory_kind s' = memory_kind s"
proof (cases "fdt_base E s")
  case None
  then show ?thesis using assms by (simp add: save_fdt_def)
next
  case (Some fdt)
  obtain s1 a where s1: "ram_alloc E (fdt_totalsize fdt) 8 s = (s1, Ok (Some a))" "s' = s1\<lparr>FDT_ADDR := a\<rparr>"
    using assms(4) Some by (auto simp: save_fdt_def and_then_eq_Ok split: if_splits option.splits)
  have p8: "is_power_of_two 8" by (auto simp: is_power_of_two_iff intro: exI [of _ 3])
  have "RAM_CURRENT s + (8 - 1) \<le> U64_MAX" using assms(3) by simp
  note al = ram_alloc_Some [OF assms(2) p8 this s1(1)]
  have s': "s' = s\<lparr>RAM_CURRENT := a + fdt_totalsize fdt, FDT_ADDR := a\<rparr>" using s1(2) al(5) by simp
  then have k: "memory_kind s' = memory_kind s" by (simp add: memory_kind_def memory_map_def fun_eq_iff)
  have "RAM_CURRENT s \<le> a + fdt_totalsize fdt" "a + fdt_totalsize fdt \<le> RAM_END s"
    using al(2-4) by simp_all
  moreover have "mm_inv s'" using assms(1) by (simp add: s' boot_ram_ok_def mm_inv_def memory_map_def)
  ultimately show ?thesis using assms(1) k unfolding boot_ram_ok_def by (simp add: s')
qed

section \<open>The low memory of x86-64\<close>

text \<open>
  Reserving the page of the AP trampoline keeps the kernel image.  The page is reserved afterwards,
  unless memory of a third kind lies in it, which the code leaves as it is.
\<close>

definition tramp_reserved :: "boot_env \<Rightarrow> boot_mem \<Rightarrow> bool" where
  "tramp_reserved E s \<longleftrightarrow>
     (\<forall>d. new_aligned E AP_TRAMPOLINE_PADDR (page_size E) Reserved (page_size E) = Ok d \<longrightarrow>
        (\<forall>a \<in> cover md_range_op d. memory_kind s a = Some Reserved) \<or>
        (\<exists>a \<in> cover md_range_op d. memory_kind s a \<notin> {None, Some memory_type.Free, Some Reserved}))"

lemma reserve_arch_spec:
  assumes "heapless_128 E" "mm_inv s" "reserve_arch_early_ranges E s = (s', Ok ())"
    and "reservations_ok E (page_size E) [(AP_TRAMPOLINE_PADDR, page_size E)]"
  shows "mm_inv s'" "map_only s s'" "memory_kind s a = Some KImage \<Longrightarrow> memory_kind s' a = Some KImage"
    "tramp_reserved E s'"
proof -
  obtain d where d: "new_aligned E AP_TRAMPOLINE_PADDR (page_size E) Reserved (page_size E) = Ok d"
    using assms(3) by (cases "new_aligned E AP_TRAMPOLINE_PADDR (page_size E) Reserved (page_size E)")
      (auto simp: reserve_arch_early_ranges_def)
  have sz: "0 < size_in_bytes d" using assms(4) d by (simp add: reservations_ok_def)
  have ty: "memory_type d = Reserved" using d by (auto simp: new_aligned_def Let_def split: if_splits)
  consider "add_memory_descriptor E d s = (s', Ok ())" | n e where "add_memory_descriptor E d s = (s', Err (Conflict n e))"
    using assms(3) d by (auto simp: reserve_arch_early_ranges_def split: prod.splits result.splits range_error.splits if_splits)
  then have "mm_inv s' \<and> map_only s s' \<and> (\<forall>a. memory_kind s a = Some KImage \<longrightarrow> memory_kind s' a = Some KImage) \<and>
      tramp_reserved E s'"
  proof cases
    case 1
    note add_memory_descriptor_Ok [OF assms(2,1) sz 1]
    moreover have "memory_kind s' a = Some KImage" if "memory_kind s a = Some KImage" for a
      using add_memory_descriptor_keeps [OF assms(2,1) sz 1 that] ty by simp
    ultimately show ?thesis using d ty by (simp add: map_only_def tramp_reserved_def)
  next
    case (2 n e)
    note c = add_memory_descriptor_conflict [OF assms(2) sz 2]
    from c(4) have "\<exists>a \<in> cover md_range_op d. memory_kind s' a \<notin> {None, Some memory_type.Free, Some Reserved}"
      using ty by force
    then show ?thesis using c(1-3) d ty by (simp add: map_only_def tramp_reserved_def)
  qed
  then show "mm_inv s'" "map_only s s'" "memory_kind s a = Some KImage \<Longrightarrow> memory_kind s' a = Some KImage"
    "tramp_reserved E s'" by blast+
qed

section \<open>Boot up to the per-CPU areas\<close>

text \<open>What the build for a target reserves: the trampoline page on x86-64, nothing elsewhere.\<close>

definition arch_reservation :: "boot_env \<Rightarrow> bool \<Rightarrow> boot_mem \<Rightarrow> boot_mem \<times> (unit, unit) result" where
  "arch_reservation E x86_64 = (if x86_64 then reserve_arch_early_ranges E else (\<lambda>s. (s, Ok ())))"

lemma arch_reservation_spec:
  assumes "heapless_128 E" "mm_inv s" "arch_reservation E x86_64 s = (s', Ok ())"
    and "x86_64 \<Longrightarrow> reservations_ok E (page_size E) [(AP_TRAMPOLINE_PADDR, page_size E)]"
  shows "mm_inv s'" "memory_kind s a = Some KImage \<Longrightarrow> memory_kind s' a = Some KImage" "x86_64 \<Longrightarrow> tramp_reserved E s'"
  using reserve_arch_spec [OF assms(1,2), of s'] assms(2-4) by (auto simp: arch_reservation_def split: if_splits)

text \<open>Boot, when the device tree gives no empty reservation and the kernel image is not empty.\<close>

lemma early_boot_memory:
  assumes "heapless_128 E" "aligns_up E" "mm_inv s"
    and "\<And>fdt. fdt_base E s = Some fdt \<Longrightarrow> reservations_ok E C (fdt_reservations fdt)"
    and "KIMAGE_START s = Some k" "k < KIMAGE_END s"
    and "x86_64 \<Longrightarrow> reservations_ok E (page_size E) [(AP_TRAMPOLINE_PADDR, page_size E)]"
    and "early_boot E C (arch_reservation E x86_64) s = (s', Ok ())"
  shows "boot_ram_ok s' \<and> (\<forall>a. k \<le> a \<longrightarrow> a < KIMAGE_END s \<longrightarrow> memory_kind s' a = Some KImage) \<and>
         (x86_64 \<longrightarrow> tramp_reserved E s')"
proof -
  obtain r s1 s2 s2' s3 s4 m where st: "init_memory_map E C s = (s1, Ok r)" "add_kimage E s1 = (s2, Ok ())"
    "arch_reservation E x86_64 s2 = (s2', Ok ())" "sort_map s2' = (s3, Ok ())" "sort_map s3 = (s4, Ok ())"
    "memory_map s4 = Ok m"
    and fin: "(case large_free_range m of None \<Rightarrow> (s4, Panic) | Some (a, b) \<Rightarrow> save_fdt E (ram_init a b s4)) = (s', Ok ())"
    using assms(8) unfolding early_boot_def and_then_eq_Ok print_memory_map_sorts
    by (elim exE conjE) simp
  obtain a b where ab: "large_free_range m = Some (a, b)" "save_fdt E (ram_init a b s4) = (s', Ok ())"
    using fin by (cases "large_free_range m") auto
  have 1: "mm_inv s1" "map_only s s1" using init_memory_map_inv [OF assms(1,3) st(1) assms(4)] by auto
  have k: "KIMAGE_START s1 = Some k" "KIMAGE_END s1 = KIMAGE_END s"
    using map_only_fields(1,2) [OF 1(2)] assms(5) by auto
  have 2: "mm_inv s2" "\<forall>a. k \<le> a \<longrightarrow> a < KIMAGE_END s \<longrightarrow> memory_kind s2 a = Some KImage"
    using add_kimage_inv [OF assms(1) 1(1) st(2) k(1)] assms(6) k(2) by auto
  note 3 = arch_reservation_spec [OF assms(1) 2(1) st(3) assms(7)]
  have 4: "mm_inv s4" "memory_kind s4 = memory_kind s2'"
    using sort_map_inv [OF _ st(4)] sort_map_inv [OF _ st(5)] 3(1) by auto
  note 5 = large_free_range_ram [OF st(6) 4(1) ab(1)]
  have 6: "boot_ram_ok s'" "memory_kind s' = memory_kind s2'"
    using save_fdt_ram [OF 5(1) assms(2) 5(3) ab(2)] 5(2) 4(2) by auto
  then have "tramp_reserved E s' = tramp_reserved E s2'" by (simp add: tramp_reserved_def)
  with 6 3(2,3) 2(2) show ?thesis by simp
qed

end
