(* ===== verification/Memory_Properties.thy ===== *)
theory Memory_Properties
  imports Boot_Sequence Paging_Properties
begin

text \<open>
  The main properties of the boot memory and of the per-CPU areas, with a concrete boot in which their
  hypotheses hold.
\<close>

section \<open>Concrete inputs\<close>

definition sample_ram :: boot_mem where
  "sample_ram =
     ram_init 1048576 16777216
       (boot_mem_init\<lparr>MEMORY_MAP := cell_new [\<lparr>physical_start = 1048576, size_in_bytes = 15728640,
          memory_type = memory_type.Free\<rparr>], KIMAGE_START := Some 65536, KIMAGE_END := 131072\<rparr>)"

text \<open>Two CPUs from the device tree, a template of 200 bytes and stacks of 16 KiB.\<close>

definition sample_percpu :: percpu_env where
  "sample_percpu =
     \<lparr>pe_boot = sample_env, link_start = 65536, link_end = 65736, pe_stack_size = 16384,
      pe_sources = \<lparr>acpi_cpu_id_list = None, fdt_cpu_id_list = Some [3, 5]\<rparr>, secondary_entry = 70000,
      pe_va = (\<lambda>a. Ok a), pe_percpu_va = (\<lambda>a. Ok a)\<rparr>"

definition sample_mem :: percpu_mem where
  "sample_mem = \<lparr>pm_boot = sample_ram, pm_bytes = (\<lambda>a. a mod 251)\<rparr>"

lemma sample_ids: "cpu_id_list (pe_sources sample_percpu) = [3, 5]" "ncpu sample_percpu = 2"
  by (simp_all add: cpu_count_def cpu_id_list_firmware firmware_ids_def sample_percpu_def)

lemma power_of_two_4096: "is_power_of_two 4096"
  by (simp add: eval_simps)

lemma sample_map_inv: "mm_inv sample_ram" "map_entries sample_ram = 1"
  by (simp_all add: sample_ram_def ram_init_def mm_inv_def memory_map_def boot_mem_init_def memory_map_ok_def
      range_set_inv_def pairwise_disjoint_def wf_item_def proper_def U64_MAX_def map_entries_def)

lemma sample_kind:
  "memory_kind sample_ram a = (if 1048576 \<le> a \<and> a < 16777216 then Some memory_type.Free else None)"
  by (simp add: sample_ram_def ram_init_def memory_kind_def memory_map_def boot_mem_init_def kind_at_def)

lemma sample_backed: "ram_backed sample_env sample_ram"
  using sample_map_inv sample_kind power_of_two_4096
  by (simp add: ram_backed_def sample_ram_def ram_init_def sample_env_def U64_MAX_def)

lemma sample_layouts:
  "meta_offset sample_percpu = Ok 256" "stack_offset sample_percpu = Ok 4096" "percpu_data_size sample_percpu = Ok 20480"
  by (simp_all add: percpu_data_size_def stack_offset_def meta_offset_def align_up_pow2_def sample_percpu_def link_len_def
      meta_align_def add_usize_def percpu_region_align_def META_SIZE_def sample_env_def eval_simps and_not64_def)

lemma sample_layout_info:
  "layout_info sample_percpu 2 = Ok \<lparr>meta_region_offset = 0, meta_stride = 64, stack_region_offset = 4096,
     stack_stride = 16384, data_region_offset = 36864, data_stride = 4096, total_size = 45056\<rparr>"
  by (simp add: layout_info_def aligned_slot_size_def align_up_pow2_def sample_percpu_def link_len_def meta_align_def
      add_usize_def mul_usize_def percpu_region_align_def META_SIZE_def sample_env_def eval_simps and_not64_def)

lemma sample_base: "region_base sample_percpu sample_ram = 1048576"
  by (simp add: region_base_def sample_percpu_def sample_env_def sample_ram_def ram_init_def)

lemma sample_entry: "kimage_va sample_ram 70000 = Ok 70000"
  by (simp add: kimage_va_def sample_ram_def ram_init_def boot_mem_init_def isize_checked_def as_isize_def as_usize_def)

lemma sample_fits:
  assumes "tsz \<le> 65536"
  shows "percpu_fits sample_percpu tsz sample_ram"
proof -
  have "percpu_env_ok sample_percpu" "pe_boot sample_percpu = sample_env" "page_size sample_env = 4096"
    using power_of_two_4096 by (simp_all add: percpu_env_ok_def sample_percpu_def sample_env_def U64_MAX_def)
  moreover have "\<not> MMU_ENABLED sample_ram" "RAM_END sample_ram = 16777216"
    by (simp_all add: sample_ram_def ram_init_def boot_mem_init_def)
  moreover have "link_start sample_percpu = 65536" "link_len sample_percpu = 200"
    "secondary_entry sample_percpu = 70000" "pe_percpu_va sample_percpu = (\<lambda>a. Ok a)"
    by (simp_all add: sample_percpu_def link_len_def)
  ultimately show ?thesis
    using assms sample_env_ok sample_backed sample_map_inv(2) sample_base sample_ids(1) sample_entry power_of_two_4096
    by (simp add: percpu_fits_def percpu_boot_ok_def layout_from_size_align_def apart_def U64_MAX_def)
qed

section \<open>Memory map and boot allocator\<close>

text \<open>
  C18: After \<open>add_memory_descriptor\<close> succeeds, every address of the new descriptor has its kind and
  every other address the kind it had; the descriptors of the map stay disjoint, not empty and inside
  the address space, and no other static of the boot memory changes.
\<close>

theorem memory_map_records:
  assumes "mm_inv s" "heapless_128 E" "0 < size_in_bytes d" "add_memory_descriptor E d s = (s', Ok ())"
  shows "mm_inv s' \<and> s' = s\<lparr>MEMORY_MAP := MEMORY_MAP s'\<rparr> \<and>
         memory_kind s' = (\<lambda>a. if physical_start d \<le> a \<and> a < physical_start d + size_in_bytes d
                               then Some (memory_type d) else memory_kind s a)"
  by (rule add_memory_descriptor_Ok [OF assms])

definition sample_mmio :: memory_descriptor where
  "sample_mmio = \<lparr>physical_start = 2097152, size_in_bytes = 4096, memory_type = Mmio\<rparr>"

theorem memory_map_records_witness:
  "\<exists>s'. add_memory_descriptor sample_env sample_mmio sample_ram = (s', Ok ()) \<and>
        memory_kind s' 2097200 = Some Mmio \<and> memory_kind s' 2101248 = Some memory_type.Free"
proof -
  obtain s' where s': "add_memory_descriptor sample_env sample_mmio sample_ram = (s', Ok ())"
    using add_memory_descriptor_succeeds [OF sample_map_inv(1) sample_env_ok(2), of sample_mmio] sample_map_inv(2)
    by (auto simp: sample_mmio_def U64_MAX_def sample_kind)
  from memory_map_records [OF sample_map_inv(1) sample_env_ok(2) _ s']
  have "memory_kind s' = (\<lambda>a. if 2097152 \<le> a \<and> a < 2101248 then Some Mmio else memory_kind sample_ram a)"
    by (auto simp: sample_mmio_def fun_eq_iff)
  then show ?thesis using s' by (simp add: sample_kind)
qed

text \<open>
  C19: Memory that \<open>alloc_and_flush_to_memory_map\<close> returns is aligned, lies above everything allocated
  before it, and is reported with the requested kind from then on; later allocations start behind
  it and still come out of free memory.
\<close>

theorem boot_alloc_fresh:
  assumes "ram_backed E s" "aligns_up E" "heapless_128 E" "map_entries s < 127"
    and "is_power_of_two lalign" "RAM_CURRENT s + (lalign - 1) \<le> U64_MAX"
    and "alloc_and_flush_to_memory_map E lsize lalign kind s = (s', Ok (Some a))"
  shows "ram_backed E s' \<and> lalign dvd a \<and> RAM_CURRENT s \<le> a \<and> a + lsize \<le> RAM_START s' \<and>
         (\<forall>x. a \<le> x \<longrightarrow> x < a + lsize \<longrightarrow> memory_kind s' x = Some kind)"
  by (rule alloc_and_flush_spec [OF assms])

lemma sample_alloc:
  "\<exists>s'. alloc_and_flush_to_memory_map sample_env 10000 64 PerCpuData sample_ram = (s', Ok (Some 1048576))"
proof -
  have r: "ram_alloc sample_env 10000 64 sample_ram = (sample_ram\<lparr>RAM_CURRENT := 1058576\<rparr>, Ok (Some 1048576))"
    by (simp add: ram_alloc_def sample_env_def sample_ram_def ram_init_def U64_MAX_def)
  have "RAM_CURRENT sample_ram + (64 - 1) \<le> U64_MAX" by (simp add: sample_ram_def ram_init_def U64_MAX_def)
  then have "ram_backed sample_env (sample_ram\<lparr>RAM_CURRENT := 1058576\<rparr>)"
    using ram_alloc_backed [OF sample_backed sample_env_ok(1) _ _ r] by (simp add: eval_simps)
  moreover have "map_entries (sample_ram\<lparr>RAM_CURRENT := 1058576\<rparr>) < 127"
    using sample_map_inv(2) by (simp add: map_entries_def memory_map_def)
  ultimately obtain s' where "flush_to_memory_map sample_env PerCpuData (sample_ram\<lparr>RAM_CURRENT := 1058576\<rparr>) = (s', Ok ())"
    using flush_to_memory_map_spec [OF _ sample_env_ok] by blast
  with r show ?thesis by (simp add: alloc_and_flush_to_memory_map_def)
qed

theorem boot_alloc_fresh_witness:
  "\<exists>s'. alloc_and_flush_to_memory_map sample_env 10000 64 PerCpuData sample_ram = (s', Ok (Some 1048576)) \<and>
        memory_kind s' 1058575 = Some PerCpuData \<and> 1058576 \<le> RAM_START s'"
proof -
  obtain s' where s': "alloc_and_flush_to_memory_map sample_env 10000 64 PerCpuData sample_ram = (s', Ok (Some 1048576))"
    using sample_alloc ..
  have "map_entries sample_ram < 127" "is_power_of_two 64" "RAM_CURRENT sample_ram + (64 - 1) \<le> U64_MAX"
    using sample_map_inv(2) by (simp_all add: eval_simps sample_ram_def ram_init_def)
  from boot_alloc_fresh [OF sample_backed sample_env_ok this s'] show ?thesis using s' by auto
qed

section \<open>Per-CPU areas\<close>

text \<open>
  C20: \<open>alloc_percpu\<close> with one slot per CPU returns when the region fits.  The region is taken from free
  memory and recorded as per-CPU data; iterating the metadata gives, for every CPU in firmware order, its
  hardware id, its index and its stack; the data pointer of every CPU points to a copy of the linker
  template; and the stacks of two CPUs do not meet.
\<close>

theorem legacy_percpu_areas:
  assumes "percpu_data_size P = Ok sz" "percpu_fits P (sz * cpu_count (pe_sources P)) (pm_boot s)"
    and "kimage_va (pm_boot s) (secondary_entry P) = Ok entry"
  shows "\<exists>s' tops. legacy_alloc_percpu P s = Some (s', Ok ()) \<and>
           region_claimed P (sz * cpu_count (pe_sources P)) s s' \<and>
           cpu_meta_list legacy_cpu_meta_addr P s' =
             Some (Ok (map (\<lambda>i. fresh_meta P entry (tops i) i (cpu_id_list (pe_sources P) ! i))
                         [0 ..< cpu_count (pe_sources P)])) \<and>
           (\<forall>i < cpu_count (pe_sources P). \<exists>a. legacy_percpu_data_ptr P s' i = Ok (Some a) \<and>
              (\<forall>k < link_len P. pm_bytes s' (a + k) = pm_bytes s (link_start P + k)) \<and>
              a + link_len P + META_SIZE + pe_stack_size P \<le> tops i) \<and>
           (\<forall>i j. i < j \<longrightarrow> tops i + pe_stack_size P \<le> tops j)"
proof -
  obtain s' where s': "legacy_alloc_percpu P s = Some (s', Ok ())" "region_claimed P (sz * ncpu P) s s'"
    "legacy_ready P (pm_boot s')" "\<not> MMU_ENABLED (pm_boot s')"
    "cpu_meta_list legacy_cpu_meta_addr P s' =
       Some (Ok (map (\<lambda>i. fresh_meta P entry (legacy_stack_top P (pm_boot s') i) i (cpu_id_list (pe_sources P) ! i)) [0 ..< ncpu P]))"
    "\<forall>i < ncpu P. \<forall>k < link_len P. pm_bytes s' (legacy_base P (pm_boot s') i + k) = pm_bytes s (link_start P + k)"
    using legacy_alloc_percpu_spec [OF assms] by blast
  note lay = legacy_slot_areas [OF s'(3,4)]
  show ?thesis
    using s' lay by (intro exI [of _ s'] exI [of _ "legacy_stack_top P (pm_boot s')"]) auto
qed

theorem legacy_percpu_areas_witness:
  "\<exists>s' a b. legacy_alloc_percpu sample_percpu sample_mem = Some (s', Ok ()) \<and>
        PERCPU_START (pm_boot s') = 1048576 \<and> PERCPU_END (pm_boot s') = 1089536 \<and>
        cpu_meta_list legacy_cpu_meta_addr sample_percpu s' =
          Some (Ok [fresh_meta sample_percpu 70000 a 0 3, fresh_meta sample_percpu 70000 b 1 5]) \<and> a + 16384 \<le> b"
proof -
  have e: "percpu_fits sample_percpu (20480 * cpu_count (pe_sources sample_percpu)) (pm_boot sample_mem)"
    "kimage_va (pm_boot sample_mem) (secondary_entry sample_percpu) = Ok 70000"
    using sample_fits [of 40960] sample_ids sample_entry by (simp_all add: sample_mem_def) (simp add: sample_percpu_def)
  have u: "[0 ..< (2::nat)] = [0, 1]" by (simp add: upt_rec)
  from legacy_percpu_areas [OF sample_layouts(3) e] obtain s' tops where
    s': "legacy_alloc_percpu sample_percpu sample_mem = Some (s', Ok ())"
      "region_claimed sample_percpu 40960 sample_mem s'"
      "cpu_meta_list legacy_cpu_meta_addr sample_percpu s' =
         Some (Ok [fresh_meta sample_percpu 70000 (tops 0) 0 3, fresh_meta sample_percpu 70000 (tops 1) 1 5])"
      "\<forall>i j. i < j \<longrightarrow> tops i + pe_stack_size sample_percpu \<le> tops (j::nat)"
    by (auto simp: sample_ids u)
  have "tops 0 + 16384 \<le> tops 1" using s'(4) by (auto simp: sample_percpu_def)
  with s' show ?thesis
    by (intro exI [of _ s'] exI [of _ "tops 0"] exI [of _ "tops 1"])
       (simp add: region_claimed_def sample_mem_def sample_base)
qed



text \<open>
  C22: \<open>init_percpu\<close> ends in both per-CPU layouts, the legacy one and the preallocated one, and the metadata
  that iterating gives afterwards is what it gave before with the two page-table fields of every CPU set;
  no other field of any CPU changes.  With the MMU on, the translation of the per-CPU region must keep
  the alignment of the metadata.
\<close>

theorem init_percpu_sets_tables:
  assumes "addr = legacy_cpu_meta_addr \<and> legacy_ready P (pm_boot s) \<and> slot = legacy_meta_slot \<or>
           addr = cpu_meta_start \<and> prealloc_ready P (pm_boot s) \<and> slot = pre_meta"
    and "\<forall>i < cpu_count (pe_sources P). ptr_ok P s (slot P (pm_boot s) i)"
    and "t1 \<le> U64_MAX" "t2 \<le> U64_MAX" "is_ok (pe_percpu_va P (PERCPU_START (pm_boot s)))"
  shows "\<exists>s' ds. cpu_meta_list addr P s = Some (Ok ds) \<and> length ds = cpu_count (pe_sources P) \<and>
           init_percpu addr P t1 t2 s = Some (s', Ok ()) \<and>
           cpu_meta_list addr P s' =
             Some (Ok (map (\<lambda>d. d\<lparr>boot_table_paddr := t1, primary_table_paddr := t2\<rparr>) ds))"
  using assms(1)
proof (elim disjE conjE)
  assume l: "addr = legacy_cpu_meta_addr" "legacy_ready P (pm_boot s)" "slot = legacy_meta_slot"
  have "PERCPU_START (pm_boot s) \<le> PERCPU_END (pm_boot s)" using l(2) by (auto simp: legacy_ready_def)
  from legacy.init_percpu_metas [OF l(2) _ assms(3-5) this] assms(2) show ?thesis unfolding l(1,3) by blast
next
  assume l: "addr = cpu_meta_start" "prealloc_ready P (pm_boot s)" "slot = pre_meta"
  have "PERCPU_START (pm_boot s) \<le> PERCPU_END (pm_boot s)" using l(2) by (auto simp: prealloc_ready_def)
  from prealloc.init_percpu_metas [OF l(2) _ assms(3-5) this] assms(2) show ?thesis unfolding l(1,3) by blast
qed

lemma sample_legacy_ready:
  "\<exists>s. legacy_alloc_percpu sample_percpu sample_mem = Some (s, Ok ()) \<and> legacy_ready sample_percpu (pm_boot s) \<and>
       (\<forall>i. ptr_ok sample_percpu s (legacy_meta_slot sample_percpu (pm_boot s) i))"
proof -
  have e: "percpu_fits sample_percpu (20480 * ncpu sample_percpu) (pm_boot sample_mem)"
    "kimage_va (pm_boot sample_mem) (secondary_entry sample_percpu) = Ok 70000"
    using sample_fits [of 40960] sample_ids sample_entry by (simp_all add: sample_mem_def) (simp add: sample_percpu_def)
  from legacy_alloc_percpu_spec [OF sample_layouts(3) e] obtain s where
    s: "legacy_alloc_percpu sample_percpu sample_mem = Some (s, Ok ())" "legacy_ready sample_percpu (pm_boot s)"
      "\<not> MMU_ENABLED (pm_boot s)" by blast
  then show ?thesis using ptr_ok_off [OF s(3)] legacy_aligned(1) [OF s(2)] by blast
qed

lemma sample_prealloc_ready:
  "\<exists>s. prealloc_alloc_percpu sample_percpu sample_mem = Some (s, Ok ()) \<and> prealloc_ready sample_percpu (pm_boot s) \<and>
       (\<forall>i. ptr_ok sample_percpu s (pre_meta sample_percpu (pm_boot s) i))"
proof -
  let ?L = "\<lparr>meta_region_offset = 0, meta_stride = 64, stack_region_offset = 4096,
     stack_stride = 16384, data_region_offset = 36864, data_stride = 4096, total_size = 45056\<rparr>"
  have L: "layout_info sample_percpu (cpu_count (pe_sources sample_percpu)) = Ok ?L"
    unfolding sample_ids(2) by (rule sample_layout_info)
  have e: "percpu_fits sample_percpu (total_size ?L) (pm_boot sample_mem)"
    "kimage_va (pm_boot sample_mem) (secondary_entry sample_percpu) = Ok 70000"
    using sample_fits [of 45056] sample_ids sample_entry by (simp_all add: sample_mem_def) (simp add: sample_percpu_def)
  from prealloc_alloc_percpu_spec [OF L e] obtain s where
    s: "prealloc_alloc_percpu sample_percpu sample_mem = Some (s, Ok ())" "prealloc_ready sample_percpu (pm_boot s)"
      "\<not> MMU_ENABLED (pm_boot s)" by blast
  then show ?thesis using ptr_ok_off [OF s(3)] prealloc_aligned(1) [OF s(2)] by blast
qed

theorem init_percpu_sets_tables_witness:
  "(\<exists>s s' a b. legacy_alloc_percpu sample_percpu sample_mem = Some (s, Ok ()) \<and>
        init_percpu legacy_cpu_meta_addr sample_percpu 12288 16384 s = Some (s', Ok ()) \<and>
        cpu_meta_list legacy_cpu_meta_addr sample_percpu s' =
          Some (Ok [a\<lparr>boot_table_paddr := 12288, primary_table_paddr := 16384\<rparr>,
                    b\<lparr>boot_table_paddr := 12288, primary_table_paddr := 16384\<rparr>])) \<and>
   (\<exists>s s' a b. prealloc_alloc_percpu sample_percpu sample_mem = Some (s, Ok ()) \<and>
        init_percpu cpu_meta_start sample_percpu 12288 16384 s = Some (s', Ok ()) \<and>
        cpu_meta_list cpu_meta_start sample_percpu s' =
          Some (Ok [a\<lparr>boot_table_paddr := 12288, primary_table_paddr := 16384\<rparr>,
                    b\<lparr>boot_table_paddr := 12288, primary_table_paddr := 16384\<rparr>]))"
proof -
  have two: "\<exists>a b. ds = [a, b]" if "length ds = 2" for ds :: "per_cpu_meta list"
    using that by (auto simp: numeral_2_eq_2 length_Suc_conv)
  have va: "is_ok (pe_percpu_va sample_percpu n)" for n by (simp add: sample_percpu_def)
  obtain s where s: "legacy_alloc_percpu sample_percpu sample_mem = Some (s, Ok ())"
    "legacy_ready sample_percpu (pm_boot s)"
    "\<forall>i. ptr_ok sample_percpu s (legacy_meta_slot sample_percpu (pm_boot s) i)"
    using sample_legacy_ready by blast
  obtain p where p: "prealloc_alloc_percpu sample_percpu sample_mem = Some (p, Ok ())"
    "prealloc_ready sample_percpu (pm_boot p)"
    "\<forall>i. ptr_ok sample_percpu p (pre_meta sample_percpu (pm_boot p) i)"
    using sample_prealloc_ready by blast
  have u: "(12288::nat) \<le> U64_MAX" "(16384::nat) \<le> U64_MAX" by (simp_all add: U64_MAX_def)
  obtain s' ds where s': "length ds = 2" "init_percpu legacy_cpu_meta_addr sample_percpu 12288 16384 s = Some (s', Ok ())"
      "cpu_meta_list legacy_cpu_meta_addr sample_percpu s' =
         Some (Ok (map (\<lambda>d. d\<lparr>boot_table_paddr := 12288, primary_table_paddr := 16384\<rparr>) ds))"
    using init_percpu_sets_tables [of legacy_cpu_meta_addr sample_percpu s legacy_meta_slot, OF _ _ u va] s(2,3)
    unfolding sample_ids(2) by blast
  obtain p' es where p': "length es = 2" "init_percpu cpu_meta_start sample_percpu 12288 16384 p = Some (p', Ok ())"
      "cpu_meta_list cpu_meta_start sample_percpu p' =
         Some (Ok (map (\<lambda>d. d\<lparr>boot_table_paddr := 12288, primary_table_paddr := 16384\<rparr>) es))"
    using init_percpu_sets_tables [of cpu_meta_start sample_percpu p pre_meta, OF _ _ u va] p(2,3)
    unfolding sample_ids(2) by blast
  show ?thesis using s(1) s' p(1) p' two [OF s'(1)] two [OF p'(1)] by (elim exE) (intro conjI exI; simp)
qed

text \<open>
  C23: The iterator over processor identifiers, which chooses its source on the first call and switches
  state as it runs out of items, yields the processors of the first firmware table that has any
  (ACPI, then the device tree) in table order, or the single processor 0.
\<close>

theorem cpu_ids_from_firmware: "cpu_id_list src = firmware_ids src"
  by (rule cpu_id_list_firmware)

section \<open>Boot sequence\<close>

text \<open>
  C24: When \<open>early_init\<close> has come through \<open>save_fdt\<close> without a panic, on x86-64 or on a target that reserves no
  low memory, the memory map is well formed, the kernel image is recorded in it, and the range of the
  linear allocator is free memory of the map, so that what is allocated afterwards never meets the
  kernel image or a reserved range.  When the range also ends on a page boundary, it is what the
  allocation of the per-CPU areas relies on.  On x86-64 the page of the AP trampoline is reserved, unless memory
  of a third kind lies in it.
\<close>

theorem early_boot_free_memory:
  assumes "heapless_128 E" "aligns_up E" "is_power_of_two (page_size E)" "mm_inv s"
    and "\<forall>fdt. fdt_base E s = Some fdt \<longrightarrow> reservations_ok E C (fdt_reservations fdt)"
    and "KIMAGE_START s = Some k" "k < KIMAGE_END s"
    and "x86_64 \<longrightarrow> reservations_ok E (page_size E) [(AP_TRAMPOLINE_PADDR, page_size E)]"
    and "early_boot E C (arch_reservation E x86_64) s = (s', Ok ())"
  shows "mm_inv s' \<and> RAM_START s' \<le> RAM_CURRENT s' \<and> RAM_CURRENT s' \<le> RAM_END s' \<and>
         (\<forall>a. RAM_START s' \<le> a \<longrightarrow> a < RAM_END s' \<longrightarrow> memory_kind s' a = Some memory_type.Free) \<and>
         (\<forall>a. k \<le> a \<longrightarrow> a < KIMAGE_END s \<longrightarrow> memory_kind s' a = Some KImage) \<and>
         (page_size E dvd RAM_END s' \<longrightarrow> RAM_END s' + page_size E \<le> U64_MAX \<longrightarrow> ram_backed E s') \<and>
         (x86_64 \<longrightarrow> tramp_reserved E s')"
proof -
  have "boot_ram_ok s'" "\<forall>a. k \<le> a \<longrightarrow> a < KIMAGE_END s \<longrightarrow> memory_kind s' a = Some KImage"
    "x86_64 \<longrightarrow> tramp_reserved E s'"
    using early_boot_memory [OF assms(1,2,4) _ assms(6,7) _ assms(9)] assms(5,8) by blast+
  then show ?thesis using assms(3) by (simp add: boot_ram_ok_def ram_backed_def)
qed

text \<open>A device tree with 16 MiB of memory and one reserved page; the kernel sits at 2 MiB.\<close>

definition sample_fdt :: fdt_raw where
  "sample_fdt = \<lparr>fdt_memory = [[(1048576, 16777216)]], fdt_reservations = [(1048576, 100)],
     fdt_reserved_memory = [], fdt_totalsize = 500\<rparr>"

definition sample_fdt_env :: boot_env where
  "sample_fdt_env = sample_env\<lparr>fdt_from_ptr := (\<lambda>p. if p = 1052672 then Some sample_fdt else None)\<rparr>"

definition sample_entry_state :: boot_mem where
  "sample_entry_state =
     boot_mem_init\<lparr>FDT_ADDR := 1052672, KIMAGE_START := Some 2097152, KIMAGE_END := 4194304\<rparr>"

lemmas boot_eval = merge_add_def merge_add_loop.simps merge_same_kind.simps find_merge_pair_def vec_push_def
  vec_insert_def vec_remove_def joinable_def join_range_def md_range_op_def md_clone_with_range_def default_mergeable_def
  md_overwritable_def sample_fdt_env_def sample_env_def upt_rec early_boot_def init_memory_map_def sample_entry_state_def
  boot_mem_init_def fdt_base_def fdt_addr_phys_def sample_fdt_def add_memory_descriptor_def cell_update_def U64_MAX_def
  new_aligned_def add_kimage_def sort_map_def print_memory_map_def memory_map_def large_free_range_def MB_def KB_def
  ram_init_def save_fdt_def layout_from_size_align_def ram_alloc_def kimage_range_def cell_new_def cell_deref_def

lemma power_of_two_8: "is_power_of_two 8"
  by (simp add: eval_simps)

lemma sample_booted_memory:
  "\<exists>s'. early_boot sample_fdt_env 4096 (arch_reservation sample_fdt_env True) sample_entry_state = (s', Ok ()) \<and>
        RAM_START s' = 4194304 \<and> RAM_END s' = 17825792 \<and> RAM_CURRENT s' = 4194804 \<and>
        memory_map s' = Ok [\<lparr>physical_start = 32768, size_in_bytes = 4096, memory_type = Reserved\<rparr>,
          \<lparr>physical_start = 1048576, size_in_bytes = 4096, memory_type = Reserved\<rparr>,
          \<lparr>physical_start = 1052672, size_in_bytes = 1044480, memory_type = memory_type.Free\<rparr>,
          \<lparr>physical_start = 2097152, size_in_bytes = 2097152, memory_type = KImage\<rparr>,
          \<lparr>physical_start = 4194304, size_in_bytes = 13631488, memory_type = memory_type.Free\<rparr>]"
  by (simp add: boot_eval arch_reservation_def reserve_arch_early_ranges_def AP_TRAMPOLINE_PADDR_def power_of_two_8)

theorem early_boot_free_memory_witness:
  "\<exists>s'. early_boot sample_fdt_env 4096 (arch_reservation sample_fdt_env True) sample_entry_state = (s', Ok ()) \<and>
        ram_backed sample_fdt_env s' \<and> memory_kind s' 3000000 = Some KImage \<and>
        memory_kind s' 5000000 = Some memory_type.Free \<and> memory_kind s' 33000 = Some Reserved \<and>
        tramp_reserved sample_fdt_env s'"
proof -
  obtain s' where s': "early_boot sample_fdt_env 4096 (arch_reservation sample_fdt_env True) sample_entry_state = (s', Ok ())"
    "RAM_START s' = 4194304" "RAM_END s' = 17825792"
    and m: "memory_map s' = Ok [\<lparr>physical_start = 32768, size_in_bytes = 4096, memory_type = Reserved\<rparr>,
          \<lparr>physical_start = 1048576, size_in_bytes = 4096, memory_type = Reserved\<rparr>,
          \<lparr>physical_start = 1052672, size_in_bytes = 1044480, memory_type = memory_type.Free\<rparr>,
          \<lparr>physical_start = 2097152, size_in_bytes = 2097152, memory_type = KImage\<rparr>,
          \<lparr>physical_start = 4194304, size_in_bytes = 13631488, memory_type = memory_type.Free\<rparr>]"
    using sample_booted_memory by blast
  have env: "heapless_128 sample_fdt_env" "aligns_up sample_fdt_env" "page_size sample_fdt_env = 4096"
    by (simp_all add: sample_fdt_env_def sample_env_def heapless_128_def aligns_up_def)
  have fdt: "\<forall>fdt. fdt_base sample_fdt_env sample_entry_state = Some fdt \<longrightarrow>
      reservations_ok sample_fdt_env 4096 (fdt_reservations fdt)"
    by (simp add: boot_eval reservations_ok_def)
  have tr: "reservations_ok sample_fdt_env 4096 [(AP_TRAMPOLINE_PADDR, 4096)]"
    by (simp add: boot_eval reservations_ok_def AP_TRAMPOLINE_PADDR_def)
  have inv: "mm_inv sample_entry_state"
    using mm_inv_initial by (simp add: mm_inv_def memory_map_def sample_entry_state_def)
  have ki: "KIMAGE_START sample_entry_state = Some 2097152" "2097152 < KIMAGE_END sample_entry_state"
    "KIMAGE_END sample_entry_state = 4194304"
    by (simp_all add: sample_entry_state_def)
  have r: "memory_kind s' 33000 = Some Reserved" by (simp add: memory_kind_def m kind_at_def)
  from early_boot_free_memory [OF env(1,2) _ inv fdt ki(1,2) _ s'(1)] env(3) power_of_two_4096 tr
  have "(page_size sample_fdt_env dvd RAM_END s' \<longrightarrow> RAM_END s' + page_size sample_fdt_env \<le> U64_MAX \<longrightarrow> ram_backed sample_fdt_env s')"
    "\<forall>a. RAM_START s' \<le> a \<longrightarrow> a < RAM_END s' \<longrightarrow> memory_kind s' a = Some memory_type.Free"
    "\<forall>a. 2097152 \<le> a \<longrightarrow> a < KIMAGE_END sample_entry_state \<longrightarrow> memory_kind s' a = Some KImage"
    "tramp_reserved sample_fdt_env s'" by simp_all
  then show ?thesis using s' r env(3) ki(3) by (intro exI [of _ s']) (simp add: U64_MAX_def)
qed

end
