(* ===== verification/Dma_Api.thy ===== *)
theory Dma_Api
  imports Memory_Map Bytes
begin

text \<open>
  The crate \<open>crates/dma-api\<close>: device memory with explicit cache maintenance.

  The state has two views of memory, the one the CPU sees through its cache and the one the device sees,
  and the state of the operating system's allocator.  The trait \<open>DmaOp\<close> is a record: the required
  methods and the cache instructions (\<open>osal/aarch64.rs\<close> calls a crate for them, \<open>osal/nop.rs\<close> does nothing)
  are its fields, and its provided methods \<open>prepare_read\<close> and \<open>confirm_write\<close> are definitions over it.
  A value of the element type is the list of its bytes; \<open>tsize\<close> and \<open>talign\<close> are \<open>size_of::<T>()\<close> and
  \<open>align_of::<T>()\<close>.
\<close>

section \<open>Definitions of def.rs\<close>

datatype dma_direction = ToDevice | FromDevice | Bidirectional

datatype dma_error =
    DmaNoMemory
  | LayoutError
  | DmaMaskNotMatch (mask_addr: nat) (mask_mask: nat)
  | AlignMismatch (am_required: nat) (am_address: nat)
  | NullPointer
  | ZeroSizedBuffer

record dma_handle =
  cpu_addr :: nat
  dma_addr :: nat
  h_size :: nat
  h_align :: nat

record dma_map_handle =
  mh_handle :: dma_handle
  map_alloc_virt :: "nat option"

record 'a dma_state =
  ds_cpu :: bytes
  ds_dev :: bytes
  ds_heap :: 'a

record 'a dma_op =
  op_page_size :: nat
  op_map_single :: "nat \<Rightarrow> nat \<Rightarrow> nat \<Rightarrow> nat \<Rightarrow> dma_direction \<Rightarrow> 'a dma_state \<Rightarrow>
                    'a dma_state \<times> (dma_error, dma_map_handle) result"
  op_unmap_single :: "dma_map_handle \<Rightarrow> 'a dma_state \<Rightarrow> 'a dma_state"
  op_alloc_coherent :: "nat \<Rightarrow> nat \<Rightarrow> nat \<Rightarrow> 'a dma_state \<Rightarrow> 'a dma_state \<times> dma_handle option"
  op_dealloc_coherent :: "dma_handle \<Rightarrow> 'a dma_state \<Rightarrow> 'a dma_state"
  op_flush :: "nat \<Rightarrow> nat \<Rightarrow> 'a dma_state \<Rightarrow> 'a dma_state"
  op_invalidate :: "nat \<Rightarrow> nat \<Rightarrow> 'a dma_state \<Rightarrow> 'a dma_state"
  op_flush_invalidate :: "nat \<Rightarrow> nat \<Rightarrow> 'a dma_state \<Rightarrow> 'a dma_state"

abbreviation cpu_write :: "(bytes \<Rightarrow> bytes) \<Rightarrow> 'a dma_state \<Rightarrow> 'a dma_state" where
  "cpu_write f s \<equiv> ds_cpu_update f s"

section \<open>Provided methods of DmaOp (osal/mod.rs)\<close>

definition prepare_read ::
  "'a dma_op \<Rightarrow> dma_map_handle \<Rightarrow> nat \<Rightarrow> nat \<Rightarrow> dma_direction \<Rightarrow> 'a dma_state \<Rightarrow> 'a dma_state"
where
  "prepare_read Op handle offset sz direction s =
     (if direction = FromDevice \<or> direction = Bidirectional then
        let origin_ptr = cpu_addr (mh_handle handle) + offset
        in case map_alloc_virt handle of
             Some virt \<Rightarrow>
               if virt \<noteq> cpu_addr (mh_handle handle) then
                 let map_ptr = virt + offset
                 in cpu_write (copy_nonoverlapping map_ptr origin_ptr sz) (op_invalidate Op map_ptr sz s)
               else op_invalidate Op origin_ptr sz s
           | None \<Rightarrow> op_invalidate Op origin_ptr sz s
      else s)"

definition confirm_write ::
  "'a dma_op \<Rightarrow> dma_map_handle \<Rightarrow> nat \<Rightarrow> nat \<Rightarrow> dma_direction \<Rightarrow> 'a dma_state \<Rightarrow> 'a dma_state"
where
  "confirm_write Op handle offset sz direction s =
     (if direction = ToDevice \<or> direction = Bidirectional then
        let ptr = cpu_addr (mh_handle handle) + offset;
            s1 = (case map_alloc_virt handle of
                    Some virt \<Rightarrow>
                      if virt \<noteq> cpu_addr (mh_handle handle)
                      then cpu_write (store (virt + offset) (load (ds_cpu s) ptr sz)) s
                      else s
                  | None \<Rightarrow> s)
        in op_flush Op ptr sz s1
      else s)"

section \<open>DeviceDma (lib.rs)\<close>

definition check_handle :: "nat \<Rightarrow> dma_handle \<Rightarrow> (dma_error, unit) result" where
  "check_handle dmask h =
     (let in_mask =
            (if h_size h = 0 then dma_addr h \<le> dmask
             else case checked_add (dma_addr h) (saturating_sub (h_size h) 1) of
                    None \<Rightarrow> False | Some fin \<Rightarrow> fin \<le> dmask)
      in if \<not> in_mask then Err (DmaMaskNotMatch (dma_addr h) dmask)
         else if dma_addr h mod h_align h \<noteq> 0 then Err (AlignMismatch (h_align h) (dma_addr h))
         else Ok ())"

definition alloc_coherent ::
  "'a dma_op \<Rightarrow> nat \<Rightarrow> nat \<Rightarrow> nat \<Rightarrow> 'a dma_state \<Rightarrow> 'a dma_state \<times> (dma_error, dma_handle) result"
where
  "alloc_coherent Op dmask lsize lalign s =
     (case op_alloc_coherent Op dmask lsize lalign s of
        (s, None) \<Rightarrow> (s, Err DmaNoMemory)
      | (s, Some h) \<Rightarrow>
          (case check_handle dmask h of
             Ok _ \<Rightarrow> (s, Ok h)
           | Err e \<Rightarrow> (op_dealloc_coherent Op h s, Err e)
           | Panic \<Rightarrow> (s, Panic)))"

definition map_single_checked ::
  "'a dma_op \<Rightarrow> nat \<Rightarrow> nat \<Rightarrow> nat \<Rightarrow> nat \<Rightarrow> dma_direction \<Rightarrow> 'a dma_state \<Rightarrow>
   'a dma_state \<times> (dma_error, dma_map_handle) result"
where
  "map_single_checked Op dmask addr sz align direction s =
     and_then (op_map_single Op dmask addr sz align direction s) (\<lambda>h s.
       case check_handle dmask (mh_handle h) of
         Ok _ \<Rightarrow> (s, Ok h)
       | Err e \<Rightarrow> (op_unmap_single Op h s, Err e)
       | Panic \<Rightarrow> (s, Panic))"

section \<open>Common part of the owning containers (common.rs)\<close>

record dcommon =
  dc_handle :: dma_map_handle
  dc_direction :: dma_direction

definition dcommon_new_zero ::
  "'a dma_op \<Rightarrow> nat \<Rightarrow> nat \<Rightarrow> nat \<Rightarrow> dma_direction \<Rightarrow> 'a dma_state \<Rightarrow> 'a dma_state \<times> (dma_error, dcommon) result"
where
  "dcommon_new_zero Op dmask lsize lalign direction s =
     and_then (alloc_coherent Op dmask lsize lalign s) (\<lambda>handle s.
       let ptr = cpu_addr handle;
           s1 = cpu_write (write_bytes ptr 0 (h_size handle)) s
       in (op_flush_invalidate Op ptr (h_size handle) s1,
           Ok \<lparr>dc_handle = \<lparr>mh_handle = handle, map_alloc_virt = None\<rparr>, dc_direction = direction\<rparr>))"

definition dcommon_drop :: "'a dma_op \<Rightarrow> dcommon \<Rightarrow> 'a dma_state \<Rightarrow> 'a dma_state" where
  "dcommon_drop Op d s =
     (if 0 < h_size (mh_handle (dc_handle d)) then op_dealloc_coherent Op (mh_handle (dc_handle d)) s else s)"

section \<open>Arrays (array.rs)\<close>

abbreviation arr_size :: "dcommon \<Rightarrow> nat" where
  "arr_size d \<equiv> h_size (mh_handle (dc_handle d))"

abbreviation arr_ptr :: "dcommon \<Rightarrow> nat" where
  "arr_ptr d \<equiv> cpu_addr (mh_handle (dc_handle d))"

definition array_new_zero_with_align ::
  "'a dma_op \<Rightarrow> nat \<Rightarrow> nat \<Rightarrow> nat \<Rightarrow> nat \<Rightarrow> nat \<Rightarrow> dma_direction \<Rightarrow> 'a dma_state \<Rightarrow>
   'a dma_state \<times> (dma_error, dcommon) result"
where
  "array_new_zero_with_align Op dmask tsize talign sz align direction s =
     (if U64_MAX < sz * tsize then (s, Panic)
      else if \<not> layout_from_size_align (sz * tsize) (max align talign) then (s, Err LayoutError)
      else dcommon_new_zero Op dmask (sz * tsize) (max align talign) direction s)"

text \<open>\<open>len\<close> divides by the size of the element type.\<close>

definition array_len :: "nat \<Rightarrow> dcommon \<Rightarrow> ('e, nat) result" where
  "array_len tsize d = (if tsize = 0 then Panic else Ok (arr_size d div tsize))"

definition array_read ::
  "'a dma_op \<Rightarrow> nat \<Rightarrow> dcommon \<Rightarrow> nat \<Rightarrow> 'a dma_state \<Rightarrow> 'a dma_state \<times> (unit, nat list option) result"
where
  "array_read Op tsize d index s =
     and_then (s, array_len tsize d) (\<lambda>len s.
       if len \<le> index then (s, Ok None)
       else
         let s1 = prepare_read Op (dc_handle d) (index * tsize) tsize (dc_direction d) s
         in (s1, Ok (Some (load (ds_cpu s1) (arr_ptr d + index * tsize) tsize))))"

definition array_set ::
  "'a dma_op \<Rightarrow> nat \<Rightarrow> dcommon \<Rightarrow> nat \<Rightarrow> nat list \<Rightarrow> 'a dma_state \<Rightarrow> 'a dma_state \<times> (unit, unit) result"
where
  "array_set Op tsize d index val s =
     and_then (s, array_len tsize d) (\<lambda>len s.
       if \<not> index < len then (s, Panic)
       else
         let s1 = cpu_write (store (arr_ptr d + index * tsize) val) s
         in (confirm_write Op (dc_handle d) (index * tsize) tsize (dc_direction d) s1, Ok ()))"

definition array_copy_from_slice ::
  "'a dma_op \<Rightarrow> nat \<Rightarrow> dcommon \<Rightarrow> nat list list \<Rightarrow> 'a dma_state \<Rightarrow> 'a dma_state \<times> (unit, unit) result"
where
  "array_copy_from_slice Op tsize d src s =
     and_then (s, array_len tsize d) (\<lambda>len s.
       if \<not> length src \<le> len then (s, Panic)
       else
         let s1 = cpu_write (store (arr_ptr d) (concat src)) s
         in (confirm_write Op (dc_handle d) 0 (arr_size d) (dc_direction d) s1, Ok ()))"

definition array_prepare_read ::
  "'a dma_op \<Rightarrow> dcommon \<Rightarrow> nat \<Rightarrow> nat \<Rightarrow> 'a dma_state \<Rightarrow> 'a dma_state \<times> (unit, unit) result"
where
  "array_prepare_read Op d offset sz s =
     (if \<not> (offset \<le> arr_size d \<and> sz \<le> saturating_sub (arr_size d) offset) then (s, Panic)
      else (prepare_read Op (dc_handle d) offset sz (dc_direction d) s, Ok ()))"

definition array_confirm_write ::
  "'a dma_op \<Rightarrow> dcommon \<Rightarrow> nat \<Rightarrow> nat \<Rightarrow> 'a dma_state \<Rightarrow> 'a dma_state \<times> (unit, unit) result"
where
  "array_confirm_write Op d offset sz s =
     (if \<not> (offset \<le> arr_size d \<and> sz \<le> saturating_sub (arr_size d) offset) then (s, Panic)
      else (confirm_write Op (dc_handle d) offset sz (dc_direction d) s, Ok ()))"

text \<open>The closure of \<open>write_with\<close> rewrites the borrowed bytes; it is the parameter \<open>f\<close>.\<close>

definition array_write_with ::
  "'a dma_op \<Rightarrow> nat \<Rightarrow> dcommon \<Rightarrow> nat \<Rightarrow> (nat list \<Rightarrow> nat list) \<Rightarrow> 'a dma_state \<Rightarrow> 'a dma_state \<times> (unit, unit) result"
where
  "array_write_with Op tsize d n f s =
     and_then (s, array_len tsize d) (\<lambda>len s.
       if \<not> n \<le> len then (s, Panic)
       else array_confirm_write Op d 0 (n * tsize)
              (cpu_write (\<lambda>m. store (arr_ptr d) (f (load m (arr_ptr d) (n * tsize))) m) s))"

definition array_read_with ::
  "'a dma_op \<Rightarrow> nat \<Rightarrow> dcommon \<Rightarrow> nat \<Rightarrow> (nat list \<Rightarrow> 'r) \<Rightarrow> 'a dma_state \<Rightarrow> 'a dma_state \<times> (unit, 'r) result"
where
  "array_read_with Op tsize d n f s =
     and_then (s, array_len tsize d) (\<lambda>len s.
       if \<not> n \<le> len then (s, Panic)
       else and_then (array_prepare_read Op d 0 (n * tsize) s) (\<lambda>_ s.
              (s, Ok (f (load (ds_cpu s) (arr_ptr d) (n * tsize))))))"

text \<open>\<open>iter().collect()\<close>: every element is read in turn.\<close>

fun array_collect ::
  "'a dma_op \<Rightarrow> nat \<Rightarrow> dcommon \<Rightarrow> nat list \<Rightarrow> 'a dma_state \<Rightarrow> 'a dma_state \<times> (unit, nat list list) result"
where
  "array_collect Op tsize d [] s = (s, Ok [])"
| "array_collect Op tsize d (i # is) s =
     and_then (array_read Op tsize d i s) (\<lambda>v s.
       case v of
         None \<Rightarrow> (s, Ok [])
       | Some x \<Rightarrow> and_then (array_collect Op tsize d is s) (\<lambda>xs s. (s, Ok (x # xs))))"

definition array_iter ::
  "'a dma_op \<Rightarrow> nat \<Rightarrow> dcommon \<Rightarrow> 'a dma_state \<Rightarrow> 'a dma_state \<times> (unit, nat list list) result"
where
  "array_iter Op tsize d s =
     and_then (s, array_len tsize d) (\<lambda>len. array_collect Op tsize d [0 ..< len])"

section \<open>Single values (dbox.rs)\<close>

definition box_new_zero ::
  "'a dma_op \<Rightarrow> nat \<Rightarrow> nat \<Rightarrow> nat \<Rightarrow> dma_direction \<Rightarrow> 'a dma_state \<Rightarrow> 'a dma_state \<times> (dma_error, dcommon) result"
where
  "box_new_zero Op dmask tsize talign direction s =
     (if \<not> layout_from_size_align tsize talign then (s, Err LayoutError)
      else dcommon_new_zero Op dmask tsize talign direction s)"

definition box_new_zero_with_align ::
  "'a dma_op \<Rightarrow> nat \<Rightarrow> nat \<Rightarrow> nat \<Rightarrow> nat \<Rightarrow> dma_direction \<Rightarrow> 'a dma_state \<Rightarrow> 'a dma_state \<times> (dma_error, dcommon) result"
where
  "box_new_zero_with_align Op dmask tsize talign align direction s =
     (if \<not> layout_from_size_align tsize (max align talign) then (s, Err LayoutError)
      else dcommon_new_zero Op dmask tsize (max align talign) direction s)"

definition box_read :: "'a dma_op \<Rightarrow> nat \<Rightarrow> dcommon \<Rightarrow> 'a dma_state \<Rightarrow> 'a dma_state \<times> nat list" where
  "box_read Op tsize d s =
     (let s1 = prepare_read Op (dc_handle d) 0 tsize (dc_direction d) s
      in (s1, load (ds_cpu s1) (arr_ptr d) tsize))"

definition box_write :: "'a dma_op \<Rightarrow> nat \<Rightarrow> dcommon \<Rightarrow> nat list \<Rightarrow> 'a dma_state \<Rightarrow> 'a dma_state" where
  "box_write Op tsize d val s =
     confirm_write Op (dc_handle d) 0 tsize (dc_direction d) (cpu_write (store (arr_ptr d) val) s)"

definition box_modify ::
  "'a dma_op \<Rightarrow> nat \<Rightarrow> dcommon \<Rightarrow> (nat list \<Rightarrow> nat list) \<Rightarrow> 'a dma_state \<Rightarrow> 'a dma_state"
where
  "box_modify Op tsize d f s = (case box_read Op tsize d s of (s, v) \<Rightarrow> box_write Op tsize d (f v) s)"

section \<open>Mapped buffers (map\_single.rs)\<close>

record sarray =
  sa_handle :: dma_map_handle
  sa_direction :: dma_direction

text \<open>A slice is its address and its length in bytes; an empty slice has no mapping.\<close>

definition sarray_map_single ::
  "'a dma_op \<Rightarrow> nat \<Rightarrow> nat \<Rightarrow> nat \<Rightarrow> nat \<Rightarrow> dma_direction \<Rightarrow> 'a dma_state \<Rightarrow> 'a dma_state \<times> (dma_error, sarray) result"
where
  "sarray_map_single Op dmask addr sz align direction s =
     (if addr = 0 then (s, Err NullPointer)
      else if sz = 0 then (s, Err ZeroSizedBuffer)
      else and_then (map_single_checked Op dmask addr sz align direction s) (\<lambda>h s.
             (s, Ok \<lparr>sa_handle = h, sa_direction = direction\<rparr>)))"

abbreviation sa_size :: "sarray \<Rightarrow> nat" where
  "sa_size a \<equiv> h_size (mh_handle (sa_handle a))"

abbreviation sa_ptr :: "sarray \<Rightarrow> nat" where
  "sa_ptr a \<equiv> cpu_addr (mh_handle (sa_handle a))"

definition sarray_len :: "nat \<Rightarrow> sarray \<Rightarrow> ('e, nat) result" where
  "sarray_len tsize a = (if tsize = 0 then Panic else Ok (sa_size a div tsize))"

definition sarray_copy_from_slice ::
  "'a dma_op \<Rightarrow> sarray \<Rightarrow> nat list list \<Rightarrow> 'a dma_state \<Rightarrow> 'a dma_state \<times> (unit, unit) result"
where
  "sarray_copy_from_slice Op a src s =
     (if \<not> length (concat src) \<le> sa_size a then (s, Panic)
      else (confirm_write Op (sa_handle a) 0 (sa_size a) (sa_direction a)
              (cpu_write (store (sa_ptr a) (concat src)) s), Ok ()))"

definition sarray_read ::
  "'a dma_op \<Rightarrow> nat \<Rightarrow> sarray \<Rightarrow> nat \<Rightarrow> 'a dma_state \<Rightarrow> 'a dma_state \<times> (unit, nat list option) result"
where
  "sarray_read Op tsize a index s =
     and_then (s, sarray_len tsize a) (\<lambda>len s.
       if len \<le> index then (s, Ok None)
       else
         let s1 = prepare_read Op (sa_handle a) (index * tsize) tsize (sa_direction a) s
         in (s1, Ok (Some (load (ds_cpu s1) (sa_ptr a + index * tsize) tsize))))"

definition sarray_set ::
  "'a dma_op \<Rightarrow> nat \<Rightarrow> sarray \<Rightarrow> nat \<Rightarrow> nat list \<Rightarrow> 'a dma_state \<Rightarrow> 'a dma_state \<times> (unit, unit) result"
where
  "sarray_set Op tsize a index val s =
     and_then (s, sarray_len tsize a) (\<lambda>len s.
       if \<not> index < len then (s, Panic)
       else (confirm_write Op (sa_handle a) (index * tsize) tsize (sa_direction a)
               (cpu_write (store (sa_ptr a + index * tsize) val) s), Ok ()))"

definition sarray_to_vec ::
  "'a dma_op \<Rightarrow> nat \<Rightarrow> sarray \<Rightarrow> 'a dma_state \<Rightarrow> 'a dma_state \<times> (unit, nat list) result"
where
  "sarray_to_vec Op tsize a s =
     and_then (s, sarray_len tsize a) (\<lambda>len s.
       let s1 = prepare_read Op (sa_handle a) 0 (sa_size a) (sa_direction a) s
       in (s1, Ok (load (ds_cpu s1) (sa_ptr a) (len * tsize))))"

definition sarray_drop :: "'a dma_op \<Rightarrow> sarray \<Rightarrow> 'a dma_state \<Rightarrow> 'a dma_state" where
  "sarray_drop Op a s = op_unmap_single Op (sa_handle a) s"

section \<open>Pools of byte arrays (pool.rs)\<close>

record darray_config =
  cfg_size :: nat
  cfg_align :: nat
  cfg_direction :: dma_direction

record darray_pool =
  pool_mask :: nat
  pool_config :: darray_config
  pool_free :: "dcommon list"

definition array_for_config ::
  "'a dma_op \<Rightarrow> nat \<Rightarrow> darray_config \<Rightarrow> 'a dma_state \<Rightarrow> 'a dma_state \<times> (dma_error, dcommon) result"
where
  "array_for_config Op dmask c = array_new_zero_with_align Op dmask 1 1 (cfg_size c) (cfg_align c) (cfg_direction c)"

text \<open>The loop of \<open>new_pool\<close> skips the buffers that cannot be allocated.\<close>

fun fill_pool ::
  "'a dma_op \<Rightarrow> nat \<Rightarrow> darray_config \<Rightarrow> nat \<Rightarrow> dcommon list \<Rightarrow> 'a dma_state \<Rightarrow>
   'a dma_state \<times> (unit, dcommon list) result"
where
  "fill_pool Op dmask c 0 pool s = (s, Ok pool)"
| "fill_pool Op dmask c (Suc n) pool s =
     (case array_for_config Op dmask c s of
        (s, Ok d) \<Rightarrow> fill_pool Op dmask c n (pool @ [d]) s
      | (s, Err _) \<Rightarrow> fill_pool Op dmask c n pool s
      | (s, Panic) \<Rightarrow> (s, Panic))"

definition new_pool ::
  "'a dma_op \<Rightarrow> nat \<Rightarrow> darray_config \<Rightarrow> nat \<Rightarrow> 'a dma_state \<Rightarrow> 'a dma_state \<times> (unit, darray_pool) result"
where
  "new_pool Op dmask c cap s =
     and_then (fill_pool Op dmask c cap [] s) (\<lambda>pool s.
       (s, Ok \<lparr>pool_mask = dmask, pool_config = c, pool_free = pool\<rparr>))"

definition pool_alloc ::
  "'a dma_op \<Rightarrow> darray_pool \<times> 'a dma_state \<Rightarrow> (darray_pool \<times> 'a dma_state) \<times> (dma_error, dcommon) result"
where
  "pool_alloc Op ps =
     (case ps of (p, s) \<Rightarrow>
      case pool_free p of
        d # rest \<Rightarrow> ((p\<lparr>pool_free := rest\<rparr>, s), Ok d)
      | [] \<Rightarrow> (case array_for_config Op (pool_mask p) (pool_config p) s of (s, r) \<Rightarrow> ((p, s), r)))"

text \<open>Dropping a \<open>DBuff\<close> while its pool is alive gives the array back.\<close>

definition dbuff_drop :: "dcommon \<Rightarrow> darray_pool \<Rightarrow> darray_pool" where
  "dbuff_drop d p = p\<lparr>pool_free := pool_free p @ [d]\<rparr>"

section \<open>Laws of the cache instructions\<close>

text \<open>
  The cache instructions are outside the repository.  What is used of them: cleaning a range shows the device
  what the CPU wrote there and does not change what the CPU sees; invalidating a range shows the CPU what the device
  wrote there and does not change what the device sees.
\<close>

definition flush_law :: "'a dma_op \<Rightarrow> bool" where
  "flush_law Op \<longleftrightarrow>
     (\<forall>a n s. ds_cpu (op_flush Op a n s) = ds_cpu s \<and> load (ds_dev (op_flush Op a n s)) a n = load (ds_cpu s) a n)"

definition invalidate_law :: "'a dma_op \<Rightarrow> bool" where
  "invalidate_law Op \<longleftrightarrow>
     (\<forall>a n s. ds_dev (op_invalidate Op a n s) = ds_dev s \<and> load (ds_cpu (op_invalidate Op a n s)) a n = load (ds_dev s) a n)"

definition flush_local :: "'a dma_op \<Rightarrow> bool" where
  "flush_local Op \<longleftrightarrow>
     (\<forall>a n s. ds_cpu (op_flush Op a n s) = ds_cpu s \<and>
              (\<forall>x. x < a \<or> a + n \<le> x \<longrightarrow> ds_dev (op_flush Op a n s) x = ds_dev s x))"

end
