(* ===== verification/Rdif_Block.thy ===== *)
theory Rdif_Block
  imports Dma_Api
begin

unbundle bit_operations_syntax

text \<open>
  The interface of block devices, \<open>driver/interface/rdif-block/src/lib.rs\<close>: errors, requests, the set of
  queue identifiers that an interrupt reports, and the traits \<open>Interface\<close> and \<open>IQueue\<close> as records of
  functions on the state that a driver shares with its queues.
\<close>

record buff_config =
  bc_dma_mask :: nat
  bc_align :: nat
  bc_size :: nat

text \<open>The boxed error of \<open>Other\<close>: one of the DMA crate, or that of a driver with its message.\<close>

datatype boxed_error = BoxedDma dma_error | BoxedDriver string

datatype blk_error =
    BlkNotSupported
  | BlkRetry
  | BlkNoMemory
  | BlkInvalidBlockIndex nat
  | BlkOther boxed_error

fun blk_error_of_dma :: "dma_error \<Rightarrow> blk_error" where
  "blk_error_of_dma DmaNoMemory = BlkNoMemory"
| "blk_error_of_dma e = BlkOther (BoxedDma e)"

section \<open>IdList\<close>

text \<open>Shifting a \<open>u64\<close> by 64 or more panics.\<close>

type_synonym id_list = "64 word"

definition id_none :: id_list where
  "id_none = 0"

definition id_mask :: "nat \<Rightarrow> (unit, id_list) result" where
  "id_mask i = (if i < 64 then Ok (push_bit i 1) else Panic)"

definition id_contains :: "id_list \<Rightarrow> nat \<Rightarrow> (unit, bool) result" where
  "id_contains l i = rbind (id_mask i) (\<lambda>m. Ok (l AND m \<noteq> 0))"

definition id_insert :: "id_list \<Rightarrow> nat \<Rightarrow> (unit, id_list) result" where
  "id_insert l i = rbind (id_mask i) (\<lambda>m. Ok (l OR m))"

definition id_remove :: "id_list \<Rightarrow> nat \<Rightarrow> (unit, id_list) result" where
  "id_remove l i = rbind (id_mask i) (\<lambda>m. Ok (l AND NOT m))"

definition id_iter :: "id_list \<Rightarrow> nat list" where
  "id_iter l = filter (\<lambda>i. id_contains l i = Ok True) [0 ..< 64]"

lemma id_contains_bit: "i < 64 \<Longrightarrow> id_contains l i = Ok (bit l i)"
  by (auto simp: id_contains_def id_mask_def bit_iff_and_push_bit_not_eq_0)

lemma id_contains_insert:
  "id_insert l i = Ok l' \<Longrightarrow> j < 64 \<Longrightarrow> id_contains l' j = Ok (j = i \<or> bit l j)"
  by (auto simp: id_insert_def id_mask_def id_contains_bit bit_or_iff bit_exp_iff split: if_splits)

lemma id_contains_remove:
  "id_remove l i = Ok l' \<Longrightarrow> j < 64 \<Longrightarrow> id_contains l' j = Ok (j \<noteq> i \<and> bit l j)"
  by (auto simp: id_remove_def id_mask_def id_contains_bit bit_and_iff bit_not_iff bit_exp_iff split: if_splits)

lemma id_insert_bit: "id_insert l i = Ok l' \<Longrightarrow> i < 64 \<and> bit l' i"
  by (auto simp: id_insert_def id_mask_def bit_or_iff bit_exp_iff split: if_splits)

lemma set_id_iter: "set (id_iter l) = {i. i < 64 \<and> bit l i}"
  by (auto simp: id_iter_def id_contains_bit)

section \<open>Requests and the traits\<close>

record blk_buffer =
  b_virt :: nat
  b_bus :: nat
  b_size :: nat

datatype request_kind = ReadReq blk_buffer | WriteReq "nat list"

record blk_request =
  rq_block_id :: nat
  rq_kind :: request_kind

record ('q, 'a) iqueue =
  iq_id :: nat
  iq_num_blocks :: nat
  iq_block_size :: nat
  iq_buff_config :: buff_config
  iq_submit :: "blk_request \<Rightarrow> 'q \<times> 'a dma_state \<Rightarrow> ('q \<times> 'a dma_state) \<times> (blk_error, nat) result"
  iq_poll :: "nat \<Rightarrow> 'q \<Rightarrow> 'q \<times> (blk_error, unit) result"

record ('q, 'a) blk_interface =
  if_create_queue :: "'q \<Rightarrow> 'q \<times> (unit, ('q, 'a) iqueue option) result"
  if_enable_irq :: "'q \<Rightarrow> 'q"
  if_disable_irq :: "'q \<Rightarrow> 'q"
  if_is_irq_enabled :: "'q \<Rightarrow> bool"
  if_handle_irq :: "'q \<Rightarrow> 'q \<times> id_list"

end
