(* ===== verification/Ramdisk.thy ===== *)
theory Ramdisk
  imports Rdif_Block
begin

text \<open>
  The RAM disk, \<open>driver/block/ramdisk/src/lib.rs\<close>.  The state behind the mutex is \<open>ram_inner\<close>; a queue
  is its identifier with the geometry of the disk.  Each method takes the lock for its whole body, so it is
  one step on that state.
\<close>

record ram_inner =
  storage :: "nat list"
  completed_reads :: "nat list"
  completed_writes :: "nat list"
  irq_rx :: id_list
  irq_enabled :: bool
  next_req_id :: nat
  next_queue_id :: nat

record ram_disk =
  rd_block_size :: nat
  rd_num_blocks :: nat

definition ramdisk_storage :: "nat \<Rightarrow> nat \<Rightarrow> nat list" where
  "ramdisk_storage bs n = concat (map (\<lambda>i. replicate bs (i mod 256)) [0 ..< n])"

definition ramdisk_new :: "nat \<Rightarrow> nat \<Rightarrow> (unit, ram_disk \<times> ram_inner) result" where
  "ramdisk_new bs n =
     (if \<not> 0 < bs then Panic
      else if U64_MAX < bs * n then Panic
      else Ok (\<lparr>rd_block_size = bs, rd_num_blocks = n\<rparr>,
               \<lparr>storage = ramdisk_storage bs n, completed_reads = [], completed_writes = [], irq_rx = id_none,
                irq_enabled = True, next_req_id = 1, next_queue_id = 0\<rparr>))"

definition ram_enable_irq :: "ram_inner \<Rightarrow> ram_inner" where
  "ram_enable_irq s = s\<lparr>irq_enabled := True\<rparr>"

definition ram_disable_irq :: "ram_inner \<Rightarrow> ram_inner" where
  "ram_disable_irq s = s\<lparr>irq_enabled := False\<rparr>"

definition ram_handle_irq :: "ram_inner \<Rightarrow> ram_inner \<times> id_list" where
  "ram_handle_irq s = (if \<not> irq_enabled s then (s, id_none) else (s\<lparr>irq_rx := id_none\<rparr>, irq_rx s))"

definition ram_buff_config :: "nat \<Rightarrow> buff_config" where
  "ram_buff_config bs = \<lparr>bc_dma_mask = U64_MAX, bc_align = 1, bc_size = bs\<rparr>"

text \<open>
  \<open>submit_request\<close>.  A request identifier is used up before the size of the buffer is checked; the copies
  are raw pointer copies, so their bounds are part of the invariant and not of the code.
\<close>

definition ram_submit ::
  "nat \<Rightarrow> nat \<Rightarrow> nat \<Rightarrow> blk_request \<Rightarrow> ram_inner \<times> 'a dma_state \<Rightarrow> (ram_inner \<times> 'a dma_state) \<times> (blk_error, nat) result"
where
  "ram_submit qid bs n rq sm =
     (case sm of (s, d) \<Rightarrow>
      if n \<le> rq_block_id rq then ((s, d), Err (BlkInvalidBlockIndex (rq_block_id rq)))
      else if U64_MAX < next_req_id s + 1 then ((s, d), Panic)
      else
        let req_id = next_req_id s; s1 = s\<lparr>next_req_id := next_req_id s + 1\<rparr>
        in if U64_MAX < rq_block_id rq * bs then ((s1, d), Panic)
           else
             let offset = rq_block_id rq * bs
             in and_then
                  (case rq_kind rq of
                     ReadReq buff \<Rightarrow>
                       if b_size buff < bs then ((s1, d), Err BlkNotSupported)
                       else ((s1\<lparr>completed_reads := completed_reads s1 @ [req_id]\<rparr>,
                              cpu_write (store (b_virt buff) (take bs (drop offset (storage s1)))) d), Ok ())
                   | WriteReq src \<Rightarrow>
                       if length src \<noteq> bs then ((s1, d), Err BlkNotSupported)
                       else ((s1\<lparr>storage := take offset (storage s1) @ src @ drop (offset + bs) (storage s1),
                                 completed_writes := completed_writes s1 @ [req_id]\<rparr>, d), Ok ()))
                  (\<lambda>_ (s2, d2).
                     case id_insert (irq_rx s2) qid of
                       Ok rx \<Rightarrow> ((s2\<lparr>irq_rx := rx\<rparr>, d2), Ok req_id)
                     | _ \<Rightarrow> ((s2, d2), Panic)))"

definition ram_poll :: "nat \<Rightarrow> ram_inner \<Rightarrow> ram_inner \<times> (blk_error, unit) result" where
  "ram_poll req s =
     (if req \<in> set (completed_reads s) then (s\<lparr>completed_reads := remove1 req (completed_reads s)\<rparr>, Ok ())
      else if req \<in> set (completed_writes s) then (s\<lparr>completed_writes := remove1 req (completed_writes s)\<rparr>, Ok ())
      else (s, Err BlkRetry))"

definition ram_iqueue :: "nat \<Rightarrow> ram_disk \<Rightarrow> (ram_inner, 'a) iqueue" where
  "ram_iqueue qid disk =
     \<lparr>iq_id = qid, iq_num_blocks = rd_num_blocks disk, iq_block_size = rd_block_size disk,
      iq_buff_config = ram_buff_config (rd_block_size disk),
      iq_submit = ram_submit qid (rd_block_size disk) (rd_num_blocks disk), iq_poll = ram_poll\<rparr>"

definition ram_create_queue :: "ram_disk \<Rightarrow> ram_inner \<Rightarrow> ram_inner \<times> (unit, (ram_inner, 'a) iqueue option) result" where
  "ram_create_queue disk s =
     (if U64_MAX < next_queue_id s + 1 then (s, Panic)
      else (s\<lparr>next_queue_id := next_queue_id s + 1\<rparr>, Ok (Some (ram_iqueue (next_queue_id s) disk))))"

definition ram_interface :: "ram_disk \<Rightarrow> (ram_inner, 'a) blk_interface" where
  "ram_interface disk =
     \<lparr>if_create_queue = ram_create_queue disk, if_enable_irq = ram_enable_irq, if_disable_irq = ram_disable_irq,
      if_is_irq_enabled = irq_enabled, if_handle_irq = ram_handle_irq\<rparr>"

end
