(* ===== verification/Rd_Block.thy ===== *)
theory Rd_Block
  imports Ramdisk Btree_Map
begin

text \<open>
  The block layer, \<open>driver/block/rd-block/src/lib.rs\<close>: a device with interrupt-driven queues, and the futures
  that read and write ranges of blocks through a queue.

  The state \<open>blk_world\<close> holds the state of the device, the memory, and the wakers of the queues.  The type
  \<open>AtomicWaker\<close> and the executor \<open>spin_on\<close> come from other crates: their operations are parameters.
\<close>

record 'w waker_op =
  aw_new :: 'w
  aw_register :: "'w \<Rightarrow> 'w"
  aw_wake :: "'w \<Rightarrow> 'w"

record ('q, 'a, 'w) blk_world =
  bw_dev :: 'q
  bw_dma :: "'a dma_state"
  bw_waker_map :: "(nat, nat) btree_map"
  bw_wakers :: "nat \<Rightarrow> 'w"
  bw_fresh :: nat

record ('q, 'a) cmd_queue =
  cq_iface :: "('q, 'a) iqueue"
  cq_waker :: nat
  cq_pool :: darray_pool

section \<open>Device and interrupts\<close>

text \<open>\<open>QueueWakerMap::register\<close>: a new waker replaces the one of the same queue.\<close>

definition register_waker :: "'w waker_op \<Rightarrow> nat \<Rightarrow> ('q, 'a, 'w) blk_world \<Rightarrow> ('q, 'a, 'w) blk_world \<times> nat" where
  "register_waker W queue_id w =
     (w\<lparr>bw_waker_map := bt_insert queue_id (bw_fresh w) (bw_waker_map w),
        bw_wakers := (bw_wakers w)(bw_fresh w := aw_new W), bw_fresh := bw_fresh w + 1\<rparr>, bw_fresh w)"

definition wake_queue :: "'w waker_op \<Rightarrow> nat \<Rightarrow> ('q, 'a, 'w) blk_world \<Rightarrow> ('q, 'a, 'w) blk_world" where
  "wake_queue W queue_id w =
     (case bt_get (bw_waker_map w) queue_id of
        None \<Rightarrow> w
      | Some k \<Rightarrow> w\<lparr>bw_wakers := (bw_wakers w)(k := aw_wake W (bw_wakers w k))\<rparr>)"

definition irq_guard :: "('q, 'a) blk_interface \<Rightarrow> ('q, 'a, 'w) blk_world \<Rightarrow> ('q, 'a, 'w) blk_world \<times> bool" where
  "irq_guard I w =
     (if if_is_irq_enabled I (bw_dev w) then (w\<lparr>bw_dev := if_disable_irq I (bw_dev w)\<rparr>, True) else (w, False))"

definition irq_guard_drop :: "('q, 'a) blk_interface \<Rightarrow> bool \<Rightarrow> ('q, 'a, 'w) blk_world \<Rightarrow> ('q, 'a, 'w) blk_world" where
  "irq_guard_drop I en w = (if en then w\<lparr>bw_dev := if_enable_irq I (bw_dev w)\<rparr> else w)"

definition create_queue_with_capacity ::
  "'a dma_op \<Rightarrow> 'w waker_op \<Rightarrow> ('q, 'a) blk_interface \<Rightarrow> nat \<Rightarrow> ('q, 'a, 'w) blk_world \<Rightarrow>
   ('q, 'a, 'w) blk_world \<times> (unit, ('q, 'a) cmd_queue option) result"
where
  "create_queue_with_capacity Op W I capacity w0 =
     (case irq_guard I w0 of (w, en) \<Rightarrow>
      case if_create_queue I (bw_dev w) of
        (dev, Ok None) \<Rightarrow> (irq_guard_drop I en (w\<lparr>bw_dev := dev\<rparr>), Ok None)
      | (dev, Ok (Some queue)) \<Rightarrow>
          let w = w\<lparr>bw_dev := dev\<rparr>; config = iq_buff_config queue
          in if \<not> layout_from_size_align (bc_size config) (bc_align config) then (irq_guard_drop I en w, Ok None)
             else
               (case new_pool Op (bc_dma_mask config)
                       \<lparr>cfg_size = bc_size config, cfg_align = bc_align config, cfg_direction = FromDevice\<rparr>
                       capacity (bw_dma w) of
                  (dma, Ok pool) \<Rightarrow>
                    (case register_waker W (iq_id queue) (w\<lparr>bw_dma := dma\<rparr>) of (w, k) \<Rightarrow>
                       (irq_guard_drop I en w, Ok (Some \<lparr>cq_iface = queue, cq_waker = k, cq_pool = pool\<rparr>)))
                | (dma, Err e) \<Rightarrow> (w\<lparr>bw_dma := dma\<rparr>, Err e)
                | (dma, Panic) \<Rightarrow> (w\<lparr>bw_dma := dma\<rparr>, Panic))
      | (dev, Err e) \<Rightarrow> (w\<lparr>bw_dev := dev\<rparr>, Err e)
      | (dev, Panic) \<Rightarrow> (w\<lparr>bw_dev := dev\<rparr>, Panic))"

definition create_queue ::
  "'a dma_op \<Rightarrow> 'w waker_op \<Rightarrow> ('q, 'a) blk_interface \<Rightarrow> ('q, 'a, 'w) blk_world \<Rightarrow>
   ('q, 'a, 'w) blk_world \<times> (unit, ('q, 'a) cmd_queue option) result"
where
  "create_queue Op W I = create_queue_with_capacity Op W I 32"

text \<open>\<open>IrqHandler::handle\<close> wakes every queue that the device reports.\<close>

definition blk_irq_handle :: "'w waker_op \<Rightarrow> ('q, 'a) blk_interface \<Rightarrow> ('q, 'a, 'w) blk_world \<Rightarrow> ('q, 'a, 'w) blk_world" where
  "blk_irq_handle W I w =
     (case if_handle_irq I (bw_dev w) of (dev, event) \<Rightarrow> fold (wake_queue W) (id_iter event) (w\<lparr>bw_dev := dev\<rparr>))"

section \<open>Submitting and polling one request\<close>

type_synonym ('q, 'a, 'w) cq_state = "('q, 'a) cmd_queue \<times> ('q, 'a, 'w) blk_world"

definition cq_submit :: "blk_request \<Rightarrow> ('q, 'a, 'w) cq_state \<Rightarrow> ('q, 'a, 'w) cq_state \<times> (blk_error, nat) result" where
  "cq_submit rq st =
     (case st of (q, w) \<Rightarrow>
      case iq_submit (cq_iface q) rq (bw_dev w, bw_dma w) of
        ((dev, dma), r) \<Rightarrow> ((q, w\<lparr>bw_dev := dev, bw_dma := dma\<rparr>), r))"

definition cq_poll :: "nat \<Rightarrow> ('q, 'a, 'w) cq_state \<Rightarrow> ('q, 'a, 'w) cq_state \<times> (blk_error, unit) result" where
  "cq_poll req st =
     (case st of (q, w) \<Rightarrow>
      case iq_poll (cq_iface q) req (bw_dev w) of (dev, r) \<Rightarrow> ((q, w\<lparr>bw_dev := dev\<rparr>), r))"

definition cq_register :: "'w waker_op \<Rightarrow> ('q, 'a, 'w) cq_state \<Rightarrow> ('q, 'a, 'w) cq_state" where
  "cq_register W st =
     (case st of (q, w) \<Rightarrow> (q, w\<lparr>bw_wakers := (bw_wakers w)(cq_waker q := aw_register W (bw_wakers w (cq_waker q)))\<rparr>))"

definition cq_alloc :: "'a dma_op \<Rightarrow> ('q, 'a, 'w) cq_state \<Rightarrow> ('q, 'a, 'w) cq_state \<times> (dma_error, dcommon) result" where
  "cq_alloc Op st =
     (case st of (q, w) \<Rightarrow>
      case pool_alloc Op (cq_pool q, bw_dma w) of
        ((pool, dma), r) \<Rightarrow> ((q\<lparr>cq_pool := pool\<rparr>, w\<lparr>bw_dma := dma\<rparr>), r))"

definition cq_free :: "dcommon \<Rightarrow> ('q, 'a, 'w) cq_state \<Rightarrow> ('q, 'a, 'w) cq_state" where
  "cq_free d st = (case st of (q, w) \<Rightarrow> (q\<lparr>cq_pool := dbuff_drop d (cq_pool q)\<rparr>, w))"

section \<open>ReadFuture\<close>

record block_data =
  bd_block_id :: nat
  bd_data :: dcommon

record read_future =
  rf_blk_ls :: "nat list"
  rf_requested :: "(nat, dcommon option) btree_map"
  rf_map :: "(nat, nat) btree_map"
  rf_results :: "(nat, (blk_error, block_data) result) btree_map"

datatype 'r poll = Pending | Ready 'r

definition read_future_new :: "nat list \<Rightarrow> read_future" where
  "read_future_new ls = \<lparr>rf_blk_ls = ls, rf_requested = [], rf_map = [], rf_results = []\<rparr>"

text \<open>The first loop; \<open>Ok False\<close> is the early return \<open>Poll::Pending\<close>.\<close>

fun read_submit ::
  "'a dma_op \<Rightarrow> 'w waker_op \<Rightarrow> nat list \<Rightarrow> read_future \<times> ('q, 'a, 'w) cq_state \<Rightarrow>
   (read_future \<times> ('q, 'a, 'w) cq_state) \<times> (unit, bool) result"
where
  "read_submit Op W [] (f, st) = ((f, st), Ok True)"
| "read_submit Op W (blk # blks) (f, st) =
     (if bt_contains_key (rf_results f) blk \<or> bt_contains_key (rf_requested f) blk
      then read_submit Op W blks (f, st)
      else
        case cq_alloc Op st of
          (st1, Ok buff) \<Rightarrow>
            (case cq_submit \<lparr>rq_block_id = blk,
                    rq_kind = ReadReq \<lparr>b_virt = arr_ptr buff, b_bus = dma_addr (mh_handle (dc_handle buff)),
                                      b_size = arr_size buff\<rparr>\<rparr> st1 of
               (st2, Ok req) \<Rightarrow>
                 read_submit Op W blks
                   (f\<lparr>rf_map := bt_insert blk req (rf_map f),
                      rf_requested := bt_insert blk (Some buff) (rf_requested f)\<rparr>, st2)
             | (st2, Err BlkRetry) \<Rightarrow> ((f, cq_free buff (cq_register W st2)), Ok False)
             | (st2, Err e) \<Rightarrow>
                 read_submit Op W blks (f\<lparr>rf_results := bt_insert blk (Err e) (rf_results f)\<rparr>, cq_free buff st2)
             | (st2, Panic) \<Rightarrow> ((f, st2), Panic))
        | (st1, Err e) \<Rightarrow>
            read_submit Op W blks (f\<lparr>rf_results := bt_insert blk (Err (blk_error_of_dma e)) (rf_results f)\<rparr>, st1)
        | (st1, Panic) \<Rightarrow> ((f, st1), Panic))"

text \<open>
  The second loop walks the requested blocks in the order of their numbers and takes the buffer of every
  request that has completed.
\<close>

fun read_complete ::
  "'w waker_op \<Rightarrow> nat list \<Rightarrow> read_future \<times> ('q, 'a, 'w) cq_state \<Rightarrow>
   (read_future \<times> ('q, 'a, 'w) cq_state) \<times> (unit, bool) result"
where
  "read_complete W [] (f, st) = ((f, st), Ok True)"
| "read_complete W (blk # blks) (f, st) =
     (if bt_contains_key (rf_results f) blk then read_complete W blks (f, st)
      else
        case bt_get (rf_map f) blk of
          None \<Rightarrow> ((f, st), Panic)
        | Some req \<Rightarrow>
            (case cq_poll req st of
               (st1, Ok _) \<Rightarrow>
                 (case bt_get (rf_requested f) blk of
                    Some (Some buff) \<Rightarrow>
                      read_complete W blks
                        (f\<lparr>rf_requested := bt_insert blk None (rf_requested f),
                           rf_results := bt_insert blk (Ok \<lparr>bd_block_id = blk, bd_data = buff\<rparr>) (rf_results f)\<rparr>, st1)
                  | _ \<Rightarrow> ((f, st1), Panic))
             | (st1, Err BlkRetry) \<Rightarrow> ((f, cq_register W st1), Ok False)
             | (st1, Err e) \<Rightarrow>
                 read_complete W blks (f\<lparr>rf_results := bt_insert blk (Err e) (rf_results f)\<rparr>, st1)
             | (st1, Panic) \<Rightarrow> ((f, st1), Panic)))"

fun read_gather ::
  "nat list \<Rightarrow> (nat, 'v) btree_map \<Rightarrow> (nat, 'v) btree_map \<times> (unit, 'v list) result"
where
  "read_gather [] rs = (rs, Ok [])"
| "read_gather (blk # blks) rs =
     (case bt_get rs blk of
        None \<Rightarrow> (rs, Panic)
      | Some r \<Rightarrow> and_then (read_gather blks (bt_remove blk rs)) (\<lambda>out rs. (rs, Ok (r # out))))"

definition read_poll ::
  "'a dma_op \<Rightarrow> 'w waker_op \<Rightarrow> read_future \<times> ('q, 'a, 'w) cq_state \<Rightarrow>
   (read_future \<times> ('q, 'a, 'w) cq_state) \<times> (unit, (blk_error, block_data) result list poll) result"
where
  "read_poll Op W fs =
     and_then (read_submit Op W (rf_blk_ls (fst fs)) fs) (\<lambda>go fs.
       if \<not> go then (fs, Ok Pending)
       else and_then (read_complete W (map fst (rf_requested (fst fs))) fs) (\<lambda>go (f, st).
         if \<not> go then ((f, st), Ok Pending)
         else case read_gather (rf_blk_ls f) (rf_results f) of
                (rs, r) \<Rightarrow> ((f\<lparr>rf_results := rs\<rparr>, st), rbind r (\<lambda>out. Ok (Ready out)))))"

section \<open>WriteFuture\<close>

record write_future =
  wf_req_ls :: "(nat \<times> nat list) list"
  wf_requested :: "(nat, unit) btree_map"
  wf_map :: "(nat, nat) btree_map"
  wf_results :: "(nat, (blk_error, unit) result) btree_map"

definition write_future_new :: "(nat \<times> nat list) list \<Rightarrow> write_future" where
  "write_future_new ls = \<lparr>wf_req_ls = ls, wf_requested = [], wf_map = [], wf_results = []\<rparr>"

fun write_submit ::
  "'w waker_op \<Rightarrow> (nat \<times> nat list) list \<Rightarrow> write_future \<times> ('q, 'a, 'w) cq_state \<Rightarrow>
   (write_future \<times> ('q, 'a, 'w) cq_state) \<times> (unit, bool) result"
where
  "write_submit W [] (f, st) = ((f, st), Ok True)"
| "write_submit W ((blk, buff) # reqs) (f, st) =
     (if bt_contains_key (wf_results f) blk \<or> bt_contains_key (wf_requested f) blk
      then write_submit W reqs (f, st)
      else
        case cq_submit \<lparr>rq_block_id = blk, rq_kind = WriteReq buff\<rparr> st of
          (st1, Ok req) \<Rightarrow>
            write_submit W reqs
              (f\<lparr>wf_map := bt_insert blk req (wf_map f), wf_requested := bt_insert blk () (wf_requested f)\<rparr>, st1)
        | (st1, Err BlkRetry) \<Rightarrow> ((f, cq_register W st1), Ok False)
        | (st1, Err e) \<Rightarrow> write_submit W reqs (f\<lparr>wf_results := bt_insert blk (Err e) (wf_results f)\<rparr>, st1)
        | (st1, Panic) \<Rightarrow> ((f, st1), Panic))"

fun write_complete ::
  "'w waker_op \<Rightarrow> nat list \<Rightarrow> write_future \<times> ('q, 'a, 'w) cq_state \<Rightarrow>
   (write_future \<times> ('q, 'a, 'w) cq_state) \<times> (unit, bool) result"
where
  "write_complete W [] (f, st) = ((f, st), Ok True)"
| "write_complete W (blk # blks) (f, st) =
     (if bt_contains_key (wf_results f) blk then write_complete W blks (f, st)
      else
        case bt_get (wf_map f) blk of
          None \<Rightarrow> ((f, st), Panic)
        | Some req \<Rightarrow>
            (case cq_poll req st of
               (st1, Ok _) \<Rightarrow> write_complete W blks (f\<lparr>wf_results := bt_insert blk (Ok ()) (wf_results f)\<rparr>, st1)
             | (st1, Err BlkRetry) \<Rightarrow> ((f, cq_register W st1), Ok False)
             | (st1, Err e) \<Rightarrow> write_complete W blks (f\<lparr>wf_results := bt_insert blk (Err e) (wf_results f)\<rparr>, st1)
             | (st1, Panic) \<Rightarrow> ((f, st1), Panic)))"

definition write_poll ::
  "'w waker_op \<Rightarrow> write_future \<times> ('q, 'a, 'w) cq_state \<Rightarrow>
   (write_future \<times> ('q, 'a, 'w) cq_state) \<times> (unit, (blk_error, unit) result list poll) result"
where
  "write_poll W fs =
     and_then (write_submit W (wf_req_ls (fst fs)) fs) (\<lambda>go fs.
       if \<not> go then (fs, Ok Pending)
       else and_then (write_complete W (map fst (wf_requested (fst fs))) fs) (\<lambda>go (f, st).
         if \<not> go then ((f, st), Ok Pending)
         else case read_gather (map fst (wf_req_ls f)) (wf_results f) of
                (rs, r) \<Rightarrow> ((f\<lparr>wf_results := rs\<rparr>, st), rbind r (\<lambda>out. Ok (Ready out)))))"

section \<open>The calls of a client\<close>

text \<open>
  \<open>spin\<close> stands for \<open>spin_on::spin_on\<close>, which polls a future until it is ready.  When a future is dropped
  the buffers it still holds go back to the pool.
\<close>

definition read_future_drop :: "read_future \<times> ('q, 'a, 'w) cq_state \<Rightarrow> ('q, 'a, 'w) cq_state" where
  "read_future_drop fs =
     (case fs of (f, st) \<Rightarrow>
        fold (\<lambda>(blk, ob) st. case ob of None \<Rightarrow> st | Some buff \<Rightarrow> cq_free buff st) (rf_requested f) st)"

definition read_blocks_blocking ::
  "(((read_future \<times> ('q, 'a, 'w) cq_state) \<Rightarrow>
      (read_future \<times> ('q, 'a, 'w) cq_state) \<times> (unit, (blk_error, block_data) result list poll) result) \<Rightarrow>
    read_future \<times> ('q, 'a, 'w) cq_state \<Rightarrow>
    (read_future \<times> ('q, 'a, 'w) cq_state) \<times> (unit, (blk_error, block_data) result list) result) \<Rightarrow>
   'a dma_op \<Rightarrow> 'w waker_op \<Rightarrow> nat \<Rightarrow> nat \<Rightarrow> ('q, 'a, 'w) cq_state \<Rightarrow>
   ('q, 'a, 'w) cq_state \<times> (unit, (blk_error, block_data) result list) result"
where
  "read_blocks_blocking spin Op W blk_id blk_count st =
     (if U64_MAX < blk_id + blk_count then (st, Panic)
      else case spin (read_poll Op W) (read_future_new [blk_id ..< blk_id + blk_count], st) of
             (fs, r) \<Rightarrow> (read_future_drop fs, r))"

definition split_blocks :: "nat \<Rightarrow> nat \<Rightarrow> nat list \<Rightarrow> (nat \<times> nat list) list" where
  "split_blocks bs start xs =
     map (\<lambda>i. (start + i, take bs (drop (i * bs) xs))) [0 ..< length xs div bs]"

definition write_blocks_blocking ::
  "(((write_future \<times> ('q, 'a, 'w) cq_state) \<Rightarrow>
      (write_future \<times> ('q, 'a, 'w) cq_state) \<times> (unit, (blk_error, unit) result list poll) result) \<Rightarrow>
    write_future \<times> ('q, 'a, 'w) cq_state \<Rightarrow>
    (write_future \<times> ('q, 'a, 'w) cq_state) \<times> (unit, (blk_error, unit) result list) result) \<Rightarrow>
   'w waker_op \<Rightarrow> nat \<Rightarrow> nat list \<Rightarrow> ('q, 'a, 'w) cq_state \<Rightarrow>
   ('q, 'a, 'w) cq_state \<times> (unit, (blk_error, unit) result list) result"
where
  "write_blocks_blocking spin W start xs st =
     (let bs = iq_block_size (cq_iface (fst st))
      in if bs = 0 \<or> length xs mod bs \<noteq> 0 then (st, Panic)
         else if U64_MAX < start + (length xs div bs - 1) then (st, Panic)
         else case spin (write_poll W) (write_future_new (split_blocks bs start xs), st) of ((f, st), r) \<Rightarrow> (st, r))"

text \<open>\<open>BlockData\<close> is read as the slice of its buffer.\<close>

definition block_data_deref :: "('q, 'a, 'w) blk_world \<Rightarrow> block_data \<Rightarrow> nat list" where
  "block_data_deref w b = load (ds_cpu (bw_dma w)) (arr_ptr (bd_data b)) (arr_size (bd_data b))"

end
