(* ===== verification/Block_Device.thy ===== *)
theory Block_Device
  imports Rd_Block
begin

text \<open>
  What the block layer needs of a driver, as the locale \<open>block_device\<close>, and what it then gives its clients.
  The RAM disk is an instance.

  The contract: the device has an invariant, contents per block, a set of requests that have completed
  and were not polled yet, and a number of requests it can still take.
\<close>

definition read_request :: "nat \<Rightarrow> blk_buffer \<Rightarrow> blk_request" where
  "read_request blk b = \<lparr>rq_block_id = blk, rq_kind = ReadReq b\<rparr>"

definition write_request :: "nat \<Rightarrow> nat list \<Rightarrow> blk_request" where
  "write_request blk xs = \<lparr>rq_block_id = blk, rq_kind = WriteReq xs\<rparr>"

lemmas request_fold = read_request_def [symmetric] write_request_def [symmetric]

text \<open>The contents after a sequence of writes.\<close>

fun write_all :: "(nat \<times> nat list) list \<Rightarrow> (nat \<Rightarrow> nat list) \<Rightarrow> nat \<Rightarrow> nat list" where
  "write_all [] m = m"
| "write_all ((b, xs) # rs) m = write_all rs (m(b := xs))"

lemma write_all_get:
  "distinct (map fst rs) \<Longrightarrow> write_all rs m b = (case map_of rs b of None \<Rightarrow> m b | Some xs \<Rightarrow> xs)"
proof (induction rs arbitrary: m)
  case (Cons r rs)
  obtain k xs where r: "r = (k, xs)" by fastforce
  have "map_of rs k = None" using Cons.prems r by (simp add: map_of_eq_None_iff)
  moreover have "write_all rs (m(k := xs)) b = (case map_of rs b of None \<Rightarrow> (m(k := xs)) b | Some ys \<Rightarrow> ys)"
    using Cons.prems by (intro Cons.IH) simp
  ultimately show ?case unfolding r write_all.simps by (cases "b = k") (simp_all split: option.split)
qed simp

locale block_device =
  fixes Q :: "('q, 'a) iqueue"
    and inv :: "'q \<Rightarrow> bool"
    and disk :: "'q \<Rightarrow> nat \<Rightarrow> nat list"
    and finished :: "'q \<Rightarrow> nat set"
    and budget :: "'q \<Rightarrow> nat"
  assumes write_ok: "inv s \<Longrightarrow> 0 < budget s \<Longrightarrow> blk < iq_num_blocks Q \<Longrightarrow> length xs = iq_block_size Q \<Longrightarrow>
      \<exists>s' r. iq_submit Q (write_request blk xs) (s, d) = ((s', d), Ok r) \<and> inv s' \<and> budget s \<le> Suc (budget s') \<and>
             r \<notin> finished s \<and> finished s' = insert r (finished s) \<and> disk s' = (disk s)(blk := xs)"
    and read_ok: "inv s \<Longrightarrow> 0 < budget s \<Longrightarrow> blk < iq_num_blocks Q \<Longrightarrow> iq_block_size Q \<le> b_size b \<Longrightarrow>
      \<exists>s' r. iq_submit Q (read_request blk b) (s, d) = ((s', cpu_write (store (b_virt b) (disk s blk)) d), Ok r) \<and>
             inv s' \<and> budget s \<le> Suc (budget s') \<and>
             r \<notin> finished s \<and> finished s' = insert r (finished s) \<and> disk s' = disk s"
    and bad_block: "iq_num_blocks Q \<le> rq_block_id rq \<Longrightarrow>
      iq_submit Q rq (s, d) = ((s, d), Err (BlkInvalidBlockIndex (rq_block_id rq)))"
    and poll_ok: "inv s \<Longrightarrow> r \<in> finished s \<Longrightarrow>
      \<exists>s'. iq_poll Q r s = (s', Ok ()) \<and> inv s' \<and> budget s \<le> budget s' \<and>
           finished s' = finished s - {r} \<and> disk s' = disk s"
    and block_length: "inv s \<Longrightarrow> blk < iq_num_blocks Q \<Longrightarrow> length (disk s blk) = iq_block_size Q"
begin

text \<open>Every block of \<open>bs\<close> has its own completed request.\<close>

definition tracks :: "(nat, nat) btree_map \<Rightarrow> nat set \<Rightarrow> 'q \<Rightarrow> bool" where
  "tracks m bs s \<longleftrightarrow> inj_on (bt_get m) bs \<and> bt_get m ` bs \<subseteq> Some ` finished s"

lemma tracks_empty [simp]: "tracks m {} s"
  by (simp add: tracks_def)

lemma tracks_insert:
  assumes "tracks m bs s" "b \<notin> bs" "r \<notin> finished s" "finished s' = insert r (finished s)" "bt_inv m"
  shows "tracks (bt_insert b r m) (insert b bs) s'"
proof -
  have eq: "bt_get (bt_insert b r m) = (bt_get m)(b := Some r)" using assms(5) by (auto simp: bt_get_insert)
  have im: "((bt_get m)(b := Some r)) ` bs = bt_get m ` bs" using assms(2) by (intro image_cong) auto
  have "Some r \<notin> Some ` finished s" using assms(3) by auto
  then have fresh: "Some r \<notin> bt_get m ` bs" using assms(1) unfolding tracks_def by (meson subsetD)
  have "inj_on ((bt_get m)(b := Some r)) bs"
    using assms(1) fresh unfolding tracks_def by (intro inj_on_fun_updI) simp_all
  moreover note fresh
  moreover have "((bt_get m)(b := Some r)) ` (bs - {b}) = bt_get m ` bs" using assms(2) by (intro image_cong) auto
  ultimately have "inj_on ((bt_get m)(b := Some r)) (insert b bs)" unfolding inj_on_insert by simp
  moreover have "((bt_get m)(b := Some r)) ` insert b bs \<subseteq> Some ` finished s'"
    unfolding image_insert im assms(4) using assms(1) by (auto simp: tracks_def)
  ultimately show ?thesis unfolding tracks_def eq ..
qed

lemma tracks_poll:
  assumes "tracks m (insert b bs) s" "b \<notin> bs" "bt_get m b = Some r" "finished s' = finished s - {r}"
  shows "tracks m bs s'"
proof -
  have "bs - {b} = bs" using assms(2) by simp
  then have "Some r \<notin> bt_get m ` bs" "inj_on (bt_get m) bs"
    using assms(1,3) unfolding tracks_def inj_on_insert by simp_all
  moreover have "bt_get m ` bs \<subseteq> Some ` finished s" using assms(1) unfolding tracks_def by simp
  moreover have "Some ` (finished s - {r}) = Some ` finished s - {Some r}" by auto
  ultimately show ?thesis unfolding tracks_def assms(4) by (simp add: subset_Diff_insert)
qed

lemma tracks_get:
  assumes "tracks m bs s" "b \<in> bs"
  obtains r where "bt_get m b = Some r" "r \<in> finished s"
  using assms unfolding tracks_def by blast

section \<open>Writing\<close>

text \<open>The device part of a client's state.\<close>

abbreviation dev :: "('q, 'a, 'w) cq_state \<Rightarrow> 'q" where
  "dev st \<equiv> bw_dev (snd st)"

abbreviation cpu :: "('q, 'a, 'w) cq_state \<Rightarrow> bytes" where
  "cpu st \<equiv> ds_cpu (bw_dma (snd st))"

definition same_queue :: "('q, 'a, 'w) cq_state \<Rightarrow> ('q, 'a, 'w) cq_state \<Rightarrow> bool" where
  "same_queue st st' \<longleftrightarrow> cq_iface (fst st') = cq_iface (fst st) \<and> cq_pool (fst st') = cq_pool (fst st)"

lemma same_queue_refl [simp]: "same_queue st st"
  by (simp add: same_queue_def)

lemma same_queue_trans: "same_queue st st' \<Longrightarrow> same_queue st' st'' \<Longrightarrow> same_queue st st''"
  by (simp add: same_queue_def)

lemma cq_write_ok:
  assumes "cq_iface (fst st) = Q" "inv (dev st)" "0 < budget (dev st)" "blk < iq_num_blocks Q" "length xs = iq_block_size Q"
  shows "\<exists>st' r. cq_submit (write_request blk xs) st = (st', Ok r) \<and> same_queue st st' \<and> cpu st' = cpu st \<and>
           inv (dev st') \<and> budget (dev st) \<le> Suc (budget (dev st')) \<and> r \<notin> finished (dev st) \<and>
           finished (dev st') = insert r (finished (dev st)) \<and> disk (dev st') = (disk (dev st))(blk := xs)"
proof -
  obtain q w where st: "st = (q, w)" by fastforce
  obtain s' r where "iq_submit Q (write_request blk xs) (bw_dev w, bw_dma w) = ((s', bw_dma w), Ok r)" "inv s'"
    "budget (bw_dev w) \<le> Suc (budget s')" "r \<notin> finished (bw_dev w)" "finished s' = insert r (finished (bw_dev w))"
    "disk s' = (disk (bw_dev w))(blk := xs)"
    using write_ok [of "bw_dev w" blk xs "bw_dma w"] assms st by auto
  then show ?thesis using assms(1) st
    by (intro exI [of _ "(q, w\<lparr>bw_dev := s'\<rparr>)"] exI [of _ r]) (simp add: cq_submit_def same_queue_def)
qed

lemma cq_read_ok:
  assumes "cq_iface (fst st) = Q" "inv (dev st)" "0 < budget (dev st)" "blk < iq_num_blocks Q" "iq_block_size Q \<le> b_size b"
  shows "\<exists>st' r. cq_submit (read_request blk b) st = (st', Ok r) \<and> same_queue st st' \<and>
           cpu st' = store (b_virt b) (disk (dev st) blk) (cpu st) \<and>
           inv (dev st') \<and> budget (dev st) \<le> Suc (budget (dev st')) \<and> r \<notin> finished (dev st) \<and>
           finished (dev st') = insert r (finished (dev st)) \<and> disk (dev st') = disk (dev st)"
proof -
  obtain q w where st: "st = (q, w)" by fastforce
  let ?d = "cpu_write (store (b_virt b) (disk (bw_dev w) blk)) (bw_dma w)"
  obtain s' r where "iq_submit Q (read_request blk b) (bw_dev w, bw_dma w) = ((s', ?d), Ok r)" "inv s'"
    "budget (bw_dev w) \<le> Suc (budget s')" "r \<notin> finished (bw_dev w)" "finished s' = insert r (finished (bw_dev w))"
    "disk s' = disk (bw_dev w)"
    using read_ok [of "bw_dev w" blk b "bw_dma w"] assms st by auto
  then show ?thesis using assms(1) st
    by (intro exI [of _ "(q, w\<lparr>bw_dev := s', bw_dma := ?d\<rparr>)"] exI [of _ r]) (simp add: cq_submit_def same_queue_def)
qed

lemma cq_poll_ok:
  assumes "cq_iface (fst st) = Q" "inv (dev st)" "r \<in> finished (dev st)"
  shows "\<exists>st'. cq_poll r st = (st', Ok ()) \<and> same_queue st st' \<and> cpu st' = cpu st \<and> inv (dev st') \<and>
           budget (dev st) \<le> budget (dev st') \<and> finished (dev st') = finished (dev st) - {r} \<and> disk (dev st') = disk (dev st)"
proof -
  obtain q w where st: "st = (q, w)" by fastforce
  obtain s' where "iq_poll Q r (bw_dev w) = (s', Ok ())" "inv s'" "budget (bw_dev w) \<le> budget s'"
    "finished s' = finished (bw_dev w) - {r}" "disk s' = disk (bw_dev w)"
    using poll_ok [of "bw_dev w" r] assms st by auto
  then show ?thesis using assms(1) st
    by (intro exI [of _ "(q, w\<lparr>bw_dev := s'\<rparr>)"]) (simp add: cq_poll_def same_queue_def)
qed

lemma write_submit_ok:
  assumes "cq_iface (fst st) = Q" "inv (dev st)" "length reqs \<le> budget (dev st)"
    and "\<forall>r \<in> set reqs. fst r < iq_num_blocks Q \<and> length (snd r) = iq_block_size Q"
    and "distinct (map fst reqs)" "wf_results f = []" "bt_inv (wf_requested f)" "bt_inv (wf_map f)"
    and "fst ` set reqs \<inter> fst ` set (wf_requested f) = {}" "tracks (wf_map f) (fst ` set (wf_requested f)) (dev st)"
  shows "\<exists>f' st'. write_submit W reqs (f, st) = ((f', st'), Ok True) \<and> same_queue st st' \<and> cpu st' = cpu st \<and>
           inv (dev st') \<and> budget (dev st) \<le> budget (dev st') + length reqs \<and>
           disk (dev st') = write_all reqs (disk (dev st)) \<and>
           wf_results f' = [] \<and> wf_req_ls f' = wf_req_ls f \<and> bt_inv (wf_requested f') \<and>
           fst ` set (wf_requested f') = fst ` set reqs \<union> fst ` set (wf_requested f) \<and>
           tracks (wf_map f') (fst ` set (wf_requested f')) (dev st')"
  using assms
proof (induction reqs arbitrary: f st)
  case Nil
  then show ?case by simp
next
  case (Cons r reqs)
  obtain blk xs where r: "r = (blk, xs)" by fastforce
  have blk: "blk < iq_num_blocks Q" "length xs = iq_block_size Q" using Cons.prems(4) r by auto
  obtain st1 id where s1: "cq_submit (write_request blk xs) st = (st1, Ok id)" "same_queue st st1" "cpu st1 = cpu st"
    "inv (dev st1)" "budget (dev st) \<le> Suc (budget (dev st1))" "id \<notin> finished (dev st)"
    "finished (dev st1) = insert id (finished (dev st))" "disk (dev st1) = (disk (dev st))(blk := xs)"
    using cq_write_ok [OF Cons.prems(1,2) _ blk] Cons.prems(3) by auto
  let ?f = "f\<lparr>wf_map := bt_insert blk id (wf_map f), wf_requested := bt_insert blk () (wf_requested f)\<rparr>"
  have new: "blk \<notin> fst ` set (wf_requested f)" using Cons.prems(9) r by auto
  have keys: "fst ` set (wf_requested ?f) = insert blk (fst ` set (wf_requested f))"
    using bt_insert_keys [OF Cons.prems(7)] by simp
  have tr: "tracks (wf_map ?f) (fst ` set (wf_requested ?f)) (dev st1)"
    unfolding keys using tracks_insert [OF Cons.prems(10) new s1(6,7) Cons.prems(8)] by simp
  have step: "write_submit W (r # reqs) (f, st) = write_submit W reqs (?f, st1)"
    using s1(1) new Cons.prems(6) r by (simp add: bt_contains_key_def write_request_def)
  have "\<exists>f' st'. write_submit W reqs (?f, st1) = ((f', st'), Ok True) \<and> same_queue st1 st' \<and> cpu st' = cpu st1 \<and>
      inv (dev st') \<and> budget (dev st1) \<le> budget (dev st') + length reqs \<and>
      disk (dev st') = write_all reqs (disk (dev st1)) \<and>
      wf_results f' = [] \<and> wf_req_ls f' = wf_req_ls ?f \<and> bt_inv (wf_requested f') \<and>
      fst ` set (wf_requested f') = fst ` set reqs \<union> fst ` set (wf_requested ?f) \<and>
      tracks (wf_map f') (fst ` set (wf_requested f')) (dev st')"
  proof (rule Cons.IH)
    show "cq_iface (fst st1) = Q" using s1(2) Cons.prems(1) by (simp add: same_queue_def)
    show "length reqs \<le> budget (dev st1)" using Cons.prems(3) s1(5) by simp
    show "fst ` set reqs \<inter> fst ` set (wf_requested ?f) = {}"
      using Cons.prems(5,9) r unfolding keys by auto
  qed (use Cons.prems s1(4) tr r in \<open>auto intro: bt_inv_insert\<close>)
  then obtain f' st' where IH: "write_submit W reqs (?f, st1) = ((f', st'), Ok True)" "same_queue st1 st'" "cpu st' = cpu st1"
      "inv (dev st')" "budget (dev st1) \<le> budget (dev st') + length reqs"
      "disk (dev st') = write_all reqs (disk (dev st1))" "wf_results f' = []" "wf_req_ls f' = wf_req_ls f"
      "bt_inv (wf_requested f')" "fst ` set (wf_requested f') = fst ` set reqs \<union> fst ` set (wf_requested ?f)"
      "tracks (wf_map f') (fst ` set (wf_requested f')) (dev st')"
    by auto
  have "fst ` set (wf_requested f') = fst ` set (r # reqs) \<union> fst ` set (wf_requested f)"
    using IH(10) keys r by auto
  moreover have "budget (dev st) \<le> budget (dev st') + length (r # reqs)" using IH(5) s1(5) by simp
  ultimately show ?case
    using step IH s1(3,8) same_queue_trans [OF s1(2) IH(2)] r by (intro exI [of _ f'] exI [of _ st']) simp
qed

lemma write_complete_ok:
  assumes "cq_iface (fst st) = Q" "inv (dev st)" "distinct blks" "tracks (wf_map f) (set blks) (dev st)"
    and "bt_inv (wf_results f)" "set blks \<inter> fst ` set (wf_results f) = {}"
  shows "\<exists>f' st'. write_complete W blks (f, st) = ((f', st'), Ok True) \<and> same_queue st st' \<and> cpu st' = cpu st \<and>
           inv (dev st') \<and> budget (dev st) \<le> budget (dev st') \<and> disk (dev st') = disk (dev st) \<and>
           wf_req_ls f' = wf_req_ls f \<and> (\<forall>b \<in> set blks. bt_get (wf_results f') b = Some (Ok ()))"
proof -
  have "\<exists>f' st'. write_complete W blks (f, st) = ((f', st'), Ok True) \<and> same_queue st st' \<and> cpu st' = cpu st \<and>
           inv (dev st') \<and> budget (dev st) \<le> budget (dev st') \<and> disk (dev st') = disk (dev st) \<and>
           wf_req_ls f' = wf_req_ls f \<and>
           (\<forall>b. bt_get (wf_results f') b = (if b \<in> set blks then Some (Ok ()) else bt_get (wf_results f) b))"
    using assms
  proof (induction blks arbitrary: f st)
    case Nil
    then show ?case by simp
  next
    case (Cons blk blks)
    obtain r where r: "bt_get (wf_map f) blk = Some r" "r \<in> finished (dev st)"
      using Cons.prems(4) by (auto elim: tracks_get)
    obtain st1 where s1: "cq_poll r st = (st1, Ok ())" "same_queue st st1" "cpu st1 = cpu st" "inv (dev st1)"
      "budget (dev st) \<le> budget (dev st1)" "finished (dev st1) = finished (dev st) - {r}" "disk (dev st1) = disk (dev st)"
      using cq_poll_ok [OF Cons.prems(1,2) r(2)] by auto
    let ?f = "f\<lparr>wf_results := bt_insert blk (Ok ()) (wf_results f)\<rparr>"
    have step: "write_complete W (blk # blks) (f, st) = write_complete W blks (?f, st1)"
      using r(1) s1(1) Cons.prems(6) by (simp add: bt_contains_key_def)
    have "\<exists>f' st'. write_complete W blks (?f, st1) = ((f', st'), Ok True) \<and> same_queue st1 st' \<and> cpu st' = cpu st1 \<and>
        inv (dev st') \<and> budget (dev st1) \<le> budget (dev st') \<and> disk (dev st') = disk (dev st1) \<and>
        wf_req_ls f' = wf_req_ls ?f \<and>
        (\<forall>b. bt_get (wf_results f') b = (if b \<in> set blks then Some (Ok ()) else bt_get (wf_results ?f) b))"
    proof (rule Cons.IH)
      show "cq_iface (fst st1) = Q" using s1(2) Cons.prems(1) by (simp add: same_queue_def)
      show "tracks (wf_map ?f) (set blks) (dev st1)"
        using tracks_poll [OF _ _ r(1) s1(6)] Cons.prems(3,4) by simp
      show "set blks \<inter> fst ` set (wf_results ?f) = {}"
        using Cons.prems(3,6) bt_insert_keys [OF Cons.prems(5)] by auto
    qed (use Cons.prems s1(4) in \<open>auto intro: bt_inv_insert\<close>)
    then obtain f' st' where IH: "write_complete W blks (?f, st1) = ((f', st'), Ok True)" "same_queue st1 st'"
        "cpu st' = cpu st1" "inv (dev st')" "budget (dev st1) \<le> budget (dev st')" "disk (dev st') = disk (dev st1)"
        "wf_req_ls f' = wf_req_ls f"
        "\<forall>b. bt_get (wf_results f') b = (if b \<in> set blks then Some (Ok ()) else bt_get (wf_results ?f) b)"
      by auto
    have "\<forall>b. bt_get (wf_results f') b = (if b \<in> set (blk # blks) then Some (Ok ()) else bt_get (wf_results f) b)"
      using IH(8) bt_get_insert [OF Cons.prems(5)] by simp
    moreover have "budget (dev st) \<le> budget (dev st')" using IH(5) s1(5) by simp
    ultimately show ?case
      using step IH(1-4,6,7) s1(3,7) same_queue_trans [OF s1(2) IH(2)] by (intro exI [of _ f'] exI [of _ st']) simp
  qed
  then show ?thesis by auto
qed

end

lemma read_gather_ok:
  assumes "distinct blks" "\<And>b. b \<in> set blks \<Longrightarrow> bt_get rs b = Some (g b)"
  shows "\<exists>rs'. read_gather blks rs = (rs', Ok (map g blks))"
  using assms
proof (induction blks arbitrary: rs)
  case (Cons b blks)
  have "\<exists>rs'. read_gather blks (bt_remove b rs) = (rs', Ok (map g blks))"
    using Cons.prems by (intro Cons.IH) auto
  then show ?case using Cons.prems(2) [of b] by auto
qed simp

context block_device
begin

text \<open>A write of valid blocks is ready after the first poll, and the device then holds the data.\<close>

theorem write_poll_ok:
  assumes "cq_iface (fst st) = Q" "inv (dev st)" "length reqs \<le> budget (dev st)"
    and "\<forall>r \<in> set reqs. fst r < iq_num_blocks Q \<and> length (snd r) = iq_block_size Q"
    and "distinct (map fst reqs)"
  shows "\<exists>f' st'. write_poll W (write_future_new reqs, st) =
             ((f', st'), Ok (Ready (map (\<lambda>_. Ok ()) reqs))) \<and> same_queue st st' \<and> cpu st' = cpu st \<and>
           inv (dev st') \<and> budget (dev st) \<le> budget (dev st') + length reqs \<and> disk (dev st') = write_all reqs (disk (dev st))"
proof -
  let ?f = "write_future_new reqs"
  have n: "wf_results ?f = []" "wf_requested ?f = []" "wf_map ?f = []" "wf_req_ls ?f = reqs"
    by (simp_all add: write_future_new_def)
  have pre: "bt_inv (wf_requested ?f)" "bt_inv (wf_map ?f)" "fst ` set reqs \<inter> fst ` set (wf_requested ?f) = {}"
    "tracks (wf_map ?f) (fst ` set (wf_requested ?f)) (dev st)" by (simp_all add: n)
  from write_submit_ok [OF assms n(1) pre, of W] obtain f1 st1 where
    s0: "write_submit W reqs (?f, st) = ((f1, st1), Ok True)" "same_queue st st1" "cpu st1 = cpu st"
    "inv (dev st1)" "budget (dev st) \<le> budget (dev st1) + length reqs"
    "disk (dev st1) = write_all reqs (disk (dev st))" "wf_results f1 = []" "wf_req_ls f1 = wf_req_ls ?f"
    "bt_inv (wf_requested f1)" "fst ` set (wf_requested f1) = fst ` set reqs \<union> fst ` set (wf_requested ?f)"
    "tracks (wf_map f1) (fst ` set (wf_requested f1)) (dev st1)" by (elim exE conjE)
  note s1 = s0 [unfolded n list.set image_empty Un_empty_right]
  have q1: "cq_iface (fst st1) = Q" using s1(2) assms(1) by (simp add: same_queue_def)
  have "distinct (map fst (wf_requested f1))" "tracks (wf_map f1) (set (map fst (wf_requested f1))) (dev st1)"
    using bt_inv_distinct [OF s1(9)] s1(11) by simp_all
  from write_complete_ok [OF q1 s1(4) this, of W] s1(7) obtain f2 st2 where
    s2: "write_complete W (map fst (wf_requested f1)) (f1, st1) = ((f2, st2), Ok True)" "same_queue st1 st2"
      "cpu st2 = cpu st1" "inv (dev st2)" "budget (dev st1) \<le> budget (dev st2)" "disk (dev st2) = disk (dev st1)"
      "wf_req_ls f2 = reqs" "\<forall>b \<in> fst ` set (wf_requested f1). bt_get (wf_results f2) b = Some (Ok ())"
    using s1(8) by auto
  obtain rs where g: "read_gather (map fst reqs) (wf_results f2) = (rs, Ok (map (\<lambda>_. Ok ()) (map fst reqs)))"
    using read_gather_ok [OF assms(5), of "wf_results f2" "\<lambda>_. Ok ()"] s2(8) s1(10) by auto
  have "write_poll W (?f, st) = ((f2\<lparr>wf_results := rs\<rparr>, st2), Ok (Ready (map (\<lambda>_. Ok ()) reqs)))"
    using s1(1,8) s2(1,7) g by (simp add: write_poll_def n comp_def)
  moreover have "same_queue st st2" using same_queue_trans s1(2) s2(2) by blast
  moreover have "budget (dev st) \<le> budget (dev st2) + length reqs" using s1(5) s2(5) by linarith
  ultimately show ?thesis using s1(3,6) s2(3,4,6)
    by (intro exI [of _ "f2\<lparr>wf_results := rs\<rparr>"] exI [of _ st2]) simp
qed

end

end
