(* ===== verification/Block_Read.thy ===== *)
theory Block_Read
  imports Block_Device
begin

text \<open>
  Reading through the block layer, for every driver that satisfies \<open>block_device\<close>, and the RAM disk as an
  instance of that interface.
\<close>

definition buffers_apart :: "nat \<Rightarrow> dcommon list \<Rightarrow> bool" where
  "buffers_apart bs ds \<longleftrightarrow>
     sorted_wrt (\<lambda>d e. apart (arr_ptr d) bs (arr_ptr e) bs) ds \<and> (\<forall>d \<in> set ds. arr_size d = bs)"

lemma concat_chunks:
  "length xs = bs * k \<Longrightarrow> concat (map (\<lambda>i. take bs (drop (i * bs) xs)) [0 ..< k]) = xs"
proof (induction k arbitrary: xs)
  case (Suc k)
  have "[0 ..< Suc k] = 0 # map Suc [0 ..< k]" by (simp only: map_Suc_upt upt_conv_Cons zero_less_Suc)
  then have "concat (map (\<lambda>i. take bs (drop (i * bs) xs)) [0 ..< Suc k]) =
      take bs xs @ concat (map (\<lambda>i. take bs (drop (i * bs) (drop bs xs))) [0 ..< k])"
    by (simp add: comp_def add.commute)
  also have "\<dots> = take bs xs @ drop bs xs" using Suc.prems by (subst Suc.IH) simp_all
  finally show ?case by simp
qed simp

text \<open>
  The blocking calls drive a future with \<open>spin_on\<close>.  All that is used of it: a future that is ready at its
  first poll gives its value.
\<close>

definition returns_ready :: "(('s \<Rightarrow> 's \<times> (unit, 'v poll) result) \<Rightarrow> 's \<Rightarrow> 's \<times> (unit, 'v) result) \<Rightarrow> bool" where
  "returns_ready spin \<longleftrightarrow> (\<forall>p s s' v. p s = (s', Ok (Ready v)) \<longrightarrow> spin p s = (s', Ok v))"

lemma returns_readyD: "returns_ready spin \<Longrightarrow> p s = (s', Ok (Ready v)) \<Longrightarrow> spin p s = (s', Ok v)"
  by (simp only: returns_ready_def)

lemma split_blocks_simps:
  assumes "length xs = bs * k" "0 < bs"
  shows "map fst (split_blocks bs start xs) = [start ..< start + k]" "length (split_blocks bs start xs) = k"
    and "\<forall>r \<in> set (split_blocks bs start xs). length (snd r) = bs"
    and "concat (map snd (split_blocks bs start xs)) = xs"
proof -
  show "map fst (split_blocks bs start xs) = [start ..< start + k]"
    using assms by (intro nth_equalityI) (simp_all add: split_blocks_def)
  show "length (split_blocks bs start xs) = k" using assms by (simp add: split_blocks_def)
  have "length (take bs (drop (i * bs) xs)) = bs" if "i < k" for i
  proof -
    have "Suc i * bs \<le> k * bs" using that by (intro mult_le_mono1) simp
    then show ?thesis using assms(1) by (simp add: ac_simps)
  qed
  then show "\<forall>r \<in> set (split_blocks bs start xs). length (snd r) = bs"
    using assms by (auto simp: split_blocks_def)
  show "concat (map snd (split_blocks bs start xs)) = xs"
    using assms concat_chunks [of xs bs k] by (simp add: split_blocks_def comp_def)
qed

context block_device
begin

lemma cq_alloc_pool:
  assumes "pool_free (cq_pool (fst st)) = d # ds"
  shows "\<exists>st'. cq_alloc Op st = (st', Ok d) \<and> cq_iface (fst st') = cq_iface (fst st) \<and>
           pool_free (cq_pool (fst st')) = ds \<and> snd st' = snd st"
  using assms by (cases st) (auto simp: cq_alloc_def pool_alloc_def)

lemma read_submit_ok:
  assumes "cq_iface (fst st) = Q" "inv (dev st)" "length blks \<le> budget (dev st)" "\<forall>b \<in> set blks. b < iq_num_blocks Q"
    and "distinct blks" "rf_results f = []" "bt_inv (rf_requested f)" "bt_inv (rf_map f)"
    and "set blks \<inter> fst ` set (rf_requested f) = {}" "tracks (rf_map f) (fst ` set (rf_requested f)) (dev st)"
    and "pool_free (cq_pool (fst st)) = ds @ rest" "length ds = length blks" "buffers_apart (iq_block_size Q) ds"
  shows "\<exists>f' st'. read_submit Op W blks (f, st) = ((f', st'), Ok True) \<and> cq_iface (fst st') = Q \<and>
           pool_free (cq_pool (fst st')) = rest \<and> inv (dev st') \<and> disk (dev st') = disk (dev st) \<and>
           rf_results f' = [] \<and> rf_blk_ls f' = rf_blk_ls f \<and> bt_inv (rf_requested f') \<and>
           fst ` set (rf_requested f') = set blks \<union> fst ` set (rf_requested f) \<and>
           tracks (rf_map f') (fst ` set (rf_requested f')) (dev st') \<and>
           (\<forall>b. bt_get (rf_requested f') b =
              (case map_of (zip blks ds) b of Some d \<Rightarrow> Some (Some d) | None \<Rightarrow> bt_get (rf_requested f) b)) \<and>
           (\<forall>a n. (\<forall>d \<in> set ds. apart a n (arr_ptr d) (iq_block_size Q)) \<longrightarrow> load (cpu st') a n = load (cpu st) a n) \<and>
           (\<forall>(b, d) \<in> set (zip blks ds). load (cpu st') (arr_ptr d) (iq_block_size Q) = disk (dev st) b)"
  using assms
proof (induction blks arbitrary: f st ds)
  case Nil
  then show ?case by simp
next
  case (Cons blk blks)
  let ?bs = "iq_block_size Q"
  obtain d es where ds: "ds = d # es" using Cons.prems(12) by (cases ds) auto
  have size: "arr_size d = ?bs" and ap: "\<And>e. e \<in> set es \<Longrightarrow> apart (arr_ptr d) ?bs (arr_ptr e) ?bs"
    and es: "buffers_apart ?bs es"
    using Cons.prems(13) ds by (auto simp: buffers_apart_def)
  obtain st0 where s0: "cq_alloc Op st = (st0, Ok d)" "cq_iface (fst st0) = Q" "pool_free (cq_pool (fst st0)) = es @ rest"
    "snd st0 = snd st"
    using cq_alloc_pool [of st d "es @ rest" Op] Cons.prems(1,11) ds by auto
  let ?b = "\<lparr>b_virt = arr_ptr d, b_bus = dma_addr (mh_handle (dc_handle d)), b_size = arr_size d\<rparr>"
  have blk: "blk < iq_num_blocks Q" using Cons.prems(4) by simp
  have pre: "inv (dev st0)" "0 < budget (dev st0)" "?bs \<le> b_size ?b" using Cons.prems(2,3) s0(4) size by auto
  from cq_read_ok [OF s0(2) pre(1,2) blk pre(3)] obtain st1 r where
    s1: "cq_submit (read_request blk ?b) st0 = (st1, Ok r)" "same_queue st0 st1"
      "cpu st1 = store (arr_ptr d) (disk (dev st) blk) (cpu st)" "inv (dev st1)"
      "budget (dev st) \<le> Suc (budget (dev st1))" "r \<notin> finished (dev st)"
      "finished (dev st1) = insert r (finished (dev st))" "disk (dev st1) = disk (dev st)"
    using s0(4) by auto
  let ?f = "f\<lparr>rf_map := bt_insert blk r (rf_map f), rf_requested := bt_insert blk (Some d) (rf_requested f)\<rparr>"
  have new: "blk \<notin> fst ` set (rf_requested f)" using Cons.prems(9) by auto
  have keys: "fst ` set (rf_requested ?f) = insert blk (fst ` set (rf_requested f))"
    using bt_insert_keys [OF Cons.prems(7)] by simp
  have tr: "tracks (rf_map ?f) (fst ` set (rf_requested ?f)) (dev st1)"
    unfolding keys using tracks_insert [OF Cons.prems(10) new s1(6,7) Cons.prems(8)] by simp
  have step: "read_submit Op W (blk # blks) (f, st) = read_submit Op W blks (?f, st1)"
    using s0(1) s1(1) new Cons.prems(6) by (simp add: bt_contains_key_def read_request_def)
  have "cq_iface (fst st1) = Q" "pool_free (cq_pool (fst st1)) = es @ rest"
    using s1(2) s0(2,3) by (simp_all add: same_queue_def)
  moreover have "length blks \<le> budget (dev st1)" using Cons.prems(3) s1(5) by simp
  moreover have "set blks \<inter> fst ` set (rf_requested ?f) = {}" using Cons.prems(5,9) unfolding keys by auto
  moreover have "rf_results ?f = []" "bt_inv (rf_requested ?f)" "bt_inv (rf_map ?f)" "length es = length blks"
    using Cons.prems(6,7,8,12) ds by (auto intro: bt_inv_insert)
  ultimately have "\<exists>f' st'. read_submit Op W blks (?f, st1) = ((f', st'), Ok True) \<and> cq_iface (fst st') = Q \<and>
      pool_free (cq_pool (fst st')) = rest \<and> inv (dev st') \<and> disk (dev st') = disk (dev st1) \<and>
      rf_results f' = [] \<and> rf_blk_ls f' = rf_blk_ls ?f \<and> bt_inv (rf_requested f') \<and>
      fst ` set (rf_requested f') = set blks \<union> fst ` set (rf_requested ?f) \<and>
      tracks (rf_map f') (fst ` set (rf_requested f')) (dev st') \<and>
      (\<forall>b. bt_get (rf_requested f') b =
         (case map_of (zip blks es) b of Some d \<Rightarrow> Some (Some d) | None \<Rightarrow> bt_get (rf_requested ?f) b)) \<and>
      (\<forall>a n. (\<forall>d \<in> set es. apart a n (arr_ptr d) ?bs) \<longrightarrow> load (cpu st') a n = load (cpu st1) a n) \<and>
      (\<forall>(b, d) \<in> set (zip blks es). load (cpu st') (arr_ptr d) ?bs = disk (dev st1) b)"
    using Cons.prems(4,5) s1(4) tr es by (intro Cons.IH) auto
  then obtain f' st' where IH: "read_submit Op W blks (?f, st1) = ((f', st'), Ok True)" "cq_iface (fst st') = Q"
      "pool_free (cq_pool (fst st')) = rest" "inv (dev st')" "disk (dev st') = disk (dev st1)"
      "rf_results f' = []" "rf_blk_ls f' = rf_blk_ls ?f" "bt_inv (rf_requested f')"
      "fst ` set (rf_requested f') = set blks \<union> fst ` set (rf_requested ?f)"
      "tracks (rf_map f') (fst ` set (rf_requested f')) (dev st')"
      "\<forall>b. bt_get (rf_requested f') b =
         (case map_of (zip blks es) b of Some d \<Rightarrow> Some (Some d) | None \<Rightarrow> bt_get (rf_requested ?f) b)"
      "\<forall>a n. (\<forall>d \<in> set es. apart a n (arr_ptr d) ?bs) \<longrightarrow> load (cpu st') a n = load (cpu st1) a n"
      "\<forall>(b, d) \<in> set (zip blks es). load (cpu st') (arr_ptr d) ?bs = disk (dev st1) b"
    by (elim exE conjE)
  have len: "length (disk (dev st) blk) = ?bs" using block_length [OF Cons.prems(2) blk] .
  have frame: "load (cpu st') a n = load (cpu st) a n" if "\<forall>d \<in> set ds. apart a n (arr_ptr d) ?bs" for a n
    using IH(12) that ds load_store_apart [of a n "arr_ptr d" "disk (dev st) blk" "cpu st"] s1(3) len by simp
  have "load (cpu st') (arr_ptr d) ?bs = disk (dev st) blk"
    using IH(12) ap s1(3) len by simp
  then have data: "\<forall>(b, e) \<in> set (zip (blk # blks) ds). load (cpu st') (arr_ptr e) ?bs = disk (dev st) b"
    using IH(13) s1(8) ds by auto
  have "map_of (zip blks es) blk = None" using Cons.prems(5) by (auto simp: map_of_eq_None_iff dest: set_zip_leftD)
  then have get: "\<forall>b. bt_get (rf_requested f') b =
      (case map_of (zip (blk # blks) ds) b of Some d \<Rightarrow> Some (Some d) | None \<Rightarrow> bt_get (rf_requested f) b)"
    using IH(11) ds bt_get_insert [OF Cons.prems(7)] by (auto split: option.split)
  have keys': "fst ` set (rf_requested f') = set (blk # blks) \<union> fst ` set (rf_requested f)" using IH(9) keys by auto
  show ?case
    using step IH(1-8,10) s1(8) keys' get frame data by (intro exI [of _ f'] exI [of _ st']) simp
qed

text \<open>Polling the completed requests moves every buffer into its result.\<close>

lemma read_complete_ok:
  assumes "cq_iface (fst st) = Q" "inv (dev st)" "distinct blks" "tracks (rf_map f) (set blks) (dev st)"
    and "bt_inv (rf_results f)" "bt_inv (rf_requested f)" "set blks \<inter> fst ` set (rf_results f) = {}"
    and "\<forall>b \<in> set blks. bt_get (rf_requested f) b = Some (Some (g b))"
  shows "\<exists>f' st'. read_complete W blks (f, st) = ((f', st'), Ok True) \<and> same_queue st st' \<and> cpu st' = cpu st \<and>
           inv (dev st') \<and> disk (dev st') = disk (dev st) \<and> rf_blk_ls f' = rf_blk_ls f \<and>
           bt_inv (rf_requested f') \<and>
           (\<forall>b. bt_get (rf_requested f') b = (if b \<in> set blks then Some None else bt_get (rf_requested f) b)) \<and>
           (\<forall>b. bt_get (rf_results f') b =
              (if b \<in> set blks then Some (Ok \<lparr>bd_block_id = b, bd_data = g b\<rparr>) else bt_get (rf_results f) b))"
  using assms
proof (induction blks arbitrary: f st)
  case Nil
  then show ?case by simp
next
  case (Cons blk blks)
  obtain r where r: "bt_get (rf_map f) blk = Some r" "r \<in> finished (dev st)"
    using Cons.prems(4) by (auto elim: tracks_get)
  obtain st1 where s1: "cq_poll r st = (st1, Ok ())" "same_queue st st1" "cpu st1 = cpu st" "inv (dev st1)"
    "finished (dev st1) = finished (dev st) - {r}" "disk (dev st1) = disk (dev st)"
    using cq_poll_ok [OF Cons.prems(1,2) r(2)] by auto
  let ?f = "f\<lparr>rf_requested := bt_insert blk None (rf_requested f),
              rf_results := bt_insert blk (Ok \<lparr>bd_block_id = blk, bd_data = g blk\<rparr>) (rf_results f)\<rparr>"
  have step: "read_complete W (blk # blks) (f, st) = read_complete W blks (?f, st1)"
    using r(1) s1(1) Cons.prems(7,8) by (simp add: bt_contains_key_def)
  have "cq_iface (fst st1) = Q" using s1(2) Cons.prems(1) by (simp add: same_queue_def)
  moreover have "tracks (rf_map ?f) (set blks) (dev st1)" using tracks_poll [OF _ _ r(1) s1(5)] Cons.prems(3,4) by simp
  moreover have "set blks \<inter> fst ` set (rf_results ?f) = {}"
    using Cons.prems(3,7) bt_insert_keys [OF Cons.prems(5)] by auto
  moreover have "\<forall>b \<in> set blks. bt_get (rf_requested ?f) b = Some (Some (g b))"
    using Cons.prems(3,8) bt_get_insert [OF Cons.prems(6)] by auto
  moreover have "bt_inv (rf_results ?f)" "bt_inv (rf_requested ?f)" using Cons.prems(5,6) by (auto intro: bt_inv_insert)
  ultimately have "\<exists>f' st'. read_complete W blks (?f, st1) = ((f', st'), Ok True) \<and> same_queue st1 st' \<and> cpu st' = cpu st1 \<and>
      inv (dev st') \<and> disk (dev st') = disk (dev st1) \<and> rf_blk_ls f' = rf_blk_ls ?f \<and> bt_inv (rf_requested f') \<and>
      (\<forall>b. bt_get (rf_requested f') b = (if b \<in> set blks then Some None else bt_get (rf_requested ?f) b)) \<and>
      (\<forall>b. bt_get (rf_results f') b =
         (if b \<in> set blks then Some (Ok \<lparr>bd_block_id = b, bd_data = g b\<rparr>) else bt_get (rf_results ?f) b))"
    using Cons.prems(3) s1(4) by (intro Cons.IH) auto
  then obtain f' st' where IH: "read_complete W blks (?f, st1) = ((f', st'), Ok True)" "same_queue st1 st'"
      "cpu st' = cpu st1" "inv (dev st')" "disk (dev st') = disk (dev st1)" "rf_blk_ls f' = rf_blk_ls ?f"
      "bt_inv (rf_requested f')"
      "\<forall>b. bt_get (rf_requested f') b = (if b \<in> set blks then Some None else bt_get (rf_requested ?f) b)"
      "\<forall>b. bt_get (rf_results f') b =
         (if b \<in> set blks then Some (Ok \<lparr>bd_block_id = b, bd_data = g b\<rparr>) else bt_get (rf_results ?f) b)"
    by (elim exE conjE)
  have "\<forall>b. bt_get (rf_requested f') b = (if b \<in> set (blk # blks) then Some None else bt_get (rf_requested f) b)"
    using IH(8) bt_get_insert [OF Cons.prems(6)] by simp
  moreover have "\<forall>b. bt_get (rf_results f') b =
      (if b \<in> set (blk # blks) then Some (Ok \<lparr>bd_block_id = b, bd_data = g b\<rparr>) else bt_get (rf_results f) b)"
    using IH(9) bt_get_insert [OF Cons.prems(5)] by simp
  ultimately show ?case
    using step IH(1-7) s1(3,6) same_queue_trans [OF s1(2) IH(2)] by (intro exI [of _ f'] exI [of _ st']) simp
qed

lemma read_future_drop_none:
  assumes "\<forall>e \<in> set (rf_requested f). snd e = None"
  shows "read_future_drop (f, st) = st"
proof -
  have "fold (\<lambda>(blk, ob) st. case ob of None \<Rightarrow> st | Some buff \<Rightarrow> cq_free buff st) es st = st"
    if "\<forall>e \<in> set es. snd e = None" for es :: "(nat \<times> dcommon option) list"
    using that by (induction es) auto
  then show ?thesis using assms by (simp add: read_future_drop_def)
qed

text \<open>
  A read of valid blocks is ready after the first poll; the results carry one buffer of the pool per block, in
  the order of the request, and each buffer holds its block.
\<close>

theorem read_poll_ok:
  assumes "cq_iface (fst st) = Q" "inv (dev st)" "length blks \<le> budget (dev st)" "\<forall>b \<in> set blks. b < iq_num_blocks Q"
    and "distinct blks" "pool_free (cq_pool (fst st)) = ds @ rest" "length ds = length blks"
    and "buffers_apart (iq_block_size Q) ds"
  shows "\<exists>f' st'. read_poll Op W (read_future_new blks, st) =
             ((f', st'), Ok (Ready (map (\<lambda>(b, d). Ok \<lparr>bd_block_id = b, bd_data = d\<rparr>) (zip blks ds)))) \<and>
           read_future_drop (f', st') = st' \<and> disk (dev st') = disk (dev st) \<and> inv (dev st') \<and>
           pool_free (cq_pool (fst st')) = rest \<and>
           (\<forall>(b, d) \<in> set (zip blks ds). load (cpu st') (arr_ptr d) (arr_size d) = disk (dev st) b)"
proof -
  let ?f = "read_future_new blks" and ?bs = "iq_block_size Q"
  have n: "rf_results ?f = []" "rf_requested ?f = []" "rf_map ?f = []" "rf_blk_ls ?f = blks"
    by (simp_all add: read_future_new_def)
  have pre: "bt_inv (rf_requested ?f)" "bt_inv (rf_map ?f)" "set blks \<inter> fst ` set (rf_requested ?f) = {}"
    "tracks (rf_map ?f) (fst ` set (rf_requested ?f)) (dev st)" by (simp_all add: n)
  from read_submit_ok [OF assms(1-5) n(1) pre assms(6-8), of Op W] obtain f1 st1 where
    s0: "read_submit Op W blks (?f, st) = ((f1, st1), Ok True)" "cq_iface (fst st1) = Q"
      "pool_free (cq_pool (fst st1)) = rest" "inv (dev st1)" "disk (dev st1) = disk (dev st)"
      "rf_results f1 = []" "rf_blk_ls f1 = rf_blk_ls ?f" "bt_inv (rf_requested f1)"
      "fst ` set (rf_requested f1) = set blks \<union> fst ` set (rf_requested ?f)"
      "tracks (rf_map f1) (fst ` set (rf_requested f1)) (dev st1)"
      "\<forall>b. bt_get (rf_requested f1) b =
         (case map_of (zip blks ds) b of Some d \<Rightarrow> Some (Some d) | None \<Rightarrow> bt_get (rf_requested ?f) b)"
      "\<forall>(b, d) \<in> set (zip blks ds). load (cpu st1) (arr_ptr d) ?bs = disk (dev st) b"
    by (elim exE conjE)
  note s1 = s0 [unfolded n list.set image_empty Un_empty_right]
  define g where "g = (\<lambda>b. the (map_of (zip blks ds) b))"
  have g: "map_of (zip blks ds) b = Some (g b)" if "b \<in> set blks" for b
    using that assms(7) by (simp add: g_def)
  have ks: "set (map fst (rf_requested f1)) = set blks" using s1(9) by simp
  have "tracks (rf_map f1) (set (map fst (rf_requested f1))) (dev st1)" using s1(10) by simp
  moreover have "\<forall>b \<in> set (map fst (rf_requested f1)). bt_get (rf_requested f1) b = Some (Some (g b))"
    unfolding ks using s1(11) g by simp
  ultimately have "\<exists>f2 st2. read_complete W (map fst (rf_requested f1)) (f1, st1) = ((f2, st2), Ok True) \<and>
      same_queue st1 st2 \<and> cpu st2 = cpu st1 \<and> inv (dev st2) \<and> disk (dev st2) = disk (dev st1) \<and> rf_blk_ls f2 = rf_blk_ls f1 \<and>
      bt_inv (rf_requested f2) \<and>
      (\<forall>b. bt_get (rf_requested f2) b = (if b \<in> set blks then Some None else bt_get (rf_requested f1) b)) \<and>
      (\<forall>b. bt_get (rf_results f2) b =
         (if b \<in> set blks then Some (Ok \<lparr>bd_block_id = b, bd_data = g b\<rparr>) else bt_get (rf_results f1) b))"
    unfolding ks [symmetric] using s1(2,4,6,8) bt_inv_distinct [OF s1(8)] by (intro read_complete_ok) simp_all
  then obtain f2 st2 where s2: "read_complete W (map fst (rf_requested f1)) (f1, st1) = ((f2, st2), Ok True)"
      "same_queue st1 st2" "cpu st2 = cpu st1" "inv (dev st2)" "disk (dev st2) = disk (dev st1)" "rf_blk_ls f2 = rf_blk_ls f1"
      "bt_inv (rf_requested f2)"
      "\<forall>b. bt_get (rf_requested f2) b = (if b \<in> set blks then Some None else bt_get (rf_requested f1) b)"
      "\<forall>b. bt_get (rf_results f2) b =
         (if b \<in> set blks then Some (Ok \<lparr>bd_block_id = b, bd_data = g b\<rparr>) else bt_get (rf_results f1) b)"
    by (elim exE conjE)
  have zip: "map (\<lambda>(b, d). Ok \<lparr>bd_block_id = b, bd_data = d\<rparr>) (zip blks ds) = map (\<lambda>b. Ok \<lparr>bd_block_id = b, bd_data = g b\<rparr>) blks"
  proof (rule nth_equalityI)
    fix i assume i: "i < length (map (\<lambda>(b, d). Ok \<lparr>bd_block_id = b, bd_data = d\<rparr>) (zip blks ds))"
    then have "(blks ! i, ds ! i) \<in> set (zip blks ds)" by (auto simp: in_set_zip)
    then have "map_of (zip blks ds) (blks ! i) = Some (ds ! i)" using assms(5,7) i by (simp add: map_of_zip_nth)
    then have "ds ! i = g (blks ! i)" by (simp add: g_def)
    then show "map (\<lambda>(b, d). Ok \<lparr>bd_block_id = b, bd_data = d\<rparr>) (zip blks ds) ! i =
        map (\<lambda>b. Ok \<lparr>bd_block_id = b, bd_data = g b\<rparr>) blks ! i" using i by simp
  qed (use assms(7) in simp)
  obtain rs where gath: "read_gather blks (rf_results f2) = (rs, Ok (map (\<lambda>b. Ok \<lparr>bd_block_id = b, bd_data = g b\<rparr>) blks))"
    using read_gather_ok [OF assms(5), of "rf_results f2" "\<lambda>b. Ok \<lparr>bd_block_id = b, bd_data = g b\<rparr>"] s2(9) by auto
  let ?f2 = "f2\<lparr>rf_results := rs\<rparr>"
  have "read_poll Op W (?f, st) = ((?f2, st2), Ok (Ready (map (\<lambda>(b, d). Ok \<lparr>bd_block_id = b, bd_data = d\<rparr>) (zip blks ds))))"
    using s1(1,7) s2(1,6) gath unfolding zip by (simp add: read_poll_def n)
  moreover have "snd e = None" if "e \<in> set (rf_requested f2)" for e
  proof -
    have "bt_get (rf_requested f2) (fst e) = Some (snd e)" using that bt_get_iff [OF s2(7)] by simp
    moreover have "bt_get (rf_requested f1) b = None" if "b \<notin> set blks" for b
    proof -
      have "map_of (zip blks ds) b = None" using that assms(7) by (simp add: map_of_zip_is_None)
      then show ?thesis using s1(11) by (simp add: bt_get_def)
    qed
    ultimately show ?thesis using s2(8) by (cases "fst e \<in> set blks") simp_all
  qed
  then have "read_future_drop (?f2, st2) = st2" by (intro read_future_drop_none) simp
  moreover have "\<forall>(b, d) \<in> set (zip blks ds). load (cpu st2) (arr_ptr d) (arr_size d) = disk (dev st) b"
    using s1(12) assms(8) unfolding s2(3) buffers_apart_def by (fastforce dest: set_zip_rightD)
  ultimately show ?thesis using s1(3,5) s2(2,4,5) by (intro exI [of _ ?f2] exI [of _ st2]) (simp add: same_queue_def)
qed

section \<open>Whole transfers\<close>

text \<open>
  What is written to a range of blocks is what a later read of that range returns, in order, whatever the blocks
  held before.
\<close>

theorem write_read_blocks:
  assumes "returns_ready spw" "returns_ready spr"
    and "cq_iface (fst st) = Q" "inv (dev st)" "0 < iq_block_size Q" "length xs = iq_block_size Q * k"
    and "start + k \<le> iq_num_blocks Q" "iq_num_blocks Q \<le> U64_MAX" "2 * k \<le> budget (dev st)"
    and "pool_free (cq_pool (fst st)) = ds @ rest" "length ds = k" "buffers_apart (iq_block_size Q) ds"
  shows "\<exists>st1 st2 bs. write_blocks_blocking spw W start xs st = (st1, Ok (replicate k (Ok ()))) \<and>
           read_blocks_blocking spr Op W start k st1 = (st2, Ok (map Ok bs)) \<and>
           map bd_block_id bs = [start ..< start + k] \<and> map bd_data bs = ds \<and>
           concat (map (block_data_deref (snd st2)) bs) = xs"
proof -
  let ?bs = "iq_block_size Q" and ?ks = "[start ..< start + k]"
  let ?reqs = "split_blocks ?bs start xs" and ?blocks = "map (\<lambda>(b, d). \<lparr>bd_block_id = b, bd_data = d\<rparr>) (zip ?ks ds)"
  note sp = split_blocks_simps [OF assms(6,5), of start]
  have keys: "fst r < iq_num_blocks Q \<and> length (snd r) = ?bs" if "r \<in> set ?reqs" for r
  proof -
    have "fst r \<in> set (map fst ?reqs)" using that by simp
    then show ?thesis unfolding sp(1) using that sp(3) assms(7) by auto
  qed
  have d: "distinct (map fst ?reqs)" unfolding sp(1) by simp
  have "length ?reqs \<le> budget (dev st)" using sp(2) assms(9) by simp
  from write_poll_ok [OF assms(3,4) this _ d, of W] keys obtain f1 st1 where
    w: "write_poll W (write_future_new ?reqs, st) = ((f1, st1), Ok (Ready (map (\<lambda>_. Ok ()) ?reqs)))"
      "same_queue st st1" "inv (dev st1)" "budget (dev st) \<le> budget (dev st1) + length ?reqs"
      "disk (dev st1) = write_all ?reqs (disk (dev st))" by auto
  have div: "length xs mod ?bs = 0" "length xs div ?bs = k" using assms(5,6) by simp_all
  have "spw (write_poll W) (write_future_new ?reqs, st) = ((f1, st1), Ok (map (\<lambda>_. Ok ()) ?reqs))"
    by (rule returns_readyD [OF assms(1), of "write_poll W"]) (rule w(1))
  then have wr: "write_blocks_blocking spw W start xs st = (st1, Ok (replicate k (Ok ())))"
    using assms(3,5,7,8) div sp(2) by (simp add: write_blocks_blocking_def map_replicate_const)
  have pre: "cq_iface (fst st1) = Q" "length ?ks \<le> budget (dev st1)" "\<forall>b \<in> set ?ks. b < iq_num_blocks Q" "distinct ?ks"
      "pool_free (cq_pool (fst st1)) = ds @ rest" "length ds = length ?ks"
    using w(2,4) assms(3,7,9,10,11) sp(2) by (simp_all add: same_queue_def)
  from read_poll_ok [OF pre(1) w(3) pre(2-6) assms(12), of Op W] obtain f2 st2 where
    r: "read_poll Op W (read_future_new ?ks, st1) =
             ((f2, st2), Ok (Ready (map (\<lambda>(b, d). Ok \<lparr>bd_block_id = b, bd_data = d\<rparr>) (zip ?ks ds))))"
       "read_future_drop (f2, st2) = st2"
       "\<forall>(b, d) \<in> set (zip ?ks ds). load (cpu st2) (arr_ptr d) (arr_size d) = disk (dev st1) b" by (elim exE conjE)
  have "spr (read_poll Op W) (read_future_new ?ks, st1) = ((f2, st2), Ok (map Ok ?blocks))"
    using returns_readyD [OF assms(2), of "read_poll Op W", OF r(1)] by (simp add: comp_def case_prod_unfold)
  then have rd: "read_blocks_blocking spr Op W start k st1 = (st2, Ok (map Ok ?blocks))"
    using r(2) assms(7,8) by (simp add: read_blocks_blocking_def)
  have "map (block_data_deref (snd st2)) ?blocks = map snd ?reqs"
  proof (rule nth_equalityI)
    fix i assume "i < length (map (block_data_deref (snd st2)) ?blocks)"
    then have i: "i < k" using assms(11) by simp
    then have "(start + i, ds ! i) \<in> set (zip ?ks ds)" using assms(11) by (auto simp: in_set_zip intro!: exI [of _ i])
    then have "load (cpu st2) (arr_ptr (ds ! i)) (arr_size (ds ! i)) = disk (dev st1) (start + i)" using r(3) by blast
    also have "\<dots> = snd (?reqs ! i)"
    proof -
      have "fst (?reqs ! i) = start + i" using sp(1,2) i by (metis nth_map nth_upt add_less_cancel_left)
      then have "(start + i, snd (?reqs ! i)) \<in> set ?reqs" using sp(2) i by (metis nth_mem prod.collapse)
      then show ?thesis unfolding w(5) write_all_get [OF d] using d by simp
    qed
    finally show "map (block_data_deref (snd st2)) ?blocks ! i = map snd ?reqs ! i"
      using i sp(2) assms(11) by (simp add: block_data_deref_def)
  qed (use sp(2) assms(11) in simp)
  then have "concat (map (block_data_deref (snd st2)) ?blocks) = xs" using sp(4) by simp
  moreover have "map bd_block_id ?blocks = ?ks" "map bd_data ?blocks = ds"
    using assms(11) by (simp_all add: comp_def case_prod_unfold)
  ultimately show ?thesis using wr rd by (intro exI [of _ st1] exI [of _ st2] exI [of _ ?blocks]) simp
qed

end

end
