(* ===== verification/Ramdisk_Device.thy ===== *)
theory Ramdisk_Device
  imports Block_Read
begin

text \<open>
  The RAM disk implements the contract \<open>block_device\<close>: its storage is an array of blocks, every accepted
  request is completed at once, and the identifiers of the completed requests are the ones handed out.
\<close>

definition ram_block :: "nat \<Rightarrow> ram_inner \<Rightarrow> nat \<Rightarrow> nat list" where
  "ram_block bs s b = take bs (drop (b * bs) (storage s))"

definition ram_finished :: "ram_inner \<Rightarrow> nat set" where
  "ram_finished s = set (completed_reads s) \<union> set (completed_writes s)"

definition ram_budget :: "ram_inner \<Rightarrow> nat" where
  "ram_budget s = U64_MAX - next_req_id s"

definition ram_inv :: "nat \<Rightarrow> ram_disk \<Rightarrow> ram_inner \<Rightarrow> bool" where
  "ram_inv qid disk s \<longleftrightarrow>
     qid < 64 \<and> rd_block_size disk * rd_num_blocks disk \<le> U64_MAX \<and>
     length (storage s) = rd_block_size disk * rd_num_blocks disk \<and>
     distinct (completed_reads s @ completed_writes s) \<and> (\<forall>r \<in> ram_finished s. r < next_req_id s)"

section \<open>The storage as an array of blocks\<close>

lemma block_in_range:
  assumes "b < n"
  shows "b * bs + bs \<le> bs * (n::nat)"
proof -
  have "Suc b * bs \<le> n * bs" using assms by (intro mult_le_mono1) simp
  then show ?thesis by (simp add: ac_simps)
qed

lemma length_block: "length xs = bs * n \<Longrightarrow> b < n \<Longrightarrow> length (take bs (drop (b * bs) xs)) = bs"
  using block_in_range [of b n bs] by simp

text \<open>Replacing one block leaves every other block as it was.\<close>

lemma block_replace:
  assumes "length xs = bs * n" "b < n" "length ys = bs"
  shows "take bs (drop (c * bs) (take (b * bs) xs @ ys @ drop (b * bs + bs) xs)) =
         (if c = b then ys else take bs (drop (c * bs) xs))"
proof (cases rule: linorder_cases [of c b])
  case less
  have "c * bs + bs \<le> b * bs" using block_in_range [OF less, of bs] by (simp add: mult.commute)
  moreover have l: "length (take (b * bs) xs) = b * bs" using block_in_range [OF assms(2), of bs] assms(1) by simp
  ultimately have "take bs (drop (c * bs) (take (b * bs) xs @ zs)) = take bs (drop (c * bs) (take (b * bs) xs))" for zs
    by simp
  moreover have "take bs (drop (c * bs) (take (b * bs) xs)) = take bs (drop (c * bs) xs)"
    using \<open>c * bs + bs \<le> b * bs\<close> by (simp add: drop_take min_absorb1)
  ultimately have "take bs (drop (c * bs) (take (b * bs) xs @ zs)) = take bs (drop (c * bs) xs)" for zs by metis
  then show ?thesis using less by (simp del: take_append drop_append)
next
  case equal
  have "length (take (b * bs) xs) = b * bs" using block_in_range [OF assms(2), of bs] assms(1) by simp
  then show ?thesis using equal assms(3) by simp
next
  case greater
  have "b * bs + bs \<le> c * bs" using block_in_range [OF greater, of bs] by (simp add: mult.commute)
  moreover have "length (take (b * bs) xs) = b * bs" using block_in_range [OF assms(2), of bs] assms(1) by simp
  ultimately have "drop (c * bs) (take (b * bs) xs @ ys @ drop (b * bs + bs) xs) = drop (c * bs) xs"
    using assms(3) greater by simp
  then show ?thesis using greater by simp
qed

section \<open>The operations\<close>

lemma id_insert_ok: "qid < 64 \<Longrightarrow> \<exists>rx. id_insert l qid = Ok rx"
  by (simp add: id_insert_def id_mask_def)

lemma ram_finished_less: "ram_inv qid disk s \<Longrightarrow> next_req_id s \<notin> ram_finished s"
  by (auto simp: ram_inv_def)

lemma ram_write_ok:
  assumes "ram_inv qid disk s" "0 < ram_budget s" "blk < rd_num_blocks disk" "length xs = rd_block_size disk"
  shows "\<exists>s' r. ram_submit qid (rd_block_size disk) (rd_num_blocks disk) (write_request blk xs) (s, d) = ((s', d), Ok r) \<and>
           ram_inv qid disk s' \<and> ram_budget s \<le> Suc (ram_budget s') \<and> r \<notin> ram_finished s \<and>
           ram_finished s' = insert r (ram_finished s) \<and>
           ram_block (rd_block_size disk) s' = (ram_block (rd_block_size disk) s)(blk := xs)"
proof -
  let ?bs = "rd_block_size disk" and ?n = "rd_num_blocks disk"
  have i: "qid < 64" "?bs * ?n \<le> U64_MAX" "length (storage s) = ?bs * ?n" using assms(1) by (simp_all add: ram_inv_def)
  have r: "blk * ?bs + ?bs \<le> ?bs * ?n" by (rule block_in_range [OF assms(3)])
  obtain rx where rx: "id_insert (irq_rx s) qid = Ok rx" using id_insert_ok [OF i(1)] by blast
  let ?s = "s\<lparr>next_req_id := Suc (next_req_id s),
      storage := take (blk * ?bs) (storage s) @ xs @ drop (blk * ?bs + ?bs) (storage s),
      completed_writes := completed_writes s @ [next_req_id s], irq_rx := rx\<rparr>"
  have "ram_submit qid ?bs ?n (write_request blk xs) (s, d) = ((?s, d), Ok (next_req_id s))"
    using assms(2-4) r i(2) rx by (simp add: ram_submit_def write_request_def ram_budget_def Let_def)
  moreover have fresh: "next_req_id s \<notin> ram_finished s" by (rule ram_finished_less [OF assms(1)])
  moreover have fin: "ram_finished ?s = insert (next_req_id s) (ram_finished s)" by (simp add: ram_finished_def)
  moreover have "ram_inv qid disk ?s"
    using assms(1,4) r fresh fin unfolding ram_inv_def by (auto simp: ram_finished_def intro: less_SucI)
  moreover have "ram_block ?bs ?s = (ram_block ?bs s)(blk := xs)"
    using block_replace [OF i(3) assms(3,4)] by (simp add: ram_block_def fun_eq_iff)
  ultimately show ?thesis by (intro exI [of _ ?s] exI [of _ "next_req_id s"]) (simp add: ram_budget_def)
qed

lemma ram_read_ok:
  assumes "ram_inv qid disk s" "0 < ram_budget s" "blk < rd_num_blocks disk" "rd_block_size disk \<le> b_size b"
  shows "\<exists>s' r. ram_submit qid (rd_block_size disk) (rd_num_blocks disk) (read_request blk b) (s, d) =
             ((s', cpu_write (store (b_virt b) (ram_block (rd_block_size disk) s blk)) d), Ok r) \<and>
           ram_inv qid disk s' \<and> ram_budget s \<le> Suc (ram_budget s') \<and> r \<notin> ram_finished s \<and>
           ram_finished s' = insert r (ram_finished s) \<and>
           ram_block (rd_block_size disk) s' = ram_block (rd_block_size disk) s"
proof -
  let ?bs = "rd_block_size disk" and ?n = "rd_num_blocks disk"
  have i: "qid < 64" "?bs * ?n \<le> U64_MAX" "length (storage s) = ?bs * ?n" using assms(1) by (simp_all add: ram_inv_def)
  have r: "blk * ?bs + ?bs \<le> ?bs * ?n" by (rule block_in_range [OF assms(3)])
  obtain rx where rx: "id_insert (irq_rx s) qid = Ok rx" using id_insert_ok [OF i(1)] by blast
  let ?s = "s\<lparr>next_req_id := Suc (next_req_id s), completed_reads := completed_reads s @ [next_req_id s], irq_rx := rx\<rparr>"
  have "ram_submit qid ?bs ?n (read_request blk b) (s, d) =
      ((?s, cpu_write (store (b_virt b) (ram_block ?bs s blk)) d), Ok (next_req_id s))"
    using assms(2-4) r i(2) rx by (simp add: ram_submit_def read_request_def ram_budget_def ram_block_def Let_def)
  moreover have fresh: "next_req_id s \<notin> ram_finished s" by (rule ram_finished_less [OF assms(1)])
  moreover have fin: "ram_finished ?s = insert (next_req_id s) (ram_finished s)" by (auto simp: ram_finished_def)
  moreover have "ram_inv qid disk ?s"
    using assms(1) fresh fin unfolding ram_inv_def by (auto simp: ram_finished_def intro: less_SucI)
  moreover have "ram_block ?bs ?s = ram_block ?bs s" by (simp add: ram_block_def fun_eq_iff)
  ultimately show ?thesis by (intro exI [of _ ?s] exI [of _ "next_req_id s"]) (simp add: ram_budget_def)
qed

lemma ram_poll_ok:
  assumes "ram_inv qid disk s" "r \<in> ram_finished s"
  shows "\<exists>s'. ram_poll r s = (s', Ok ()) \<and> ram_inv qid disk s' \<and> ram_budget s \<le> ram_budget s' \<and>
           ram_finished s' = ram_finished s - {r} \<and> ram_block bs s' = ram_block bs s"
proof -
  have d: "distinct (completed_reads s)" "distinct (completed_writes s)"
    "set (completed_reads s) \<inter> set (completed_writes s) = {}" using assms(1) by (simp_all add: ram_inv_def)
  let ?r = "s\<lparr>completed_reads := remove1 r (completed_reads s)\<rparr>" and
      ?w = "s\<lparr>completed_writes := remove1 r (completed_writes s)\<rparr>"
  let ?s = "if r \<in> set (completed_reads s) then ?r else ?w"
  have "ram_poll r s = (?s, Ok ())" using assms(2) by (auto simp: ram_poll_def ram_finished_def)
  moreover have fin: "ram_finished ?s = ram_finished s - {r}" using d by (auto simp: ram_finished_def)
  moreover have "ram_inv qid disk ?s"
    using assms(1) d unfolding ram_inv_def fin by (auto dest: notin_set_remove1)
  moreover have "ram_block bs ?s = ram_block bs s" "ram_budget ?s = ram_budget s"
    by (simp_all add: ram_block_def ram_budget_def fun_eq_iff)
  ultimately show ?thesis by (intro exI [of _ ?s]) simp
qed

interpretation ram: block_device "ram_iqueue qid disk" "ram_inv qid disk" "ram_block (rd_block_size disk)"
    ram_finished ram_budget for qid disk
proof unfold_locales
  show "\<exists>s' r. iq_submit (ram_iqueue qid disk) (write_request blk xs) (s, d) = ((s', d), Ok r) \<and> ram_inv qid disk s' \<and>
        ram_budget s \<le> Suc (ram_budget s') \<and> r \<notin> ram_finished s \<and> ram_finished s' = insert r (ram_finished s) \<and>
        ram_block (rd_block_size disk) s' = (ram_block (rd_block_size disk) s)(blk := xs)"
    if "ram_inv qid disk s" "0 < ram_budget s" "blk < iq_num_blocks (ram_iqueue qid disk)"
      "length xs = iq_block_size (ram_iqueue qid disk)" for s blk xs d
    using ram_write_ok that by (simp add: ram_iqueue_def)
next
  show "\<exists>s' r. iq_submit (ram_iqueue qid disk) (read_request blk b) (s, d) =
          ((s', cpu_write (store (b_virt b) (ram_block (rd_block_size disk) s blk)) d), Ok r) \<and> ram_inv qid disk s' \<and>
        ram_budget s \<le> Suc (ram_budget s') \<and> r \<notin> ram_finished s \<and> ram_finished s' = insert r (ram_finished s) \<and>
        ram_block (rd_block_size disk) s' = ram_block (rd_block_size disk) s"
    if "ram_inv qid disk s" "0 < ram_budget s" "blk < iq_num_blocks (ram_iqueue qid disk)"
      "iq_block_size (ram_iqueue qid disk) \<le> b_size b" for s blk b d
    using ram_read_ok that by (simp add: ram_iqueue_def)
next
  show "\<exists>s'. iq_poll (ram_iqueue qid disk) r s = (s', Ok ()) \<and> ram_inv qid disk s' \<and> ram_budget s \<le> ram_budget s' \<and>
        ram_finished s' = ram_finished s - {r} \<and> ram_block (rd_block_size disk) s' = ram_block (rd_block_size disk) s"
    if "ram_inv qid disk s" "r \<in> ram_finished s" for s r
    using ram_poll_ok [OF that] by (simp add: ram_iqueue_def)
next
  show "length (ram_block (rd_block_size disk) s blk) = iq_block_size (ram_iqueue qid disk)"
    if "ram_inv qid disk s" "blk < iq_num_blocks (ram_iqueue qid disk)" for s blk
    using that unfolding ram_block_def ram_iqueue_def iqueue.simps by (intro length_block) (simp_all add: ram_inv_def)
qed (simp add: ram_iqueue_def ram_submit_def)

text \<open>A new disk satisfies the invariant for each of its first 64 queues.\<close>

lemma ramdisk_storage_length: "length (ramdisk_storage bs n) = bs * n"
  by (simp add: ramdisk_storage_def length_concat comp_def sum_list_triv)

lemma ramdisk_new_inv:
  assumes "ramdisk_new bs n = Ok (disk, s)" "qid < 64"
  shows "ram_inv qid disk s" "ram_budget s = U64_MAX - 1" "rd_block_size disk = bs" "rd_num_blocks disk = n"
  using assms
  by (auto simp: ramdisk_new_def ram_inv_def ram_finished_def ram_budget_def ramdisk_storage_length split: if_splits)

end
