(* ===== verification/Block_Properties.thy ===== *)
theory Block_Properties
  imports Ramdisk_Device
begin

text \<open>
  The properties of the block stack: DMA buffers, the RAM disk, and the block layer over it.
\<close>

text \<open>A memory with a write-back cache satisfies the laws; the coherent allocator of the instance bumps a pointer.\<close>

definition cached_op :: "nat dma_op" where
  "cached_op =
     \<lparr>op_page_size = 4096,
      op_map_single = (\<lambda>dmask addr sz align direction s. (s, Err DmaNoMemory)),
      op_unmap_single = (\<lambda>h s. s),
      op_alloc_coherent = (\<lambda>dmask lsize lalign s.
         (s\<lparr>ds_heap := ds_heap s + lsize\<rparr>,
          Some \<lparr>cpu_addr = ds_heap s, dma_addr = ds_heap s, h_size = lsize, h_align = lalign\<rparr>)),
      op_dealloc_coherent = (\<lambda>h s. s),
      op_flush = (\<lambda>a n s. s\<lparr>ds_dev := store a (load (ds_cpu s) a n) (ds_dev s)\<rparr>),
      op_invalidate = (\<lambda>a n s. s\<lparr>ds_cpu := store a (load (ds_dev s) a n) (ds_cpu s)\<rparr>),
      op_flush_invalidate = (\<lambda>a n s. s\<lparr>ds_dev := store a (load (ds_cpu s) a n) (ds_dev s)\<rparr>)\<rparr>"

lemma cached_op_laws: "flush_law cached_op" "invalidate_law cached_op" "flush_local cached_op"
  by (simp_all add: flush_law_def invalidate_law_def flush_local_def cached_op_def) (simp add: store_def)

section \<open>DMA buffers\<close>



text \<open>
  A DMA array that is handed out lies below the DMA mask to its last byte, is aligned, and reads as zero; a handle
  that breaks one of the bounds is given back to the allocator and reported with the address that broke it.
\<close>

theorem dma_array_new_bounds:
  assumes "op_alloc_coherent Op dmask (n * tsize) (max align talign) s = (s1, Some h)"
    and "layout_from_size_align (n * tsize) (max align talign)" "n * tsize \<le> U64_MAX"
    and "\<And>a k t. ds_cpu (op_flush_invalidate Op a k t) = ds_cpu t"
  shows "(\<exists>s' d. array_new_zero_with_align Op dmask tsize talign n align direction s = (s', Ok d) \<and>
              mh_handle (dc_handle d) = h \<and> dc_direction d = direction \<and> dma_addr h mod h_align h = 0 \<and>
              dma_addr h \<le> dmask \<and> (0 < h_size h \<longrightarrow> dma_addr h + h_size h \<le> dmask + 1) \<and>
              load (ds_cpu s') (arr_ptr d) (arr_size d) = replicate (arr_size d) 0) \<or>
         (\<exists>e. array_new_zero_with_align Op dmask tsize talign n align direction s = (op_dealloc_coherent Op h s1, Err e) \<and>
              (e = DmaMaskNotMatch (dma_addr h) dmask \<or>
               e = AlignMismatch (h_align h) (dma_addr h) \<and> dma_addr h mod h_align h \<noteq> 0))"
proof (cases "check_handle dmask h")
  case (Ok u)
  have "dma_addr h mod h_align h = 0" "dma_addr h \<le> dmask" "0 < h_size h \<Longrightarrow> dma_addr h + h_size h \<le> dmask + 1"
    using Ok by (auto simp: check_handle_def Let_def checked_add_def saturating_sub_def split: if_splits option.splits)
  then show ?thesis using Ok assms
    by (simp add: array_new_zero_with_align_def dcommon_new_zero_def alloc_coherent_def Let_def load_write_bytes)
next
  case (Err e)
  have "e = DmaMaskNotMatch (dma_addr h) dmask \<or> e = AlignMismatch (h_align h) (dma_addr h) \<and> dma_addr h mod h_align h \<noteq> 0"
    using Err by (auto simp: check_handle_def Let_def split: if_splits)
  then show ?thesis using Err assms
    by (simp add: array_new_zero_with_align_def dcommon_new_zero_def alloc_coherent_def Let_def)
next
  case Panic
  then show ?thesis by (simp add: check_handle_def Let_def split: if_splits)
qed

theorem dma_array_new_bounds_witness:
  "\<exists>s' d. array_new_zero_with_align cached_op 4095 4 4 16 64 ToDevice \<lparr>ds_cpu = (\<lambda>_. 5), ds_dev = (\<lambda>_. 1), ds_heap = 128\<rparr> =
       (s', Ok d) \<and> arr_size d = 64 \<and> load (ds_cpu s') 128 64 = replicate 64 0"
proof -
  let ?s = "\<lparr>ds_cpu = (\<lambda>_. 5), ds_dev = (\<lambda>_. 1), ds_heap = 128\<rparr> :: nat dma_state"
    and ?s1 = "\<lparr>ds_cpu = (\<lambda>_. 5), ds_dev = (\<lambda>_. 1), ds_heap = 192\<rparr> :: nat dma_state"
    and ?h = "\<lparr>cpu_addr = 128, dma_addr = 128, h_size = 64, h_align = 64\<rparr>"
  have "is_power_of_two 64" by (auto simp: is_power_of_two_iff intro: exI [of _ 6])
  then have "op_alloc_coherent cached_op 4095 (16 * 4) (max 64 4) ?s = (?s1, Some ?h)"
    "layout_from_size_align (16 * 4) (max 64 4)" "(16::nat) * 4 \<le> U64_MAX"
    "\<And>a k t. ds_cpu (op_flush_invalidate cached_op a k t) = ds_cpu t"
    by (simp_all add: cached_op_def layout_from_size_align_def U64_MAX_def)
  from dma_array_new_bounds [OF this, of ToDevice] show ?thesis
    using \<open>is_power_of_two 64\<close>
    by (auto simp: array_new_zero_with_align_def dcommon_new_zero_def alloc_coherent_def check_handle_def cached_op_def
        checked_add_def saturating_sub_def U64_MAX_def Let_def layout_from_size_align_def)
qed

text \<open>
  When a mapping goes through a bounce buffer (\<open>map_alloc_virt\<close> is another address), \<open>confirm_write\<close> copies the
  data there but cleans the cache lines of the original buffer: the device, which reads the bounce buffer, does
  not see the write.
\<close>

theorem bounce_buffer_not_flushed:
  assumes "flush_local Op" "map_alloc_virt (sa_handle a) = Some virt" "sa_direction a = ToDevice"
    and "apart virt (sa_size a) (sa_ptr a) (sa_size a)" "length (concat src) = sa_size a"
  shows "\<exists>s'. sarray_copy_from_slice Op a src s = (s', Ok ()) \<and> load (ds_cpu s') virt (sa_size a) = concat src \<and>
           load (ds_dev s') virt (sa_size a) = load (ds_dev s) virt (sa_size a)"
proof -
  let ?n = "sa_size a"
  let ?s0 = "cpu_write (store (sa_ptr a) (concat src)) s"
  let ?s1 = "cpu_write (store virt (load (ds_cpu ?s0) (sa_ptr a) ?n)) ?s0"
  define s' where "s' = confirm_write Op (sa_handle a) 0 ?n ToDevice ?s0"
  have l: "load (ds_cpu ?s0) (sa_ptr a) ?n = concat src" using assms(5) by simp
  show ?thesis
  proof (cases "virt = sa_ptr a")
    case True
    then have "?n = 0" using assms(4) by (simp add: apart_def)
    then show ?thesis using assms(3,5) by (simp add: sarray_copy_from_slice_def load_def)
  next
    case False
    then have s': "s' = op_flush Op (sa_ptr a) ?n ?s1" using assms(2) by (simp add: s'_def confirm_write_def Let_def)
    have "load (ds_dev s') virt ?n = load (ds_dev ?s1) virt ?n"
      using assms(1,4) unfolding s' flush_local_def apart_def by (intro load_cong) auto
    moreover have "load (ds_cpu s') virt ?n = concat src"
      using assms(1,5) l unfolding s' flush_local_def by simp
    ultimately show ?thesis using assms(3,5) by (simp add: sarray_copy_from_slice_def s'_def)
  qed
qed

theorem bounce_buffer_not_flushed_witness:
  "\<exists>s'. sarray_copy_from_slice cached_op
     \<lparr>sa_handle = \<lparr>mh_handle = \<lparr>cpu_addr = 64, dma_addr = 512, h_size = 2, h_align = 1\<rparr>, map_alloc_virt = Some 512\<rparr>,
      sa_direction = ToDevice\<rparr> [[7], [9]] \<lparr>ds_cpu = (\<lambda>_. 0), ds_dev = (\<lambda>_. 1), ds_heap = 0\<rparr> = (s', Ok ()) \<and>
     load (ds_cpu s') 512 2 = [7, 9] \<and> load (ds_dev s') 512 2 = [1, 1]"
  using bounce_buffer_not_flushed [OF cached_op_laws(3), of
     "\<lparr>sa_handle = \<lparr>mh_handle = \<lparr>cpu_addr = 64, dma_addr = 512, h_size = 2, h_align = 1\<rparr>, map_alloc_virt = Some 512\<rparr>,
      sa_direction = ToDevice\<rparr>" 512 "[[7], [9]]" "\<lparr>ds_cpu = (\<lambda>_. 0), ds_dev = (\<lambda>_. 1), ds_heap = 0\<rparr>"]
  by (simp add: apart_def load_def upt_rec)

section \<open>Reading and writing blocks\<close>

text \<open>
  \<^bold>\<open>C25.\<close>  On a RAM disk, what \<open>write_blocks_blocking\<close> stores in a range of blocks is what a later
  \<open>read_blocks_blocking\<close> of that range returns, block by block and in order, each in a buffer of the queue's pool,
  whatever the blocks held before.
\<close>

theorem ramdisk_write_then_read:
  assumes "returns_ready spw" "returns_ready spr"
    and "cq_iface (fst st) = ram_iqueue qid disk" "ram_inv qid disk (bw_dev (snd st))" "0 < rd_block_size disk"
    and "length xs = rd_block_size disk * k" "start + k \<le> rd_num_blocks disk" "rd_num_blocks disk \<le> U64_MAX"
    and "next_req_id (bw_dev (snd st)) + 2 * k \<le> U64_MAX"
    and "pool_free (cq_pool (fst st)) = ds @ rest" "length ds = k" "buffers_apart (rd_block_size disk) ds"
  shows "\<exists>st1 st2 bs. write_blocks_blocking spw W start xs st = (st1, Ok (replicate k (Ok ()))) \<and>
           read_blocks_blocking spr Op W start k st1 = (st2, Ok (map Ok bs)) \<and>
           map bd_block_id bs = [start ..< start + k] \<and> map bd_data bs = ds \<and>
           concat (map (block_data_deref (snd st2)) bs) = xs"
  using assms by (intro ram.write_read_blocks [where qid = qid and disk = disk]) (simp_all add: ram_iqueue_def ram_budget_def)

text \<open>An executor that polls once, a disk of four blocks of two bytes, and a pool of two buffers.\<close>

definition poll_once :: "('s \<Rightarrow> 's \<times> (unit, 'v poll) result) \<Rightarrow> 's \<Rightarrow> 's \<times> (unit, 'v) result" where
  "poll_once p s = (case p s of (s', Ok (Ready v)) \<Rightarrow> (s', Ok v) | (s', _) \<Rightarrow> (s', Panic))"

lemma poll_once_ready: "returns_ready poll_once"
  by (simp add: returns_ready_def poll_once_def)

definition demo_disk :: ram_disk where
  "demo_disk = \<lparr>rd_block_size = 2, rd_num_blocks = 4\<rparr>"

definition demo_inner :: ram_inner where
  "demo_inner = \<lparr>storage = [0, 0, 1, 1, 2, 2, 3, 3], completed_reads = [], completed_writes = [], irq_rx = id_none,
     irq_enabled = True, next_req_id = 1, next_queue_id = 1\<rparr>"

definition demo_buffer :: "nat \<Rightarrow> dcommon" where
  "demo_buffer a = \<lparr>dc_handle = \<lparr>mh_handle = \<lparr>cpu_addr = a, dma_addr = a, h_size = 2, h_align = 1\<rparr>, map_alloc_virt = None\<rparr>,
     dc_direction = FromDevice\<rparr>"

definition demo_state :: "(ram_inner, nat, nat) cq_state" where
  "demo_state =
     (\<lparr>cq_iface = ram_iqueue 0 demo_disk, cq_waker = 0,
       cq_pool = \<lparr>pool_mask = 4095, pool_config = \<lparr>cfg_size = 2, cfg_align = 1, cfg_direction = FromDevice\<rparr>,
                  pool_free = [demo_buffer 64, demo_buffer 66]\<rparr>\<rparr>,
      \<lparr>bw_dev = demo_inner, bw_dma = \<lparr>ds_cpu = (\<lambda>_. 0), ds_dev = (\<lambda>_. 0), ds_heap = 128\<rparr>,
       bw_waker_map = [(0, 0)], bw_wakers = (\<lambda>_. 0), bw_fresh = 1\<rparr>)"

definition count_waker :: "nat waker_op" where
  "count_waker = \<lparr>aw_new = 0, aw_register = (\<lambda>w. w), aw_wake = Suc\<rparr>"

lemma ramdisk_new_demo: "ramdisk_new 2 4 = Ok (demo_disk, demo_inner\<lparr>next_queue_id := 0\<rparr>)"
  by (simp add: ramdisk_new_def demo_disk_def demo_inner_def ramdisk_storage_def upt_rec U64_MAX_def numeral_2_eq_2)

lemma demo_inv: "ram_inv 0 demo_disk demo_inner"
  by (simp add: ram_inv_def demo_disk_def demo_inner_def ram_finished_def U64_MAX_def)

theorem ramdisk_write_then_read_witness:
  "\<exists>st1 st2 bs. write_blocks_blocking poll_once count_waker 1 [7, 8, 9, 10] demo_state = (st1, Ok (replicate 2 (Ok ()))) \<and>
     read_blocks_blocking poll_once cached_op count_waker 1 2 st1 = (st2, Ok (map Ok bs)) \<and>
     map bd_block_id bs = [1, 2] \<and> concat (map (block_data_deref (snd st2)) bs) = [7, 8, 9, 10]"
proof -
  have st: "cq_iface (fst demo_state) = ram_iqueue 0 demo_disk" "bw_dev (snd demo_state) = demo_inner"
    "pool_free (cq_pool (fst demo_state)) = [demo_buffer 64, demo_buffer 66] @ []" by (simp_all add: demo_state_def)
  have "buffers_apart 2 [demo_buffer 64, demo_buffer 66]" by (simp add: buffers_apart_def demo_buffer_def apart_def)
  moreover have "rd_block_size demo_disk = 2" "rd_num_blocks demo_disk = 4" by (simp_all add: demo_disk_def)
  moreover have "next_req_id demo_inner + 2 * 2 \<le> U64_MAX" "4 \<le> U64_MAX" by (simp_all add: demo_inner_def U64_MAX_def)
  ultimately have "\<exists>st1 st2 bs.
      write_blocks_blocking poll_once count_waker 1 [7, 8, 9, 10] demo_state = (st1, Ok (replicate 2 (Ok ()))) \<and>
      read_blocks_blocking poll_once cached_op count_waker 1 2 st1 = (st2, Ok (map Ok bs)) \<and>
      map bd_block_id bs = [1 ..< 1 + 2] \<and> map bd_data bs = [demo_buffer 64, demo_buffer 66] \<and>
      concat (map (block_data_deref (snd st2)) bs) = [7, 8, 9, 10]"
    using st demo_inv
    by (intro ramdisk_write_then_read [OF poll_once_ready poll_once_ready, where qid = 0 and disk = demo_disk and rest = "[]"])
      simp_all
  moreover have "[1 ..< 1 + 2] = [1, 2::nat]" by (simp add: upt_rec)
  ultimately show ?thesis by metis
qed

text \<open>
  A read of a block past the end of a RAM disk returns \<open>InvalidBlockIndex\<close> for that block; the disk is
  unchanged and the buffer goes back to the pool.
\<close>

theorem ramdisk_read_past_end:
  assumes "returns_ready spin" "cq_iface (fst st) = ram_iqueue qid disk"
    and "rd_num_blocks disk \<le> blk" "blk < U64_MAX" "pool_free (cq_pool (fst st)) = d # ds"
  shows "\<exists>st'. read_blocks_blocking spin Op W blk 1 st = (st', Ok [Err (BlkInvalidBlockIndex blk)]) \<and>
           bw_dev (snd st') = bw_dev (snd st) \<and> pool_free (cq_pool (fst st')) = ds @ [d]"
proof -
  obtain q w where st: "st = (q, w)" by fastforce
  let ?q = "q\<lparr>cq_pool := dbuff_drop d (cq_pool q\<lparr>pool_free := ds\<rparr>)\<rparr>"
  let ?f = "(read_future_new [blk])\<lparr>rf_results := []\<rparr>"
  have q: "iq_submit (cq_iface q) rq (s, dma) = ((s, dma), Err (BlkInvalidBlockIndex blk))" if "rq_block_id rq = blk" for rq s dma
    using ram.bad_block [of qid disk rq s dma] assms(2,3) st that by (simp add: ram_iqueue_def)
  have "read_poll Op W (read_future_new [blk], st) = ((?f, ?q, w), Ok (Ready [Err (BlkInvalidBlockIndex blk)]))"
    using assms(5) st q
    by (simp add: read_poll_def read_future_new_def cq_alloc_def pool_alloc_def cq_submit_def cq_free_def
        bt_get_def bt_contains_key_def bt_remove_def)
  then have "spin (read_poll Op W) (read_future_new [blk], st) = ((?f, ?q, w), Ok [Err (BlkInvalidBlockIndex blk)])"
    by (rule returns_readyD [OF assms(1), of "read_poll Op W"])
  then show ?thesis using assms(4) st
    by (simp add: read_blocks_blocking_def read_future_drop_def read_future_new_def dbuff_drop_def)
qed

theorem ramdisk_read_past_end_witness:
  "\<exists>st'. read_blocks_blocking poll_once cached_op count_waker 4 1 demo_state = (st', Ok [Err (BlkInvalidBlockIndex 4)]) \<and>
     bw_dev (snd st') = demo_inner \<and> pool_free (cq_pool (fst st')) = [demo_buffer 66, demo_buffer 64]"
  using ramdisk_read_past_end [OF poll_once_ready, of demo_state 0 demo_disk 4 "demo_buffer 64" "[demo_buffer 66]"
      cached_op count_waker]
  by (simp add: demo_state_def demo_disk_def U64_MAX_def)

section \<open>Interrupts\<close>

text \<open>A waker that no other queue shares is woken once when its queue is in the event, and not otherwise.\<close>

lemma wake_queue_map [simp]: "bw_waker_map (wake_queue W q w) = bw_waker_map w"
  by (simp add: wake_queue_def split: option.split)

lemma fold_wake_queue_dev [simp]: "bw_dev (fold (wake_queue W) qs w) = bw_dev w"
  by (induction qs arbitrary: w) (simp_all add: wake_queue_def split: option.split)

lemma wake_queue_get:
  assumes "bt_get (bw_waker_map w) qid = Some k" "\<forall>q. q \<noteq> qid \<longrightarrow> bt_get (bw_waker_map w) q \<noteq> Some k"
  shows "bw_wakers (wake_queue W q w) k = (if q = qid then aw_wake W (bw_wakers w k) else bw_wakers w k)"
  using assms by (auto simp: wake_queue_def split: option.split)

lemma fold_wake_queue:
  assumes "bt_get (bw_waker_map w) qid = Some k" "\<forall>q. q \<noteq> qid \<longrightarrow> bt_get (bw_waker_map w) q \<noteq> Some k" "distinct qs"
  shows "bw_wakers (fold (wake_queue W) qs w) k = (if qid \<in> set qs then aw_wake W (bw_wakers w k) else bw_wakers w k)"
  using assms
proof (induction qs arbitrary: w)
  case (Cons q qs)
  have "bw_wakers (fold (wake_queue W) qs (wake_queue W q w)) k =
      (if qid \<in> set qs then aw_wake W (bw_wakers (wake_queue W q w) k) else bw_wakers (wake_queue W q w) k)"
    using Cons.prems by (intro Cons.IH) simp_all
  then show ?case using Cons.prems(3) wake_queue_get [OF Cons.prems(1,2)] by (cases "q = qid") simp_all
qed simp

lemma ram_submit_irq:
  assumes "ram_submit qid bs n rq (s, d) = ((s', d'), Ok r)"
  shows "irq_enabled s' = irq_enabled s \<and> qid < 64 \<and> bit (irq_rx s') qid"
proof -
  have ins: "id_insert l qid = Ok rx \<Longrightarrow> qid < 64 \<and> bit rx qid" for l rx
    by (auto simp: id_insert_def id_mask_def bit_or_iff bit_exp_iff split: if_splits)
  show ?thesis
  proof (cases "rq_kind rq")
    case ReadReq
    then show ?thesis using assms by (auto simp: ram_submit_def Let_def dest: ins split: if_splits result.splits)
  next
    case WriteReq
    then show ?thesis using assms by (auto simp: ram_submit_def Let_def dest: ins split: if_splits result.splits)
  qed
qed

text \<open>
  A request that a RAM disk accepts leads to a wake-up: the next interrupt wakes the waker that was registered
  for its queue exactly once, and a second interrupt with no new request wakes nobody.
\<close>

theorem submit_then_irq_wakes:
  assumes "cq_submit rq (q, w) = ((q, w1), Ok r)" "cq_iface q = ram_iqueue qid disk" "irq_enabled (bw_dev w)"
    and "bt_get (bw_waker_map w) qid = Some k" "\<forall>i. i \<noteq> qid \<longrightarrow> bt_get (bw_waker_map w) i \<noteq> Some k"
  shows "let w2 = blk_irq_handle W (ram_interface disk) w1
         in bw_wakers w2 k = aw_wake W (bw_wakers w k) \<and>
            bw_wakers (blk_irq_handle W (ram_interface disk) w2) = bw_wakers w2"
proof -
  obtain s d where s: "ram_submit qid (rd_block_size disk) (rd_num_blocks disk) rq (bw_dev w, bw_dma w) = ((s, d), Ok r)"
    "w1 = w\<lparr>bw_dev := s, bw_dma := d\<rparr>"
    using assms(1,2) by (auto simp: cq_submit_def ram_iqueue_def split: prod.splits)
  have irq: "irq_enabled s" "qid \<in> set (id_iter (irq_rx s))"
    using ram_submit_irq [OF s(1)] assms(3) by (simp_all add: set_id_iter)
  let ?w2 = "fold (wake_queue W) (id_iter (irq_rx s)) (w1\<lparr>bw_dev := s\<lparr>irq_rx := id_none\<rparr>\<rparr>)"
  have "distinct (id_iter (irq_rx s))" by (simp add: id_iter_def)
  then have "bw_wakers ?w2 k = aw_wake W (bw_wakers w k)"
    using assms(4,5) irq(2) by (subst fold_wake_queue [where qid = qid]) (simp_all add: s(2))
  moreover have "blk_irq_handle W (ram_interface disk) w1 = ?w2"
    using irq(1) by (simp add: blk_irq_handle_def ram_interface_def ram_handle_irq_def s(2))
  moreover have "id_iter id_none = []"
  proof -
    have "set (id_iter id_none) = {}" unfolding set_id_iter id_none_def by simp
    then show ?thesis by simp
  qed
  then have "bw_wakers (blk_irq_handle W (ram_interface disk) ?w2) = bw_wakers ?w2"
    using irq(1) by (simp add: blk_irq_handle_def ram_interface_def ram_handle_irq_def)
  ultimately show ?thesis by (simp add: Let_def)
qed

theorem submit_then_irq_wakes_witness:
  "let w1 = snd (fst (cq_submit (write_request 1 [7, 8]) demo_state)); w2 = blk_irq_handle count_waker (ram_interface demo_disk) w1
   in bw_wakers w2 0 = 1 \<and> bw_wakers (blk_irq_handle count_waker (ram_interface demo_disk) w2) = bw_wakers w2"
proof -
  have "\<exists>st r. cq_submit (write_request 1 [7, 8]) demo_state = (st, Ok r) \<and> fst st = fst demo_state"
    using ram.cq_write_ok [of demo_state 0 demo_disk 1 "[7, 8]"] demo_inv
    by (auto simp: demo_state_def demo_disk_def demo_inner_def ram_iqueue_def ram_budget_def U64_MAX_def cq_submit_def split: prod.splits)
  then obtain w1 r where w1: "cq_submit (write_request 1 [7, 8]) (fst demo_state, snd demo_state) = ((fst demo_state, w1), Ok r)"
    by (metis prod.collapse)
  have "let w2 = blk_irq_handle count_waker (ram_interface demo_disk) w1
        in bw_wakers w2 0 = aw_wake count_waker (bw_wakers (snd demo_state) 0) \<and>
           bw_wakers (blk_irq_handle count_waker (ram_interface demo_disk) w2) = bw_wakers w2"
    by (rule submit_then_irq_wakes [OF w1, where qid = 0])
      (auto simp: demo_state_def demo_inner_def bt_get_def split: if_splits)
  moreover have "aw_wake count_waker (bw_wakers (snd demo_state) 0) = 1" by (simp add: demo_state_def count_waker_def)
  moreover have "snd (fst (cq_submit (write_request 1 [7, 8]) demo_state)) = w1" using w1 by simp
  ultimately show ?thesis by (simp add: Let_def)
qed

text \<open>
  The set of queues that an interrupt reports has 64 bits, but queues are numbered without a bound: on the
  65th queue of a RAM disk every valid write stores its data and then panics, with the request in the completed list.
\<close>

theorem queue_past_64_panics:
  assumes "ram_inv 0 disk s" "next_req_id s < U64_MAX" "blk < rd_num_blocks disk" "length xs = rd_block_size disk"
    and "next_queue_id s = 64"
  shows "\<exists>s1 Q s2. ram_create_queue disk s = (s1, Ok (Some Q)) \<and> iq_submit Q (write_request blk xs) (s1, d) = ((s2, d), Panic) \<and>
           ram_block (rd_block_size disk) s2 blk = xs \<and> completed_writes s2 = completed_writes s @ [next_req_id s]"
proof -
  let ?bs = "rd_block_size disk" and ?n = "rd_num_blocks disk"
  let ?s2 = "s\<lparr>next_queue_id := 65, next_req_id := Suc (next_req_id s),
      storage := take (blk * ?bs) (storage s) @ xs @ drop (blk * ?bs + ?bs) (storage s),
      completed_writes := completed_writes s @ [next_req_id s]\<rparr>"
  have i: "?bs * ?n \<le> U64_MAX" "length (storage s) = ?bs * ?n" using assms(1) by (simp_all add: ram_inv_def)
  have r: "blk * ?bs + ?bs \<le> ?bs * ?n" by (rule block_in_range [OF assms(3)])
  have "ram_create_queue disk s = (s\<lparr>next_queue_id := 65\<rparr>, Ok (Some (ram_iqueue 64 disk)))"
    using assms(5) by (simp add: ram_create_queue_def U64_MAX_def)
  moreover have "iq_submit (ram_iqueue 64 disk) (write_request blk xs) (s\<lparr>next_queue_id := 65\<rparr>, d) = ((?s2, d), Panic)"
    using assms(2-4) r i(1) by (simp add: ram_iqueue_def ram_submit_def write_request_def Let_def id_insert_def id_mask_def)
  moreover have "ram_block ?bs ?s2 blk = xs" using block_replace [OF i(2) assms(3,4), of blk] by (simp add: ram_block_def)
  ultimately show ?thesis
    by (intro exI [of _ "s\<lparr>next_queue_id := 65\<rparr>"] exI [of _ "ram_iqueue 64 disk"] exI [of _ ?s2]) simp
qed

theorem queue_past_64_panics_witness:
  "\<exists>s1 Q s2. ram_create_queue demo_disk (demo_inner\<lparr>next_queue_id := 64\<rparr>) = (s1, Ok (Some Q)) \<and>
     iq_submit Q (write_request 3 [7, 8]) (s1, bw_dma (snd demo_state)) = ((s2, bw_dma (snd demo_state)), Panic) \<and>
     ram_block 2 s2 3 = [7, 8] \<and> completed_writes s2 = [1]"
  using queue_past_64_panics [of demo_disk "demo_inner\<lparr>next_queue_id := 64\<rparr>" 3 "[7, 8]" "bw_dma (snd demo_state)"]
  by (simp add: demo_disk_def demo_inner_def ram_inv_def ram_finished_def U64_MAX_def)

end
