(* ===== verification/Registers.thy ===== *)
theory Registers
  imports Prelude
begin

unbundle bit_operations_syntax

text \<open>
  The bit fields of the crate \<open>tock_registers\<close>, which the drivers use for their registers.  A field is given by its
  offset and its number of bits, as in the tables of the source.  \<open>tk_val\<close> is a field with a value, \<open>tk_modify\<close> replaces
  a field of a register value, \<open>tk_read\<close> extracts one.  The crate is a parameter; its documented behaviour is the
  predicate \<open>tock_law\<close>.
\<close>

record tock =
  tk_val :: "nat \<Rightarrow> nat \<Rightarrow> 32 word \<Rightarrow> 32 word"
  tk_modify :: "nat \<Rightarrow> nat \<Rightarrow> 32 word \<Rightarrow> 32 word \<Rightarrow> 32 word"
  tk_read :: "nat \<Rightarrow> nat \<Rightarrow> 64 word \<Rightarrow> 64 word"
  tk_val64 :: "nat \<Rightarrow> nat \<Rightarrow> 64 word \<Rightarrow> 64 word"
  tk_modify64 :: "nat \<Rightarrow> nat \<Rightarrow> 64 word \<Rightarrow> 64 word \<Rightarrow> 64 word"

definition field_mask :: "nat \<Rightarrow> nat \<Rightarrow> 'l::len word" where
  "field_mask off n = push_bit off (mask n)"

definition tock_law :: "tock \<Rightarrow> bool" where
  "tock_law T \<longleftrightarrow>
     (\<forall>off n v. tk_val T off n v = push_bit off (take_bit n v)) \<and>
     (\<forall>off n v r. tk_modify T off n v r = (r AND NOT (field_mask off n)) OR push_bit off (take_bit n v)) \<and>
     (\<forall>off n r. tk_read T off n r = take_bit n (drop_bit off r)) \<and>
     (\<forall>off n v. tk_val64 T off n v = push_bit off (take_bit n v)) \<and>
     (\<forall>off n v r. tk_modify64 T off n v r = (r AND NOT (field_mask off n)) OR push_bit off (take_bit n v))"

definition plain_tock :: tock where
  "plain_tock =
     \<lparr>tk_val = (\<lambda>off n v. push_bit off (take_bit n v)),
      tk_modify = (\<lambda>off n v r. (r AND NOT (field_mask off n)) OR push_bit off (take_bit n v)),
      tk_read = (\<lambda>off n v. take_bit n (drop_bit off v)),
      tk_val64 = (\<lambda>off n v. push_bit off (take_bit n v)),
      tk_modify64 = (\<lambda>off n v r. (r AND NOT (field_mask off n)) OR push_bit off (take_bit n v))\<rparr>"

lemma plain_tock_law: "tock_law plain_tock"
  by (simp add: tock_law_def plain_tock_def)

lemma bit_single: "bit (push_bit n (1 :: 'l::len word)) k \<longleftrightarrow> k = n \<and> n < LENGTH('l)"
  by (auto simp: bit_simps)

text \<open>A field of a 32-bit register.\<close>

definition tk_get :: "tock \<Rightarrow> nat \<Rightarrow> nat \<Rightarrow> 32 word \<Rightarrow> 32 word" where
  "tk_get T off n r = ucast (tk_read T off n (ucast r))"

lemma tk_get_law: "tock_law T \<Longrightarrow> tk_get T off n r = take_bit n (drop_bit off r)"
  by (rule bit_eqI) (auto simp: tk_get_def tock_law_def bit_simps dest: bit_imp_le_length)

lemma tk_val_law: "tock_law T \<Longrightarrow> tk_val T off n v = push_bit off (take_bit n v)"
  by (simp add: tock_law_def)

lemma tk_val64_law: "tock_law T \<Longrightarrow> tk_val64 T off n v = push_bit off (take_bit n v)"
  by (simp add: tock_law_def)

lemma tk_read_law: "tock_law T \<Longrightarrow> tk_read T off n r = take_bit n (drop_bit off r)"
  by (simp add: tock_law_def)

lemma tk_modify_law:
  "tock_law T \<Longrightarrow> tk_modify T off n v r = (r AND NOT (field_mask off n)) OR push_bit off (take_bit n v)"
  by (simp add: tock_law_def)

text \<open>Reading back a field, and a field that lies apart from the one that was set.\<close>

lemma field_same:
  "off + n \<le> LENGTH('l) \<Longrightarrow> take_bit n (drop_bit off (push_bit off (take_bit n v) :: 'l::len word)) = take_bit n v"
  by (rule bit_eqI) (auto simp: bit_simps dest: bit_imp_le_length)

lemma field_other:
  "off + n \<le> k \<or> k + m \<le> off \<Longrightarrow> take_bit m (drop_bit k (push_bit off (take_bit n v) :: 'l::len word)) = 0"
  by (rule bit_eqI) (auto simp: bit_simps)

lemma field_or: "take_bit n (drop_bit k (a OR b)) = take_bit n (drop_bit k a) OR take_bit n (drop_bit k (b :: 'l::len word))"
  by (rule bit_eqI) (auto simp: bit_simps)

lemma modify_same:
  "off + n \<le> 32 \<Longrightarrow> take_bit n (drop_bit off ((r AND NOT (field_mask off n)) OR push_bit off (take_bit n v) :: 32 word)) = take_bit n v"
  by (rule bit_eqI) (auto simp: bit_simps field_mask_def dest: bit_imp_le_length)

text \<open>The same on the level of the crate.\<close>

lemma get_val_same: "tock_law T \<Longrightarrow> off + n \<le> 32 \<Longrightarrow> tk_get T off n (tk_val T off n v) = take_bit n v"
  by (simp add: tk_get_law tk_val_law field_same)

lemma get_val_other: "tock_law T \<Longrightarrow> off + n \<le> k \<or> k + m \<le> off \<Longrightarrow> tk_get T k m (tk_val T off n v) = 0"
  by (simp only: tk_get_law tk_val_law field_other)

lemma get_or: "tock_law T \<Longrightarrow> tk_get T k m (a OR b) = tk_get T k m a OR tk_get T k m b"
  by (simp only: tk_get_law field_or)

lemma read_val_same: "tock_law T \<Longrightarrow> off + n \<le> 64 \<Longrightarrow> tk_read T off n (tk_val64 T off n v) = take_bit n v"
  by (simp add: tk_read_law tk_val64_law field_same)

lemma read_val_other: "tock_law T \<Longrightarrow> off + n \<le> k \<or> k + m \<le> off \<Longrightarrow> tk_read T k m (tk_val64 T off n v) = 0"
  by (simp only: tk_read_law tk_val64_law field_other)

lemma read_or: "tock_law T \<Longrightarrow> tk_read T k m (a OR b) = tk_read T k m a OR tk_read T k m b"
  by (simp only: tk_read_law field_or)

lemmas get_simps = get_val_same get_val_other get_or
lemmas read_simps = read_val_same read_val_other read_or

lemma take_bit_small: "v < 2 ^ n \<Longrightarrow> take_bit n (of_nat v) = (of_nat v :: 32 word)"
  by (simp add: take_bit_of_nat take_bit_nat_eq_self)

lemma tk_flag_bit: "tock_law T \<Longrightarrow> tk_get T off 1 v \<noteq> 0 \<longleftrightarrow> bit v off"
  by (simp add: tk_get_law take_bit_Suc_0 bit_iff_odd_drop_bit odd_iff_mod_2_eq_one)

end
