(* ===== verification/Nvme_Command.thy ===== *)
theory Nvme_Command
  imports Rdif_Block Registers
begin

unbundle bit_operations_syntax

text \<open>
  Commands of the NVMe driver: \<open>driver/block/nvme/src/command.rs\<close> and the first half of \<open>queue.rs\<close>.

  Registers and command words are machine words.  Structures that the driver hands to the device by
  \<open>transmute\<close> or reads back through a pointer are lists of bytes in little-endian order.
\<close>

datatype nvme_error = NvNoMemory | NvLayout | NvDma dma_error | NvUnknown string

fun nvme_error_of_dma :: "dma_error \<Rightarrow> nvme_error" where
  "nvme_error_of_dma DmaNoMemory = NvNoMemory"
| "nvme_error_of_dma LayoutError = NvLayout"
| "nvme_error_of_dma e = NvDma e"

text \<open>The error as the block layer sees it.\<close>

fun nvme_boxed :: "nvme_error \<Rightarrow> boxed_error" where
  "nvme_boxed NvNoMemory = BoxedDriver ''no memory available''"
| "nvme_boxed NvLayout = BoxedDriver ''invalid memory layout''"
| "nvme_boxed (NvDma e) = BoxedDma e"
| "nvme_boxed (NvUnknown m) = BoxedDriver m"

section \<open>Command identifiers\<close>

text \<open>\<open>ID_FACTORY\<close> is part of the state; the result is the identifier and the new value.\<close>

definition nvme_next_id :: "32 word \<Rightarrow> 32 word \<times> 32 word" where
  "nvme_next_id f = (if f = 0xFFFF then (0, 0) else (f, f + 1))"

section \<open>Opcodes and features\<close>

definition opcode_new :: "8 word \<Rightarrow> 8 word \<Rightarrow> 8 word \<Rightarrow> 8 word" where
  "opcode_new generic func data_transfer = push_bit 7 generic OR push_bit 2 func OR data_transfer"

definition CREATE_IO_SQ :: "8 word" where "CREATE_IO_SQ = opcode_new 0 0 1"
definition CREATE_IO_CQ :: "8 word" where "CREATE_IO_CQ = opcode_new 0 1 1"
definition IDENTIFY :: "8 word" where "IDENTIFY = opcode_new 0 1 2"
definition SET_FEATURES :: "8 word" where "SET_FEATURES = opcode_new 0 2 1"
definition NVM_WRITE :: "8 word" where "NVM_WRITE = opcode_new 0 0 1"
definition NVM_READ :: "8 word" where "NVM_READ = opcode_new 0 0 2"

datatype feature = NumberOfQueues (nsq: "32 word") (ncq: "32 word") | InterruptVectorConfiguration

fun to_cdw10 :: "feature \<Rightarrow> 32 word" where
  "to_cdw10 (NumberOfQueues sq cq) = 0x7"
| "to_cdw10 InterruptVectorConfiguration = 0x9"

section \<open>Command sets\<close>

record command_set =
  cdw0 :: "32 word"
  nsid :: "32 word"
  cdw2 :: "32 word \<times> 32 word"
  metadata :: "64 word"
  prp1 :: "64 word"
  prp2 :: "64 word"
  cdw10 :: "32 word"
  cdw11 :: "32 word"
  cdw12 :: "32 word"
  cdw13 :: "32 word"
  cdw14 :: "32 word"
  cdw15 :: "32 word"

definition command_default :: command_set where
  "command_default =
     \<lparr>cdw0 = 0, nsid = 0, cdw2 = (0, 0), metadata = 0, prp1 = 0, prp2 = 0, cdw10 = 0, cdw11 = 0, cdw12 = 0,
      cdw13 = 0, cdw14 = 0, cdw15 = 0\<rparr>"

definition cdw0_from_opcode :: "tock \<Rightarrow> 8 word \<Rightarrow> 32 word \<Rightarrow> 32 word \<times> 32 word" where
  "cdw0_from_opcode T opcode f = (case nvme_next_id f of (i, f') \<Rightarrow> (tk_val T 0 8 (ucast opcode) OR tk_val T 16 16 i, f'))"

definition set_features :: "tock \<Rightarrow> feature \<Rightarrow> 32 word \<Rightarrow> command_set \<times> 32 word" where
  "set_features T feat f =
     (case cdw0_from_opcode T SET_FEATURES f of (c, f') \<Rightarrow>
       (command_default\<lparr>cdw0 := c, cdw10 := to_cdw10 feat,
          cdw11 := (case feat of NumberOfQueues sq cq \<Rightarrow> sq OR push_bit 16 cq | InterruptVectorConfiguration \<Rightarrow> 0)\<rparr>, f'))"

text \<open>The subtraction \<open>size - 1\<close> on \<open>u32\<close> panics for 0.\<close>

definition create_io_completion_queue ::
  "tock \<Rightarrow> 32 word \<Rightarrow> 32 word \<Rightarrow> 64 word \<Rightarrow> bool \<Rightarrow> bool \<Rightarrow> 32 word \<Rightarrow> 32 word \<Rightarrow>
   32 word \<times> (nvme_error, command_set) result"
where
  "create_io_completion_queue T qid sz paddr physically_contiguous interrupts_enabled interrupt_vector f =
     (case cdw0_from_opcode T CREATE_IO_CQ f of (c, f') \<Rightarrow>
       if sz = 0 then (f', Panic)
       else (f', Ok (command_default\<lparr>cdw0 := c, prp1 := paddr,
              cdw10 := (qid AND 0xffff) OR push_bit 16 ((sz - 1) AND 0xffff),
              cdw11 := (if physically_contiguous then 1 else 0) OR (if interrupts_enabled then push_bit 1 1 else 0)
                       OR push_bit 16 interrupt_vector\<rparr>)))"

definition create_io_submission_queue ::
  "tock \<Rightarrow> 32 word \<Rightarrow> 32 word \<Rightarrow> 64 word \<Rightarrow> bool \<Rightarrow> 32 word \<Rightarrow> 32 word \<Rightarrow> 16 word \<Rightarrow> 32 word \<Rightarrow>
   32 word \<times> (nvme_error, command_set) result"
where
  "create_io_submission_queue T qid sz paddr physically_contiguous priority cqid nvm_set_id f =
     (case cdw0_from_opcode T CREATE_IO_SQ f of (c, f') \<Rightarrow>
       if sz = 0 then (f', Panic)
       else (f', Ok (command_default\<lparr>cdw0 := c, prp1 := paddr,
              cdw10 := (qid AND 0xffff) OR push_bit 16 ((sz - 1) AND 0xffff),
              cdw11 := (if physically_contiguous then 1 else 0) OR push_bit 1 priority OR push_bit 16 cqid,
              cdw12 := ucast nvm_set_id\<rparr>)))"

definition nvm_cmd :: "tock \<Rightarrow> 8 word \<Rightarrow> 32 word \<Rightarrow> 64 word \<Rightarrow> 64 word \<Rightarrow> 16 word \<Rightarrow> 32 word \<Rightarrow> command_set \<times> 32 word" where
  "nvm_cmd T opcode ns paddr starting_lba blk_num f =
     (case cdw0_from_opcode T opcode f of (c, f') \<Rightarrow>
       (command_default\<lparr>nsid := ns, cdw0 := c, prp1 := paddr,
          cdw10 := ucast (starting_lba AND 0xFFFFFFFF), cdw11 := ucast (drop_bit 32 starting_lba),
          cdw12 := ucast blk_num\<rparr>, f'))"

definition nvm_cmd_read :: "tock \<Rightarrow> 32 word \<Rightarrow> 64 word \<Rightarrow> 64 word \<Rightarrow> 16 word \<Rightarrow> 32 word \<Rightarrow> command_set \<times> 32 word" where
  "nvm_cmd_read T = nvm_cmd T NVM_READ"

definition nvm_cmd_write :: "tock \<Rightarrow> 32 word \<Rightarrow> 64 word \<Rightarrow> 64 word \<Rightarrow> 16 word \<Rightarrow> 32 word \<Rightarrow> command_set \<times> 32 word" where
  "nvm_cmd_write T = nvm_cmd T NVM_WRITE"

section \<open>Bytes\<close>

definition le_bytes :: "nat \<Rightarrow> nat \<Rightarrow> nat list" where
  "le_bytes n v = map (\<lambda>k. v div 256 ^ k mod 256) [0 ..< n]"

fun le_value :: "nat list \<Rightarrow> nat" where
  "le_value [] = 0"
| "le_value (b # bs) = b + 256 * le_value bs"

definition to_submission :: "command_set \<Rightarrow> nat list" where
  "to_submission c =
     le_bytes 4 (unat (cdw0 c)) @ le_bytes 4 (unat (nsid c)) @
     le_bytes 4 (unat (fst (cdw2 c))) @ le_bytes 4 (unat (snd (cdw2 c))) @
     le_bytes 8 (unat (metadata c)) @ le_bytes 8 (unat (prp1 c)) @ le_bytes 8 (unat (prp2 c)) @
     le_bytes 4 (unat (cdw10 c)) @ le_bytes 4 (unat (cdw11 c)) @ le_bytes 4 (unat (cdw12 c)) @
     le_bytes 4 (unat (cdw13 c)) @ le_bytes 4 (unat (cdw14 c)) @ le_bytes 4 (unat (cdw15 c))"

record nvme_completion =
  nc_result :: "64 word"
  sq_head :: "16 word"
  sq_id :: "16 word"
  command_id :: "16 word"
  nc_status :: "16 word"

definition completion_of_bytes :: "nat list \<Rightarrow> nvme_completion" where
  "completion_of_bytes bs =
     \<lparr>nc_result = of_nat (le_value (take 8 bs)), sq_head = of_nat (le_value (take 2 (drop 8 bs))),
      sq_id = of_nat (le_value (take 2 (drop 10 bs))), command_id = of_nat (le_value (take 2 (drop 12 bs))),
      nc_status = of_nat (le_value (take 2 (drop 14 bs)))\<rparr>"

definition completion_phase :: "nvme_completion \<Rightarrow> bool" where
  "completion_phase c = (nc_status c AND 1 > 0)"

definition is_success :: "nvme_completion \<Rightarrow> bool" where
  "is_success c = (nc_status c AND push_bit 1 1 = 0)"

section \<open>Identify structures\<close>

text \<open>The slice of \<open>u32\<close> over the bytes.\<close>

definition u32_at :: "nat list \<Rightarrow> nat \<Rightarrow> nat" where
  "u32_at bs i = le_value (take 4 (drop (4 * i) bs))"

record namespace_data =
  namespace_size :: nat
  namespace_capacity :: nat
  namespace_nused :: nat
  lba_size :: nat
  metadata_size :: nat

definition parse_namespace :: "nat list \<Rightarrow> (nvme_error, namespace_data option) result" where
  "parse_namespace bs =
     (if length bs div 4 = 0 then Panic
      else if u32_at bs 0 = 0 then Ok None
      else
        let field = bs ! 26; has_metadata = (field div 16 mod 2 = 1); idx = field mod 16;
            fmt = (if 0 < idx then (le_value (take 2 (drop (128 + 4 * idx) bs)), bs ! (128 + 4 * idx + 2)) else (0, 9))
        in if \<not> 2 ^ snd fmt < (2::nat) ^ 32 then Panic
           else Ok (Some \<lparr>namespace_size = u32_at bs 0, namespace_capacity = u32_at bs 1, namespace_nused = u32_at bs 2,
                         lba_size = 2 ^ snd fmt, metadata_size = (if has_metadata then bs ! 27 else fst fmt)\<rparr>))"

fun take_ids :: "nat list \<Rightarrow> nat list" where
  "take_ids [] = []"
| "take_ids (i # is) = (if i = 0 then [] else i # take_ids is)"

definition parse_namespace_list :: "nat list \<Rightarrow> nat list" where
  "parse_namespace_list bs = take_ids (map (u32_at bs) [0 ..< length bs div 4])"

record controller_info =
  vendor_id :: nat
  product_id :: nat
  sqes_max :: nat
  sqes_min :: nat
  cqes_max :: nat
  cqes_min :: nat
  max_cmd :: nat
  number_of_namespaces :: nat

definition parse_controller :: "nat list \<Rightarrow> controller_info" where
  "parse_controller bs =
     \<lparr>vendor_id = le_value (take 2 bs), product_id = le_value (take 2 (drop 2 bs)),
      sqes_max = bs ! 512 div 16, sqes_min = bs ! 512 mod 16, cqes_max = bs ! 513 div 16, cqes_min = bs ! 513 mod 16,
      max_cmd = le_value (take 2 (drop 514 bs)), number_of_namespaces = le_value (take 4 (drop 516 bs))\<rparr>"

section \<open>Lemmas\<close>

lemma length_le_bytes [simp]: "length (le_bytes n v) = n"
  by (simp add: le_bytes_def)

lemma length_to_submission [simp]: "length (to_submission c) = 64"
  by (simp add: to_submission_def)

lemma le_bytes_Suc: "le_bytes (Suc n) v = v mod 256 # le_bytes n (v div 256)"
  by (simp add: le_bytes_def upt_conv_Cons map_Suc_upt [symmetric] del: upt_Suc map_Suc_upt) (simp add: div_mult2_eq)

lemma le_value_bytes: "v < 256 ^ n \<Longrightarrow> le_value (le_bytes n v) = v"
proof (induction n arbitrary: v)
  case (Suc n)
  have "v div 256 < 256 ^ n" using Suc.prems by (simp add: less_mult_imp_div_less mult.commute)
  then show ?case using Suc.IH by (simp add: le_bytes_Suc)
qed (simp add: le_bytes_def)

lemma le_value_word4 [simp]: "le_value (le_bytes 4 (unat (w :: 32 word))) = unat w"
  using unsigned_less [of w] by (intro le_value_bytes) simp

lemma le_value_word8 [simp]: "le_value (le_bytes 8 (unat (w :: 64 word))) = unat w"
  using unsigned_less [of w] by (intro le_value_bytes) simp

lemma take_ids_append: "0 \<notin> set is \<Longrightarrow> take_ids (is @ 0 # js) = is"
  by (induction "is") auto

lemma take_ids_all: "0 \<notin> set is \<Longrightarrow> take_ids is = is"
  by (induction "is") auto

lemma u32_at_concat:
  "i < length ws \<Longrightarrow> u32_at (concat (map (le_bytes 4) ws)) i = le_value (le_bytes 4 (ws ! i))"
proof (induction ws arbitrary: i)
  case (Cons w ws)
  then show ?case by (cases i) (simp_all add: u32_at_def)
qed simp

lemma length_concat_u32 [simp]: "length (concat (map (le_bytes 4) ws)) = 4 * length ws"
  by (induction ws) simp_all

end
