(* ===== verification/Nvme_Queue.thy ===== *)
theory Nvme_Queue
  imports Nvme_Command
begin

unbundle bit_operations_syntax

text \<open>
  The queue pairs of the NVMe driver, \<open>driver/block/nvme/src/queue.rs\<close>, with the registers of \<open>registers.rs\<close>.

  The controller is hardware: its state is a parameter type, reading a register is \<open>ne_get\<close>, writing one is
  \<open>ne_set\<close>, and \<open>ne_run\<close> is what it does while the processor spins once.  Both see the device view
  of memory.  A loop that waits for the controller is a partial function: \<open>None\<close> is a call that never returns.
\<close>

record ('h, 'a) nvme_env =
  ne_tock :: tock
  ne_dma :: "'a dma_op"
  ne_mask :: nat
  ne_get :: "nat \<Rightarrow> 'h \<Rightarrow> 64 word"
  ne_set :: "nat \<Rightarrow> 64 word \<Rightarrow> 'h \<times> 'a dma_state \<Rightarrow> 'h \<times> 'a dma_state"
  ne_run :: "'h \<times> 'a dma_state \<Rightarrow> 'h \<times> 'a dma_state"

record ('h, 'a) nvme_sys =
  ns_hw :: 'h
  ns_dma :: "'a dma_state"
  id_factory :: "32 word"

text \<open>A memory operation, a register write and a turn of the controller on the whole state.\<close>

definition on_dma :: "('a dma_state \<Rightarrow> 'a dma_state \<times> 'r) \<Rightarrow> ('h, 'a) nvme_sys \<Rightarrow> ('h, 'a) nvme_sys \<times> 'r" where
  "on_dma f s = (case f (ns_dma s) of (d, r) \<Rightarrow> (s\<lparr>ns_dma := d\<rparr>, r))"

definition reg_write :: "('h, 'a) nvme_env \<Rightarrow> nat \<Rightarrow> 64 word \<Rightarrow> ('h, 'a) nvme_sys \<Rightarrow> ('h, 'a) nvme_sys" where
  "reg_write E off v s = (case ne_set E off v (ns_hw s, ns_dma s) of (h, d) \<Rightarrow> s\<lparr>ns_hw := h, ns_dma := d\<rparr>)"

definition spin_turn :: "('h, 'a) nvme_env \<Rightarrow> ('h, 'a) nvme_sys \<Rightarrow> ('h, 'a) nvme_sys" where
  "spin_turn E s = (case ne_run E (ns_hw s, ns_dma s) of (h, d) \<Rightarrow> s\<lparr>ns_hw := h, ns_dma := d\<rparr>)"

text \<open>Sequencing of calls that need not return.\<close>

definition then_opt ::
  "('s \<times> ('e, 'a) result) option \<Rightarrow> ('a \<Rightarrow> 's \<Rightarrow> ('s \<times> ('e, 'b) result) option) \<Rightarrow> ('s \<times> ('e, 'b) result) option"
where
  "then_opt m k =
     (case m of
        None \<Rightarrow> None
      | Some (s, Ok x) \<Rightarrow> k x s
      | Some (s, Err e) \<Rightarrow> Some (s, Err e)
      | Some (s, Panic) \<Rightarrow> Some (s, Panic))"

lemma then_opt_simps [simp]:
  "then_opt None k = None" "then_opt (Some (s, Ok x)) k = k x s"
  "then_opt (Some (s, Err e)) k = Some (s, Err e)" "then_opt (Some (s, Panic)) k = Some (s, Panic)"
  by (simp_all add: then_opt_def)

lemma then_opt_eq_Ok [result_simps]:
  "then_opt m k = Some (s, Ok y) \<longleftrightarrow> (\<exists>s' x. m = Some (s', Ok x) \<and> k x s' = Some (s, Ok y))"
  by (auto simp: then_opt_def split: option.splits result.splits prod.splits)

definition map_err :: "('e \<Rightarrow> 'f) \<Rightarrow> 's \<times> ('e, 'a) result \<Rightarrow> 's \<times> ('f, 'a) result" where
  "map_err f m = (fst m, case snd m of Ok x \<Rightarrow> Ok x | Err e \<Rightarrow> Err (f e) | Panic \<Rightarrow> Panic)"

section \<open>Registers\<close>

definition doorbell_stride :: "('h, 'a) nvme_env \<Rightarrow> ('h, 'a) nvme_sys \<Rightarrow> nat" where
  "doorbell_stride E s = unat (tk_read (ne_tock E) 32 4 (ne_get E 0 (ns_hw s)))"

definition sq_doorbell :: "nat \<Rightarrow> nat \<Rightarrow> nat" where
  "sq_doorbell dstrd y = 0x1000 + 2 * y * (4 * 2 ^ dstrd)"

definition cq_doorbell :: "nat \<Rightarrow> nat \<Rightarrow> nat" where
  "cq_doorbell dstrd y = 0x1000 + (2 * y + 1) * (4 * 2 ^ dstrd)"

definition write_sq_y_tail_doorbell :: "('h, 'a) nvme_env \<Rightarrow> nat \<Rightarrow> nat \<Rightarrow> ('h, 'a) nvme_sys \<Rightarrow> ('h, 'a) nvme_sys" where
  "write_sq_y_tail_doorbell E y tail s = reg_write E (sq_doorbell (doorbell_stride E s) y) (of_nat tail) s"

definition write_cq_y_head_doorbell :: "('h, 'a) nvme_env \<Rightarrow> nat \<Rightarrow> nat \<Rightarrow> ('h, 'a) nvme_sys \<Rightarrow> ('h, 'a) nvme_sys" where
  "write_cq_y_head_doorbell E y h s = reg_write E (cq_doorbell (doorbell_stride E s) y) (of_nat h) s"

section \<open>Submission queue\<close>

record submit_queue =
  sq_queue :: dcommon
  sq_tail :: nat

record complete_queue =
  cq_queue :: dcommon
  cq_head :: nat
  cq_phase :: bool

abbreviation sq_len :: "submit_queue \<Rightarrow> nat" where
  "sq_len q \<equiv> arr_size (sq_queue q) div 64"

abbreviation cq_len :: "complete_queue \<Rightarrow> nat" where
  "cq_len q \<equiv> arr_size (cq_queue q) div 16"

definition submit_queue_new ::
  "('h, 'a) nvme_env \<Rightarrow> nat \<Rightarrow> nat \<Rightarrow> ('h, 'a) nvme_sys \<Rightarrow> ('h, 'a) nvme_sys \<times> (nvme_error, submit_queue) result"
where
  "submit_queue_new E queue_size page_sz s =
     and_then (map_err nvme_error_of_dma
         (on_dma (array_new_zero_with_align (ne_dma E) (ne_mask E) 64 1 queue_size page_sz ToDevice) s)) (\<lambda>q s.
       (s, Ok \<lparr>sq_queue = q, sq_tail = 0\<rparr>))"

text \<open>Lengths are compared after a cast to \<open>u32\<close>.\<close>

definition sq_submit ::
  "('h, 'a) nvme_env \<Rightarrow> command_set \<Rightarrow> submit_queue \<times> ('h, 'a) nvme_sys \<Rightarrow>
   (submit_queue \<times> ('h, 'a) nvme_sys) \<times> (nvme_error, nat) result"
where
  "sq_submit E cmd qs =
     (case qs of (q, s) \<Rightarrow>
      case on_dma (array_set (ne_dma E) 64 (sq_queue q) (sq_tail q) (to_submission cmd)) s of
        (s1, Ok _) \<Rightarrow>
          if \<not> sq_tail q + 1 < 2 ^ 32 then ((q, s1), Panic)
          else
            let t = (if sq_len q mod 2 ^ 32 \<le> sq_tail q + 1 then 0 else sq_tail q + 1)
            in ((q\<lparr>sq_tail := t\<rparr>, s1), Ok t)
      | (s1, _) \<Rightarrow> ((q, s1), Panic))"

section \<open>Completion queue\<close>

definition complete_queue_new ::
  "('h, 'a) nvme_env \<Rightarrow> nat \<Rightarrow> nat \<Rightarrow> ('h, 'a) nvme_sys \<Rightarrow> ('h, 'a) nvme_sys \<times> (nvme_error, complete_queue) result"
where
  "complete_queue_new E queue_size page_sz s =
     and_then (map_err nvme_error_of_dma
         (on_dma (array_new_zero_with_align (ne_dma E) (ne_mask E) 16 8 queue_size page_sz FromDevice) s)) (\<lambda>q s.
       (s, Ok \<lparr>cq_queue = q, cq_head = 0, cq_phase = False\<rparr>))"

definition cq_complete ::
  "('h, 'a) nvme_env \<Rightarrow> complete_queue \<Rightarrow> ('h, 'a) nvme_sys \<Rightarrow>
   ('h, 'a) nvme_sys \<times> (unit, nvme_completion option) result"
where
  "cq_complete E q s =
     and_then (on_dma (array_read (ne_dma E) 16 (cq_queue q) (cq_head q)) s) (\<lambda>v s.
       case v of
         None \<Rightarrow> (s, Ok None)
       | Some bs \<Rightarrow>
           let cqe = completion_of_bytes bs
           in (s, Ok (if completion_phase cqe \<noteq> cq_phase q then Some cqe else None)))"

text \<open>Moving the head; the phase that is expected changes at the end of the ring.\<close>

definition cq_advance :: "complete_queue \<Rightarrow> (nvme_error, complete_queue) result" where
  "cq_advance q =
     (if \<not> cq_head q + 1 < 2 ^ 32 then Panic
      else if cq_len q mod 2 ^ 32 \<le> cq_head q + 1 then Ok (q\<lparr>cq_head := 0, cq_phase := \<not> cq_phase q\<rparr>)
      else Ok (q\<lparr>cq_head := cq_head q + 1\<rparr>))"

partial_function (option) spin_for_complete ::
  "('h, 'a) nvme_env \<Rightarrow> complete_queue \<times> ('h, 'a) nvme_sys \<Rightarrow>
   ((complete_queue \<times> ('h, 'a) nvme_sys) \<times> (nvme_error, nvme_completion) result) option"
where
  "spin_for_complete E qs =
     (case qs of (q, s) \<Rightarrow>
      case cq_complete E q s of
        (s1, Ok (Some e)) \<Rightarrow>
          (case cq_advance q of
             Ok q1 \<Rightarrow> Some ((q1, s1), Ok e)
           | _ \<Rightarrow> Some ((q, s1), Panic))
      | (s1, Ok None) \<Rightarrow> spin_for_complete E (q, spin_turn E s1)
      | (s1, _) \<Rightarrow> Some ((q, s1), Panic))"

section \<open>Queue pairs\<close>

record nvme_queue =
  nq_qid :: nat
  nq_sq :: submit_queue
  nq_cq :: complete_queue

definition nvme_queue_new ::
  "('h, 'a) nvme_env \<Rightarrow> nat \<Rightarrow> nat \<Rightarrow> nat \<Rightarrow> nat \<Rightarrow> ('h, 'a) nvme_sys \<Rightarrow>
   ('h, 'a) nvme_sys \<times> (nvme_error, nvme_queue) result"
where
  "nvme_queue_new E qid page_sz sq cq s =
     and_then (submit_queue_new E sq page_sz s) (\<lambda>submit_queue s.
       case complete_queue_new E cq page_sz s of
         (s, Ok complete_queue) \<Rightarrow> (s, Ok \<lparr>nq_qid = qid, nq_sq = submit_queue, nq_cq = complete_queue\<rparr>)
       | (s, Err e) \<Rightarrow> (s\<lparr>ns_dma := dcommon_drop (ne_dma E) (sq_queue submit_queue) (ns_dma s)\<rparr>, Err e)
       | (s, Panic) \<Rightarrow> (s, Panic))"

definition submit_admin_data ::
  "('h, 'a) nvme_env \<Rightarrow> command_set \<Rightarrow> nvme_queue \<times> ('h, 'a) nvme_sys \<Rightarrow>
   (nvme_queue \<times> ('h, 'a) nvme_sys) \<times> (nvme_error, unit) result"
where
  "submit_admin_data E cmd qs =
     (case qs of (q, s) \<Rightarrow>
      case sq_submit E cmd (nq_sq q, s) of
        ((sq, s1), Ok tail) \<Rightarrow> ((q\<lparr>nq_sq := sq\<rparr>, write_sq_y_tail_doorbell E (nq_qid q) tail s1), Ok ())
      | ((sq, s1), Err e) \<Rightarrow> ((q\<lparr>nq_sq := sq\<rparr>, s1), Err e)
      | ((sq, s1), Panic) \<Rightarrow> ((q\<lparr>nq_sq := sq\<rparr>, s1), Panic))"

definition command_sync ::
  "('h, 'a) nvme_env \<Rightarrow> command_set \<Rightarrow> nvme_queue \<times> ('h, 'a) nvme_sys \<Rightarrow>
   ((nvme_queue \<times> ('h, 'a) nvme_sys) \<times> (nvme_error, unit) result) option"
where
  "command_sync E cmd qs =
     then_opt (Some (submit_admin_data E cmd qs)) (\<lambda>_ (q, s).
       case spin_for_complete E (nq_cq q, s) of
         None \<Rightarrow> None
       | Some ((cq, s1), Ok complete) \<Rightarrow>
           Some ((q\<lparr>nq_cq := cq\<rparr>, write_cq_y_head_doorbell E (nq_qid q) (cq_head cq) s1),
                 if is_success complete then Ok () else Err (NvUnknown ''send command failed''))
       | Some ((cq, s1), Err e) \<Rightarrow> Some ((q\<lparr>nq_cq := cq\<rparr>, s1), Err e)
       | Some ((cq, s1), Panic) \<Rightarrow> Some ((q\<lparr>nq_cq := cq\<rparr>, s1), Panic))"

end
