(* ===== verification/Nvme_Ring.thy ===== *)
theory Nvme_Ring
  imports Nvme_Queue
begin

text \<open>
  The circular queues of the NVMe driver as sequences.  The \<open>k\<close>-th completion of a queue with \<open>L\<close> entries lies in
  entry \<open>k mod L\<close>, and its phase bit is set in the even rounds.  A driver that has consumed \<open>n\<close> completions is at
  entry \<open>n mod L\<close> and expects the phase of round \<open>n div L\<close>; the comparison of phases is then the
  comparison of the two counters.
\<close>

section \<open>The phase bit\<close>

definition ring_phase :: "nat \<Rightarrow> nat \<Rightarrow> nat \<Rightarrow> bool" where
  "ring_phase L cnt j = odd ((cnt + L - 1 - j) div L)"

lemma ring_phase_new:
  assumes "0 < L" "n \<le> cnt" "cnt \<le> n + L"
  shows "ring_phase L cnt (n mod L) \<noteq> odd (n div L) \<longleftrightarrow> n < cnt"
proof -
  obtain m where m: "cnt = n + m" "m \<le> L" using assms(2,3) by (metis add_le_cancel_left le_Suc_ex)
  have "n = n div L * L + n mod L" by simp
  then have "cnt + L - 1 - n mod L = n div L * L + (m + L - 1)" using assms(1) m(1) by linarith
  moreover have "(n div L * L + x) div L = n div L + x div L" for x using assms(1) by simp
  ultimately have eq: "(cnt + L - 1 - n mod L) div L = n div L + (m + L - 1) div L" by simp
  show ?thesis
  proof (cases "m = 0")
    case True
    then have "(m + L - 1) div L = 0" using assms(1) by simp
    then show ?thesis using eq m(1) True by (simp add: ring_phase_def)
  next
    case False
    then have "(m + L - 1) div L = 1" using m(2) assms(1) by (intro div_nat_eqI) simp_all
    then show ?thesis using eq m(1) False by (simp add: ring_phase_def)
  qed
qed

lemma ring_phase_zero: "j < L \<Longrightarrow> \<not> ring_phase L 0 j"
  by (simp add: ring_phase_def)

lemma ring_phase_Suc:
  assumes "j < L"
  shows "ring_phase L (Suc k) j = (if j = k mod L then even (k div L) else ring_phase L k j)"
proof (cases "j = k mod L")
  case True
  have "ring_phase L (Suc k) (k mod L) \<noteq> odd (k div L)" using ring_phase_new [of L k "Suc k"] assms by simp
  then show ?thesis using True by simp
next
  case False
  have "(Suc k + L - 1 - j) = Suc (k + L - 1 - j)" using assms by simp
  moreover have "Suc (k + L - 1 - j) mod L \<noteq> 0"
  proof
    assume "Suc (k + L - 1 - j) mod L = 0"
    moreover have "Suc (k + L - 1 - j) = k + L - j" using assms by simp
    ultimately have "L dvd k + L - j" by (simp add: dvd_eq_mod_eq_0)
    then obtain c where "k + L - j = L * c" by (elim dvdE)
    then have "k + L = L * c + j" using assms by linarith
    then have "(k + L) mod L = j" using assms by simp
    then show False using False by simp
  qed
  ultimately have "(Suc k + L - 1 - j) div L = (k + L - 1 - j) div L" by (simp add: div_Suc)
  then show ?thesis using False by (simp add: ring_phase_def)
qed

section \<open>Positions\<close>

definition plain_array :: "dma_direction \<Rightarrow> dcommon \<Rightarrow> bool" where
  "plain_array dir d \<longleftrightarrow> map_alloc_virt (dc_handle d) = None \<and> dc_direction d = dir"

definition sq_at :: "nat \<Rightarrow> submit_queue \<Rightarrow> bool" where
  "sq_at n q \<longleftrightarrow> plain_array ToDevice (sq_queue q) \<and> 0 < sq_len q \<and> sq_len q < 2 ^ 32 \<and> sq_tail q = n mod sq_len q"

definition cq_at :: "nat \<Rightarrow> complete_queue \<Rightarrow> bool" where
  "cq_at n q \<longleftrightarrow> plain_array FromDevice (cq_queue q) \<and> 0 < cq_len q \<and> cq_len q < 2 ^ 32 \<and>
     cq_head q = n mod cq_len q \<and> cq_phase q = odd (n div cq_len q)"

definition cq_slot :: "complete_queue \<Rightarrow> bytes \<Rightarrow> nat \<Rightarrow> nvme_completion" where
  "cq_slot q m j = completion_of_bytes (load m (arr_ptr (cq_queue q) + j * 16) 16)"

text \<open>The memory of the device shows that \<open>cnt\<close> completions were posted.\<close>

definition ring_view :: "complete_queue \<Rightarrow> bytes \<Rightarrow> nat \<Rightarrow> bool" where
  "ring_view q m cnt \<longleftrightarrow> (\<forall>j < cq_len q. completion_phase (cq_slot q m j) = ring_phase (cq_len q) cnt j)"

lemma cq_complete_ring:
  assumes "invalidate_law (ne_dma E)" "cq_at n q" "ring_view q (ds_dev (ns_dma s)) cnt" "n \<le> cnt" "cnt \<le> n + cq_len q"
  shows "\<exists>s'. cq_complete E q s =
           (s', Ok (if n < cnt then Some (cq_slot q (ds_dev (ns_dma s)) (n mod cq_len q)) else None)) \<and>
           ns_hw s' = ns_hw s \<and> ds_dev (ns_dma s') = ds_dev (ns_dma s)"
proof -
  let ?L = "cq_len q" and ?m = "ds_dev (ns_dma s)"
  have at: "plain_array FromDevice (cq_queue q)" "0 < ?L" "cq_head q = n mod ?L" "cq_phase q = odd (n div ?L)"
    using assms(2) by (simp_all add: cq_at_def)
  let ?d = "op_invalidate (ne_dma E) (arr_ptr (cq_queue q) + n mod ?L * 16) 16 (ns_dma s)"
  have law: "ds_dev ?d = ?m" "load (ds_cpu ?d) (arr_ptr (cq_queue q) + n mod ?L * 16) 16 =
      load ?m (arr_ptr (cq_queue q) + n mod ?L * 16) 16"
    using assms(1) by (simp_all add: invalidate_law_def)
  have lt: "n mod ?L < ?L" using at(2) by simp
  have "array_read (ne_dma E) 16 (cq_queue q) (cq_head q) (ns_dma s) =
      (?d, Ok (Some (load ?m (arr_ptr (cq_queue q) + n mod ?L * 16) 16)))"
    using at(1,3) lt law(2) by (simp add: array_read_def array_len_def prepare_read_def plain_array_def Let_def not_le)
  moreover have "completion_phase (cq_slot q ?m (n mod ?L)) \<noteq> cq_phase q \<longleftrightarrow> n < cnt"
    using assms(3) lt ring_phase_new [OF at(2) assms(4,5)] by (simp add: ring_view_def at(4))
  ultimately show ?thesis using law(1)
    by (intro exI [of _ "s\<lparr>ns_dma := ?d\<rparr>"]) (simp add: cq_complete_def on_dma_def cq_slot_def Let_def)
qed

lemma cq_advance_at:
  assumes "cq_at n q"
  shows "\<exists>q'. cq_advance q = Ok q' \<and> cq_at (Suc n) q' \<and> cq_queue q' = cq_queue q"
proof (cases "Suc (n mod cq_len q) = cq_len q")
  case True
  then have "Suc n mod cq_len q = 0" "Suc n div cq_len q = Suc (n div cq_len q)" by (simp_all add: mod_Suc div_Suc)
  then show ?thesis using assms True by (auto simp: cq_advance_def cq_at_def)
next
  case False
  have "n mod cq_len q < cq_len q" using assms by (simp add: cq_at_def)
  then have "\<not> cq_len q \<le> n mod cq_len q + 1" using False by simp
  moreover have "Suc n mod cq_len q = Suc (n mod cq_len q)" "Suc n div cq_len q = n div cq_len q"
    using False by (simp_all add: mod_Suc div_Suc)
  ultimately show ?thesis using assms by (auto simp: cq_advance_def cq_at_def)
qed

section \<open>A controller that serves a queue pair\<close>

text \<open>
  What the driver needs of the controller: it is idle until the tail doorbell of the queue is written, then busy, and while
  it is busy each turn brings it nearer to posting the next completion.  Its knowledge of the
  completion ring depends on the ring's memory only, and the head doorbell leaves it idle.
\<close>

definition hw_stride :: "('h, 'a) nvme_env \<Rightarrow> 'h \<Rightarrow> nat" where
  "hw_stride E h = unat (tk_read (ne_tock E) 32 4 (ne_get E 0 h))"

definition cq_bytes :: "nvme_queue \<Rightarrow> bytes \<Rightarrow> nat list" where
  "cq_bytes q m = load m (arr_ptr (cq_queue (nq_cq q))) (arr_size (cq_queue (nq_cq q)))"

definition serves ::
  "('h, 'a) nvme_env \<Rightarrow> nvme_queue \<Rightarrow> ('h \<Rightarrow> bytes \<Rightarrow> nat \<Rightarrow> bool) \<Rightarrow> ('h \<Rightarrow> bytes \<Rightarrow> nat \<Rightarrow> bool) \<Rightarrow> ('h \<Rightarrow> nat) \<Rightarrow> bool"
where
  "serves E q idle busy lag \<longleftrightarrow>
     (\<forall>h m m' k. idle h m k \<longrightarrow> cq_bytes q m' = cq_bytes q m \<longrightarrow> idle h m' k) \<and>
     (\<forall>h m k. idle h m k \<or> busy h m k \<longrightarrow> ring_view (nq_cq q) m k) \<and>
     (\<forall>h d k t. idle h (ds_dev d) k \<longrightarrow>
        (case ne_set E (sq_doorbell (hw_stride E h) (nq_qid q)) t (h, d) of (h', d') \<Rightarrow> busy h' (ds_dev d') k)) \<and>
     (\<forall>h d k. busy h (ds_dev d) k \<longrightarrow>
        (case ne_run E (h, d) of (h', d') \<Rightarrow> busy h' (ds_dev d') k \<and> lag h' < lag h \<or> idle h' (ds_dev d') (Suc k))) \<and>
     (\<forall>h d k t. idle h (ds_dev d) k \<longrightarrow>
        (case ne_set E (cq_doorbell (hw_stride E h) (nq_qid q)) t (h, d) of (h', d') \<Rightarrow>
           idle h' (ds_dev d') k \<and> cq_bytes q (ds_dev d') = cq_bytes q (ds_dev d)))"

lemma serves_frame: "serves E q idle busy lag \<Longrightarrow> idle h m k \<Longrightarrow> cq_bytes q m' = cq_bytes q m \<Longrightarrow> idle h m' k"
  unfolding serves_def by blast

lemma serves_view: "serves E q idle busy lag \<Longrightarrow> idle h m k \<or> busy h m k \<Longrightarrow> ring_view (nq_cq q) m k"
  unfolding serves_def by blast

lemma serves_submit:
  assumes "serves E q idle busy lag" "idle (ns_hw s) (ds_dev (ns_dma s)) k" "s' = write_sq_y_tail_doorbell E (nq_qid q) t s"
  shows "busy (ns_hw s') (ds_dev (ns_dma s')) k"
proof -
  obtain h d where hd: "ne_set E (sq_doorbell (hw_stride E (ns_hw s)) (nq_qid q)) (of_nat t) (ns_hw s, ns_dma s) = (h, d)" by fastforce
  have "case ne_set E (sq_doorbell (hw_stride E (ns_hw s)) (nq_qid q)) (of_nat t) (ns_hw s, ns_dma s) of (h', d') \<Rightarrow> busy h' (ds_dev d') k"
    using assms(1,2) unfolding serves_def by simp
  then show ?thesis using hd assms(3)
    by (simp add: write_sq_y_tail_doorbell_def reg_write_def doorbell_stride_def hw_stride_def)
qed

lemma serves_run:
  assumes "serves E q idle busy lag" "busy (ns_hw s) (ds_dev (ns_dma s)) k"
  shows "busy (ns_hw (spin_turn E s)) (ds_dev (ns_dma (spin_turn E s))) k \<and> lag (ns_hw (spin_turn E s)) < lag (ns_hw s) \<or>
         idle (ns_hw (spin_turn E s)) (ds_dev (ns_dma (spin_turn E s))) (Suc k)"
proof -
  obtain h d where hd: "ne_run E (ns_hw s, ns_dma s) = (h, d)" by fastforce
  have "case ne_run E (ns_hw s, ns_dma s) of (h', d') \<Rightarrow>
      busy h' (ds_dev d') k \<and> lag h' < lag (ns_hw s) \<or> idle h' (ds_dev d') (Suc k)"
    using assms unfolding serves_def by simp
  then show ?thesis using hd by (simp add: spin_turn_def)
qed

lemma serves_head:
  assumes "serves E q idle busy lag" "idle (ns_hw s) (ds_dev (ns_dma s)) k" "s' = write_cq_y_head_doorbell E (nq_qid q) t s"
  shows "idle (ns_hw s') (ds_dev (ns_dma s')) k" "cq_bytes q (ds_dev (ns_dma s')) = cq_bytes q (ds_dev (ns_dma s))"
proof -
  obtain h d where hd: "ne_set E (cq_doorbell (hw_stride E (ns_hw s)) (nq_qid q)) (of_nat t) (ns_hw s, ns_dma s) = (h, d)" by fastforce
  have "case ne_set E (cq_doorbell (hw_stride E (ns_hw s)) (nq_qid q)) (of_nat t) (ns_hw s, ns_dma s) of (h', d') \<Rightarrow>
      idle h' (ds_dev d') k \<and> cq_bytes q (ds_dev d') = cq_bytes q (ds_dev (ns_dma s))"
    using assms(1,2) unfolding serves_def by simp
  then show "idle (ns_hw s') (ds_dev (ns_dma s')) k" "cq_bytes q (ds_dev (ns_dma s')) = cq_bytes q (ds_dev (ns_dma s))"
    using hd assms(3) by (simp_all add: write_cq_y_head_doorbell_def reg_write_def doorbell_stride_def hw_stride_def)
qed

section \<open>Sending a command\<close>

lemma cq_slot_cong:
  assumes "cq_bytes q m' = cq_bytes q m" "j < cq_len (nq_cq q)"
  shows "cq_slot (nq_cq q) m' j = cq_slot (nq_cq q) m j"
proof -
  let ?d = "cq_queue (nq_cq q)"
  have "j * 16 + 16 \<le> arr_size ?d" using assms(2) by linarith
  have eq: "m' (arr_ptr ?d + i) = m (arr_ptr ?d + i)" if "i < arr_size ?d" for i
    using that arg_cong [OF assms(1), of "\<lambda>xs. xs ! i"] by (simp add: cq_bytes_def)
  have "load m' (arr_ptr ?d + j * 16) 16 = load m (arr_ptr ?d + j * 16) 16"
  proof (rule load_cong)
    fix x assume "arr_ptr ?d + j * 16 \<le> x" "x < arr_ptr ?d + j * 16 + 16"
    then have "x = arr_ptr ?d + (x - arr_ptr ?d)" "x - arr_ptr ?d < arr_size ?d"
      using \<open>j * 16 + 16 \<le> arr_size ?d\<close> by linarith+
    then show "m' x = m x" using eq by metis
  qed
  then show ?thesis by (simp add: cq_slot_def)
qed

text \<open>The wait for a completion returns, with the completion that was posted next.\<close>

lemma spin_for_complete_returns:
  assumes "serves E q idle busy lag" "invalidate_law (ne_dma E)" "cq_at n (nq_cq q)" "busy (ns_hw s) (ds_dev (ns_dma s)) n"
  shows "\<exists>cq' s'. spin_for_complete E (nq_cq q, s) =
             Some ((cq', s'), Ok (cq_slot (nq_cq q) (ds_dev (ns_dma s')) (n mod cq_len (nq_cq q)))) \<and>
           cq_at (Suc n) cq' \<and> cq_queue cq' = cq_queue (nq_cq q) \<and> idle (ns_hw s') (ds_dev (ns_dma s')) (Suc n)"
  using assms(4)
proof (induction "lag (ns_hw s)" arbitrary: s rule: less_induct)
  case less
  let ?cq = "nq_cq q"
  have L: "0 < cq_len ?cq" using assms(3) by (simp add: cq_at_def)
  obtain s1 where s1: "cq_complete E ?cq s = (s1, Ok None)" "ns_hw s1 = ns_hw s" "ds_dev (ns_dma s1) = ds_dev (ns_dma s)"
    using cq_complete_ring [OF assms(2,3), of s n] serves_view [OF assms(1)] less.prems by auto
  have spin: "spin_for_complete E (?cq, s) = spin_for_complete E (?cq, spin_turn E s1)"
    by (subst spin_for_complete.simps) (simp add: s1(1))
  have "busy (ns_hw s1) (ds_dev (ns_dma s1)) n" using less.prems s1 by simp
  from serves_run [OF assms(1) this] show ?case
  proof
    assume "busy (ns_hw (spin_turn E s1)) (ds_dev (ns_dma (spin_turn E s1))) n \<and> lag (ns_hw (spin_turn E s1)) < lag (ns_hw s1)"
    then show ?thesis using less.hyps [of "spin_turn E s1"] spin s1(2) by simp
  next
    assume idle: "idle (ns_hw (spin_turn E s1)) (ds_dev (ns_dma (spin_turn E s1))) (Suc n)"
    obtain s2 where s2: "cq_complete E ?cq (spin_turn E s1) =
        (s2, Ok (Some (cq_slot ?cq (ds_dev (ns_dma s2)) (n mod cq_len ?cq))))"
        "ns_hw s2 = ns_hw (spin_turn E s1)" "ds_dev (ns_dma s2) = ds_dev (ns_dma (spin_turn E s1))"
      using cq_complete_ring [OF assms(2,3), of "spin_turn E s1" "Suc n"] serves_view [OF assms(1)] idle L by auto
    obtain cq' where "cq_advance ?cq = Ok cq'" "cq_at (Suc n) cq'" "cq_queue cq' = cq_queue ?cq"
      using cq_advance_at [OF assms(3)] by blast
    then show ?thesis using idle s2 unfolding spin
      by (subst spin_for_complete.simps) (intro exI [of _ cq'] exI [of _ s2], simp)
  qed
qed

definition queue_at :: "nat \<Rightarrow> nvme_queue \<Rightarrow> bool" where
  "queue_at n q \<longleftrightarrow> sq_at n (nq_sq q) \<and> cq_at n (nq_cq q) \<and>
     apart (arr_ptr (cq_queue (nq_cq q))) (arr_size (cq_queue (nq_cq q))) (arr_ptr (sq_queue (nq_sq q))) (arr_size (sq_queue (nq_sq q)))"

abbreviation sq_slot_addr :: "nvme_queue \<Rightarrow> nat \<Rightarrow> nat" where
  "sq_slot_addr q n \<equiv> arr_ptr (sq_queue (nq_sq q)) + n mod sq_len (nq_sq q) * 64"

lemma submit_admin_data_ok:
  assumes "flush_law (ne_dma E)" "flush_local (ne_dma E)" "queue_at n q"
  shows "\<exists>sq' s1. submit_admin_data E cmd (q, s) =
             ((q\<lparr>nq_sq := sq'\<rparr>, write_sq_y_tail_doorbell E (nq_qid q) (Suc n mod sq_len (nq_sq q)) s1), Ok ()) \<and>
           sq_at (Suc n) sq' \<and> sq_queue sq' = sq_queue (nq_sq q) \<and> ns_hw s1 = ns_hw s \<and>
           load (ds_dev (ns_dma s1)) (sq_slot_addr q n) 64 = to_submission cmd \<and>
           cq_bytes q (ds_dev (ns_dma s1)) = cq_bytes q (ds_dev (ns_dma s))"
proof -
  let ?sq = "nq_sq q"
  let ?L = "sq_len ?sq" and ?a = "sq_slot_addr q n"
  have at: "plain_array ToDevice (sq_queue ?sq)" "0 < ?L" "?L < 2 ^ 32" "sq_tail ?sq = n mod ?L"
    using assms(3) by (simp_all add: queue_at_def sq_at_def)
  have lt: "n mod ?L < ?L" using at(2) by simp
  let ?d = "op_flush (ne_dma E) ?a 64 (cpu_write (store ?a (to_submission cmd)) (ns_dma s))"
  let ?t = "Suc n mod ?L"
  have "array_set (ne_dma E) 64 (sq_queue ?sq) (sq_tail ?sq) (to_submission cmd) (ns_dma s) = (?d, Ok ())"
    using at(1,4) lt by (simp add: array_set_def array_len_def confirm_write_def plain_array_def Let_def)
  moreover have "(if ?L mod 2 ^ 32 \<le> sq_tail ?sq + 1 then 0 else sq_tail ?sq + 1) = ?t"
    using at(3,4) lt by (auto simp: mod_Suc)
  moreover have "sq_tail ?sq + 1 < 2 ^ 32" using at(3,4) lt by simp
  ultimately have sub: "sq_submit E cmd (?sq, s) = ((?sq\<lparr>sq_tail := ?t\<rparr>, s\<lparr>ns_dma := ?d\<rparr>), Ok ?t)"
    by (simp add: sq_submit_def on_dma_def Let_def)
  have "load (ds_dev ?d) ?a 64 = to_submission cmd" using assms(1) by (simp add: flush_law_def)
  moreover have "cq_bytes q (ds_dev ?d) = cq_bytes q (ds_dev (ns_dma s))"
  proof -
    have "n mod ?L * 64 + 64 \<le> arr_size (sq_queue ?sq)" using lt by linarith
    then have "x < ?a \<or> ?a + 64 \<le> x" if "arr_ptr (cq_queue (nq_cq q)) \<le> x"
      "x < arr_ptr (cq_queue (nq_cq q)) + arr_size (cq_queue (nq_cq q))" for x
      using that assms(3) unfolding queue_at_def apart_def by linarith
    moreover have "ds_dev ?d x = ds_dev (ns_dma s) x" if "x < ?a \<or> ?a + 64 \<le> x" for x
      using that assms(2) unfolding flush_local_def by auto
    ultimately show ?thesis unfolding cq_bytes_def by (intro load_cong) blast
  qed
  moreover have "sq_at (Suc n) (?sq\<lparr>sq_tail := ?t\<rparr>)" using at by (simp add: sq_at_def)
  ultimately show ?thesis using sub
    by (intro exI [of _ "?sq\<lparr>sq_tail := ?t\<rparr>"] exI [of _ "s\<lparr>ns_dma := ?d\<rparr>"]) (simp add: submit_admin_data_def)
qed

lemma serves_cong:
  assumes "nq_qid q' = nq_qid q" "cq_queue (nq_cq q') = cq_queue (nq_cq q)"
  shows "serves E q' idle busy lag = serves E q idle busy lag"
  using assms by (simp add: serves_def cq_bytes_def ring_view_def cq_slot_def)

lemma command_sync_ok:
  assumes "serves E q idle busy lag" "flush_law (ne_dma E)" "flush_local (ne_dma E)" "invalidate_law (ne_dma E)"
    and "queue_at n q" "idle (ns_hw s) (ds_dev (ns_dma s)) n"
  shows "\<exists>q' s' c. command_sync E cmd (q, s) =
             Some ((q', s'), if is_success c then Ok () else Err (NvUnknown ''send command failed'')) \<and>
           c = cq_slot (nq_cq q) (ds_dev (ns_dma s')) (n mod cq_len (nq_cq q)) \<and>
           queue_at (Suc n) q' \<and> serves E q' idle busy lag \<and> idle (ns_hw s') (ds_dev (ns_dma s')) (Suc n)"
proof -
  have cq: "cq_at n (nq_cq q)" using assms(5) by (simp add: queue_at_def)
  obtain sq' s1 where s1: "submit_admin_data E cmd (q, s) =
      ((q\<lparr>nq_sq := sq'\<rparr>, write_sq_y_tail_doorbell E (nq_qid q) (Suc n mod sq_len (nq_sq q)) s1), Ok ())"
      "sq_at (Suc n) sq'" "sq_queue sq' = sq_queue (nq_sq q)" "ns_hw s1 = ns_hw s"
      "cq_bytes q (ds_dev (ns_dma s1)) = cq_bytes q (ds_dev (ns_dma s))"
    using submit_admin_data_ok [OF assms(2,3,5)] by blast
  let ?s2 = "write_sq_y_tail_doorbell E (nq_qid q) (Suc n mod sq_len (nq_sq q)) s1"
  have "idle (ns_hw s1) (ds_dev (ns_dma s1)) n" using serves_frame [OF assms(1,6) s1(5)] s1(4) by simp
  then have "busy (ns_hw ?s2) (ds_dev (ns_dma ?s2)) n" by (rule serves_submit [OF assms(1)]) simp
  from spin_for_complete_returns [OF assms(1,4) cq this] obtain cq' s3 where
    s3: "spin_for_complete E (nq_cq q, ?s2) = Some ((cq', s3), Ok (cq_slot (nq_cq q) (ds_dev (ns_dma s3)) (n mod cq_len (nq_cq q))))"
      "cq_at (Suc n) cq'" "cq_queue cq' = cq_queue (nq_cq q)" "idle (ns_hw s3) (ds_dev (ns_dma s3)) (Suc n)" by blast
  define s4 where "s4 = write_cq_y_head_doorbell E (nq_qid q) (cq_head cq') s3"
  note s4 = serves_head [OF assms(1) s3(4) s4_def]
  let ?q = "q\<lparr>nq_sq := sq', nq_cq := cq'\<rparr>" and ?c = "cq_slot (nq_cq q) (ds_dev (ns_dma s4)) (n mod cq_len (nq_cq q))"
  have "cq_slot (nq_cq q) (ds_dev (ns_dma s3)) (n mod cq_len (nq_cq q)) = ?c"
    using cq by (intro cq_slot_cong [OF s4(2) [symmetric]]) (simp add: cq_at_def)
  then have "command_sync E cmd (q, s) = Some ((?q, s4), if is_success ?c then Ok () else Err (NvUnknown ''send command failed''))"
    using s1(1) s3(1) by (simp add: command_sync_def s4_def)
  moreover have "queue_at (Suc n) ?q" using s1(2,3) s3(2,3) assms(5) by (simp add: queue_at_def)
  moreover have "serves E ?q idle busy lag = serves E q idle busy lag" using s3(3) by (intro serves_cong) simp_all
  ultimately show ?thesis using assms(1) s4(1) by (intro exI [of _ ?q] exI [of _ s4] exI [of _ ?c]) simp
qed

end
