(* ===== verification/Nvme.thy ===== *)
theory Nvme
  imports Nvme_Queue
begin

unbundle bit_operations_syntax

text \<open>
  The controller of the NVMe driver, \<open>driver/block/nvme/src/nvme.rs\<close> with the register sequences of
  \<open>registers.rs\<close>, and the block device on top of it, \<open>block.rs\<close>.
\<close>

section \<open>Register sequences\<close>

text \<open>\<open>spin_for_true\<close> on the ready bit of the controller status.\<close>

partial_function (option) wait_ready ::
  "('h, 'a) nvme_env \<Rightarrow> bool \<Rightarrow> ('h, 'a) nvme_sys \<Rightarrow> (('h, 'a) nvme_sys \<times> (nvme_error, unit) result) option"
where
  "wait_ready E want s =
     (if (tk_read (ne_tock E) 0 1 (ne_get E 0x1c (ns_hw s)) \<noteq> 0) = want then Some (s, Ok ())
      else wait_ready E want (spin_turn E s))"

definition reg_reset :: "('h, 'a) nvme_env \<Rightarrow> ('h, 'a) nvme_sys \<Rightarrow> (('h, 'a) nvme_sys \<times> (nvme_error, unit) result) option" where
  "reg_reset E s = wait_ready E False (reg_write E 0x14 (ucast (tk_val (ne_tock E) 0 1 0)) s)"

definition cc_enabled :: "tock \<Rightarrow> 32 word" where
  "cc_enabled T = tk_val T 0 1 1 OR tk_val T 4 3 0 OR tk_val T 11 3 0 OR tk_val T 14 2 0"

definition setup_cc ::
  "('h, 'a) nvme_env \<Rightarrow> nat \<Rightarrow> nat \<Rightarrow> ('h, 'a) nvme_sys \<Rightarrow> (('h, 'a) nvme_sys \<times> (nvme_error, unit) result) option"
where
  "setup_cc E sqes cqes s =
     (let T = ne_tock E
      in wait_ready E True
           (reg_write E 0x14 (ucast (cc_enabled T OR tk_val T 16 4 (of_nat sqes) OR tk_val T 20 4 (of_nat cqes))) s))"

definition ready_for_read_controller_info ::
  "('h, 'a) nvme_env \<Rightarrow> ('h, 'a) nvme_sys \<Rightarrow> (('h, 'a) nvme_sys \<times> (nvme_error, unit) result) option"
where
  "ready_for_read_controller_info E s = wait_ready E True (reg_write E 0x14 (ucast (cc_enabled (ne_tock E))) s)"

section \<open>Controller state\<close>

record nvme =
  admin_queue :: nvme_queue
  io_queues :: "nvme_queue list"
  num_ns :: nat
  nv_sqes :: nat
  nv_cqes :: nat

record nvme_config =
  nc_page_size :: nat
  io_queue_pair_count :: nat

type_synonym ('h, 'a) nvme_state = "nvme \<times> ('h, 'a) nvme_sys"
type_synonym ('h, 'a, 'r) nvme_run = "(('h, 'a) nvme_state \<times> (nvme_error, 'r) result) option"

definition drop_array :: "('h, 'a) nvme_env \<Rightarrow> dcommon \<Rightarrow> ('h, 'a) nvme_sys \<Rightarrow> ('h, 'a) nvme_sys" where
  "drop_array E d s = s\<lparr>ns_dma := dcommon_drop (ne_dma E) d (ns_dma s)\<rparr>"

definition nvme_queue_drop :: "('h, 'a) nvme_env \<Rightarrow> nvme_queue \<Rightarrow> ('h, 'a) nvme_sys \<Rightarrow> ('h, 'a) nvme_sys" where
  "nvme_queue_drop E q s = drop_array E (cq_queue (nq_cq q)) (drop_array E (sq_queue (nq_sq q)) s)"

definition nvme_drop :: "('h, 'a) nvme_env \<Rightarrow> ('h, 'a) nvme_state \<Rightarrow> ('h, 'a) nvme_sys" where
  "nvme_drop E st = fold (nvme_queue_drop E) (io_queues (fst st)) (nvme_queue_drop E (admin_queue (fst st)) (snd st))"

text \<open>An operation of the registers, and a command on the admin queue, in the state of the driver.\<close>

definition on_sys ::
  "(('h, 'a) nvme_sys \<Rightarrow> (('h, 'a) nvme_sys \<times> (nvme_error, 'r) result) option) \<Rightarrow> ('h, 'a) nvme_state \<Rightarrow> ('h, 'a, 'r) nvme_run"
where
  "on_sys f st = (case f (snd st) of None \<Rightarrow> None | Some (s, r) \<Rightarrow> Some ((fst st, s), r))"

definition admin_command :: "('h, 'a) nvme_env \<Rightarrow> command_set \<Rightarrow> ('h, 'a) nvme_state \<Rightarrow> ('h, 'a, unit) nvme_run" where
  "admin_command E cmd st =
     (case command_sync E cmd (admin_queue (fst st), snd st) of
        None \<Rightarrow> None
      | Some ((q, s), r) \<Rightarrow> Some (((fst st)\<lparr>admin_queue := q\<rparr>, s), r))"

definition nvme_configure_admin_queue :: "('h, 'a) nvme_env \<Rightarrow> ('h, 'a) nvme_state \<Rightarrow> ('h, 'a, unit) nvme_run" where
  "nvme_configure_admin_queue E st =
     (let q = admin_queue (fst st); T = ne_tock E;
          sl = (of_nat (sq_len (nq_sq q)) :: 32 word); cl = (of_nat (cq_len (nq_cq q)) :: 32 word)
      in if sl = 0 \<or> cl = 0 then Some (st, Panic)
         else
           let s1 = reg_write E 0x24 (ucast (tk_val T 0 12 (sl - 1) OR tk_val T 16 12 (cl - 1))) (snd st);
               s2 = reg_write E 0x28 (of_nat (dma_addr (mh_handle (dc_handle (sq_queue (nq_sq q))))) AND NOT 0xfff) s1;
               s3 = reg_write E 0x30 (of_nat (dma_addr (mh_handle (dc_handle (cq_queue (nq_cq q))))) AND NOT 0xfff) s2
           in Some ((fst st, s3), Ok ()))"

section \<open>Identify\<close>

text \<open>\<open>get_identfy\<close>; the buffer is dropped on every path that returns.\<close>

definition get_identfy ::
  "('h, 'a) nvme_env \<Rightarrow> 32 word \<Rightarrow> 32 word \<Rightarrow> (nat list \<Rightarrow> (nvme_error, 'r) result) \<Rightarrow> ('h, 'a) nvme_state \<Rightarrow> ('h, 'a, 'r) nvme_run"
where
  "get_identfy E cns ns parse st =
     (case cdw0_from_opcode (ne_tock E) IDENTIFY (id_factory (snd st)) of (c, f) \<Rightarrow>
      case map_err nvme_error_of_dma (on_dma (array_new_zero_with_align (ne_dma E) (ne_mask E) 1 1 0x1000 0x1000 FromDevice)
             ((snd st)\<lparr>id_factory := f\<rparr>)) of
        (s, Ok buff) \<Rightarrow>
          (case admin_command E (command_default\<lparr>nsid := ns, cdw0 := c, cdw10 := cns,
                    prp1 := of_nat (dma_addr (mh_handle (dc_handle buff)))\<rparr>) (fst st, s) of
             None \<Rightarrow> None
           | Some ((n, s), Ok _) \<Rightarrow>
               (case on_dma (array_iter (ne_dma E) 1 buff) s of
                  (s, Ok bs) \<Rightarrow> Some ((n, drop_array E buff s), parse (concat bs))
                | (s, _) \<Rightarrow> Some ((n, s), Panic))
           | Some ((n, s), Err e) \<Rightarrow> Some ((n, drop_array E buff s), Err e)
           | Some ((n, s), Panic) \<Rightarrow> Some ((n, s), Panic))
      | (s, Err e) \<Rightarrow> Some ((fst st, s), Err e)
      | (s, Panic) \<Rightarrow> Some ((fst st, s), Panic))"

definition identify_controller :: "('h, 'a) nvme_env \<Rightarrow> ('h, 'a) nvme_state \<Rightarrow> ('h, 'a, controller_info) nvme_run" where
  "identify_controller E = get_identfy E 1 0 (\<lambda>bs. Ok (parse_controller bs))"

definition identify_namespace :: "('h, 'a) nvme_env \<Rightarrow> nat \<Rightarrow> ('h, 'a) nvme_state \<Rightarrow> ('h, 'a, namespace_data option) nvme_run" where
  "identify_namespace E ns = get_identfy E 0 (of_nat ns) parse_namespace"

definition identify_active_list :: "('h, 'a) nvme_env \<Rightarrow> ('h, 'a) nvme_state \<Rightarrow> ('h, 'a, nat list) nvme_run" where
  "identify_active_list E = get_identfy E 2 0 (\<lambda>bs. Ok (parse_namespace_list bs))"

section \<open>Initialisation\<close>

definition reset_and_setup_controller_info :: "('h, 'a) nvme_env \<Rightarrow> ('h, 'a) nvme_state \<Rightarrow> ('h, 'a, controller_info) nvme_run" where
  "reset_and_setup_controller_info E st =
     then_opt (on_sys (reg_reset E) st) (\<lambda>_ st.
     then_opt (nvme_configure_admin_queue E st) (\<lambda>_ st.
     then_opt (on_sys (ready_for_read_controller_info E) st) (\<lambda>_ st.
       identify_controller E st)))"

definition create_io_queue :: "('h, 'a) nvme_env \<Rightarrow> nvme_config \<Rightarrow> nat \<Rightarrow> ('h, 'a) nvme_state \<Rightarrow> ('h, 'a, unit) nvme_run" where
  "create_io_queue E c i st =
     (let qid = (i + 1) mod 2 ^ 32; T = ne_tock E
      in case nvme_queue_new E qid (nc_page_size c) (2 ^ nv_sqes (fst st)) (2 ^ nv_cqes (fst st)) (snd st) of
           (s, Ok q) \<Rightarrow>
             (case create_io_completion_queue T (of_nat qid) (of_nat (cq_len (nq_cq q)))
                     (of_nat (dma_addr (mh_handle (dc_handle (cq_queue (nq_cq q)))))) True False 0 (id_factory s) of
                (f, Ok cmd) \<Rightarrow>
                  (case admin_command E cmd (fst st, s\<lparr>id_factory := f\<rparr>) of
                     None \<Rightarrow> None
                   | Some ((n, s), Ok _) \<Rightarrow>
                       (case create_io_submission_queue T (of_nat qid) (of_nat (sq_len (nq_sq q)))
                               (of_nat (dma_addr (mh_handle (dc_handle (sq_queue (nq_sq q)))))) True 0 (of_nat qid) 0 (id_factory s) of
                          (f, Ok cmd) \<Rightarrow>
                            (case admin_command E cmd (n, s\<lparr>id_factory := f\<rparr>) of
                               None \<Rightarrow> None
                             | Some ((n, s), Ok _) \<Rightarrow> Some ((n\<lparr>io_queues := io_queues n @ [q]\<rparr>, s), Ok ())
                             | Some ((n, s), Err e) \<Rightarrow> Some ((n, nvme_queue_drop E q s), Err e)
                             | Some ((n, s), Panic) \<Rightarrow> Some ((n, s), Panic))
                        | (f, _) \<Rightarrow> Some ((n, s\<lparr>id_factory := f\<rparr>), Panic))
                   | Some ((n, s), Err e) \<Rightarrow> Some ((n, nvme_queue_drop E q s), Err e)
                   | Some ((n, s), Panic) \<Rightarrow> Some ((n, s), Panic))
              | (f, _) \<Rightarrow> Some ((fst st, s\<lparr>id_factory := f\<rparr>), Panic))
         | (s, Err e) \<Rightarrow> Some ((fst st, s), Err e)
         | (s, Panic) \<Rightarrow> Some ((fst st, s), Panic))"

fun create_io_queues :: "('h, 'a) nvme_env \<Rightarrow> nvme_config \<Rightarrow> nat list \<Rightarrow> ('h, 'a) nvme_state \<Rightarrow> ('h, 'a, unit) nvme_run" where
  "create_io_queues E c [] st = Some (st, Ok ())"
| "create_io_queues E c (i # is) st = then_opt (create_io_queue E c i st) (\<lambda>_ st. create_io_queues E c is st)"

definition config_io_queue :: "('h, 'a) nvme_env \<Rightarrow> nvme_config \<Rightarrow> ('h, 'a) nvme_state \<Rightarrow> ('h, 'a, unit) nvme_run" where
  "config_io_queue E c st =
     (let n = (of_nat (io_queue_pair_count c) :: 32 word)
      in if n = 0 then Some (st, Panic)
         else case set_features (ne_tock E) (NumberOfQueues (n - 1) (n - 1)) (id_factory (snd st)) of
           (cmd, f) \<Rightarrow>
             then_opt (admin_command E cmd (fst st, (snd st)\<lparr>id_factory := f\<rparr>)) (\<lambda>_ st.
               create_io_queues E c [0 ..< io_queue_pair_count c] st))"

text \<open>The loop at the end of \<open>init\<close> waits for namespace 1.\<close>

partial_function (option) wait_namespace ::
  "('h, 'a) nvme_env \<Rightarrow> ('h, 'a) nvme_state \<Rightarrow> (('h, 'a) nvme_state \<times> (nvme_error, unit) result) option"
where
  "wait_namespace E st =
     (case identify_namespace E 1 st of
        None \<Rightarrow> None
      | Some (st, Ok None) \<Rightarrow> wait_namespace E st
      | Some (st, Ok (Some ns)) \<Rightarrow> Some (st, Ok ())
      | Some (st, Err e) \<Rightarrow> Some (st, Err e)
      | Some (st, Panic) \<Rightarrow> Some (st, Panic))"

definition nvme_init :: "('h, 'a) nvme_env \<Rightarrow> nvme_config \<Rightarrow> ('h, 'a) nvme_state \<Rightarrow> ('h, 'a, unit) nvme_run" where
  "nvme_init E c st =
     then_opt (reset_and_setup_controller_info E st) (\<lambda>ctl (n, s).
     let n = n\<lparr>nv_sqes := sqes_min ctl, nv_cqes := cqes_min ctl\<rparr>
     in then_opt (on_sys (reg_reset E) (n, s)) (\<lambda>_ st.
        then_opt (nvme_configure_admin_queue E st) (\<lambda>_ st.
        then_opt (on_sys (setup_cc E (nv_sqes (fst st)) (nv_cqes (fst st))) st) (\<lambda>_ st.
        then_opt (identify_controller E st) (\<lambda>ctl (n, s).
        then_opt (config_io_queue E c (n\<lparr>num_ns := number_of_namespaces ctl\<rparr>, s)) (\<lambda>_ st.
          wait_namespace E st))))))"

definition new_with_bar ::
  "('h, 'a) nvme_env \<Rightarrow> nvme_config \<Rightarrow> ('h, 'a) nvme_sys \<Rightarrow> (('h, 'a) nvme_sys \<times> (nvme_error, nvme) result) option"
where
  "new_with_bar E c s =
     (case nvme_queue_new E 0 (nc_page_size c) 64 64 s of
        (s, Ok q) \<Rightarrow>
          if \<not> 0 < io_queue_pair_count c then Some (s, Panic)
          else (case nvme_init E c (\<lparr>admin_queue = q, io_queues = [], num_ns = 0, nv_sqes = 6, nv_cqes = 4\<rparr>, s) of
                  None \<Rightarrow> None
                | Some ((n, s), Ok _) \<Rightarrow> Some (s, Ok n)
                | Some (st, Err e) \<Rightarrow> Some (nvme_drop E st, Err e)
                | Some ((n, s), Panic) \<Rightarrow> Some (s, Panic))
      | (s, Err e) \<Rightarrow> Some (s, Err e)
      | (s, Panic) \<Rightarrow> Some (s, Panic))"

end
