(* ===== verification/Nvme_Block.thy ===== *)
theory Nvme_Block
  imports Nvme
begin

text \<open>
  Namespaces and transfers of the NVMe driver, \<open>driver/block/nvme/src/nvme.rs\<close>, and the block device over them,
  \<open>block.rs\<close>.  The state behind the mutex of the block device is \<open>nvme_block\<close>; it includes the state of the controller.
\<close>

record namespace =
  nm_id :: nat
  nm_lba_size :: nat
  nm_lba_count :: nat
  nm_metadata_size :: nat

fun collect_namespaces ::
  "('h, 'a) nvme_env \<Rightarrow> nat list \<Rightarrow> ('h, 'a) nvme_state \<Rightarrow> ('h, 'a, namespace list) nvme_run"
where
  "collect_namespaces E [] st = Some (st, Ok [])"
| "collect_namespaces E (i # is) st =
     then_opt (identify_namespace E i st) (\<lambda>ns st.
       case ns of
         None \<Rightarrow> Some (st, Panic)
       | Some d \<Rightarrow>
           then_opt (collect_namespaces E is st) (\<lambda>out st.
             Some (st, Ok (\<lparr>nm_id = i, nm_lba_size = lba_size d, nm_lba_count = namespace_size d,
                            nm_metadata_size = metadata_size d\<rparr> # out))))"

definition namespace_list :: "('h, 'a) nvme_env \<Rightarrow> ('h, 'a) nvme_state \<Rightarrow> ('h, 'a, namespace list) nvme_run" where
  "namespace_list E st = then_opt (identify_active_list E st) (\<lambda>ids st. collect_namespaces E ids st)"

section \<open>Transfers\<close>

text \<open>A command on the first I/O queue; indexing an empty vector panics.\<close>

definition io_command :: "('h, 'a) nvme_env \<Rightarrow> command_set \<Rightarrow> ('h, 'a) nvme_state \<Rightarrow> ('h, 'a, unit) nvme_run" where
  "io_command E cmd st =
     (case io_queues (fst st) of
        [] \<Rightarrow> Some (st, Panic)
      | q # qs \<Rightarrow>
          (case command_sync E cmd (q, snd st) of
             None \<Rightarrow> None
           | Some ((q', s), r) \<Rightarrow> Some (((fst st)\<lparr>io_queues := q' # qs\<rparr>, s), r)))"

definition is_multiple_of :: "nat \<Rightarrow> nat \<Rightarrow> bool" where
  "is_multiple_of a b = (if b = 0 then a = 0 else a mod b = 0)"

text \<open>After the command returned, the buffer is dropped.\<close>

definition drop_after :: "('h, 'a) nvme_env \<Rightarrow> dcommon \<Rightarrow> ('h, 'a, 'r) nvme_run \<Rightarrow> ('h, 'a, 'r) nvme_run" where
  "drop_after E d m =
     (case m of
        Some ((n, s), Ok x) \<Rightarrow> Some ((n, drop_array E d s), Ok x)
      | Some ((n, s), Err e) \<Rightarrow> Some ((n, drop_array E d s), Err e)
      | _ \<Rightarrow> m)"

definition block_write_sync ::
  "('h, 'a) nvme_env \<Rightarrow> namespace \<Rightarrow> nat \<Rightarrow> nat list \<Rightarrow> ('h, 'a) nvme_state \<Rightarrow> ('h, 'a, unit) nvme_run"
where
  "block_write_sync E ns block_start buff st =
     (if \<not> is_multiple_of (length buff) (nm_lba_size ns) then Some (st, Panic)
      else case map_err nvme_error_of_dma (on_dma (array_new_zero_with_align (ne_dma E) (ne_mask E) 1 1
                  (length buff) (nm_lba_size ns) ToDevice) (snd st)) of
        (s, Ok d) \<Rightarrow>
          (case on_dma (array_copy_from_slice (ne_dma E) 1 d (map (\<lambda>b. [b]) buff)) s of
             (s, Ok _) \<Rightarrow>
               if nm_lba_size ns = 0 then Some ((fst st, s), Panic)
               else
                 (case nvm_cmd_write (ne_tock E) (of_nat (nm_id ns)) (of_nat (dma_addr (mh_handle (dc_handle d))))
                         (of_nat block_start) (of_nat (arr_size d div nm_lba_size ns)) (id_factory s) of
                    (cmd, f) \<Rightarrow> drop_after E d (io_command E cmd (fst st, s\<lparr>id_factory := f\<rparr>)))
           | (s, _) \<Rightarrow> Some ((fst st, s), Panic))
      | (s, Err e) \<Rightarrow> Some ((fst st, s), Err e)
      | (s, Panic) \<Rightarrow> Some ((fst st, s), Panic))"

text \<open>The copy loop of a read, element by element into a slice at \<open>addr\<close> of \<open>len\<close> bytes.\<close>

fun copy_out ::
  "'a dma_op \<Rightarrow> dcommon \<Rightarrow> nat \<Rightarrow> nat \<Rightarrow> nat list \<Rightarrow> 'a dma_state \<Rightarrow> 'a dma_state \<times> (unit, unit) result"
where
  "copy_out Op d addr len [] s = (s, Ok ())"
| "copy_out Op d addr len (i # is) s =
     and_then (array_read Op 1 d i s) (\<lambda>v s.
       case v of
         None \<Rightarrow> (s, Ok ())
       | Some b \<Rightarrow> if \<not> i < len then (s, Panic) else copy_out Op d addr len is (cpu_write (store (addr + i) b) s))"

definition block_read_sync ::
  "('h, 'a) nvme_env \<Rightarrow> namespace \<Rightarrow> nat \<Rightarrow> nat \<Rightarrow> nat \<Rightarrow> ('h, 'a) nvme_state \<Rightarrow> ('h, 'a, unit) nvme_run"
where
  "block_read_sync E ns block_start addr len st =
     (if \<not> is_multiple_of len (nm_lba_size ns) then Some (st, Panic)
      else case map_err nvme_error_of_dma (on_dma (array_new_zero_with_align (ne_dma E) (ne_mask E) 1 1
                  len (nm_lba_size ns) FromDevice) (snd st)) of
        (s, Ok d) \<Rightarrow>
          if nm_lba_size ns = 0 then Some ((fst st, s), Panic)
          else
            (case nvm_cmd_read (ne_tock E) (of_nat (nm_id ns)) (of_nat (dma_addr (mh_handle (dc_handle d))))
                    (of_nat block_start) (of_nat (arr_size d div nm_lba_size ns)) (id_factory s) of
               (cmd, f) \<Rightarrow>
                 drop_after E d (then_opt (io_command E cmd (fst st, s\<lparr>id_factory := f\<rparr>)) (\<lambda>_ (n, s).
                   case on_dma (copy_out (ne_dma E) d addr len [0 ..< arr_size d]) s of
                     (s, Ok _) \<Rightarrow> Some ((n, s), Ok ())
                   | (s, _) \<Rightarrow> Some ((n, s), Panic))))
      | (s, Err e) \<Rightarrow> Some ((fst st, s), Err e)
      | (s, Panic) \<Rightarrow> Some ((fst st, s), Panic))"

section \<open>The block device\<close>

record 'h nvme_block =
  nb_nvme :: nvme
  nb_hw :: 'h
  nb_ids :: "32 word"
  nb_namespace :: namespace
  nb_irq_enabled :: bool
  pending_irq :: id_list
  nb_completed :: "nat set"
  next_request_id :: nat
  nb_next_queue_id :: nat

definition with_namespace :: "nvme \<Rightarrow> 'h \<Rightarrow> 32 word \<Rightarrow> namespace \<Rightarrow> 'h nvme_block" where
  "with_namespace n h ids ns =
     \<lparr>nb_nvme = n, nb_hw = h, nb_ids = ids, nb_namespace = ns, nb_irq_enabled = True, pending_irq = id_none,
      nb_completed = {}, next_request_id = 1, nb_next_queue_id = 0\<rparr>"

definition from_nvme ::
  "('h, 'a) nvme_env \<Rightarrow> ('h, 'a) nvme_state \<Rightarrow> (('h, 'a) nvme_sys \<times> (nvme_error, 'h nvme_block) result) option"
where
  "from_nvme E st =
     (case namespace_list E st of
        None \<Rightarrow> None
      | Some ((n, s), Ok (ns # _)) \<Rightarrow> Some (s, Ok (with_namespace n (ns_hw s) (id_factory s) ns))
      | Some (st, Ok []) \<Rightarrow> Some (nvme_drop E st, Err (NvUnknown ''no active namespace found''))
      | Some (st, Err e) \<Rightarrow> Some (nvme_drop E st, Err e)
      | Some ((n, s), Panic) \<Rightarrow> Some (s, Panic))"

definition nb_enable_irq :: "'h nvme_block \<Rightarrow> 'h nvme_block" where
  "nb_enable_irq b = b\<lparr>nb_irq_enabled := True\<rparr>"

definition nb_disable_irq :: "'h nvme_block \<Rightarrow> 'h nvme_block" where
  "nb_disable_irq b = b\<lparr>nb_irq_enabled := False\<rparr>"

definition nb_handle_irq :: "'h nvme_block \<Rightarrow> 'h nvme_block \<times> id_list" where
  "nb_handle_irq b = (if \<not> nb_irq_enabled b then (b, id_none) else (b\<lparr>pending_irq := id_none\<rparr>, pending_irq b))"

text \<open>A transfer of the controller inside the block device.\<close>

definition nb_transfer ::
  "(('h, 'a) nvme_state \<Rightarrow> ('h, 'a, unit) nvme_run) \<Rightarrow> 'h nvme_block \<times> 'a dma_state \<Rightarrow>
   (('h nvme_block \<times> 'a dma_state) \<times> (blk_error, unit) result) option"
where
  "nb_transfer f bd =
     (case bd of (b, d) \<Rightarrow>
      case f (nb_nvme b, \<lparr>ns_hw = nb_hw b, ns_dma = d, id_factory = nb_ids b\<rparr>) of
        None \<Rightarrow> None
      | Some ((n, s), r) \<Rightarrow>
          Some ((b\<lparr>nb_nvme := n, nb_hw := ns_hw s, nb_ids := id_factory s\<rparr>, ns_dma s),
                snd (map_err (\<lambda>e. BlkOther (nvme_boxed e)) ((), r))))"

text \<open>The end of a request that was carried out.\<close>

definition nb_finish ::
  "nat \<Rightarrow> nat \<Rightarrow> 'h nvme_block \<times> 'a dma_state \<Rightarrow> ('h nvme_block \<times> 'a dma_state) \<times> (blk_error, nat) result"
where
  "nb_finish qid req_id bd =
     (case bd of (b, d) \<Rightarrow>
      let b = b\<lparr>nb_completed := insert req_id (nb_completed b)\<rparr>
      in if nb_irq_enabled b then
           (case id_insert (pending_irq b) qid of
              Ok rx \<Rightarrow> ((b\<lparr>pending_irq := rx\<rparr>, d), Ok req_id)
            | _ \<Rightarrow> ((b, d), Panic))
         else ((b, d), Ok req_id))"

definition nb_submit ::
  "('h, 'a) nvme_env \<Rightarrow> nat \<Rightarrow> blk_request \<Rightarrow> 'h nvme_block \<times> 'a dma_state \<Rightarrow>
   (('h nvme_block \<times> 'a dma_state) \<times> (blk_error, nat) result) option"
where
  "nb_submit E qid rq bd =
     (case bd of (b, d) \<Rightarrow>
      let ns = nb_namespace b
      in if nm_lba_count ns \<le> rq_block_id rq then Some ((b, d), Err (BlkInvalidBlockIndex (rq_block_id rq)))
         else if U64_MAX < next_request_id b + 1 then Some ((b, d), Panic)
         else
           let req_id = next_request_id b; b = b\<lparr>next_request_id := next_request_id b + 1\<rparr>
           in then_opt
                (case rq_kind rq of
                   ReadReq buff \<Rightarrow>
                     if b_size buff < nm_lba_size ns then Some ((b, d), Err BlkNotSupported)
                     else nb_transfer (block_read_sync E ns (rq_block_id rq) (b_virt buff) (nm_lba_size ns)) (b, d)
                 | WriteReq src \<Rightarrow>
                     if length src \<noteq> nm_lba_size ns then Some ((b, d), Err BlkNotSupported)
                     else nb_transfer (block_write_sync E ns (rq_block_id rq) src) (b, d))
                (\<lambda>_ bd. Some (nb_finish qid req_id bd)))"

definition nb_poll :: "nat \<Rightarrow> 'h nvme_block \<Rightarrow> 'h nvme_block \<times> (blk_error, unit) result" where
  "nb_poll req b =
     (if req \<in> nb_completed b then (b\<lparr>nb_completed := nb_completed b - {req}\<rparr>, Ok ()) else (b, Err BlkRetry))"

text \<open>In the record of a queue, a request that never returns is a panic.\<close>

definition nb_iqueue :: "('h, 'a) nvme_env \<Rightarrow> nat \<Rightarrow> namespace \<Rightarrow> ('h nvme_block, 'a) iqueue" where
  "nb_iqueue E qid ns =
     \<lparr>iq_id = qid, iq_num_blocks = nm_lba_count ns, iq_block_size = nm_lba_size ns,
      iq_buff_config = \<lparr>bc_dma_mask = ne_mask E, bc_align = nm_lba_size ns, bc_size = nm_lba_size ns\<rparr>,
      iq_submit = (\<lambda>rq bd. case nb_submit E qid rq bd of None \<Rightarrow> (bd, Panic) | Some r \<Rightarrow> r), iq_poll = nb_poll\<rparr>"

definition nb_create_queue ::
  "('h, 'a) nvme_env \<Rightarrow> 'h nvme_block \<Rightarrow> 'h nvme_block \<times> (unit, ('h nvme_block, 'a) iqueue option) result"
where
  "nb_create_queue E b =
     (if U64_MAX < nb_next_queue_id b + 1 then (b, Panic)
      else (b\<lparr>nb_next_queue_id := nb_next_queue_id b + 1\<rparr>, Ok (Some (nb_iqueue E (nb_next_queue_id b) (nb_namespace b)))))"

definition nb_interface :: "('h, 'a) nvme_env \<Rightarrow> ('h nvme_block, 'a) blk_interface" where
  "nb_interface E =
     \<lparr>if_create_queue = nb_create_queue E, if_enable_irq = nb_enable_irq, if_disable_irq = nb_disable_irq,
      if_is_irq_enabled = nb_irq_enabled, if_handle_irq = nb_handle_irq\<rparr>"

end
