(* ===== verification/Nvme_Properties.thy ===== *)
theory Nvme_Properties
  imports Block_Properties Nvme_Ring Nvme_Block
begin

unbundle bit_operations_syntax

text \<open>
  The properties of the NVMe driver, and a controller that shows that the hypotheses on the hardware can hold.
\<close>

section \<open>A controller\<close>

text \<open>
  The controller counts its completions and remembers whether the tail doorbell was written; one turn later it posts a
  completion with status 0 and the phase of its round.
\<close>

definition post_completion :: "complete_queue \<Rightarrow> nat \<Rightarrow> bytes \<Rightarrow> bytes" where
  "post_completion q k = store (arr_ptr (cq_queue q) + k mod cq_len q * 16)
     (replicate 14 0 @ [if even (k div cq_len q) then 1 else 0, 0])"

definition simple_env :: "nvme_queue \<Rightarrow> (nat \<times> bool, nat) nvme_env" where
  "simple_env q =
     \<lparr>ne_tock = plain_tock, ne_dma = cached_op, ne_mask = 4294967295, ne_get = (\<lambda>off h. 0),
      ne_set = (\<lambda>off v (h, d). if off = sq_doorbell 0 (nq_qid q) then ((fst h, True), d) else (h, d)),
      ne_run = (\<lambda>(h, d). if snd h then ((Suc (fst h), False), d\<lparr>ds_dev := post_completion (nq_cq q) (fst h) (ds_dev d)\<rparr>)
                         else (h, d))\<rparr>"

text \<open>Every entry of the ring is a success, and the phases show \<open>k\<close> completions.\<close>

definition simple_ring :: "nvme_queue \<Rightarrow> bytes \<Rightarrow> nat \<Rightarrow> bool" where
  "simple_ring q m k \<longleftrightarrow> ring_view (nq_cq q) m k \<and> (\<forall>j < cq_len (nq_cq q). is_success (cq_slot (nq_cq q) m j))"

definition simple_idle :: "nvme_queue \<Rightarrow> nat \<times> bool \<Rightarrow> bytes \<Rightarrow> nat \<Rightarrow> bool" where
  "simple_idle q h m k \<longleftrightarrow> h = (k, False) \<and> simple_ring q m k"

definition simple_busy :: "nvme_queue \<Rightarrow> nat \<times> bool \<Rightarrow> bytes \<Rightarrow> nat \<Rightarrow> bool" where
  "simple_busy q h m k \<longleftrightarrow> h = (k, True) \<and> simple_ring q m k"

lemma doorbells_differ:
  "sq_doorbell d y \<noteq> cq_doorbell d z" "sq_doorbell d y = sq_doorbell d z \<longleftrightarrow> y = z" "cq_doorbell d y = cq_doorbell d z \<longleftrightarrow> y = z"
proof -
  have "2 * y \<noteq> 2 * z + 1" by presburger
  then show "sq_doorbell d y \<noteq> cq_doorbell d z" by (simp add: sq_doorbell_def cq_doorbell_def del: mult_Suc)
qed (simp_all add: sq_doorbell_def cq_doorbell_def del: mult_Suc)

lemma simple_ring_cong:
  assumes "cq_bytes q m' = cq_bytes q m"
  shows "simple_ring q m' k = simple_ring q m k"
  unfolding simple_ring_def ring_view_def using cq_slot_cong [OF assms] by simp

lemma post_completion_slot:
  assumes "j < cq_len q"
  shows "cq_slot q (post_completion q k m) j =
         (if j = k mod cq_len q then completion_of_bytes (replicate 14 0 @ [if even (k div cq_len q) then 1 else 0, 0])
          else cq_slot q m j)"
proof (cases "j = k mod cq_len q")
  case True
  show ?thesis unfolding True cq_slot_def post_completion_def by simp
next
  case False
  have "apart (arr_ptr (cq_queue q) + j * 16) 16 (arr_ptr (cq_queue q) + k mod cq_len q * 16) 16"
  proof (cases "j < k mod cq_len q")
    case True
    then have "j * 16 + 16 \<le> k mod cq_len q * 16" by linarith
    then show ?thesis unfolding apart_def by linarith
  next
    case F: False
    then have "k mod cq_len q * 16 + 16 \<le> j * 16" using False by linarith
    then show ?thesis unfolding apart_def by linarith
  qed
  then have "load (post_completion q k m) (arr_ptr (cq_queue q) + j * 16) 16 = load m (arr_ptr (cq_queue q) + j * 16) 16"
    unfolding post_completion_def by (intro load_store_apart) simp
  then show ?thesis using False by (simp add: cq_slot_def)
qed

lemma posted_entry:
  "completion_phase (completion_of_bytes (replicate 14 0 @ [if p then 1 else 0, 0])) = p"
  "is_success (completion_of_bytes (replicate 14 0 @ [if p then 1 else 0, 0]))"
  by (simp_all add: completion_of_bytes_def completion_phase_def is_success_def)

lemma post_completion_ring: "simple_ring q m k \<Longrightarrow> simple_ring q (post_completion (nq_cq q) k m) (Suc k)"
  by (simp add: simple_ring_def ring_view_def post_completion_slot ring_phase_Suc posted_entry [of True, simplified] posted_entry [of False, simplified])

lemma simple_serves: "serves (simple_env q) q (simple_idle q) (simple_busy q) (\<lambda>_. 0)"
proof -
  have st: "hw_stride (simple_env q) h = 0" for h by (simp add: hw_stride_def simple_env_def plain_tock_def)
  show ?thesis unfolding serves_def st
  proof (intro conjI allI impI)
    show "simple_idle q h m' k" if "simple_idle q h m k" "cq_bytes q m' = cq_bytes q m" for h m m' k
      using that simple_ring_cong [OF that(2)] by (simp add: simple_idle_def)
    show "ring_view (nq_cq q) m k" if "simple_idle q h m k \<or> simple_busy q h m k" for h m k
      using that by (auto simp: simple_idle_def simple_busy_def simple_ring_def)
    show "case ne_set (simple_env q) (sq_doorbell 0 (nq_qid q)) t (h, d) of (h', d') \<Rightarrow> simple_busy q h' (ds_dev d') k"
      if "simple_idle q h (ds_dev d) k" for h and d :: "nat dma_state" and k t
      using that by (simp add: simple_env_def simple_idle_def simple_busy_def)
    show "case ne_run (simple_env q) (h, d) of (h', d') \<Rightarrow>
        simple_busy q h' (ds_dev d') k \<and> (0::nat) < 0 \<or> simple_idle q h' (ds_dev d') (Suc k)"
      if "simple_busy q h (ds_dev d) k" for h and d :: "nat dma_state" and k
      using that by (simp add: simple_env_def simple_idle_def simple_busy_def post_completion_ring)
    have "cq_doorbell 0 (nq_qid q) \<noteq> sq_doorbell 0 (nq_qid q)" using doorbells_differ(1) by metis
    then show "case ne_set (simple_env q) (cq_doorbell 0 (nq_qid q)) t (h, d) of (h', d') \<Rightarrow>
        simple_idle q h' (ds_dev d') k \<and> cq_bytes q (ds_dev d') = cq_bytes q (ds_dev d)"
      if "simple_idle q h (ds_dev d) k" for h and d :: "nat dma_state" and k t
      using that by (simp add: simple_env_def)
  qed
qed

definition demo_array :: "dma_direction \<Rightarrow> nat \<Rightarrow> nat \<Rightarrow> dcommon" where
  "demo_array dir a n =
     \<lparr>dc_handle = \<lparr>mh_handle = \<lparr>cpu_addr = a, dma_addr = a, h_size = n, h_align = 1\<rparr>, map_alloc_virt = None\<rparr>, dc_direction = dir\<rparr>"

definition demo_queue :: nvme_queue where
  "demo_queue = \<lparr>nq_qid = 1, nq_sq = \<lparr>sq_queue = demo_array ToDevice 4096 128, sq_tail = 0\<rparr>,
     nq_cq = \<lparr>cq_queue = demo_array FromDevice 8192 32, cq_head = 0, cq_phase = False\<rparr>\<rparr>"

definition demo_sys :: "(nat \<times> bool, nat) nvme_sys" where
  "demo_sys = \<lparr>ns_hw = (0, False), ns_dma = \<lparr>ds_cpu = (\<lambda>_. 0), ds_dev = (\<lambda>_. 0), ds_heap = 16384\<rparr>, id_factory = 0\<rparr>"

lemma demo_queue_at: "queue_at 0 demo_queue"
  by (simp add: queue_at_def sq_at_def cq_at_def plain_array_def demo_queue_def demo_array_def apart_def)

lemma demo_idle: "simple_idle demo_queue (ns_hw demo_sys) (ds_dev (ns_dma demo_sys)) 0"
proof -
  have "load (\<lambda>_. 0) a 16 = replicate 16 0" for a by (intro nth_equalityI) simp_all
  moreover have "\<not> completion_phase (completion_of_bytes (replicate 16 0))" "is_success (completion_of_bytes (replicate 16 0))"
    by (simp_all add: completion_of_bytes_def completion_phase_def is_success_def numeral_eq_Suc)
  ultimately show ?thesis
    by (simp add: simple_idle_def simple_ring_def demo_sys_def ring_view_def cq_slot_def ring_phase_zero)
qed

section \<open>Queue pairs\<close>

text \<open>
  \<^bold>\<open>C27.\<close>  The command that is sent as number \<open>n\<close> on a queue pair lies in entry \<open>n\<close> of the submission ring where the
  device sees it before its doorbell is written; \<open>command_sync\<close> returns, with the outcome of completion number \<open>n\<close> and of no
  older entry of the completion ring, and both rings are then at position \<open>n + 1\<close>.
\<close>

theorem nvme_command_in_order:
  assumes "serves E q idle busy lag" "flush_law (ne_dma E)" "flush_local (ne_dma E)" "invalidate_law (ne_dma E)"
    and "queue_at n q" "idle (ns_hw s) (ds_dev (ns_dma s)) n"
  shows "(\<exists>q1 s1. submit_admin_data E cmd (q, s) =
            ((q1, write_sq_y_tail_doorbell E (nq_qid q) (Suc n mod sq_len (nq_sq q)) s1), Ok ()) \<and>
          load (ds_dev (ns_dma s1)) (sq_slot_addr q n) 64 = to_submission cmd) \<and>
         (\<exists>q' s' c. command_sync E cmd (q, s) =
            Some ((q', s'), if is_success c then Ok () else Err (NvUnknown ''send command failed'')) \<and>
          c = cq_slot (nq_cq q) (ds_dev (ns_dma s')) (n mod cq_len (nq_cq q)) \<and>
          queue_at (Suc n) q' \<and> serves E q' idle busy lag \<and> idle (ns_hw s') (ds_dev (ns_dma s')) (Suc n))"
proof (intro conjI)
  show "\<exists>q1 s1. submit_admin_data E cmd (q, s) =
            ((q1, write_sq_y_tail_doorbell E (nq_qid q) (Suc n mod sq_len (nq_sq q)) s1), Ok ()) \<and>
          load (ds_dev (ns_dma s1)) (sq_slot_addr q n) 64 = to_submission cmd"
    using submit_admin_data_ok [OF assms(2,3,5)] by blast
qed (rule command_sync_ok [OF assms])

theorem nvme_command_in_order_witness:
  "\<exists>q' s' c. command_sync (simple_env demo_queue) command_default (demo_queue, demo_sys) =
     Some ((q', s'), if is_success c then Ok () else Err (NvUnknown ''send command failed'')) \<and>
     c = cq_slot (nq_cq demo_queue) (ds_dev (ns_dma s')) 0 \<and> queue_at 1 q'"
proof -
  have "flush_law (ne_dma (simple_env demo_queue))" "flush_local (ne_dma (simple_env demo_queue))"
    "invalidate_law (ne_dma (simple_env demo_queue))" using cached_op_laws by (simp_all add: simple_env_def)
  note run = nvme_command_in_order [OF simple_serves this demo_queue_at demo_idle, of command_default]
  from conjunct2 [OF run] obtain q' s' c where
    "command_sync (simple_env demo_queue) command_default (demo_queue, demo_sys) =
       Some ((q', s'), if is_success c then Ok () else Err (NvUnknown ''send command failed''))"
    "c = cq_slot (nq_cq demo_queue) (ds_dev (ns_dma s')) (0 mod cq_len (nq_cq demo_queue))" "queue_at (Suc 0) q'"
    by (elim exE conjE)
  then show ?thesis by (intro exI [of _ q'] exI [of _ s'] exI [of _ c]) simp
qed

text \<open>
  \<^bold>\<open>C28.\<close>  The 64 bytes of a read or write command carry the namespace, the buffer and the first block in the fields of the
  command format: the two words 10 and 11 are the block number in little-endian order.  The block count goes into word 12 as
  it is, although the format counts from zero: a transfer of \<open>k\<close> blocks asks the controller for \<open>k + 1\<close>.
\<close>

theorem nvm_cmd_encodes:
  "let bytes = to_submission (fst (nvm_cmd T opcode ns paddr lba blk_num f))
   in le_value (take 4 (drop 4 bytes)) = unat ns \<and> le_value (take 8 (drop 24 bytes)) = unat paddr \<and>
      le_value (take 8 (drop 40 bytes)) = unat lba \<and> le_value (take 4 (drop 48 bytes)) = unat blk_num"
proof -
  define c where "c = fst (nvm_cmd T opcode ns paddr lba blk_num f)"
  have c: "nsid c = ns" "prp1 c = paddr" "cdw10 c = ucast (lba AND 0xFFFFFFFF)" "cdw11 c = ucast (drop_bit 32 lba)"
    "cdw12 c = ucast blk_num" by (auto simp: c_def nvm_cmd_def command_default_def split: prod.splits)
  have add: "le_value (xs @ ys) = le_value xs + 256 ^ length xs * le_value ys" for xs ys
    by (induction xs) (simp_all add: algebra_simps)
  have ns: "le_value (take 4 (drop 4 (to_submission c))) = unat ns" "le_value (take 8 (drop 24 (to_submission c))) = unat paddr"
    by (simp_all add: to_submission_def c(1,2))
  have low: "unat (cdw10 c) = unat lba mod 2 ^ 32"
  proof -
    have "(0xFFFFFFFF :: 64 word) = mask 32" by (simp add: mask_eq_exp_minus_1)
    then have "lba AND 0xFFFFFFFF = take_bit 32 lba" by (simp add: take_bit_eq_mask)
    then have "cdw10 c = ucast (take_bit 32 lba)" using c(3) by simp
    then have "unat (cdw10 c) = take_bit 32 (unat (take_bit 32 lba))" by (simp add: unsigned_ucast_eq)
    also have "\<dots> = take_bit 32 (unat lba)" by (simp only: unsigned_take_bit_eq take_bit_take_bit min.idem)
    finally show ?thesis by (simp add: take_bit_eq_mod)
  qed
  have high: "unat (cdw11 c) = unat lba div 2 ^ 32"
  proof -
    have "unat lba < 2 ^ 32 * 2 ^ 32" using unsigned_less [of lba, where 'a = nat] by simp
    then have "unat lba div 2 ^ 32 < 2 ^ 32" by (simp add: less_mult_imp_div_less)
    moreover have "unat (cdw11 c) = take_bit 32 (unat (drop_bit 32 lba))" using c(4) by (simp add: unsigned_ucast_eq del: drop_bit_eq_div)
    moreover have "unat (drop_bit 32 lba) = unat lba div 2 ^ 32" 
      using unsigned_less [of lba, where 'a = nat] unfolding unsigned_drop_bit_eq by (simp add: drop_bit_eq_div take_bit_eq_mod)
    ultimately show ?thesis by (simp add: take_bit_eq_mod)
  qed
  have "take 8 (drop 40 (to_submission c)) = le_bytes 4 (unat (cdw10 c)) @ le_bytes 4 (unat (cdw11 c))"
    by (simp add: to_submission_def)
  then have "le_value (take 8 (drop 40 (to_submission c))) = unat (cdw10 c) + 2 ^ 32 * unat (cdw11 c)" by (simp add: add)
  also have "\<dots> = unat lba" unfolding low high by simp
  finally have lba: "le_value (take 8 (drop 40 (to_submission c))) = unat lba" .
  have "unat (cdw12 c) = unat blk_num" using unsigned_less [of blk_num, where 'a = nat] by (simp add: c(5) unsigned_ucast_eq take_bit_eq_mod)
  moreover have "le_value (take 4 (drop 48 (to_submission c))) = unat (cdw12 c)" by (simp add: to_submission_def)
  ultimately have "le_value (take 4 (drop 48 (to_submission c))) = unat blk_num" by simp
  then show ?thesis using ns lba unfolding Let_def c_def by (intro conjI)
qed

text \<open>
  Success is decided by one bit: a completion whose status code is even counts as a success, whatever the code, the
  code type and the retry bits are.  The code 2 (invalid field) and every other even code is lost.
\<close>

theorem even_status_is_success:
  "is_success c \<longleftrightarrow> even (unat (nc_status c) div 2)"
proof -
  have "is_success c \<longleftrightarrow> \<not> bit (nc_status c) 1"
    by (simp add: is_success_def bit_iff_and_push_bit_not_eq_0 del: push_bit_of_1)
  also have "\<dots> \<longleftrightarrow> \<not> bit (unat (nc_status c)) 1" by (simp add: bit_unsigned_iff del: bit_Suc)
  also have "\<dots> \<longleftrightarrow> even (unat (nc_status c) div 2)" by (simp add: bit_iff_odd)
  finally show ?thesis .
qed

text \<open>
  Command identifiers count up from the value of the counter, but after 65534 the sequence goes on with 0 twice, and
  65535 is never used: two commands that are sent one after the other can carry the same identifier.
\<close>

fun ids_from :: "nat \<Rightarrow> 32 word \<Rightarrow> 32 word list" where
  "ids_from 0 f = []"
| "ids_from (Suc n) f = (case nvme_next_id f of (i, f') \<Rightarrow> i # ids_from n f')"

theorem command_ids_repeat:
  assumes "n = 0xFFFF - unat f" "unat f \<le> 0xFFFF"
  shows "ids_from (n + 2) f = map (\<lambda>i. f + of_nat i) [0 ..< n] @ [0, 0]"
  using assms
proof (induction n arbitrary: f)
  case 0
  then have "unat f = unat (0xFFFF :: 32 word)" by simp
  then have "f = 0xFFFF" by (simp only: unsigned_word_eqI)
  then show ?case by (simp add: nvme_next_id_def numeral_2_eq_2)
next
  case (Suc n)
  have "unat f < 0xFFFF" using Suc.prems by simp
  then have ne: "f \<noteq> 0xFFFF" by auto
  have "unat f + 1 < 2 ^ 32" using \<open>unat f < 0xFFFF\<close> by simp
  then have "unat (f + 1) = unat f + 1" by (simp add: unat_word_ariths)
  then have "ids_from (n + 2) (f + 1) = map (\<lambda>i. f + 1 + of_nat i) [0 ..< n] @ [0, 0]" using Suc.prems by (intro Suc.IH) simp_all
  moreover have "[0 ..< Suc n] = 0 # map Suc [0 ..< n]" by (simp only: map_Suc_upt upt_conv_Cons zero_less_Suc)
  ultimately show ?case using ne by (simp add: nvme_next_id_def ac_simps)
qed

theorem command_ids_repeat_witness: "ids_from 4 0xFFFD = [0xFFFD, 0xFFFE, 0, 0]"
  using command_ids_repeat [of 2 "0xFFFD"] by (simp add: upt_rec)

section \<open>The block device\<close>

lemma nb_transfer_keeps:
  "nb_transfer f (b0, d0) = Some ((b1, d1), res) \<Longrightarrow>
   nb_completed b1 = nb_completed b0 \<and> next_request_id b1 = next_request_id b0 \<and> nb_irq_enabled b1 = nb_irq_enabled b0 \<and>
   pending_irq b1 = pending_irq b0"
  by (auto simp: nb_transfer_def split: option.splits prod.splits)

text \<open>
  \<^bold>\<open>C29.\<close>  A request that the NVMe block device accepts has a new identifier; polling it succeeds once and then asks to
  retry, and other requests are not affected.  With interrupts enabled at submission the queue is reported to the next
  interrupt; with interrupts disabled the set of queues waiting to be reported does not change.
\<close>

theorem nvme_request_completes_once:
  assumes "nb_submit E qid rq (b, d) = Some ((b', d'), Ok r)" "\<forall>i \<in> nb_completed b. i < next_request_id b"
  shows "r \<notin> nb_completed b \<and> (\<forall>i \<in> nb_completed b'. i < next_request_id b') \<and>
         (\<exists>b2. nb_poll r b' = (b2, Ok ()) \<and> nb_poll r b2 = (b2, Err BlkRetry) \<and> nb_completed b2 = nb_completed b) \<and>
         (nb_irq_enabled b \<longrightarrow> qid < 64 \<and> qid \<in> set (id_iter (snd (nb_handle_irq b')))) \<and>
         (\<not> nb_irq_enabled b \<longrightarrow> pending_irq b' = pending_irq b)"
proof -
  let ?m = "case rq_kind rq of
      ReadReq buff \<Rightarrow>
        if b_size buff < nm_lba_size (nb_namespace b)
        then Some ((b\<lparr>next_request_id := next_request_id b + 1\<rparr>, d), Err BlkNotSupported)
        else nb_transfer (block_read_sync E (nb_namespace b) (rq_block_id rq) (b_virt buff) (nm_lba_size (nb_namespace b)))
               (b\<lparr>next_request_id := next_request_id b + 1\<rparr>, d)
    | WriteReq src \<Rightarrow>
        if length src \<noteq> nm_lba_size (nb_namespace b)
        then Some ((b\<lparr>next_request_id := next_request_id b + 1\<rparr>, d), Err BlkNotSupported)
        else nb_transfer (block_write_sync E (nb_namespace b) (rq_block_id rq) src)
               (b\<lparr>next_request_id := next_request_id b + 1\<rparr>, d)"
  have "then_opt ?m (\<lambda>_ bd. Some (nb_finish qid (next_request_id b) bd)) = Some ((b', d'), Ok r)"
    using assms(1) unfolding nb_submit_def Let_def prod.case by (simp only: result.distinct prod.inject option.inject simp_thms split: if_splits)
  then obtain b1 d1 where m: "?m = Some ((b1, d1), Ok ())" and fin: "nb_finish qid (next_request_id b) (b1, d1) = ((b', d'), Ok r)"
    by (auto simp only: result_simps option.inject)
  have b1: "nb_completed b1 = nb_completed b" "next_request_id b1 = next_request_id b + 1" "nb_irq_enabled b1 = nb_irq_enabled b"
    "pending_irq b1 = pending_irq b"
  proof -
    obtain f where "nb_transfer f (b\<lparr>next_request_id := next_request_id b + 1\<rparr>, d) = Some ((b1, d1), Ok ())"
      using m by (cases "rq_kind rq") (simp_all split: if_splits)
    then show "nb_completed b1 = nb_completed b" "next_request_id b1 = next_request_id b + 1" "nb_irq_enabled b1 = nb_irq_enabled b"
      "pending_irq b1 = pending_irq b"
      by (simp_all add: nb_transfer_keeps)
  qed
  have r: "r = next_request_id b" using fin by (auto simp: nb_finish_def Let_def split: if_splits result.splits)
  have fresh: "r \<notin> nb_completed b" using assms(2) r by auto
  have b': "nb_completed b' = insert r (nb_completed b)" "next_request_id b' = Suc r"
    "nb_irq_enabled b \<Longrightarrow> id_insert (pending_irq b1) qid = Ok (pending_irq b') \<and> nb_irq_enabled b'"
    using fin b1 r by (auto simp: nb_finish_def Let_def split: if_splits result.splits)
  have off: "pending_irq b' = pending_irq b" if "\<not> nb_irq_enabled b"
    using fin b1 that by (auto simp: nb_finish_def Let_def split: if_splits result.splits)
  have irq: "qid < 64 \<and> bit (pending_irq b') qid" if "nb_irq_enabled b"
    using b'(3) [OF that] by (blast dest: id_insert_bit)
  have "nb_poll r b' = (b'\<lparr>nb_completed := nb_completed b\<rparr>, Ok ())"
    "nb_poll r (b'\<lparr>nb_completed := nb_completed b\<rparr>) = (b'\<lparr>nb_completed := nb_completed b\<rparr>, Err BlkRetry)"
    using fresh by (simp_all add: nb_poll_def b'(1))
  moreover have "\<forall>i \<in> nb_completed b'. i < next_request_id b'" using assms(2) r b'(1,2) by (simp add: less_SucI)
  moreover have "qid < 64 \<and> qid \<in> set (id_iter (snd (nb_handle_irq b')))" if "nb_irq_enabled b"
    using irq [OF that] b'(3) [OF that] by (simp add: nb_handle_irq_def set_id_iter)
  ultimately show ?thesis using fresh off by (intro conjI exI [of _ "b'\<lparr>nb_completed := nb_completed b\<rparr>"]) simp_all
qed

text \<open>A block device of the demo controller with blocks of two bytes.\<close>

definition demo_block :: "(nat \<times> bool) nvme_block" where
  "demo_block = with_namespace \<lparr>admin_queue = demo_queue, io_queues = [demo_queue], num_ns = 1, nv_sqes = 6, nv_cqes = 4\<rparr>
     (0, False) 0 \<lparr>nm_id = 1, nm_lba_size = 2, nm_lba_count = 8, nm_metadata_size = 0\<rparr>"

lemma demo_command_success:
  assumes "ns_hw s = (0, False)" "\<And>x. ds_dev (ns_dma s) x = 0 \<or> x < 8192 \<or> 8224 \<le> x"
  shows "\<exists>q' s'. command_sync (simple_env demo_queue) cmd (demo_queue, s) = Some ((q', s'), Ok ())"
proof -
  have "cq_bytes demo_queue (ds_dev (ns_dma s)) = cq_bytes demo_queue (ds_dev (ns_dma demo_sys))"
    unfolding cq_bytes_def
  proof (rule load_cong)
    fix x assume "arr_ptr (cq_queue (nq_cq demo_queue)) \<le> x"
      "x < arr_ptr (cq_queue (nq_cq demo_queue)) + arr_size (cq_queue (nq_cq demo_queue))"
    then show "ds_dev (ns_dma s) x = ds_dev (ns_dma demo_sys) x"
      using assms(2) [of x] by (simp add: demo_queue_def demo_array_def demo_sys_def)
  qed
  from simple_ring_cong [OF this] have idle: "simple_idle demo_queue (ns_hw s) (ds_dev (ns_dma s)) 0"
    using demo_idle assms(1) by (simp add: simple_idle_def demo_sys_def)
  have laws: "flush_law (ne_dma (simple_env demo_queue))" "flush_local (ne_dma (simple_env demo_queue))"
    "invalidate_law (ne_dma (simple_env demo_queue))" using cached_op_laws by (simp_all add: simple_env_def)
  obtain q' s' c where r: "command_sync (simple_env demo_queue) cmd (demo_queue, s) =
      Some ((q', s'), if is_success c then Ok () else Err (NvUnknown ''send command failed''))"
      "c = cq_slot (nq_cq demo_queue) (ds_dev (ns_dma s')) (0 mod cq_len (nq_cq demo_queue))"
      "simple_idle demo_queue (ns_hw s') (ds_dev (ns_dma s')) (Suc 0)"
    using command_sync_ok [OF simple_serves laws demo_queue_at idle] by blast
  have "is_success c" using r(2,3) by (simp add: simple_idle_def simple_ring_def demo_queue_def demo_array_def)
  then show ?thesis using r(1) by auto
qed

lemma demo_transfer:
  assumes "ns = \<lparr>nm_id = 1, nm_lba_size = 2, nm_lba_count = 8, nm_metadata_size = 0\<rparr>"
    "nv = \<lparr>admin_queue = demo_queue, io_queues = [demo_queue], num_ns = 1, nv_sqes = 6, nv_cqes = 4\<rparr>"
  shows "\<exists>st. block_write_sync (simple_env demo_queue) ns 3 [7, 8] (nv, demo_sys) = Some (st, Ok ())"
proof -
  let ?E = "simple_env demo_queue"
  let ?z = "demo_sys\<lparr>ns_dma := \<lparr>ds_cpu = write_bytes 16384 0 2 (\<lambda>_. 0),
    ds_dev = store 16384 (load (write_bytes 16384 0 2 (\<lambda>_. 0)) 16384 2) (\<lambda>_. 0), ds_heap = 16386\<rparr>\<rparr>"
  let ?d = "demo_array ToDevice 16384 2\<lparr>dc_handle := \<lparr>mh_handle = \<lparr>cpu_addr = 16384, dma_addr = 16384, h_size = 2, h_align = 2\<rparr>,
    map_alloc_virt = None\<rparr>\<rparr>"
  have "is_power_of_two 2" by (auto simp: is_power_of_two_iff intro: exI [of _ 1])
  then have new: "on_dma (array_new_zero_with_align (ne_dma ?E) (ne_mask ?E) 1 1 2 2 ToDevice) demo_sys = (?z, Ok ?d)"
    by (simp add: on_dma_def array_new_zero_with_align_def dcommon_new_zero_def alloc_coherent_def check_handle_def checked_add_def
        saturating_sub_def layout_from_size_align_def U64_MAX_def simple_env_def cached_op_def demo_sys_def demo_array_def
        flip: numeral_2_eq_2)
  define s1 where "s1 = fst (on_dma (array_copy_from_slice (ne_dma ?E) 1 ?d [[7], [8]]) ?z)"
  have copy: "on_dma (array_copy_from_slice (ne_dma ?E) 1 ?d [[7], [8]]) ?z = (s1, Ok ())"
    by (simp add: s1_def on_dma_def array_copy_from_slice_def array_len_def demo_array_def)
  have "ns_hw s1 = (0, False)" and far: "ds_dev (ns_dma s1) x = 0 \<or> x < 8192 \<or> 8224 \<le> x" for x
    by (simp_all add: s1_def on_dma_def array_copy_from_slice_def array_len_def demo_array_def confirm_write_def
        simple_env_def cached_op_def demo_sys_def store_def Let_def)
  then have s1: "ns_hw (s1\<lparr>id_factory := f\<rparr>) = (0, False)" "ds_dev (ns_dma (s1\<lparr>id_factory := f\<rparr>)) x = 0 \<or> x < 8192 \<or> 8224 \<le> x" for f x
    by simp_all
  have io: "\<exists>st. drop_after ?E ?d (io_command ?E cmd (nv, s1\<lparr>id_factory := f\<rparr>)) = Some (st, Ok ())" for cmd f
    using demo_command_success [of "s1\<lparr>id_factory := f\<rparr>" cmd, OF s1] assms(2) by (auto simp: io_command_def drop_after_def)
  show ?thesis
    using new copy io
    by (simp add: block_write_sync_def is_multiple_of_def assms(1) map_err_def
        split: prod.split flip: numeral_2_eq_2 del: One_nat_def)
qed

lemma demo_write:
  "\<exists>b' d'. nb_submit (simple_env demo_queue) 0 (write_request 3 [7, 8]) (demo_block, ns_dma demo_sys) = Some ((b', d'), Ok 1)"
proof -
  obtain st where st: "block_write_sync (simple_env demo_queue) (nb_namespace demo_block) 3 [7, 8] (nb_nvme demo_block, demo_sys) = Some (st, Ok ())"
    using demo_transfer [of "nb_namespace demo_block" "nb_nvme demo_block"] by (auto simp: demo_block_def with_namespace_def)
  have sys: "\<lparr>ns_hw = nb_hw demo_block, ns_dma = ns_dma demo_sys, id_factory = nb_ids demo_block\<rparr> = demo_sys"
    by (simp add: demo_block_def with_namespace_def demo_sys_def)
  have "nm_lba_count (nb_namespace demo_block) = 8" "nm_lba_size (nb_namespace demo_block) = 2" "next_request_id demo_block = 1"
    "nb_irq_enabled demo_block"
    by (simp_all add: demo_block_def with_namespace_def)
  moreover have "nb_transfer (block_write_sync (simple_env demo_queue) (nb_namespace demo_block) 3 [7, 8])
      (demo_block\<lparr>next_request_id := 2\<rparr>, ns_dma demo_sys) =
      Some ((demo_block\<lparr>next_request_id := 2, nb_nvme := fst st, nb_hw := ns_hw (snd st), nb_ids := id_factory (snd st)\<rparr>,
             ns_dma (snd st)), Ok ())"
    using st sys by (cases st) (simp add: nb_transfer_def map_err_def)
  ultimately show ?thesis
    by (simp add: nb_submit_def write_request_def nb_finish_def id_insert_def id_mask_def U64_MAX_def Let_def numeral_2_eq_2)
qed

theorem nvme_request_completes_once_witness:
  "\<exists>b' d' b2. nb_submit (simple_env demo_queue) 0 (write_request 3 [7, 8]) (demo_block, ns_dma demo_sys) = Some ((b', d'), Ok 1) \<and>
     nb_poll 1 b' = (b2, Ok ()) \<and> nb_poll 1 b2 = (b2, Err BlkRetry)"
proof -
  obtain b' d' where "nb_submit (simple_env demo_queue) 0 (write_request 3 [7, 8]) (demo_block, ns_dma demo_sys) = Some ((b', d'), Ok 1)"
    using demo_write by blast
  moreover from nvme_request_completes_once [OF this] have "\<exists>b2. nb_poll 1 b' = (b2, Ok ()) \<and> nb_poll 1 b2 = (b2, Err BlkRetry)"
    by (auto simp: demo_block_def with_namespace_def)
  ultimately show ?thesis by blast
qed

end
