(* ===== verification/Gic_Define.thy ===== *)
theory Gic_Define
  imports Registers
begin

unbundle bit_operations_syntax

text \<open>
  Interrupt identifiers of the ARM interrupt controller, \<open>driver/intc/gic/src/define.rs\<close>, the interrupt specifiers of the
  device tree and the bit-per-interrupt registers, \<open>version/mod.rs\<close>.  An identifier is a \<open>u32\<close> as a natural number.
\<close>

datatype trigger = Edge | Level

type_synonym int_id = nat

record irq_config =
  ic_id :: int_id
  ic_trigger :: trigger

definition intid_sgi :: "nat \<Rightarrow> (string, int_id) result" where
  "intid_sgi sgi = (if \<not> sgi < 16 then Panic else Ok sgi)"

definition intid_ppi :: "nat \<Rightarrow> (string, int_id) result" where
  "intid_ppi ppi = (if \<not> ppi < 32 - 16 then Panic else Ok (16 + ppi))"

definition intid_spi :: "nat \<Rightarrow> (string, int_id) result" where
  "intid_spi spi = (if \<not> spi < 1020 then Panic else Ok (32 + spi))"

definition is_sgi :: "int_id \<Rightarrow> bool" where
  "is_sgi i \<longleftrightarrow> i < 16"

definition is_private :: "int_id \<Rightarrow> bool" where
  "is_private i \<longleftrightarrow> i < 32"

definition is_special :: "int_id \<Rightarrow> bool" where
  "is_special i \<longleftrightarrow> 1020 \<le> i \<and> i < 1024"

section \<open>Interrupt specifiers\<close>

text \<open>A sum of two \<open>u32\<close> that leaves the range panics.\<close>

definition add_u32 :: "nat \<Rightarrow> nat \<Rightarrow> (string, nat) result" where
  "add_u32 a b = (if a + b < 2 ^ 32 then Ok (a + b) else Panic)"

definition irq_number :: "nat \<Rightarrow> nat \<Rightarrow> (string, nat) result" where
  "irq_number irq_type irq_num =
     (if irq_type = 0 then add_u32 32 irq_num
      else if irq_type = 1 then add_u32 16 irq_num
      else if irq_type = 2 then add_u32 4096 irq_num
      else if irq_type = 3 then add_u32 1056 irq_num
      else if irq_type = 4 then Ok irq_num
      else if irq_type = 5 then
        (if 16 \<le> irq_num then rbind (add_u32 1056 irq_num) (\<lambda>s. Ok (s - 16)) else add_u32 16 irq_num)
      else Err ''Invalid IRQ type'')"

definition irq_trigger :: "nat \<Rightarrow> nat \<Rightarrow> (string, trigger) result" where
  "irq_trigger irq_type irq_flags =
     (if irq_flags = 1 \<or> irq_flags = 2 \<or> irq_flags = 3 then Ok Edge
      else if irq_flags = 4 \<or> irq_flags = 8 then Ok Level
      else if irq_flags = 0 \<and> irq_type = 5 then Ok Level
      else if irq_flags = 0 then Err ''IRQ_TYPE_NONE is not allowed for IRQ type''
      else Err ''Invalid IRQ trigger type'')"

definition fdt_parse_irq_config :: "nat list \<Rightarrow> (string, irq_config) result" where
  "fdt_parse_irq_config itr =
     (if length itr = 1 \<and> itr ! 0 < 16 then
        rbind (intid_sgi (itr ! 0)) (\<lambda>i. Ok \<lparr>ic_id = i, ic_trigger = Edge\<rparr>)
      else if length itr < 3 then Err ''Invalid IRQ configuration: need at least 3 parameters''
      else
        rbind (irq_number (itr ! 0) (itr ! 1)) (\<lambda>hwirq.
        rbind (irq_trigger (itr ! 0) (itr ! 2 mod 16)) (\<lambda>trig.
          Ok \<lparr>ic_id = hwirq, ic_trigger = trig\<rparr>)))"

section \<open>Registers with one bit per interrupt\<close>

text \<open>
  The registers are the hardware: reading one may change it, so \<open>gh_read\<close> also returns the new state.
\<close>

datatype gic_reg =
    D_CTLR | D_TYPER | D_IIDR | D_SGIR
  | IGROUPR nat | ISENABLER nat | ICENABLER nat | ISPENDR nat | ICPENDR nat | ISACTIVER nat | ICACTIVER nat
  | IPRIORITYR nat | ITARGETSR nat | ICFGR nat
  | C_CTLR | C_PMR | C_IAR | C_EOIR | C_DIR | C_HPPIR | C_RPR
  | V_AIAR
  | H_HCR | H_VTR | H_APR | H_MISR | H_EISR0 | H_EISR1 | H_ELRSR0 | H_ELRSR1 | H_LR nat

record 'h gic_hw =
  gh_read :: "gic_reg \<Rightarrow> 'h \<Rightarrow> 'h \<times> 32 word"
  gh_write :: "gic_reg \<Rightarrow> 32 word \<Rightarrow> 'h \<Rightarrow> 'h"

definition irq_bit :: "nat \<Rightarrow> 32 word" where
  "irq_bit i = push_bit (i mod 32) 1"

definition set_irq_bit :: "'h gic_hw \<Rightarrow> (nat \<Rightarrow> gic_reg) \<Rightarrow> int_id \<Rightarrow> 'h \<Rightarrow> 'h \<times> (unit, unit) result" where
  "set_irq_bit H reg i h =
     (if \<not> i div 32 < 0x20 then (h, Panic) else (gh_write H (reg (i div 32)) (irq_bit i) h, Ok ()))"

definition clear_irq_bit :: "'h gic_hw \<Rightarrow> (nat \<Rightarrow> gic_reg) \<Rightarrow> int_id \<Rightarrow> 'h \<Rightarrow> 'h \<times> (unit, unit) result" where
  "clear_irq_bit H reg i h =
     (if \<not> i div 32 < 0x20 then (h, Panic)
      else case gh_read H (reg (i div 32)) h of
        (h, old) \<Rightarrow>
          if old AND irq_bit i = 0 then (h, Ok ())
          else (gh_write H (reg (i div 32)) (old AND NOT (irq_bit i)) h, Ok ()))"

definition get_irq_bit :: "'h gic_hw \<Rightarrow> (nat \<Rightarrow> gic_reg) \<Rightarrow> int_id \<Rightarrow> 'h \<Rightarrow> 'h \<times> (unit, bool) result" where
  "get_irq_bit H reg i h =
     (if \<not> i div 32 < 0x20 then (h, Panic)
      else case gh_read H (reg (i div 32)) h of (h, v) \<Rightarrow> (h, Ok (v AND irq_bit i \<noteq> 0)))"

lemma bit_irq_bit: "bit (irq_bit i) k \<longleftrightarrow> k = i mod 32"
  by (auto simp: irq_bit_def bit_simps)

lemma and_irq_bit: "v AND irq_bit i \<noteq> 0 \<longleftrightarrow> bit v (i mod 32)"
  unfolding irq_bit_def by (simp add: bit_iff_and_push_bit_not_eq_0 [of v])

lemma and_irq_bit_zero: "v AND irq_bit i = 0 \<longleftrightarrow> \<not> bit v (i mod 32)"
  using and_irq_bit by blast

end
