(* ===== verification/Gic_V2.thy ===== *)
theory Gic_V2
  imports Gic_Define
begin

unbundle bit_operations_syntax

text \<open>
  The GICv2 driver, \<open>driver/intc/gic/src/version/v2\<close>: the distributor (\<open>gicd.rs\<close>), the driver, the interface of a CPU
  and that of the hypervisor (\<open>mod.rs\<close>).  Assertions and indices out of range are panics.
\<close>

abbreviation reg_read :: "'h gic_hw \<Rightarrow> gic_reg \<Rightarrow> 'h \<Rightarrow> 'h \<times> (unit, 32 word) result" where
  "reg_read H r h \<equiv> (case gh_read H r h of (h, v) \<Rightarrow> (h, Ok v))"

definition reg_modify :: "'h gic_hw \<Rightarrow> gic_reg \<Rightarrow> (32 word \<Rightarrow> 32 word) \<Rightarrow> 'h \<Rightarrow> 'h" where
  "reg_modify H r f h = (case gh_read H r h of (h, v) \<Rightarrow> gh_write H r (f v) h)"

text \<open>A loop that writes one value to a range of registers.\<close>

definition reg_fill :: "'h gic_hw \<Rightarrow> (nat \<Rightarrow> gic_reg) \<Rightarrow> 32 word \<Rightarrow> nat list \<Rightarrow> 'h \<Rightarrow> 'h" where
  "reg_fill H reg v is h = fold (\<lambda>i. gh_write H (reg i) v) is h"

definition div_ceil :: "nat \<Rightarrow> nat \<Rightarrow> nat" where
  "div_ceil a b = (a + b - 1) div b"

section \<open>Distributor\<close>

definition gicd_disable :: "tock \<Rightarrow> 'h gic_hw \<Rightarrow> 'h \<Rightarrow> 'h" where
  "gicd_disable T H = reg_modify H D_CTLR (\<lambda>v. tk_modify T 1 1 0 (tk_modify T 0 1 0 v))"

definition gicd_enable :: "tock \<Rightarrow> 'h gic_hw \<Rightarrow> 'h \<Rightarrow> 'h" where
  "gicd_enable T H = reg_modify H D_CTLR (\<lambda>v. tk_modify T 1 1 1 (tk_modify T 0 1 1 v))"

definition irq_disable_all :: "'h gic_hw \<Rightarrow> nat \<Rightarrow> 'h \<Rightarrow> 'h" where
  "irq_disable_all H max_interrupts = reg_fill H ICENABLER (- 1) [0 ..< min (div_ceil max_interrupts 32) 0x20]"

definition pending_clear_all :: "'h gic_hw \<Rightarrow> nat \<Rightarrow> 'h \<Rightarrow> 'h" where
  "pending_clear_all H max_interrupts = reg_fill H ICPENDR (- 1) [0 ..< min (div_ceil max_interrupts 32) 0x20]"

definition active_clear_all :: "'h gic_hw \<Rightarrow> nat \<Rightarrow> 'h \<Rightarrow> 'h" where
  "active_clear_all H max_interrupts = reg_fill H ICACTIVER (- 1) [0 ..< min (div_ceil max_interrupts 32) 0x20]"

definition groups_all_to_0 :: "'h gic_hw \<Rightarrow> nat \<Rightarrow> 'h \<Rightarrow> 'h" where
  "groups_all_to_0 H max_interrupts = reg_fill H IGROUPR 0 [0 ..< min (div_ceil max_interrupts 32) 0x20]"

definition set_default_sgi_ppi_priorities :: "'h gic_hw \<Rightarrow> 'h \<Rightarrow> 'h" where
  "set_default_sgi_ppi_priorities H = reg_fill H IPRIORITYR 0xA0 [0 ..< 32]"

definition set_default_spi_priorities :: "'h gic_hw \<Rightarrow> nat \<Rightarrow> 'h \<Rightarrow> 'h" where
  "set_default_spi_priorities H max_interrupts = reg_fill H IPRIORITYR 0xA0 [32 ..< min (div_ceil max_interrupts 4) 1024]"

definition configure_interrupt_targets :: "'h gic_hw \<Rightarrow> nat \<Rightarrow> 'h \<Rightarrow> 'h" where
  "configure_interrupt_targets H max_interrupts h =
     (if max_interrupts \<le> 32 then h
      else
        let num_regs = div_ceil (max_interrupts - 32) 4; target_reg_start = 32 div 4;
            target_reg_end = min (target_reg_start + num_regs) 1024
        in reg_fill H ITARGETSR 1 [target_reg_start ..< target_reg_end] h)"

definition configure_interrupt_config :: "'h gic_hw \<Rightarrow> nat \<Rightarrow> 'h \<Rightarrow> 'h" where
  "configure_interrupt_config H max_interrupts = reg_fill H ICFGR 0 [0 ..< min (div_ceil max_interrupts 16) 0x40]"

definition max_spi_num :: "tock \<Rightarrow> 'h gic_hw \<Rightarrow> 'h \<Rightarrow> 'h \<times> nat" where
  "max_spi_num T H h = (case gh_read H D_TYPER h of (h, v) \<Rightarrow> (h, (unat (tk_get T 0 5 v) + 1) * 32))"

definition cfg_bit :: "nat \<Rightarrow> 32 word" where
  "cfg_bit i = push_bit (i mod 16 * 2 + 1) 1"

lemma bit_cfg_bit: "bit (cfg_bit i) k \<longleftrightarrow> k = i mod 16 * 2 + 1"
proof -
  have "i mod 16 < 16" by simp
  then have "i mod 16 * 2 + 1 < 32" by linarith
  then show ?thesis unfolding cfg_bit_def by (auto simp: bit_simps)
qed

definition gicd_set_cfg :: "'h gic_hw \<Rightarrow> int_id \<Rightarrow> trigger \<Rightarrow> 'h \<Rightarrow> 'h \<times> (unit, unit) result" where
  "gicd_set_cfg H i cfg h =
     (let reg_index = i div 16; m = cfg_bit i
      in if \<not> reg_index < 0x40 then (h, Panic)
         else case gh_read H (ICFGR reg_index) h of
           (h, current) \<Rightarrow>
             (gh_write H (ICFGR reg_index) (case cfg of Level \<Rightarrow> current AND NOT m | Edge \<Rightarrow> current OR m) h, Ok ()))"

definition gicd_get_cfg :: "'h gic_hw \<Rightarrow> int_id \<Rightarrow> 'h \<Rightarrow> 'h \<times> (unit, trigger) result" where
  "gicd_get_cfg H i h =
     (let reg_index = i div 16; m = cfg_bit i
      in if \<not> reg_index < 0x40 then (h, Panic)
         else case gh_read H (ICFGR reg_index) h of
           (h, current) \<Rightarrow> (h, Ok (if current AND m \<noteq> 0 then Edge else Level)))"

section \<open>Driver\<close>

definition gic_init :: "tock \<Rightarrow> 'h gic_hw \<Rightarrow> 'h \<Rightarrow> 'h" where
  "gic_init T H h =
     (case max_spi_num T H (gicd_disable T H h) of (h, max_spi) \<Rightarrow>
        (gicd_enable T H \<circ> configure_interrupt_config H max_spi \<circ> configure_interrupt_targets H max_spi \<circ>
         set_default_spi_priorities H max_spi \<circ> groups_all_to_0 H max_spi \<circ> active_clear_all H max_spi \<circ>
         pending_clear_all H max_spi \<circ> irq_disable_all H max_spi) h)"

definition set_irq_enable :: "'h gic_hw \<Rightarrow> int_id \<Rightarrow> bool \<Rightarrow> 'h \<Rightarrow> 'h \<times> (unit, unit) result" where
  "set_irq_enable H i enable = (if enable then set_irq_bit H ISENABLER i else set_irq_bit H ICENABLER i)"

definition is_irq_enable :: "'h gic_hw \<Rightarrow> int_id \<Rightarrow> 'h \<Rightarrow> 'h \<times> (unit, bool) result" where
  "is_irq_enable H i = get_irq_bit H ISENABLER i"

definition set_priority :: "'h gic_hw \<Rightarrow> int_id \<Rightarrow> 8 word \<Rightarrow> 'h \<Rightarrow> 'h \<times> (unit, unit) result" where
  "set_priority H i priority h =
     (if \<not> i < 1024 then (h, Panic) else (gh_write H (IPRIORITYR i) (ucast priority) h, Ok ()))"

definition get_priority :: "'h gic_hw \<Rightarrow> int_id \<Rightarrow> 'h \<Rightarrow> 'h \<times> (unit, 8 word) result" where
  "get_priority H i h =
     (if \<not> i < 1024 then (h, Panic) else case gh_read H (IPRIORITYR i) h of (h, v) \<Rightarrow> (h, Ok (ucast v)))"

definition target_list_add :: "8 word \<Rightarrow> nat \<Rightarrow> (unit, 8 word) result" where
  "target_list_add raw cpu = (if \<not> cpu < 8 then Panic else Ok (raw OR push_bit cpu 1))"

fun target_list_from :: "8 word \<Rightarrow> nat list \<Rightarrow> (unit, 8 word) result" where
  "target_list_from raw [] = Ok raw"
| "target_list_from raw (cpu # cpus) = rbind (target_list_add raw cpu) (\<lambda>raw. target_list_from raw cpus)"

definition target_list_new :: "nat list \<Rightarrow> (unit, 8 word) result" where
  "target_list_new cpus = target_list_from 0 cpus"

definition cpu_id_list_of :: "8 word \<Rightarrow> nat list" where
  "cpu_id_list_of raw = filter (\<lambda>i. raw AND push_bit i 1 \<noteq> 0) [0 ..< 8]"

definition set_target_cpu :: "'h gic_hw \<Rightarrow> int_id \<Rightarrow> 8 word \<Rightarrow> 'h \<Rightarrow> 'h \<times> (unit, unit) result" where
  "set_target_cpu H i target_list h =
     (if is_private i then (h, Panic)
      else if \<not> i < 1024 then (h, Panic)
      else (gh_write H (ITARGETSR i) (ucast target_list) h, Ok ()))"

definition get_target_cpu :: "'h gic_hw \<Rightarrow> int_id \<Rightarrow> 'h \<Rightarrow> 'h \<times> (unit, 8 word) result" where
  "get_target_cpu H i h =
     (if is_private i then (h, Panic)
      else if \<not> i < 1024 then (h, Panic)
      else case gh_read H (ITARGETSR i) h of (h, v) \<Rightarrow> (h, Ok (ucast v)))"

definition set_interrupt_group1 :: "'h gic_hw \<Rightarrow> int_id \<Rightarrow> bool \<Rightarrow> 'h \<Rightarrow> 'h \<times> (unit, unit) result" where
  "set_interrupt_group1 H i group1 = (if group1 then set_irq_bit H IGROUPR i else clear_irq_bit H IGROUPR i)"

datatype sgi_target = TargetList "8 word" | AllOther | Current

definition send_sgi :: "tock \<Rightarrow> 'h gic_hw \<Rightarrow> int_id \<Rightarrow> sgi_target \<Rightarrow> 'h \<Rightarrow> 'h \<times> (unit, unit) result" where
  "send_sgi T H sgi_id tgt h =
     (if \<not> sgi_id < 16 then (h, Panic)
      else
        case (case tgt of TargetList l \<Rightarrow> (0, ucast l) | AllOther \<Rightarrow> (1, 0) | Current \<Rightarrow> (2, 0)) of
          (filt, target_list) \<Rightarrow>
            (gh_write H D_SGIR (tk_val T 0 4 (of_nat sgi_id) OR tk_val T 16 8 target_list OR tk_val T 24 2 filt) h, Ok ()))"

definition set_active :: "'h gic_hw \<Rightarrow> int_id \<Rightarrow> bool \<Rightarrow> 'h \<Rightarrow> 'h \<times> (unit, unit) result" where
  "set_active H i active = (if active then set_irq_bit H ISACTIVER i else set_irq_bit H ICACTIVER i)"

definition is_active :: "'h gic_hw \<Rightarrow> int_id \<Rightarrow> 'h \<Rightarrow> 'h \<times> (unit, bool) result" where
  "is_active H i = get_irq_bit H ISACTIVER i"

definition set_pending :: "'h gic_hw \<Rightarrow> int_id \<Rightarrow> bool \<Rightarrow> 'h \<Rightarrow> 'h \<times> (unit, unit) result" where
  "set_pending H i pending = (if pending then set_irq_bit H ISPENDR i else set_irq_bit H ICPENDR i)"

definition is_pending :: "'h gic_hw \<Rightarrow> int_id \<Rightarrow> 'h \<Rightarrow> 'h \<times> (unit, bool) result" where
  "is_pending H i = get_irq_bit H ISPENDR i"

definition iidr_raw :: "'h gic_hw \<Rightarrow> 'h \<Rightarrow> 'h \<times> 32 word" where
  "iidr_raw H = gh_read H D_IIDR"

definition typer_raw :: "'h gic_hw \<Rightarrow> 'h \<Rightarrow> 'h \<times> 32 word" where
  "typer_raw H = gh_read H D_TYPER"

text \<open>\<open>setup_irq_by_fdt\<close> (\<open>rdif.rs\<close>) unwraps the result of the parser.\<close>

definition setup_irq_by_fdt :: "'h gic_hw \<Rightarrow> nat list \<Rightarrow> 'h \<Rightarrow> 'h \<times> (unit, nat) result" where
  "setup_irq_by_fdt H irq_prop h =
     (case fdt_parse_irq_config irq_prop of
        Ok c \<Rightarrow> and_then (gicd_set_cfg H (ic_id c) (ic_trigger c) h) (\<lambda>_ h. (h, Ok (ic_id c)))
      | _ \<Rightarrow> (h, Panic))"

section \<open>CPU interface\<close>

datatype ack = SgiAck int_id nat | OtherAck int_id

definition ack_is_special :: "ack \<Rightarrow> bool" where
  "ack_is_special a = (case a of OtherAck i \<Rightarrow> is_special i | SgiAck i c \<Rightarrow> False)"

text \<open>The value of \<open>IAR\<close>, \<open>EOIR\<close> and \<open>DIR\<close>, which share their layout.\<close>

definition ack_value :: "tock \<Rightarrow> ack \<Rightarrow> 32 word" where
  "ack_value T a =
     (case a of
        OtherAck i \<Rightarrow> tk_val T 0 10 (of_nat i)
      | SgiAck i cpu_id \<Rightarrow> tk_val T 0 10 (of_nat i) OR tk_val T 10 3 (of_nat cpu_id))"

definition ack_of_value :: "tock \<Rightarrow> 32 word \<Rightarrow> ack" where
  "ack_of_value T v =
     (let i = unat (tk_get T 0 10 v) in if is_sgi i then SgiAck i (unat (tk_get T 10 3 v)) else OtherAck i)"

definition init_current_cpu :: "tock \<Rightarrow> 'h gic_hw \<Rightarrow> 'h \<Rightarrow> 'h" where
  "init_current_cpu T H h =
     set_default_sgi_ppi_priorities H
       (gh_write H C_CTLR (tk_val T 0 1 1) (gh_write H C_PMR (tk_val T 0 8 0xFF) (gh_write H C_CTLR 0 h)))"

definition set_eoi_mode_ns :: "tock \<Rightarrow> 'h gic_hw \<Rightarrow> bool \<Rightarrow> 'h \<Rightarrow> 'h" where
  "set_eoi_mode_ns T H is_two_step = reg_modify H C_CTLR (tk_modify T 9 1 (if is_two_step then 1 else 0))"

definition eoi_mode_ns :: "tock \<Rightarrow> 'h gic_hw \<Rightarrow> 'h \<Rightarrow> 'h \<times> bool" where
  "eoi_mode_ns T H h = (case gh_read H C_CTLR h of (h, v) \<Rightarrow> (h, tk_get T 9 1 v \<noteq> 0))"

definition gic_ack :: "tock \<Rightarrow> 'h gic_hw \<Rightarrow> 'h \<Rightarrow> 'h \<times> ack" where
  "gic_ack T H h = (case gh_read H C_IAR h of (h, v) \<Rightarrow> (h, ack_of_value T v))"

definition gic_eoi :: "tock \<Rightarrow> 'h gic_hw \<Rightarrow> ack \<Rightarrow> 'h \<Rightarrow> 'h" where
  "gic_eoi T H a = gh_write H C_EOIR (ack_value T a)"

definition gic_dir :: "tock \<Rightarrow> 'h gic_hw \<Rightarrow> ack \<Rightarrow> 'h \<Rightarrow> 'h" where
  "gic_dir T H a = gh_write H C_DIR (ack_value T a)"

definition get_highest_priority_pending :: "'h gic_hw \<Rightarrow> 'h \<Rightarrow> 'h \<times> 32 word" where
  "get_highest_priority_pending H h = (case gh_read H C_HPPIR h of (h, v) \<Rightarrow> (h, v AND 0x3FF))"

definition get_running_priority :: "'h gic_hw \<Rightarrow> 'h \<Rightarrow> 'h \<times> 8 word" where
  "get_running_priority H h = (case gh_read H C_RPR h of (h, v) \<Rightarrow> (h, ucast (v AND 0xFF)))"

definition set_priority_mask :: "tock \<Rightarrow> 'h gic_hw \<Rightarrow> 8 word \<Rightarrow> 'h \<Rightarrow> 'h" where
  "set_priority_mask T H m = gh_write H C_PMR (tk_val T 0 8 (ucast m))"

text \<open>The operations on one interrupt first assert that it is private.\<close>

definition private_only :: "int_id \<Rightarrow> ('h \<Rightarrow> 'h \<times> (unit, 'r) result) \<Rightarrow> 'h \<Rightarrow> 'h \<times> (unit, 'r) result" where
  "private_only i f h = (if \<not> is_private i then (h, Panic) else f h)"

definition cpu_set_irq_enable :: "'h gic_hw \<Rightarrow> int_id \<Rightarrow> bool \<Rightarrow> 'h \<Rightarrow> 'h \<times> (unit, unit) result" where
  "cpu_set_irq_enable H i enable = private_only i (set_irq_enable H i enable)"

definition cpu_is_irq_enable :: "'h gic_hw \<Rightarrow> int_id \<Rightarrow> 'h \<Rightarrow> 'h \<times> (unit, bool) result" where
  "cpu_is_irq_enable H i = private_only i (is_irq_enable H i)"

definition cpu_set_priority :: "'h gic_hw \<Rightarrow> int_id \<Rightarrow> 8 word \<Rightarrow> 'h \<Rightarrow> 'h \<times> (unit, unit) result" where
  "cpu_set_priority H i p = private_only i (set_priority H i p)"

definition cpu_get_priority :: "'h gic_hw \<Rightarrow> int_id \<Rightarrow> 'h \<Rightarrow> 'h \<times> (unit, 8 word) result" where
  "cpu_get_priority H i = private_only i (get_priority H i)"

definition cpu_set_active :: "'h gic_hw \<Rightarrow> int_id \<Rightarrow> bool \<Rightarrow> 'h \<Rightarrow> 'h \<times> (unit, unit) result" where
  "cpu_set_active H i a = private_only i (set_active H i a)"

definition cpu_is_active :: "'h gic_hw \<Rightarrow> int_id \<Rightarrow> 'h \<Rightarrow> 'h \<times> (unit, bool) result" where
  "cpu_is_active H i = private_only i (is_active H i)"

definition cpu_set_pending :: "'h gic_hw \<Rightarrow> int_id \<Rightarrow> bool \<Rightarrow> 'h \<Rightarrow> 'h \<times> (unit, unit) result" where
  "cpu_set_pending H i p = private_only i (set_pending H i p)"

definition cpu_is_pending :: "'h gic_hw \<Rightarrow> int_id \<Rightarrow> 'h \<Rightarrow> 'h \<times> (unit, bool) result" where
  "cpu_is_pending H i = private_only i (is_pending H i)"

text \<open>\<open>set_cfg\<close> and \<open>get_cfg\<close> have no such assertion.\<close>

definition cpu_set_cfg :: "'h gic_hw \<Rightarrow> int_id \<Rightarrow> trigger \<Rightarrow> 'h \<Rightarrow> 'h \<times> (unit, unit) result" where
  "cpu_set_cfg H i trig = gicd_set_cfg H i trig"

definition cpu_get_cfg :: "'h gic_hw \<Rightarrow> int_id \<Rightarrow> 'h \<Rightarrow> 'h \<times> (unit, trigger) result" where
  "cpu_get_cfg H i = gicd_get_cfg H i"

end
