(* ===== verification/Gic_V3.thy ===== *)
theory Gic_V3
  imports Gic_V2
begin

unbundle bit_operations_syntax

text \<open>
  The distributor and the redistributors of the GICv3 driver, \<open>driver/intc/gic/src/version/v3/{gicd,gicr}.rs\<close>, and the
  affinities of \<open>mod.rs\<close>.  The registers are the hardware; the redistributor number \<open>n\<close> is the one at \<open>n\<close> times
  the size of its frames.  The 32-bit registers of the distributor that the two versions share keep their names.
\<close>

datatype gicr_reg =
    R_CTLR | R_WAKER | R_SYNCR
  | R_IGROUPR0 | R_ISENABLER0 | R_ICENABLER0 | R_ISPENDR0 | R_ICPENDR0 | R_ISACTIVER0 | R_ICACTIVER0
  | R_IPRIORITYR nat | R_ICFGR nat | R_IGRPMODR0

datatype gic3_reg =
    Dist gic_reg | D_TYPER2 | D_NSACR nat | D_IGRPMODR nat | D_INMIR nat
  | SETSPI_NSR | SETSPI_SR | CLRSPI_NSR | CLRSPI_SR
  | Redist nat gicr_reg

datatype gic3_reg64 =
    IROUTER nat
  | R_TYPER nat | R_SETLPIR nat | R_CLRLPIR nat | R_INVLPIR nat | R_INVALLR nat
  | MPIDR_EL1 | CURRENT_EL | ICC_SRE_EL1 | ICC_SRE_EL2 | ICC_PMR_EL1 | ICC_IGRPEN0_EL1 | ICC_IGRPEN1_EL1 | ICC_CTLR_EL1
  | ICC_IAR0_EL1 | ICC_IAR1_EL1 | ICC_EOIR0_EL1 | ICC_EOIR1_EL1 | ICC_DIR_EL1 | ICC_SGI1R_EL1

record 'h gic3_hw =
  g3_read :: "gic3_reg \<Rightarrow> 'h \<Rightarrow> 'h \<times> 32 word"
  g3_write :: "gic3_reg \<Rightarrow> 32 word \<Rightarrow> 'h \<Rightarrow> 'h"
  g3_read64 :: "gic3_reg64 \<Rightarrow> 'h \<Rightarrow> 'h \<times> 64 word"
  g3_write64 :: "gic3_reg64 \<Rightarrow> 64 word \<Rightarrow> 'h \<Rightarrow> 'h"

text \<open>The distributor as hardware of the shared operations.\<close>

definition dist :: "'h gic3_hw \<Rightarrow> 'h gic_hw" where
  "dist H = \<lparr>gh_read = (\<lambda>r. g3_read H (Dist r)), gh_write = (\<lambda>r. g3_write H (Dist r))\<rparr>"

definition reg_update :: "'h gic3_hw \<Rightarrow> gic3_reg \<Rightarrow> (32 word \<Rightarrow> 32 word) \<Rightarrow> 'h \<Rightarrow> 'h" where
  "reg_update H r f h = (case g3_read H r h of (h, v) \<Rightarrow> g3_write H r (f v) h)"

definition reg_flag :: "tock \<Rightarrow> 'h gic3_hw \<Rightarrow> gic3_reg \<Rightarrow> nat \<Rightarrow> 'h \<Rightarrow> 'h \<times> bool" where
  "reg_flag T H r off h = (case g3_read H r h of (h, v) \<Rightarrow> (h, tk_get T off 1 v \<noteq> 0))"

section \<open>Affinities\<close>

record affinity =
  aff0 :: "8 word"
  aff1 :: "8 word"
  aff2 :: "8 word"
  aff3 :: "8 word"

definition affinity_value :: "affinity \<Rightarrow> 32 word" where
  "affinity_value a = ucast (aff0 a) OR push_bit 8 (ucast (aff1 a)) OR push_bit 16 (ucast (aff2 a)) OR push_bit 24 (ucast (aff3 a))"

definition from_mpidr :: "tock \<Rightarrow> 64 word \<Rightarrow> affinity" where
  "from_mpidr T m =
     \<lparr>aff0 = ucast (tk_read T 0 8 m), aff1 = ucast (tk_read T 8 8 m), aff2 = ucast (tk_read T 16 8 m),
      aff3 = ucast (tk_read T 32 8 m)\<rparr>"

definition current_affinity :: "tock \<Rightarrow> 'h gic3_hw \<Rightarrow> 'h \<Rightarrow> 'h \<times> affinity" where
  "current_affinity T H h = (case g3_read64 H MPIDR_EL1 h of (h, m) \<Rightarrow> (h, from_mpidr T m))"

section \<open>Distributor\<close>

datatype security_state = Secure | NonSecure | Single

definition is_single_security_state :: "tock \<Rightarrow> 'h gic3_hw \<Rightarrow> 'h \<Rightarrow> 'h \<times> bool" where
  "is_single_security_state T H = reg_flag T H (Dist D_CTLR) 6"

definition has_security_extensions :: "tock \<Rightarrow> 'h gic3_hw \<Rightarrow> 'h \<Rightarrow> 'h \<times> bool" where
  "has_security_extensions T H = reg_flag T H (Dist D_TYPER) 10"

definition detect_security_state_via_nsacr :: "tock \<Rightarrow> 'h gic3_hw \<Rightarrow> 'h \<Rightarrow> 'h \<times> security_state" where
  "detect_security_state_via_nsacr T H h =
     (case is_single_security_state T H h of (h, single) \<Rightarrow>
        if single then (h, Single)
        else
          case g3_read H (D_NSACR 0) h of (h, original_value) \<Rightarrow>
          case g3_read H (D_NSACR 0) (g3_write H (D_NSACR 0) 0x55555555 h) of (h, read_value) \<Rightarrow>
            (g3_write H (D_NSACR 0) original_value h,
             if read_value = 0x55555555 then Secure else if read_value = 0 then NonSecure else Secure))"

definition get_security_state :: "tock \<Rightarrow> 'h gic3_hw \<Rightarrow> 'h \<Rightarrow> 'h \<times> security_state" where
  "get_security_state T H h =
     (case is_single_security_state T H h of (h, single) \<Rightarrow>
        if single then (h, Single)
        else case has_security_extensions T H h of (h, extensions) \<Rightarrow>
          if \<not> extensions then (h, Single) else detect_security_state_via_nsacr T H h)"

definition max_intid :: "tock \<Rightarrow> 'h gic3_hw \<Rightarrow> 'h \<Rightarrow> 'h \<times> (unit, nat) result" where
  "max_intid T H h =
     (case g3_read H (Dist D_TYPER) h of (h, v) \<Rightarrow>
        let id_bits = unat (tk_get T 19 5 v) in (h, if id_bits + 1 < 32 then Ok (2 ^ (id_bits + 1)) else Panic))"

definition d3_max_spi_num :: "tock \<Rightarrow> 'h gic3_hw \<Rightarrow> 'h \<Rightarrow> 'h \<times> nat" where
  "d3_max_spi_num T H h = (case g3_read H (Dist D_TYPER) h of (h, v) \<Rightarrow> (h, (unat (tk_get T 0 5 v) + 1) * 32))"

definition max_cpu_num :: "tock \<Rightarrow> 'h gic3_hw \<Rightarrow> 'h \<Rightarrow> 'h \<times> nat" where
  "max_cpu_num T H h = (case g3_read H (Dist D_TYPER) h of (h, v) \<Rightarrow> (h, unat (tk_get T 5 3 v) + 1))"

definition d3_irq_disable_all :: "'h gic3_hw \<Rightarrow> nat \<Rightarrow> 'h \<Rightarrow> 'h" where
  "d3_irq_disable_all H max_interrupts = reg_fill (dist H) ICENABLER (- 1) [0 ..< min (div_ceil max_interrupts 32) 0x20]"

definition d3_pending_clear_all :: "'h gic3_hw \<Rightarrow> nat \<Rightarrow> 'h \<Rightarrow> 'h" where
  "d3_pending_clear_all H max_interrupts = reg_fill (dist H) ICPENDR (- 1) [0 ..< min (div_ceil max_interrupts 32) 0x20]"

definition d3_active_clear_all :: "'h gic3_hw \<Rightarrow> nat \<Rightarrow> 'h \<Rightarrow> 'h" where
  "d3_active_clear_all H max_interrupts = reg_fill (dist H) ICACTIVER (- 1) [0 ..< min (div_ceil max_interrupts 32) 0x20]"

text \<open>The write of one bit that the operations on a shared interrupt make; other identifiers are ignored.\<close>

definition spi_write :: "'h gic3_hw \<Rightarrow> (nat \<Rightarrow> gic_reg) \<Rightarrow> nat \<Rightarrow> 'h \<Rightarrow> 'h" where
  "spi_write H reg intid h =
     (if 32 \<le> intid then
        if intid div 32 < 0x20 then g3_write H (Dist (reg (intid div 32))) (irq_bit intid) h else h
      else h)"

definition d3_irq_enable :: "'h gic3_hw \<Rightarrow> nat \<Rightarrow> 'h \<Rightarrow> 'h" where "d3_irq_enable H = spi_write H ISENABLER"
definition d3_irq_disable :: "'h gic3_hw \<Rightarrow> nat \<Rightarrow> 'h \<Rightarrow> 'h" where "d3_irq_disable H = spi_write H ICENABLER"
definition d3_set_pending :: "'h gic3_hw \<Rightarrow> nat \<Rightarrow> 'h \<Rightarrow> 'h" where "d3_set_pending H = spi_write H ISPENDR"
definition d3_clear_pending :: "'h gic3_hw \<Rightarrow> nat \<Rightarrow> 'h \<Rightarrow> 'h" where "d3_clear_pending H = spi_write H ICPENDR"

definition d3_set_priority :: "'h gic3_hw \<Rightarrow> nat \<Rightarrow> 8 word \<Rightarrow> 'h \<Rightarrow> 'h" where
  "d3_set_priority H intid p h =
     (if 32 \<le> intid \<and> intid < 1024 then g3_write H (Dist (IPRIORITYR intid)) (ucast p) h else h)"

definition d3_get_priority :: "'h gic3_hw \<Rightarrow> nat \<Rightarrow> 'h \<Rightarrow> 'h \<times> 8 word" where
  "d3_get_priority H intid h =
     (if 32 \<le> intid \<and> intid < 1024 then case g3_read H (Dist (IPRIORITYR intid)) h of (h, v) \<Rightarrow> (h, ucast v) else (h, 0))"

definition set_default_priorities :: "'h gic3_hw \<Rightarrow> nat \<Rightarrow> 'h \<Rightarrow> 'h" where
  "set_default_priorities H max_interrupts = reg_fill (dist H) IPRIORITYR 0xA0 [32 ..< min max_interrupts 1024]"

definition groups_all_to_1 :: "'h gic3_hw \<Rightarrow> nat \<Rightarrow> 'h \<Rightarrow> 'h" where
  "groups_all_to_1 H max_interrupts = reg_fill (dist H) IGROUPR (- 1) [0 ..< min (div_ceil max_interrupts 32) 0x20]"

text \<open>Setting or clearing the bit of one interrupt in a register that holds what is written.\<close>

definition bit_update :: "bool \<Rightarrow> nat \<Rightarrow> 32 word \<Rightarrow> 32 word" where
  "bit_update on i v = (if on then v OR irq_bit i else v AND NOT (irq_bit i))"

definition set_interrupt_group :: "'h gic3_hw \<Rightarrow> nat \<Rightarrow> nat \<Rightarrow> bool \<Rightarrow> 'h \<Rightarrow> 'h" where
  "set_interrupt_group H intid grp group_modifier h =
     (if 32 \<le> intid then
        let reg_idx = intid div 32;
            h = (if reg_idx < 0x20 then reg_update H (Dist (IGROUPR reg_idx)) (bit_update (grp \<noteq> 0) intid) h else h)
        in if reg_idx < 0x20 then reg_update H (D_IGRPMODR reg_idx) (bit_update group_modifier intid) h else h
      else h)"

definition set_interrupt_config :: "'h gic3_hw \<Rightarrow> int_id \<Rightarrow> trigger \<Rightarrow> 'h \<Rightarrow> 'h \<times> (unit, unit) result" where
  "set_interrupt_config H i trig = gicd_set_cfg (dist H) i trig"

definition d3_configure_interrupt_config :: "'h gic3_hw \<Rightarrow> nat \<Rightarrow> 'h \<Rightarrow> 'h" where
  "d3_configure_interrupt_config H max_interrupts = reg_fill (dist H) ICFGR 0 [0 ..< min (div_ceil max_interrupts 16) 0x40]"

definition route_value :: "affinity option \<Rightarrow> 64 word" where
  "route_value aff =
     (case aff of
        Some a \<Rightarrow> (ucast (aff0 a) OR push_bit 8 (ucast (aff1 a)) OR push_bit 16 (ucast (aff2 a)) OR push_bit 32 (ucast (aff3 a)))
          AND NOT (push_bit 31 1)
      | None \<Rightarrow> push_bit 31 1)"

definition set_interrupt_route :: "'h gic3_hw \<Rightarrow> nat \<Rightarrow> affinity option \<Rightarrow> 'h \<Rightarrow> 'h" where
  "set_interrupt_route H intid aff h =
     (if \<not> (32 \<le> intid \<and> intid < 1020) then h
      else if 987 \<le> intid - 32 then h
      else g3_write64 H (IROUTER (intid - 32)) (route_value aff) h)"

definition route_of_value :: "64 word \<Rightarrow> affinity option" where
  "route_of_value v =
     (if v AND push_bit 31 1 \<noteq> 0 then None
      else Some \<lparr>aff0 = ucast (v AND 0xFF), aff1 = ucast (drop_bit 8 v AND 0xFF), aff2 = ucast (drop_bit 16 v AND 0xFF),
                 aff3 = ucast (drop_bit 32 v AND 0xFF)\<rparr>)"

definition get_interrupt_route :: "'h gic3_hw \<Rightarrow> nat \<Rightarrow> 'h \<Rightarrow> 'h \<times> affinity option" where
  "get_interrupt_route H intid h =
     (if 32 \<le> intid \<and> intid < 1020 \<and> intid - 32 < 987
      then case g3_read64 H (IROUTER (intid - 32)) h of (h, v) \<Rightarrow> (h, route_of_value v)
      else (h, None))"

text \<open>Message-based interrupts.\<close>

definition message_spi :: "tock \<Rightarrow> 'h gic3_hw \<Rightarrow> gic3_reg \<Rightarrow> nat \<Rightarrow> 'h \<Rightarrow> 'h" where
  "message_spi T H r intid h = (if 32 \<le> intid \<and> intid < 1020 then g3_write H r (tk_val T 0 13 (of_nat intid)) h else h)"

definition generate_spi_ns :: "tock \<Rightarrow> 'h gic3_hw \<Rightarrow> nat \<Rightarrow> 'h \<Rightarrow> 'h" where "generate_spi_ns T H = message_spi T H SETSPI_NSR"
definition generate_spi_s :: "tock \<Rightarrow> 'h gic3_hw \<Rightarrow> nat \<Rightarrow> 'h \<Rightarrow> 'h" where "generate_spi_s T H = message_spi T H SETSPI_SR"
definition clear_spi_ns :: "tock \<Rightarrow> 'h gic3_hw \<Rightarrow> nat \<Rightarrow> 'h \<Rightarrow> 'h" where "clear_spi_ns T H = message_spi T H CLRSPI_NSR"
definition clear_spi_s :: "tock \<Rightarrow> 'h gic3_hw \<Rightarrow> nat \<Rightarrow> 'h \<Rightarrow> 'h" where "clear_spi_s T H = message_spi T H CLRSPI_SR"

definition set_nmi :: "'h gic3_hw \<Rightarrow> nat \<Rightarrow> bool \<Rightarrow> 'h \<Rightarrow> 'h" where
  "set_nmi H intid nmi h =
     (if 32 \<le> intid \<and> intid < 1020 then
        if intid div 32 < 0x20 then reg_update H (D_INMIR (intid div 32)) (bit_update nmi intid) h else h
      else h)"

definition is_nmi :: "'h gic3_hw \<Rightarrow> nat \<Rightarrow> 'h \<Rightarrow> 'h \<times> bool" where
  "is_nmi H intid h =
     (if 32 \<le> intid \<and> intid < 1020 \<and> intid div 32 < 0x20
      then case g3_read H (D_INMIR (intid div 32)) h of (h, v) \<Rightarrow> (h, v AND irq_bit intid \<noteq> 0)
      else (h, False))"

definition has_extended_spi :: "tock \<Rightarrow> 'h gic3_hw \<Rightarrow> 'h \<Rightarrow> 'h \<times> bool" where "has_extended_spi T H = reg_flag T H D_TYPER2 6"
definition extended_spi_range :: "32 word" where "extended_spi_range = 0"
definition has_message_based_spi :: "tock \<Rightarrow> 'h gic3_hw \<Rightarrow> 'h \<Rightarrow> 'h \<times> bool" where "has_message_based_spi T H = reg_flag T H (Dist D_TYPER) 16"
definition has_lpis :: "tock \<Rightarrow> 'h gic3_hw \<Rightarrow> 'h \<Rightarrow> 'h \<times> bool" where "has_lpis T H = reg_flag T H (Dist D_TYPER) 17"
definition has_direct_vlpi :: "tock \<Rightarrow> 'h gic3_hw \<Rightarrow> 'h \<Rightarrow> 'h \<times> bool" where "has_direct_vlpi T H = reg_flag T H (Dist D_TYPER) 18"

definition set_all_routing_to_current :: "tock \<Rightarrow> 'h gic3_hw \<Rightarrow> nat \<Rightarrow> 'h \<Rightarrow> 'h" where
  "set_all_routing_to_current T H max_interrupts h =
     (case current_affinity T H h of (h, current) \<Rightarrow>
        fold (\<lambda>i. set_interrupt_route H i (Some current)) [32 ..< max_interrupts] h)"

definition reset_registers :: "tock \<Rightarrow> 'h gic3_hw \<Rightarrow> 'h \<Rightarrow> 'h" where
  "reset_registers T H h =
     (case d3_max_spi_num T H h of (h, max_spis) \<Rightarrow>
        (set_all_routing_to_current T H max_spis \<circ> d3_configure_interrupt_config H max_spis \<circ>
         set_default_priorities H max_spis \<circ> groups_all_to_1 H max_spis \<circ> d3_irq_disable_all H max_spis \<circ>
         d3_active_clear_all H max_spis \<circ> d3_pending_clear_all H max_spis) h)"

text \<open>Waiting for \<open>RWP\<close>; \<open>time_out_count\<close> starts at 10000.\<close>

primrec d3_rwp_loop :: "tock \<Rightarrow> 'h gic3_hw \<Rightarrow> nat \<Rightarrow> 'h \<Rightarrow> 'h \<times> (string, unit) result" where
  "d3_rwp_loop T H 0 h = (h, Err ''GICv3 Distributor CTLR RWP wait timeout.'')"
| "d3_rwp_loop T H (Suc n) h =
     (case reg_flag T H (Dist D_CTLR) 31 h of (h, pending) \<Rightarrow>
        if \<not> pending then (h, Ok ())
        else if n = 0 then (h, Err ''GICv3 Distributor CTLR RWP wait timeout.'')
        else d3_rwp_loop T H n h)"

definition d3_wait_for_rwp :: "tock \<Rightarrow> 'h gic3_hw \<Rightarrow> 'h \<Rightarrow> 'h \<times> (string, unit) result" where
  "d3_wait_for_rwp T H = d3_rwp_loop T H 10000"

end
