(* ===== verification/Gic_Redist.thy ===== *)
theory Gic_Redist
  imports Gic_V3
begin

unbundle bit_operations_syntax

text \<open>
  The redistributors of the GICv3 driver, \<open>driver/intc/gic/src/version/v3/gicr.rs\<close>: the iterator over the frames, the
  control frame (\<open>LPI\<close>) and the frame of the private interrupts (\<open>SGI\<close>).  Loops that wait for the hardware
  without a bound are partial: not returning is \<open>None\<close>.
\<close>

section \<open>Iterating over the redistributors\<close>

record rd_iter =
  it_ptr :: nat
  it_is_last :: bool

definition rd_iter_new :: "nat \<Rightarrow> rd_iter" where
  "rd_iter_new p = \<lparr>it_ptr = p, it_is_last = False\<rparr>"

definition rd_next :: "tock \<Rightarrow> 'h gic3_hw \<Rightarrow> rd_iter \<Rightarrow> 'h \<Rightarrow> 'h \<times> rd_iter \<times> nat option" where
  "rd_next T H it h =
     (if it_is_last it then (h, it, None)
      else case g3_read64 H (R_TYPER (it_ptr it)) h of (h, v) \<Rightarrow>
        (h, \<lparr>it_ptr = it_ptr it + 1, it_is_last = it_is_last it \<or> tk_read T 4 1 v > 0\<rparr>, Some (it_ptr it)))"

definition get_affinity :: "tock \<Rightarrow> 'h gic3_hw \<Rightarrow> nat \<Rightarrow> 'h \<Rightarrow> 'h \<times> 32 word" where
  "get_affinity T H rd h = (case g3_read64 H (R_TYPER rd) h of (h, v) \<Rightarrow> (h, ucast (tk_read T 32 32 v)))"

partial_function (option) find_rd ::
  "tock \<Rightarrow> 'h gic3_hw \<Rightarrow> 32 word \<Rightarrow> rd_iter \<Rightarrow> 'h \<Rightarrow> ('h \<times> (unit, nat) result) option"
where
  "find_rd T H want it h =
     (case rd_next T H it h of
        (h, it, None) \<Rightarrow> Some (h, Panic)
      | (h, it, Some rd) \<Rightarrow>
          (case get_affinity T H rd h of (h, affi) \<Rightarrow>
             if affi = want then Some (h, Ok rd) else find_rd T H want it h))"

definition rd_index :: "tock \<Rightarrow> 'h gic3_hw \<Rightarrow> affinity \<Rightarrow> 'h \<Rightarrow> ('h \<times> (unit, nat) result) option" where
  "rd_index T H a h = find_rd T H (affinity_value a) (rd_iter_new 0) h"

section \<open>Control frame\<close>

text \<open>\<open>lpi_rwp_loop\<close> counts the retries down: with \<open>n\<close> left, \<open>retries\<close> is \<open>1001 - n\<close>.\<close>

primrec lpi_rwp_loop :: "tock \<Rightarrow> 'h gic3_hw \<Rightarrow> nat \<Rightarrow> nat \<Rightarrow> 'h \<Rightarrow> 'h \<times> (string, unit) result" where
  "lpi_rwp_loop T H rd 0 h =
     (case reg_flag T H (Redist rd R_CTLR) 3 h of (h, pending) \<Rightarrow>
        (h, if pending then Err ''Timeout waiting for register write to complete'' else Ok ()))"
| "lpi_rwp_loop T H rd (Suc n) h =
     (case reg_flag T H (Redist rd R_CTLR) 3 h of (h, pending) \<Rightarrow>
        if pending then lpi_rwp_loop T H rd n h else (h, Ok ()))"

definition lpi_wait_for_rwp :: "tock \<Rightarrow> 'h gic3_hw \<Rightarrow> nat \<Rightarrow> 'h \<Rightarrow> 'h \<times> (string, unit) result" where
  "lpi_wait_for_rwp T H rd = lpi_rwp_loop T H rd 1001"

text \<open>Reading a register until a condition on its value fails.\<close>

partial_function (option) spin_while :: "'h gic3_hw \<Rightarrow> gic3_reg \<Rightarrow> (32 word \<Rightarrow> bool) \<Rightarrow> 'h \<Rightarrow> 'h option" where
  "spin_while H r p h = (case g3_read H r h of (h, v) \<Rightarrow> if p v then spin_while H r p h else Some h)"

definition lpi_wake :: "tock \<Rightarrow> 'h gic3_hw \<Rightarrow> nat \<Rightarrow> 'h \<Rightarrow> ('h \<times> (string, unit) result) option" where
  "lpi_wake T H rd h =
     map_option (lpi_wait_for_rwp T H rd)
       (spin_while H (Redist rd R_WAKER) (\<lambda>v. tk_get T 2 1 v \<noteq> 0) (g3_write H (Redist rd R_WAKER) (tk_val T 1 1 0) h))"

definition enable_lpi :: "tock \<Rightarrow> 'h gic3_hw \<Rightarrow> nat \<Rightarrow> 'h \<Rightarrow> 'h" where
  "enable_lpi T H rd = reg_update H (Redist rd R_CTLR) (tk_modify T 0 1 1)"

definition disable_lpi :: "tock \<Rightarrow> 'h gic3_hw \<Rightarrow> nat \<Rightarrow> 'h \<Rightarrow> 'h option" where
  "disable_lpi T H rd h =
     spin_while H (Redist rd R_CTLR) (\<lambda>v. tk_get T 3 1 v \<noteq> 0) (reg_update H (Redist rd R_CTLR) (tk_modify T 0 1 0) h)"

definition is_lpi_enabled :: "tock \<Rightarrow> 'h gic3_hw \<Rightarrow> nat \<Rightarrow> 'h \<Rightarrow> 'h \<times> bool" where
  "is_lpi_enabled T H rd = reg_flag T H (Redist rd R_CTLR) 0"

definition set_lpi_pending :: "'h gic3_hw \<Rightarrow> nat \<Rightarrow> nat \<Rightarrow> 'h \<Rightarrow> 'h" where
  "set_lpi_pending H rd intid = g3_write64 H (R_SETLPIR rd) (of_nat intid)"

definition clear_lpi_pending :: "'h gic3_hw \<Rightarrow> nat \<Rightarrow> nat \<Rightarrow> 'h \<Rightarrow> 'h" where
  "clear_lpi_pending H rd intid = g3_write64 H (R_CLRLPIR rd) (of_nat intid)"

definition invalidate_lpi :: "'h gic3_hw \<Rightarrow> nat \<Rightarrow> nat \<Rightarrow> 'h \<Rightarrow> 'h" where
  "invalidate_lpi H rd intid = g3_write64 H (R_INVLPIR rd) (of_nat intid)"

definition invalidate_all_lpi :: "'h gic3_hw \<Rightarrow> nat \<Rightarrow> 'h \<Rightarrow> 'h" where
  "invalidate_all_lpi H rd = g3_write64 H (R_INVALLR rd) 0"

definition lpi_sync :: "'h gic3_hw \<Rightarrow> nat \<Rightarrow> 'h \<Rightarrow> 'h option" where
  "lpi_sync H rd = spin_while H (Redist rd R_SYNCR) (\<lambda>v. v \<noteq> 0)"

definition typer_flag :: "tock \<Rightarrow> 'h gic3_hw \<Rightarrow> nat \<Rightarrow> nat \<Rightarrow> 'h \<Rightarrow> 'h \<times> bool" where
  "typer_flag T H off rd h = (case g3_read64 H (R_TYPER rd) h of (h, v) \<Rightarrow> (h, tk_read T off 1 v \<noteq> 0))"

definition is_last :: "tock \<Rightarrow> 'h gic3_hw \<Rightarrow> nat \<Rightarrow> 'h \<Rightarrow> 'h \<times> bool" where "is_last T H = typer_flag T H 4"
definition supports_physical_lpi :: "tock \<Rightarrow> 'h gic3_hw \<Rightarrow> nat \<Rightarrow> 'h \<Rightarrow> 'h \<times> bool" where "supports_physical_lpi T H = typer_flag T H 0"
definition supports_virtual_lpi :: "tock \<Rightarrow> 'h gic3_hw \<Rightarrow> nat \<Rightarrow> 'h \<Rightarrow> 'h \<times> bool" where "supports_virtual_lpi T H = typer_flag T H 1"

section \<open>Frame of the private interrupts\<close>

definition init_sgi_ppi :: "'h gic3_hw \<Rightarrow> nat \<Rightarrow> security_state \<Rightarrow> 'h \<Rightarrow> 'h" where
  "init_sgi_ppi H rd st h =
     (let W = (\<lambda>r v. g3_write H (Redist rd r) v);
          groups = (case st of Single \<Rightarrow> - 1 | Secure \<Rightarrow> 0xFFFF0000 | NonSecure \<Rightarrow> - 1)
      in fold (\<lambda>i. W (R_IPRIORITYR i) 0xA0) [0 ..< 32]
           (W R_IGRPMODR0 0 (W R_IGROUPR0 groups (W R_ICACTIVER0 (- 1) (W R_ICENABLER0 (- 1) (W R_ICPENDR0 (- 1) h))))))"

definition sgi_set_enable :: "'h gic3_hw \<Rightarrow> nat \<Rightarrow> int_id \<Rightarrow> bool \<Rightarrow> 'h \<Rightarrow> 'h" where
  "sgi_set_enable H rd irq enable = g3_write H (Redist rd (if enable then R_ISENABLER0 else R_ICENABLER0)) (irq_bit irq)"

definition sgi_flag :: "'h gic3_hw \<Rightarrow> gicr_reg \<Rightarrow> nat \<Rightarrow> int_id \<Rightarrow> 'h \<Rightarrow> 'h \<times> bool" where
  "sgi_flag H r rd irq h = (case g3_read H (Redist rd r) h of (h, v) \<Rightarrow> (h, v AND irq_bit irq \<noteq> 0))"

definition is_interrupt_enabled :: "'h gic3_hw \<Rightarrow> nat \<Rightarrow> int_id \<Rightarrow> 'h \<Rightarrow> 'h \<times> bool" where
  "is_interrupt_enabled H = sgi_flag H R_ISENABLER0"

definition sgi_set_priority :: "'h gic3_hw \<Rightarrow> nat \<Rightarrow> int_id \<Rightarrow> 8 word \<Rightarrow> 'h \<Rightarrow> 'h \<times> (unit, unit) result" where
  "sgi_set_priority H rd i p h =
     (if \<not> i < 32 then (h, Panic) else (g3_write H (Redist rd (R_IPRIORITYR i)) (ucast p) h, Ok ()))"

definition sgi_get_priority :: "'h gic3_hw \<Rightarrow> nat \<Rightarrow> int_id \<Rightarrow> 'h \<Rightarrow> 'h \<times> (unit, 8 word) result" where
  "sgi_get_priority H rd i h =
     (if \<not> i < 32 then (h, Panic) else case g3_read H (Redist rd (R_IPRIORITYR i)) h of (h, v) \<Rightarrow> (h, Ok (ucast v)))"

definition set_cfgr :: "'h gic3_hw \<Rightarrow> nat \<Rightarrow> int_id \<Rightarrow> trigger \<Rightarrow> 'h \<Rightarrow> 'h" where
  "set_cfgr H rd i trig =
     reg_update H (Redist rd (R_ICFGR (if is_sgi i then 0 else 1)))
       (\<lambda>v. v AND NOT (cfg_bit i) OR (case trig of Edge \<Rightarrow> cfg_bit i | Level \<Rightarrow> 0))"

definition get_cfgr :: "'h gic3_hw \<Rightarrow> nat \<Rightarrow> int_id \<Rightarrow> 'h \<Rightarrow> 'h \<times> trigger" where
  "get_cfgr H rd i h =
     (case g3_read H (Redist rd (R_ICFGR (if is_sgi i then 0 else 1))) h of (h, v) \<Rightarrow>
        (h, if v AND cfg_bit i \<noteq> 0 then Edge else Level))"

definition sgi_set_pending :: "'h gic3_hw \<Rightarrow> nat \<Rightarrow> int_id \<Rightarrow> bool \<Rightarrow> 'h \<Rightarrow> 'h" where
  "sgi_set_pending H rd i pending = g3_write H (Redist rd (if pending then R_ISPENDR0 else R_ICPENDR0)) (irq_bit i)"

definition sgi_is_pending :: "'h gic3_hw \<Rightarrow> nat \<Rightarrow> int_id \<Rightarrow> 'h \<Rightarrow> 'h \<times> bool" where
  "sgi_is_pending H = sgi_flag H R_ISPENDR0"

definition sgi_set_active :: "'h gic3_hw \<Rightarrow> nat \<Rightarrow> int_id \<Rightarrow> bool \<Rightarrow> 'h \<Rightarrow> 'h" where
  "sgi_set_active H rd i active = g3_write H (Redist rd (if active then R_ISACTIVER0 else R_ICACTIVER0)) (irq_bit i)"

definition sgi_is_active :: "'h gic3_hw \<Rightarrow> nat \<Rightarrow> int_id \<Rightarrow> 'h \<Rightarrow> 'h \<times> bool" where
  "sgi_is_active H = sgi_flag H R_ISACTIVER0"

definition sgi_set_group :: "'h gic3_hw \<Rightarrow> nat \<Rightarrow> int_id \<Rightarrow> bool \<Rightarrow> 'h \<Rightarrow> 'h" where
  "sgi_set_group H rd i group1 = reg_update H (Redist rd R_IGROUPR0) (bit_update group1 i)"

definition is_group1 :: "'h gic3_hw \<Rightarrow> nat \<Rightarrow> int_id \<Rightarrow> 'h \<Rightarrow> 'h \<times> bool" where
  "is_group1 H = sgi_flag H R_IGROUPR0"

definition set_group_modifier :: "'h gic3_hw \<Rightarrow> nat \<Rightarrow> int_id \<Rightarrow> bool \<Rightarrow> 'h \<Rightarrow> 'h" where
  "set_group_modifier H rd i modifier = reg_update H (Redist rd R_IGRPMODR0) (bit_update modifier i)"

end
