(* ===== verification/Gic_V3_Driver.thy ===== *)
theory Gic_V3_Driver
  imports Gic_Redist
begin

unbundle bit_operations_syntax

text \<open>
  The GICv3 driver, \<open>driver/intc/gic/src/version/v3/mod.rs\<close>: the driver, the CPU interface in system registers and
  software generated interrupts.  Operations on a private interrupt look for the redistributor of the current CPU.
\<close>

section \<open>Driver\<close>

text \<open>The base addresses are the hardware; what is left of the driver is the security state.\<close>

record gic3 =
  security_of :: security_state

definition gic3_new :: gic3 where
  "gic3_new = \<lparr>security_of = Single\<rparr>"

definition gic3_disable :: "tock \<Rightarrow> 'h gic3_hw \<Rightarrow> gic3 \<Rightarrow> 'h \<Rightarrow> 'h" where
  "gic3_disable T H g h =
     (case g3_read H (Dist D_CTLR) h of (h, old) \<Rightarrow>
        let val = (case security_of g of
                     Secure \<Rightarrow> tk_val T 0 1 0 OR tk_val T 2 1 0 OR tk_val T 1 1 0
                   | NonSecure \<Rightarrow> tk_val T 0 1 0 OR tk_val T 1 1 0
                   | Single \<Rightarrow> tk_val T 0 1 0 OR tk_val T 1 1 0)
        in g3_write H (Dist D_CTLR) (old AND NOT val) h)"

definition init_ctlr :: "tock \<Rightarrow> security_state \<Rightarrow> 32 word" where
  "init_ctlr T st =
     (case st of
        Secure \<Rightarrow> tk_val T 0 1 1 OR tk_val T 1 1 1 OR tk_val T 4 1 1 OR tk_val T 5 1 1
      | NonSecure \<Rightarrow> tk_val T 0 1 1 OR tk_val T 1 1 1 OR tk_val T 4 1 1
      | Single \<Rightarrow> tk_val T 0 1 1 OR tk_val T 1 1 1 OR tk_val T 4 1 1)"

definition gic3_init :: "tock \<Rightarrow> 'h gic3_hw \<Rightarrow> gic3 \<Rightarrow> 'h \<Rightarrow> gic3 \<times> 'h \<times> (unit, unit) result" where
  "gic3_init T H g h =
     (case get_security_state T H h of (h, st) \<Rightarrow>
        let g = g\<lparr>security_of := st\<rparr>
        in (g, and_then (unwrap (d3_wait_for_rwp T H (gic3_disable T H g h)))
                 (\<lambda>_ h. unwrap (d3_wait_for_rwp T H (g3_write H (Dist D_CTLR) (init_ctlr T st) (reset_registers T H h))))))"

definition current_rd :: "tock \<Rightarrow> 'h gic3_hw \<Rightarrow> 'h \<Rightarrow> ('h \<times> (unit, nat) result) option" where
  "current_rd T H h =
     (case g3_read64 H MPIDR_EL1 h of (h, m) \<Rightarrow> find_rd T H (ucast (m AND 0xFFFFFF)) (rd_iter_new 0) h)"

text \<open>An operation on the redistributor of the current CPU.\<close>

definition on_current_rd ::
  "tock \<Rightarrow> 'h gic3_hw \<Rightarrow> (nat \<Rightarrow> 'h \<Rightarrow> 'h \<times> (unit, 'r) result) \<Rightarrow> 'h \<Rightarrow> ('h \<times> (unit, 'r) result) option"
where
  "on_current_rd T H f h = map_option (\<lambda>m. and_then m f) (current_rd T H h)"

abbreviation returning :: "'h \<times> 'r \<Rightarrow> 'h \<times> (unit, 'r) result" where
  "returning m \<equiv> (case m of (h, x) \<Rightarrow> (h, Ok x))"

definition gic3_set_irq_enable :: "tock \<Rightarrow> 'h gic3_hw \<Rightarrow> int_id \<Rightarrow> bool \<Rightarrow> 'h \<Rightarrow> ('h \<times> (unit, unit) result) option" where
  "gic3_set_irq_enable T H i enable h =
     (if is_private i then on_current_rd T H (\<lambda>rd h. (sgi_set_enable H rd i enable h, Ok ())) h
      else if enable then Some (d3_irq_enable H i h, Ok ())
      else Some (d3_irq_disable H i h, Ok ()))"

definition gic3_is_irq_enable :: "tock \<Rightarrow> 'h gic3_hw \<Rightarrow> int_id \<Rightarrow> 'h \<Rightarrow> ('h \<times> (unit, bool) result) option" where
  "gic3_is_irq_enable T H i h =
     (if is_private i then on_current_rd T H (\<lambda>rd h. returning (is_interrupt_enabled H rd i h)) h
      else Some (get_irq_bit (dist H) ISENABLER i h))"

definition gic3_set_priority :: "tock \<Rightarrow> 'h gic3_hw \<Rightarrow> int_id \<Rightarrow> 8 word \<Rightarrow> 'h \<Rightarrow> ('h \<times> (unit, unit) result) option" where
  "gic3_set_priority T H i p h =
     (if is_private i then on_current_rd T H (\<lambda>rd. sgi_set_priority H rd i p) h
      else Some (d3_set_priority H i p h, Ok ()))"

definition gic3_get_priority :: "tock \<Rightarrow> 'h gic3_hw \<Rightarrow> int_id \<Rightarrow> 'h \<Rightarrow> ('h \<times> (unit, 8 word) result) option" where
  "gic3_get_priority T H i h =
     (if is_private i then on_current_rd T H (\<lambda>rd. sgi_get_priority H rd i) h
      else Some (returning (d3_get_priority H i h)))"

definition gic3_set_active :: "tock \<Rightarrow> 'h gic3_hw \<Rightarrow> int_id \<Rightarrow> bool \<Rightarrow> 'h \<Rightarrow> ('h \<times> (unit, unit) result) option" where
  "gic3_set_active T H i active h =
     (if is_private i then on_current_rd T H (\<lambda>rd h. (sgi_set_active H rd i active h, Ok ())) h
      else if active then Some (set_irq_bit (dist H) ISACTIVER i h)
      else Some (set_irq_bit (dist H) ICACTIVER i h))"

definition gic3_is_active :: "tock \<Rightarrow> 'h gic3_hw \<Rightarrow> int_id \<Rightarrow> 'h \<Rightarrow> ('h \<times> (unit, bool) result) option" where
  "gic3_is_active T H i h =
     (if is_private i then on_current_rd T H (\<lambda>rd h. returning (sgi_is_active H rd i h)) h
      else Some (get_irq_bit (dist H) ISACTIVER i h))"

definition gic3_set_pending :: "tock \<Rightarrow> 'h gic3_hw \<Rightarrow> int_id \<Rightarrow> bool \<Rightarrow> 'h \<Rightarrow> ('h \<times> (unit, unit) result) option" where
  "gic3_set_pending T H i pending h =
     (if is_private i then on_current_rd T H (\<lambda>rd h. (sgi_set_pending H rd i pending h, Ok ())) h
      else if pending then Some (d3_set_pending H i h, Ok ())
      else Some (d3_clear_pending H i h, Ok ()))"

definition gic3_is_pending :: "tock \<Rightarrow> 'h gic3_hw \<Rightarrow> int_id \<Rightarrow> 'h \<Rightarrow> ('h \<times> (unit, bool) result) option" where
  "gic3_is_pending T H i h =
     (if is_private i then on_current_rd T H (\<lambda>rd h. returning (sgi_is_pending H rd i h)) h
      else Some (get_irq_bit (dist H) ISPENDR i h))"

text \<open>The trigger of a private interrupt is set in all redistributors.\<close>

partial_function (option) set_cfgr_all ::
  "tock \<Rightarrow> 'h gic3_hw \<Rightarrow> int_id \<Rightarrow> trigger \<Rightarrow> rd_iter \<Rightarrow> 'h \<Rightarrow> 'h option"
where
  "set_cfgr_all T H i cfg it h =
     (case rd_next T H it h of
        (h, it, None) \<Rightarrow> Some h
      | (h, it, Some rd) \<Rightarrow> set_cfgr_all T H i cfg it (set_cfgr H rd i cfg h))"

definition gic3_set_cfg :: "tock \<Rightarrow> 'h gic3_hw \<Rightarrow> int_id \<Rightarrow> trigger \<Rightarrow> 'h \<Rightarrow> ('h \<times> (unit, unit) result) option" where
  "gic3_set_cfg T H i cfg h =
     (if is_private i then map_option (\<lambda>h. (h, Ok ())) (set_cfgr_all T H i cfg (rd_iter_new 0) h)
      else Some (set_interrupt_config H i cfg h))"

definition gic3_get_cfg :: "tock \<Rightarrow> 'h gic3_hw \<Rightarrow> int_id \<Rightarrow> 'h \<Rightarrow> ('h \<times> (unit, trigger) result) option" where
  "gic3_get_cfg T H i h =
     (if is_private i then on_current_rd T H (\<lambda>rd h. returning (get_cfgr H rd i h)) h
      else Some (gicd_get_cfg (dist H) i h))"

definition gic3_set_target_cpu :: "'h gic3_hw \<Rightarrow> int_id \<Rightarrow> affinity option \<Rightarrow> 'h \<Rightarrow> 'h \<times> (unit, unit) result" where
  "gic3_set_target_cpu H i aff h = (if is_private i then (h, Panic) else (set_interrupt_route H i aff h, Ok ()))"

definition gic3_get_target_cpu :: "'h gic3_hw \<Rightarrow> int_id \<Rightarrow> 'h \<Rightarrow> 'h \<times> (unit, affinity option) result" where
  "gic3_get_target_cpu H i h = (if is_private i then (h, Panic) else returning (get_interrupt_route H i h))"

definition gic3_iidr_raw :: "'h gic3_hw \<Rightarrow> 'h \<Rightarrow> 'h \<times> 32 word" where
  "gic3_iidr_raw H = g3_read H (Dist D_IIDR)"

definition gic3_typer_raw :: "'h gic3_hw \<Rightarrow> 'h \<Rightarrow> 'h \<times> 32 word" where
  "gic3_typer_raw H = g3_read H (Dist D_TYPER)"

definition gic3_setup_irq_by_fdt :: "tock \<Rightarrow> 'h gic3_hw \<Rightarrow> nat list \<Rightarrow> 'h \<Rightarrow> ('h \<times> (unit, nat) result) option" where
  "gic3_setup_irq_by_fdt T H irq_prop h =
     (case fdt_parse_irq_config irq_prop of
        Ok c \<Rightarrow> map_option (\<lambda>m. and_then m (\<lambda>_ h. (h, Ok (ic_id c)))) (gic3_set_cfg T H (ic_id c) (ic_trigger c) h)
      | _ \<Rightarrow> Some (h, Panic))"

section \<open>Software generated interrupts\<close>

record target_list3 =
  tl_aff3 :: "8 word"
  tl_aff2 :: "8 word"
  tl_aff1 :: "8 word"
  tl_list :: "16 word"

definition tl3_match :: "target_list3 \<Rightarrow> affinity \<Rightarrow> bool" where
  "tl3_match t a \<longleftrightarrow> aff3 a = tl_aff3 t \<and> aff2 a = tl_aff2 t \<and> aff1 a = tl_aff1 t"

text \<open>The shift \<open>1 << aff0\<close> of a 16-bit value overflows from 16 on.\<close>

definition tl3_bit :: "affinity \<Rightarrow> (unit, 16 word) result" where
  "tl3_bit a = (if unat (aff0 a) < 16 then Ok (push_bit (unat (aff0 a)) 1) else Panic)"

definition tl3_add :: "target_list3 \<Rightarrow> affinity \<Rightarrow> (unit, target_list3) result" where
  "tl3_add t a = (if \<not> tl3_match t a then Panic else rbind (tl3_bit a) (\<lambda>b. Ok (t\<lparr>tl_list := tl_list t OR b\<rparr>)))"

fun tl3_from :: "target_list3 \<Rightarrow> affinity list \<Rightarrow> (unit, target_list3) result" where
  "tl3_from t [] = Ok t"
| "tl3_from t (a # as) = rbind (tl3_add t a) (\<lambda>t. tl3_from t as)"

definition tl3_new :: "affinity list \<Rightarrow> (unit, target_list3) result" where
  "tl3_new as =
     (case as of
        [] \<Rightarrow> Ok \<lparr>tl_aff3 = 0, tl_aff2 = 0, tl_aff1 = 0, tl_list = 0\<rparr>
      | a # _ \<Rightarrow> tl3_from \<lparr>tl_aff3 = aff3 a, tl_aff2 = aff2 a, tl_aff1 = aff1 a, tl_list = 0\<rparr> as)"

definition affinity_list :: "target_list3 \<Rightarrow> affinity list" where
  "affinity_list t =
     map (\<lambda>i. \<lparr>aff0 = of_nat i, aff1 = tl_aff1 t, aff2 = tl_aff2 t, aff3 = tl_aff3 t\<rparr>)
       (filter (\<lambda>i. tl_list t AND push_bit i 1 \<noteq> 0) [0 ..< 16])"

datatype sgi3_target = SgiAll | SgiList target_list3

definition sgi3_list :: "affinity list \<Rightarrow> (unit, sgi3_target) result" where
  "sgi3_list as = rbind (tl3_new as) (\<lambda>t. Ok (SgiList t))"

definition sgi3_current :: "tock \<Rightarrow> 'h gic3_hw \<Rightarrow> 'h \<Rightarrow> 'h \<times> (unit, sgi3_target) result" where
  "sgi3_current T H h = (case current_affinity T H h of (h, a) \<Rightarrow> (h, sgi3_list [a]))"

definition sgi1r_value :: "tock \<Rightarrow> int_id \<Rightarrow> sgi3_target \<Rightarrow> 64 word" where
  "sgi1r_value T sgi_num tgt =
     (case tgt of
        SgiAll \<Rightarrow> tk_val64 T 24 4 (of_nat sgi_num) OR tk_val64 T 40 1 1
      | SgiList t \<Rightarrow> tk_val64 T 24 4 (of_nat sgi_num) OR tk_val64 T 48 8 (ucast (tl_aff3 t)) OR tk_val64 T 32 8 (ucast (tl_aff2 t))
          OR tk_val64 T 16 8 (ucast (tl_aff1 t)) OR tk_val64 T 0 16 (ucast (tl_list t)))"

definition gic3_send_sgi :: "tock \<Rightarrow> 'h gic3_hw \<Rightarrow> int_id \<Rightarrow> sgi3_target \<Rightarrow> 'h \<Rightarrow> 'h \<times> (unit, unit) result" where
  "gic3_send_sgi T H sgi_id tgt h =
     (if \<not> is_sgi sgi_id then (h, Panic) else (g3_write64 H ICC_SGI1R_EL1 (sgi1r_value T sgi_id tgt) h, Ok ()))"

section \<open>CPU interface\<close>

record cpu_interface3 =
  ci_rd :: nat
  ci_security :: security_state

definition cpu_interface3_of :: "tock \<Rightarrow> 'h gic3_hw \<Rightarrow> gic3 \<Rightarrow> 'h \<Rightarrow> ('h \<times> (unit, cpu_interface3) result) option" where
  "cpu_interface3_of T H g h =
     on_current_rd T H (\<lambda>rd h. (h, Ok \<lparr>ci_rd = rd, ci_security = security_of g\<rparr>)) h"

definition sys_update :: "'h gic3_hw \<Rightarrow> gic3_reg64 \<Rightarrow> (64 word \<Rightarrow> 64 word) \<Rightarrow> 'h \<Rightarrow> 'h" where
  "sys_update H r f h = (case g3_read64 H r h of (h, v) \<Rightarrow> g3_write64 H r (f v) h)"

definition current_el :: "tock \<Rightarrow> 'h gic3_hw \<Rightarrow> 'h \<Rightarrow> 'h \<times> 64 word" where
  "current_el T H h = (case g3_read64 H CURRENT_EL h of (h, v) \<Rightarrow> (h, tk_read T 2 2 v))"

text \<open>The system registers of the interface: access, priority mask, groups and the end-of-interrupt mode.\<close>

definition init_sys_regs :: "tock \<Rightarrow> 'h gic3_hw \<Rightarrow> security_state \<Rightarrow> 'h \<Rightarrow> 'h" where
  "init_sys_regs T H st h =
     (let W = g3_write64 H; one = (\<lambda>off. tk_val64 T off 1 1); cbpr = sys_update H ICC_CTLR_EL1 (tk_modify64 T 0 1 1)
      in case current_el T H h of (h, el) \<Rightarrow>
         let h = (if el = 2 then W ICC_SRE_EL2 (one 0 OR one 1 OR one 2 OR one 3) h
                  else W ICC_SRE_EL1 (one 0 OR one 1 OR one 2) h);
             h = W ICC_PMR_EL1 (tk_val64 T 0 8 0xFF) h;
             h = (case st of
                    Single \<Rightarrow> cbpr (W ICC_IGRPEN1_EL1 (one 0) (W ICC_IGRPEN0_EL1 (one 0) h))
                  | Secure \<Rightarrow> W ICC_IGRPEN1_EL1 (one 0) (W ICC_IGRPEN0_EL1 (one 0) h)
                  | NonSecure \<Rightarrow> cbpr (W ICC_IGRPEN1_EL1 (one 0) h))
         in case current_el T H h of (h, el) \<Rightarrow>
              if el = 2 then sys_update H ICC_CTLR_EL1 (tk_modify64 T 1 1 1) h else h)"

definition cpu3_init_current_cpu ::
  "tock \<Rightarrow> 'h gic3_hw \<Rightarrow> cpu_interface3 \<Rightarrow> 'h \<Rightarrow> ('h \<times> (string, unit) result) option"
where
  "cpu3_init_current_cpu T H c h =
     (case current_affinity T H h of (h, cpu) \<Rightarrow>
      map_option
        (\<lambda>m. and_then m (\<lambda>_ h.
           and_then (lpi_wait_for_rwp T H (ci_rd c) (init_sgi_ppi H (ci_rd c) (ci_security c) h))
             (\<lambda>_ h. (init_sys_regs T H (ci_security c) h, Ok ()))))
        (lpi_wake T H (ci_rd c) h))"

definition set_eoi_mode :: "tock \<Rightarrow> 'h gic3_hw \<Rightarrow> bool \<Rightarrow> 'h \<Rightarrow> 'h" where
  "set_eoi_mode T H is_two_step = sys_update H ICC_CTLR_EL1 (tk_modify64 T 1 1 (if is_two_step then 1 else 0))"

definition eoi_mode :: "tock \<Rightarrow> 'h gic3_hw \<Rightarrow> 'h \<Rightarrow> 'h \<times> bool" where
  "eoi_mode T H h = (case g3_read64 H ICC_CTLR_EL1 h of (h, v) \<Rightarrow> (h, tk_read T 1 1 v \<noteq> 0))"

definition ack0 :: "tock \<Rightarrow> 'h gic3_hw \<Rightarrow> 'h \<Rightarrow> 'h \<times> int_id" where
  "ack0 T H h = (case g3_read64 H ICC_IAR0_EL1 h of (h, v) \<Rightarrow> (h, unat (tk_read T 0 24 v)))"

definition ack1 :: "tock \<Rightarrow> 'h gic3_hw \<Rightarrow> 'h \<Rightarrow> 'h \<times> int_id" where
  "ack1 T H h = (case g3_read64 H ICC_IAR1_EL1 h of (h, v) \<Rightarrow> (h, unat (tk_read T 0 24 v)))"

definition eoi0 :: "tock \<Rightarrow> 'h gic3_hw \<Rightarrow> int_id \<Rightarrow> 'h \<Rightarrow> 'h" where
  "eoi0 T H i = g3_write64 H ICC_EOIR0_EL1 (tk_val64 T 0 24 (of_nat i))"

definition eoi1 :: "tock \<Rightarrow> 'h gic3_hw \<Rightarrow> int_id \<Rightarrow> 'h \<Rightarrow> 'h" where
  "eoi1 T H i = g3_write64 H ICC_EOIR1_EL1 (tk_val64 T 0 24 (of_nat i))"

definition gic3_dir :: "tock \<Rightarrow> 'h gic3_hw \<Rightarrow> int_id \<Rightarrow> 'h \<Rightarrow> 'h" where
  "gic3_dir T H i = g3_write64 H ICC_DIR_EL1 (tk_val64 T 0 24 (of_nat i))"

definition cpu3_set_priority_mask :: "tock \<Rightarrow> 'h gic3_hw \<Rightarrow> 8 word \<Rightarrow> 'h \<Rightarrow> 'h" where
  "cpu3_set_priority_mask T H m = g3_write64 H ICC_PMR_EL1 (tk_val64 T 0 8 (ucast m))"

definition cpu3_set_irq_enable :: "'h gic3_hw \<Rightarrow> cpu_interface3 \<Rightarrow> int_id \<Rightarrow> bool \<Rightarrow> 'h \<Rightarrow> 'h \<times> (unit, unit) result" where
  "cpu3_set_irq_enable H c i enable = private_only i (\<lambda>h. (sgi_set_enable H (ci_rd c) i enable h, Ok ()))"

definition cpu3_is_irq_enable :: "'h gic3_hw \<Rightarrow> cpu_interface3 \<Rightarrow> int_id \<Rightarrow> 'h \<Rightarrow> 'h \<times> (unit, bool) result" where
  "cpu3_is_irq_enable H c i = private_only i (\<lambda>h. returning (is_interrupt_enabled H (ci_rd c) i h))"

definition cpu3_set_priority :: "'h gic3_hw \<Rightarrow> cpu_interface3 \<Rightarrow> int_id \<Rightarrow> 8 word \<Rightarrow> 'h \<Rightarrow> 'h \<times> (unit, unit) result" where
  "cpu3_set_priority H c i p = private_only i (sgi_set_priority H (ci_rd c) i p)"

definition cpu3_get_priority :: "'h gic3_hw \<Rightarrow> cpu_interface3 \<Rightarrow> int_id \<Rightarrow> 'h \<Rightarrow> 'h \<times> (unit, 8 word) result" where
  "cpu3_get_priority H c i = private_only i (sgi_get_priority H (ci_rd c) i)"

definition cpu3_set_active :: "'h gic3_hw \<Rightarrow> cpu_interface3 \<Rightarrow> int_id \<Rightarrow> bool \<Rightarrow> 'h \<Rightarrow> 'h \<times> (unit, unit) result" where
  "cpu3_set_active H c i active = private_only i (\<lambda>h. (sgi_set_active H (ci_rd c) i active h, Ok ()))"

definition cpu3_is_active :: "'h gic3_hw \<Rightarrow> cpu_interface3 \<Rightarrow> int_id \<Rightarrow> 'h \<Rightarrow> 'h \<times> (unit, bool) result" where
  "cpu3_is_active H c i = private_only i (\<lambda>h. returning (sgi_is_active H (ci_rd c) i h))"

definition cpu3_set_pending :: "'h gic3_hw \<Rightarrow> cpu_interface3 \<Rightarrow> int_id \<Rightarrow> bool \<Rightarrow> 'h \<Rightarrow> 'h \<times> (unit, unit) result" where
  "cpu3_set_pending H c i pending = private_only i (\<lambda>h. (sgi_set_pending H (ci_rd c) i pending h, Ok ()))"

definition cpu3_is_pending :: "'h gic3_hw \<Rightarrow> cpu_interface3 \<Rightarrow> int_id \<Rightarrow> 'h \<Rightarrow> 'h \<times> (unit, bool) result" where
  "cpu3_is_pending H c i = private_only i (\<lambda>h. returning (sgi_is_pending H (ci_rd c) i h))"

definition cpu3_set_cfg :: "'h gic3_hw \<Rightarrow> cpu_interface3 \<Rightarrow> int_id \<Rightarrow> trigger \<Rightarrow> 'h \<Rightarrow> 'h \<times> (unit, unit) result" where
  "cpu3_set_cfg H c i cfg = private_only i (\<lambda>h. (set_cfgr H (ci_rd c) i cfg h, Ok ()))"

definition cpu3_get_cfg :: "'h gic3_hw \<Rightarrow> cpu_interface3 \<Rightarrow> int_id \<Rightarrow> 'h \<Rightarrow> 'h \<times> (unit, trigger) result" where
  "cpu3_get_cfg H c i = private_only i (\<lambda>h. returning (get_cfgr H (ci_rd c) i h))"

definition cpu3_send_sgi :: "tock \<Rightarrow> 'h gic3_hw \<Rightarrow> int_id \<Rightarrow> sgi3_target \<Rightarrow> 'h \<Rightarrow> 'h \<times> (unit, unit) result" where
  "cpu3_send_sgi T H = gic3_send_sgi T H"

end
