(* ===== verification/Gic_Arch.thy ===== *)
theory Gic_Arch
  imports Gic_V2
begin

unbundle bit_operations_syntax

text \<open>
  What the architecture says of the distributor registers, as the named hypotheses \<open>gicd_law\<close> and \<open>ctlr_law\<close> on the
  hardware.  Every register has bits that take a write (\<open>g_bits\<close>); the others, those of interrupts, priorities and targets that
  are not implemented among them, ignore it.  Group, configuration, priority and target registers hold what is written; the
  enable, pending and active state has a register that sets the bits written as one and a register that clears them.  The
  configuration and the pending state of software generated interrupts and the targets of private interrupts ignore writes, and
  such an interrupt may be enabled for good.  The law covers the registers of the interrupts that \<open>TYPER\<close> reports, in
  controllers with up to 992 of them, so that no register has bits of reserved identifiers.  The configuration of an
  interrupt may only change while it is disabled, and the law says nothing of other writes to it.  Accesses are secure, or the
  controller has no security extensions.  What devices do is left out: the pending state is the one that
  edges and writes have left, and the law says nothing of reading it.
\<close>

record gicd_state =
  g_ctlr :: "32 word"
  g_typer :: "32 word"
  g_group :: "nat \<Rightarrow> 32 word"
  g_enable :: "nat \<Rightarrow> 32 word"
  g_pending :: "nat \<Rightarrow> 32 word"
  g_active :: "nat \<Rightarrow> 32 word"
  g_priority :: "nat \<Rightarrow> 32 word"
  g_target :: "nat \<Rightarrow> 32 word"
  g_cfg :: "nat \<Rightarrow> 32 word"
  g_bits :: "gic_reg \<Rightarrow> 32 word"

text \<open>A write to the bits of a mask, the clearing of the bits written as one, and their setting.\<close>

definition put_bits :: "'w::len word \<Rightarrow> 'w word \<Rightarrow> 'w word \<Rightarrow> 'w word" where
  "put_bits m v w = (w AND NOT m) OR (v AND m)"

definition clear_bits :: "'w::len word \<Rightarrow> 'w word \<Rightarrow> 'w word \<Rightarrow> 'w word" where
  "clear_bits m v w = w AND NOT (v AND m)"

definition set_bits :: "'w::len word \<Rightarrow> 'w word \<Rightarrow> 'w word \<Rightarrow> 'w word" where
  "set_bits m v w = w OR (v AND m)"

fun gicd_store :: "gic_reg \<Rightarrow> 32 word \<Rightarrow> gicd_state \<Rightarrow> gicd_state" where
  "gicd_store (IGROUPR i) v s = s\<lparr>g_group := (g_group s)(i := put_bits (g_bits s (IGROUPR i)) v (g_group s i))\<rparr>"
| "gicd_store (ISENABLER i) v s = s\<lparr>g_enable := (g_enable s)(i := set_bits (g_bits s (ISENABLER i)) v (g_enable s i))\<rparr>"
| "gicd_store (ICENABLER i) v s = s\<lparr>g_enable := (g_enable s)(i := clear_bits (g_bits s (ICENABLER i)) v (g_enable s i))\<rparr>"
| "gicd_store (ISPENDR i) v s = s\<lparr>g_pending := (g_pending s)(i := set_bits (g_bits s (ISPENDR i)) v (g_pending s i))\<rparr>"
| "gicd_store (ICPENDR i) v s = s\<lparr>g_pending := (g_pending s)(i := clear_bits (g_bits s (ICPENDR i)) v (g_pending s i))\<rparr>"
| "gicd_store (ISACTIVER i) v s = s\<lparr>g_active := (g_active s)(i := set_bits (g_bits s (ISACTIVER i)) v (g_active s i))\<rparr>"
| "gicd_store (ICACTIVER i) v s = s\<lparr>g_active := (g_active s)(i := clear_bits (g_bits s (ICACTIVER i)) v (g_active s i))\<rparr>"
| "gicd_store (IPRIORITYR i) v s = s\<lparr>g_priority := (g_priority s)(i := put_bits (g_bits s (IPRIORITYR i)) v (g_priority s i))\<rparr>"
| "gicd_store (ITARGETSR i) v s = s\<lparr>g_target := (g_target s)(i := put_bits (g_bits s (ITARGETSR i)) v (g_target s i))\<rparr>"
| "gicd_store (ICFGR i) v s = s\<lparr>g_cfg := (g_cfg s)(i := put_bits (g_bits s (ICFGR i)) v (g_cfg s i))\<rparr>"
| "gicd_store r v s = s"

fun gicd_load :: "gic_reg \<Rightarrow> gicd_state \<Rightarrow> 32 word option" where
  "gicd_load D_TYPER s = Some (g_typer s)"
| "gicd_load (IGROUPR i) s = Some (g_group s i)"
| "gicd_load (ISENABLER i) s = Some (g_enable s i)"
| "gicd_load (ICENABLER i) s = Some (g_enable s i)"
| "gicd_load (ISACTIVER i) s = Some (g_active s i)"
| "gicd_load (ICACTIVER i) s = Some (g_active s i)"
| "gicd_load (IPRIORITYR i) s = Some (g_priority s i)"
| "gicd_load (ITARGETSR i) s = Some (g_target s i)"
| "gicd_load (ICFGR i) s = Some (g_cfg s i)"
| "gicd_load r s = None"

text \<open>The number of interrupts that \<open>TYPER\<close> reports, and the registers that belong to them.\<close>

definition irq_count :: "gicd_state \<Rightarrow> nat" where
  "irq_count s = (unat (take_bit 5 (g_typer s)) + 1) * 32"

fun backed :: "nat \<Rightarrow> gic_reg \<Rightarrow> bool" where
  "backed n D_TYPER \<longleftrightarrow> True"
| "backed n (IGROUPR i) \<longleftrightarrow> 32 * i < n"
| "backed n (ISENABLER i) \<longleftrightarrow> 32 * i < n"
| "backed n (ICENABLER i) \<longleftrightarrow> 32 * i < n"
| "backed n (ISPENDR i) \<longleftrightarrow> 32 * i < n"
| "backed n (ICPENDR i) \<longleftrightarrow> 32 * i < n"
| "backed n (ISACTIVER i) \<longleftrightarrow> 32 * i < n"
| "backed n (ICACTIVER i) \<longleftrightarrow> 32 * i < n"
| "backed n (IPRIORITYR i) \<longleftrightarrow> i < n"
| "backed n (ITARGETSR i) \<longleftrightarrow> i < n"
| "backed n (ICFGR i) \<longleftrightarrow> 16 * i < n"
| "backed n r \<longleftrightarrow> False"

text \<open>The state of an interrupt in registers of one bit per interrupt, as the driver reads it.\<close>

definition irq_flag :: "(nat \<Rightarrow> 32 word) \<Rightarrow> int_id \<Rightarrow> bool" where
  "irq_flag f i = bit (f (i div 32)) (i mod 32)"

text \<open>A write to a configuration register changes no field of an enabled interrupt.\<close>

definition cfg_safe :: "gicd_state \<Rightarrow> nat \<Rightarrow> 32 word \<Rightarrow> bool" where
  "cfg_safe s i v \<longleftrightarrow>
     (\<forall>j k. j div 16 = i \<longrightarrow> irq_flag (g_enable s) j \<longrightarrow> k div 2 = j mod 16 \<longrightarrow> bit (g_bits s (ICFGR i)) k \<longrightarrow>
        bit v k = bit (g_cfg s i) k)"

definition write_ok :: "gicd_state \<Rightarrow> gic_reg \<Rightarrow> 32 word \<Rightarrow> bool" where
  "write_ok s r v \<longleftrightarrow> backed (irq_count s) r \<and> (case r of ICFGR i \<Rightarrow> cfg_safe s i v | _ \<Rightarrow> True)"

text \<open>The bits that never take a write; an enable bit that does not is zero or of a software generated interrupt.\<close>

definition bits_law :: "gicd_state \<Rightarrow> bool" where
  "bits_law s \<longleftrightarrow>
     (\<forall>i < 32. g_bits s (ITARGETSR i) = 0) \<and> g_bits s (ICFGR 0) = 0 \<and>
     take_bit 16 (g_bits s (ISPENDR 0)) = 0 \<and> take_bit 16 (g_bits s (ICPENDR 0)) = 0 \<and>
     (\<forall>i k. bit (g_enable s i) k \<longrightarrow> bit (g_bits s (ICENABLER i)) k \<or> i = 0 \<and> k < 16)"

text \<open>
  The registers that are not those of a shared interrupt with affinity routing: in a GICv3 the private interrupts belong to
  the redistributors, and the target registers are replaced by routes.
\<close>

fun legacy_reg :: "gic_reg \<Rightarrow> bool" where
  "legacy_reg (IGROUPR i) \<longleftrightarrow> i = 0"
| "legacy_reg (ISENABLER i) \<longleftrightarrow> i = 0"
| "legacy_reg (ICENABLER i) \<longleftrightarrow> i = 0"
| "legacy_reg (ISPENDR i) \<longleftrightarrow> i = 0"
| "legacy_reg (ICPENDR i) \<longleftrightarrow> i = 0"
| "legacy_reg (ISACTIVER i) \<longleftrightarrow> i = 0"
| "legacy_reg (ICACTIVER i) \<longleftrightarrow> i = 0"
| "legacy_reg (IPRIORITYR i) \<longleftrightarrow> i < 32"
| "legacy_reg (ITARGETSR i) \<longleftrightarrow> True"
| "legacy_reg (ICFGR i) \<longleftrightarrow> i < 2"
| "legacy_reg r \<longleftrightarrow> False"

text \<open>
  The law, with \<open>legacy\<close> for a GICv2.  Without it the view of the hardware holds nothing of those registers: writing them leaves it
  as it is, and nothing is said of reading them.
\<close>

definition gicd_law :: "bool \<Rightarrow> 'h gic_hw \<Rightarrow> ('h \<Rightarrow> gicd_state) \<Rightarrow> bool" where
  "gicd_law legacy H view \<longleftrightarrow>
     (\<forall>h. irq_count (view h) \<le> 992 \<and> bits_law (view h)) \<and>
     (\<not> legacy \<longrightarrow> (\<forall>r h. legacy_reg r \<longrightarrow> g_bits (view h) r = 0)) \<and>
     (\<forall>r v h. write_ok (view h) r v \<longrightarrow> view (gh_write H r v h) = gicd_store r v (view h)) \<and>
     (\<forall>r h w. backed (irq_count (view h)) r \<longrightarrow> legacy \<or> \<not> legacy_reg r \<longrightarrow> gicd_load r (view h) = Some w \<longrightarrow>
        (\<exists>h'. gh_read H r h = (h', w) \<and> view h' = view h))"

text \<open>The control register of GICv2: the two group bits take a write.\<close>

definition ctlr_law :: "'h gic_hw \<Rightarrow> ('h \<Rightarrow> gicd_state) \<Rightarrow> bool" where
  "ctlr_law H view \<longleftrightarrow>
     (\<forall>v h. view (gh_write H D_CTLR v h) = (view h)\<lparr>g_ctlr := put_bits 3 v (g_ctlr (view h))\<rparr>) \<and>
     (\<forall>h. \<exists>h'. gh_read H D_CTLR h = (h', g_ctlr (view h)) \<and> view h' = view h)"

text \<open>
  The architecture itself as hardware, with 992 interrupts, all implemented, priorities of five bits and four CPUs.
\<close>

fun arch_bits :: "gic_reg \<Rightarrow> 32 word" where
  "arch_bits (ISPENDR i) = (if i = 0 then 0xFFFF0000 else - 1)"
| "arch_bits (ICPENDR i) = (if i = 0 then 0xFFFF0000 else - 1)"
| "arch_bits (IPRIORITYR i) = 0xF8"
| "arch_bits (ITARGETSR i) = (if i < 32 then 0 else 0xF)"
| "arch_bits (ICFGR i) = (if i = 0 then 0 else 0xAAAAAAAA)"
| "arch_bits r = - 1"

definition arch_view :: "gicd_state \<Rightarrow> gicd_state" where
  "arch_view s = s\<lparr>g_typer := 30, g_bits := arch_bits\<rparr>"

definition arch_hw :: "gicd_state gic_hw" where
  "arch_hw =
     \<lparr>gh_read = (\<lambda>r s. (s, if r = D_CTLR then g_ctlr s else case gicd_load r (arch_view s) of Some w \<Rightarrow> w | None \<Rightarrow> 0)),
      gh_write = (\<lambda>r v s. if r = D_CTLR then s\<lparr>g_ctlr := put_bits 3 v (g_ctlr s)\<rparr> else gicd_store r v (arch_view s))\<rparr>"

lemma irq_count_arch [simp]: "irq_count (arch_view s) = 992"
  by (simp add: irq_count_def arch_view_def take_bit_eq_mod)

lemma g_bits_arch [simp]: "g_bits (arch_view s) = arch_bits"
  by (simp add: arch_view_def)

lemma arch_view_idem [simp]: "arch_view (arch_view s) = arch_view s"
  by (simp add: arch_view_def)

lemma arch_view_store: "arch_view (gicd_store r v (arch_view s)) = gicd_store r v (arch_view s)"
  by (cases r) (simp_all add: arch_view_def)

lemma arch_bits_law: "bits_law (arch_view s)"
proof -
  have "take_bit 16 (0xFFFF0000 :: 32 word) = 0" by (simp add: take_bit_eq_mask mask_eq_exp_minus_1)
  moreover have "bit (g_enable s i) k \<Longrightarrow> k < 32" for i k using bit_imp_le_length [of "g_enable s i" k] by simp
  ultimately show ?thesis by (simp add: bits_law_def arch_view_def)
qed

lemma arch_hw_law: "gicd_law True arch_hw arch_view" "ctlr_law arch_hw arch_view"
proof -
  have "view (gh_write arch_hw r v h) = gicd_store r v (view h)" if "write_ok (view h) r v" "view = arch_view" for r v h view
    using that by (auto simp: arch_hw_def arch_view_store write_ok_def)
  moreover have "\<exists>h'. gh_read arch_hw r h = (h', w) \<and> arch_view h' = arch_view h"
    if "backed (irq_count (arch_view h)) r" "gicd_load r (arch_view h) = Some w" for r h w
    using that by (auto simp: arch_hw_def)
  ultimately show "gicd_law True arch_hw arch_view"
    unfolding gicd_law_def using arch_bits_law by simp
  show "ctlr_law arch_hw arch_view"
    by (simp add: ctlr_law_def arch_hw_def arch_view_def)
qed

section \<open>Accesses\<close>

lemma bit_put_bits: "bit (put_bits m v w) k \<longleftrightarrow> (if bit m k then bit v k else bit w k)"
  by (auto simp: put_bits_def bit_or_iff bit_and_iff bit_not_iff dest: bit_imp_le_length)

lemma bit_clear_bits: "bit (clear_bits m v w) k \<longleftrightarrow> bit w k \<and> \<not> (bit v k \<and> bit m k)"
  by (auto simp: clear_bits_def bit_and_iff bit_not_iff bit_or_iff dest: bit_imp_le_length)

lemma bit_set_bits: "bit (set_bits m v w) k \<longleftrightarrow> bit w k \<or> bit v k \<and> bit m k"
  by (auto simp: set_bits_def bit_or_iff bit_and_iff)

lemma put_put [simp]: "put_bits m v (put_bits m v w) = put_bits m v w"
  by (rule bit_eqI) (simp add: bit_put_bits)

lemma clear_clear [simp]: "clear_bits m v (clear_bits m v w) = clear_bits m v w"
  by (rule bit_eqI) (auto simp: bit_clear_bits)

lemma irq_count_store [simp]: "irq_count (gicd_store r v s) = irq_count s"
  by (cases r) (simp_all add: irq_count_def)

lemma g_bits_store [simp]: "g_bits (gicd_store r v s) = g_bits s"
  by (cases r) simp_all

lemma irq_count_simps [simp]:
  "irq_count (s\<lparr>g_ctlr := c\<rparr>) = irq_count s" "irq_count (s\<lparr>g_group := f\<rparr>) = irq_count s"
  "irq_count (s\<lparr>g_enable := f\<rparr>) = irq_count s" "irq_count (s\<lparr>g_pending := f\<rparr>) = irq_count s"
  "irq_count (s\<lparr>g_active := f\<rparr>) = irq_count s" "irq_count (s\<lparr>g_priority := f\<rparr>) = irq_count s"
  "irq_count (s\<lparr>g_target := f\<rparr>) = irq_count s" "irq_count (s\<lparr>g_cfg := f\<rparr>) = irq_count s"
  by (simp_all add: irq_count_def)

lemma law_bounds:
  assumes "gicd_law l H view"
  shows "irq_count (view h) \<le> 992" "bits_law (view h)"
  using assms by (simp_all add: gicd_law_def)

lemma law_write: "gicd_law l H view \<Longrightarrow> write_ok (view h) r v \<Longrightarrow> view (gh_write H r v h) = gicd_store r v (view h)"
  by (simp add: gicd_law_def)

lemma law_read:
  "gicd_law l H view \<Longrightarrow> backed (irq_count (view h)) r \<Longrightarrow> l \<or> \<not> legacy_reg r \<Longrightarrow> gicd_load r (view h) = Some w \<Longrightarrow>
   \<exists>h'. gh_read H r h = (h', w) \<and> view h' = view h"
  unfolding gicd_law_def by blast

lemma law_modify:
  assumes "ctlr_law H view"
  shows "view (reg_modify H D_CTLR f h) = (view h)\<lparr>g_ctlr := put_bits 3 (f (g_ctlr (view h))) (g_ctlr (view h))\<rparr>"
proof -
  obtain h' where "gh_read H D_CTLR h = (h', g_ctlr (view h))" "view h' = view h"
    using assms unfolding ctlr_law_def by blast
  then show ?thesis using assms by (simp add: reg_modify_def ctlr_law_def)
qed

text \<open>Filling a block of registers, with an invariant that allows every write.\<close>

lemma law_fill:
  assumes "gicd_law l H view" "Q (view h)" "\<And>i s. i \<in> set is \<Longrightarrow> Q s \<Longrightarrow> write_ok s (reg i) v \<and> Q (gicd_store (reg i) v s)"
  shows "view (reg_fill H reg v is h) = fold (\<lambda>i. gicd_store (reg i) v) is (view h)"
  using assms(2,3) unfolding reg_fill_def
proof (induction "is" arbitrary: h)
  case (Cons i "is")
  then show ?case using law_write [OF assms(1), of h "reg i" v] by simp
qed simp

lemma law_fill_plain:
  assumes "gicd_law l H view" "\<And>i. i \<in> set is \<Longrightarrow> backed (irq_count (view h)) (reg i) \<and> (\<forall>k. reg i \<noteq> ICFGR k)"
  shows "view (reg_fill H reg v is h) = fold (\<lambda>i. gicd_store (reg i) v) is (view h)"
proof (rule law_fill [OF assms(1), where Q = "\<lambda>s. irq_count s = irq_count (view h)"])
  fix i s
  assume "i \<in> set is" "irq_count s = irq_count (view h)"
  then show "write_ok s (reg i) v \<and> irq_count (gicd_store (reg i) v s) = irq_count (view h)"
    using assms(2) by (auto simp: write_ok_def split: gic_reg.split)
qed simp

text \<open>No enabled interrupt has a configuration that can be written.\<close>

definition cfg_free :: "gicd_state \<Rightarrow> bool" where
  "cfg_free s \<longleftrightarrow> (\<forall>j < irq_count s. \<forall>k. irq_flag (g_enable s) j \<longrightarrow> k div 2 = j mod 16 \<longrightarrow> \<not> bit (g_bits s (ICFGR (j div 16))) k)"

lemma law_fill_cfg:
  assumes "gicd_law l H view" "cfg_free (view h)" "\<And>i. i \<in> set is \<Longrightarrow> 16 * i < irq_count (view h)"
  shows "view (reg_fill H ICFGR v is h) = fold (\<lambda>i. gicd_store (ICFGR i) v) is (view h)"
proof (rule law_fill [OF assms(1), where Q = "\<lambda>s. irq_count s = irq_count (view h) \<and> cfg_free s"])
  fix i s
  assume i: "i \<in> set is" "irq_count s = irq_count (view h) \<and> cfg_free s"
  have "j < irq_count s" if "j div 16 = i" for j
  proof -
    have "16 * (j div 16) < irq_count s" using i assms(3) [OF i(1)] that by simp
    moreover obtain c where "irq_count s = c * 32" by (rule that [OF irq_count_def])
    ultimately have "16 * (j div 16) < c * 32" "irq_count s = c * 32" by simp_all
    then have "j div 16 < c * 2" "irq_count s = c * 2 * 16" by simp_all
    then show ?thesis by (simp only: div_less_iff_less_mult zero_less_numeral)
  qed
  then show "write_ok s (ICFGR i) v \<and> irq_count (gicd_store (ICFGR i) v s) = irq_count (view h) \<and> cfg_free (gicd_store (ICFGR i) v s)"
    using i assms(3) by (auto simp: write_ok_def cfg_safe_def cfg_free_def)
qed (use assms(2) in simp)

text \<open>When the enable bits that can be cleared are clear, only software generated interrupts are left enabled.\<close>

lemma cfg_free_disabled:
  assumes "bits_law s" "\<And>i. i < irq_count s div 32 \<Longrightarrow> g_enable s' i = clear_bits (g_bits s (ICENABLER i)) (- 1) (g_enable s i)"
    and "g_bits s' = g_bits s" "irq_count s' = irq_count s"
  shows "cfg_free s'"
  unfolding cfg_free_def
proof (intro allI impI)
  fix j k
  assume j: "j < irq_count s'" "irq_flag (g_enable s') j" "k div 2 = j mod 16"
  have "j div 32 < irq_count s div 32" using j(1) assms(4) by (auto simp: irq_count_def less_mult_imp_div_less)
  from assms(2) [OF this] j(2)
  have "bit (g_enable s (j div 32)) (j mod 32)" "\<not> bit (g_bits s (ICENABLER (j div 32))) (j mod 32)"
    by (auto simp: irq_flag_def bit_clear_bits bit_minus_1_iff)
  with assms(1) have "j div 32 = 0 \<and> j mod 32 < 16" unfolding bits_law_def by blast
  then have "j div 16 = 0" by auto
  then show "\<not> bit (g_bits s' (ICFGR (j div 16))) k" using assms(1,3) by (simp add: bits_law_def)
qed

text \<open>Filling a block of registers, by the field that the register belongs to.\<close>

lemma fill_group:
  "fold (\<lambda>i. gicd_store (IGROUPR i) v) is s =
   s\<lparr>g_group := (\<lambda>i. if i \<in> set is then put_bits (g_bits s (IGROUPR i)) v (g_group s i) else g_group s i)\<rparr>"
  by (induction "is" arbitrary: s) (auto intro!: gicd_state.equality)

lemma fill_clear_enable:
  "fold (\<lambda>i. gicd_store (ICENABLER i) v) is s =
   s\<lparr>g_enable := (\<lambda>i. if i \<in> set is then clear_bits (g_bits s (ICENABLER i)) v (g_enable s i) else g_enable s i)\<rparr>"
  by (induction "is" arbitrary: s) (auto intro!: gicd_state.equality)

lemma fill_clear_pending:
  "fold (\<lambda>i. gicd_store (ICPENDR i) v) is s =
   s\<lparr>g_pending := (\<lambda>i. if i \<in> set is then clear_bits (g_bits s (ICPENDR i)) v (g_pending s i) else g_pending s i)\<rparr>"
  by (induction "is" arbitrary: s) (auto intro!: gicd_state.equality)

lemma fill_clear_active:
  "fold (\<lambda>i. gicd_store (ICACTIVER i) v) is s =
   s\<lparr>g_active := (\<lambda>i. if i \<in> set is then clear_bits (g_bits s (ICACTIVER i)) v (g_active s i) else g_active s i)\<rparr>"
  by (induction "is" arbitrary: s) (auto intro!: gicd_state.equality)

lemma fill_priority:
  "fold (\<lambda>i. gicd_store (IPRIORITYR i) v) is s =
   s\<lparr>g_priority := (\<lambda>i. if i \<in> set is then put_bits (g_bits s (IPRIORITYR i)) v (g_priority s i) else g_priority s i)\<rparr>"
  by (induction "is" arbitrary: s) (auto intro!: gicd_state.equality)

lemma fill_target:
  "fold (\<lambda>i. gicd_store (ITARGETSR i) v) is s =
   s\<lparr>g_target := (\<lambda>i. if i \<in> set is then put_bits (g_bits s (ITARGETSR i)) v (g_target s i) else g_target s i)\<rparr>"
  by (induction "is" arbitrary: s) (auto intro!: gicd_state.equality)

lemma fill_cfg:
  "fold (\<lambda>i. gicd_store (ICFGR i) v) is s =
   s\<lparr>g_cfg := (\<lambda>i. if i \<in> set is then put_bits (g_bits s (ICFGR i)) v (g_cfg s i) else g_cfg s i)\<rparr>"
  by (induction "is" arbitrary: s) (auto intro!: gicd_state.equality)

lemmas fill_simps = fill_group fill_clear_enable fill_clear_pending fill_clear_active fill_priority fill_target fill_cfg

text \<open>The blocks that belong to all interrupts of the controller.\<close>

lemma fill_blocks:
  assumes "gicd_law l H view" "irq_count (view h) = n"
  shows "view (reg_fill H ICENABLER v [0 ..< n div 32] h) =
      (view h)\<lparr>g_enable := (\<lambda>i. if i < n div 32 then clear_bits (g_bits (view h) (ICENABLER i)) v (g_enable (view h) i) else g_enable (view h) i)\<rparr>"
    "view (reg_fill H ICPENDR v [0 ..< n div 32] h) =
      (view h)\<lparr>g_pending := (\<lambda>i. if i < n div 32 then clear_bits (g_bits (view h) (ICPENDR i)) v (g_pending (view h) i) else g_pending (view h) i)\<rparr>"
    "view (reg_fill H ICACTIVER v [0 ..< n div 32] h) =
      (view h)\<lparr>g_active := (\<lambda>i. if i < n div 32 then clear_bits (g_bits (view h) (ICACTIVER i)) v (g_active (view h) i) else g_active (view h) i)\<rparr>"
    "view (reg_fill H IGROUPR v [0 ..< n div 32] h) =
      (view h)\<lparr>g_group := (\<lambda>i. if i < n div 32 then put_bits (g_bits (view h) (IGROUPR i)) v (g_group (view h) i) else g_group (view h) i)\<rparr>"
    "k \<le> n \<Longrightarrow> view (reg_fill H IPRIORITYR v [32 ..< k] h) =
      (view h)\<lparr>g_priority := (\<lambda>i. if 32 \<le> i \<and> i < k then put_bits (g_bits (view h) (IPRIORITYR i)) v (g_priority (view h) i) else g_priority (view h) i)\<rparr>"
    "cfg_free (view h) \<Longrightarrow> view (reg_fill H ICFGR v [0 ..< n div 16] h) =
      (view h)\<lparr>g_cfg := (\<lambda>i. if i < n div 16 then put_bits (g_bits (view h) (ICFGR i)) v (g_cfg (view h) i) else g_cfg (view h) i)\<rparr>"
proof -
  have bk: "32 * i < irq_count (view h)" if "i < n div 32" for i using that assms(2) by linarith
  have bk': "16 * i < irq_count (view h)" if "i < n div 16" for i using that assms(2) by linarith
  note fill = law_fill_plain [OF assms(1)]
  show "view (reg_fill H ICENABLER v [0 ..< n div 32] h) =
      (view h)\<lparr>g_enable := (\<lambda>i. if i < n div 32 then clear_bits (g_bits (view h) (ICENABLER i)) v (g_enable (view h) i) else g_enable (view h) i)\<rparr>"
    by (subst fill) (simp_all add: fill_simps bk)
  show "view (reg_fill H ICPENDR v [0 ..< n div 32] h) =
      (view h)\<lparr>g_pending := (\<lambda>i. if i < n div 32 then clear_bits (g_bits (view h) (ICPENDR i)) v (g_pending (view h) i) else g_pending (view h) i)\<rparr>"
    by (subst fill) (simp_all add: fill_simps bk)
  show "view (reg_fill H ICACTIVER v [0 ..< n div 32] h) =
      (view h)\<lparr>g_active := (\<lambda>i. if i < n div 32 then clear_bits (g_bits (view h) (ICACTIVER i)) v (g_active (view h) i) else g_active (view h) i)\<rparr>"
    by (subst fill) (simp_all add: fill_simps bk)
  show "view (reg_fill H IGROUPR v [0 ..< n div 32] h) =
      (view h)\<lparr>g_group := (\<lambda>i. if i < n div 32 then put_bits (g_bits (view h) (IGROUPR i)) v (g_group (view h) i) else g_group (view h) i)\<rparr>"
    by (subst fill) (simp_all add: fill_simps bk)
  show "view (reg_fill H IPRIORITYR v [32 ..< k] h) =
      (view h)\<lparr>g_priority := (\<lambda>i. if 32 \<le> i \<and> i < k then put_bits (g_bits (view h) (IPRIORITYR i)) v (g_priority (view h) i) else g_priority (view h) i)\<rparr>"
    if "k \<le> n" using that assms(2) by (subst fill) (simp_all add: fill_simps)
  show "view (reg_fill H ICFGR v [0 ..< n div 16] h) =
      (view h)\<lparr>g_cfg := (\<lambda>i. if i < n div 16 then put_bits (g_bits (view h) (ICFGR i)) v (g_cfg (view h) i) else g_cfg (view h) i)\<rparr>"
    if "cfg_free (view h)" by (subst law_fill_cfg [OF assms(1) that]) (simp_all add: fill_simps bk')
qed

section \<open>Bits of one interrupt\<close>

lemma irq_bit_other:
  assumes "j div 32 = i div (32::nat)" "j mod 32 = i mod 32"
  shows "j = i"
  using assms by (metis div_mult_mod_eq)

lemma irq_flag_set:
  "bit m (i mod 32) \<Longrightarrow> irq_flag (f(i div 32 := set_bits m (irq_bit i) (f (i div 32)))) j \<longleftrightarrow> j = i \<or> irq_flag f j"
  by (auto simp: irq_flag_def bit_set_bits bit_irq_bit dest: irq_bit_other)

lemma irq_flag_clear:
  "bit m (i mod 32) \<Longrightarrow> irq_flag (f(i div 32 := clear_bits m (irq_bit i) (f (i div 32)))) j \<longleftrightarrow> j \<noteq> i \<and> irq_flag f j"
  by (auto simp: irq_flag_def bit_clear_bits bit_irq_bit dest: irq_bit_other)

lemma irq_flag_alone:
  "irq_flag (f(i div 32 := put_bits (- 1) (irq_bit i) w)) j \<longleftrightarrow> (if j div 32 = i div 32 then j = i else irq_flag f j)"
  by (auto simp: irq_flag_def bit_put_bits bit_irq_bit bit_minus_1_iff dest: irq_bit_other)

lemma get_irq_bit_ok:
  assumes "gicd_law True H view" "i < irq_count (view h)" "backed (irq_count (view h)) (reg (i div 32))"
    and "gicd_load (reg (i div 32)) (view h) = Some (f (i div 32))"
  shows "\<exists>h'. get_irq_bit H reg i h = (h', Ok (irq_flag f i)) \<and> view h' = view h"
proof -
  have "i div 32 < 32" using assms(2) law_bounds(1) [OF assms(1), of h] by (simp add: less_mult_imp_div_less)
  then show ?thesis using law_read [OF assms(1,3) _ assms(4)] by (auto simp: get_irq_bit_def and_irq_bit irq_flag_def)
qed

end
