(* ===== verification/Gic_V3_Laws.thy ===== *)
theory Gic_V3_Laws
  imports Gic_V3_Driver Gic_Arch
begin

unbundle bit_operations_syntax

text \<open>
  What the architecture says of a GICv3 in a single security state, as hypotheses on the hardware.  The distributor registers of the
  shared interrupts are as in \<open>Gic_Arch\<close>; those of the private ones belong to the redistributors when affinity routing is on,
  and the view leaves them out.  The routing registers hold the implemented fields of a route (\<open>rb\<close>: the highest affinity level
  and the routing to any CPU are optional) while affinity routing is on, bit 4 of \<open>CTLR\<close>; while it is off they are reserved, and the
  law says nothing of what a write to them leaves (\<open>gic3_law\<close>).  The control register keeps the bits that it does not implement
  and \<open>DS\<close>; it lets software switch the two groups; affinity routing is on for good or can be switched on while both groups are
  off, and the law says nothing of other changes of it.  \<open>RWP\<close> reads as one for a while after a write (\<open>ctlr3_law\<close>; \<open>busy\<close> counts
  the reads).  The redistributors have a constant type register (\<open>rd_law\<close>).  Then what the driver does under these laws.
\<close>

abbreviation are_on :: "gicd_state \<Rightarrow> bool" where
  "are_on s \<equiv> bit (g_ctlr s) 4"

definition gic3_law ::
  "'h gic3_hw \<Rightarrow> ('h \<Rightarrow> gicd_state) \<Rightarrow> ('h \<Rightarrow> nat \<Rightarrow> 64 word) \<Rightarrow> (nat \<Rightarrow> 64 word) \<Rightarrow> 64 word \<Rightarrow> bool"
where
  "gic3_law H view route rb mpidr \<longleftrightarrow>
     gicd_law False (dist H) view \<and>
     (\<forall>r v h. r \<noteq> D_CTLR \<or> are_on (view h) \<longrightarrow> route (g3_write H (Dist r) v h) = route h) \<and>
     (\<forall>r h. route (fst (g3_read H (Dist r) h)) = route h) \<and>
     (\<forall>i v h. i + 32 < irq_count (view h) \<longrightarrow>
        view (g3_write64 H (IROUTER i) v h) = view h \<and>
        (are_on (view h) \<longrightarrow> route (g3_write64 H (IROUTER i) v h) = (route h)(i := v AND rb i))) \<and>
     (\<forall>i h. i + 32 < irq_count (view h) \<longrightarrow> are_on (view h) \<longrightarrow>
        (\<exists>h'. g3_read64 H (IROUTER i) h = (h', route h i) \<and> route h' = route h \<and> view h' = view h)) \<and>
     (\<forall>h. \<exists>h'. g3_read64 H MPIDR_EL1 h = (h', mpidr) \<and> route h' = route h \<and> view h' = view h)"

text \<open>The bits of the control register that take a write, and when affinity routing may change.\<close>

definition ctlr3_bits :: "gicd_state \<Rightarrow> bool" where
  "ctlr3_bits s \<longleftrightarrow>
     bit (g_bits s D_CTLR) 0 \<and> bit (g_bits s D_CTLR) 1 \<and> (bit (g_bits s D_CTLR) 4 \<or> are_on s) \<and>
     \<not> bit (g_bits s D_CTLR) 6 \<and> \<not> bit (g_bits s D_CTLR) 31"

definition are_safe :: "gicd_state \<Rightarrow> 32 word \<Rightarrow> bool" where
  "are_safe s v \<longleftrightarrow> bit v 4 = are_on s \<or> bit v 4 \<and> \<not> bit (g_ctlr s) 0 \<and> \<not> bit (g_ctlr s) 1"

definition ctlr3_law :: "'h gic3_hw \<Rightarrow> ('h \<Rightarrow> gicd_state) \<Rightarrow> ('h \<Rightarrow> nat) \<Rightarrow> bool" where
  "ctlr3_law H view busy \<longleftrightarrow>
     (\<forall>h. bit (g_ctlr (view h)) 6 \<longrightarrow> ctlr3_bits (view h)) \<and>
     (\<forall>v h. bit (g_ctlr (view h)) 6 \<longrightarrow> are_safe (view h) v \<longrightarrow>
        view (g3_write H (Dist D_CTLR) v h) = (view h)\<lparr>g_ctlr := put_bits (g_bits (view h) D_CTLR) v (g_ctlr (view h))\<rparr>) \<and>
     (\<forall>v h. busy (g3_write H (Dist D_CTLR) v h) < 10000) \<and>
     (\<forall>h. \<exists>h' w. g3_read H (Dist D_CTLR) h = (h', w) \<and> view h' = view h \<and> busy h' = busy h - 1 \<and>
        take_bit 31 w = take_bit 31 (g_ctlr (view h)) \<and> (bit w 31 \<longleftrightarrow> 0 < busy h))"

definition rd_law :: "'h gic3_hw \<Rightarrow> (nat \<Rightarrow> 64 word) \<Rightarrow> bool" where
  "rd_law H ty \<longleftrightarrow> (\<forall>n h. \<exists>h'. g3_read64 H (R_TYPER n) h = (h', ty n))"

text \<open>
  The architecture itself as hardware: 992 interrupts, the private ones left to the redistributors, all fields of a route, and routing
  registers that ignore writes while affinity routing is off.
\<close>

type_synonym arch3 = "gicd_state \<times> (nat \<Rightarrow> 64 word)"

definition arch3_bits :: "gic_reg \<Rightarrow> 32 word" where
  "arch3_bits r = (if r = D_CTLR then 0x13 else if legacy_reg r then 0 else arch_bits r)"

definition arch3_view :: "arch3 \<Rightarrow> gicd_state" where
  "arch3_view s = (fst s)\<lparr>g_typer := 30, g_enable := (g_enable (fst s))(0 := 0), g_bits := arch3_bits\<rparr>"

definition arch3_hw :: "64 word \<Rightarrow> (nat \<Rightarrow> 64 word) \<Rightarrow> arch3 gic3_hw" where
  "arch3_hw m ty =
     \<lparr>g3_read = (\<lambda>r s. (s, case r of
          Dist q \<Rightarrow> (if q = D_CTLR then take_bit 31 (g_ctlr (fst s)) else case gicd_load q (arch3_view s) of Some w \<Rightarrow> w | None \<Rightarrow> 0)
        | _ \<Rightarrow> 0)),
      g3_write = (\<lambda>r v s. case r of
          Dist q \<Rightarrow> (if q = D_CTLR then (fst s)\<lparr>g_ctlr := put_bits 0x13 v (g_ctlr (fst s))\<rparr> else gicd_store q v (arch3_view s), snd s)
        | _ \<Rightarrow> s),
      g3_read64 = (\<lambda>r s. (s, case r of IROUTER i \<Rightarrow> snd s i | MPIDR_EL1 \<Rightarrow> m | R_TYPER n \<Rightarrow> ty n | _ \<Rightarrow> 0)),
      g3_write64 = (\<lambda>r v s. case r of
          IROUTER i \<Rightarrow> if are_on (fst s) then (fst s, (snd s)(i := v)) else s
        | _ \<Rightarrow> s)\<rparr>"

lemma arch3_view_simps [simp]:
  "g_bits (arch3_view s) = arch3_bits" "g_ctlr (arch3_view s) = g_ctlr (fst s)" "irq_count (arch3_view s) = 992"
  by (simp_all add: arch3_view_def irq_count_def take_bit_eq_mod)

lemma arch3_view_store: "arch3_view (gicd_store r v (arch3_view s), x) = gicd_store r v (arch3_view s)"
  by (cases r) (auto simp: arch3_view_def arch3_bits_def clear_bits_def set_bits_def fun_eq_iff intro!: gicd_state.equality)

lemma arch3_view_route: "arch3_view (a, b(i := v)) = arch3_view (a, b)"
  by (simp add: arch3_view_def)

lemma arch3_bits_law: "bits_law (arch3_view s)"
proof -
  have "bit (g_enable (fst s) i) k \<Longrightarrow> k < 32" for i k using bit_imp_le_length [of "g_enable (fst s) i" k] by simp
  then show ?thesis by (simp add: bits_law_def arch3_view_def arch3_bits_def)
qed

lemma bits_0x13: "bit (0x13 :: 32 word) n \<longleftrightarrow> n \<in> {0, 1, 4}"
proof -
  have "(0x13 :: 32 word) = push_bit 0 1 OR push_bit 1 1 OR push_bit 4 1" by simp
  then show ?thesis by (auto simp only: bit_or_iff bit_single) simp_all
qed

lemma arch3_hw_law:
  "gic3_law (arch3_hw m ty) arch3_view snd (\<lambda>_. - 1) m" "ctlr3_law (arch3_hw m ty) arch3_view (\<lambda>_. 0)" "rd_law (arch3_hw m ty) ty"
proof -
  let ?H = "arch3_hw m ty"
  have "arch3_view (gh_write (dist ?H) r v h) = gicd_store r v (arch3_view h)" if "write_ok (arch3_view h) r v" for r v h
  proof -
    have "r \<noteq> D_CTLR" using that by (auto simp: write_ok_def)
    then show ?thesis by (simp add: dist_def arch3_hw_def arch3_view_store)
  qed
  moreover have "gh_read (dist ?H) r h = (h, w)"
    if "backed (irq_count (arch3_view h)) r" "gicd_load r (arch3_view h) = Some w" for r h w
    using that by (auto simp: dist_def arch3_hw_def)
  moreover have "legacy_reg r \<Longrightarrow> arch3_bits r = 0" for r by (auto simp: arch3_bits_def)
  ultimately have "gicd_law False (dist ?H) arch3_view"
    unfolding gicd_law_def using arch3_bits_law by simp
  then show "gic3_law ?H arch3_view snd (\<lambda>_. - 1) m"
    by (simp add: gic3_law_def) (simp add: arch3_hw_def arch3_view_route)
  show "ctlr3_law ?H arch3_view (\<lambda>_. 0)"
    by (simp add: ctlr3_law_def arch3_hw_def arch3_bits_def bit_take_bit_iff ctlr3_bits_def bits_0x13) (simp add: arch3_view_def arch3_bits_def)
  show "rd_law ?H ty" by (simp add: rd_law_def arch3_hw_def)
qed

section \<open>Control register\<close>

lemma law3_dist:
  assumes "gic3_law H view route rb m"
  shows "gicd_law False (dist H) view" "\<And>r v h. r \<noteq> D_CTLR \<or> are_on (view h) \<Longrightarrow> route (g3_write H (Dist r) v h) = route h"
    "\<And>r h. route (fst (g3_read H (Dist r) h)) = route h"
  using assms by (simp_all add: gic3_law_def)

lemma read_ctlr:
  assumes "gic3_law H view route rb m" "ctlr3_law H view busy"
  obtains h' w where "g3_read H (Dist D_CTLR) h = (h', w)" "view h' = view h" "route h' = route h" "busy h' = busy h - 1"
    "take_bit 31 w = take_bit 31 (g_ctlr (view h))" "bit w 31 \<longleftrightarrow> 0 < busy h"
proof -
  obtain h' w where "g3_read H (Dist D_CTLR) h = (h', w)" "view h' = view h" "busy h' = busy h - 1"
    "take_bit 31 w = take_bit 31 (g_ctlr (view h))" "bit w 31 \<longleftrightarrow> 0 < busy h"
    using assms(2) unfolding ctlr3_law_def by blast
  moreover from this have "route h' = route h" using law3_dist(3) [OF assms(1), of D_CTLR h] by simp
  ultimately show ?thesis by (intro that)
qed

lemma rwp_loop_ok:
  assumes "gic3_law H view route rb m" "ctlr3_law H view busy" "tock_law T" "busy h < n"
  shows "\<exists>h'. d3_rwp_loop T H n h = (h', Ok ()) \<and> view h' = view h \<and> route h' = route h"
  using assms(4)
proof (induction n arbitrary: h)
  case (Suc n)
  obtain h' w where rd: "g3_read H (Dist D_CTLR) h = (h', w)" "view h' = view h" "route h' = route h" "busy h' = busy h - 1"
    "take_bit 31 w = take_bit 31 (g_ctlr (view h))" "bit w 31 \<longleftrightarrow> 0 < busy h"
    by (rule read_ctlr [OF assms(1,2)])
  show ?case
  proof (cases "busy h = 0")
    case True
    then show ?thesis using rd by (simp add: reg_flag_def tk_flag_bit [OF assms(3), unfolded One_nat_def])
  next
    case False
    then have "busy h' < n" "n \<noteq> 0" using Suc.prems rd(4) by auto
    then show ?thesis using rd False Suc.IH [of h'] by (simp add: reg_flag_def tk_flag_bit [OF assms(3), unfolded One_nat_def])
  qed
qed simp

text \<open>\<open>disable\<close> masks the control register with the value of cleared fields, which is zero: nothing changes.\<close>

lemma disable_view:
  assumes "gic3_law H view route rb m" "ctlr3_law H view busy" "tock_law T" "bit (g_ctlr (view h)) 6"
  shows "view (gic3_disable T H g h) = view h" "busy (gic3_disable T H g h) < 10000"
    "are_on (view h) \<Longrightarrow> route (gic3_disable T H g h) = route h"
proof -
  obtain h' w where rd: "g3_read H (Dist D_CTLR) h = (h', w)" "view h' = view h" "route h' = route h"
    "busy h' = busy h - 1" "take_bit 31 w = take_bit 31 (g_ctlr (view h))" "bit w 31 \<longleftrightarrow> 0 < busy h"
    by (rule read_ctlr [OF assms(1,2)])
  have eq: "gic3_disable T H g h = g3_write H (Dist D_CTLR) w h'"
    by (simp add: gic3_disable_def rd(1) tk_val_law [OF assms(3)] split: security_state.split)
  have w: "bit w k = bit (g_ctlr (view h)) k" if "k < 31" for k
    using arg_cong [OF rd(5), of "\<lambda>v. bit v k"] that by (simp add: bit_take_bit_iff)
  have "\<not> bit (g_bits (view h) D_CTLR) 31" using assms(2,4) by (simp add: ctlr3_law_def ctlr3_bits_def)
  then have "put_bits (g_bits (view h) D_CTLR) w (g_ctlr (view h)) = g_ctlr (view h)"
  proof (intro bit_word_eqI)
    fix k assume k: "\<not> bit (g_bits (view h) D_CTLR) 31" "k < LENGTH(32)"
    then consider "k < 31" | "k = 31" by fastforce
    then show "bit (put_bits (g_bits (view h) D_CTLR) w (g_ctlr (view h))) k = bit (g_ctlr (view h)) k"
      by cases (use k(1) w in \<open>auto simp: bit_put_bits\<close>)
  qed
  moreover have "are_safe (view h) w" using w [of 4] by (simp add: are_safe_def)
  ultimately show "view (gic3_disable T H g h) = view h" "busy (gic3_disable T H g h) < 10000"
    using assms(2,4) rd(2) unfolding eq by (simp_all add: ctlr3_law_def)
  show "route (gic3_disable T H g h) = route h" if "are_on (view h)"
    unfolding eq using law3_dist(2) [OF assms(1), of D_CTLR h'] that rd(2,3) by simp
qed

section \<open>Routes\<close>

lemma route_roundtrip_value: "route_of_value (route_value a) = a"
proof (cases a)
  case None
  then show ?thesis by (simp add: route_value_def route_of_value_def)
next
  case (Some x)
  let ?v = "route_value a"
  have b: "bit ?v k \<longleftrightarrow> (k < 8 \<and> bit (aff0 x) k \<or> 8 \<le> k \<and> k < 16 \<and> bit (aff1 x) (k - 8) \<or> 16 \<le> k \<and> k < 24 \<and> bit (aff2 x) (k - 16) \<or>
      32 \<le> k \<and> k < 40 \<and> bit (aff3 x) (k - 32))" for k
    unfolding Some route_value_def option.case bit_and_iff bit_not_iff bit_single
    by (auto simp: bit_simps dest: bit_imp_le_length)
  have n: "?v AND push_bit 31 1 = 0"
    by (rule bit_eqI) (auto simp only: bit_and_iff b bit_single bit_0_eq bot_apply bot_bool_def)
  have e: "(0xFF :: 64 word) = mask 8" by (simp add: mask_eq_exp_minus_1)
  have f: "ucast (drop_bit n ?v AND 0xFF) = y" if "\<And>k. k < 8 \<Longrightarrow> bit ?v (n + k) = bit y k" for n and y :: "8 word"
    unfolding e by (rule bit_eqI) (simp add: bit_simps that)
  have "ucast (?v AND 0xFF) = aff0 x" "ucast (drop_bit 8 ?v AND 0xFF) = aff1 x" "ucast (drop_bit 16 ?v AND 0xFF) = aff2 x"
      "ucast (drop_bit 32 ?v AND 0xFF) = aff3 x"
    using f [of 0 "aff0 x"] f [of 8 "aff1 x"] f [of 16 "aff2 x"] f [of 32 "aff3 x"] by (auto simp: b)
  then show ?thesis using n by (simp add: route_of_value_def Some)
qed

lemma set_route:
  assumes "gic3_law H view route rb m" "32 \<le> i" "i < irq_count (view h)"
  shows "view (set_interrupt_route H i a h) = view h"
    "are_on (view h) \<Longrightarrow> route (set_interrupt_route H i a h) = (route h)(i - 32 := route_value a AND rb (i - 32))"
proof -
  have "32 \<le> i" "i < 1020" "\<not> 987 \<le> i - 32" using assms(2,3) law_bounds(1) [OF law3_dist(1) [OF assms(1)], of h] by simp_all
  then have "set_interrupt_route H i a h = g3_write64 H (IROUTER (i - 32)) (route_value a) h"
    by (simp only: set_interrupt_route_def simp_thms if_False)
  moreover have "i - 32 + 32 < irq_count (view h)" using assms(2,3) by simp
  ultimately show "view (set_interrupt_route H i a h) = view h"
      "are_on (view h) \<Longrightarrow> route (set_interrupt_route H i a h) = (route h)(i - 32 := route_value a AND rb (i - 32))"
    using assms(1) unfolding gic3_law_def by simp_all
qed

lemma get_route:
  assumes "gic3_law H view route rb m" "32 \<le> i" "i < irq_count (view h)" "are_on (view h)"
  shows "\<exists>h'. get_interrupt_route H i h = (h', route_of_value (route h (i - 32))) \<and> route h' = route h \<and> view h' = view h"
proof -
  have "32 \<le> i \<and> i < 1020 \<and> i - 32 < 987" using assms(2,3) law_bounds(1) [OF law3_dist(1) [OF assms(1)], of h] by simp
  moreover have "i - 32 + 32 < irq_count (view h)" using assms(2,3) by simp
  then obtain h' where "g3_read64 H (IROUTER (i - 32)) h = (h', route h (i - 32))" "route h' = route h" "view h' = view h"
    using assms(1,4) unfolding gic3_law_def by blast
  ultimately show ?thesis by (simp add: get_interrupt_route_def)
qed

lemma routes_fold:
  assumes "gic3_law H view route rb m" "\<And>i. i \<in> set is \<Longrightarrow> 32 \<le> i \<and> i < irq_count (view h)"
  shows "view (fold (\<lambda>i. set_interrupt_route H i a) is h) = view h \<and>
    (are_on (view h) \<longrightarrow> route (fold (\<lambda>i. set_interrupt_route H i a) is h) =
       (\<lambda>k. if k + 32 \<in> set is then route_value a AND rb k else route h k))"
  using assms(2)
proof (induction "is" arbitrary: h)
  case (Cons i "is")
  have "view (set_interrupt_route H i a h) = view h"
    "are_on (view h) \<Longrightarrow> route (set_interrupt_route H i a h) = (route h)(i - 32 := route_value a AND rb (i - 32))"
    using set_route [OF assms(1), of i h a] Cons.prems [of i] by auto
  moreover have "k = i - 32 \<longleftrightarrow> k + 32 = i" for k using Cons.prems [of i] by auto
  ultimately show ?case using Cons.IH [of "set_interrupt_route H i a h"] Cons.prems by (auto simp: fun_eq_iff)
qed simp

end
