(* ===== verification/Gic_Virt.thy ===== *)
theory Gic_Virt
  imports Gic_V2
begin

unbundle bit_operations_syntax

text \<open>
  The hypervisor interface of the GICv2 driver (\<open>HypervisorInterface\<close> of \<open>version/v2/mod.rs\<close>): the control register and
  the list registers that describe virtual interrupts.
\<close>

datatype virtual_interrupt_state = VInvalid | VPending | VActive | VPendingAndActive

datatype virtual_interrupt_type = VSoftware "nat option" bool | VHardware "32 word"

record virtual_interrupt_config =
  virtual_id :: int_id
  v_priority :: "8 word"
  v_state :: virtual_interrupt_state
  group1 :: bool
  interrupt_type :: virtual_interrupt_type

definition config_hardware :: "int_id \<Rightarrow> 32 word \<Rightarrow> 8 word \<Rightarrow> virtual_interrupt_state \<Rightarrow> bool \<Rightarrow> virtual_interrupt_config" where
  "config_hardware i physical_id p st g =
     \<lparr>virtual_id = i, v_priority = p, v_state = st, group1 = g, interrupt_type = VHardware physical_id\<rparr>"

definition config_software ::
  "int_id \<Rightarrow> nat option \<Rightarrow> 8 word \<Rightarrow> virtual_interrupt_state \<Rightarrow> bool \<Rightarrow> bool \<Rightarrow> virtual_interrupt_config"
where
  "config_software i cpu_id p st g eoi_maintenance =
     \<lparr>virtual_id = i, v_priority = p, v_state = st, group1 = g, interrupt_type = VSoftware cpu_id eoi_maintenance\<rparr>"

fun vstate_value :: "virtual_interrupt_state \<Rightarrow> 32 word" where
  "vstate_value VInvalid = 0"
| "vstate_value VPending = 1"
| "vstate_value VActive = 2"
| "vstate_value VPendingAndActive = 3"

definition vstate_of :: "32 word \<Rightarrow> virtual_interrupt_state" where
  "vstate_of v = (if v = 1 then VPending else if v = 2 then VActive else if v = 3 then VPendingAndActive else VInvalid)"

definition hyp_init_current_cpu :: "'h gic_hw \<Rightarrow> 'h \<Rightarrow> 'h" where
  "hyp_init_current_cpu H h = gh_write H H_APR 0 (reg_fill H H_LR 0 [0 ..< 64] (gh_write H H_HCR 0 h))"

text \<open>The switches of \<open>HCR\<close>, by the offset of their bit.\<close>

definition hcr_switch :: "tock \<Rightarrow> 'h gic_hw \<Rightarrow> nat \<Rightarrow> bool \<Rightarrow> 'h \<Rightarrow> 'h" where
  "hcr_switch T H off enable = reg_modify H H_HCR (tk_modify T off 1 (if enable then 1 else 0))"

definition hyp_enable :: "tock \<Rightarrow> 'h gic_hw \<Rightarrow> 'h \<Rightarrow> 'h" where "hyp_enable T H = hcr_switch T H 0 True"
definition hyp_disable :: "tock \<Rightarrow> 'h gic_hw \<Rightarrow> 'h \<Rightarrow> 'h" where "hyp_disable T H = hcr_switch T H 0 False"
definition set_underflow_interrupt :: "tock \<Rightarrow> 'h gic_hw \<Rightarrow> bool \<Rightarrow> 'h \<Rightarrow> 'h" where "set_underflow_interrupt T H = hcr_switch T H 1"
definition set_list_reg_entry_not_present_interrupt :: "tock \<Rightarrow> 'h gic_hw \<Rightarrow> bool \<Rightarrow> 'h \<Rightarrow> 'h" where
  "set_list_reg_entry_not_present_interrupt T H = hcr_switch T H 2"
definition set_no_pending_interrupt :: "tock \<Rightarrow> 'h gic_hw \<Rightarrow> bool \<Rightarrow> 'h \<Rightarrow> 'h" where "set_no_pending_interrupt T H = hcr_switch T H 3"
definition set_vgrp0_enable_interrupt :: "tock \<Rightarrow> 'h gic_hw \<Rightarrow> bool \<Rightarrow> 'h \<Rightarrow> 'h" where "set_vgrp0_enable_interrupt T H = hcr_switch T H 4"
definition set_vgrp0_disable_interrupt :: "tock \<Rightarrow> 'h gic_hw \<Rightarrow> bool \<Rightarrow> 'h \<Rightarrow> 'h" where "set_vgrp0_disable_interrupt T H = hcr_switch T H 5"
definition set_vgrp1_enable_interrupt :: "tock \<Rightarrow> 'h gic_hw \<Rightarrow> bool \<Rightarrow> 'h \<Rightarrow> 'h" where "set_vgrp1_enable_interrupt T H = hcr_switch T H 6"
definition set_vgrp1_disable_interrupt :: "tock \<Rightarrow> 'h gic_hw \<Rightarrow> bool \<Rightarrow> 'h \<Rightarrow> 'h" where "set_vgrp1_disable_interrupt T H = hcr_switch T H 7"

section \<open>List registers\<close>

definition lr_value :: "tock \<Rightarrow> virtual_interrupt_config \<Rightarrow> 32 word" where
  "lr_value T c =
     (let v = tk_val T 0 10 (of_nat (virtual_id c)) OR tk_val T 23 5 (ucast (v_priority c)) OR tk_val T 28 2 (vstate_value (v_state c));
          v = (if group1 c then v OR tk_val T 30 1 1 else v)
      in case interrupt_type c of
           VHardware physical_id \<Rightarrow> v OR (tk_val T 31 1 1 OR tk_val T 10 10 physical_id)
         | VSoftware cpu_id eoi_maintenance \<Rightarrow>
             let v = (case cpu_id of
                        Some cpu \<Rightarrow> if is_sgi (virtual_id c) then v OR tk_val T 10 3 (of_nat cpu) else v
                      | None \<Rightarrow> v)
             in if eoi_maintenance then v OR tk_val T 19 1 1 else v)"

definition set_virtual_interrupt ::
  "tock \<Rightarrow> 'h gic_hw \<Rightarrow> nat \<Rightarrow> virtual_interrupt_config \<Rightarrow> 'h \<Rightarrow> 'h \<times> (unit, unit) result"
where
  "set_virtual_interrupt T H lr_index c h =
     (if \<not> lr_index < 64 then (h, Panic) else (gh_write H (H_LR lr_index) (lr_value T c) h, Ok ()))"

definition lr_config :: "tock \<Rightarrow> 32 word \<Rightarrow> virtual_interrupt_config" where
  "lr_config T v =
     \<lparr>virtual_id = unat (tk_get T 0 10 v), v_priority = ucast (push_bit 3 (tk_get T 23 5 v)),
      v_state = vstate_of (tk_get T 28 2 v), group1 = (tk_get T 30 1 v \<noteq> 0),
      interrupt_type =
        (if tk_get T 31 1 v \<noteq> 0 then VHardware (tk_get T 10 10 v)
         else VSoftware (if tk_get T 10 3 v \<noteq> 0 then Some (unat (tk_get T 10 3 v)) else None) (tk_get T 19 1 v \<noteq> 0))\<rparr>"

definition get_virtual_interrupt ::
  "tock \<Rightarrow> 'h gic_hw \<Rightarrow> nat \<Rightarrow> 'h \<Rightarrow> 'h \<times> (unit, virtual_interrupt_config) result"
where
  "get_virtual_interrupt T H lr_index h =
     (if \<not> lr_index < 64 then (h, Panic) else case gh_read H (H_LR lr_index) h of (h, v) \<Rightarrow> (h, Ok (lr_config T v)))"

definition is_list_register_empty :: "tock \<Rightarrow> 'h gic_hw \<Rightarrow> nat \<Rightarrow> 'h \<Rightarrow> 'h \<times> bool" where
  "is_list_register_empty T H lr_index h =
     (if 64 \<le> lr_index then (h, True) else case gh_read H (H_LR lr_index) h of (h, v) \<Rightarrow> (h, tk_get T 28 2 v = 0))"

definition clear_list_register :: "'h gic_hw \<Rightarrow> nat \<Rightarrow> 'h \<Rightarrow> 'h \<times> (string, unit) result" where
  "clear_list_register H lr_index h =
     (if 64 \<le> lr_index then (h, Err ''Invalid list register index'') else (gh_write H (H_LR lr_index) 0 h, Ok ()))"

definition get_list_register_count :: "tock \<Rightarrow> 'h gic_hw \<Rightarrow> 'h \<Rightarrow> 'h \<times> nat" where
  "get_list_register_count T H h = (case gh_read H H_VTR h of (h, v) \<Rightarrow> (h, unat (tk_get T 0 6 v) + 1))"

definition get_maintenance_status :: "'h gic_hw \<Rightarrow> 'h \<Rightarrow> 'h \<times> 32 word" where
  "get_maintenance_status H = gh_read H H_MISR"

definition get_eoi_status :: "'h gic_hw \<Rightarrow> 'h \<Rightarrow> 'h \<times> 32 word \<times> 32 word" where
  "get_eoi_status H h = (case gh_read H H_EISR0 h of (h, a) \<Rightarrow> case gh_read H H_EISR1 h of (h, b) \<Rightarrow> (h, a, b))"

definition get_empty_lr_status :: "'h gic_hw \<Rightarrow> 'h \<Rightarrow> 'h \<times> 32 word \<times> 32 word" where
  "get_empty_lr_status H h = (case gh_read H H_ELRSR0 h of (h, a) \<Rightarrow> case gh_read H H_ELRSR1 h of (h, b) \<Rightarrow> (h, a, b))"

definition gicv_aiar :: "tock \<Rightarrow> 'h gic_hw \<Rightarrow> 'h \<Rightarrow> 'h \<times> ack option" where
  "gicv_aiar T H h =
     (case gh_read H V_AIAR h of (h, v) \<Rightarrow> (h, if tk_get T 0 10 v = 1023 then None else Some (ack_of_value T v)))"

section \<open>Laws\<close>

lemma vstate_inverse: "vstate_of (vstate_value s) = s"
  by (cases s) (simp_all add: vstate_of_def)

lemma vstate_small: "take_bit 2 (vstate_value s) = vstate_value s"
  by (cases s) simp_all

end
