(* ===== verification/Gic_Properties.thy ===== *)
theory Gic_Properties
  imports Gic_Arch Gic_Virt
begin

unbundle bit_operations_syntax

text \<open>
  The properties of the interrupt controller driver.  The hardware is a parameter with the laws of the architecture; the
  witnesses use \<open>arch_hw\<close>, which is those laws as a state.
\<close>

definition demo_gicd :: gicd_state where
  "demo_gicd = \<lparr>g_ctlr = 0, g_typer = 30, g_group = (\<lambda>_. 6), g_enable = (\<lambda>_. 0), g_pending = (\<lambda>_. - 1), g_active = (\<lambda>_. 0),
     g_priority = (\<lambda>_. 0), g_target = (\<lambda>_. 0), g_cfg = (\<lambda>_. 0), g_bits = arch_bits\<rparr>"

lemma arch_view_demo: "arch_view demo_gicd = demo_gicd"
  by (simp add: arch_view_def demo_gicd_def)

section \<open>Initialisation\<close>

definition gicd_after_init :: "nat \<Rightarrow> gicd_state \<Rightarrow> gicd_state" where
  "gicd_after_init n s =
     s\<lparr>g_ctlr := g_ctlr s OR 3,
       g_enable := (\<lambda>i. if i < n div 32 then clear_bits (g_bits s (ICENABLER i)) (- 1) (g_enable s i) else g_enable s i),
       g_pending := (\<lambda>i. if i < n div 32 then clear_bits (g_bits s (ICPENDR i)) (- 1) (g_pending s i) else g_pending s i),
       g_active := (\<lambda>i. if i < n div 32 then clear_bits (g_bits s (ICACTIVER i)) (- 1) (g_active s i) else g_active s i),
       g_group := (\<lambda>i. if i < n div 32 then put_bits (g_bits s (IGROUPR i)) 0 (g_group s i) else g_group s i),
       g_priority := (\<lambda>i. if 32 \<le> i \<and> i < n div 4 then put_bits (g_bits s (IPRIORITYR i)) 0xA0 (g_priority s i) else g_priority s i),
       g_target := (\<lambda>i. if 32 \<le> i \<and> i < 8 + (n - 32) div 4 then put_bits (g_bits s (ITARGETSR i)) 1 (g_target s i) else g_target s i),
       g_cfg := (\<lambda>i. if i < n div 16 then put_bits (g_bits s (ICFGR i)) 0 (g_cfg s i) else g_cfg s i)\<rparr>"

lemma ctlr_bits:
  assumes "tock_law T"
  defines "off \<equiv> \<lambda>v. tk_modify T 1 1 0 (tk_modify T 0 1 0 v)" and "on \<equiv> \<lambda>v. tk_modify T 1 1 1 (tk_modify T 0 1 1 v)"
  shows "put_bits 3 (on (put_bits 3 (off v) v)) (put_bits 3 (off v) v) = v OR 3"
proof (rule bit_eqI)
  fix k
  have m: "mask (Suc 0) = (1 :: 32 word)" by (simp add: mask_eq_exp_minus_1)
  have three: "bit (3 :: 32 word) k \<longleftrightarrow> k = 0 \<or> k = 1" for k by (cases k; cases "k - 1") (auto simp: bit_simps bit_numeral_rec bit_Suc)
  have "bit (on w) k \<longleftrightarrow> k = 0 \<or> k = 1 \<or> bit w k" for w k
    unfolding on_def tk_modify_law [OF assms(1)] field_mask_def by (auto simp: bit_simps m dest: bit_imp_le_length)
  then show "bit (put_bits 3 (on (put_bits 3 (off v) v)) (put_bits 3 (off v) v)) k \<longleftrightarrow> bit (v OR 3) k"
    unfolding bit_put_bits bit_or_iff three by auto
qed

lemma law_count:
  assumes "gicd_law l H view" "n = irq_count (view h)"
  shows "\<exists>m. n = 32 * Suc m \<and> m < 31"
proof -
  have "n = 32 * Suc (unat (take_bit 5 (g_typer (view h))))" "n \<le> 992"
    using assms law_bounds(1) [OF assms(1), of h] by (simp_all add: irq_count_def)
  then show ?thesis by (intro exI [of _ "unat (take_bit 5 (g_typer (view h)))"]) simp
qed

lemma max_spi_num_count:
  assumes "gicd_law l H view" "tock_law T"
  shows "\<exists>h'. max_spi_num T H h = (h', irq_count (view h)) \<and> view h' = view h"
  using law_read [OF assms(1), of h D_TYPER "g_typer (view h)"]
  by (auto simp: max_spi_num_def tk_get_law [OF assms(2)] irq_count_def)

lemma put_none [simp]: "put_bits 0 v w = w"
  by (simp add: put_bits_def)

lemma view_targets:
  assumes "gicd_law l H view" "n = irq_count (view g)"
  shows "view (configure_interrupt_targets H n g) =
     (view g)\<lparr>g_target := (\<lambda>i. if 32 \<le> i \<and> i < 8 + (n - 32) div 4 then put_bits (g_bits (view g) (ITARGETSR i)) 1 (g_target (view g) i)
                             else g_target (view g) i)\<rparr>"
proof -
  obtain m where m: "n = 32 * Suc m" "m < 31" using law_count [OF assms] by blast
  show ?thesis
  proof (cases "m = 0")
    case True
    then show ?thesis using m by (auto simp: configure_interrupt_targets_def fun_eq_iff intro!: gicd_state.equality)
  next
    case False
    then have c: "min (32 div 4 + div_ceil (n - 32) 4) 1024 = 8 + (n - 32) div 4" "\<not> n \<le> 32"
      using m unfolding div_ceil_def by auto
    have "backed (irq_count (view g)) (ITARGETSR i) \<and> (\<forall>k. ITARGETSR i \<noteq> ICFGR k)" if "i \<in> set [8 ..< 8 + (n - 32) div 4]" for i
      using that m unfolding assms(2) [symmetric] by auto
    from law_fill_plain [OF assms(1) this]
    have "view (reg_fill H ITARGETSR 1 [8 ..< 8 + (n - 32) div 4] g) = (view g)\<lparr>g_target := (\<lambda>i.
        if i \<in> set [8 ..< 8 + (n - 32) div 4] then put_bits (g_bits (view g) (ITARGETSR i)) 1 (g_target (view g) i) else g_target (view g) i)\<rparr>"
      by (simp only: fill_target)
    also have "(\<lambda>i. if i \<in> set [8 ..< 8 + (n - 32) div 4] then put_bits (g_bits (view g) (ITARGETSR i)) 1 (g_target (view g) i) else g_target (view g) i) =
        (\<lambda>i. if 32 \<le> i \<and> i < 8 + (n - 32) div 4 then put_bits (g_bits (view g) (ITARGETSR i)) 1 (g_target (view g) i) else g_target (view g) i)"
      using law_bounds(2) [OF assms(1), of g] by (auto simp: fun_eq_iff bits_law_def)
    finally show ?thesis using c by (simp add: configure_interrupt_targets_def Let_def)
  qed
qed

text \<open>
  \<^bold>\<open>C30.\<close>  The state of the distributor after \<open>Gic::init\<close>, for \<open>n\<close> interrupts: both groups are on, and every bit of the
  enable, pending, active, group and configuration registers that takes a write is clear, which makes the interrupts disabled, not
  pending, not active, in group 0 (where a comment promises group 1) and level sensitive.  The pending state of software generated
  interrupts is kept: it is not cleared by the registers that the code writes.  The default priority and the target CPU 0 reach only
  the first quarter of the identifiers: the loops count words of four interrupts but index registers of one, so every shared
  interrupt from \<open>n div 4\<close> on keeps the priority and the target it had.
\<close>

theorem gic_init_state:
  assumes "gicd_law True H view" "ctlr_law H view" "tock_law T" "n = irq_count (view h)"
  shows "view (gic_init T H h) = gicd_after_init n (view h) \<and>
         (\<forall>i < 16. irq_flag (g_pending (view (gic_init T H h))) i = irq_flag (g_pending (view h)) i)"
proof -
  let ?s = "view h" and ?off = "\<lambda>v. tk_modify T 1 1 0 (tk_modify T 0 1 0 v)"
  let ?c = "put_bits 3 (?off (g_ctlr ?s)) (g_ctlr ?s)"
  have d: "view (gicd_disable T H h) = ?s\<lparr>g_ctlr := ?c\<rparr>"
    unfolding gicd_disable_def by (rule law_modify [OF assms(2)])
  obtain m where m: "n = 32 * Suc m" "m < 31" using law_count [OF assms(1,4)] by blast
  obtain h1 where h1: "max_spi_num T H (gicd_disable T H h) = (h1, n)" "view h1 = ?s\<lparr>g_ctlr := ?c\<rparr>"
    using max_spi_num_count [OF assms(1,3), of "gicd_disable T H h"] d assms(4) by auto
  have c: "min (div_ceil n 32) 0x20 = n div 32" "min (div_ceil n 4) 1024 = n div 4" "min (div_ceil n 16) 0x40 = n div 16"
    using m unfolding div_ceil_def by auto
  note steps = irq_disable_all_def pending_clear_all_def active_clear_all_def groups_all_to_0_def set_default_spi_priorities_def
    configure_interrupt_config_def
  note fb = fill_blocks [OF assms(1)]
  let ?clr = "\<lambda>f reg i. if i < n div 32 then clear_bits (g_bits ?s (reg i)) (- 1) (f ?s i) else f ?s i"
  define h2 where "h2 = groups_all_to_0 H n (active_clear_all H n (pending_clear_all H n (irq_disable_all H n h1)))"
  have h2: "view h2 = ?s\<lparr>g_ctlr := ?c, g_enable := ?clr g_enable ICENABLER, g_pending := ?clr g_pending ICPENDR,
      g_active := ?clr g_active ICACTIVER,
      g_group := (\<lambda>i. if i < n div 32 then put_bits (g_bits ?s (IGROUPR i)) 0 (g_group ?s i) else g_group ?s i)\<rparr>"
    unfolding h2_def steps c by (simp add: fb h1(2) assms(4) [symmetric] cong: if_cong)
  then have cnt2: "irq_count (view h2) = n" using assms(4) by simp
  define h3 where "h3 = configure_interrupt_targets H n (set_default_spi_priorities H n h2)"
  have h3: "view h3 = (view h2)\<lparr>
      g_priority := (\<lambda>i. if 32 \<le> i \<and> i < n div 4 then put_bits (g_bits ?s (IPRIORITYR i)) 0xA0 (g_priority ?s i) else g_priority ?s i),
      g_target := (\<lambda>i. if 32 \<le> i \<and> i < 8 + (n - 32) div 4 then put_bits (g_bits ?s (ITARGETSR i)) 1 (g_target ?s i) else g_target ?s i)\<rparr>"
    unfolding h3_def steps c by (simp add: fb view_targets [OF assms(1)] cnt2 cong: if_cong) (simp add: h2 cong: if_cong)
  have "cfg_free (view h3)"
    by (rule cfg_free_disabled [OF law_bounds(2) [OF assms(1), of h]]) (simp_all add: h3 h2 assms(4))
  then have h4: "view (configure_interrupt_config H n h3) = (view h3)\<lparr>
      g_cfg := (\<lambda>i. if i < n div 16 then put_bits (g_bits ?s (ICFGR i)) 0 (g_cfg ?s i) else g_cfg ?s i)\<rparr>"
    unfolding steps c using cnt2 by (simp add: fb h3 cong: if_cong) (simp add: h2 cong: if_cong)
  have "gic_init T H h = gicd_enable T H (configure_interrupt_config H n h3)" by (simp add: gic_init_def h1(1) h3_def h2_def)
  then have v: "view (gic_init T H h) = gicd_after_init n ?s"
    by (simp add: gicd_enable_def law_modify [OF assms(2)] h4 h3 h2 ctlr_bits [OF assms(3), unfolded One_nat_def] gicd_after_init_def
        cong: if_cong)
  have "irq_flag (g_pending (gicd_after_init n ?s)) i = irq_flag (g_pending ?s) i" if "i < 16" for i
  proof -
    have "\<not> bit (g_bits ?s (ICPENDR 0)) i"
      using law_bounds(2) [OF assms(1), of h] that arg_cong [of _ _ "\<lambda>v. bit v i"] unfolding bits_law_def
      by (metis bit_0_eq bit_take_bit_iff bot_apply bot_bool_def)
    then show ?thesis using that by (simp add: irq_flag_def gicd_after_init_def bit_clear_bits)
  qed
  then show ?thesis unfolding v by blast
qed

theorem gic_init_state_witness:
  "arch_view (gic_init plain_tock arch_hw demo_gicd) = gicd_after_init 992 demo_gicd \<and>
   g_priority (arch_view (gic_init plain_tock arch_hw demo_gicd)) 256 = 0 \<and>
   g_target (arch_view (gic_init plain_tock arch_hw demo_gicd)) 256 = 0 \<and>
   irq_flag (g_pending (arch_view (gic_init plain_tock arch_hw demo_gicd))) 3"
proof -
  have "(992::nat) = irq_count (arch_view demo_gicd)" by simp
  from gic_init_state [OF arch_hw_law plain_tock_law this]
  have "arch_view (gic_init plain_tock arch_hw demo_gicd) = gicd_after_init 992 demo_gicd"
    "\<forall>i < 16. irq_flag (g_pending (arch_view (gic_init plain_tock arch_hw demo_gicd))) i = irq_flag (g_pending demo_gicd) i"
    unfolding arch_view_demo by blast+
  moreover from this(2) have "irq_flag (g_pending (arch_view (gic_init plain_tock arch_hw demo_gicd))) 3 = irq_flag (g_pending demo_gicd) 3"
    by (rule allE [of _ 3]) simp
  moreover have "irq_flag (g_pending demo_gicd) 3" by (simp add: demo_gicd_def irq_flag_def)
  moreover have "g_priority (gicd_after_init 992 demo_gicd) 256 = 0" "g_target (gicd_after_init 992 demo_gicd) 256 = 0"
    by (simp_all add: gicd_after_init_def demo_gicd_def)
  ultimately show ?thesis by simp
qed

section \<open>Single interrupts\<close>

text \<open>
  Enabling or disabling an interrupt changes that interrupt and no other one, and \<open>is_irq_enable\<close> then reports
  it; an identifier outside the distributor panics without an access.
\<close>

theorem irq_enable_exact:
  assumes "gicd_law True H view" "i < irq_count (view h) \<or> 1024 \<le> i"
    and "i < 1024 \<longrightarrow> irq_flag (\<lambda>k. g_bits (view h) (if e then ISENABLER k else ICENABLER k)) i"
  shows "if i < 1024
         then \<exists>h'. set_irq_enable H i e h = (h', Ok ()) \<and>
                (\<forall>j < irq_count (view h). \<exists>h1 h2 b. is_irq_enable H j h = (h1, Ok b) \<and>
                   is_irq_enable H j h' = (h2, Ok (if j = i then e else b)))
         else set_irq_enable H i e h = (h, Panic)"
proof (cases "i < 1024")
  case True
  let ?n = "irq_count (view h)"
  have lt: "i div 32 < 32" using True by (simp add: less_mult_imp_div_less)
  have i: "32 * (i div 32) < ?n" using True assms(2) by (metis le_less_trans linorder_not_less times_div_less_eq_dividend)
  let ?r = "if e then ISENABLER (i div 32) else ICENABLER (i div 32)"
  define h' where "h' = gh_write H ?r (irq_bit i) h"
  have set: "set_irq_enable H i e h = (h', Ok ())" using lt by (simp add: set_irq_enable_def set_irq_bit_def h'_def)
  have v: "view h' = gicd_store ?r (irq_bit i) (view h)"
    unfolding h'_def using i by (intro law_write [OF assms(1)]) (simp add: write_ok_def)
  have rd: "\<exists>g'. is_irq_enable H j g = (g', Ok (irq_flag (g_enable (view g)) j))" if "j < irq_count (view g)" for j g
  proof -
    have "32 * (j div 32) < irq_count (view g)" using that by (metis le_less_trans times_div_less_eq_dividend)
    then show ?thesis using get_irq_bit_ok [OF assms(1) that, of ISENABLER "g_enable (view g)"] by (auto simp: is_irq_enable_def)
  qed
  have "bit (g_bits (view h) ?r) (i mod 32)" using assms(3) True by (auto simp: irq_flag_def)
  then have "irq_flag (g_enable (view h')) j = (if j = i then e else irq_flag (g_enable (view h)) j)" for j
    using irq_flag_set [of _ i "g_enable (view h)" j] irq_flag_clear [of _ i "g_enable (view h)" j] by (auto simp: v)
  moreover have "irq_count (view h') = ?n" by (simp add: v)
  ultimately have "\<exists>h1 h2 b. is_irq_enable H j h = (h1, Ok b) \<and> is_irq_enable H j h' = (h2, Ok (if j = i then e else b))"
    if "j < ?n" for j
    using rd [of j h] rd [of j h'] that by fastforce
  then show ?thesis using True set by auto
next
  case False
  then have "\<not> i div 32 < 32" by (simp add: not_less less_eq_div_iff_mult_less_eq)
  then show ?thesis using False by (simp add: set_irq_enable_def set_irq_bit_def)
qed

theorem irq_enable_exact_witness:
  "\<exists>h'. set_irq_enable arch_hw 40 True demo_gicd = (h', Ok ()) \<and>
     (\<forall>j < 992. \<exists>h1 h2 b. is_irq_enable arch_hw j demo_gicd = (h1, Ok b) \<and>
        is_irq_enable arch_hw j h' = (h2, Ok (if j = 40 then True else b)))"
  using irq_enable_exact [OF arch_hw_law(1), of 40 demo_gicd True] by (simp add: irq_flag_def)

text \<open>
  The group registers hold what is written to them, but \<open>set_interrupt_group1\<close> writes them like a register that sets
  bits: putting one interrupt into group 1 puts the 31 others of its register into group 0.
\<close>

theorem group1_moves_others:
  assumes "gicd_law True H view" "i < irq_count (view h)" "g_bits (view h) (IGROUPR (i div 32)) = - 1"
  shows "\<exists>h'. set_interrupt_group1 H i True h = (h', Ok ()) \<and>
           (\<forall>j. irq_flag (g_group (view h')) j = (if j div 32 = i div 32 then j = i else irq_flag (g_group (view h)) j))"
proof -
  have lt: "i div 32 < 32" using assms(2) law_bounds(1) [OF assms(1), of h] by (simp add: less_mult_imp_div_less)
  have "write_ok (view h) (IGROUPR (i div 32)) v" for v
    using assms(2) le_less_trans [OF times_div_less_eq_dividend, of i "irq_count (view h)" 32] by (simp add: write_ok_def)
  then show ?thesis using irq_flag_alone [of "g_group (view h)" i] lt assms(3)
    by (simp add: set_interrupt_group1_def set_irq_bit_def law_write [OF assms(1)])
qed

theorem group1_moves_others_witness:
  "\<exists>h'. set_interrupt_group1 arch_hw 35 True demo_gicd = (h', Ok ()) \<and>
     \<not> irq_flag (g_group (arch_view h')) 33 \<and> irq_flag (g_group demo_gicd) 33"
proof -
  have "irq_flag (g_group demo_gicd) 33" by (simp add: irq_flag_def demo_gicd_def)
  then show ?thesis using group1_moves_others [OF arch_hw_law(1), of 35 demo_gicd] by auto
qed

lemma cfg_bit_other:
  assumes "j div 16 = i div (16::nat)" "j mod 16 * 2 + 1 = i mod 16 * 2 + (1::nat)"
  shows "j = i"
proof -
  have "j mod 16 = i mod 16" using assms(2) by simp
  then show ?thesis using assms(1) by (metis div_mult_mod_eq)
qed

definition cfg_flag :: "(nat \<Rightarrow> 32 word) \<Rightarrow> int_id \<Rightarrow> trigger" where
  "cfg_flag f i = (if bit (f (i div 16)) (i mod 16 * 2 + 1) then Edge else Level)"

lemma gicd_get_cfg_ok:
  assumes "gicd_law True H view" "i < irq_count (view h)"
  shows "\<exists>h'. gicd_get_cfg H i h = (h', Ok (cfg_flag (g_cfg (view h)) i)) \<and> view h' = view h"
proof -
  have lt: "i div 16 < 64" using assms(2) law_bounds(1) [OF assms(1), of h] by (simp add: less_mult_imp_div_less)
  have "16 * (i div 16) < irq_count (view h)" using assms(2) by (metis le_less_trans times_div_less_eq_dividend)
  then obtain h' where "gh_read H (ICFGR (i div 16)) h = (h', g_cfg (view h) (i div 16))" "view h' = view h"
    using law_read [OF assms(1), of h "ICFGR (i div 16)" "g_cfg (view h) (i div 16)"] by auto
  moreover have "g_cfg (view h) (i div 16) AND cfg_bit i \<noteq> 0 \<longleftrightarrow> bit (g_cfg (view h) (i div 16)) (i mod 16 * 2 + 1)"
    unfolding cfg_bit_def by (simp only: bit_iff_and_push_bit_not_eq_0)
  ultimately show ?thesis using lt by (simp add: gicd_get_cfg_def cfg_flag_def Let_def)
qed

text \<open>
  The trigger of an interrupt can be set when the architecture lets software program it, and when the interrupt is disabled
  or has that trigger already.
\<close>

definition trigger_settable :: "gicd_state \<Rightarrow> int_id \<Rightarrow> trigger \<Rightarrow> bool" where
  "trigger_settable s i t \<longleftrightarrow>
     bit (g_bits s (ICFGR (i div 16))) (i mod 16 * 2 + 1) \<and> (\<not> irq_flag (g_enable s) i \<or> cfg_flag (g_cfg s) i = t)"

lemma gicd_set_cfg_ok:
  assumes "gicd_law True H view" "i < irq_count (view h)" "trigger_settable (view h) i t"
  shows "\<exists>h'. gicd_set_cfg H i t h = (h', Ok ()) \<and> irq_count (view h') = irq_count (view h) \<and>
           (\<forall>j. cfg_flag (g_cfg (view h')) j = (if j = i then t else cfg_flag (g_cfg (view h)) j))"
proof -
  let ?f = "g_cfg (view h)" and ?m = "cfg_bit i" and ?b = "g_bits (view h) (ICFGR (i div 16))"
  have lt: "i div 16 < 64" using assms(2) law_bounds(1) [OF assms(1), of h] by (simp add: less_mult_imp_div_less)
  have bk: "backed (irq_count (view h)) (ICFGR (i div 16))"
    using le_less_trans [OF times_div_less_eq_dividend assms(2), of 16] by simp
  obtain h1 where h1: "gh_read H (ICFGR (i div 16)) h = (h1, ?f (i div 16))" "view h1 = view h"
    using law_read [OF assms(1) bk] by auto
  let ?v = "case t of Level \<Rightarrow> ?f (i div 16) AND NOT ?m | Edge \<Rightarrow> ?f (i div 16) OR ?m"
  have set: "gicd_set_cfg H i t h = (gh_write H (ICFGR (i div 16)) ?v h1, Ok ())" using lt h1(1) by (simp add: gicd_set_cfg_def Let_def)
  have v: "bit ?v k = (if k = i mod 16 * 2 + 1 then t = Edge else bit (?f (i div 16)) k)" for k
    by (cases t) (auto simp: bit_or_iff bit_and_iff bit_not_iff bit_cfg_bit dest: bit_imp_le_length)
  have p: "bit (put_bits ?b ?v (?f (i div 16))) k = (if k = i mod 16 * 2 + 1 then t = Edge else bit (?f (i div 16)) k)" for k
    unfolding bit_put_bits v using assms(3) by (simp add: trigger_settable_def)
  have "cfg_safe (view h) (i div 16) ?v"
    unfolding cfg_safe_def
  proof (intro allI impI)
    fix j k
    assume j: "j div 16 = i div 16" "irq_flag (g_enable (view h)) j" "k div 2 = j mod 16"
    show "bit ?v k = bit (?f (i div 16)) k"
    proof (cases "k = i mod 16 * 2 + 1")
      case True
      then have "j mod 16 = i mod 16" using j(3) by simp
      then have "j = i" using j(1) by (metis div_mult_mod_eq)
      then have "cfg_flag ?f i = t" using assms(3) j(2) by (simp add: trigger_settable_def)
      then show ?thesis using v [of k] True by (auto simp: cfg_flag_def split: if_splits)
    qed (use v [of k] in simp)
  qed
  then have w: "view (gh_write H (ICFGR (i div 16)) ?v h1) = gicd_store (ICFGR (i div 16)) ?v (view h)"
    using law_write [OF assms(1), of h1] bk by (simp add: h1(2) write_ok_def)
  have "cfg_flag (?f(i div 16 := put_bits ?b ?v (?f (i div 16)))) j = (if j = i then t else cfg_flag ?f j)" for j
    using p cfg_bit_other [of j i] by (cases t) (auto simp: cfg_flag_def)
  then show ?thesis using set w by (intro exI [of _ "gh_write H (ICFGR (i div 16)) ?v h1"]) simp
qed

definition trigger_of_flags :: "nat \<Rightarrow> trigger option" where
  "trigger_of_flags f = (if f \<in> {1, 2, 3} then Some Edge else if f \<in> {4, 8} then Some Level else None)"

lemma trigger_flags:
  "kind < 2 \<Longrightarrow> case trigger_of_flags f of Some t \<Rightarrow> irq_trigger kind f = Ok t | None \<Rightarrow> \<exists>e. irq_trigger kind f = Err e"
  by (auto simp: trigger_of_flags_def irq_trigger_def)

text \<open>
  \<^bold>\<open>C31.\<close>  Setting up an interrupt from a device tree specifier with three cells, for a shared (kind 0) or private (kind 1)
  peripheral interrupt of the controller: the identifier is the number shifted by 32 or 16.  When the flags name a trigger that can be
  set (software may program it, and the interrupt is disabled or has it already), \<open>get_cfg\<close> then reads it, and the
  triggers of all other interrupts stay as they are; flags that name no trigger panic before any register is accessed.
\<close>

theorem fdt_setup_irq:
  assumes "gicd_law True H view" "kind = 0 \<and> i = 32 + num \<or> kind = 1 \<and> i = 16 + num" "i < irq_count (view h)"
    and "\<forall>t. trigger_of_flags (flags mod 16) = Some t \<longrightarrow> trigger_settable (view h) i t"
  shows "case trigger_of_flags (flags mod 16) of
           Some t \<Rightarrow> \<exists>h'. setup_irq_by_fdt H [kind, num, flags] h = (h', Ok i) \<and>
             (\<forall>j < irq_count (view h). \<exists>h1. gicd_get_cfg H j h' = (h1, Ok (if j = i then t else cfg_flag (g_cfg (view h)) j)))
         | None \<Rightarrow> setup_irq_by_fdt H [kind, num, flags] h = (h, Panic)"
proof -
  have "irq_number kind num = Ok i"
    using assms(2,3) law_bounds(1) [OF assms(1), of h] by (auto simp: irq_number_def add_u32_def)
  then have parse: "fdt_parse_irq_config [kind, num, flags] =
      rbind (irq_trigger kind (flags mod 16)) (\<lambda>t. Ok \<lparr>ic_id = i, ic_trigger = t\<rparr>)"
    by (simp add: fdt_parse_irq_config_def)
  have k: "kind < 2" using assms(2) by auto
  show ?thesis
  proof (cases "trigger_of_flags (flags mod 16)")
    case None
    then obtain e where "irq_trigger kind (flags mod 16) = Err e" using trigger_flags [OF k, of "flags mod 16"] by auto
    then show ?thesis using None parse by (simp add: setup_irq_by_fdt_def)
  next
    case (Some t)
    then have "irq_trigger kind (flags mod 16) = Ok t" "trigger_settable (view h) i t"
      using trigger_flags [OF k, of "flags mod 16"] assms(4) by auto
    moreover from gicd_set_cfg_ok [OF assms(1,3) this(2)] obtain h' where
      h': "gicd_set_cfg H i t h = (h', Ok ())" "irq_count (view h') = irq_count (view h)"
        "\<And>j. cfg_flag (g_cfg (view h')) j = (if j = i then t else cfg_flag (g_cfg (view h)) j)" by blast
    moreover have "\<exists>h1. gicd_get_cfg H j h' = (h1, Ok (if j = i then t else cfg_flag (g_cfg (view h)) j))" if "j < irq_count (view h)" for j
      using gicd_get_cfg_ok [OF assms(1), of j h'] that h'(2,3) by auto
    ultimately show ?thesis using Some parse by (auto simp: setup_irq_by_fdt_def)
  qed
qed

theorem fdt_setup_irq_witness:
  "\<exists>h'. setup_irq_by_fdt arch_hw [0, 42, 1] demo_gicd = (h', Ok 74) \<and>
     (\<forall>j < 992. \<exists>h1. gicd_get_cfg arch_hw j h' = (h1, Ok (if j = 74 then Edge else cfg_flag (g_cfg (arch_view demo_gicd)) j)))"
proof -
  have "trigger_settable (arch_view demo_gicd) 74 Edge"
    by (simp add: trigger_settable_def arch_view_demo) (simp add: demo_gicd_def irq_flag_def)
  then show ?thesis
    using fdt_setup_irq [OF arch_hw_law(1), of 0 74 42 demo_gicd 1] by (simp add: trigger_of_flags_def)
qed

section \<open>Virtual interrupts\<close>

text \<open>
  What is read back of a configuration: the priority in the upper five bits, identifiers cut to ten bits, and a CPU only for a
  software generated interrupt, cut to three bits, where CPU 0 reads as none.
\<close>

definition lr_read_back :: "virtual_interrupt_config \<Rightarrow> virtual_interrupt_config" where
  "lr_read_back c =
     c\<lparr>virtual_id := virtual_id c mod 1024, v_priority := push_bit 3 (v_priority c),
       interrupt_type :=
         (case interrupt_type c of
            VHardware p \<Rightarrow> VHardware (take_bit 10 p)
          | VSoftware cpu eoi \<Rightarrow>
              VSoftware (case cpu of Some k \<Rightarrow> if is_sgi (virtual_id c) \<and> k mod 8 \<noteq> 0 then Some (k mod 8) else None | None \<Rightarrow> None) eoi)\<rparr>"

text \<open>
  The configurations that only lose the priority: identifiers of ten bits; the CPU of a software interrupt only for software
  generated interrupts, and not CPU 0.
\<close>

definition lr_representable :: "virtual_interrupt_config \<Rightarrow> bool" where
  "lr_representable c \<longleftrightarrow> virtual_id c < 1024 \<and>
     (case interrupt_type c of
        VHardware p \<Rightarrow> unat p < 1024
      | VSoftware None eoi \<Rightarrow> True
      | VSoftware (Some cpu) eoi \<Rightarrow> is_sgi (virtual_id c) \<and> 0 < cpu \<and> cpu < 8)"

lemma ucast_priority: "ucast (push_bit 3 (take_bit 5 (ucast p :: 32 word))) = push_bit 3 (p :: 8 word)"
  by (rule bit_eqI) (auto simp: bit_simps dest: bit_imp_le_length)

lemma lr_read_back_representable:
  assumes "lr_representable c"
  shows "lr_read_back c = c\<lparr>v_priority := push_bit 3 (v_priority c)\<rparr>"
proof -
  have "take_bit 10 p = p" if "unat p < 1024" for p :: "32 word"
    using that take_bit_small [of "unat p" 10] by simp
  then show ?thesis using assms
    by (cases c; cases "interrupt_type c") (auto simp: lr_representable_def lr_read_back_def split: option.splits)
qed

text \<open>
  \<^bold>\<open>C32.\<close>  What is read back of a virtual interrupt from the list register it was stored in, for every configuration.  The state,
  the group and the end-of-interrupt flag come back as set.  The priority is stored by its low five bits and read shifted by three, so
  that \<open>p\<close> comes back as \<open>8 * p\<close> and every multiple of 32 is stored as the highest priority; identifiers are cut to ten
  bits; the CPU of a software interrupt is dropped unless the interrupt is software generated, and CPU 0 comes back as none.
  Configurations without such a loss, \<open>lr_representable\<close>, differ in the priority only.
\<close>

theorem virtual_interrupt_roundtrip:
  assumes "tock_law T"
  shows "lr_config T (lr_value T c) = lr_read_back c \<and>
         (lr_representable c \<longrightarrow> lr_config T (lr_value T c) = c\<lparr>v_priority := push_bit 3 (v_priority c)\<rparr>)"
proof -
  note [simp] = get_simps [OF assms] ucast_priority vstate_inverse vstate_small
  have u: "unat (take_bit k (of_nat n :: 32 word)) = n mod 2 ^ k" if "k < 32" for k n
  proof -
    have "unat (take_bit k (of_nat n :: 32 word)) = take_bit k (take_bit 32 n)"
      by (simp add: unsigned_take_bit_eq unsigned_of_nat del: take_bit_take_bit)
    then show ?thesis using that by (simp add: take_bit_eq_mod [of k n] min_def)
  qed
  have z: "take_bit 3 (of_nat n :: 32 word) = 0 \<longleftrightarrow> n mod 8 = 0" for n
    using u [of 3 n] unat_eq_zero [of "take_bit 3 (of_nat n :: 32 word)"] by simp
  have "lr_config T (lr_value T c) = lr_read_back c"
  proof (cases "interrupt_type c")
    case (VHardware p)
    then show ?thesis by (cases c) (simp add: lr_value_def lr_config_def lr_read_back_def Let_def u)
  next
    case (VSoftware cpu eoi)
    then show ?thesis
      by (cases c; cases cpu) (simp_all add: lr_value_def lr_config_def lr_read_back_def Let_def u z)
  qed
  then show ?thesis using lr_read_back_representable by simp
qed

theorem virtual_interrupt_roundtrip_witness:
  "lr_config plain_tock (lr_value plain_tock (config_software 5 (Some 2) 0xA0 VPending True True)) =
   config_software 5 (Some 2) 0 VPending True True \<and>
   lr_config plain_tock (lr_value plain_tock (config_software 5 (Some 0) 1 VPending True True)) =
   config_software 5 None 8 VPending True True"
proof -
  have "lr_representable (config_software 5 (Some 2) 0xA0 VPending True True)"
    by (simp add: lr_representable_def config_software_def is_sgi_def)
  then show ?thesis
    using virtual_interrupt_roundtrip [OF plain_tock_law, of "config_software 5 (Some 2) 0xA0 VPending True True"]
      virtual_interrupt_roundtrip [OF plain_tock_law, of "config_software 5 (Some 0) 1 VPending True True"]
    by (simp add: lr_read_back_def) (simp add: config_software_def is_sgi_def)
qed

text \<open>
  The value that \<open>eoi\<close> and \<open>dir\<close> write for an acknowledged interrupt names the same interrupt and CPU that \<open>ack\<close> read.
\<close>

theorem ack_roundtrip:
  assumes "tock_law T" "case a of SgiAck i cpu \<Rightarrow> i < 16 \<and> cpu < 8 | OtherAck i \<Rightarrow> 16 \<le> i \<and> i < 1024"
  shows "ack_of_value T (ack_value T a) = a"
proof (cases a)
  case (SgiAck i cpu)
  then have "i < 16" "cpu < 8" using assms(2) by simp_all
  then show ?thesis using SgiAck get_simps [OF assms(1)]
    by (simp add: ack_of_value_def ack_value_def is_sgi_def take_bit_small unat_of_nat)
next
  case (OtherAck i)
  then have "16 \<le> i" "i < 1024" using assms(2) by simp_all
  then show ?thesis using OtherAck get_simps [OF assms(1)]
    by (simp add: ack_of_value_def ack_value_def is_sgi_def take_bit_small unat_of_nat)
qed

theorem ack_roundtrip_witness: "ack_of_value plain_tock (ack_value plain_tock (SgiAck 5 3)) = SgiAck 5 3"
  by (rule ack_roundtrip [OF plain_tock_law]) simp

end
