(* ===== verification/Gic_V3_Properties.thy ===== *)
theory Gic_V3_Properties
  imports Gic_V3_Laws Gic_Properties
begin

unbundle bit_operations_syntax

text \<open>
  The properties of the GICv3 driver: initialisation, routing, the search for the redistributor of the current CPU and the
  targets of software generated interrupts.
\<close>

section \<open>Initialisation\<close>

definition gicd3_after_init :: "nat \<Rightarrow> gicd_state \<Rightarrow> gicd_state" where
  "gicd3_after_init n s =
     s\<lparr>g_ctlr := put_bits (g_bits s D_CTLR) 0x13 (g_ctlr s),
       g_enable := (\<lambda>i. if i < n div 32 then clear_bits (g_bits s (ICENABLER i)) (- 1) (g_enable s i) else g_enable s i),
       g_pending := (\<lambda>i. if i < n div 32 then clear_bits (g_bits s (ICPENDR i)) (- 1) (g_pending s i) else g_pending s i),
       g_active := (\<lambda>i. if i < n div 32 then clear_bits (g_bits s (ICACTIVER i)) (- 1) (g_active s i) else g_active s i),
       g_group := (\<lambda>i. if i < n div 32 then put_bits (g_bits s (IGROUPR i)) (- 1) (g_group s i) else g_group s i),
       g_priority := (\<lambda>i. if 32 \<le> i \<and> i < n then put_bits (g_bits s (IPRIORITYR i)) 0xA0 (g_priority s i) else g_priority s i),
       g_cfg := (\<lambda>i. if i < n div 16 then put_bits (g_bits s (ICFGR i)) 0 (g_cfg s i) else g_cfg s i)\<rparr>"

lemma route_fill:
  assumes "gic3_law H view route rb m" "\<And>i. reg i \<noteq> D_CTLR"
  shows "route (reg_fill (dist H) reg v is h) = route h"
  unfolding reg_fill_def by (induction "is" arbitrary: h) (simp_all add: dist_def law3_dist(2) [OF assms(1)] assms(2))

lemma reset_registers_state:
  assumes "gic3_law H view route rb m" "tock_law T" "n = irq_count (view h)"
  shows "view (reset_registers T H h) = (gicd3_after_init n (view h))\<lparr>g_ctlr := g_ctlr (view h)\<rparr> \<and>
    (are_on (view h) \<longrightarrow> route (reset_registers T H h) =
       (\<lambda>k. if k + 32 < n then route_value (Some (from_mpidr T m)) AND rb k else route h k))"
proof -
  note law = law3_dist(1) [OF assms(1)]
  let ?s = "view h"
  obtain k where k: "n = 32 * Suc k" "k < 31" using law_count [OF law assms(3)] by blast
  have c: "min (div_ceil n 32) 0x20 = n div 32" "min n 1024 = n" "min (div_ceil n 16) 0x40 = n div 16"
    using k unfolding div_ceil_def by auto
  have "backed (irq_count ?s) D_TYPER" "gicd_load D_TYPER ?s = Some (g_typer ?s)" by simp_all
  from law_read [OF law this(1) _ this(2)] obtain h1 where r: "g3_read H (Dist D_TYPER) h = (h1, g_typer ?s)" "view h1 = ?s"
    by (auto simp: dist_def)
  have h1: "d3_max_spi_num T H h = (h1, n)" using r(1) assms(3) by (simp add: d3_max_spi_num_def tk_get_law [OF assms(2)] irq_count_def)
  have rt1: "route h1 = route h" using law3_dist(3) [OF assms(1), of D_TYPER h] r(1) by simp
  note steps = d3_pending_clear_all_def d3_active_clear_all_def d3_irq_disable_all_def groups_all_to_1_def
    set_default_priorities_def d3_configure_interrupt_config_def
  note fb = fill_blocks [OF law]
  define h0 where "h0 = set_default_priorities H n (groups_all_to_1 H n (d3_irq_disable_all H n
    (d3_active_clear_all H n (d3_pending_clear_all H n h1))))"
  have h0: "view h0 = (gicd3_after_init n ?s)\<lparr>g_ctlr := g_ctlr ?s, g_cfg := g_cfg ?s\<rparr>"
    unfolding h0_def steps c by (simp add: fb r(2) assms(3) [symmetric] gicd3_after_init_def cong: if_cong)
  have free: "cfg_free (view h0)"
    by (rule cfg_free_disabled [OF law_bounds(2) [OF law, of h]]) (simp_all add: h0 gicd3_after_init_def assms(3))
  have cnt: "irq_count (view h0) = n" by (simp add: h0 gicd3_after_init_def assms(3))
  define h2 where "h2 = d3_configure_interrupt_config H n h0"
  have h2: "view h2 = (gicd3_after_init n ?s)\<lparr>g_ctlr := g_ctlr ?s\<rparr>"
    unfolding h2_def steps c using fb(6) [OF cnt free, of 0] by (simp add: h0 gicd3_after_init_def cong: if_cong)
  have rt: "route h2 = route h"
    unfolding h2_def h0_def steps by (simp add: route_fill [OF assms(1)] rt1)
  obtain h3 where h3: "g3_read64 H MPIDR_EL1 h2 = (h3, m)" "route h3 = route h2" "view h3 = view h2"
    using assms(1) unfolding gic3_law_def by blast
  let ?f = "fold (\<lambda>i. set_interrupt_route H i (Some (from_mpidr T m))) [32 ..< n] h3"
  have seq: "reset_registers T H h = ?f"
    by (simp add: reset_registers_def h1 h0_def [symmetric] h2_def [symmetric] set_all_routing_to_current_def current_affinity_def h3(1))
  have rng: "\<And>i. i \<in> set [32 ..< n] \<Longrightarrow> 32 \<le> i \<and> i < irq_count (view h3)"
    using assms(3) by (simp add: h3(3) h2 gicd3_after_init_def)
  have "view ?f = view h3 \<and> (are_on (view h3) \<longrightarrow>
      route ?f = (\<lambda>k. if k + 32 \<in> set [32 ..< n] then route_value (Some (from_mpidr T m)) AND rb k else route h3 k))"
    by (rule routes_fold [OF assms(1) rng])
  moreover have "are_on (view h3) = are_on ?s" by (simp add: h3(3) h2)
  ultimately show ?thesis unfolding seq by (simp add: h3 h2 rt cong: if_cong)
qed

text \<open>
  \<^bold>\<open>C33.\<close>  Initialisation of a GICv3 in a single security state, with affinity routing on already or both groups off, returns when
  the hardware finishes its register writes in time.  Then both groups and affinity routing are on, and in the registers of the shared
  interrupts every bit that takes a write says disabled, not pending, not active, group 1, level sensitive and default priority.  When
  affinity routing was on before, every shared interrupt is routed to the current CPU, by the fields of a route that are
  implemented; when it was off, the routes are written to reserved registers, before the write that switches it on, and nothing
  is promised of them.  The first step, which should switch the distributor off while it is configured, has no
  effect: \<open>disable\<close> leaves the control register as it is.
\<close>

theorem gic3_init_state:
  assumes "gic3_law H view route rb m" "ctlr3_law H view busy" "tock_law T" "n = irq_count (view h)"
    and "bit (g_ctlr (view h)) 6" "are_on (view h) \<or> \<not> bit (g_ctlr (view h)) 0 \<and> \<not> bit (g_ctlr (view h)) 1"
  shows "(\<exists>h'. gic3_init T H g h = (g\<lparr>security_of := Single\<rparr>, h', Ok ()) \<and> view h' = gicd3_after_init n (view h) \<and>
           bit (g_ctlr (view h')) 0 \<and> bit (g_ctlr (view h')) 1 \<and> are_on (view h') \<and>
           (are_on (view h) \<longrightarrow>
              route h' = (\<lambda>k. if k + 32 < n then route_value (Some (from_mpidr T m)) AND rb k else route h k))) \<and>
         view (gic3_disable T H g h) = view h"
proof -
  let ?g = "g\<lparr>security_of := Single\<rparr>" and ?s = "view h"
  obtain h1 w where h1: "g3_read H (Dist D_CTLR) h = (h1, w)" "view h1 = ?s" "route h1 = route h" "busy h1 = busy h - 1"
      "take_bit 31 w = take_bit 31 (g_ctlr ?s)" "bit w 31 \<longleftrightarrow> 0 < busy h"
    by (rule read_ctlr [OF assms(1,2)])
  have "bit w 6" using arg_cong [OF h1(5), of "\<lambda>v. bit v 6"] assms(5) by (simp add: bit_take_bit_iff)
  then have st: "get_security_state T H h = (h1, Single)"
    using h1(1) by (simp add: get_security_state_def is_single_security_state_def reg_flag_def tk_flag_bit [OF assms(3), unfolded One_nat_def])
  let ?d = "gic3_disable T H ?g h1"
  have d: "view ?d = ?s" "are_on ?s \<Longrightarrow> route ?d = route h" "busy ?d < 10000"
    using disable_view [OF assms(1-3), of h1 ?g] h1(2,3) assms(5) by simp_all
  obtain h2 where h2: "d3_wait_for_rwp T H ?d = (h2, Ok ())" "view h2 = ?s" "route h2 = route ?d"
    using rwp_loop_ok [OF assms(1-3) d(3)] d(1) unfolding d3_wait_for_rwp_def by auto
  let ?r = "reset_registers T H h2" and ?c = "g3_write H (Dist D_CTLR) (init_ctlr T Single) (reset_registers T H h2)"
  have r: "view ?r = (gicd3_after_init n ?s)\<lparr>g_ctlr := g_ctlr ?s\<rparr>"
      "are_on ?s \<Longrightarrow> route ?r = (\<lambda>k. if k + 32 < n then route_value (Some (from_mpidr T m)) AND rb k else route h2 k)"
    using reset_registers_state [OF assms(1,3), of n h2] assms(4) h2(2) by simp_all
  have i: "init_ctlr T Single = 0x13" by (simp add: init_ctlr_def tk_val_law [OF assms(3)] take_bit_eq_mask mask_eq_exp_minus_1)
  have bits: "ctlr3_bits ?s" using assms(2,5) by (simp add: ctlr3_law_def)
  have safe: "are_safe (view ?r) (init_ctlr T Single)"
    using assms(6) unfolding are_safe_def i bits_0x13 by (auto simp: r(1))
  then have c: "view ?c = gicd3_after_init n ?s" "busy ?c < 10000"
    using assms(2,5) i by (simp_all add: ctlr3_law_def r(1) gicd3_after_init_def cong: if_cong)
  have rc: "route ?c = route ?r" if "are_on ?s" using law3_dist(2) [OF assms(1), of D_CTLR ?r] that by (simp add: r(1))
  obtain h3 where h3: "d3_wait_for_rwp T H ?c = (h3, Ok ())" "view h3 = view ?c" "route h3 = route ?c"
    using rwp_loop_ok [OF assms(1-3) c(2)] unfolding d3_wait_for_rwp_def by blast
  have "gic3_init T H g h = (?g, h3, Ok ())" by (simp add: gic3_init_def st h2(1) h3(1) Let_def)
  moreover have "view (gic3_disable T H g h) = ?s" using disable_view(1) [OF assms(1-3,5)] .
  moreover have "view h3 = gicd3_after_init n ?s" using h3(2) c(1) by simp
  moreover have "bit (g_ctlr (gicd3_after_init n ?s)) k" if "k \<in> {0, 1, 4}" for k
    using bits that by (auto simp: gicd3_after_init_def bit_put_bits ctlr3_bits_def bits_0x13)
  moreover have "route h3 = (\<lambda>k. if k + 32 < n then route_value (Some (from_mpidr T m)) AND rb k else route h k)" if "are_on ?s"
    using that h3(3) rc r(2) h2(3) d(2) by (simp cong: if_cong)
  ultimately show ?thesis by simp
qed

text \<open>Two states of the same controller: with affinity routing on and group 0 enabled, and as after a reset.\<close>

definition demo_gicd3 :: arch3 where
  "demo_gicd3 = (demo_gicd\<lparr>g_ctlr := 0x51\<rparr>, (\<lambda>_. 0))"

definition demo_reset3 :: arch3 where
  "demo_reset3 = (demo_gicd\<lparr>g_ctlr := 0x40\<rparr>, (\<lambda>_. 0))"

lemma bits_0x51: "bit (0x51 :: 32 word) n \<longleftrightarrow> n \<in> {0, 4, 6}"
proof -
  have "(0x51 :: 32 word) = push_bit 0 1 OR push_bit 4 1 OR push_bit 6 1" by simp
  then show ?thesis by (auto simp only: bit_or_iff bit_single) simp_all
qed

text \<open>
  The witness initialises both states on a controller that ignores writes to reserved routing registers: in the first, interrupt 40
  is routed to CPU 3 afterwards; in the second, initialisation reports success as well.
\<close>

theorem gic3_init_state_witness:
  "(\<exists>h'. gic3_init plain_tock (arch3_hw 3 (\<lambda>_. 0)) gic3_new demo_gicd3 = (gic3_new\<lparr>security_of := Single\<rparr>, h', Ok ()) \<and>
     arch3_view h' = gicd3_after_init 992 (arch3_view demo_gicd3) \<and> route_of_value (snd h' 8) = Some (from_mpidr plain_tock 3)) \<and>
   (\<exists>h'. gic3_init plain_tock (arch3_hw 3 (\<lambda>_. 0)) gic3_new demo_reset3 = (gic3_new\<lparr>security_of := Single\<rparr>, h', Ok ()) \<and>
     are_on (arch3_view h'))"
proof -
  have n: "(992::nat) = irq_count (arch3_view demo_gicd3)" "(992::nat) = irq_count (arch3_view demo_reset3)" by simp_all
  have b: "bit (g_ctlr (arch3_view demo_gicd3)) 6" "are_on (arch3_view demo_gicd3)" "bit (g_ctlr (arch3_view demo_reset3)) 6"
    "\<not> bit (g_ctlr (arch3_view demo_reset3)) 0 \<and> \<not> bit (g_ctlr (arch3_view demo_reset3)) 1"
    by (simp_all add: demo_gicd3_def demo_reset3_def)
  have on: "are_on (arch3_view demo_gicd3) \<or> \<not> bit (g_ctlr (arch3_view demo_gicd3)) 0 \<and> \<not> bit (g_ctlr (arch3_view demo_gicd3)) 1"
    using b(2) by (rule disjI1)
  have off: "are_on (arch3_view demo_reset3) \<or> \<not> bit (g_ctlr (arch3_view demo_reset3)) 0 \<and> \<not> bit (g_ctlr (arch3_view demo_reset3)) 1"
    using b(4) by (rule disjI2)
  note w1 = gic3_init_state [OF arch3_hw_law(1,2) plain_tock_law n(1) b(1) on, where g = gic3_new, THEN conjunct1]
  note w2 = gic3_init_state [OF arch3_hw_law(1,2) plain_tock_law n(2) b(3) off, where g = gic3_new, THEN conjunct1]
  from w1 [of 3 "\<lambda>_. 0"] b(2) obtain h' where
    h': "gic3_init plain_tock (arch3_hw 3 (\<lambda>_. 0)) gic3_new demo_gicd3 = (gic3_new\<lparr>security_of := Single\<rparr>, h', Ok ())"
      "arch3_view h' = gicd3_after_init 992 (arch3_view demo_gicd3)"
      "snd h' = (\<lambda>k. if k + 32 < 992 then route_value (Some (from_mpidr plain_tock 3)) AND - 1 else snd demo_gicd3 k)" by blast
  have "route_of_value (snd h' 8) = Some (from_mpidr plain_tock 3)" by (simp add: h'(3) route_roundtrip_value)
  with h'(1,2) w2 [of 3 "\<lambda>_. 0"] show ?thesis by blast
qed

section \<open>Routes\<close>

text \<open>
  \<^bold>\<open>C34.\<close>  With affinity routing on, the route of a shared interrupt, to one CPU or to any, reads back as it was set when the
  controller implements the fields that it uses, and setting it changes no other route.  Setting or reading the target
  of a private interrupt panics.  For the identifier 1019, the last shared one, the route is ignored and always reads as
  any CPU, because the register array ends one entry early.
\<close>

theorem route_roundtrip:
  assumes "gic3_law H view route rb m" "are_on (view h)"
  shows "(32 \<le> i \<and> i < irq_count (view h) \<and> route_value a AND rb (i - 32) = route_value a \<longrightarrow>
            (\<exists>h'. gic3_set_target_cpu H i a h = (h', Ok ()) \<and>
               (\<forall>j. 32 \<le> j \<and> j < irq_count (view h) \<longrightarrow>
                  (\<exists>h1 h2 b. gic3_get_target_cpu H j h = (h1, Ok b) \<and> gic3_get_target_cpu H j h' = (h2, Ok (if j = i then a else b)))))) \<and>
         (i < 32 \<longrightarrow> gic3_set_target_cpu H i a h = (h, Panic) \<and> gic3_get_target_cpu H i h = (h, Panic)) \<and>
         gic3_set_target_cpu H 1019 a h = (h, Ok ()) \<and> gic3_get_target_cpu H 1019 h = (h, Ok None)"
proof (intro conjI impI)
  assume i: "32 \<le> i \<and> i < irq_count (view h) \<and> route_value a AND rb (i - 32) = route_value a"
  let ?h = "set_interrupt_route H i a h"
  have s: "view ?h = view h" "route ?h = (route h)(i - 32 := route_value a)" using set_route [OF assms(1)] assms(2) i by simp_all
  have "\<exists>h1 h2 b. gic3_get_target_cpu H j h = (h1, Ok b) \<and> gic3_get_target_cpu H j ?h = (h2, Ok (if j = i then a else b))"
    if j: "32 \<le> j \<and> j < irq_count (view h)" for j
  proof -
    obtain h1 where "get_interrupt_route H j h = (h1, route_of_value (route h (j - 32)))"
      using get_route [OF assms(1), of j h] j assms(2) by blast
    moreover obtain h2 where "get_interrupt_route H j ?h = (h2, route_of_value (route ?h (j - 32)))"
      using get_route [OF assms(1), of j ?h] j s(1) assms(2) by auto
    moreover have "route ?h (j - 32) = (if j = i then route_value a else route h (j - 32))" using s(2) i j by auto
    ultimately show ?thesis using j by (auto simp: gic3_get_target_cpu_def is_private_def route_roundtrip_value)
  qed
  then show "\<exists>h'. gic3_set_target_cpu H i a h = (h', Ok ()) \<and> (\<forall>j. 32 \<le> j \<and> j < irq_count (view h) \<longrightarrow>
      (\<exists>h1 h2 b. gic3_get_target_cpu H j h = (h1, Ok b) \<and> gic3_get_target_cpu H j h' = (h2, Ok (if j = i then a else b))))"
    using i by (intro exI [of _ ?h]) (simp add: gic3_set_target_cpu_def is_private_def)
qed (simp_all add: gic3_set_target_cpu_def gic3_get_target_cpu_def is_private_def set_interrupt_route_def get_interrupt_route_def)

theorem route_roundtrip_witness:
  "\<exists>h'. gic3_set_target_cpu (arch3_hw 3 (\<lambda>_. 0)) 40 (Some \<lparr>aff0 = 1, aff1 = 2, aff2 = 0, aff3 = 4\<rparr>) demo_gicd3 = (h', Ok ()) \<and>
     (\<exists>h2. gic3_get_target_cpu (arch3_hw 3 (\<lambda>_. 0)) 40 h' = (h2, Ok (Some \<lparr>aff0 = 1, aff1 = 2, aff2 = 0, aff3 = 4\<rparr>)))"
proof -
  let ?a = "\<lparr>aff0 = 1, aff1 = 2, aff2 = 0, aff3 = 4\<rparr>"
  have n: "irq_count (arch3_view demo_gicd3) = 992" by simp
  have on: "are_on (arch3_view demo_gicd3)" by (simp add: demo_gicd3_def)
  have "\<exists>h'. gic3_set_target_cpu (arch3_hw 3 (\<lambda>_. 0)) 40 (Some ?a) demo_gicd3 = (h', Ok ()) \<and>
      (\<forall>j. 32 \<le> j \<and> j < 992 \<longrightarrow> (\<exists>h1 h2 b. gic3_get_target_cpu (arch3_hw 3 (\<lambda>_. 0)) j demo_gicd3 = (h1, Ok b) \<and>
         gic3_get_target_cpu (arch3_hw 3 (\<lambda>_. 0)) j h' = (h2, Ok (if j = 40 then Some ?a else b))))"
    using route_roundtrip [OF arch3_hw_law(1) on, where i = 40 and a = "Some ?a"] unfolding n by simp
  then obtain h' where h': "gic3_set_target_cpu (arch3_hw 3 (\<lambda>_. 0)) 40 (Some ?a) demo_gicd3 = (h', Ok ())"
      "\<And>j. 32 \<le> j \<and> j < 992 \<Longrightarrow> \<exists>h1 h2 b. gic3_get_target_cpu (arch3_hw 3 (\<lambda>_. 0)) j demo_gicd3 = (h1, Ok b) \<and>
         gic3_get_target_cpu (arch3_hw 3 (\<lambda>_. 0)) j h' = (h2, Ok (if j = 40 then Some ?a else b))"
    by metis
  moreover have "\<exists>h2. gic3_get_target_cpu (arch3_hw 3 (\<lambda>_. 0)) 40 h' = (h2, Ok (Some ?a))" using h'(2) [of 40] by auto
  ultimately show ?thesis by metis
qed

section \<open>The redistributor of the current CPU\<close>

definition rd_affinity :: "64 word \<Rightarrow> 32 word" where
  "rd_affinity ty = ucast (drop_bit 32 ty)"

lemma find_rd_ok:
  assumes "rd_law H ty" "tock_law T" "\<And>j. j < k \<Longrightarrow> \<not> bit (ty j) 4" "bit (ty k) 4" "n \<le> k"
  shows "\<exists>h'. find_rd T H want (rd_iter_new n) h =
     Some (h', case find (\<lambda>j. rd_affinity (ty j) = want) [n ..< Suc k] of Some j \<Rightarrow> Ok j | None \<Rightarrow> Panic)"
  using assms(5)
proof (induction "k - n" arbitrary: n h)
  case d: 0
  then have n: "n = k" by simp
  obtain h1 where h1: "g3_read64 H (R_TYPER n) h = (h1, ty n)" using assms(1) unfolding rd_law_def by blast
  obtain h2 where h2: "g3_read64 H (R_TYPER n) h1 = (h2, ty n)" using assms(1) unfolding rd_law_def by blast
  have "tk_read T 4 1 (ty n) > 0" using assms(4) n
    by (simp add: tk_read_law [OF assms(2)] word_gt_0 take_bit_Suc_0 bit_iff_odd_drop_bit odd_iff_mod_2_eq_one)
  moreover have "ucast (tk_read T 32 32 (ty n)) = rd_affinity (ty n)"
    by (simp add: tk_read_law [OF assms(2)] rd_affinity_def) (rule bit_eqI, simp add: bit_simps)
  ultimately show ?case using n h1 h2
    by (subst find_rd.simps) (simp add: rd_next_def rd_iter_new_def get_affinity_def find_rd.simps [of T H want "\<lparr>it_ptr = Suc k, it_is_last = True\<rparr>"])
next
  case (Suc d)
  then have n: "n < k" "d = k - Suc n" by simp_all
  obtain h1 where h1: "g3_read64 H (R_TYPER n) h = (h1, ty n)" using assms(1) unfolding rd_law_def by blast
  obtain h2 where h2: "g3_read64 H (R_TYPER n) h1 = (h2, ty n)" using assms(1) unfolding rd_law_def by blast
  have t: "\<not> tk_read T 4 1 (ty n) > 0" using assms(3) [OF n(1)]
    by (simp add: tk_read_law [OF assms(2)] word_gt_0 take_bit_Suc_0 bit_iff_odd_drop_bit even_iff_mod_2_eq_zero)
  have a: "ucast (tk_read T 32 32 (ty n)) = rd_affinity (ty n)"
    by (simp add: tk_read_law [OF assms(2)] rd_affinity_def) (rule bit_eqI, simp add: bit_simps)
  have l: "[n ..< Suc k] = n # [Suc n ..< Suc k]" using n(1) by (simp add: upt_conv_Cons)
  obtain h3 where h3: "find_rd T H want (rd_iter_new (Suc n)) h2 =
      Some (h3, case find (\<lambda>j. rd_affinity (ty j) = want) [Suc n ..< Suc k] of Some j \<Rightarrow> Ok j | None \<Rightarrow> Panic)"
    using Suc.hyps(1) [OF n(2), of h2] n(1) by auto
  have "find_rd T H want (rd_iter_new n) h =
      (if rd_affinity (ty n) = want then Some (h2, Ok n) else find_rd T H want (rd_iter_new (Suc n)) h2)"
    using t by (subst find_rd.simps) (simp add: rd_next_def rd_iter_new_def get_affinity_def h1 h2 a)
  then show ?case unfolding l using h3 by auto
qed

text \<open>
  \<^bold>\<open>C35.\<close>  The search for the redistributor of the current CPU ends at the frame that is marked as the last one.  It returns the
  first redistributor whose affinity is that of the CPU with the highest level set to zero, and panics when there is none: a CPU
  whose \<open>aff3\<close> is not zero never finds its own redistributor.
\<close>

theorem current_rd_search:
  assumes "rd_law H ty" "tock_law T" "\<forall>j < k. \<not> bit (ty j) 4" "bit (ty k) 4" "g3_read64 H MPIDR_EL1 h = (h1, m)"
  shows "\<exists>h'. current_rd T H h =
     Some (h', case find (\<lambda>j. rd_affinity (ty j) = affinity_value ((from_mpidr T m)\<lparr>aff3 := 0\<rparr>)) [0 ..< Suc k] of
                 Some j \<Rightarrow> Ok j | None \<Rightarrow> Panic)"
proof -
  have "(0xFFFFFF :: 64 word) = mask 24" by (simp add: mask_eq_exp_minus_1)
  then have "ucast (m AND 0xFFFFFF) = (ucast (m AND mask 24) :: 32 word)" by (simp only:)
  also have "\<dots> = affinity_value ((from_mpidr T m)\<lparr>aff3 := 0\<rparr>)"
    unfolding affinity_value_def from_mpidr_def tk_read_law [OF assms(2)]
    by (rule bit_eqI, rename_tac n, case_tac "n < 16") (auto simp: bit_simps)
  finally have "current_rd T H h = find_rd T H (affinity_value ((from_mpidr T m)\<lparr>aff3 := 0\<rparr>)) (rd_iter_new 0) h1"
    by (simp only: current_rd_def assms(5) prod.case)
  then show ?thesis using find_rd_ok [OF assms(1,2) _ assms(4), of 0] assms(3) by simp
qed

text \<open>Two CPUs of the cluster with \<open>aff3 = 1\<close>; the search on the second one finds neither.\<close>

definition demo_ty :: "nat \<Rightarrow> 64 word" where
  "demo_ty j = (if j = 0 then 0x0100000000000000 else 0x0100000100000010)"

theorem current_rd_search_witness:
  "\<exists>h'. current_rd plain_tock (arch3_hw 0x100000001 demo_ty) demo_gicd3 = Some (h', Panic)"
proof -
  have l: "\<forall>j < 1. \<not> bit (demo_ty j) 4" "bit (demo_ty 1) 4" by (simp_all add: demo_ty_def)
  have m: "g3_read64 (arch3_hw 0x100000001 demo_ty) MPIDR_EL1 demo_gicd3 = (demo_gicd3, 0x100000001)" by (simp add: arch3_hw_def)
  have "find (\<lambda>j. rd_affinity (demo_ty j) = affinity_value ((from_mpidr plain_tock 0x100000001)\<lparr>aff3 := 0\<rparr>)) [0 ..< Suc 1] = None"
    by (simp add: demo_ty_def rd_affinity_def affinity_value_def from_mpidr_def plain_tock_def)
  with current_rd_search [OF arch3_hw_law(3) plain_tock_law l m] show ?thesis by (simp only: option.case)
qed

section \<open>Software generated interrupts\<close>

text \<open>The CPUs that a write to \<open>ICC_SGI1R_EL1\<close> names, by the layout of the register.\<close>

definition sgi1r_targets :: "64 word \<Rightarrow> affinity \<Rightarrow> bool" where
  "sgi1r_targets v a \<longleftrightarrow>
     take_bit 1 (drop_bit 40 v) = 0 \<and> take_bit 4 (drop_bit 44 v) = 0 \<and>
     take_bit 8 (drop_bit 48 v) = ucast (aff3 a) \<and> take_bit 8 (drop_bit 32 v) = ucast (aff2 a) \<and>
     take_bit 8 (drop_bit 16 v) = ucast (aff1 a) \<and> unat (aff0 a) < 16 \<and> bit (take_bit 16 (drop_bit 0 v)) (unat (aff0 a))"

definition same_cluster :: "affinity list \<Rightarrow> bool" where
  "same_cluster as \<longleftrightarrow> (\<forall>a \<in> set as. unat (aff0 a) < 16 \<and> aff3 a = aff3 (hd as) \<and> aff2 a = aff2 (hd as) \<and> aff1 a = aff1 (hd as))"

lemma tl3_from_ok:
  "(\<forall>a \<in> set as. tl3_match t a \<and> unat (aff0 a) < 16) \<Longrightarrow>
   \<exists>l. tl3_from t as = Ok (t\<lparr>tl_list := l\<rparr>) \<and> (\<forall>k. bit l k \<longleftrightarrow> bit (tl_list t) k \<or> (\<exists>a \<in> set as. unat (aff0 a) = k))"
proof (induction "as" arbitrary: t)
  case (Cons a "as")
  let ?t = "t\<lparr>tl_list := tl_list t OR push_bit (unat (aff0 a)) 1\<rparr>"
  have a: "tl3_match t a" "unat (aff0 a) < 16" using Cons.prems by simp_all
  have "\<forall>a \<in> set as. tl3_match ?t a \<and> unat (aff0 a) < 16" using Cons.prems by (simp add: tl3_match_def)
  from Cons.IH [OF this] obtain l where l: "tl3_from ?t as = Ok (?t\<lparr>tl_list := l\<rparr>)"
      "\<And>k. bit l k \<longleftrightarrow> bit (tl_list ?t) k \<or> (\<exists>a \<in> set as. unat (aff0 a) = k)" by blast
  have "tl_list ?t = tl_list t OR push_bit (unat (aff0 a)) 1" "unat (aff0 a) < LENGTH(16)" using a(2) by simp_all
  then have "bit (tl_list ?t) k \<longleftrightarrow> bit (tl_list t) k \<or> k = unat (aff0 a)" for k
    by (auto simp only: bit_or_iff bit_single)
  then have "bit l k \<longleftrightarrow> bit (tl_list t) k \<or> (\<exists>x \<in> set (a # as). unat (aff0 x) = k)" for k using l(2) by auto
  moreover have "tl3_from t (a # as) = Ok (t\<lparr>tl_list := l\<rparr>)" using a l(1) by (simp add: tl3_add_def tl3_bit_def)
  ultimately show ?case by blast
next
  case Nil
  show ?case by (rule exI [of _ "tl_list t"]) simp
qed

lemma tl3_from_panic: "\<not> (\<forall>a \<in> set as. tl3_match t a \<and> unat (aff0 a) < 16) \<Longrightarrow> tl3_from t as = Panic"
proof (induction "as" arbitrary: t)
  case (Cons a "as")
  show ?case
  proof (cases "tl3_match t a \<and> unat (aff0 a) < 16")
    case True
    let ?t = "t\<lparr>tl_list := tl_list t OR push_bit (unat (aff0 a)) 1\<rparr>"
    have "\<not> (\<forall>a \<in> set as. tl3_match ?t a \<and> unat (aff0 a) < 16)" using Cons.prems True by (simp add: tl3_match_def)
    then show ?thesis using Cons.IH [of ?t] True by (simp add: tl3_add_def tl3_bit_def)
  qed (auto simp: tl3_add_def tl3_bit_def)
qed simp

lemma ucast_byte_eq: "(ucast (x :: 8 word) :: 64 word) = ucast (y :: 8 word) \<longleftrightarrow> x = y"
proof
  assume e: "(ucast x :: 64 word) = ucast y"
  show "x = y"
  proof (rule bit_word_eqI)
    fix k assume "k < LENGTH(8)"
    then show "bit x k = bit y k" using arg_cong [OF e, of "\<lambda>v. bit v k"] by (simp add: bit_unsigned_iff)
  qed
qed simp

lemma tl3_new_spec:
  "if same_cluster as
   then \<exists>t. tl3_new as = Ok t \<and>
     (\<forall>a. (tl3_match t a \<and> bit (tl_list t) (unat (aff0 a))) \<longleftrightarrow> a \<in> set as)
   else tl3_new as = Panic"
proof (cases "as")
  case Nil
  then show ?thesis by (simp add: same_cluster_def tl3_new_def)
next
  case (Cons b bs)
  let ?t = "\<lparr>tl_aff3 = aff3 b, tl_aff2 = aff2 b, tl_aff1 = aff1 b, tl_list = 0\<rparr>"
  have n: "tl3_new as = tl3_from ?t as" using Cons by (simp add: tl3_new_def)
  have c: "same_cluster as \<longleftrightarrow> (\<forall>a \<in> set as. tl3_match ?t a \<and> unat (aff0 a) < 16)"
    using Cons by (auto simp: same_cluster_def tl3_match_def)
  show ?thesis
  proof (cases "same_cluster as")
    case True
    then obtain l where l: "tl3_from ?t as = Ok (?t\<lparr>tl_list := l\<rparr>)" "\<And>k. bit l k \<longleftrightarrow> (\<exists>a \<in> set as. unat (aff0 a) = k)"
      using tl3_from_ok [of "as" ?t] c by auto
    have "tl3_match (?t\<lparr>tl_list := l\<rparr>) a \<and> bit l (unat (aff0 a)) \<longleftrightarrow> a \<in> set as" for a
    proof
      assume a: "tl3_match (?t\<lparr>tl_list := l\<rparr>) a \<and> bit l (unat (aff0 a))"
      then obtain a' where a': "a' \<in> set as" "unat (aff0 a') = unat (aff0 a)" using l(2) by blast
      then have "tl3_match ?t a'" using True c by blast
      with a a'(2) have "a' = a" by (simp add: tl3_match_def word_unat_eq_iff affinity.equality)
      then show "a \<in> set as" using a'(1) by simp
    next
      assume "a \<in> set as"
      then show "tl3_match (?t\<lparr>tl_list := l\<rparr>) a \<and> bit l (unat (aff0 a))" using True c l(2) by (auto simp: tl3_match_def)
    qed
    then show ?thesis using True n l(1) by auto
  next
    case False
    then show ?thesis using n c tl3_from_panic [of "as" ?t] by simp
  qed
qed

text \<open>
  \<^bold>\<open>C36.\<close>  A software generated interrupt for a list of CPUs is written with the identifier and with exactly these CPUs
  as its targets, when the CPUs differ in the lowest level only and that level is below 16; other lists panic before
  anything is written.
\<close>

theorem sgi_targets_exact:
  assumes "tock_law T" "i < 16"
  shows "if same_cluster as
         then \<exists>t v. sgi3_list as = Ok t \<and> gic3_send_sgi T H i t h = (g3_write64 H ICC_SGI1R_EL1 v h, Ok ()) \<and>
                take_bit 4 (drop_bit 24 v) = of_nat i \<and> (\<forall>a. sgi1r_targets v a \<longleftrightarrow> a \<in> set as)
         else sgi3_list as = Panic"
proof (cases "same_cluster as")
  case True
  then obtain t where t: "tl3_new as = Ok t" "\<And>a. tl3_match t a \<and> bit (tl_list t) (unat (aff0 a)) \<longleftrightarrow> a \<in> set as"
    using tl3_new_spec [of "as"] by auto
  let ?v = "sgi1r_value T i (SgiList t)"
  have f: "take_bit 1 (drop_bit 40 ?v) = 0" "take_bit 4 (drop_bit 44 ?v) = 0" "take_bit 8 (drop_bit 48 ?v) = take_bit 8 (ucast (tl_aff3 t))"
      "take_bit 8 (drop_bit 32 ?v) = take_bit 8 (ucast (tl_aff2 t))" "take_bit 8 (drop_bit 16 ?v) = take_bit 8 (ucast (tl_aff1 t))"
      "take_bit 16 (drop_bit 0 ?v) = take_bit 16 (ucast (tl_list t))" "take_bit 4 (drop_bit 24 ?v) = take_bit 4 (of_nat i)"
    unfolding sgi1r_value_def sgi3_target.case tk_read_law [OF assms(1), symmetric] by (simp_all add: read_simps [OF assms(1)])
  have u: "take_bit 8 (ucast (x :: 8 word) :: 64 word) = ucast x" "take_bit 16 (ucast (y :: 16 word) :: 64 word) = ucast y" for x y
    by (rule bit_eqI, auto simp: bit_simps dest: bit_imp_le_length)+
  have e: "(ucast (x :: 8 word) :: 64 word) = ucast (y :: 8 word) \<longleftrightarrow> x = y" for x y by (rule ucast_byte_eq)
  have "bit (ucast (tl_list t) :: 64 word) k \<longleftrightarrow> bit (tl_list t) k" for k by (auto simp: bit_simps dest: bit_imp_le_length)
  then have "sgi1r_targets ?v a \<longleftrightarrow> tl3_match t a \<and> unat (aff0 a) < 16 \<and> bit (tl_list t) (unat (aff0 a))" for a
    unfolding sgi1r_targets_def f u e tl3_match_def by auto
  moreover have "bit (tl_list t) k \<Longrightarrow> k < 16" for k using bit_imp_le_length [of "tl_list t" k] by simp
  ultimately have "\<forall>a. sgi1r_targets ?v a \<longleftrightarrow> a \<in> set as" using t(2) by auto
  moreover have "take_bit 4 (drop_bit 24 ?v) = of_nat i" unfolding f using assms(2) by (simp add: take_bit_of_nat take_bit_nat_eq_self)
  ultimately show ?thesis using True t(1) assms(2) by (auto simp: sgi3_list_def gic3_send_sgi_def is_sgi_def)
next
  case False
  then show ?thesis using tl3_new_spec [of "as"] by (simp add: sgi3_list_def)
qed

theorem sgi_targets_exact_witness:
  "\<exists>t v. sgi3_list [\<lparr>aff0 = 3, aff1 = 1, aff2 = 0, aff3 = 0\<rparr>] = Ok t \<and>
     gic3_send_sgi plain_tock (arch3_hw 0 demo_ty) 5 t demo_gicd3 = (g3_write64 (arch3_hw 0 demo_ty) ICC_SGI1R_EL1 v demo_gicd3, Ok ()) \<and>
     take_bit 4 (drop_bit 24 v) = 5 \<and> (\<forall>a. sgi1r_targets v a \<longleftrightarrow> a \<in> set [\<lparr>aff0 = 3, aff1 = 1, aff2 = 0, aff3 = 0\<rparr>])"
proof -
  have "same_cluster [\<lparr>aff0 = 3, aff1 = 1, aff2 = 0, aff3 = 0\<rparr>]" by (simp add: same_cluster_def)
  then show ?thesis
    using sgi_targets_exact [OF plain_tock_law, of 5 "[\<lparr>aff0 = 3, aff1 = 1, aff2 = 0, aff3 = 0\<rparr>]" "arch3_hw 0 demo_ty" demo_gicd3] by simp
qed

end
