(* ===== verification/Rdif_Serial.thy ===== *)
theory Rdif_Serial
  imports Registers
begin

text \<open>
  The serial port interface, \<open>driver/interface/rdif-serial\<close>: configuration and errors, the default loops of senders and
  receivers (\<open>lib.rs\<close>), and \<open>SerialDyn\<close>, which gives out a sender, a receiver and an interrupt handler and keeps a
  buffer of 64 received items between them (\<open>serial.rs\<close>).

  A receiver is its function \<open>read_byte\<close> on the state of the hardware: \<open>None\<close> when there is nothing to read, otherwise
  a byte or a transfer error.
\<close>

section \<open>Configuration and errors\<close>

datatype config_error = InvalidBaudrate | UnsupportedDataBits | UnsupportedStopBits | UnsupportedParity | RegisterError | ConfigTimeout

datatype transfer_error = Overrun "8 word" | ParityError | Framing | Break | Closed

record trans_bytes_error =
  bytes_transferred :: nat
  te_kind :: transfer_error

datatype data_bits = Five | Six | Seven | Eight

datatype stop_bits = OneStop | TwoStop

datatype parity = NoParity | EvenParity | OddParity | MarkParity | SpaceParity

record serial_config =
  cf_baudrate :: "nat option"
  cf_data_bits :: "data_bits option"
  cf_stop_bits :: "stop_bits option"
  cf_parity :: "parity option"

definition config_new :: serial_config where
  "config_new = \<lparr>cf_baudrate = None, cf_data_bits = None, cf_stop_bits = None, cf_parity = None\<rparr>"

definition config_baudrate :: "nat \<Rightarrow> serial_config \<Rightarrow> serial_config" where
  "config_baudrate baudrate c = c\<lparr>cf_baudrate := Some baudrate\<rparr>"

definition config_data_bits :: "data_bits \<Rightarrow> serial_config \<Rightarrow> serial_config" where
  "config_data_bits data_bits c = c\<lparr>cf_data_bits := Some data_bits\<rparr>"

definition config_stop_bits :: "stop_bits \<Rightarrow> serial_config \<Rightarrow> serial_config" where
  "config_stop_bits stop_bits c = c\<lparr>cf_stop_bits := Some stop_bits\<rparr>"

definition config_parity :: "parity \<Rightarrow> serial_config \<Rightarrow> serial_config" where
  "config_parity parity c = c\<lparr>cf_parity := Some parity\<rparr>"

text \<open>The two flags of \<open>InterruptMask\<close>.\<close>

record irq_mask =
  rx_available :: bool
  tx_empty :: bool

definition irq_mask_none :: irq_mask where
  "irq_mask_none = \<lparr>rx_available = False, tx_empty = False\<rparr>"

definition irq_mask_or :: "irq_mask \<Rightarrow> irq_mask \<Rightarrow> irq_mask" where
  "irq_mask_or a b = \<lparr>rx_available = rx_available a \<or> rx_available b, tx_empty = tx_empty a \<or> tx_empty b\<rparr>"

definition irq_mask_without :: "irq_mask \<Rightarrow> irq_mask \<Rightarrow> irq_mask" where
  "irq_mask_without a b = \<lparr>rx_available = rx_available a \<and> \<not> rx_available b, tx_empty = tx_empty a \<and> \<not> tx_empty b\<rparr>"

record set_back_error =
  sb_want :: nat
  sb_actual :: nat

section \<open>Loops over bytes\<close>

type_synonym recv = "transfer_error + 8 word"

fun write_bytes :: "(8 word \<Rightarrow> 'h \<Rightarrow> 'h \<times> bool) \<Rightarrow> 8 word list \<Rightarrow> 'h \<Rightarrow> 'h \<times> nat" where
  "write_bytes wb [] h = (h, 0)"
| "write_bytes wb (b # bs) h =
     (case wb b h of
        (h, False) \<Rightarrow> (h, 0)
      | (h, True) \<Rightarrow> (case write_bytes wb bs h of (h, n) \<Rightarrow> (h, n + 1)))"

text \<open>\<open>read_bytes\<close> fills the slice from its start; the result has the slice as it is afterwards.\<close>

fun read_bytes_loop ::
  "('h \<Rightarrow> 'h \<times> recv option) \<Rightarrow> nat \<Rightarrow> 8 word list \<Rightarrow> 'h \<Rightarrow> 'h \<times> 8 word list \<times> (trans_bytes_error, nat) result"
where
  "read_bytes_loop rb n [] h = (h, [], Ok n)"
| "read_bytes_loop rb n (x # xs) h =
     (case rb h of
        (h, Some (Inr b)) \<Rightarrow> (case read_bytes_loop rb (n + 1) xs h of (h, ys, r) \<Rightarrow> (h, b # ys, r))
      | (h, Some (Inl e)) \<Rightarrow> (h, x # xs, Err \<lparr>bytes_transferred = n, te_kind = e\<rparr>)
      | (h, None) \<Rightarrow> (h, x # xs, Ok n))"

definition read_bytes :: "('h \<Rightarrow> 'h \<times> recv option) \<Rightarrow> 8 word list \<Rightarrow> 'h \<Rightarrow> 'h \<times> 8 word list \<times> (trans_bytes_error, nat) result" where
  "read_bytes rb bytes h = read_bytes_loop rb 0 bytes h"

section \<open>SerialDyn\<close>

text \<open>
  What \<open>SerialDyn\<close> calls of its port: the receiver, the interrupt handler and the interrupt mask.  The three cells hold
  the sender, the receiver and the handler while they are not given out; the buffer is shared by receiver and
  handler.
\<close>

record 'h serial_port =
  sp_read_byte :: "'h \<Rightarrow> 'h \<times> recv option"
  sp_read_bytes :: "8 word list \<Rightarrow> 'h \<Rightarrow> 'h \<times> 8 word list \<times> (trans_bytes_error, nat) result"
  sp_write_byte :: "8 word \<Rightarrow> 'h \<Rightarrow> 'h \<times> bool"
  sp_write_bytes :: "8 word list \<Rightarrow> 'h \<Rightarrow> 'h \<times> nat"
  sp_clean :: "'h \<Rightarrow> 'h \<times> irq_mask"
  sp_get_irq_mask :: "'h \<Rightarrow> 'h \<times> irq_mask"
  sp_set_irq_mask :: "irq_mask \<Rightarrow> 'h \<Rightarrow> 'h"

record serial_dyn =
  sd_tx :: bool
  sd_rx :: bool
  sd_irq :: bool
  sd_fifo :: "recv list"

text \<open>\<open>_new\<close> takes the three parts out of the driver, each with an \<open>unwrap\<close>.\<close>

definition serial_dyn_new :: "'tx option \<Rightarrow> 'rx option \<Rightarrow> 'irq option \<Rightarrow> (unit, serial_dyn) result" where
  "serial_dyn_new tx rx irq =
     (if tx = None \<or> rx = None \<or> irq = None then Panic
      else Ok \<lparr>sd_tx = True, sd_rx = True, sd_irq = True, sd_fifo = []\<rparr>)"

definition take_tx :: "serial_dyn \<Rightarrow> serial_dyn \<times> bool" where
  "take_tx s = (s\<lparr>sd_tx := False\<rparr>, sd_tx s)"

definition take_rx :: "serial_dyn \<Rightarrow> serial_dyn \<times> bool" where
  "take_rx s = (s\<lparr>sd_rx := False\<rparr>, sd_rx s)"

definition take_irq_handler :: "serial_dyn \<Rightarrow> serial_dyn \<times> bool" where
  "take_irq_handler s = (s\<lparr>sd_irq := False\<rparr>, sd_irq s)"

definition drop_sender :: "serial_dyn \<Rightarrow> serial_dyn" where "drop_sender s = s\<lparr>sd_tx := True\<rparr>"
definition drop_receiver :: "serial_dyn \<Rightarrow> serial_dyn" where "drop_receiver s = s\<lparr>sd_rx := True\<rparr>"
definition drop_irq_handler :: "serial_dyn \<Rightarrow> serial_dyn" where "drop_irq_handler s = s\<lparr>sd_irq := True\<rparr>"

definition fifo_push :: "recv \<Rightarrow> recv list \<Rightarrow> recv list" where
  "fifo_push b fifo = (if length fifo < 64 then fifo @ [b] else fifo)"

definition fifo_pop :: "recv list \<Rightarrow> recv list \<times> recv option" where
  "fifo_pop fifo = (case fifo of [] \<Rightarrow> ([], None) | b # bs \<Rightarrow> (bs, Some b))"

definition rx_read_byte :: "'h serial_port \<Rightarrow> recv list \<times> 'h \<Rightarrow> (recv list \<times> 'h) \<times> recv option" where
  "rx_read_byte P s =
     (case fifo_pop (fst s) of
        (fifo, Some b) \<Rightarrow> ((fifo, snd s), Some b)
      | (fifo, None) \<Rightarrow> (case sp_read_byte P (snd s) of (h, r) \<Rightarrow> ((fifo, h), r)))"

text \<open>The loop over the buffer; \<open>n\<close> is the number of bytes before the slice that is left.\<close>

fun rx_from_fifo ::
  "nat \<Rightarrow> 8 word list \<Rightarrow> recv list \<Rightarrow> recv list \<times> 8 word list \<times> 8 word list \<times> (trans_bytes_error, nat) result"
where
  "rx_from_fifo n [] fifo = (fifo, [], [], Ok n)"
| "rx_from_fifo n (x # xs) [] = ([], [], x # xs, Ok n)"
| "rx_from_fifo n (x # xs) (Inr b # fifo) =
     (case rx_from_fifo (n + 1) xs fifo of (fifo, done, rest, r) \<Rightarrow> (fifo, b # done, rest, r))"
| "rx_from_fifo n (x # xs) (Inl e # fifo) = (fifo, [], x # xs, Err \<lparr>bytes_transferred = n, te_kind = e\<rparr>)"

definition rx_read_bytes ::
  "'h serial_port \<Rightarrow> 8 word list \<Rightarrow> recv list \<times> 'h \<Rightarrow> (recv list \<times> 'h) \<times> 8 word list \<times> (trans_bytes_error, nat) result"
where
  "rx_read_bytes P bytes s =
     (case rx_from_fifo 0 bytes (fst s) of
        (fifo, done, rest, Ok n) \<Rightarrow>
          if n = length bytes then ((fifo, snd s), done @ rest, Ok n)
          else (case sp_read_bytes P rest (snd s) of
             (h, rest, Ok m) \<Rightarrow> ((fifo, h), done @ rest, Ok (n + m))
           | (h, rest, Err e) \<Rightarrow> ((fifo, h), done @ rest, Err (e\<lparr>bytes_transferred := n + bytes_transferred e\<rparr>))
           | (h, rest, Panic) \<Rightarrow> ((fifo, h), done @ rest, Panic))
      | (fifo, done, rest, r) \<Rightarrow> ((fifo, snd s), done @ rest, r))"

text \<open>The interrupt handler empties the port into the buffer.  The loop ends when the port has nothing more.\<close>

partial_function (option) drain_port :: "'h serial_port \<Rightarrow> recv list \<times> 'h \<Rightarrow> (recv list \<times> 'h) option" where
  "drain_port P s =
     (case sp_read_byte P (snd s) of
        (h, None) \<Rightarrow> Some (fst s, h)
      | (h, Some b) \<Rightarrow> drain_port P (fifo_push b (fst s), h))"

definition irq_clean :: "'h serial_port \<Rightarrow> recv list \<times> 'h \<Rightarrow> ((recv list \<times> 'h) \<times> irq_mask) option" where
  "irq_clean P s =
     (case sp_clean P (snd s) of (h, status) \<Rightarrow>
        if rx_available status then map_option (\<lambda>s. (s, status)) (drain_port P (fst s, h))
        else Some ((fst s, h), status))"

definition tx_write_byte :: "'h serial_port \<Rightarrow> 8 word \<Rightarrow> 'h \<Rightarrow> 'h \<times> bool" where
  "tx_write_byte P = sp_write_byte P"

definition tx_write_bytes :: "'h serial_port \<Rightarrow> 8 word list \<Rightarrow> 'h \<Rightarrow> 'h \<times> nat" where
  "tx_write_bytes P = sp_write_bytes P"

definition enable_interrupts :: "'h serial_port \<Rightarrow> irq_mask \<Rightarrow> 'h \<Rightarrow> 'h" where
  "enable_interrupts P m h = (case sp_get_irq_mask P h of (h, val) \<Rightarrow> sp_set_irq_mask P (irq_mask_or val m) h)"

definition disable_interrupts :: "'h serial_port \<Rightarrow> irq_mask \<Rightarrow> 'h \<Rightarrow> 'h" where
  "disable_interrupts P m h = (case sp_get_irq_mask P h of (h, val) \<Rightarrow> sp_set_irq_mask P (irq_mask_without val m) h)"

section \<open>Receivers\<close>

text \<open>
  What the buffer needs of a port: there is a list of pending items, and \<open>read_byte\<close> takes the first one.  Then reading
  from the buffered receiver is reading from the queue of buffered and pending items, in their order.
\<close>

locale receiver =
  fixes read_byte :: "'h \<Rightarrow> 'h \<times> recv option" and pending :: "'h \<Rightarrow> recv list"
  assumes read_empty: "pending h = [] \<Longrightarrow> \<exists>h'. read_byte h = (h', None) \<and> pending h' = []"
    and read_item: "pending h = x # xs \<Longrightarrow> \<exists>h'. read_byte h = (h', Some x) \<and> pending h' = xs"
begin

lemma drain_all:
  assumes "sp_read_byte P = read_byte"
  shows "\<exists>h'. drain_port P (fifo, h) = Some (take (max 64 (length fifo)) (fifo @ pending h), h') \<and> pending h' = []"
proof (induction "pending h" arbitrary: fifo h)
  case Nil
  then obtain h' where "read_byte h = (h', None)" "pending h' = []" using read_empty by metis
  then show ?case using Nil assms by (subst drain_port.simps) simp
next
  case (Cons x xs)
  then obtain h' where h': "read_byte h = (h', Some x)" "pending h' = xs" using read_item by metis
  from Cons.hyps(1) [of h' "fifo_push x fifo"] h'(2)
  obtain h2 where h2: "drain_port P (fifo_push x fifo, h') =
      Some (take (max 64 (length (fifo_push x fifo))) (fifo_push x fifo @ xs), h2)" "pending h2 = []" by metis
  have "drain_port P (fifo, h) = drain_port P (fifo_push x fifo, h')"
    using h'(1) assms by (subst drain_port.simps) simp
  moreover have "take (max 64 (length (fifo_push x fifo))) (fifo_push x fifo @ xs) = take (max 64 (length fifo)) (fifo @ pending h)"
  proof (cases "length fifo < 64")
    case True
    then have "max 64 (length (fifo_push x fifo)) = 64" "max 64 (length fifo) = 64" by (simp_all add: fifo_push_def)
    then show ?thesis using Cons.hyps(2) True by (simp add: fifo_push_def)
  qed (simp add: fifo_push_def)
  ultimately show ?case using h2 by auto
qed

lemma rx_pops:
  assumes "sp_read_byte P = read_byte"
  shows "case fifo @ pending h of
      [] \<Rightarrow> \<exists>h'. rx_read_byte P (fifo, h) = ((fifo, h'), None) \<and> pending h' = []
    | x # xs \<Rightarrow> \<exists>fifo' h'. rx_read_byte P (fifo, h) = ((fifo', h'), Some x) \<and> fifo' @ pending h' = xs \<and> length fifo' \<le> length fifo"
proof (cases fifo)
  case Nil
  then show ?thesis using read_empty [of h] read_item [of h] assms
    by (auto simp: rx_read_byte_def fifo_pop_def split: list.split)
next
  case (Cons x xs)
  then show ?thesis by (simp add: rx_read_byte_def fifo_pop_def)
qed

end

end
