(* ===== verification/Pl011.thy ===== *)
theory Pl011
  imports Rdif_Serial
begin

unbundle bit_operations_syntax

text \<open>
  The PL011 driver, \<open>driver/serial/src/pl011.rs\<close>, and the enumerations over the drivers, \<open>lib.rs\<close>.  The registers are the
  hardware, named by their offsets; waiting for the transmitter has no bound, so that not returning is \<open>None\<close>.
\<close>

record 'h uart_hw =
  u_read :: "nat \<Rightarrow> 'h \<Rightarrow> 'h \<times> 32 word"
  u_write :: "nat \<Rightarrow> 32 word \<Rightarrow> 'h \<Rightarrow> 'h"

abbreviation (input) UARTDR :: nat where "UARTDR \<equiv> 0"
abbreviation (input) UARTFR :: nat where "UARTFR \<equiv> 0x18"
abbreviation (input) UARTIBRD :: nat where "UARTIBRD \<equiv> 0x24"
abbreviation (input) UARTFBRD :: nat where "UARTFBRD \<equiv> 0x28"
abbreviation (input) UARTLCR_H :: nat where "UARTLCR_H \<equiv> 0x2c"
abbreviation (input) UARTCR :: nat where "UARTCR \<equiv> 0x30"
abbreviation (input) UARTIFLS :: nat where "UARTIFLS \<equiv> 0x34"
abbreviation (input) UARTIMSC :: nat where "UARTIMSC \<equiv> 0x38"
abbreviation (input) UARTMIS :: nat where "UARTMIS \<equiv> 0x40"
abbreviation (input) UARTICR :: nat where "UARTICR \<equiv> 0x44"

definition u_modify :: "'h uart_hw \<Rightarrow> nat \<Rightarrow> (32 word \<Rightarrow> 32 word) \<Rightarrow> 'h \<Rightarrow> 'h" where
  "u_modify H r f h = (case u_read H r h of (h, v) \<Rightarrow> u_write H r (f v) h)"

definition u_flag :: "tock \<Rightarrow> 'h uart_hw \<Rightarrow> nat \<Rightarrow> nat \<Rightarrow> 'h \<Rightarrow> 'h \<times> bool" where
  "u_flag T H r off h = (case u_read H r h of (h, v) \<Rightarrow> (h, tk_get T off 1 v \<noteq> 0))"

text \<open>Arithmetic on \<open>u32\<close>: an overflow or a division by zero panics.\<close>

definition mul_u32 :: "nat \<Rightarrow> nat \<Rightarrow> ('e, nat) result" where
  "mul_u32 a b = (if a * b < 2 ^ 32 then Ok (a * b) else Panic)"

definition plus_u32 :: "nat \<Rightarrow> nat \<Rightarrow> ('e, nat) result" where
  "plus_u32 a b = (if a + b < 2 ^ 32 then Ok (a + b) else Panic)"

definition div_u32 :: "nat \<Rightarrow> nat \<Rightarrow> ('e, nat) result" where
  "div_u32 a b = (if b = 0 then Panic else Ok (a div b))"

section \<open>Senders and receivers of the drivers\<close>

text \<open>A part is named by its driver and the base address.\<close>

datatype uart_part = PortPart nat | MmioPart nat | Pl011Part nat

record pl011 =
  p_base :: nat
  p_clock_freq :: nat
  p_tx :: "nat option"
  p_rx :: "nat option"
  p_irq :: "nat option"

definition detect_clock_frequency :: "tock \<Rightarrow> 'h uart_hw \<Rightarrow> 'h \<Rightarrow> 'h \<times> (unit, nat) result" where
  "detect_clock_frequency T H h =
     (case u_read H UARTIBRD h of (h, v) \<Rightarrow>
        let ibrd = unat (tk_get T 0 16 v)
        in (h, if 0 < ibrd \<and> ibrd \<le> 0xFFFF then
                 rbind (rbind (mul_u32 16 ibrd) (\<lambda>x. mul_u32 x 115200)) (\<lambda>estimated_clock.
                   Ok (if 1000000 \<le> estimated_clock \<and> estimated_clock \<le> 100000000 then estimated_clock else 24000000))
               else Ok 24000000))"

definition pl011_new :: "nat \<Rightarrow> nat \<Rightarrow> pl011" where
  "pl011_new base clock_freq =
     \<lparr>p_base = base, p_clock_freq = clock_freq, p_tx = Some base, p_rx = Some base, p_irq = Some base\<rparr>"

definition pl011_new_no_clock :: "tock \<Rightarrow> 'h uart_hw \<Rightarrow> nat \<Rightarrow> 'h \<Rightarrow> 'h \<times> (unit, pl011) result" where
  "pl011_new_no_clock T H base h =
     (case detect_clock_frequency T H h of (h, r) \<Rightarrow> (h, rbind r (\<lambda>clock_freq. Ok (pl011_new base clock_freq))))"

section \<open>Configuration\<close>

text \<open>The integer and the fractional divisor.\<close>

definition baud_divisors :: "nat \<Rightarrow> nat \<Rightarrow> (config_error, nat \<times> nat) result" where
  "baud_divisors clock_freq baudrate =
     rbind (mul_u32 16 baudrate) (\<lambda>m.
     rbind (div_u32 clock_freq m) (\<lambda>bauddiv.
     rbind (mul_u32 (clock_freq mod m) 64) (\<lambda>r.
     rbind (plus_u32 r (m div 2)) (\<lambda>s.
       if bauddiv = 0 \<or> bauddiv > 0xFFFF then Err InvalidBaudrate else Ok (bauddiv, s div m)))))"

definition set_baudrate_internal ::
  "tock \<Rightarrow> 'h uart_hw \<Rightarrow> nat \<Rightarrow> nat \<Rightarrow> 'h \<Rightarrow> 'h \<times> (config_error, unit) result"
where
  "set_baudrate_internal T H clock_freq baudrate h =
     (case baud_divisors clock_freq baudrate of
        Ok (bauddiv, fbrd) \<Rightarrow>
          (u_write H UARTFBRD (tk_val T 0 6 (of_nat fbrd)) (u_write H UARTIBRD (tk_val T 0 16 (of_nat bauddiv)) h), Ok ())
      | Err e \<Rightarrow> (h, Err e)
      | Panic \<Rightarrow> (h, Panic))"

fun wlen_value :: "data_bits \<Rightarrow> 32 word" where
  "wlen_value Five = 0"
| "wlen_value Six = 1"
| "wlen_value Seven = 2"
| "wlen_value Eight = 3"

definition set_data_bits_internal :: "tock \<Rightarrow> 'h uart_hw \<Rightarrow> data_bits \<Rightarrow> 'h \<Rightarrow> 'h \<times> (config_error, unit) result" where
  "set_data_bits_internal T H bits h = (u_modify H UARTLCR_H (tk_modify T 5 2 (wlen_value bits)) h, Ok ())"

definition set_stop_bits_internal :: "tock \<Rightarrow> 'h uart_hw \<Rightarrow> stop_bits \<Rightarrow> 'h \<Rightarrow> 'h \<times> (config_error, unit) result" where
  "set_stop_bits_internal T H bits h =
     (u_modify H UARTLCR_H (tk_modify T 3 1 (case bits of OneStop \<Rightarrow> 0 | TwoStop \<Rightarrow> 1)) h, Ok ())"

definition set_parity_internal :: "tock \<Rightarrow> 'h uart_hw \<Rightarrow> parity \<Rightarrow> 'h \<Rightarrow> 'h \<times> (config_error, unit) result" where
  "set_parity_internal T H par h =
     (let set = (\<lambda>eps sps v. tk_modify T 7 1 sps (tk_modify T 2 1 eps (tk_modify T 1 1 1 v)))
      in (u_modify H UARTLCR_H
            (case par of
               NoParity \<Rightarrow> tk_modify T 1 1 0
             | OddParity \<Rightarrow> set 0 0
             | EvenParity \<Rightarrow> set 1 0
             | MarkParity \<Rightarrow> set 0 1
             | SpaceParity \<Rightarrow> set 1 1) h, Ok ()))"

partial_function (option) wait_idle :: "tock \<Rightarrow> 'h uart_hw \<Rightarrow> 'h \<Rightarrow> 'h option" where
  "wait_idle T H h = (case u_flag T H UARTFR 3 h of (h, busy) \<Rightarrow> if busy then wait_idle T H h else Some h)"

text \<open>\<open>if let Some(x) = option { f(x)?; }\<close>\<close>

definition when_some :: "'a option \<Rightarrow> ('a \<Rightarrow> 'h \<Rightarrow> 'h \<times> ('e, unit) result) \<Rightarrow> 'h \<Rightarrow> 'h \<times> ('e, unit) result" where
  "when_some x f h = (case x of None \<Rightarrow> (h, Ok ()) | Some y \<Rightarrow> f y h)"

definition config_params ::
  "tock \<Rightarrow> 'h uart_hw \<Rightarrow> nat \<Rightarrow> serial_config \<Rightarrow> 'h \<Rightarrow> 'h \<times> (config_error, unit) result"
where
  "config_params T H clock_freq c h =
     and_then (when_some (cf_baudrate c) (set_baudrate_internal T H clock_freq) h) (\<lambda>_ h.
     and_then (when_some (cf_data_bits c) (set_data_bits_internal T H) h) (\<lambda>_ h.
     and_then (when_some (cf_stop_bits c) (set_stop_bits_internal T H) h) (\<lambda>_ h.
       when_some (cf_parity c) (set_parity_internal T H) h)))"

definition pl011_set_config ::
  "tock \<Rightarrow> 'h uart_hw \<Rightarrow> pl011 \<Rightarrow> serial_config \<Rightarrow> 'h \<Rightarrow> ('h \<times> (config_error, unit) result) option"
where
  "pl011_set_config T H p c h =
     (case u_flag T H UARTCR 0 h of (h, original_enable) \<Rightarrow>
      map_option
        (\<lambda>h. and_then (config_params T H (p_clock_freq p) c (u_modify H UARTLCR_H (tk_modify T 4 1 0) h)) (\<lambda>_ h.
           let h = u_modify H UARTLCR_H (tk_modify T 4 1 1) h
           in (if original_enable then u_modify H UARTCR (tk_modify T 0 1 1) h else h, Ok ())))
        (wait_idle T H (u_modify H UARTCR (tk_modify T 0 1 0) h)))"

definition pl011_baudrate :: "tock \<Rightarrow> 'h uart_hw \<Rightarrow> pl011 \<Rightarrow> 'h \<Rightarrow> 'h \<times> (unit, nat) result" where
  "pl011_baudrate T H p h =
     (case u_read H UARTIBRD h of (h, i) \<Rightarrow> case u_read H UARTFBRD h of (h, f) \<Rightarrow>
        let divisor = unat (tk_get T 0 16 i) * 64 + unat (tk_get T 0 6 f)
        in (h, if divisor = 0 then Ok 0 else rbind (mul_u32 (p_clock_freq p) 64) (\<lambda>x. div_u32 x (16 * divisor))))"

definition pl011_data_bits :: "tock \<Rightarrow> 'h uart_hw \<Rightarrow> 'h \<Rightarrow> 'h \<times> data_bits" where
  "pl011_data_bits T H h =
     (case u_read H UARTLCR_H h of (h, v) \<Rightarrow>
        let wlen = tk_get T 5 2 v
        in (h, if wlen = 0 then Five else if wlen = 1 then Six else if wlen = 2 then Seven else Eight))"

definition pl011_stop_bits :: "tock \<Rightarrow> 'h uart_hw \<Rightarrow> 'h \<Rightarrow> 'h \<times> stop_bits" where
  "pl011_stop_bits T H h = (case u_flag T H UARTLCR_H 3 h of (h, b) \<Rightarrow> (h, if b then TwoStop else OneStop))"

definition pl011_parity :: "tock \<Rightarrow> 'h uart_hw \<Rightarrow> 'h \<Rightarrow> 'h \<times> parity" where
  "pl011_parity T H h =
     (case u_flag T H UARTLCR_H 1 h of (h, pen) \<Rightarrow>
        if \<not> pen then (h, NoParity)
        else case u_flag T H UARTLCR_H 7 h of (h, sps) \<Rightarrow>
             case u_flag T H UARTLCR_H 2 h of (h, eps) \<Rightarrow>
               (h, if sps then (if eps then SpaceParity else MarkParity) else (if eps then EvenParity else OddParity)))"

text \<open>\<open>init\<close> is what \<open>open\<close> calls; the debug output is left out.\<close>

definition pl011_open :: "tock \<Rightarrow> 'h uart_hw \<Rightarrow> 'h \<Rightarrow> 'h option" where
  "pl011_open T H h =
     map_option
       (\<lambda>h. u_modify H UARTCR (\<lambda>v. tk_modify T 9 1 1 (tk_modify T 8 1 1 (tk_modify T 0 1 1 v)))
          (u_write H UARTIMSC 0 (u_modify H UARTLCR_H (tk_modify T 4 1 1) (u_modify H UARTLCR_H (tk_modify T 4 1 0) h))))
       (wait_idle T H (u_modify H UARTCR (tk_modify T 0 1 0) h))"

definition pl011_close :: "tock \<Rightarrow> 'h uart_hw \<Rightarrow> 'h \<Rightarrow> 'h" where
  "pl011_close T H = u_modify H UARTCR (tk_modify T 0 1 0)"

definition pl011_clock_freq :: "pl011 \<Rightarrow> nat option" where
  "pl011_clock_freq p = (if p_clock_freq p = 0 then None else Some (p_clock_freq p))"

definition pl011_enable_loopback :: "tock \<Rightarrow> 'h uart_hw \<Rightarrow> 'h \<Rightarrow> 'h" where
  "pl011_enable_loopback T H = u_modify H UARTCR (tk_modify T 7 1 1)"

definition pl011_disable_loopback :: "tock \<Rightarrow> 'h uart_hw \<Rightarrow> 'h \<Rightarrow> 'h" where
  "pl011_disable_loopback T H = u_modify H UARTCR (tk_modify T 7 1 0)"

definition pl011_is_loopback_enabled :: "tock \<Rightarrow> 'h uart_hw \<Rightarrow> 'h \<Rightarrow> 'h \<times> bool" where
  "pl011_is_loopback_enabled T H = u_flag T H UARTCR 7"

definition pl011_set_irq_mask :: "tock \<Rightarrow> 'h uart_hw \<Rightarrow> irq_mask \<Rightarrow> 'h \<Rightarrow> 'h" where
  "pl011_set_irq_mask T H m =
     u_write H UARTIMSC ((if rx_available m then tk_val T 4 1 1 else 0) + (if tx_empty m then tk_val T 5 1 1 else 0))"

definition irq_mask_of :: "tock \<Rightarrow> 32 word \<Rightarrow> irq_mask" where
  "irq_mask_of T v = \<lparr>rx_available = (tk_get T 4 1 v \<noteq> 0), tx_empty = (tk_get T 5 1 v \<noteq> 0)\<rparr>"

definition pl011_get_irq_mask :: "tock \<Rightarrow> 'h uart_hw \<Rightarrow> 'h \<Rightarrow> 'h \<times> irq_mask" where
  "pl011_get_irq_mask T H h = (case u_read H UARTIMSC h of (h, v) \<Rightarrow> (h, irq_mask_of T v))"

definition pl011_take_tx :: "pl011 \<Rightarrow> pl011 \<times> uart_part option" where
  "pl011_take_tx p = (p\<lparr>p_tx := None\<rparr>, map_option Pl011Part (p_tx p))"

definition pl011_take_rx :: "pl011 \<Rightarrow> pl011 \<times> uart_part option" where
  "pl011_take_rx p = (p\<lparr>p_rx := None\<rparr>, map_option Pl011Part (p_rx p))"

definition pl011_irq_handler :: "pl011 \<Rightarrow> pl011 \<times> nat option" where
  "pl011_irq_handler p = (p\<lparr>p_irq := None\<rparr>, p_irq p)"

definition pl011_set_tx :: "uart_part \<Rightarrow> pl011 \<Rightarrow> pl011 \<times> (set_back_error, unit) result" where
  "pl011_set_tx tx p =
     (case tx of
        Pl011Part base \<Rightarrow>
          if p_base p \<noteq> base then (p, Err \<lparr>sb_want = p_base p, sb_actual = base\<rparr>) else (p\<lparr>p_tx := Some base\<rparr>, Ok ())
      | _ \<Rightarrow> (p, Err \<lparr>sb_want = p_base p, sb_actual = 0\<rparr>))"

definition pl011_set_rx :: "uart_part \<Rightarrow> pl011 \<Rightarrow> pl011 \<times> (set_back_error, unit) result" where
  "pl011_set_rx rx p =
     (case rx of
        Pl011Part base \<Rightarrow>
          if p_base p \<noteq> base then (p, Err \<lparr>sb_want = p_base p, sb_actual = base\<rparr>) else (p\<lparr>p_rx := Some base\<rparr>, Ok ())
      | _ \<Rightarrow> (p, Err \<lparr>sb_want = p_base p, sb_actual = 0\<rparr>))"

definition pl011_enable_fifo :: "tock \<Rightarrow> 'h uart_hw \<Rightarrow> bool \<Rightarrow> 'h \<Rightarrow> 'h" where
  "pl011_enable_fifo T H enable = u_modify H UARTLCR_H (tk_modify T 4 1 (if enable then 1 else 0))"

definition fifo_level :: "nat \<Rightarrow> 32 word" where
  "fifo_level n = (if n \<le> 2 then 0 else if n \<le> 4 then 1 else if n \<le> 8 then 2 else if n \<le> 12 then 3 else 4)"

definition pl011_set_fifo_trigger_level :: "tock \<Rightarrow> 'h uart_hw \<Rightarrow> nat \<Rightarrow> nat \<Rightarrow> 'h \<Rightarrow> 'h" where
  "pl011_set_fifo_trigger_level T H rx_level tx_level =
     u_write H UARTIFLS (tk_val T 3 3 (fifo_level rx_level) OR tk_val T 0 3 (fifo_level tx_level))"

section \<open>Transfers\<close>

definition pl011_write_byte :: "tock \<Rightarrow> 'h uart_hw \<Rightarrow> 8 word \<Rightarrow> 'h \<Rightarrow> 'h \<times> bool" where
  "pl011_write_byte T H byte h =
     (case u_flag T H UARTFR 5 h of (h, full) \<Rightarrow> if full then (h, False) else (u_write H UARTDR (ucast byte) h, True))"

text \<open>A value of the data register: the byte with its error flags, in the order in which the driver looks at them.\<close>

definition dr_item :: "tock \<Rightarrow> 32 word \<Rightarrow> recv" where
  "dr_item T dr =
     (let byte = ucast (tk_get T 0 8 dr)
      in if tk_get T 8 1 dr \<noteq> 0 then Inl Framing
         else if tk_get T 9 1 dr \<noteq> 0 then Inl ParityError
         else if tk_get T 11 1 dr \<noteq> 0 then Inl (Overrun byte)
         else if tk_get T 10 1 dr \<noteq> 0 then Inl Break
         else Inr byte)"

definition pl011_read_byte :: "tock \<Rightarrow> 'h uart_hw \<Rightarrow> 'h \<Rightarrow> 'h \<times> recv option" where
  "pl011_read_byte T H h =
     (case u_flag T H UARTFR 4 h of (h, rxfe) \<Rightarrow>
        if rxfe then (h, None) else case u_read H UARTDR h of (h, dr) \<Rightarrow> (h, Some (dr_item T dr)))"

fun pl011_read_loop ::
  "('h \<Rightarrow> 'h \<times> recv option) \<Rightarrow> nat \<Rightarrow> 8 word option \<Rightarrow> 8 word list \<Rightarrow> 'h \<Rightarrow> 'h \<times> 8 word list \<times> (trans_bytes_error, nat) result"
where
  "pl011_read_loop rb count overrun [] h = (h, [], Ok count)"
| "pl011_read_loop rb count overrun (x # xs) h =
     (case rb h of
        (h, Some (Inr b)) \<Rightarrow> (case pl011_read_loop rb (count + 1) overrun xs h of (h, ys, r) \<Rightarrow> (h, b # ys, r))
      | (h, Some (Inl (Overrun b))) \<Rightarrow> (case pl011_read_loop rb (count + 1) (Some b) xs h of (h, ys, r) \<Rightarrow> (h, b # ys, r))
      | (h, Some (Inl e)) \<Rightarrow> (h, x # xs, Err \<lparr>bytes_transferred = count, te_kind = e\<rparr>)
      | (h, None) \<Rightarrow>
          (h, x # xs,
           case overrun of
             Some data \<Rightarrow> Err \<lparr>bytes_transferred = count - 1, te_kind = Overrun data\<rparr>
           | None \<Rightarrow> Ok count))"

definition pl011_read_bytes :: "tock \<Rightarrow> 'h uart_hw \<Rightarrow> 8 word list \<Rightarrow> 'h \<Rightarrow> 'h \<times> 8 word list \<times> (trans_bytes_error, nat) result" where
  "pl011_read_bytes T H = pl011_read_loop (pl011_read_byte T H) 0 None"

definition pl011_clean :: "tock \<Rightarrow> 'h uart_hw \<Rightarrow> 'h \<Rightarrow> 'h \<times> irq_mask" where
  "pl011_clean T H h = (case u_read H UARTMIS h of (h, mis) \<Rightarrow> (u_write H UARTICR mis h, irq_mask_of T mis))"

definition pl011_port :: "tock \<Rightarrow> 'h uart_hw \<Rightarrow> 'h serial_port" where
  "pl011_port T H =
     \<lparr>sp_read_byte = pl011_read_byte T H, sp_read_bytes = pl011_read_bytes T H,
      sp_write_byte = pl011_write_byte T H, sp_write_bytes = write_bytes (pl011_write_byte T H),
      sp_clean = pl011_clean T H, sp_get_irq_mask = pl011_get_irq_mask T H, sp_set_irq_mask = pl011_set_irq_mask T H\<rparr>"

text \<open>\<open>new_boxed\<close>: the port is opened and its parts are taken.\<close>

definition pl011_new_boxed :: "tock \<Rightarrow> 'h uart_hw \<Rightarrow> nat \<Rightarrow> nat \<Rightarrow> 'h \<Rightarrow> ('h \<times> (unit, serial_dyn) result) option" where
  "pl011_new_boxed T H base clock_freq h =
     (let p = pl011_new base clock_freq
      in map_option (\<lambda>h. (h, case pl011_take_tx p of (p, tx) \<Rightarrow> case pl011_take_rx p of (p, rx) \<Rightarrow> case pl011_irq_handler p of (p, irq) \<Rightarrow>
            serial_dyn_new tx rx irq)) (pl011_open T H h))"

end
