(* ===== verification/Ns16550.thy ===== *)
theory Ns16550
  imports Pl011
begin

unbundle bit_operations_syntax

text \<open>
  The NS16550 driver, \<open>driver/serial/src/ns16550\<close>.  The trait \<open>Kind\<close> (port or memory-mapped accesses of the eight byte
  registers) is the hardware; flag sets of \<open>bitflags\<close> are their bits.
\<close>

record 'h kind_hw =
  k_read :: "nat \<Rightarrow> 'h \<Rightarrow> 'h \<times> 8 word"
  k_write :: "nat \<Rightarrow> 8 word \<Rightarrow> 'h \<Rightarrow> 'h"

abbreviation (input) UART_RBR :: nat where "UART_RBR \<equiv> 0"
abbreviation (input) UART_THR :: nat where "UART_THR \<equiv> 0"
abbreviation (input) UART_DLL :: nat where "UART_DLL \<equiv> 0"
abbreviation (input) UART_IER :: nat where "UART_IER \<equiv> 1"
abbreviation (input) UART_DLH :: nat where "UART_DLH \<equiv> 1"
abbreviation (input) UART_IIR :: nat where "UART_IIR \<equiv> 2"
abbreviation (input) UART_FCR :: nat where "UART_FCR \<equiv> 2"
abbreviation (input) UART_LCR :: nat where "UART_LCR \<equiv> 3"
abbreviation (input) UART_MCR :: nat where "UART_MCR \<equiv> 4"
abbreviation (input) UART_LSR :: nat where "UART_LSR \<equiv> 5"

definition has_flag :: "8 word \<Rightarrow> 8 word \<Rightarrow> bool" where
  "has_flag v f \<longleftrightarrow> v AND f = f"

definition k_modify :: "'h kind_hw \<Rightarrow> nat \<Rightarrow> (8 word \<Rightarrow> 8 word) \<Rightarrow> 'h \<Rightarrow> 'h" where
  "k_modify K r f h = (case k_read K r h of (h, v) \<Rightarrow> k_write K r (f v) h)"

text \<open>Accesses of the memory-mapped variant: registers are \<open>width\<close> bytes apart.\<close>

definition mmio_kind :: "(nat \<Rightarrow> 'h \<Rightarrow> 'h \<times> 8 word) \<Rightarrow> (nat \<Rightarrow> 8 word \<Rightarrow> 'h \<Rightarrow> 'h) \<Rightarrow> nat \<Rightarrow> nat \<Rightarrow> 'h kind_hw" where
  "mmio_kind rd wr base width = \<lparr>k_read = (\<lambda>reg. rd (base + reg * width)), k_write = (\<lambda>reg. wr (base + reg * width))\<rparr>"

record ns16550 =
  n_base :: nat
  n_clock_freq :: nat
  n_irq :: bool
  n_tx :: "uart_part option"
  n_rx :: "uart_part option"

definition new_mmio :: "nat \<Rightarrow> nat \<Rightarrow> ns16550" where
  "new_mmio base clock_freq =
     \<lparr>n_base = base, n_clock_freq = clock_freq, n_irq = True, n_tx = Some (MmioPart base), n_rx = Some (MmioPart base)\<rparr>"

definition new_port :: "nat \<Rightarrow> nat \<Rightarrow> ns16550" where
  "new_port port clock_freq =
     \<lparr>n_base = port, n_clock_freq = clock_freq, n_irq = True, n_tx = Some (PortPart port), n_rx = Some (PortPart port)\<rparr>"

section \<open>Configuration\<close>

definition ns_set_baudrate :: "'h kind_hw \<Rightarrow> ns16550 \<Rightarrow> nat \<Rightarrow> 'h \<Rightarrow> 'h \<times> (config_error, unit) result" where
  "ns_set_baudrate K d baudrate h =
     (if baudrate = 0 \<or> n_clock_freq d = 0 then (h, Err InvalidBaudrate)
      else case mul_u32 16 baudrate of
        Ok m \<Rightarrow>
          (let divisor = n_clock_freq d div m
           in if divisor = 0 \<or> divisor > 0xFFFF then (h, Err InvalidBaudrate)
              else case k_read K UART_LCR h of
                (h, lcr) \<Rightarrow>
                  let h = k_write K UART_LCR (lcr OR 0x80) h;
                      h = k_write K UART_DLL (of_nat (divisor mod 256)) h;
                      h = k_write K UART_DLH (of_nat (divisor div 256 mod 256)) h
                  in (k_write K UART_LCR ((lcr OR 0x80) AND NOT 0x80) h, Ok ()))
      | Err e \<Rightarrow> (h, Err e)
      | Panic \<Rightarrow> (h, Panic))"

fun word_length :: "data_bits \<Rightarrow> 8 word" where
  "word_length Five = 0"
| "word_length Six = 1"
| "word_length Seven = 2"
| "word_length Eight = 3"

definition ns_set_data_bits :: "'h kind_hw \<Rightarrow> data_bits \<Rightarrow> 'h \<Rightarrow> 'h \<times> (config_error, unit) result" where
  "ns_set_data_bits K bits h = (k_modify K UART_LCR (\<lambda>lcr. (lcr AND NOT 3) OR word_length bits) h, Ok ())"

definition ns_set_stop_bits :: "'h kind_hw \<Rightarrow> stop_bits \<Rightarrow> 'h \<Rightarrow> 'h \<times> (config_error, unit) result" where
  "ns_set_stop_bits K bits h =
     (k_modify K UART_LCR (\<lambda>lcr. case bits of OneStop \<Rightarrow> lcr AND NOT 4 | TwoStop \<Rightarrow> lcr OR 4) h, Ok ())"

fun parity_flags :: "parity \<Rightarrow> 8 word" where
  "parity_flags NoParity = 0"
| "parity_flags OddParity = 0x08"
| "parity_flags EvenParity = 0x18"
| "parity_flags MarkParity = 0x28"
| "parity_flags SpaceParity = 0x38"

definition ns_set_parity :: "'h kind_hw \<Rightarrow> parity \<Rightarrow> 'h \<Rightarrow> 'h \<times> (config_error, unit) result" where
  "ns_set_parity K par h = (k_modify K UART_LCR (\<lambda>lcr. (lcr AND NOT 0x38) OR parity_flags par) h, Ok ())"

definition ns_set_config :: "'h kind_hw \<Rightarrow> ns16550 \<Rightarrow> serial_config \<Rightarrow> 'h \<Rightarrow> 'h \<times> (config_error, unit) result" where
  "ns_set_config K d c h =
     and_then (when_some (cf_baudrate c) (ns_set_baudrate K d) h) (\<lambda>_ h.
     and_then (when_some (cf_data_bits c) (ns_set_data_bits K) h) (\<lambda>_ h.
     and_then (when_some (cf_stop_bits c) (ns_set_stop_bits K) h) (\<lambda>_ h.
       when_some (cf_parity c) (ns_set_parity K) h)))"

definition ns_baudrate :: "'h kind_hw \<Rightarrow> ns16550 \<Rightarrow> 'h \<Rightarrow> 'h \<times> nat" where
  "ns_baudrate K d h =
     (case k_read K UART_DLL h of (h, dll) \<Rightarrow> case k_read K UART_DLH h of (h, dlh) \<Rightarrow>
        let divisor = unat dll + 256 * unat dlh
        in (h, if divisor = 0 then 0 else n_clock_freq d div (16 * divisor)))"

definition ns_data_bits :: "'h kind_hw \<Rightarrow> 'h \<Rightarrow> 'h \<times> data_bits" where
  "ns_data_bits K h =
     (case k_read K UART_LCR h of (h, lcr) \<Rightarrow>
        let wlen = lcr AND 3 in (h, if wlen = 0 then Five else if wlen = 1 then Six else if wlen = 2 then Seven else Eight))"

definition ns_stop_bits :: "'h kind_hw \<Rightarrow> 'h \<Rightarrow> 'h \<times> stop_bits" where
  "ns_stop_bits K h = (case k_read K UART_LCR h of (h, lcr) \<Rightarrow> (h, if has_flag lcr 4 then TwoStop else OneStop))"

definition parity_of :: "8 word \<Rightarrow> parity" where
  "parity_of lcr =
     (if \<not> has_flag lcr 0x08 then NoParity
      else if has_flag lcr 0x20 then (if has_flag lcr 0x10 then SpaceParity else MarkParity)
      else (if has_flag lcr 0x10 then EvenParity else OddParity))"

definition ns_parity :: "'h kind_hw \<Rightarrow> 'h \<Rightarrow> 'h \<times> parity" where
  "ns_parity K h = (case k_read K UART_LCR h of (h, lcr) \<Rightarrow> (h, parity_of lcr))"

definition ns_clock_freq :: "ns16550 \<Rightarrow> nat option" where
  "ns_clock_freq d = (if n_clock_freq d = 0 then None else Some (n_clock_freq d))"

definition ns_open :: "'h kind_hw \<Rightarrow> 'h \<Rightarrow> 'h" where
  "ns_open K h = k_modify K UART_MCR (\<lambda>mcr. mcr OR 3) (k_write K UART_IER 0 h)"

definition ns_close :: "'h kind_hw \<Rightarrow> 'h \<Rightarrow> 'h" where
  "ns_close K h = k_modify K UART_MCR (\<lambda>mcr. mcr AND NOT 3) (k_write K UART_IER 0 h)"

definition ns_enable_loopback :: "'h kind_hw \<Rightarrow> 'h \<Rightarrow> 'h" where
  "ns_enable_loopback K = k_modify K UART_MCR (\<lambda>mcr. mcr OR 0x10)"

definition ns_disable_loopback :: "'h kind_hw \<Rightarrow> 'h \<Rightarrow> 'h" where
  "ns_disable_loopback K = k_modify K UART_MCR (\<lambda>mcr. mcr AND NOT 0x10)"

definition ns_is_loopback_enabled :: "'h kind_hw \<Rightarrow> 'h \<Rightarrow> 'h \<times> bool" where
  "ns_is_loopback_enabled K h = (case k_read K UART_MCR h of (h, mcr) \<Rightarrow> (h, has_flag mcr 0x10))"

definition ns_set_irq_mask :: "'h kind_hw \<Rightarrow> irq_mask \<Rightarrow> 'h \<Rightarrow> 'h" where
  "ns_set_irq_mask K m = k_write K UART_IER ((if rx_available m then 0x05 else 0) OR (if tx_empty m then 0x02 else 0))"

definition ns_get_irq_mask :: "'h kind_hw \<Rightarrow> 'h \<Rightarrow> 'h \<times> irq_mask" where
  "ns_get_irq_mask K h =
     (case k_read K UART_IER h of (h, ier) \<Rightarrow> (h, \<lparr>rx_available = has_flag ier 0x01, tx_empty = has_flag ier 0x02\<rparr>))"

section \<open>Parts\<close>

definition ns_irq_handler :: "ns16550 \<Rightarrow> ns16550 \<times> bool" where
  "ns_irq_handler d = (d\<lparr>n_irq := False\<rparr>, n_irq d)"

definition ns_take_tx :: "ns16550 \<Rightarrow> ns16550 \<times> uart_part option" where
  "ns_take_tx d = (d\<lparr>n_tx := None\<rparr>, n_tx d)"

definition ns_take_rx :: "ns16550 \<Rightarrow> ns16550 \<times> uart_part option" where
  "ns_take_rx d = (d\<lparr>n_rx := None\<rparr>, n_rx d)"

definition check_back :: "nat \<Rightarrow> uart_part \<Rightarrow> (set_back_error, unit) result" where
  "check_back want part =
     (case part of
        PortPart actual \<Rightarrow> if actual \<noteq> want then Err \<lparr>sb_want = want, sb_actual = actual\<rparr> else Ok ()
      | MmioPart actual \<Rightarrow> if actual \<noteq> want then Err \<lparr>sb_want = want, sb_actual = actual\<rparr> else Ok ()
      | Pl011Part _ \<Rightarrow> Err \<lparr>sb_want = want, sb_actual = 0\<rparr>)"

definition ns_set_tx :: "uart_part \<Rightarrow> ns16550 \<Rightarrow> ns16550 \<times> (set_back_error, unit) result" where
  "ns_set_tx tx d = and_then (d, check_back (n_base d) tx) (\<lambda>_ d. (d\<lparr>n_tx := Some tx\<rparr>, Ok ()))"

definition ns_set_rx :: "uart_part \<Rightarrow> ns16550 \<Rightarrow> ns16550 \<times> (set_back_error, unit) result" where
  "ns_set_rx rx d = and_then (d, check_back (n_base d) rx) (\<lambda>_ d. (d\<lparr>n_rx := Some rx\<rparr>, Ok ()))"

section \<open>FIFO\<close>

definition is_16550_plus :: "'h kind_hw \<Rightarrow> 'h \<Rightarrow> 'h \<times> bool" where
  "is_16550_plus K h = (case k_read K UART_IIR h of (h, iir) \<Rightarrow> (h, has_flag iir 0xC0))"

definition ns_enable_fifo :: "'h kind_hw \<Rightarrow> bool \<Rightarrow> 'h \<Rightarrow> 'h" where
  "ns_enable_fifo K enable h =
     (if enable then
        case is_16550_plus K h of (h, fifo_on) \<Rightarrow> if fifo_on then k_write K UART_FCR 7 h else k_write K UART_FCR 0 h
      else k_write K UART_FCR 0 h)"

definition trigger_flags :: "nat \<Rightarrow> 8 word" where
  "trigger_flags level = (if level \<le> 3 then 0 else if level \<le> 7 then 0x40 else if level \<le> 11 then 0x80 else 0xC0)"

definition ns_set_fifo_trigger_level :: "'h kind_hw \<Rightarrow> nat \<Rightarrow> 'h \<Rightarrow> 'h" where
  "ns_set_fifo_trigger_level K level h =
     (case is_16550_plus K h of (h, fifo_on) \<Rightarrow>
        if \<not> fifo_on then h else k_modify K UART_FCR (\<lambda>fcr. (fcr AND NOT 0xC0) OR trigger_flags level) h)"

definition ns_is_fifo_enabled :: "'h kind_hw \<Rightarrow> 'h \<Rightarrow> 'h \<times> bool" where
  "ns_is_fifo_enabled K h =
     (case is_16550_plus K h of (h, fifo_on) \<Rightarrow>
        if \<not> fifo_on then (h, False) else case k_read K UART_IIR h of (h, iir) \<Rightarrow> (h, has_flag iir 0xC0))"

section \<open>Transfers\<close>

definition ns_read_byte :: "'h kind_hw \<Rightarrow> 'h \<Rightarrow> 'h \<times> recv option" where
  "ns_read_byte K h =
     (case k_read K UART_LSR h of (h, lsr) \<Rightarrow>
        let rbr = (\<lambda>f. case k_read K UART_RBR h of (h, b) \<Rightarrow> (h, Some (f b)))
        in if has_flag lsr 0x02 then rbr (\<lambda>b. Inl (Overrun b))
           else if has_flag lsr 0x04 then rbr (\<lambda>b. Inl ParityError)
           else if has_flag lsr 0x08 then rbr (\<lambda>b. Inl Framing)
           else if has_flag lsr 0x10 then rbr (\<lambda>b. Inl Break)
           else if has_flag lsr 0x01 then rbr Inr
           else (h, None))"

definition ns_clean :: "'h kind_hw \<Rightarrow> 'h \<Rightarrow> 'h \<times> irq_mask" where
  "ns_clean K h =
     (case k_read K UART_IIR h of (h, iir) \<Rightarrow>
        (h, if has_flag iir 1 then irq_mask_none
            else
              let interrupt_id = iir AND 0x0E
              in if interrupt_id = 0x06 \<or> interrupt_id = 0x04 \<or> interrupt_id = 0x0C then irq_mask_none\<lparr>rx_available := True\<rparr>
                 else if interrupt_id = 0x02 then irq_mask_none\<lparr>tx_empty := True\<rparr>
                 else irq_mask_none))"

definition ns_write_byte :: "'h kind_hw \<Rightarrow> 8 word \<Rightarrow> 'h \<Rightarrow> 'h \<times> bool" where
  "ns_write_byte K byte h =
     (case k_read K UART_LSR h of (h, lsr) \<Rightarrow> if has_flag lsr 0x20 then (k_write K UART_THR byte h, True) else (h, False))"

definition ns_port :: "'h kind_hw \<Rightarrow> 'h serial_port" where
  "ns_port K =
     \<lparr>sp_read_byte = ns_read_byte K, sp_read_bytes = read_bytes (ns_read_byte K),
      sp_write_byte = ns_write_byte K, sp_write_bytes = write_bytes (ns_write_byte K),
      sp_clean = ns_clean K, sp_get_irq_mask = ns_get_irq_mask K, sp_set_irq_mask = ns_set_irq_mask K\<rparr>"

definition ns_new_boxed :: "'h kind_hw \<Rightarrow> ns16550 \<Rightarrow> 'h \<Rightarrow> 'h \<times> (unit, serial_dyn) result" where
  "ns_new_boxed K d h =
     (ns_open K h,
      case ns_take_tx d of (d, tx) \<Rightarrow> case ns_take_rx d of (d, rx) \<Rightarrow> case ns_irq_handler d of (d, irq) \<Rightarrow>
        serial_dyn_new tx rx (if irq then Some () else None))"

end
