(* ===== verification/Serial_Receive.thy ===== *)
theory Serial_Receive
  imports Ns16550 "HOL-Library.Sublist"
begin

unbundle bit_operations_syntax

text \<open>
  Receiving through \<open>SerialDyn\<close> on a PL011: what the driver needs of the receive side of the hardware, and the steps in
  which bytes arrive, the interrupt handler runs and the receiver is read.  A call is one step: the buffer is not
  protected by a lock, and an interrupt inside \<open>read_byte\<close> is outside this model.
\<close>

section \<open>The receive side of the hardware\<close>

text \<open>
  \<open>rx\<close> is the list of words in the receive FIFO.  \<open>RXFE\<close> says whether it is empty, reading the data register takes its
  first word, and the other accesses of the handler leave it alone.
\<close>

definition pl_rx_law :: "tock \<Rightarrow> 'h uart_hw \<Rightarrow> ('h \<Rightarrow> 32 word list) \<Rightarrow> bool" where
  "pl_rx_law T H rx \<longleftrightarrow>
     (\<forall>h h' v. u_read H UARTFR h = (h', v) \<longrightarrow> rx h' = rx h \<and> (bit v 4 \<longleftrightarrow> rx h = [])) \<and>
     (\<forall>h h' v. u_read H UARTDR h = (h', v) \<longrightarrow> rx h \<noteq> [] \<longrightarrow> rx h = v # rx h') \<and>
     (\<forall>h h' v. u_read H UARTMIS h = (h', v) \<longrightarrow> rx h' = rx h) \<and>
     (\<forall>h v. rx (u_write H UARTICR v h) = rx h)"

definition rx_items :: "tock \<Rightarrow> ('h \<Rightarrow> 32 word list) \<Rightarrow> 'h \<Rightarrow> recv list" where
  "rx_items T rx h = map (dr_item T) (rx h)"

lemma pl011_receiver:
  assumes "tock_law T" "pl_rx_law T H rx"
  shows "receiver (pl011_read_byte T H) (rx_items T rx)"
proof
  fix h
  obtain h1 fr where fr: "u_read H UARTFR h = (h1, fr)" by fastforce
  obtain h2 dr where dr: "u_read H UARTDR h1 = (h2, dr)" by fastforce
  have law: "rx h1 = rx h" "bit fr 4 \<longleftrightarrow> rx h = []" "rx h1 \<noteq> [] \<Longrightarrow> rx h1 = dr # rx h2"
    using assms(2) fr dr unfolding pl_rx_law_def by blast+
  have run: "pl011_read_byte T H h = (if rx h = [] then (h1, None) else (h2, Some (dr_item T dr)))"
    using fr dr law(2) tk_flag_bit [OF assms(1), of 4 fr] by (simp add: pl011_read_byte_def u_flag_def)
  show "rx_items T rx h = [] \<Longrightarrow> \<exists>h'. pl011_read_byte T H h = (h', None) \<and> rx_items T rx h' = []"
    using run law(1) by (simp add: rx_items_def)
  show "rx_items T rx h = x # xs \<Longrightarrow> \<exists>h'. pl011_read_byte T H h = (h', Some x) \<and> rx_items T rx h' = xs" for x xs
    using run law(1,3) by (auto simp: rx_items_def)
qed

section \<open>Steps\<close>

text \<open>
  The state is the buffer and the hardware; with it go the items that have arrived, those that were delivered, and the
  number of items that were dropped because the buffer was full.
\<close>

inductive serial_step ::
  "'h serial_port \<Rightarrow> ('h \<Rightarrow> recv list) \<Rightarrow> (recv list \<times> 'h) \<times> recv list \<times> recv list \<times> nat \<Rightarrow>
   (recv list \<times> 'h) \<times> recv list \<times> recv list \<times> nat \<Rightarrow> bool"
  for P pending
where
  Arrive: "pending h' = pending h @ [x] \<Longrightarrow>
     serial_step P pending ((fifo, h), arrived, delivered, lost) ((fifo, h'), arrived @ [x], delivered, lost)"
| Irq: "irq_clean P (fifo, h) = Some (s', status) \<Longrightarrow>
     serial_step P pending ((fifo, h), arrived, delivered, lost)
       (s', arrived, delivered, lost + (if rx_available status then length fifo + length (pending h) - 64 else 0))"
| Read: "rx_read_byte P s = (s', r) \<Longrightarrow>
     serial_step P pending (s, arrived, delivered, lost) (s', arrived, delivered @ (case r of None \<Rightarrow> [] | Some x \<Rightarrow> [x]), lost)"

inductive_cases serial_stepE: "serial_step P pending s s'"

text \<open>\<open>RX_AVAILABLE\<close> empties the port into the buffer; any other interrupt changes neither.\<close>

lemma irq_clean_effect:
  assumes rcv: "receiver (sp_read_byte P) pending"
    and keep: "\<And>h. pending (fst (sp_clean P h)) = pending h"
  shows "\<exists>fifo' h' status. irq_clean P (fifo, h) = Some ((fifo', h'), status) \<and>
     (if rx_available status then fifo' = take (max 64 (length fifo)) (fifo @ pending h) \<and> pending h' = []
      else fifo' = fifo \<and> pending h' = pending h)"
proof -
  obtain h1 status where c: "sp_clean P h = (h1, status)" by fastforce
  with keep [of h] have p: "pending h1 = pending h" by simp
  show ?thesis
  proof (cases "rx_available status")
    case True
    from receiver.drain_all [OF rcv refl, of fifo h1] obtain h2 where
      "drain_port P (fifo, h1) = Some (take (max 64 (length fifo)) (fifo @ pending h1), h2)" "pending h2 = []" by blast
    then show ?thesis using c p True by (simp add: irq_clean_def)
  qed (use c p in \<open>simp add: irq_clean_def\<close>)
qed

definition serial_inv :: "('h \<Rightarrow> recv list) \<Rightarrow> (recv list \<times> 'h) \<times> recv list \<times> recv list \<times> nat \<Rightarrow> bool" where
  "serial_inv pending t \<longleftrightarrow>
     (case t of ((fifo, h), arrived, delivered, lost) \<Rightarrow>
        length fifo \<le> 64 \<and> subseq (delivered @ fifo @ pending h) arrived \<and>
        length arrived = length (delivered @ fifo @ pending h) + lost)"

lemma subseq_take_append: "subseq (d @ take n q) (d @ q)"
  by (metis prefix_imp_subseq subseq_append_iff subseq_order.order_refl take_is_prefix)

lemma serial_step_inv:
  assumes rcv: "receiver (sp_read_byte P) pending"
    and keep: "\<And>h. pending (fst (sp_clean P h)) = pending h"
    and "serial_step P pending s s'" "serial_inv pending s"
  shows "serial_inv pending s'"
  using assms(3,4)
proof (cases rule: serial_step.cases)
  case (Arrive h' h x fifo arrived delivered lost)
  then show ?thesis using assms(4) list_emb_append_mono [of "(=)" "delivered @ fifo @ pending h" arrived "[x]" "[x]"]
    by (simp add: serial_inv_def)
next
  case (Irq fifo h s1 status arrived delivered lost)
  obtain fifo' h' where s1: "s1 = (fifo', h')" and eff:
    "if rx_available status then fifo' = take (max 64 (length fifo)) (fifo @ pending h) \<and> pending h' = []
     else fifo' = fifo \<and> pending h' = pending h"
    using irq_clean_effect [OF rcv keep, of fifo h] Irq(3) by auto
  show ?thesis
  proof (cases "rx_available status")
    case True
    have old: "length fifo \<le> 64" "subseq (delivered @ fifo @ pending h) arrived"
        "length arrived = length (delivered @ fifo @ pending h) + lost"
      using assms(4) Irq(1) by (simp_all add: serial_inv_def)
    have "fifo' = take 64 (fifo @ pending h)" "pending h' = []"
      using eff True old(1) by (simp_all add: max_def)
    moreover have "subseq (delivered @ take 64 (fifo @ pending h)) arrived"
      using subseq_take_append old(2) by (rule subseq_order.trans)
    ultimately show ?thesis using Irq(2) s1 True old by (auto simp: serial_inv_def)
  qed (use assms(4) Irq s1 eff in \<open>simp add: serial_inv_def\<close>)
next
  case (Read s1 s2 r arrived delivered lost)
  obtain fifo h where s1: "s1 = (fifo, h)" by fastforce
  show ?thesis
  proof (cases "fifo @ pending h")
    case Nil
    then show ?thesis using receiver.rx_pops [OF rcv refl, of fifo h] Read s1 assms(4) by (auto simp: serial_inv_def)
  next
    case (Cons x q)
    with receiver.rx_pops [OF rcv refl, of fifo h] Read(3) s1 obtain fifo' h' where
      "s2 = (fifo', h')" "r = Some x" "fifo' @ pending h' = q" "length fifo' \<le> length fifo" by auto
    moreover from Cons have "length fifo + length (pending h) = Suc (length q)" by (metis length_Cons length_append)
    ultimately show ?thesis using Read(1,2) s1 Cons assms(4) by (auto simp: serial_inv_def)
  qed
qed

lemma serial_steps_inv:
  assumes "receiver (sp_read_byte P) pending" "\<And>h. pending (fst (sp_clean P h)) = pending h"
    and "(serial_step P pending)\<^sup>*\<^sup>* s s'" "serial_inv pending s"
  shows "serial_inv pending s'"
  using assms(3,4) by induction (use serial_step_inv [OF assms(1,2)] in blast)+

lemma pl011_clean_keeps: "pl_rx_law T H rx \<Longrightarrow> rx_items T rx (fst (sp_clean (pl011_port T H) h)) = rx_items T rx h"
  by (cases "u_read H UARTMIS h") (simp add: pl_rx_law_def pl011_port_def pl011_clean_def rx_items_def, metis)

end
