(* ===== verification/Serial_Config.thy ===== *)
theory Serial_Config
  imports Serial_Receive
begin

unbundle bit_operations_syntax

text \<open>
  The configuration of the two UARTs: what the drivers need of the configuration registers, and the effect of
  \<open>set_config\<close> on them.
\<close>

section \<open>Fields of a register that was modified\<close>

lemma get_modify_same:
  "tock_law T \<Longrightarrow> off + n \<le> 32 \<Longrightarrow> tk_get T off n (tk_modify T off n x v) = take_bit n x"
  by (simp only: tk_get_law tk_modify_law modify_same)

lemma get_modify_other:
  assumes "tock_law T" "off + n \<le> k \<or> k + m \<le> off"
  shows "tk_get T k m (tk_modify T off n x v) = tk_get T k m v"
  unfolding tk_get_law [OF assms(1)] tk_modify_law [OF assms(1)] field_mask_def
  by (rule bit_word_eqI) (use assms(2) in \<open>auto simp: bit_simps dest: bit_imp_le_length\<close>)

lemma get_take_bit: "tock_law T \<Longrightarrow> k + m \<le> w \<Longrightarrow> tk_get T k m (take_bit w v) = tk_get T k m v"
  unfolding tk_get_law by (rule bit_word_eqI) (auto simp: bit_simps)

lemmas modify_simps = get_modify_same get_modify_other get_take_bit

section \<open>PL011\<close>

definition pl_cfg :: "nat set" where "pl_cfg = {UARTIBRD, UARTFBRD, UARTLCR_H, UARTCR}"

lemma pl_cfg_registers [simp]: "UARTIBRD \<in> pl_cfg" "UARTFBRD \<in> pl_cfg" "UARTLCR_H \<in> pl_cfg" "UARTCR \<in> pl_cfg"
  by (simp_all add: pl_cfg_def)

definition pl_width :: "nat \<Rightarrow> nat" where
  "pl_width r = (if r = UARTFBRD then 6 else if r = UARTLCR_H then 8 else 16)"

text \<open>
  \<open>regs\<close> is the contents of the configuration registers: they hold what was written to their implemented bits.  The first
  component of \<open>busy\<close> is the number of polls until the transmitter has finished the character in its shift register, the
  second one the number of characters in the transmit FIFO.  The flag \<open>BUSY\<close> is set while there is either, whether the
  UART is enabled or not; a disabled UART finishes the character in its shift register and takes no other from the FIFO.  Accessing
  a configuration register adds no character to the FIFO.
\<close>

definition pl_cfg_law :: "'h uart_hw \<Rightarrow> ('h \<Rightarrow> nat \<Rightarrow> 32 word) \<Rightarrow> ('h \<Rightarrow> nat \<times> nat) \<Rightarrow> bool" where
  "pl_cfg_law H regs busy \<longleftrightarrow>
     (\<forall>h r. r \<in> pl_cfg \<longrightarrow> snd (u_read H r h) = regs h r \<and> regs (fst (u_read H r h)) = regs h \<and>
        snd (busy (fst (u_read H r h))) \<le> snd (busy h)) \<and>
     (\<forall>h r v. r \<in> pl_cfg \<longrightarrow> regs (u_write H r v h) = (regs h)(r := take_bit (pl_width r) v) \<and>
        snd (busy (u_write H r v h)) \<le> snd (busy h)) \<and>
     (\<forall>h r. r \<in> pl_cfg \<longrightarrow> take_bit (pl_width r) (regs h r) = regs h r) \<and>
     (\<forall>h. regs (fst (u_read H UARTFR h)) = regs h \<and> (bit (snd (u_read H UARTFR h)) 3 \<longleftrightarrow> busy h \<noteq> (0, 0)) \<and>
        (\<not> bit (regs h UARTCR) 0 \<longrightarrow> busy (fst (u_read H UARTFR h)) = (fst (busy h) - 1, snd (busy h))))"

lemma cfg_read: "pl_cfg_law H regs busy \<Longrightarrow> r \<in> pl_cfg \<Longrightarrow> \<exists>h'. u_read H r h = (h', regs h r) \<and> regs h' = regs h"
  unfolding pl_cfg_law_def by (metis prod.collapse)

lemma cfg_queue:
  assumes "pl_cfg_law H regs busy" "r \<in> pl_cfg"
  shows "snd (busy (fst (u_read H r h))) \<le> snd (busy h)" "snd (busy (u_modify H r f h)) \<le> snd (busy h)"
proof -
  show rd: "snd (busy (fst (u_read H r h))) \<le> snd (busy h)" using assms by (simp add: pl_cfg_law_def)
  obtain h1 v where "u_read H r h = (h1, v)" by fastforce
  moreover have "snd (busy (u_write H r (f v) h1)) \<le> snd (busy h1)" using assms by (simp add: pl_cfg_law_def)
  ultimately show "snd (busy (u_modify H r f h)) \<le> snd (busy h)" using rd by (simp add: u_modify_def)
qed

lemma cfg_width: "pl_cfg_law H regs busy \<Longrightarrow> r \<in> pl_cfg \<Longrightarrow> take_bit (pl_width r) (regs h r) = regs h r"
  unfolding pl_cfg_law_def by blast

lemma cfg_write: "pl_cfg_law H regs busy \<Longrightarrow> r \<in> pl_cfg \<Longrightarrow> regs (u_write H r v h) = (regs h)(r := take_bit (pl_width r) v)"
  by (simp add: pl_cfg_law_def)

lemma cfg_modify:
  assumes "pl_cfg_law H regs busy" "r \<in> pl_cfg"
  shows "regs (u_modify H r f h) = (regs h)(r := take_bit (pl_width r) (f (regs h r)))"
proof -
  obtain h' where "u_read H r h = (h', regs h r)" "regs h' = regs h" using cfg_read [OF assms] by blast
  then show ?thesis by (simp add: u_modify_def cfg_write [OF assms])
qed

lemma cfg_flag:
  assumes "pl_cfg_law H regs busy" "r \<in> pl_cfg"
  shows "\<exists>h'. u_flag T H r off h = (h', tk_get T off 1 (regs h r) \<noteq> 0) \<and> regs h' = regs h"
  using cfg_read [OF assms, of h] by (auto simp: u_flag_def)

text \<open>
  Waiting for a disabled UART to become idle returns when no character is left in the FIFO, and never returns otherwise.
\<close>

lemma busy_flag:
  assumes "tock_law T" "pl_cfg_law H regs busy" "\<not> bit (regs h UARTCR) 0"
  shows "\<exists>h1. u_flag T H UARTFR 3 h = (h1, busy h \<noteq> (0, 0)) \<and> regs h1 = regs h \<and> busy h1 = (fst (busy h) - 1, snd (busy h))"
proof -
  obtain h1 v where fr: "u_read H UARTFR h = (h1, v)" by fastforce
  have "regs h1 = regs h" "bit v 3 \<longleftrightarrow> busy h \<noteq> (0, 0)" "busy h1 = (fst (busy h) - 1, snd (busy h))"
    using assms(2,3) fr unfolding pl_cfg_law_def by (metis fst_conv snd_conv)+
  then show ?thesis using fr tk_flag_bit [OF assms(1), of 3 v] by (simp add: u_flag_def)
qed

lemma wait_idle_returns:
  assumes "tock_law T" "pl_cfg_law H regs busy" "\<not> bit (regs h UARTCR) 0" "snd (busy h) = 0"
  shows "\<exists>h'. wait_idle T H h = Some h' \<and> regs h' = regs h"
  using assms(3,4)
proof (induction "fst (busy h)" arbitrary: h rule: less_induct)
  case less
  obtain h1 where flag: "u_flag T H UARTFR 3 h = (h1, busy h \<noteq> (0, 0))" "regs h1 = regs h"
      "busy h1 = (fst (busy h) - 1, snd (busy h))"
    using busy_flag [OF assms(1,2) less.prems(1)] by blast
  show ?case
  proof (cases "fst (busy h) = 0")
    case True
    then have "busy h = (0, 0)" using less.prems(2) by (metis prod.collapse)
    then show ?thesis using flag by (subst wait_idle.simps) simp
  next
    case False
    then have "busy h \<noteq> (0, 0)" by auto
    moreover have "fst (busy h1) < fst (busy h)" using False flag(3) by simp
    with less.hyps [of h1] less.prems flag(2,3) obtain h2 where "wait_idle T H h1 = Some h2" "regs h2 = regs h1" by auto
    ultimately show ?thesis using flag by (subst wait_idle.simps) simp
  qed
qed

lemma wait_idle_Some:
  assumes "tock_law T" "pl_cfg_law H regs busy" "wait_idle T H h = Some h'" "\<not> bit (regs h UARTCR) 0"
  shows "snd (busy h) = 0"
proof -
  have "tock_law T \<longrightarrow> pl_cfg_law H regs busy \<longrightarrow> \<not> bit (regs h UARTCR) 0 \<longrightarrow> snd (busy h) = 0"
  proof (rule wait_idle.raw_induct [OF _ assms(3)], intro impI)
    fix rec and T and H :: "'a uart_hw" and h y
    assume rec: "\<And>T H h y. rec T H h = Some y \<Longrightarrow>
        tock_law T \<longrightarrow> pl_cfg_law H regs busy \<longrightarrow> \<not> bit (regs h UARTCR) 0 \<longrightarrow> snd (busy h) = 0"
      and body: "(case u_flag T H UARTFR 3 h of (h, busy) \<Rightarrow> if busy then rec T H h else Some h) = Some y"
      and laws: "tock_law T" "pl_cfg_law H regs busy" "\<not> bit (regs h UARTCR) 0"
    obtain h1 where h1: "u_flag T H UARTFR 3 h = (h1, busy h \<noteq> (0, 0))" "regs h1 = regs h" "snd (busy h1) = snd (busy h)"
      using busy_flag [OF laws] by auto
    show "snd (busy h) = 0"
    proof (cases "busy h = (0, 0)")
      case False
      then have "rec T H h1 = Some y" using body h1(1) by simp
      then show ?thesis using rec laws h1(2,3) by metis
    qed simp
  qed
  then show ?thesis using assms(1,2,4) by blast
qed

text \<open>The line control register as a function of the configuration.\<close>

definition lcr_data :: "tock \<Rightarrow> data_bits option \<Rightarrow> 32 word \<Rightarrow> 32 word" where
  "lcr_data T x v = (case x of None \<Rightarrow> v | Some b \<Rightarrow> take_bit 8 (tk_modify T 5 2 (wlen_value b) v))"

definition lcr_stop :: "tock \<Rightarrow> stop_bits option \<Rightarrow> 32 word \<Rightarrow> 32 word" where
  "lcr_stop T x v = (case x of None \<Rightarrow> v | Some b \<Rightarrow> take_bit 8 (tk_modify T 3 1 (case b of OneStop \<Rightarrow> 0 | TwoStop \<Rightarrow> 1) v))"

definition lcr_parity :: "tock \<Rightarrow> parity option \<Rightarrow> 32 word \<Rightarrow> 32 word" where
  "lcr_parity T x v =
     (let set = (\<lambda>eps sps v. tk_modify T 7 1 sps (tk_modify T 2 1 eps (tk_modify T 1 1 1 v)))
      in case x of None \<Rightarrow> v
         | Some par \<Rightarrow> take_bit 8
             ((case par of
                 NoParity \<Rightarrow> tk_modify T 1 1 0 | OddParity \<Rightarrow> set 0 0 | EvenParity \<Rightarrow> set 1 0
               | MarkParity \<Rightarrow> set 0 1 | SpaceParity \<Rightarrow> set 1 1) v))"

definition data_of :: "tock \<Rightarrow> 32 word \<Rightarrow> data_bits" where
  "data_of T v =
     (let wlen = tk_get T 5 2 v in if wlen = 0 then Five else if wlen = 1 then Six else if wlen = 2 then Seven else Eight)"

definition stop_of :: "tock \<Rightarrow> 32 word \<Rightarrow> stop_bits" where
  "stop_of T v = (if tk_get T 3 1 v \<noteq> 0 then TwoStop else OneStop)"

definition lcr_parity_of :: "tock \<Rightarrow> 32 word \<Rightarrow> parity" where
  "lcr_parity_of T v =
     (if tk_get T 1 1 v = 0 then NoParity
      else if tk_get T 7 1 v \<noteq> 0 then (if tk_get T 2 1 v \<noteq> 0 then SpaceParity else MarkParity)
      else (if tk_get T 2 1 v \<noteq> 0 then EvenParity else OddParity))"

lemma get_data_bits: "pl_cfg_law H regs busy \<Longrightarrow> snd (pl011_data_bits T H h) = data_of T (regs h UARTLCR_H)"
  using cfg_read [of H regs busy UARTLCR_H h] by (auto simp: pl011_data_bits_def data_of_def Let_def)

lemma get_stop_bits: "pl_cfg_law H regs busy \<Longrightarrow> snd (pl011_stop_bits T H h) = stop_of T (regs h UARTLCR_H)"
  using cfg_flag [of H regs busy UARTLCR_H T 3 h] by (auto simp: pl011_stop_bits_def stop_of_def)

lemma get_parity:
  assumes "pl_cfg_law H regs busy"
  shows "snd (pl011_parity T H h) = lcr_parity_of T (regs h UARTLCR_H)"
proof -
  have lcr: "UARTLCR_H \<in> pl_cfg" by simp
  obtain h1 where h1: "u_flag T H UARTLCR_H 1 h = (h1, tk_get T 1 1 (regs h UARTLCR_H) \<noteq> 0)" "regs h1 = regs h"
    using cfg_flag [OF assms lcr] by blast
  obtain h2 where h2: "u_flag T H UARTLCR_H 7 h1 = (h2, tk_get T 7 1 (regs h1 UARTLCR_H) \<noteq> 0)" "regs h2 = regs h1"
    using cfg_flag [OF assms lcr] by blast
  obtain h3 where h3: "u_flag T H UARTLCR_H 2 h2 = (h3, tk_get T 2 1 (regs h2 UARTLCR_H) \<noteq> 0)" "regs h3 = regs h2"
    using cfg_flag [OF assms lcr] by blast
  from h1 h2 h3 show ?thesis by (simp add: pl011_parity_def lcr_parity_of_def)
qed

text \<open>The three fields do not disturb each other.\<close>

lemma data_fields:
  assumes "tock_law T"
  shows "data_of T (lcr_data T x v) = (case x of None \<Rightarrow> data_of T v | Some b \<Rightarrow> b)"
    "data_of T (lcr_stop T y v) = data_of T v" "data_of T (lcr_parity T z v) = data_of T v"
    "data_of T (take_bit 8 (tk_modify T 4 1 w v)) = data_of T v"
proof -
  show "data_of T (lcr_data T x v) = (case x of None \<Rightarrow> data_of T v | Some b \<Rightarrow> b)"
  proof (cases x)
    case (Some b)
    then show ?thesis by (cases b) (simp_all add: data_of_def lcr_data_def modify_simps [OF assms] take_bit_Suc)
  qed (simp add: lcr_data_def)
  show "data_of T (lcr_stop T y v) = data_of T v"
    by (simp add: data_of_def lcr_stop_def modify_simps [OF assms] split: option.split)
  show "data_of T (lcr_parity T z v) = data_of T v"
    by (simp add: data_of_def lcr_parity_def modify_simps [OF assms] split: option.split parity.split)
  show "data_of T (take_bit 8 (tk_modify T 4 1 w v)) = data_of T v"
    by (simp add: data_of_def modify_simps [OF assms])
qed

lemma stop_fields:
  assumes "tock_law T"
  shows "stop_of T (lcr_stop T y v) = (case y of None \<Rightarrow> stop_of T v | Some b \<Rightarrow> b)"
    "stop_of T (lcr_parity T z v) = stop_of T v" "stop_of T (lcr_data T x v) = stop_of T v"
    "stop_of T (take_bit 8 (tk_modify T 4 1 w v)) = stop_of T v"
  by (simp_all add: stop_of_def lcr_stop_def lcr_parity_def lcr_data_def modify_simps [OF assms]
        split: option.split parity.split stop_bits.split)

lemma parity_fields:
  assumes "tock_law T"
  shows "lcr_parity_of T (lcr_parity T z v) = (case z of None \<Rightarrow> lcr_parity_of T v | Some b \<Rightarrow> b)"
    "lcr_parity_of T (lcr_stop T y v) = lcr_parity_of T v" "lcr_parity_of T (lcr_data T x v) = lcr_parity_of T v"
    "lcr_parity_of T (take_bit 8 (tk_modify T 4 1 w v)) = lcr_parity_of T v"
  by (simp_all add: lcr_parity_of_def lcr_stop_def lcr_parity_def lcr_data_def modify_simps [OF assms]
        split: option.split parity.split)

lemmas lcr_fields = data_fields stop_fields parity_fields

text \<open>The effect of the configuration steps on the registers.\<close>

lemma set_baudrate_effect:
  assumes "tock_law T" "pl_cfg_law H regs busy" "baud_divisors f b = Ok (i, q)"
  shows "\<exists>h'. set_baudrate_internal T H f b h = (h', Ok ()) \<and>
     regs h' = (regs h)(UARTIBRD := of_nat i, UARTFBRD := of_nat (q mod 64))"
proof -
  have i: "i < 2 ^ 16" using assms(3) by (auto simp: baud_divisors_def result_simps split: if_splits)
  have "tk_val T 0 16 (of_nat i) = (of_nat i :: 32 word)" using i by (simp add: tk_val_law [OF assms(1)] take_bit_small)
  moreover have "tk_val T 0 6 (of_nat q) = (of_nat (q mod 64) :: 32 word)"
    by (simp add: tk_val_law [OF assms(1)] take_bit_of_nat) (simp add: take_bit_eq_mod)
  moreover have "take_bit 16 (of_nat i :: 32 word) = of_nat i" "take_bit 6 (of_nat (q mod 64) :: 32 word) = of_nat (q mod 64)"
    using i by (simp_all add: take_bit_small)
  ultimately show ?thesis using assms(3) by (simp add: set_baudrate_internal_def cfg_write [OF assms(2)] pl_width_def)
qed

lemma config_params_effect:
  assumes "tock_law T" "pl_cfg_law H regs busy" "\<And>b. cf_baudrate c = Some b \<Longrightarrow> baud_divisors f b = Ok (i, q)"
  shows "\<exists>h'. config_params T H f c h = (h', Ok ()) \<and>
     regs h' = (if cf_baudrate c = None then regs h else (regs h)(UARTIBRD := of_nat i, UARTFBRD := of_nat (q mod 64)))
       (UARTLCR_H := lcr_parity T (cf_parity c) (lcr_stop T (cf_stop_bits c) (lcr_data T (cf_data_bits c) (regs h UARTLCR_H))))"
proof -
  obtain h1 where h1: "when_some (cf_baudrate c) (set_baudrate_internal T H f) h = (h1, Ok ())"
    "regs h1 = (if cf_baudrate c = None then regs h else (regs h)(UARTIBRD := of_nat i, UARTFBRD := of_nat (q mod 64)))"
    using assms(3) set_baudrate_effect [OF assms(1,2)] by (cases "cf_baudrate c") (auto simp: when_some_def, metis)
  obtain h2 where h2: "when_some (cf_data_bits c) (set_data_bits_internal T H) h1 = (h2, Ok ())"
    "regs h2 = (regs h1)(UARTLCR_H := lcr_data T (cf_data_bits c) (regs h1 UARTLCR_H))"
    by (cases "cf_data_bits c")
      (auto simp: when_some_def set_data_bits_internal_def lcr_data_def cfg_modify [OF assms(2)] pl_width_def)
  obtain h3 where h3: "when_some (cf_stop_bits c) (set_stop_bits_internal T H) h2 = (h3, Ok ())"
    "regs h3 = (regs h2)(UARTLCR_H := lcr_stop T (cf_stop_bits c) (regs h2 UARTLCR_H))"
    by (cases "cf_stop_bits c")
      (auto simp: when_some_def set_stop_bits_internal_def lcr_stop_def cfg_modify [OF assms(2)] pl_width_def)
  obtain h4 where h4: "when_some (cf_parity c) (set_parity_internal T H) h3 = (h4, Ok ())"
    "regs h4 = (regs h3)(UARTLCR_H := lcr_parity T (cf_parity c) (regs h3 UARTLCR_H))"
    by (cases "cf_parity c")
      (auto simp: when_some_def set_parity_internal_def lcr_parity_def cfg_modify [OF assms(2)] pl_width_def Let_def)
  from h1 h2 h3 h4 show ?thesis by (simp add: config_params_def fun_upd_twist)
qed

text \<open>Clearing the enable bit and setting it again gives back the control register.\<close>

lemma modify_bit0:
  assumes "tock_law T" "take_bit 16 v = v"
  shows "bit (take_bit 16 (tk_modify T 0 1 x v)) n \<longleftrightarrow> (if n = 0 then bit x 0 else bit v n)"
proof -
  have "bit v n \<Longrightarrow> n < 16" by (metis assms(2) bit_take_bit_iff)
  moreover have "n < 16 \<Longrightarrow> n < 32" for n :: nat by simp
  ultimately show ?thesis
    unfolding tk_modify_law [OF assms(1)] field_mask_def bit_take_bit_iff bit_or_iff bit_and_iff bit_not_iff bit_push_bit_iff bit_mask_iff
    by (auto simp only: if_split_asm less_one le0 not_less diff_zero len_num1 split: if_split) auto
qed

lemma modify_restore:
  assumes "tock_law T" "take_bit 16 v = v"
  shows "bit v 0 \<Longrightarrow> take_bit 16 (tk_modify T 0 1 1 (take_bit 16 (tk_modify T 0 1 0 v))) = v"
    "\<not> bit v 0 \<Longrightarrow> take_bit 16 (tk_modify T 0 1 0 v) = v"
proof -
  have idem: "take_bit 16 (take_bit 16 w) = take_bit 16 w" for w :: "32 word" by simp
  show "take_bit 16 (tk_modify T 0 1 1 (take_bit 16 (tk_modify T 0 1 0 v))) = v" if "bit v 0"
    by (rule bit_word_eqI, simp only: modify_bit0 [OF assms(1) idem] modify_bit0 [OF assms]) (use that in simp)
  show "take_bit 16 (tk_modify T 0 1 0 v) = v" if "\<not> bit v 0"
    by (rule bit_word_eqI, simp only: modify_bit0 [OF assms]) (use that in simp)
qed

text \<open>What \<open>set_config\<close> does before it looks at the configuration.\<close>

lemma config_begins:
  assumes "tock_law T" "pl_cfg_law H regs busy" "snd (busy h) = 0"
  obtains h1 h2 where "u_flag T H UARTCR 0 h = (h1, bit (regs h UARTCR) 0)"
    and "wait_idle T H (u_modify H UARTCR (tk_modify T 0 1 0) h1) = Some h2"
    and "regs h2 = (regs h)(UARTCR := take_bit 16 (tk_modify T 0 1 0 (regs h UARTCR)))"
proof -
  obtain h1 where h1: "u_flag T H UARTCR 0 h = (h1, tk_get T 0 1 (regs h UARTCR) \<noteq> 0)" "regs h1 = regs h"
    using cfg_flag [OF assms(2), of UARTCR T 0 h] by auto
  let ?h = "u_modify H UARTCR (tk_modify T 0 1 0) h1"
  have r: "regs ?h = (regs h)(UARTCR := take_bit 16 (tk_modify T 0 1 0 (regs h UARTCR)))"
    using h1(2) by (simp add: cfg_modify [OF assms(2)] pl_width_def)
  have "h1 = fst (u_read H UARTCR h)" using h1(1) by (auto simp: u_flag_def split: prod.splits)
  then have "snd (busy h1) = 0" using cfg_queue(1) [OF assms(2), of UARTCR h] assms(3) by simp
  then have "snd (busy ?h) = 0" using cfg_queue(2) [OF assms(2), of UARTCR "tk_modify T 0 1 0" h1] by simp
  moreover have "\<not> bit (regs ?h UARTCR) 0"
    unfolding r by (auto simp: tk_modify_law [OF assms(1)] field_mask_def bit_simps)
  ultimately obtain h2 where h2: "wait_idle T H ?h = Some h2" "regs h2 = regs ?h"
    using wait_idle_returns [OF assms(1,2)] by blast
  show thesis
  proof (rule that [OF _ h2(1)])
    show "u_flag T H UARTCR 0 h = (h1, bit (regs h UARTCR) 0)" using h1(1) tk_flag_bit [OF assms(1)] by simp
    show "regs h2 = (regs h)(UARTCR := take_bit 16 (tk_modify T 0 1 0 (regs h UARTCR)))" using h2(2) r by simp
  qed
qed

text \<open>The rate that \<open>baudrate\<close> computes from the divisor registers.\<close>

definition pl_rate :: "nat \<Rightarrow> nat \<Rightarrow> nat \<Rightarrow> (unit, nat) result" where
  "pl_rate clock i f =
     (if i * 64 + f = 0 then Ok 0
      else if clock * 64 < 2 ^ 32 then Ok (clock * 64 div (16 * (i * 64 + f)))
      else Panic)"

lemma get_baudrate:
  assumes "tock_law T" "pl_cfg_law H regs busy"
  shows "snd (pl011_baudrate T H p h) = pl_rate (p_clock_freq p) (unat (regs h UARTIBRD)) (unat (regs h UARTFBRD))"
proof -
  obtain h1 where h1: "u_read H UARTIBRD h = (h1, regs h UARTIBRD)" "regs h1 = regs h"
    using cfg_read [OF assms(2), of UARTIBRD h] by auto
  obtain h2 where h2: "u_read H UARTFBRD h1 = (h2, regs h UARTFBRD)"
    using cfg_read [OF assms(2), of UARTFBRD h1] h1(2) by auto
  have "take_bit 16 (regs h UARTIBRD) = regs h UARTIBRD" "take_bit 6 (regs h UARTFBRD) = regs h UARTFBRD"
    using cfg_width [OF assms(2), of UARTIBRD h] cfg_width [OF assms(2), of UARTFBRD h] by (simp_all add: pl_width_def)
  then show ?thesis
    by (simp add: pl011_baudrate_def h1(1) h2 tk_get_law [OF assms(1)] pl_rate_def mul_u32_def div_u32_def Let_def)
qed

section \<open>NS16550\<close>

text \<open>
  The registers of the 16550 that configuration reaches.  \<open>DLAB\<close>, bit 7 of the line control register, selects the divisor
  latches at offsets 0 and 1, which are the receive buffer and the interrupt enable register otherwise; offset 2 is the interrupt identification when read, with both upper bits set exactly while
  the FIFOs are on, and the FIFO control register when written, whose bit 0 turns the FIFOs on.
\<close>

record ns_regs =
  r_lcr :: "8 word"
  r_dll :: "8 word"
  r_dlh :: "8 word"
  r_fifo :: bool
  r_ier :: "8 word"

definition ns_law :: "'h kind_hw \<Rightarrow> ('h \<Rightarrow> ns_regs) \<Rightarrow> bool" where
  "ns_law K regs \<longleftrightarrow>
     (\<forall>h. snd (k_read K UART_LCR h) = r_lcr (regs h) \<and> regs (fst (k_read K UART_LCR h)) = regs h) \<and>
     (\<forall>h v. regs (k_write K UART_LCR v h) = (regs h)\<lparr>r_lcr := v\<rparr>) \<and>
     (\<forall>h v. bit (r_lcr (regs h)) 7 \<longrightarrow> regs (k_write K UART_DLL v h) = (regs h)\<lparr>r_dll := v\<rparr>) \<and>
     (\<forall>h v. bit (r_lcr (regs h)) 7 \<longrightarrow> regs (k_write K UART_DLH v h) = (regs h)\<lparr>r_dlh := v\<rparr>) \<and>
     (\<forall>h. \<not> bit (r_lcr (regs h)) 7 \<longrightarrow> regs (fst (k_read K UART_DLL h)) = regs h \<and> snd (k_read K UART_DLH h) = r_ier (regs h)) \<and>
     (\<forall>h. (has_flag (snd (k_read K UART_IIR h)) 0xC0 \<longleftrightarrow> r_fifo (regs h)) \<and> regs (fst (k_read K UART_IIR h)) = regs h) \<and>
     (\<forall>h v. regs (k_write K UART_FCR v h) = (regs h)\<lparr>r_fifo := bit v 0\<rparr>)"

lemma ns_lcr:
  assumes "ns_law K regs"
  shows "\<exists>h'. k_read K UART_LCR h = (h', r_lcr (regs h)) \<and> regs h' = regs h"
    "regs (k_write K UART_LCR v h) = (regs h)\<lparr>r_lcr := v\<rparr>"
    "regs (k_modify K UART_LCR f h) = (regs h)\<lparr>r_lcr := f (r_lcr (regs h))\<rparr>"
proof -
  show rd: "\<exists>h'. k_read K UART_LCR h = (h', r_lcr (regs h)) \<and> regs h' = regs h"
    using assms unfolding ns_law_def by (metis prod.collapse)
  have wr: "regs (k_write K UART_LCR v h) = (regs h)\<lparr>r_lcr := v\<rparr>" for v h using assms by (simp add: ns_law_def)
  then show "regs (k_write K UART_LCR v h) = (regs h)\<lparr>r_lcr := v\<rparr>" .
  from rd show "regs (k_modify K UART_LCR f h) = (regs h)\<lparr>r_lcr := f (r_lcr (regs h))\<rparr>"
    by (auto simp: k_modify_def wr)
qed

text \<open>With \<open>DLAB\<close> clear, \<open>baudrate\<close> takes the receive buffer and the interrupt enable register for a divisor.\<close>

lemma ns_get_baudrate:
  assumes "ns_law K regs" "\<not> bit (r_lcr (regs h)) 7"
  shows "snd (ns_baudrate K n h) =
     (let d = unat (snd (k_read K UART_DLL h)) + 256 * unat (r_ier (regs h)) in if d = 0 then 0 else n_clock_freq n div (16 * d))"
proof -
  obtain h1 v where h1: "k_read K UART_DLL h = (h1, v)" by fastforce
  have "regs h1 = regs h" using assms h1 unfolding ns_law_def by (metis fst_conv)
  then have "snd (k_read K UART_DLH h1) = r_ier (regs h)" using assms unfolding ns_law_def by metis
  then obtain h2 where "k_read K UART_DLH h1 = (h2, r_ier (regs h))" by (metis prod.collapse)
  then show ?thesis using h1 by (simp add: ns_baudrate_def Let_def)
qed

lemma ns_baudrate_effect:
  assumes "ns_law K regs" "0 < b" "16 * b < 2 ^ 32" "d = n_clock_freq n div (16 * b)" "0 < d" "d \<le> 0xFFFF"
  shows "\<exists>h'. ns_set_baudrate K n b h = (h', Ok ()) \<and>
     regs h' = (regs h)\<lparr>r_dll := of_nat (d mod 256), r_dlh := of_nat (d div 256), r_lcr := r_lcr (regs h) AND NOT 0x80\<rparr>"
proof -
  obtain h1 where h1: "k_read K UART_LCR h = (h1, r_lcr (regs h))" "regs h1 = regs h" using ns_lcr(1) [OF assms(1)] by blast
  define h2 where "h2 = k_write K UART_LCR (r_lcr (regs h) OR 0x80) h1"
  define h3 where "h3 = k_write K UART_DLL (of_nat (d mod 256)) h2"
  define h4 where "h4 = k_write K UART_DLH (of_nat (d div 256)) h3"
  have seven: "bit (x OR 0x80 :: 8 word) 7" for x by (simp add: bit_or_iff)
  have r2: "regs h2 = (regs h)\<lparr>r_lcr := r_lcr (regs h) OR 0x80\<rparr>" using h1(2) by (simp add: h2_def ns_lcr(2) [OF assms(1)])
  have r3: "regs h3 = (regs h2)\<lparr>r_dll := of_nat (d mod 256)\<rparr>"
    using assms(1) r2 seven unfolding ns_law_def h3_def by (metis ns_regs.select_convs(1) ns_regs.surjective ns_regs.update_convs(1))
  have r4: "regs h4 = (regs h3)\<lparr>r_dlh := of_nat (d div 256)\<rparr>"
    using assms(1) r2 r3 seven unfolding ns_law_def h4_def by simp
  have off: "(x OR 0x80) AND NOT 0x80 = x AND NOT (0x80 :: 8 word)" for x by (simp only: bit.conj_disj_distrib2 bit.conj_cancel_right bit.disj_zero_right)
  have "d div 256 mod 256 = d div 256" using assms(6) by simp
  moreover have "n_clock_freq n \<noteq> 0" using assms(4,5) by (auto intro: gr0I)
  ultimately have "ns_set_baudrate K n b h = (k_write K UART_LCR ((r_lcr (regs h) OR 0x80) AND NOT 0x80) h4, Ok ())"
    using assms(2-6) h1(1) by (simp add: ns_set_baudrate_def mul_u32_def h2_def h3_def h4_def Let_def)
  then show ?thesis using r2 r3 r4 by (simp only: off) (simp add: ns_lcr(2) [OF assms(1)])
qed

end
