(* ===== verification/Serial_Properties.thy ===== *)
theory Serial_Properties
  imports Serial_Config
begin

unbundle bit_operations_syntax

text \<open>
  Properties of the serial drivers: what arrives is delivered in order, and what is configured can be read back.
\<close>

section \<open>A PL011\<close>

text \<open>
  Registers, the receive FIFO, and the polls until the character in the shift register is sent with the number of characters
  in the transmit FIFO.
\<close>

record demo_uart =
  du_regs :: "nat \<Rightarrow> 32 word"
  du_rx :: "32 word list"
  du_busy :: "nat \<times> nat"

definition demo_view :: "demo_uart \<Rightarrow> nat \<Rightarrow> 32 word" where
  "demo_view h r = take_bit (pl_width r) (du_regs h r)"

definition demo_pl011 :: "demo_uart uart_hw" where
  "demo_pl011 =
     \<lparr>u_read = (\<lambda>r h.
        if r = UARTFR then
          (h\<lparr>du_busy := (fst (du_busy h) - 1, snd (du_busy h))\<rparr>,
           (if du_rx h = [] then push_bit 4 1 else 0) OR (if du_busy h = (0, 0) then 0 else push_bit 3 1))
        else if r = UARTDR then (case du_rx h of [] \<Rightarrow> (h, 0) | v # vs \<Rightarrow> (h\<lparr>du_rx := vs\<rparr>, v))
        else (h, demo_view h r)),
      u_write = (\<lambda>r v h.
        if r = UARTICR then h\<lparr>du_regs := (du_regs h)(UARTMIS := du_regs h UARTMIS AND NOT v)\<rparr>
        else h\<lparr>du_regs := (du_regs h)(r := v)\<rparr>)\<rparr>"

lemma demo_pl011_laws: "pl_rx_law T demo_pl011 du_rx" "pl_cfg_law demo_pl011 demo_view du_busy"
proof -
  show "pl_rx_law T demo_pl011 du_rx"
    by (auto simp: pl_rx_law_def demo_pl011_def bit_or_iff bit_single split: list.splits if_splits)
  show "pl_cfg_law demo_pl011 demo_view du_busy"
    by (auto simp: pl_cfg_law_def pl_cfg_def demo_pl011_def demo_view_def bit_or_iff bit_single pl_width_def fun_eq_iff)
qed

interpretation demo_receiver: receiver "pl011_read_byte plain_tock demo_pl011" "rx_items plain_tock du_rx"
  by (rule pl011_receiver [OF plain_tock_law demo_pl011_laws(1)])

section \<open>Receiving\<close>

text \<open>
  \<^bold>\<open>C37.\<close> Bytes are delivered in the order in which they arrive.  In every run in which items arrive at a PL011, the
  interrupt handler moves them to the buffer and the receiver is read, the delivered items, the buffer and the
  FIFO of the hardware together are a subsequence of what arrived; the items that are missing are those that the handler
  found when 64 items were waiting in the buffer, and when there were none of them nothing is missing.  The handler returns in every such
  state.
\<close>

theorem serial_receive_order:
  assumes "tock_law T" "pl_rx_law T H rx" "rx h0 = []"
    and "(serial_step (pl011_port T H) (rx_items T rx))\<^sup>*\<^sup>* (([], h0), [], [], 0) ((fifo, h), arrived, delivered, lost)"
  shows "length fifo \<le> 64 \<and> subseq (delivered @ fifo @ rx_items T rx h) arrived \<and>
     length arrived = length (delivered @ fifo @ rx_items T rx h) + lost \<and>
     (lost = 0 \<longrightarrow> delivered @ fifo @ rx_items T rx h = arrived) \<and>
     (\<exists>r. irq_clean (pl011_port T H) (fifo, h) = Some r)"
proof -
  have rcv: "receiver (sp_read_byte (pl011_port T H)) (rx_items T rx)"
    using pl011_receiver [OF assms(1,2)] by (simp add: pl011_port_def)
  note keep = pl011_clean_keeps [OF assms(2)]
  have "serial_inv (rx_items T rx) ((fifo, h), arrived, delivered, lost)"
    by (rule serial_steps_inv [OF rcv keep assms(4)]) (simp add: serial_inv_def rx_items_def assms(3))
  then have inv: "length fifo \<le> 64" "subseq (delivered @ fifo @ rx_items T rx h) arrived"
    "length arrived = length (delivered @ fifo @ rx_items T rx h) + lost" by (simp_all add: serial_inv_def)
  moreover have "lost = 0 \<longrightarrow> delivered @ fifo @ rx_items T rx h = arrived"
    using inv(2,3) subseq_same_length by (metis add_cancel_right_right)
  ultimately show ?thesis using irq_clean_effect [OF rcv keep, of fifo h] by blast
qed

text \<open>One byte arrives, the interrupt moves it to the buffer, and it is read.\<close>

definition demo_uart_state :: "32 word list \<Rightarrow> demo_uart" where
  "demo_uart_state items = \<lparr>du_regs = (\<lambda>_. 0)(UARTMIS := 0x10), du_rx = items, du_busy = (0, 0)\<rparr>"

lemma demo_item: "dr_item plain_tock 0x41 = Inr 0x41"
  by (simp add: dr_item_def tk_get_law [OF plain_tock_law] drop_bit_eq_div take_bit_eq_mod)

lemma demo_irq:
  "\<exists>h'. irq_clean (pl011_port plain_tock demo_pl011) ([], demo_uart_state [0x41]) =
     Some (([Inr 0x41], h'), \<lparr>rx_available = True, tx_empty = False\<rparr>) \<and> du_rx h' = []"
proof -
  have "tk_get plain_tock 4 1 0x10 = 1" "tk_get plain_tock 5 1 0x10 = 0"
    by (simp_all add: tk_get_law [OF plain_tock_law] drop_bit_eq_div take_bit_eq_mod)
  then obtain h1 where h1: "sp_clean (pl011_port plain_tock demo_pl011) (demo_uart_state [0x41]) =
      (h1, \<lparr>rx_available = True, tx_empty = False\<rparr>)" "du_rx h1 = [0x41]"
    by (simp add: pl011_port_def pl011_clean_def irq_mask_of_def demo_pl011_def demo_uart_state_def demo_view_def pl_width_def take_bit_eq_mod)
  obtain h2 where h2: "drain_port (pl011_port plain_tock demo_pl011) ([], h1) =
      Some (take 64 (rx_items plain_tock du_rx h1), h2)" "rx_items plain_tock du_rx h2 = []"
    using demo_receiver.drain_all [of "pl011_port plain_tock demo_pl011" "[]" h1] by (auto simp: pl011_port_def)
  then show ?thesis using h1 by (simp add: irq_clean_def rx_items_def demo_item)
qed

theorem serial_receive_order_witness:
  "\<exists>h. (serial_step (pl011_port plain_tock demo_pl011) (rx_items plain_tock du_rx))\<^sup>*\<^sup>*
       (([], demo_uart_state []), [], [], 0) (([], h), [Inr 0x41], [Inr 0x41], 0) \<and>
     [Inr 0x41] @ [] @ rx_items plain_tock du_rx h = [Inr 0x41]"
proof -
  let ?P = "pl011_port plain_tock demo_pl011"
  let ?R = "serial_step ?P (rx_items plain_tock du_rx)"
  obtain h where h: "irq_clean ?P ([], demo_uart_state [0x41]) = Some (([Inr 0x41], h), \<lparr>rx_available = True, tx_empty = False\<rparr>)"
      "du_rx h = []"
    using demo_irq by blast
  have "?R (([], demo_uart_state []), [], [], 0) (([], demo_uart_state [0x41]), [Inr 0x41], [], 0)"
    using serial_step.Arrive [of "rx_items plain_tock du_rx" "demo_uart_state [0x41]" "demo_uart_state []" "Inr 0x41" ?P "[]" "[]" "[]" 0]
    by (simp add: rx_items_def demo_uart_state_def demo_item)
  moreover have "?R (([], demo_uart_state [0x41]), [Inr 0x41], [], 0) (([Inr 0x41], h), [Inr 0x41], [], 0)"
    using serial_step.Irq [OF h(1), of "rx_items plain_tock du_rx" "[Inr 0x41]" "[]" 0] by (simp add: rx_items_def demo_uart_state_def)
  moreover have "?R (([Inr 0x41], h), [Inr 0x41], [], 0) (([], h), [Inr 0x41], [Inr 0x41], 0)"
    using serial_step.Read [of ?P "([Inr 0x41], h)" "([], h)" "Some (Inr 0x41)" "rx_items plain_tock du_rx" "[Inr 0x41]" "[]" 0]
    by (simp add: rx_read_byte_def fifo_pop_def)
  ultimately have run: "?R\<^sup>*\<^sup>* (([], demo_uart_state []), [], [], 0) (([], h), [Inr 0x41], [Inr 0x41], 0)"
    by (meson converse_rtranclp_into_rtranclp rtranclp.rtrancl_refl)
  from serial_receive_order [OF plain_tock_law demo_pl011_laws(1) _ run] have "[Inr 0x41] @ [] @ rx_items plain_tock du_rx h = [Inr 0x41]"
    by (simp add: demo_uart_state_def)
  with run show ?thesis by blast
qed

section \<open>Configuration of the PL011\<close>

text \<open>
  \<^bold>\<open>C38.\<close> \<open>set_config\<close> of a UART whose transmit FIFO is empty, with a baud rate that can be set or none, returns.  It leaves the
  UART enabled if and only if it was, with its FIFOs on, and data bits, stop bits and parity read as configured or, where
  nothing was configured, as before.  The divisor registers hold the divisor computed for the baud rate, and \<open>baudrate\<close> then
  returns the clock divided by sixteen times that divisor, which need not be the rate that was asked for; it panics when the
  clock in units of 1/64 has more than 32 bits.
\<close>

theorem pl011_config_roundtrip:
  assumes "tock_law T" "pl_cfg_law H regs busy" "snd (busy h) = 0"
    and "\<And>b. cf_baudrate c = Some b \<Longrightarrow> baud_divisors (p_clock_freq p) b = Ok (i, q)"
  shows "\<exists>h'. pl011_set_config T H p c h = Some (h', Ok ()) \<and>
     regs h' UARTCR = regs h UARTCR \<and> bit (regs h' UARTLCR_H) 4 \<and>
     snd (pl011_data_bits T H h') = (case cf_data_bits c of None \<Rightarrow> snd (pl011_data_bits T H h) | Some b \<Rightarrow> b) \<and>
     snd (pl011_stop_bits T H h') = (case cf_stop_bits c of None \<Rightarrow> snd (pl011_stop_bits T H h) | Some b \<Rightarrow> b) \<and>
     snd (pl011_parity T H h') = (case cf_parity c of None \<Rightarrow> snd (pl011_parity T H h) | Some b \<Rightarrow> b) \<and>
     regs h' UARTIBRD = (if cf_baudrate c = None then regs h UARTIBRD else of_nat i) \<and>
     regs h' UARTFBRD = (if cf_baudrate c = None then regs h UARTFBRD else of_nat (q mod 64)) \<and>
     snd (pl011_baudrate T H p h') =
       (if cf_baudrate c = None then snd (pl011_baudrate T H p h) else pl_rate (p_clock_freq p) i (q mod 64))"
proof -
  obtain h1 h2 where start: "u_flag T H UARTCR 0 h = (h1, bit (regs h UARTCR) 0)"
      "wait_idle T H (u_modify H UARTCR (tk_modify T 0 1 0) h1) = Some h2"
      "regs h2 = (regs h)(UARTCR := take_bit 16 (tk_modify T 0 1 0 (regs h UARTCR)))"
    by (rule config_begins [OF assms(1-3)])
  obtain h3 where h3: "config_params T H (p_clock_freq p) c (u_modify H UARTLCR_H (tk_modify T 4 1 0) h2) = (h3, Ok ())"
    "regs h3 = (let r = regs (u_modify H UARTLCR_H (tk_modify T 4 1 0) h2) in
       (if cf_baudrate c = None then r else r(UARTIBRD := of_nat i, UARTFBRD := of_nat (q mod 64)))
       (UARTLCR_H := lcr_parity T (cf_parity c) (lcr_stop T (cf_stop_bits c) (lcr_data T (cf_data_bits c) (r UARTLCR_H)))))"
    using config_params_effect [OF assms(1,2,4)] unfolding Let_def by blast
  define h4 where "h4 = u_modify H UARTLCR_H (tk_modify T 4 1 1) h3"
  define h5 where "h5 = (if bit (regs h UARTCR) 0 then u_modify H UARTCR (tk_modify T 0 1 1) h4 else h4)"
  have run: "pl011_set_config T H p c h = Some (h5, Ok ())"
    using start(1,2) h3(1) by (simp add: pl011_set_config_def h4_def h5_def Let_def)
  note mods = cfg_modify [OF assms(2)] pl_width_def
  have cr: "take_bit 16 (regs h UARTCR) = regs h UARTCR" using cfg_width [OF assms(2), of UARTCR h] by (simp add: pl_width_def)
  have "regs h5 UARTCR = regs h UARTCR"
    using modify_restore [OF assms(1) cr] by (simp add: h5_def h4_def mods h3(2) start(3) Let_def)
  moreover have lcr: "regs h5 UARTLCR_H = take_bit 8 (tk_modify T 4 1 1
      (lcr_parity T (cf_parity c) (lcr_stop T (cf_stop_bits c) (lcr_data T (cf_data_bits c)
        (take_bit 8 (tk_modify T 4 1 0 (regs h UARTLCR_H)))))))"
    by (simp add: h5_def h4_def mods h3(2) start(3) Let_def)
  moreover have "bit (take_bit 8 (tk_modify T 4 1 1 v)) 4" for v
    by (simp add: tk_modify_law [OF assms(1)] bit_simps)
  moreover have div: "regs h5 UARTIBRD = (if cf_baudrate c = None then regs h UARTIBRD else of_nat i)"
    "regs h5 UARTFBRD = (if cf_baudrate c = None then regs h UARTFBRD else of_nat (q mod 64))"
    by (simp_all add: h5_def h4_def mods h3(2) start(3) Let_def)
  moreover have "unat (of_nat i :: 32 word) = i" if "cf_baudrate c \<noteq> None"
  proof -
    have "i < 2 ^ 16" using assms(4) that by (auto simp: baud_divisors_def result_simps split: if_splits)
    then show ?thesis by (simp add: unat_of_nat)
  qed
  then have "snd (pl011_baudrate T H p h5) =
      (if cf_baudrate c = None then snd (pl011_baudrate T H p h) else pl_rate (p_clock_freq p) i (q mod 64))"
    by (simp add: get_baudrate [OF assms(1,2)] div unat_of_nat)
  moreover have "snd (pl011_data_bits T H h5) = (case cf_data_bits c of None \<Rightarrow> snd (pl011_data_bits T H h) | Some b \<Rightarrow> b)"
    "snd (pl011_stop_bits T H h5) = (case cf_stop_bits c of None \<Rightarrow> snd (pl011_stop_bits T H h) | Some b \<Rightarrow> b)"
    "snd (pl011_parity T H h5) = (case cf_parity c of None \<Rightarrow> snd (pl011_parity T H h) | Some b \<Rightarrow> b)"
    by (simp_all only: get_data_bits [OF assms(2)] get_stop_bits [OF assms(2)] get_parity [OF assms(2)] lcr lcr_fields [OF assms(1)])
  ultimately show ?thesis using run by auto
qed

theorem pl011_config_roundtrip_witness:
  "\<exists>h'. pl011_set_config plain_tock demo_pl011 (pl011_new 0x9000000 24000000)
        \<lparr>cf_baudrate = Some 115200, cf_data_bits = Some Eight, cf_stop_bits = None, cf_parity = Some EvenParity\<rparr>
        \<lparr>du_regs = (\<lambda>_. 0), du_rx = [], du_busy = (2, 0)\<rparr> = Some (h', Ok ()) \<and>
     snd (pl011_data_bits plain_tock demo_pl011 h') = Eight \<and> snd (pl011_parity plain_tock demo_pl011 h') = EvenParity \<and>
     demo_view h' UARTIBRD = 13 \<and> demo_view h' UARTFBRD = 1 \<and>
     snd (pl011_baudrate plain_tock demo_pl011 (pl011_new 0x9000000 24000000) h') = Ok 115246"
proof -
  have "baud_divisors 24000000 115200 = Ok (13, 1)" by (simp add: baud_divisors_def mul_u32_def plus_u32_def div_u32_def)
  then show ?thesis
    using pl011_config_roundtrip [OF plain_tock_law demo_pl011_laws(2),
        of "\<lparr>du_regs = (\<lambda>_. 0), du_rx = [], du_busy = (2, 0)\<rparr>"
          "\<lparr>cf_baudrate = Some 115200, cf_data_bits = Some Eight, cf_stop_bits = None, cf_parity = Some EvenParity\<rparr>"
          "pl011_new 0x9000000 24000000" 13 1]
    by (auto simp: pl011_new_def pl_rate_def)
qed

text \<open>
  Characters that are still queued when the UART is disabled keep it busy: \<open>set_config\<close> then waits for ever.
\<close>

theorem pl011_config_stuck:
  assumes "tock_law T" "pl_cfg_law H regs busy"
    and "snd (busy (u_modify H UARTCR (tk_modify T 0 1 0) (fst (u_flag T H UARTCR 0 h)))) \<noteq> 0"
  shows "pl011_set_config T H p c h = None"
proof -
  obtain h1 b where h1: "u_flag T H UARTCR 0 h = (h1, b)" by fastforce
  let ?h = "u_modify H UARTCR (tk_modify T 0 1 0) h1"
  have "\<not> bit (regs ?h UARTCR) 0"
    unfolding cfg_modify [OF assms(2) pl_cfg_registers(4)]
    by (auto simp: tk_modify_law [OF assms(1)] field_mask_def bit_simps)
  then have "wait_idle T H ?h = None" using wait_idle_Some [OF assms(1,2), of ?h] assms(3) h1 by (cases "wait_idle T H ?h") auto
  then show ?thesis by (simp add: pl011_set_config_def h1)
qed

theorem pl011_config_stuck_witness:
  "pl011_set_config plain_tock demo_pl011 (pl011_new 0x9000000 24000000) config_new
     \<lparr>du_regs = (\<lambda>_. 1), du_rx = [], du_busy = (0, 3)\<rparr> = None"
  by (rule pl011_config_stuck [OF plain_tock_law demo_pl011_laws(2)])
     (simp add: u_modify_def u_flag_def demo_pl011_def)

text \<open>
  A baud rate that cannot be set is an error, but one that leaves the UART disabled and its FIFOs off: the function
  returns before the steps that restore them.
\<close>

theorem pl011_invalid_baudrate:
  assumes "tock_law T" "pl_cfg_law H regs busy" "snd (busy h) = 0" "cf_baudrate c = Some b" "baud_divisors (p_clock_freq p) b = Err e"
  shows "\<exists>h'. pl011_set_config T H p c h = Some (h', Err InvalidBaudrate) \<and>
     \<not> bit (regs h' UARTCR) 0 \<and> \<not> bit (regs h' UARTLCR_H) 4"
proof -
  obtain h1 h2 where start: "u_flag T H UARTCR 0 h = (h1, bit (regs h UARTCR) 0)"
      "wait_idle T H (u_modify H UARTCR (tk_modify T 0 1 0) h1) = Some h2"
      "regs h2 = (regs h)(UARTCR := take_bit 16 (tk_modify T 0 1 0 (regs h UARTCR)))"
    by (rule config_begins [OF assms(1-3)])
  have e: "e = InvalidBaudrate"
    using assms(5) by (auto simp: baud_divisors_def mul_u32_def plus_u32_def div_u32_def split: if_splits)
  have "\<not> bit (take_bit n (tk_modify T k 1 0 v)) k" for n k v
    by (auto simp: tk_modify_law [OF assms(1)] field_mask_def bit_simps)
  then show ?thesis
    using start assms(4,5) e
    by (simp add: pl011_set_config_def config_params_def when_some_def set_baudrate_internal_def cfg_modify [OF assms(2)] pl_width_def)
qed

theorem pl011_invalid_baudrate_witness:
  "\<exists>h'. pl011_set_config plain_tock demo_pl011 (pl011_new 0x9000000 24000000) (config_baudrate 2000000 config_new)
        \<lparr>du_regs = (\<lambda>_. 0x11), du_rx = [], du_busy = (0, 0)\<rparr> = Some (h', Err InvalidBaudrate) \<and>
     \<not> bit (demo_view h' UARTCR) 0"
  using pl011_invalid_baudrate [OF plain_tock_law demo_pl011_laws(2), of
      "\<lparr>du_regs = (\<lambda>_. 0x11), du_rx = [], du_busy = (0, 0)\<rparr>" "config_baudrate 2000000 config_new" 2000000
      "pl011_new 0x9000000 24000000" InvalidBaudrate]
  by (auto simp: pl011_new_def config_baudrate_def baud_divisors_def mul_u32_def plus_u32_def div_u32_def)

section \<open>The divisor of the PL011\<close>

lemma divisor_rounds:
  assumes "baud_divisors clock b = Ok (i, q)"
  shows "0 < b" "i = clock div (16 * b)" "i \<le> 0xFFFF" "q * (16 * b) \<le> clock mod (16 * b) * 64 + 8 * b"
    "clock mod (16 * b) * 64 + 8 * b < (q + 1) * (16 * b)" "q \<le> 64"
proof -
  from assms have b: "0 < b" and i: "i = clock div (16 * b)" "i \<le> 0xFFFF" and
    q: "q = (clock mod (16 * b) * 64 + 16 * b div 2) div (16 * b)"
    by (auto simp: baud_divisors_def mul_u32_def plus_u32_def div_u32_def result_simps split: if_splits)
  then show "0 < b" "i = clock div (16 * b)" "i \<le> 0xFFFF" by simp_all
  from q have q: "q = (clock mod (16 * b) * 64 + 8 * b) div (16 * b)" by simp
  show "q * (16 * b) \<le> clock mod (16 * b) * 64 + 8 * b" unfolding q by simp
  show "clock mod (16 * b) * 64 + 8 * b < (q + 1) * (16 * b)"
    unfolding q using dividend_less_div_times [of "16 * b" "clock mod (16 * b) * 64 + 8 * b"] b by simp
  have "clock mod (16 * b) < 16 * b" using b by simp
  then have "clock mod (16 * b) * 64 + 8 * b < 65 * (16 * b)" by linarith
  then have "q < 65" unfolding q using b by (simp add: div_less_iff_less_mult)
  then show "q \<le> 64" by simp
qed

text \<open>
  \<^bold>\<open>C39.\<close> The divisor that is programmed, in units of 1/64, is the one nearest to the exact quotient of the clock and
  sixteen times the baud rate, unless the fraction rounds up to 64.  Then the register keeps zero, without a carry into
  the integer part, although the remainder is at least 127/128 of the whole: the divisor is almost one whole too small.
\<close>

theorem pl011_divisor_nearest:
  assumes "tock_law T" "pl_cfg_law H regs busy" "baud_divisors clock b = Ok (i, q)"
  shows "\<exists>h'. set_baudrate_internal T H clock b h = (h', Ok ()) \<and> q \<le> 64 \<and>
     (let d = 64 * uint (regs h' UARTIBRD) + uint (regs h' UARTFBRD)
      in if q < 64 then \<bar>64 * int clock - d * (16 * int b)\<bar> \<le> 8 * int b
         else d = 64 * int (clock div (16 * b)) \<and> 127 * (16 * b) \<le> 128 * (clock mod (16 * b)))"
proof -
  note r = divisor_rounds [OF assms(3)]
  obtain h' where h': "set_baudrate_internal T H clock b h = (h', Ok ())"
      "regs h' UARTIBRD = of_nat i" "regs h' UARTFBRD = of_nat (q mod 64)"
    using set_baudrate_effect [OF assms, of h] by auto
  have u: "uint (of_nat i :: 32 word) = int i" "uint (of_nat (q mod 64) :: 32 word) = int (q mod 64)"
    using r(3) by (simp_all add: uint_nat unat_of_nat)
  have split: "int clock = int i * (16 * int b) + int (clock mod (16 * b))"
    using arg_cong [OF div_mult_mod_eq [of clock "16 * b"], of int] by (simp add: r(2) algebra_simps)
  have lo: "int q * (16 * int b) \<le> int (clock mod (16 * b)) * 64 + 8 * int b"
    using r(4) [THEN of_nat_mono] by (simp only: of_nat_mult of_nat_add of_nat_numeral)
  have hi: "int (clock mod (16 * b)) * 64 + 8 * int b < (int q + 1) * (16 * int b)"
    using r(5) [THEN of_nat_less_iff [THEN iffD2]] by (simp only: of_nat_mult of_nat_add of_nat_numeral of_nat_1)
  show ?thesis
  proof (cases "q < 64")
    case True
    have "64 * int clock - (64 * int i + int q) * (16 * int b) = 64 * int (clock mod (16 * b)) - int q * (16 * int b)"
      using split by (simp add: algebra_simps)
    then have "\<bar>64 * int clock - (64 * int i + int q) * (16 * int b)\<bar> \<le> 8 * int b"
      using lo hi by (simp add: algebra_simps abs_le_iff)
    then show ?thesis using h' u True by (auto simp: Let_def)
  next
    case False
    then have "q = 64" using r(6) by simp
    then show ?thesis using h' u r(2,4) by (auto simp: Let_def)
  qed
qed

text \<open>The second case: 9600 baud from a clock of 307199 Hz, where the exact quotient is almost 2.\<close>

theorem pl011_divisor_nearest_witness:
  "(\<exists>h'. set_baudrate_internal plain_tock demo_pl011 24000000 115200 (demo_uart_state []) = (h', Ok ()) \<and>
      \<bar>64 * 24000000 - (64 * uint (demo_view h' UARTIBRD) + uint (demo_view h' UARTFBRD)) * (16 * 115200)\<bar> \<le> 8 * 115200) \<and>
   (\<exists>h'. set_baudrate_internal plain_tock demo_pl011 307199 9600 (demo_uart_state []) = (h', Ok ()) \<and>
      64 * uint (demo_view h' UARTIBRD) + uint (demo_view h' UARTFBRD) = 64)"
proof -
  have "baud_divisors 24000000 115200 = Ok (13, 1)" "baud_divisors 307199 9600 = Ok (1, 64)"
    by (simp_all add: baud_divisors_def mul_u32_def plus_u32_def div_u32_def)
  from this [THEN pl011_divisor_nearest [OF plain_tock_law demo_pl011_laws(2)], of "demo_uart_state []"] show ?thesis
    by (simp add: Let_def)
qed

section \<open>The NS16550\<close>

text \<open>The fields of the line control register by their bits.\<close>

lemma has_flag_bit: "has_flag v (2 ^ n) \<longleftrightarrow> bit v n" if "n < 8"
proof
  assume "has_flag v (2 ^ n)"
  then have "bit (v AND 2 ^ n) n" using that by (simp only: has_flag_def) (simp add: bit_exp_iff)
  then show "bit v n" by (simp add: bit_and_iff)
next
  assume "bit v n"
  then show "has_flag v (2 ^ n)" unfolding has_flag_def by (intro bit_word_eqI) (auto simp: bit_and_iff bit_exp_iff)
qed

lemmas lcr_flags = has_flag_bit [of 2, simplified] has_flag_bit [of 3, simplified] has_flag_bit [of 4, simplified] has_flag_bit [of 5, simplified]

lemma word_length_cases:
  "(v :: 8 word) AND 3 = 0 \<longleftrightarrow> \<not> bit v 0 \<and> \<not> bit v 1" "v AND 3 = 1 \<longleftrightarrow> bit v 0 \<and> \<not> bit v 1"
  "v AND 3 = 2 \<longleftrightarrow> \<not> bit v 0 \<and> bit v 1"
proof -
  have "mask 2 = (3 :: 8 word)" by (simp add: mask_eq_exp_minus_1)
  then have "v AND 3 = take_bit (Suc (Suc 0)) v" by (simp add: take_bit_eq_mask numeral_2_eq_2)
  also have "\<dots> = of_bool (bit v 0) + 2 * of_bool (bit v 1)" by (simp add: take_bit_Suc bit_Suc bit_0 mod_2_eq_odd)
  finally have "v AND 3 = of_bool (bit v 0) + 2 * of_bool (bit v 1)" .
  then show "v AND 3 = 0 \<longleftrightarrow> \<not> bit v 0 \<and> \<not> bit v 1" "v AND 3 = 1 \<longleftrightarrow> bit v 0 \<and> \<not> bit v 1" "v AND 3 = 2 \<longleftrightarrow> \<not> bit v 0 \<and> bit v 1"
    by (cases "bit v 0"; cases "bit v 1"; simp)+
qed

text \<open>The line control register as the four setters leave it.\<close>

definition ns_lcr_after :: "serial_config \<Rightarrow> 8 word \<Rightarrow> 8 word" where
  "ns_lcr_after c v =
     (let v = (if cf_baudrate c = None then v else v AND NOT 0x80);
          v = (case cf_data_bits c of None \<Rightarrow> v | Some b \<Rightarrow> (v AND NOT 3) OR word_length b);
          v = (case cf_stop_bits c of None \<Rightarrow> v | Some OneStop \<Rightarrow> v AND NOT 4 | Some TwoStop \<Rightarrow> v OR 4)
      in case cf_parity c of None \<Rightarrow> v | Some p \<Rightarrow> (v AND NOT 0x38) OR parity_flags p)"

definition ns_data_of :: "8 word \<Rightarrow> data_bits" where
  "ns_data_of v = (if v AND 3 = 0 then Five else if v AND 3 = 1 then Six else if v AND 3 = 2 then Seven else Eight)"

lemma ns_getters:
  assumes "ns_law K regs"
  shows "snd (ns_data_bits K h) = ns_data_of (r_lcr (regs h))"
    "snd (ns_stop_bits K h) = (if has_flag (r_lcr (regs h)) 4 then TwoStop else OneStop)"
    "snd (ns_parity K h) = parity_of (r_lcr (regs h))"
  using ns_lcr(1) [OF assms, of h] by (auto simp: ns_data_bits_def ns_stop_bits_def ns_parity_def ns_data_of_def Let_def)

lemma ns_lcr_data: "ns_data_of (ns_lcr_after c v) = (case cf_data_bits c of None \<Rightarrow> ns_data_of v | Some b \<Rightarrow> b)"
proof -
  have keep: "ns_data_of ((w AND NOT 0x38) OR parity_flags p) = ns_data_of w" "ns_data_of (w AND NOT 4) = ns_data_of w"
      "ns_data_of (w OR 4) = ns_data_of w" "ns_data_of (w AND NOT 0x80) = ns_data_of w" for w p
    by (cases p; simp add: ns_data_of_def word_length_cases bit_or_iff bit_and_iff)
      (simp_all add: ns_data_of_def word_length_cases bit_or_iff bit_and_iff)
  have put: "ns_data_of ((w AND NOT 3) OR word_length b) = b" for w b
    by (cases b) (simp_all add: ns_data_of_def word_length_cases bit_or_iff bit_and_iff)
  show ?thesis
    unfolding ns_lcr_after_def Let_def
    by (cases "cf_parity c"; cases "cf_stop_bits c"; cases "cf_data_bits c") (auto simp only: keep put option.case split: stop_bits.split if_split)
qed

lemma ns_lcr_stop: "has_flag (ns_lcr_after c v) 4 \<longleftrightarrow> (case cf_stop_bits c of None \<Rightarrow> has_flag v 4 | Some b \<Rightarrow> b = TwoStop)"
proof -
  have keep: "has_flag ((w AND NOT 0x38) OR parity_flags p) 4 = has_flag w 4" "has_flag ((w AND NOT 3) OR word_length b) 4 = has_flag w 4"
      "has_flag (w AND NOT 0x80) 4 = has_flag w 4" for w p b
    by (cases p; simp add: lcr_flags bit_or_iff bit_and_iff)
      ((cases b; simp add: lcr_flags bit_or_iff bit_and_iff), (simp add: lcr_flags bit_and_iff))
  have put: "\<not> has_flag (w AND NOT 4) 4" "has_flag (w OR 4) 4" for w
    by (simp_all add: lcr_flags bit_or_iff bit_and_iff)
  show ?thesis
    unfolding ns_lcr_after_def Let_def
    by (cases "cf_parity c"; cases "cf_stop_bits c"; cases "cf_data_bits c") (auto simp only: keep put option.case stop_bits.distinct split: stop_bits.split if_split)
qed

lemma ns_lcr_parity: "parity_of (ns_lcr_after c v) = (case cf_parity c of None \<Rightarrow> parity_of v | Some p \<Rightarrow> p)"
proof -
  have keep: "parity_of ((w AND NOT 3) OR word_length b) = parity_of w" "parity_of (w AND NOT 4) = parity_of w"
      "parity_of (w OR 4) = parity_of w" "parity_of (w AND NOT 0x80) = parity_of w" for w b
    by (cases b; simp add: parity_of_def lcr_flags bit_or_iff bit_and_iff)
      (simp_all add: parity_of_def lcr_flags bit_or_iff bit_and_iff)
  have put: "parity_of ((w AND NOT 0x38) OR parity_flags p) = p" for w p
    by (cases p) (simp_all add: parity_of_def lcr_flags bit_or_iff bit_and_iff)
  show ?thesis
    unfolding ns_lcr_after_def Let_def
    by (cases "cf_parity c"; cases "cf_stop_bits c"; cases "cf_data_bits c") (auto simp only: keep put option.case split: stop_bits.split if_split)
qed

lemma ns_config_effect:
  assumes "ns_law K regs"
    and "\<forall>b. cf_baudrate c = Some b \<longrightarrow> 0 < b \<and> 16 * b < 2 ^ 32 \<and> n_clock_freq n div (16 * b) \<in> {1..0xFFFF}"
  shows "\<exists>h'. ns_set_config K n c h = (h', Ok ()) \<and> r_lcr (regs h') = ns_lcr_after c (r_lcr (regs h)) \<and>
     r_fifo (regs h') = r_fifo (regs h) \<and> r_ier (regs h') = r_ier (regs h) \<and>
     unat (r_dll (regs h')) + 256 * unat (r_dlh (regs h')) =
       (case cf_baudrate c of None \<Rightarrow> unat (r_dll (regs h)) + 256 * unat (r_dlh (regs h)) | Some b \<Rightarrow> n_clock_freq n div (16 * b))"
proof -
  note lcr = ns_lcr(3) [OF assms(1)]
  obtain h1 where h1: "when_some (cf_baudrate c) (ns_set_baudrate K n) h = (h1, Ok ())"
    "r_lcr (regs h1) = (if cf_baudrate c = None then r_lcr (regs h) else r_lcr (regs h) AND NOT 0x80)"
    "r_fifo (regs h1) = r_fifo (regs h) \<and> r_ier (regs h1) = r_ier (regs h)"
    "unat (r_dll (regs h1)) + 256 * unat (r_dlh (regs h1)) =
       (case cf_baudrate c of None \<Rightarrow> unat (r_dll (regs h)) + 256 * unat (r_dlh (regs h)) | Some b \<Rightarrow> n_clock_freq n div (16 * b))"
  proof (cases "cf_baudrate c")
    case None
    then show thesis using that [of h] by (simp add: when_some_def)
  next
    case (Some b)
    define d where "d = n_clock_freq n div (16 * b)"
    have d: "0 < b" "16 * b < 2 ^ 32" "0 < d" "d \<le> 0xFFFF" using assms(2) Some by (simp_all add: d_def)
    obtain h1 where h1: "ns_set_baudrate K n b h = (h1, Ok ())"
        "regs h1 = (regs h)\<lparr>r_dll := of_nat (d mod 256), r_dlh := of_nat (d div 256), r_lcr := r_lcr (regs h) AND NOT 0x80\<rparr>"
      using ns_baudrate_effect [OF assms(1) d(1,2) d_def d(3,4)] by blast
    have "unat (of_nat (d mod 256) :: 8 word) = d mod 256" "unat (of_nat (d div 256) :: 8 word) = d div 256"
      using d(4) by (simp_all add: unat_of_nat)
    then have "unat (r_dll (regs h1)) + 256 * unat (r_dlh (regs h1)) = d" by (simp only: h1(2)) simp
    then show thesis using that [of h1] h1 Some by (simp add: when_some_def d_def)
  qed
  define h2 where "h2 = (case cf_data_bits c of None \<Rightarrow> h1 | Some b \<Rightarrow> k_modify K UART_LCR (\<lambda>lcr. (lcr AND NOT 3) OR word_length b) h1)"
  define h3 where "h3 = (case cf_stop_bits c of None \<Rightarrow> h2
    | Some b \<Rightarrow> k_modify K UART_LCR (\<lambda>lcr. case b of OneStop \<Rightarrow> lcr AND NOT 4 | TwoStop \<Rightarrow> lcr OR 4) h2)"
  define h4 where "h4 = (case cf_parity c of None \<Rightarrow> h3 | Some p \<Rightarrow> k_modify K UART_LCR (\<lambda>lcr. (lcr AND NOT 0x38) OR parity_flags p) h3)"
  have run: "ns_set_config K n c h = (h4, Ok ())"
    using h1(1) by (simp add: ns_set_config_def when_some_def ns_set_data_bits_def ns_set_stop_bits_def ns_set_parity_def
        h2_def h3_def h4_def split: option.split)
  have r2: "regs h2 = (regs h1)\<lparr>r_lcr := case cf_data_bits c of None \<Rightarrow> r_lcr (regs h1) | Some b \<Rightarrow> (r_lcr (regs h1) AND NOT 3) OR word_length b\<rparr>"
    unfolding h2_def by (cases "cf_data_bits c") (simp_all only: lcr option.case, simp)
  have r3: "regs h3 = (regs h2)\<lparr>r_lcr := case cf_stop_bits c of None \<Rightarrow> r_lcr (regs h2)
      | Some OneStop \<Rightarrow> r_lcr (regs h2) AND NOT 4 | Some TwoStop \<Rightarrow> r_lcr (regs h2) OR 4\<rparr>"
    unfolding h3_def by (cases "cf_stop_bits c") (simp_all only: lcr option.case, simp)
  have r4: "regs h4 = (regs h3)\<lparr>r_lcr := case cf_parity c of None \<Rightarrow> r_lcr (regs h3) | Some p \<Rightarrow> (r_lcr (regs h3) AND NOT 0x38) OR parity_flags p\<rparr>"
    unfolding h4_def by (cases "cf_parity c") (simp_all only: lcr option.case, simp)
  have sel: "r_lcr (r\<lparr>r_lcr := v\<rparr>) = v" for r :: ns_regs and v by simp
  have "r_lcr (regs h4) = ns_lcr_after c (r_lcr (regs h))"
    by (simp only: ns_lcr_after_def Let_def sel r4 r3 r2 h1(2))
  moreover have "r_fifo (regs h4) = r_fifo (regs h1)" "r_ier (regs h4) = r_ier (regs h1)" "r_dll (regs h4) = r_dll (regs h1)" "r_dlh (regs h4) = r_dlh (regs h1)"
    by (simp_all add: r4 r3 r2)
  ultimately show ?thesis using run h1(3,4) by auto
qed

text \<open>A 16550 of which only these registers exist.\<close>

definition demo_kind :: "ns_regs kind_hw" where
  "demo_kind =
     \<lparr>k_read = (\<lambda>r h. (h, if r = UART_LCR then r_lcr h else if r = UART_IIR then (if r_fifo h then 0xC1 else 1)
        else if r = UART_DLH then (if bit (r_lcr h) 7 then r_dlh h else r_ier h)
        else if r = UART_DLL \<and> bit (r_lcr h) 7 then r_dll h else 0)),
      k_write = (\<lambda>r v h.
        if r = UART_LCR then h\<lparr>r_lcr := v\<rparr>
        else if r = UART_FCR then h\<lparr>r_fifo := bit v 0\<rparr>
        else if bit (r_lcr h) 7 then (if r = UART_DLL then h\<lparr>r_dll := v\<rparr> else if r = UART_DLH then h\<lparr>r_dlh := v\<rparr> else h)
        else h)\<rparr>"

lemma demo_kind_law: "ns_law demo_kind (\<lambda>h. h)"
  by (simp add: ns_law_def demo_kind_def has_flag_def)

text \<open>
  \<^bold>\<open>C40.\<close> On a 16550 \<open>set_config\<close> with a baud rate that can be set or none programs the divisor, gives back access to the data
  registers by clearing \<open>DLAB\<close>, leaves the FIFOs as they are, and data bits, stop bits and parity read as configured and, where
  nothing was configured, as before.  After a baud rate was set, \<open>baudrate\<close> does not return it: with \<open>DLAB\<close> clear it takes the
  receive buffer and the interrupt enable register for the divisor.
\<close>

theorem ns_config_roundtrip:
  assumes "ns_law K regs"
    and "\<forall>b. cf_baudrate c = Some b \<longrightarrow> 0 < b \<and> 16 * b < 2 ^ 32 \<and> n_clock_freq n div (16 * b) \<in> {1..0xFFFF}"
  shows "\<exists>h'. ns_set_config K n c h = (h', Ok ()) \<and>
     unat (r_dll (regs h')) + 256 * unat (r_dlh (regs h')) =
       (case cf_baudrate c of None \<Rightarrow> unat (r_dll (regs h)) + 256 * unat (r_dlh (regs h)) | Some b \<Rightarrow> n_clock_freq n div (16 * b)) \<and>
     (cf_baudrate c \<noteq> None \<longrightarrow> \<not> bit (r_lcr (regs h')) 7) \<and> r_fifo (regs h') = r_fifo (regs h) \<and>
     snd (ns_data_bits K h') = (case cf_data_bits c of None \<Rightarrow> snd (ns_data_bits K h) | Some b \<Rightarrow> b) \<and>
     snd (ns_stop_bits K h') = (case cf_stop_bits c of None \<Rightarrow> snd (ns_stop_bits K h) | Some b \<Rightarrow> b) \<and>
     snd (ns_parity K h') = (case cf_parity c of None \<Rightarrow> snd (ns_parity K h) | Some p \<Rightarrow> p) \<and>
     (cf_baudrate c \<noteq> None \<longrightarrow> snd (ns_baudrate K n h') =
        (let d = unat (snd (k_read K UART_DLL h')) + 256 * unat (r_ier (regs h))
         in if d = 0 then 0 else n_clock_freq n div (16 * d)))"
proof -
  obtain h' where h': "ns_set_config K n c h = (h', Ok ())" "r_lcr (regs h') = ns_lcr_after c (r_lcr (regs h))"
      "r_fifo (regs h') = r_fifo (regs h)" "r_ier (regs h') = r_ier (regs h)"
      "unat (r_dll (regs h')) + 256 * unat (r_dlh (regs h')) =
        (case cf_baudrate c of None \<Rightarrow> unat (r_dll (regs h)) + 256 * unat (r_dlh (regs h)) | Some b \<Rightarrow> n_clock_freq n div (16 * b))"
    using ns_config_effect [OF assms] by blast
  have "snd (ns_data_bits K h') = (case cf_data_bits c of None \<Rightarrow> snd (ns_data_bits K h) | Some b \<Rightarrow> b)"
    "snd (ns_parity K h') = (case cf_parity c of None \<Rightarrow> snd (ns_parity K h) | Some p \<Rightarrow> p)"
    by (simp_all only: ns_getters [OF assms(1)] h'(2) ns_lcr_data ns_lcr_parity)
  moreover have "snd (ns_stop_bits K h') = (case cf_stop_bits c of None \<Rightarrow> snd (ns_stop_bits K h) | Some b \<Rightarrow> b)"
    by (auto simp only: ns_getters [OF assms(1)] h'(2) ns_lcr_stop split: option.split if_split)
      (metis (full_types) stop_bits.exhaust)+
  moreover have "bit (word_length b) 7 = False" "bit (parity_flags p) 7 = False" for b p
    by (cases b; simp) (cases p; simp)
  then have "cf_baudrate c \<noteq> None \<longrightarrow> \<not> bit (ns_lcr_after c v) 7" for v
    by (auto simp: ns_lcr_after_def Let_def bit_or_iff bit_and_iff split: option.split stop_bits.split)
  then have dlab: "cf_baudrate c \<noteq> None \<longrightarrow> \<not> bit (r_lcr (regs h')) 7" using h'(2) by simp
  moreover have "cf_baudrate c \<noteq> None \<longrightarrow> snd (ns_baudrate K n h') =
      (let d = unat (snd (k_read K UART_DLL h')) + 256 * unat (r_ier (regs h)) in if d = 0 then 0 else n_clock_freq n div (16 * d))"
    using dlab ns_get_baudrate [OF assms(1), of h' n] h'(4) by simp
  ultimately show ?thesis using h'(1,3,5) by (intro exI [of _ h'] conjI) assumption+
qed

theorem ns_config_roundtrip_witness:
  "\<exists>h'. ns_set_config demo_kind (new_mmio 0x10000000 1843200)
        \<lparr>cf_baudrate = Some 9600, cf_data_bits = Some Seven, cf_stop_bits = Some TwoStop, cf_parity = Some SpaceParity\<rparr>
        \<lparr>r_lcr = 3, r_dll = 1, r_dlh = 0, r_fifo = False, r_ier = 5\<rparr> = (h', Ok ()) \<and>
     unat (r_dll h') + 256 * unat (r_dlh h') = 12 \<and> snd (ns_data_bits demo_kind h') = Seven \<and> snd (ns_parity demo_kind h') = SpaceParity \<and>
     snd (ns_baudrate demo_kind (new_mmio 0x10000000 1843200) h') = 90"
  using ns_config_roundtrip [OF demo_kind_law,
      of "\<lparr>cf_baudrate = Some 9600, cf_data_bits = Some Seven, cf_stop_bits = Some TwoStop, cf_parity = Some SpaceParity\<rparr>"
        "new_mmio 0x10000000 1843200" "\<lparr>r_lcr = 3, r_dll = 1, r_dlh = 0, r_fifo = False, r_ier = 5\<rparr>"]
  by (auto simp: new_mmio_def) (simp add: demo_kind_def)

text \<open>
  \<open>enable_fifo(true)\<close> cannot turn the FIFOs of a 16550 on: it first asks \<open>is_16550_plus\<close>, which reports whether the FIFOs are
  on already, and otherwise turns them off.
\<close>

theorem ns_fifo_never_turned_on:
  assumes "ns_law K regs"
  shows "r_fifo (regs (ns_enable_fifo K enable h)) \<longleftrightarrow> enable \<and> r_fifo (regs h)"
proof -
  obtain h1 iir where iir: "k_read K UART_IIR h = (h1, iir)" by fastforce
  then have "has_flag iir 0xC0 \<longleftrightarrow> r_fifo (regs h)" using assms unfolding ns_law_def by (metis snd_conv)
  moreover have "regs (k_write K UART_FCR v h) = (regs h)\<lparr>r_fifo := bit v 0\<rparr>" for v h using assms by (simp add: ns_law_def)
  ultimately show ?thesis using iir by (simp add: ns_enable_fifo_def is_16550_plus_def)
qed

theorem ns_fifo_never_turned_on_witness:
  "\<not> r_fifo (ns_enable_fifo demo_kind True \<lparr>r_lcr = 3, r_dll = 1, r_dlh = 0, r_fifo = False, r_ier = 5\<rparr>)"
  using ns_fifo_never_turned_on [OF demo_kind_law, of True "\<lparr>r_lcr = 3, r_dll = 1, r_dlh = 0, r_fifo = False, r_ier = 5\<rparr>"] by simp

end
