(* ===== verification/Spec2Isabelle.thy ===== *)
theory Spec2Isabelle
  imports Alloc_Properties Paging_Properties Kernel_Properties Memory_Properties Nvme_Properties Gic_V3_Properties
    Serial_Properties
begin

text \<open>
  \<^bold>\<open>Verification of sparreal-os.\<close>

  sparreal-os is an operating system kernel in Rust.  The boot crate (\<open>crates/someboot\<close>) builds the map
  of the physical memory, a linear allocator, the boot page tables and the per-CPU areas; the kernel crate
  (\<open>crates/sparreal-kernel\<close>) adds interrupt handling, timers, locks and an asynchronous executor; the
  driver crates (\<open>driver/\<close>) talk to devices, among them the PCIe host bridges, whose address windows
  are given out by an interval-tree allocator.  The development models the parts that decide something
  (allocators, tables, queues, state machines) as executable functions on explicit states and proves what
  the rest of the system relies on.

  \<^bold>\<open>Conventions\<close> (theory \<open>Prelude\<close>).  A call that can fail returns \<open>Ok\<close>, \<open>Err\<close> or \<open>Panic\<close>; \<open>Panic\<close> covers
  \<open>panic!\<close>, a failing \<open>unwrap\<close>, an index out of range and the overflow of a plain operator.  A stateful
  call takes the state and returns the new state with the result, also when it fails.  Integers of 64
  bits are natural numbers with the bound \<open>U64_MAX\<close>, and every operation that can leave the range is
  checked, saturating or wrapping as in the source; page table entries are words.  Code outside the
  repository is a field of a parameter record, and what is assumed of it is a named predicate
  (\<open>aligns_up\<close> for \<open>num_align\<close>, \<open>heapless_128\<close> for the capacity of the memory map).

  \<^bold>\<open>Parts and theories.\<close>

  \<^item> PCIe address allocator, \<open>driver/interface/rdif-pcie/src/addr_alloc\<close>: \<open>Addr_Range\<close> (ranges,
    constraints, alignment), \<open>Interval_Tree\<close> (the AVL tree and all its operations),
    \<open>Interval_Tree_Balance\<close> (search-tree order and balance), \<open>Interval_Tree_Alloc\<close>,
    \<open>Interval_Tree_Free\<close>, \<open>Interval_Tree_Total\<close> (refinement of a set of free addresses, absence of
    panics), \<open>Addr_Alloc\<close> (the allocator and the BAR windows of the bridge) and \<open>Id_Alloc\<close> (identifiers).
    The properties are in \<open>Alloc_Properties\<close>.

  \<^item> Ranges with kinds, \<open>crates/ranges-ext\<close>: \<open>Ranges_Ext\<close>.  The trait \<open>RangeOp\<close> is a record of functions; what
    \<open>merge_add\<close> needs of it is the locale \<open>range_op_laws\<close>, interpreted for the memory descriptors.

  \<^item> Boot memory, \<open>crates/kernutil/src/memory.rs\<close> and \<open>crates/someboot/src/{mem,fdt}\<close>: \<open>Static_Cell\<close> (the
    cell that holds the map), \<open>Memory_Map\<close> (descriptors, map, linear allocator, device tree, address
    translation) and \<open>Boot_Sequence\<close> (\<open>early_init\<close>: what the map and the allocator are when it ends).

  \<^item> Per-CPU areas, \<open>crates/someboot/src/smp\<close>: \<open>Percpu\<close> (processor iterator, sizes and offsets),
    \<open>Percpu_Alloc\<close> (both layouts on a memory of bytes, metadata iterators, \<open>init_percpu\<close>, \<open>early_init\<close>),
    \<open>Percpu_Laws\<close> (bytes read back; the locale \<open>percpu_layout\<close>, what the iterators need of a layout) and
    \<open>Percpu_Init\<close> (both layouts are instances, and \<open>alloc_percpu\<close> puts every area in its place).  The
    properties of boot memory and per-CPU areas are in \<open>Memory_Properties\<close>.

  \<^item> Page tables, \<open>crates/page-table-generic\<close> and \<open>crates/someboot/src/arch/x86_64/paging.rs\<close>:
    \<open>Page_Table\<close> (frames, map, unmap, translate, walk), \<open>Page_Table_Tree\<close> (frames form a tree),
    \<open>Page_Table_Map\<close>, \<open>Page_Table_Range\<close> (correctness of \<open>map\<close> under locales for entries and frame
    allocators), \<open>X86_Paging\<close> (x86-64 entries and the boot allocator as the instance).  The properties are
    in \<open>Paging_Properties\<close>.

  \<^item> Kernel services, \<open>crates/sparreal-kernel/src/os\<close>: \<open>Spinlock\<close> (interrupt guard and lock; any number
    of CPUs as a step relation), \<open>Btree_Map\<close> (the ordered map of \<open>alloc\<close>), \<open>Timer\<close>, \<open>Timer_Laws\<close>,
    \<open>Timer_Kernel\<close> (software timers over the tick hardware and the interrupt table), \<open>Executor\<close>,
    \<open>Executor_Laws\<close>, \<open>Executor_Run\<close> (tasks, wakeups and the run loop).  The properties are in
    \<open>Kernel_Properties\<close>.

  \<^item> DMA and block devices, \<open>crates/dma-api\<close>, \<open>driver/interface/rdif-block\<close>, \<open>driver/block/{ramdisk,rd-block}\<close>:
    \<open>Bytes\<close> (memory as a function to bytes), \<open>Dma_Api\<close> (handles, arrays, boxes, mapped slices and pools over a CPU
    and a device view of memory), \<open>Rdif_Block\<close> (requests, errors, identifier sets, the traits as records),
    \<open>Ramdisk\<close>, \<open>Rd_Block\<close> (queues, the read and write futures, interrupts and wakers), \<open>Block_Device\<close> and
    \<open>Block_Read\<close> (the locale \<open>block_device\<close>, what the block layer needs of a driver, and what it then gives
    its clients), \<open>Ramdisk_Device\<close> (the RAM disk is an instance).  The properties are in \<open>Block_Properties\<close>.

  \<^item> NVMe, \<open>driver/block/nvme\<close>: \<open>Nvme_Command\<close> (commands and identify data as bytes), \<open>Nvme_Queue\<close> (rings and
    doorbells), \<open>Nvme\<close> (registers, initialisation, identify), \<open>Nvme_Block\<close> (namespaces, transfers, the block
    device), \<open>Nvme_Ring\<close> (positions in the rings as counters; the hypothesis \<open>serves\<close> on the controller).
    The properties are in \<open>Nvme_Properties\<close>, with a small controller that satisfies \<open>serves\<close>.

  \<^item> Interrupt controllers, \<open>driver/intc/gic\<close>: \<open>Registers\<close> (the bit fields of \<open>tock_registers\<close>, a parameter with
    the law \<open>tock_law\<close>), \<open>Gic_Define\<close> (interrupt identifiers, device tree specifiers, one bit per interrupt),
    \<open>Gic_V2\<close> (distributor, driver and CPU interface), \<open>Gic_Virt\<close> (virtual interrupts), \<open>Gic_Arch\<close> (what the
    architecture says of the registers, write-ignored fields included, as the hypotheses \<open>gicd_law\<close> and \<open>ctlr_law\<close>), with the properties in
    \<open>Gic_Properties\<close>; \<open>Gic_V3\<close> (distributor, affinities, routes), \<open>Gic_Redist\<close> (redistributors), \<open>Gic_V3_Driver\<close>
    (driver, software generated interrupts, CPU interface), \<open>Gic_V3_Laws\<close> (the architecture again, with the
    registers that only take effect while affinity routing is on), with the
    properties in \<open>Gic_V3_Properties\<close>.

  \<^item> Serial ports, \<open>driver/interface/rdif-serial\<close> and \<open>driver/serial\<close>: \<open>Rdif_Serial\<close> (configuration, byte loops, the
    receive buffer of \<open>SerialDyn\<close> and the interface \<open>receiver\<close> it needs of a port), \<open>Pl011\<close>, \<open>Ns16550\<close> (the two drivers),
    \<open>Serial_Receive\<close> (the receive side of the hardware and the steps of arrival, interrupt and read), \<open>Serial_Config\<close>
    (what the configuration registers do, as the hypotheses \<open>pl_cfg_law\<close>, in which the busy flag of a disabled PL011
    stays set while characters are queued, and \<open>ns_law\<close>), with the properties in
    \<open>Serial_Properties\<close>.

  \<^bold>\<open>What is shown.\<close>  The interval tree refines a set of free addresses: a grant of the
  first or last match is free, aligned and becomes allocated, a release gives back exactly its range, nothing panics, and
  every tree that a run of calls reaches is of logarithmic height.
  A \<open>map\<close> request makes exactly its range translate to the requested memory; whatever its outcome it keeps the
  table a tree of frames and all other translations, and each of its errors has its own stated cause.  The lock excludes, with interrupts off, on any number of CPUs; timers fire in the order of
  their deadlines and the hardware stays armed for the next one; wakeups are not lost and \<open>block_on\<close>
  returns.  The boot map answers for every address with the last kind recorded, the allocator gives out
  fresh memory, and each CPU gets its own metadata, template copy and stack in either layout.  What is
  written to a block device is what is read back; the NVMe rings run commands in order.  The interrupt
  controllers end up in a stated configuration, and single interrupts are set up, routed and sent exactly.  Serial
  ports deliver in order what the buffer can hold, and their configuration can be read back, the baud rate of the
  NS16550 excepted.  Some
  theorems pin down behaviour that the code probably does not intend (an exact match inside an
  allocated range, a release of a range that is free already, routes of interrupts written before affinity routing is
  on, a wait for a disabled PL011 to send what it has queued, a handler that registers a handler, waking a registered task by its identifier).

  \<^bold>\<open>Loops, fuel and bounds.\<close>  Recursion of the source that terminates is a function with its termination
  proof.  Loops that need not end return an option (\<open>partial_function\<close>): the metadata iterators, the run loop of the
  executor, the waits of the drivers for their hardware and the loop that empties a serial port, for which it is
  proved that they return when the hardware does its part.  The loop that drains the wakeup
  queue takes as its number of rounds the length of the queue, which is shown to be enough; a lock is
  tried a fixed number of times, as in the source.

  \<^bold>\<open>Not modelled.\<close>  The network driver and its interface, the registry of drivers, the enumeration of PCIe
  devices, the assembly and register code of the architectures, the parsers of ACPI and device trees (their results are parameters), console
  output, and the macros of the workspace.  Caches and weak memory ordering are outside the model: a
  memory of bytes is sequentially consistent and \<open>phys_to_virt(p)\<close> is dereferenced at \<open>p\<close>.
  The receive buffer of a serial port has no lock, and an interrupt in the middle of a read is not modelled.
\<close>

end
